(* ===== verification/Dobby_Prelude.thy ===== *)
theory Dobby_Prelude
  imports Main "HOL-Library.Word"
begin

text \<open>
  Shared vocabulary of the development: the fixed-width integer types of the sources, results
  with errors and their sequencing, little-endian byte lists, and the bit-field and alignment
  macros of \<^verbatim>\<open>dobby/utility_macro.h\<close> with the facts about them that the components use.
  Addresses are those of an LP64 build (\<^verbatim>\<open>uintptr_t\<close> has 64 bits).
\<close>

unbundle bit_operations_syntax

named_theorems res_simps \<open>sequencing of results with errors\<close>
named_theorems bytes_simps \<open>lengths and contents of little-endian byte lists\<close>
named_theorems field_simps_arm \<open>bit fields of instruction words\<close>

type_synonym u8 = "8 word"
type_synonym u16 = "16 word"
type_synonym u32 = "32 word"
type_synonym u64 = "64 word"
type_synonym addr = "64 word"

lemma unat_u8: "unat (b :: u8) < 256"
  using unsigned_less [of b] by (simp add: word_less_nat_alt)

subsection \<open>Results with errors\<close>

definition bind_res :: "'e + 'a \<Rightarrow> ('a \<Rightarrow> 'e + 'b) \<Rightarrow> 'e + 'b" where
  "bind_res r f = (case r of Inl e \<Rightarrow> Inl e | Inr x \<Rightarrow> f x)"

lemma bind_res_simps [simp, res_simps]:
  "bind_res (Inl e) f = Inl e"
  "bind_res (Inr x) f = f x"
  by (simp_all add: bind_res_def)

lemma bind_res_Inr_iff [res_simps]:
  "bind_res r f = Inr y \<longleftrightarrow> (\<exists>x. r = Inr x \<and> f x = Inr y)"
  by (cases r) auto

lemma bind_res_Inl_iff [res_simps]:
  "bind_res r f = Inl e \<longleftrightarrow> r = Inl e \<or> (\<exists>x. r = Inr x \<and> f x = Inl e)"
  by (cases r) auto

lemma bind_res_cong [fundef_cong]:
  "r = r' \<Longrightarrow> (\<And>x. r' = Inr x \<Longrightarrow> f x = g x) \<Longrightarrow> bind_res r f = bind_res r' g"
  by (cases r') auto

subsection \<open>Little-endian byte lists\<close>

definition le_bytes :: "nat \<Rightarrow> 'a::len word \<Rightarrow> u8 list" where
  "le_bytes n w = map (\<lambda>i. ucast (drop_bit (8 * i) w)) [0..<n]"

fun le_word :: "u8 list \<Rightarrow> 'a::len word" where
  "le_word [] = 0"
| "le_word (b # bs) = ucast b OR push_bit 8 (le_word bs)"

lemma length_le_bytes [simp, bytes_simps]: "length (le_bytes n w) = n"
  by (simp add: le_bytes_def)

lemma nth_le_bytes [bytes_simps]: "i < n \<Longrightarrow> le_bytes n w ! i = ucast (drop_bit (8 * i) w)"
  by (simp add: le_bytes_def)

lemma bit_le_word:
  "bit (le_word bs :: 'a::len word) k \<longleftrightarrow>
     k < LENGTH('a) \<and> k div 8 < length bs \<and> bit (bs ! (k div 8)) (k mod 8)"
proof (induction bs arbitrary: k)
  case Nil
  then show ?case by simp
next
  case (Cons b bs)
  show ?case
  proof (cases "k < 8")
    case True
    then show ?thesis by (auto simp: bit_simps)
  next
    case False
    then obtain j where k: "k = j + 8" by (metis add.commute le_Suc_ex not_less)
    then have "k div 8 = Suc (j div 8)" "k mod 8 = j mod 8" by auto
    moreover have "\<not> bit b k" using False by (auto dest: bit_imp_le_length)
    ultimately show ?thesis using Cons.IH [of j] by (auto simp: bit_simps k dest: bit_imp_le_length)
  qed
qed

lemma le_word_le_bytes [simp, bytes_simps]:
  fixes w :: "'a::len word"
  assumes "LENGTH('a) \<le> 8 * n"
  shows "(le_word (le_bytes n w) :: 'a word) = w"
proof (rule bit_word_eqI)
  fix k assume k: "k < LENGTH('a)"
  then have d: "k div 8 < n" using assms by (simp add: less_mult_imp_div_less mult.commute)
  have "8 * (k div 8) + k mod 8 = k" by simp
  with k d show "bit (le_word (le_bytes n w) :: 'a word) k = bit w k"
    by (simp add: bit_le_word nth_le_bytes bit_simps)
qed

lemma le_bytes_le_word:
  assumes "8 * length bs \<le> LENGTH('a::len)"
  shows "le_bytes (length bs) (le_word bs :: 'a word) = bs"
proof (rule nth_equalityI)
  fix i assume "i < length (le_bytes (length bs) (le_word bs :: 'a word))"
  then have i: "i < length bs" by simp
  show "le_bytes (length bs) (le_word bs :: 'a word) ! i = bs ! i"
  proof (rule bit_word_eqI)
    fix j assume "j < LENGTH(8)"
    then have j: "j < 8" by simp
    then have "8 * i + j < LENGTH('a)" "(8 * i + j) div 8 = i" "(8 * i + j) mod 8 = j"
      using i assms by auto
    with i j show "bit (le_bytes (length bs) (le_word bs :: 'a word) ! i) j = bit (bs ! i) j"
      by (simp add: nth_le_bytes bit_simps bit_le_word)
  qed
qed simp

subsection \<open>Bit-field and alignment macros (dobby/utility_macro.h)\<close>

definition submask :: "nat \<Rightarrow> 'a::len word" where
  "submask x = push_bit (x + 1) 1 - 1"

definition bits :: "'a::len word \<Rightarrow> nat \<Rightarrow> nat \<Rightarrow> 'a word" where
  "bits obj st fn = drop_bit st obj AND submask (fn - st)"

definition bit1 :: "'a::len word \<Rightarrow> nat \<Rightarrow> 'a word" where
  "bit1 obj st = drop_bit st obj AND 1"

definition set_bit1 :: "'a::len word \<Rightarrow> nat \<Rightarrow> 'a word \<Rightarrow> 'a word" where
  "set_bit1 obj st b = (NOT (push_bit st 1) AND obj) OR push_bit st b"

definition set_bits :: "'a::len word \<Rightarrow> nat \<Rightarrow> nat \<Rightarrow> 'a word \<Rightarrow> 'a word" where
  "set_bits obj st fn b = (NOT (push_bit st (submask (fn - st))) AND obj) OR push_bit st b"

definition LeftShift :: "'a::len word \<Rightarrow> nat \<Rightarrow> nat \<Rightarrow> 'a word" where
  "LeftShift a b c = push_bit c (a AND (push_bit b 1 - 1))"

definition RightShift :: "'a::len word \<Rightarrow> nat \<Rightarrow> nat \<Rightarrow> 'a word" where
  "RightShift a b c = drop_bit c a AND (push_bit b 1 - 1)"

definition ALIGN_FLOOR :: "addr \<Rightarrow> addr \<Rightarrow> addr" where
  "ALIGN_FLOOR address rng = address AND NOT (rng - 1)"

definition ALIGN_CEIL :: "addr \<Rightarrow> addr \<Rightarrow> addr" where
  "ALIGN_CEIL address rng = (address + rng - 1) AND NOT (rng - 1)"

lemma submask_eq_mask: "submask x = mask (x + 1)"
  by (simp add: submask_def mask_eq_decr_exp push_bit_of_1)

lemma bit_bits [field_simps_arm]:
  "st \<le> fn \<Longrightarrow> bit (bits (obj :: 'a::len word) st fn) k \<longleftrightarrow>
     k \<le> fn - st \<and> k < LENGTH('a) \<and> bit obj (st + k)"
  by (auto simp: bits_def submask_eq_mask bit_simps dest: bit_imp_le_length)

lemma bit_bit1 [field_simps_arm]:
  "bit (bit1 (obj :: 'a::len word) st) k \<longleftrightarrow> k = 0 \<and> bit obj st"
  by (auto simp: bit1_def bit_simps)

lemma bit_set_bits [field_simps_arm]:
  "st \<le> fn \<Longrightarrow> bit (set_bits (obj :: 'a::len word) st fn b) k \<longleftrightarrow>
     k < LENGTH('a) \<and> ((\<not> (st \<le> k \<and> k \<le> fn) \<and> bit obj k) \<or> (st \<le> k \<and> bit b (k - st)))"
  by (auto simp: set_bits_def submask_eq_mask bit_simps dest: bit_imp_le_length)

lemma bit_LeftShift [field_simps_arm]:
  "bit (LeftShift (a :: 'a::len word) b c) k \<longleftrightarrow>
     k < LENGTH('a) \<and> c \<le> k \<and> k - c < b \<and> bit a (k - c)"
  by (auto simp: LeftShift_def push_bit_of_1 simp flip: mask_eq_decr_exp) (auto simp: bit_simps)

subsection \<open>Fixed bits of an instruction\<close>

text \<open>A test of fixed bits that fails, a smaller test, and a single bit, given the fixed bits of the instruction.\<close>

lemma and_mask_neq:
  fixes w :: "'a::len word"
  assumes "w AND m = c" "c AND m' \<noteq> c' AND m"
  shows "(w AND m' = c') = False"
proof
  assume "w AND m' = c'"
  then have "c' AND m = (w AND m) AND m'" by (metis and.assoc and.commute)
  with assms show False by simp
qed simp

lemma and_submask:
  fixes w :: "'a::len word"
  shows "w AND m = c \<Longrightarrow> m AND m' = m' \<Longrightarrow> w AND m' = c AND m'"
  by (metis and.assoc)

lemma and_mask_bit:
  fixes w :: "'a::len word"
  shows "w AND m = c \<Longrightarrow> bit m k \<Longrightarrow> bit w k = bit c k"
  by (auto simp: bit_and_iff)

end
