(* ===== verification/Arm64_Kit.thy ===== *)
theory Arm64_Kit
  imports Dobby_Prelude
begin

text \<open>
  \<^verbatim>\<open>InstructionRelocation/arm64/inst_decode_encode_kit.h\<close>: the decoders and encoders of
  the PC-relative immediates of A64 instructions. An instruction word is a \<^typ>\<open>u32\<close>, an
  \<^verbatim>\<open>int64_t\<close> offset is a \<^typ>\<open>u64\<close> read in two's complement. The lemmas state what a decoder
  computes (a signed, scaled immediate), that encoding and decoding are inverse on the offsets
  the field can hold, and that encoding leaves the other bits of the word alone.
\<close>

definition SignExtend :: "u64 \<Rightarrow> nat \<Rightarrow> u64" where
  "SignExtend x M = (let sign_bit = bit1 x (M - 1); sign_mask = 0 - sign_bit
     in x OR push_bit M (drop_bit M sign_mask))"

definition decode_imm14_offset :: "u32 \<Rightarrow> u64" where
  "decode_imm14_offset instr =
     (let imm14 = ucast (bits instr 5 18) :: u64; offset = push_bit 2 imm14
      in SignExtend offset (2 + 14))"

definition encode_imm14_offset :: "u32 \<Rightarrow> u64 \<Rightarrow> u32" where
  "encode_imm14_offset instr offset =
     (let imm14 = ucast (bits (signed_drop_bit 2 offset) 0 13) in set_bits instr 5 18 imm14)"

definition decode_imm19_offset :: "u32 \<Rightarrow> u64" where
  "decode_imm19_offset instr =
     (let imm19 = ucast (bits instr 5 23) :: u64; offset = push_bit 2 imm19
      in SignExtend offset (2 + 19))"

definition encode_imm19_offset :: "u32 \<Rightarrow> u64 \<Rightarrow> u32" where
  "encode_imm19_offset instr offset =
     (let imm19 = ucast (bits (signed_drop_bit 2 offset) 0 18) in set_bits instr 5 23 imm19)"

definition decode_imm26_offset :: "u32 \<Rightarrow> u64" where
  "decode_imm26_offset instr =
     (let imm26 = ucast (bits instr 0 25) :: u64; offset = push_bit 2 imm26
      in SignExtend offset (2 + 26))"

definition encode_imm26_offset :: "u32 \<Rightarrow> u64 \<Rightarrow> u32" where
  "encode_imm26_offset instr offset =
     (let imm26 = ucast (bits (signed_drop_bit 2 offset) 0 25) in set_bits instr 0 25 imm26)"

text \<open>The bit-field struct \<^verbatim>\<open>Rd:5, immhi:19, dummy_0:5, immlo:2, op:1\<close> laid over the word.\<close>

record adr_fields =
  Rd_f :: u32
  immhi_f :: u32
  dummy_0_f :: u32
  immlo_f :: u32
  op_f :: u32

definition adr_unpack :: "u32 \<Rightarrow> adr_fields" where
  "adr_unpack instr = \<lparr>Rd_f = take_bit 5 instr, immhi_f = take_bit 19 (drop_bit 5 instr),
     dummy_0_f = take_bit 5 (drop_bit 24 instr), immlo_f = take_bit 2 (drop_bit 29 instr),
     op_f = take_bit 1 (drop_bit 31 instr)\<rparr>"

definition adr_pack :: "adr_fields \<Rightarrow> u32" where
  "adr_pack f = take_bit 5 (Rd_f f) OR push_bit 5 (take_bit 19 (immhi_f f)) OR
     push_bit 24 (take_bit 5 (dummy_0_f f)) OR push_bit 29 (take_bit 2 (immlo_f f)) OR
     push_bit 31 (take_bit 1 (op_f f))"

definition decode_immhi_immlo_offset :: "u32 \<Rightarrow> u64" where
  "decode_immhi_immlo_offset instr =
     (let f = adr_unpack instr; imm = ucast (immlo_f f + push_bit 2 (immhi_f f))
      in SignExtend imm (2 + 19))"

definition encode_immhi_immlo_offset :: "u32 \<Rightarrow> u64 \<Rightarrow> u32" where
  "encode_immhi_immlo_offset instr offset =
     adr_pack ((adr_unpack instr)\<lparr>immlo_f := ucast (bits offset 0 2),
       immhi_f := ucast (bits offset 2 (2 + 19))\<rparr>)"

definition decode_immhi_immlo_zero12_offset :: "u32 \<Rightarrow> u64" where
  "decode_immhi_immlo_zero12_offset instr = push_bit 12 (decode_immhi_immlo_offset instr)"

definition encode_immhi_immlo_zero12_offset :: "u32 \<Rightarrow> u64 \<Rightarrow> u32" where
  "encode_immhi_immlo_zero12_offset instr offset =
     encode_immhi_immlo_offset instr (signed_drop_bit 12 offset)"

definition decode_rt :: "u32 \<Rightarrow> u32" where
  "decode_rt instr = bits instr 0 4"

definition decode_rd :: "u32 \<Rightarrow> u32" where
  "decode_rd instr = bits instr 0 4"

subsection \<open>What the decoders compute\<close>

lemma drop_bit_minus_one: "push_bit M (drop_bit M (-1 :: u64)) = NOT (mask M)"
  by (rule bit_word_eqI) (auto simp: bit_simps)

lemma bit1_cases: "bit1 (x :: 'a::len word) n = (if bit x n then 1 else 0)"
  by (rule bit_word_eqI) (auto simp: bit_bit1 bit_simps)

lemma bit_SignExtend [field_simps_arm]:
  "bit (SignExtend x M) k \<longleftrightarrow> k < 64 \<and> (bit x k \<or> (M \<le> k \<and> bit x (M - 1)))"
  by (auto simp: SignExtend_def Let_def bit1_cases drop_bit_minus_one bit_simps
      dest: bit_imp_le_length)

lemma SignExtend_signed_take_bit:
  assumes "0 < M" "M \<le> 64" "take_bit M x = x"
  shows "SignExtend x M = signed_take_bit (M - 1) x"
proof (rule bit_word_eqI)
  fix k assume k: "k < LENGTH(64)"
  have hi: "\<not> bit x n" if "M \<le> n" for n
    using assms(3) that by (metis bit_take_bit_iff not_less)
  show "bit (SignExtend x M) k = bit (signed_take_bit (M - 1) x) k"
  proof (cases "M \<le> k")
    case True
    then have "min k (M - 1) = M - 1" by simp
    with True k hi [of k] show ?thesis by (auto simp: bit_SignExtend bit_signed_take_bit_iff)
  next
    case False
    then have "min k (M - 1) = k" using assms(1) by linarith
    with False k show ?thesis by (auto simp: bit_SignExtend bit_signed_take_bit_iff)
  qed
qed

text \<open>The signed range condition, read on the bits of the offset.\<close>

lemma sint_range_bit:
  fixes w :: "'a::len word"
  assumes "- (2 ^ n) \<le> sint w" "sint w < 2 ^ n" "k < LENGTH('a)" "n \<le> k"
  shows "bit w k = bit w n"
proof -
  have "signed_take_bit n (sint w) = sint w"
    using assms by (simp add: signed_take_bit_int_eq_self_iff)
  moreover have "bit (signed_take_bit n (sint w)) k = bit (sint w) (min k n)"
    by (simp add: bit_signed_take_bit_iff min.commute)
  ultimately have "bit (sint w) k = bit (sint w) (min k n)" by simp
  with assms(3,4) show ?thesis by (simp add: bit_sint_iff min_def)
qed

lemma sint_rangeI:
  fixes w :: "'a::len word"
  assumes "\<And>k. n \<le> k \<Longrightarrow> k < LENGTH('a) \<Longrightarrow> bit w k = bit w n" "n < LENGTH('a)"
  shows "- (2 ^ n) \<le> sint w \<and> sint w < 2 ^ n"
proof -
  have "signed_take_bit n (sint w) = sint w"
  proof (rule bit_eqI)
    fix k
    show "bit (signed_take_bit n (sint w)) k = bit (sint w) k"
    proof (cases "k \<le> n")
      case True
      then show ?thesis by (simp add: bit_signed_take_bit_iff min_absorb1)
    next
      case False
      then have "bit w (min k (LENGTH('a) - 1)) = bit w n"
        using assms(1) [of "min k (LENGTH('a) - 1)"] assms(2) by simp
      moreover have "bit (sint w) m = bit w (min m (LENGTH('a) - 1))" for m
        by (auto simp: bit_sint_iff min_def not_less dest: bit_imp_le_length)
      ultimately have "bit (sint w) k = bit (sint w) n"
        using assms(2) by (simp add: min_absorb1)
      with False show ?thesis by (simp add: bit_signed_take_bit_iff)
    qed
  qed
  then show ?thesis by (simp add: signed_take_bit_int_eq_self_iff)
qed

lemma aligned_bit: "take_bit n (w :: 'a::len word) = 0 \<Longrightarrow> k < n \<Longrightarrow> \<not> bit w k"
  by (metis bit_0_eq bit_take_bit_iff bot_apply bot_bool_def)

subsection \<open>The contract of a PC-relative field\<close>

text \<open>
  A field holds the bits \<open>scale .. n\<close> of a signed offset; offset bit \<open>k\<close> lives at
  instruction bit \<open>fld k\<close>, bit \<open>n\<close> is the sign, and the bits below \<open>scale\<close> are zero.
\<close>

locale pcrel_field =
  fixes dec :: "u32 \<Rightarrow> u64" and enc :: "u32 \<Rightarrow> u64 \<Rightarrow> u32"
    and scale :: nat and n :: nat and fld :: "nat \<Rightarrow> nat"
  assumes dec_bit: "k < 64 \<Longrightarrow> bit (dec i) k \<longleftrightarrow> scale \<le> k \<and> bit i (fld (min k n))"
    and enc_in: "scale \<le> k \<Longrightarrow> k \<le> n \<Longrightarrow> bit (enc i off) (fld k) = bit off k"
    and enc_out: "b < 32 \<Longrightarrow> (\<And>k. scale \<le> k \<Longrightarrow> k \<le> n \<Longrightarrow> b \<noteq> fld k) \<Longrightarrow> bit (enc i off) b = bit i b"
    and n_bound: "scale \<le> n" "n < 64"
begin

lemma roundtrip:
  assumes "take_bit scale off = 0" "- (2 ^ n) \<le> sint off" "sint off < 2 ^ n"
  shows "dec (enc i off) = off"
proof (rule bit_word_eqI)
  fix k assume "k < LENGTH(64)"
  then have k: "k < 64" by simp
  show "bit (dec (enc i off)) k = bit off k"
  proof (cases "scale \<le> k")
    case True
    have "bit (enc i off) (fld (min k n)) = bit off (min k n)"
      using True n_bound by (intro enc_in) auto
    also have "\<dots> = bit off k"
      using assms(2,3) k n_bound by (cases "k \<le> n") (auto simp: min_def sint_range_bit [of n off k])
    finally show ?thesis using True k by (simp add: dec_bit)
  next
    case False
    with k aligned_bit [OF assms(1), of k] show ?thesis by (simp add: dec_bit)
  qed
qed

lemma decode_bounds: "- (2 ^ n) \<le> sint (dec i) \<and> sint (dec i) < 2 ^ n"
  using n_bound by (intro sint_rangeI) (auto simp: dec_bit min_def)

lemma decode_aligned: "take_bit scale (dec i) = 0"
  using n_bound by (intro bit_word_eqI) (auto simp: bit_take_bit_iff dec_bit)

lemma encode_decode: "enc i (dec i) = i"
proof (rule bit_word_eqI)
  fix b assume b: "b < LENGTH(32)"
  show "bit (enc i (dec i)) b = bit i b"
  proof (cases "\<exists>k. scale \<le> k \<and> k \<le> n \<and> b = fld k")
    case True
    then obtain k where "b = fld k" "scale \<le> k" "k \<le> n" by auto
    then show ?thesis using n_bound by (simp add: enc_in dec_bit min_def)
  next
    case False
    with b show ?thesis by (intro enc_out) auto
  qed
qed

lemma encode_class:
  assumes "\<And>k. scale \<le> k \<Longrightarrow> k \<le> n \<Longrightarrow> \<not> bit m (fld k)"
  shows "enc i off AND m = i AND m"
proof (rule bit_word_eqI)
  fix b assume "b < LENGTH(32)"
  then show "bit (enc i off AND m) b = bit (i AND m) b"
    using assms enc_out [of b i off] by (auto simp: bit_and_iff)
qed

end

lemma bit_decode_imm14:
  "k < 64 \<Longrightarrow> bit (decode_imm14_offset i) k \<longleftrightarrow> 2 \<le> k \<and> bit i (min k 15 + 3)"
  by (cases "k \<le> 15"; cases "2 \<le> k")
    (auto simp: decode_imm14_offset_def Let_def field_simps_arm bit_simps add.commute)

lemma bit_decode_imm19:
  "k < 64 \<Longrightarrow> bit (decode_imm19_offset i) k \<longleftrightarrow> 2 \<le> k \<and> bit i (min k 20 + 3)"
  by (cases "k \<le> 20"; cases "2 \<le> k")
    (auto simp: decode_imm19_offset_def Let_def field_simps_arm bit_simps add.commute)

lemma bit_decode_imm26:
  "k < 64 \<Longrightarrow> bit (decode_imm26_offset i) k \<longleftrightarrow> 2 \<le> k \<and> bit i (min k 27 - 2)"
  by (cases "k \<le> 27"; cases "2 \<le> k")
    (auto simp: decode_imm26_offset_def Let_def field_simps_arm bit_simps)

lemma Suc_Suc_minus_5: "5 \<le> b \<Longrightarrow> Suc (Suc (b - 5)) = b - 3"
  by simp

lemma bit_encode_imm14:
  "bit (encode_imm14_offset i off) b \<longleftrightarrow>
     b < 32 \<and> (if 5 \<le> b \<and> b \<le> 18 then bit off (b - 3) else bit i b)"
  by (auto simp: encode_imm14_offset_def Let_def field_simps_arm bit_simps Suc_Suc_minus_5)

lemma bit_encode_imm19:
  "bit (encode_imm19_offset i off) b \<longleftrightarrow>
     b < 32 \<and> (if 5 \<le> b \<and> b \<le> 23 then bit off (b - 3) else bit i b)"
  by (auto simp: encode_imm19_offset_def Let_def field_simps_arm bit_simps Suc_Suc_minus_5)

lemma bit_encode_imm26:
  "bit (encode_imm26_offset i off) b \<longleftrightarrow>
     b < 32 \<and> (if b \<le> 25 then bit off (b + 2) else bit i b)"
  by (auto simp: encode_imm26_offset_def Let_def field_simps_arm bit_simps)

lemma adr_imm_or:
  "immlo_f (adr_unpack i) + push_bit 2 (immhi_f (adr_unpack i)) =
   (immlo_f (adr_unpack i) OR push_bit 2 (immhi_f (adr_unpack i)))"
  by (rule disjunctive_add_eq_or) (auto simp: adr_unpack_def bit_simps intro!: bit_word_eqI)

definition adr_fld :: "nat \<Rightarrow> nat" where
  "adr_fld k = (if k < 2 then k + 29 else k + 3)"

lemma bit_decode_adr:
  "k < 64 \<Longrightarrow> bit (decode_immhi_immlo_offset i) k \<longleftrightarrow> bit i (adr_fld (min k 20))"
  unfolding decode_immhi_immlo_offset_def Let_def adr_imm_or adr_fld_def
  by (cases "k \<le> 20"; cases "k < 2") (auto simp: adr_unpack_def field_simps_arm bit_simps add.commute)

lemma bit_adr_pack:
  "bit (adr_pack f) b \<longleftrightarrow> b < 32 \<and>
     (if b < 5 then bit (Rd_f f) b else if b < 24 then bit (immhi_f f) (b - 5)
      else if b < 29 then bit (dummy_0_f f) (b - 24) else if b < 31 then bit (immlo_f f) (b - 29)
      else bit (op_f f) (b - 31))"
  by (cases "b < 5"; cases "b < 24"; cases "b < 29"; cases "b < 31")
    (auto simp: adr_pack_def bit_simps bit_0)

lemma bit_encode_adr:
  assumes "b < 32"
  shows "bit (encode_immhi_immlo_offset i off) b \<longleftrightarrow>
     (if 5 \<le> b \<and> b \<le> 23 then bit off (b - 3) else if 29 \<le> b \<and> b \<le> 30 then bit off (b - 29)
      else bit i b)"
  using assms unfolding encode_immhi_immlo_offset_def bit_adr_pack
  by (cases "b < 5"; cases "b < 24"; cases "b < 29"; cases "b < 31"; cases "b = 31")
    (auto simp: adr_unpack_def bit_bits bit_take_bit_iff bit_drop_bit_eq bit_unsigned_iff
      Suc_Suc_minus_5 even_drop_bit_iff_not_bit)

interpretation imm14: pcrel_field decode_imm14_offset encode_imm14_offset 2 15 "\<lambda>k. k + 3"
proof unfold_locales
  fix b :: nat and i off assume b: "b < 32" "\<And>k. 2 \<le> k \<Longrightarrow> k \<le> 15 \<Longrightarrow> b \<noteq> k + 3"
  have "\<not> (5 \<le> b \<and> b \<le> 18)" using b(2) [of "b - 3"] by linarith
  with b(1) show "bit (encode_imm14_offset i off) b = bit i b" unfolding bit_encode_imm14 by auto
qed (auto simp: bit_decode_imm14 bit_encode_imm14)

interpretation imm19: pcrel_field decode_imm19_offset encode_imm19_offset 2 20 "\<lambda>k. k + 3"
proof unfold_locales
  fix b :: nat and i off assume b: "b < 32" "\<And>k. 2 \<le> k \<Longrightarrow> k \<le> 20 \<Longrightarrow> b \<noteq> k + 3"
  have "\<not> (5 \<le> b \<and> b \<le> 23)" using b(2) [of "b - 3"] by linarith
  with b(1) show "bit (encode_imm19_offset i off) b = bit i b" unfolding bit_encode_imm19 by auto
qed (auto simp: bit_decode_imm19 bit_encode_imm19)

interpretation imm26: pcrel_field decode_imm26_offset encode_imm26_offset 2 27 "\<lambda>k. k - 2"
proof unfold_locales
  fix b :: nat and i off assume b: "b < 32" "\<And>k. 2 \<le> k \<Longrightarrow> k \<le> 27 \<Longrightarrow> b \<noteq> k - 2"
  have "\<not> b \<le> 25" using b(2) [of "b + 2"] by linarith
  with b(1) show "bit (encode_imm26_offset i off) b = bit i b" unfolding bit_encode_imm26 by simp
next
  fix k i off assume "2 \<le> k" "k \<le> (27::nat)"
  moreover from this have "k - 2 + 2 = k" by simp
  ultimately show "bit (encode_imm26_offset i off) (k - 2) = bit off k"
    unfolding bit_encode_imm26 by auto
qed (auto simp: bit_decode_imm26)

interpretation adr21: pcrel_field decode_immhi_immlo_offset encode_immhi_immlo_offset 0 20 adr_fld
proof unfold_locales
  fix b i off assume b: "b < 32" "\<And>k. 0 \<le> k \<Longrightarrow> k \<le> 20 \<Longrightarrow> b \<noteq> adr_fld k"
  have "\<not> (5 \<le> b \<and> b \<le> 23)"
  proof
    assume h: "5 \<le> b \<and> b \<le> 23"
    then have "\<not> b - 3 < 2" "b - 3 + 3 = b" by linarith+
    then have "adr_fld (b - 3) = b" by (simp only: adr_fld_def if_False)
    moreover from h have "b - 3 \<le> 20" by linarith
    ultimately show False using b(2) [of "b - 3"] by simp
  qed
  moreover have "\<not> (29 \<le> b \<and> b \<le> 30)"
  proof
    assume h: "29 \<le> b \<and> b \<le> 30"
    then have "b - 29 < 2" "b - 29 + 29 = b" by linarith+
    then have "adr_fld (b - 29) = b" by (simp only: adr_fld_def if_True)
    moreover from h have "b - 29 \<le> 20" by linarith
    ultimately show False using b(2) [of "b - 29"] by simp
  qed
  ultimately show "bit (encode_immhi_immlo_offset i off) b = bit i b"
    using b(1) by (auto simp: bit_encode_adr)
next
  fix k i off assume "k \<le> (20::nat)"
  then show "bit (encode_immhi_immlo_offset i off) (adr_fld k) = bit off k"
    by (auto simp: bit_encode_adr adr_fld_def)
qed (auto simp: bit_decode_adr)

lemma bit_decode_adrp:
  "k < 64 \<Longrightarrow> bit (decode_immhi_immlo_zero12_offset i) k \<longleftrightarrow>
     12 \<le> k \<and> bit i (adr_fld (min k 32 - 12))"
  by (cases "k \<le> 32"; cases "12 \<le> k")
    (auto simp: decode_immhi_immlo_zero12_offset_def bit_push_bit_iff bit_decode_adr)

interpretation adrp33: pcrel_field decode_immhi_immlo_zero12_offset encode_immhi_immlo_zero12_offset
  12 32 "\<lambda>k. adr_fld (k - 12)"
proof unfold_locales
  fix b i off assume b: "b < 32" "\<And>k. 12 \<le> k \<Longrightarrow> k \<le> 32 \<Longrightarrow> b \<noteq> adr_fld (k - 12)"
  have "b \<noteq> adr_fld k" if "k \<le> 20" for k
    using b(2) [of "k + 12"] that by simp
  then show "bit (encode_immhi_immlo_zero12_offset i off) b = bit i b"
    unfolding encode_immhi_immlo_zero12_offset_def using b(1) by (intro adr21.enc_out) auto
next
  fix k :: nat and i off assume k: "12 \<le> k" "k \<le> 32"
  then have "bit (encode_immhi_immlo_offset i (signed_drop_bit 12 off)) (adr_fld (k - 12)) =
      bit (signed_drop_bit 12 off) (k - 12)"
    by (intro adr21.enc_in) auto
  moreover have "\<not> 52 \<le> k - 12" "12 + (k - 12) = k" using k by simp_all
  ultimately show "bit (encode_immhi_immlo_zero12_offset i off) (adr_fld (k - 12)) = bit off k"
    by (simp add: encode_immhi_immlo_zero12_offset_def bit_signed_drop_bit_iff)
qed (auto simp: bit_decode_adrp)

lemma adr_encode_class: "encode_immhi_immlo_offset instr off AND 0x9F00001F = instr AND 0x9F00001F"
proof (rule adr21.encode_class)
  fix k :: nat assume "k \<le> 20"
  then have "adr_fld k \<in> {5..<24} \<union> {29, 30}" by (auto simp: adr_fld_def)
  then have "adr_fld k \<in> set ([5..<24] @ [29, 30])"
    by (simp only: set_append set_upt list.set)
  moreover have "list_all (\<lambda>b. \<not> bit (0x9F00001F :: u32) b) ([5..<24] @ [29, 30])" by code_simp
  ultimately show "\<not> bit (0x9F00001F :: u32) (adr_fld k)" by (auto simp only: list_all_iff)
qed

subsection \<open>Properties\<close>

text \<open>
  C39: Re-encoding a branch or literal-load instruction with a word-aligned offset that fits its signed
  14-, 19- or 26-bit word field, and decoding it again, gives the same byte offset.
\<close>
theorem arm64_branch_field_roundtrip:
  assumes "take_bit 2 off = 0"
  shows "(- (2 ^ 15) \<le> sint off \<and> sint off < 2 ^ 15 \<longrightarrow>
            decode_imm14_offset (encode_imm14_offset instr off) = off) \<and>
         (- (2 ^ 20) \<le> sint off \<and> sint off < 2 ^ 20 \<longrightarrow>
            decode_imm19_offset (encode_imm19_offset instr off) = off) \<and>
         (- (2 ^ 27) \<le> sint off \<and> sint off < 2 ^ 27 \<longrightarrow>
            decode_imm26_offset (encode_imm26_offset instr off) = off)"
  using assms imm14.roundtrip imm19.roundtrip imm26.roundtrip by blast

theorem arm64_branch_field_roundtrip_witness:
  "decode_imm14_offset (encode_imm14_offset 0x36000000 (- 32768)) = - 32768 \<and>
   decode_imm19_offset (encode_imm19_offset 0x54000000 0xFFFFC) = 0xFFFFC \<and>
   decode_imm26_offset (encode_imm26_offset 0x14000000 (- 134217728)) = - 134217728"
proof -
  have a: "take_bit 2 (- 32768 :: u64) = 0" "take_bit 2 (0xFFFFC :: u64) = 0"
    "take_bit 2 (- 134217728 :: u64) = 0"
    by code_simp+
  have s: "sint (- 32768 :: u64) = - 32768" "sint (0xFFFFC :: u64) = 0xFFFFC"
    "sint (- 134217728 :: u64) = - 134217728"
    by code_simp+
  show ?thesis
    using arm64_branch_field_roundtrip [OF a(1), of "0x36000000"]
      arm64_branch_field_roundtrip [OF a(2), of "0x54000000"]
      arm64_branch_field_roundtrip [OF a(3), of "0x14000000"]
    by (simp add: s)
qed

text \<open>
  The split \<^verbatim>\<open>immhi:immlo\<close> field of ADR and ADRP round-trips every offset in its signed 21-bit
  range (in bytes for ADR, in 4 KiB pages for ADRP), and the encoders leave the opcode and the
  destination register of the instruction alone.
\<close>
theorem arm64_adr_field_roundtrip:
  "(- (2 ^ 20) \<le> sint off \<and> sint off < 2 ^ 20 \<longrightarrow>
      decode_immhi_immlo_offset (encode_immhi_immlo_offset instr off) = off) \<and>
   (take_bit 12 off = 0 \<and> - (2 ^ 32) \<le> sint off \<and> sint off < 2 ^ 32 \<longrightarrow>
      decode_immhi_immlo_zero12_offset (encode_immhi_immlo_zero12_offset instr off) = off) \<and>
   encode_immhi_immlo_offset instr off AND 0x9F00001F = instr AND 0x9F00001F"
  using adr21.roundtrip [of off instr] adrp33.roundtrip [of off instr] adr_encode_class [of instr off] by simp

theorem arm64_adr_field_roundtrip_witness:
  "decode_immhi_immlo_offset (encode_immhi_immlo_offset 0x10000003 (- 1048576)) = - 1048576 \<and>
   decode_immhi_immlo_zero12_offset (encode_immhi_immlo_zero12_offset 0x90000003 0xFFFFF000) = 0xFFFFF000"
proof -
  have "take_bit 12 (0xFFFFF000 :: u64) = 0" "sint (- 1048576 :: u64) = - 1048576"
    "sint (0xFFFFF000 :: u64) = 0xFFFFF000" by code_simp+
  then show ?thesis
    using arm64_adr_field_roundtrip [of "- 1048576" "0x10000003"]
      arm64_adr_field_roundtrip [of "0xFFFFF000" "0x90000003"] by simp
qed

end
