(* ===== verification/Code_Buffer.thy ===== *)
theory Code_Buffer
  imports Arm64_Kit
begin

text \<open>
  The code buffer (\<^verbatim>\<open>MemoryAllocator/CodeBuffer\<close>), the labels of
  \<^verbatim>\<open>core/assembler/AssemblerPseudoLabel.h\<close> and the architecture-independent assembler state of
  \<^verbatim>\<open>core/assembler/assembler.cc\<close>. A buffer is the byte list its \<^verbatim>\<open>tinystl::vector\<close> holds.
  A typed access outside the vector is \<open>None\<close>. Labels are heap objects that the assembler and
  its clients share by pointer: the assembler state holds them in a list, and a pointer is an index.
\<close>

type_synonym code_buffer = "u8 list"

subsection \<open>The buffer\<close>

definition GetBuffer :: "code_buffer \<Rightarrow> u8 list" where
  "GetBuffer b = b"

definition GetBufferSize :: "code_buffer \<Rightarrow> nat" where
  "GetBufferSize b = length b"

definition EmitBuffer :: "code_buffer \<Rightarrow> u8 list \<Rightarrow> code_buffer" where
  "EmitBuffer b data = b @ data"

definition Emit8 :: "code_buffer \<Rightarrow> u8 \<Rightarrow> code_buffer" where
  "Emit8 b d = EmitBuffer b (le_bytes 1 d)"

definition Emit16 :: "code_buffer \<Rightarrow> u16 \<Rightarrow> code_buffer" where
  "Emit16 b d = EmitBuffer b (le_bytes 2 d)"

definition Emit32 :: "code_buffer \<Rightarrow> u32 \<Rightarrow> code_buffer" where
  "Emit32 b d = EmitBuffer b (le_bytes 4 d)"

definition Emit64 :: "code_buffer \<Rightarrow> u64 \<Rightarrow> code_buffer" where
  "Emit64 b d = EmitBuffer b (le_bytes 8 d)"

definition Copy :: "code_buffer \<Rightarrow> code_buffer" where
  "Copy b = EmitBuffer [] (take (GetBufferSize b) (GetBuffer b))"

text \<open>\<^verbatim>\<open>Load<T>\<close> and \<^verbatim>\<open>Store<T>\<close>; the width is \<^verbatim>\<open>sizeof(T)\<close>.\<close>

definition Load :: "nat \<Rightarrow> code_buffer \<Rightarrow> nat \<Rightarrow> 'a::len word option" where
  "Load n b offset = (if offset + n \<le> length b then Some (le_word (take n (drop offset b))) else None)"

definition Store :: "nat \<Rightarrow> code_buffer \<Rightarrow> nat \<Rightarrow> 'a::len word \<Rightarrow> code_buffer option" where
  "Store n b offset v =
     (if offset + n \<le> length b then Some (take offset b @ le_bytes n v @ drop (offset + n) b) else None)"

text \<open>The accessors of the per-architecture subclasses.\<close>

definition LoadInst :: "code_buffer \<Rightarrow> nat \<Rightarrow> u32 option" where
  "LoadInst b offset = Load 4 b offset"

definition RewriteInst :: "code_buffer \<Rightarrow> nat \<Rightarrow> u32 \<Rightarrow> code_buffer option" where
  "RewriteInst b offset instr = Store 4 b offset instr"

definition FixBindLabel :: "code_buffer \<Rightarrow> nat \<Rightarrow> u32 \<Rightarrow> code_buffer option" where
  "FixBindLabel b offset disp = Store 4 b offset disp"

definition LoadARMInst :: "code_buffer \<Rightarrow> nat \<Rightarrow> u32 option" where
  "LoadARMInst b offset = Load 4 b offset"

definition LoadThumb1Inst :: "code_buffer \<Rightarrow> nat \<Rightarrow> u16 option" where
  "LoadThumb1Inst b offset = Load 2 b offset"

definition LoadThumb2Inst :: "code_buffer \<Rightarrow> nat \<Rightarrow> u32 option" where
  "LoadThumb2Inst b offset = Load 4 b offset"

definition RewriteAddr :: "code_buffer \<Rightarrow> nat \<Rightarrow> u32 \<Rightarrow> code_buffer option" where
  "RewriteAddr b offset a = Store 4 b offset a"

definition RewriteARMInst :: "code_buffer \<Rightarrow> nat \<Rightarrow> u32 \<Rightarrow> code_buffer option" where
  "RewriteARMInst b offset instr = Store 4 b offset instr"

definition RewriteThumb1Inst :: "code_buffer \<Rightarrow> nat \<Rightarrow> u16 \<Rightarrow> code_buffer option" where
  "RewriteThumb1Inst b offset instr = Store 2 b offset instr"

definition RewriteThumb2Inst :: "code_buffer \<Rightarrow> nat \<Rightarrow> u32 \<Rightarrow> code_buffer option" where
  "RewriteThumb2Inst b offset instr = Store 4 b offset instr"

definition EmitARMInst :: "code_buffer \<Rightarrow> u32 \<Rightarrow> code_buffer" where
  "EmitARMInst b instr = EmitBuffer b (le_bytes 4 instr)"

definition EmitThumb1Inst :: "code_buffer \<Rightarrow> u16 \<Rightarrow> code_buffer" where
  "EmitThumb1Inst b instr = EmitBuffer b (le_bytes 2 instr)"

definition EmitThumb2Inst :: "code_buffer \<Rightarrow> u32 \<Rightarrow> code_buffer" where
  "EmitThumb2Inst b instr = EmitBuffer b (le_bytes 4 instr)"

lemmas emit_defs = Emit8_def Emit16_def Emit32_def Emit64_def EmitBuffer_def

lemma length_emit [simp]:
  "length (Emit8 b d8) = length b + 1" "length (Emit16 b d16) = length b + 2"
  "length (Emit32 b d32) = length b + 4" "length (Emit64 b d64) = length b + 8"
  "length (EmitBuffer b ds) = length b + length ds"
  by (simp_all add: emit_defs)

lemma take_le_bytes_append [simp]: "take n (le_bytes n w @ xs) = le_bytes n w"
  by (simp add: take_append)

lemma Load_append: "Load n b off = Some v \<Longrightarrow> Load n (b @ c) off = Some v"
  by (auto simp: Load_def take_append split: if_splits)

lemma Load_at_end: "LENGTH('a::len) \<le> 8 * n \<Longrightarrow> Load n (b @ le_bytes n (v :: 'a word) @ c) (length b) = Some v"
  by (simp add: Load_def)

lemma Load_bytes:
  assumes "Load n b off = Some (v :: 'a::len word)" "8 * n \<le> LENGTH('a)"
  shows "take n (drop off b) = le_bytes n v"
proof -
  have "off + n \<le> length b" and v: "v = le_word (take n (drop off b))"
    using assms(1) by (auto simp: Load_def split: if_splits)
  then have "length (take n (drop off b)) = n" by simp
  with v assms(2) le_bytes_le_word [of "take n (drop off b)", where 'a = 'a] show ?thesis by simp
qed

subsection \<open>A typed cell of the buffer\<close>

text \<open>
  What the linkers rely on when they load, patch and emit instructions of one width. The client lemma
  is about patching a list of references one after the other; \<open>pc\<close> gives the offset of a reference.
\<close>

primrec patch_all :: "(code_buffer \<Rightarrow> nat \<Rightarrow> 'w option) \<Rightarrow> (code_buffer \<Rightarrow> nat \<Rightarrow> 'w \<Rightarrow> code_buffer option) \<Rightarrow>
    ('r \<Rightarrow> nat) \<Rightarrow> ('r \<Rightarrow> 'w \<Rightarrow> 'w) \<Rightarrow> code_buffer \<Rightarrow> 'r list \<Rightarrow> code_buffer option" where
  "patch_all load store pc f b [] = Some b"
| "patch_all load store pc f b (r # rs) =
     (case load b (pc r) of None \<Rightarrow> None | Some inst \<Rightarrow>
        (case store b (pc r) (f r inst) of None \<Rightarrow> None
         | Some b' \<Rightarrow> patch_all load store pc f b' rs))"

definition apart :: "nat \<Rightarrow> nat list \<Rightarrow> bool" where
  "apart w ps \<longleftrightarrow> sorted_wrt (\<lambda>p q. p + w \<le> q \<or> q + w \<le> p) ps"

lemma apart_append: "apart w (ps @ qs) \<longleftrightarrow> apart w ps \<and> apart w qs \<and>
    (\<forall>p \<in> set ps. \<forall>q \<in> set qs. p + w \<le> q \<or> q + w \<le> p)"
  by (auto simp: apart_def sorted_wrt_append)

locale code_cell =
  fixes load :: "code_buffer \<Rightarrow> nat \<Rightarrow> 'w option"
    and store :: "code_buffer \<Rightarrow> nat \<Rightarrow> 'w \<Rightarrow> code_buffer option"
    and emit :: "code_buffer \<Rightarrow> 'w \<Rightarrow> code_buffer"
    and width :: nat
  assumes load_defined: "load b p \<noteq> None \<longleftrightarrow> p + width \<le> length b"
    and store_defined: "store b p v \<noteq> None \<longleftrightarrow> p + width \<le> length b"
    and store_length: "store b p v = Some b' \<Longrightarrow> length b' = length b"
    and load_store: "store b p v = Some b' \<Longrightarrow> load b' p = Some v"
    and store_other: "store b p v = Some b' \<Longrightarrow> i < p \<or> p + width \<le> i \<Longrightarrow> i < length b \<Longrightarrow> b' ! i = b ! i"
    and load_local: "p + width \<le> length b \<Longrightarrow> p + width \<le> length b' \<Longrightarrow>
       (\<And>i. p \<le> i \<Longrightarrow> i < p + width \<Longrightarrow> b' ! i = b ! i) \<Longrightarrow> load b' p = load b p"
    and emit_nth: "i < length b \<Longrightarrow> emit b v ! i = b ! i"
    and emit_length: "length (emit b v) = length b + width"
    and load_emit: "load (emit b v) (length b) = Some v"
begin

lemma load_store_apart:
  assumes "store b p v = Some b'" "p + width \<le> q \<or> q + width \<le> p"
  shows "load b' q = load b q"
proof (cases "q + width \<le> length b")
  case True
  show ?thesis
  proof (rule load_local)
    fix i assume "q \<le> i" "i < q + width"
    with assms(2) True show "b' ! i = b ! i" by (intro store_other [OF assms(1)]) auto
  qed (use True store_length [OF assms(1)] in simp_all)
next
  case False
  then have "load b q = None" "load b' q = None"
    using load_defined [of b q] load_defined [of b' q] store_length [OF assms(1)] by auto
  then show ?thesis by simp
qed

lemma load_emit_older: "p + width \<le> length b \<Longrightarrow> load (emit b v) p = load b p"
  by (rule load_local) (auto simp: emit_length emit_nth)

lemma load_append: "p + width \<le> length b \<Longrightarrow> load (b @ c) p = load b p"
  by (rule load_local) (auto simp: nth_append)

text \<open>Loads and bytes that a patch of the positions \<open>P\<close> leaves alone.\<close>

lemma load_untouched:
  assumes "p + width \<le> length b" "length b \<le> length b'"
    and "\<forall>i < length b. (\<forall>q \<in> P. i < q \<or> q + width \<le> i) \<longrightarrow> b' ! i = b ! i"
    and "\<forall>q \<in> P. p + width \<le> q \<or> q + width \<le> p"
  shows "load b' p = load b p"
proof (rule load_local)
  fix i assume i: "p \<le> i" "i < p + width"
  have "\<forall>q \<in> P. i < q \<or> q + width \<le> i" using assms(4) i by fastforce
  then show "b' ! i = b ! i" using assms(1,3) i by simp
qed (use assms(1,2) in simp_all)

lemma patch_all_spec:
  assumes "apart width (map pc rs)" "\<forall>r \<in> set rs. pc r + width \<le> length b"
  shows "\<exists>b'. patch_all load store pc f b rs = Some b' \<and> length b' = length b \<and>
    (\<forall>r \<in> set rs. load b' (pc r) = map_option (f r) (load b (pc r))) \<and>
    (\<forall>i < length b. (\<forall>r \<in> set rs. i < pc r \<or> pc r + width \<le> i) \<longrightarrow> b' ! i = b ! i)"
  using assms
proof (induction rs arbitrary: b)
  case Nil
  then show ?case by simp
next
  case (Cons r rs)
  then have pb: "pc r + width \<le> length b" by simp
  obtain inst where inst: "load b (pc r) = Some inst"
    using pb load_defined [of b "pc r"] by auto
  obtain b1 where b1: "store b (pc r) (f r inst) = Some b1"
    using pb store_defined [of b "pc r" "f r inst"] by auto
  have len: "length b1 = length b" using store_length [OF b1] .
  have ap: "apart width (map pc rs)" "\<And>q. q \<in> set rs \<Longrightarrow> pc r + width \<le> pc q \<or> pc q + width \<le> pc r"
    using Cons.prems(1) by (auto simp: apart_def)
  then obtain b' where b': "patch_all load store pc f b1 rs = Some b'" "length b' = length b1"
      "\<forall>q \<in> set rs. load b' (pc q) = map_option (f q) (load b1 (pc q))"
      "\<forall>i < length b1. (\<forall>q \<in> set rs. i < pc q \<or> pc q + width \<le> i) \<longrightarrow> b' ! i = b1 ! i"
    using Cons.IH [of b1] Cons.prems(2) len by auto
  have "load b' (pc r) = load b1 (pc r)"
  proof (rule load_local)
    fix i assume i: "pc r \<le> i" "i < pc r + width"
    have "\<forall>q \<in> set rs. i < pc q \<or> pc q + width \<le> i"
      using ap(2) i by fastforce
    then show "b' ! i = b1 ! i" using b'(4) i pb len by simp
  qed (use pb len b'(2) in simp_all)
  moreover have "\<forall>q \<in> set rs. load b1 (pc q) = load b (pc q)"
    using ap(2) load_store_apart [OF b1] by blast
  moreover have "load b1 (pc r) = Some (f r inst)" by (rule load_store [OF b1])
  moreover have "b' ! i = b ! i" if "i < length b" "\<forall>q \<in> set (r # rs). i < pc q \<or> pc q + width \<le> i" for i
    using that b'(4) len store_other [OF b1, of i] by simp
  ultimately show ?case using inst b1 b' len by simp
qed

end

lemma Load_cong: "off + n \<le> length b \<Longrightarrow> off + n \<le> length b' \<Longrightarrow>
    (\<And>i. off \<le> i \<Longrightarrow> i < off + n \<Longrightarrow> b' ! i = b ! i) \<Longrightarrow> Load n b' off = Load n b off"
  by (auto simp: Load_def intro!: arg_cong [of _ _ le_word] nth_equalityI)

lemma Store_Some: "Store n b off v = Some b' \<longleftrightarrow>
    off + n \<le> length b \<and> b' = take off b @ le_bytes n v @ drop (off + n) b"
  by (auto simp: Store_def)

lemma Load_Store: "Store n b off (v :: 'a::len word) = Some b' \<Longrightarrow> LENGTH('a) \<le> 8 * n \<Longrightarrow> Load n b' off = Some v"
  by (auto simp: Store_Some Load_def min_def)

lemma Store_other: "Store n b off v = Some b' \<Longrightarrow> i < off \<or> off + n \<le> i \<Longrightarrow> i < length b \<Longrightarrow> b' ! i = b ! i"
  by (auto simp: Store_Some nth_append min_def)

text \<open>Little-endian cells of any width that holds the word exactly satisfy the contract.\<close>

lemma code_cell_bytes:
  assumes "LENGTH('a::len) \<le> 8 * n"
  shows "code_cell (Load n :: code_buffer \<Rightarrow> nat \<Rightarrow> 'a word option) (Store n)
     (\<lambda>b v. EmitBuffer b (le_bytes n v)) n"
proof
  fix b b' :: code_buffer and p i :: nat and v :: "'a word"
  show "(Load n b p :: 'a word option) \<noteq> None \<longleftrightarrow> p + n \<le> length b" by (simp add: Load_def)
  show "Store n b p v \<noteq> None \<longleftrightarrow> p + n \<le> length b" by (simp add: Store_def)
  show "length b' = length b" if "Store n b p v = Some b'" using that by (auto simp: Store_Some)
  show "Load n b' p = Some v" if "Store n b p v = Some b'" using that assms by (rule Load_Store)
  show "b' ! i = b ! i" if "Store n b p v = Some b'" "i < p \<or> p + n \<le> i" "i < length b"
    using that by (rule Store_other)
  show "(Load n b' p :: 'a word option) = Load n b p"
    if "p + n \<le> length b" "p + n \<le> length b'" "\<And>i. p \<le> i \<Longrightarrow> i < p + n \<Longrightarrow> b' ! i = b ! i"
    using that by (rule Load_cong)
  show "EmitBuffer b (le_bytes n v) ! i = b ! i" if "i < length b"
    using that by (simp add: EmitBuffer_def nth_append)
  show "length (EmitBuffer b (le_bytes n v)) = length b + n" by simp
  show "Load n (EmitBuffer b (le_bytes n v)) (length b) = Some v"
    using Load_at_end [OF assms, of b v "[]"] by (simp add: EmitBuffer_def)
qed

interpretation inst32: code_cell LoadInst RewriteInst Emit32 4
  using code_cell_bytes [where 'a = 32 and n = 4]
  by (simp add: LoadInst_def [abs_def] RewriteInst_def [abs_def] Emit32_def [abs_def])

interpretation thumb1: code_cell LoadThumb1Inst RewriteThumb1Inst EmitThumb1Inst 2
  using code_cell_bytes [where 'a = 16 and n = 2]
  by (simp add: LoadThumb1Inst_def [abs_def] RewriteThumb1Inst_def [abs_def] EmitThumb1Inst_def [abs_def])

subsection \<open>Labels\<close>

record ref_label_insn =
  link_type :: nat
  ref_pc_offset :: nat

text \<open>\<^verbatim>\<open>RelocLabel\<close> with its base \<^verbatim>\<open>AssemblerPseudoLabel\<close>; a plain pseudo label has no data.\<close>

record reloc_label =
  label_pos :: nat
  ref_label_insns :: "ref_label_insn list"
  label_data :: "u8 list"
  label_size :: nat

definition RelocLabel :: reloc_label where
  "RelocLabel = \<lparr>label_pos = 0, ref_label_insns = [], label_data = replicate 8 0, label_size = 0\<rparr>"

definition bind_to :: "reloc_label \<Rightarrow> nat \<Rightarrow> reloc_label" where
  "bind_to l a = l\<lparr>label_pos := a\<rparr>"

definition link_to :: "reloc_label \<Rightarrow> nat \<Rightarrow> nat \<Rightarrow> reloc_label" where
  "link_to l t pc = l\<lparr>ref_label_insns := ref_label_insns l @ [\<lparr>link_type = t, ref_pc_offset = pc\<rparr>]\<rparr>"

definition has_confused_instructions :: "reloc_label \<Rightarrow> bool" where
  "has_confused_instructions l \<longleftrightarrow> length (ref_label_insns l) \<noteq> 0"

definition setData :: "reloc_label \<Rightarrow> u8 list \<Rightarrow> reloc_label" where
  "setData l v = l\<lparr>label_size := length v, label_data := v @ drop (length v) (label_data l)\<rparr>"

definition fixupData :: "reloc_label \<Rightarrow> u8 list \<Rightarrow> reloc_label" where
  "fixupData l v = l\<lparr>label_data := v @ drop (length v) (label_data l)\<rparr>"

definition withData :: "u8 list \<Rightarrow> reloc_label" where
  "withData v = setData RelocLabel v"

subsection \<open>The assembler state\<close>

record assembler =
  asm_buffer :: code_buffer
  realized_addr :: addr
  label_heap :: "reloc_label list"
  data_labels :: "nat list"

definition AssemblerBase :: "addr \<Rightarrow> assembler" where
  "AssemblerBase a = \<lparr>asm_buffer = [], realized_addr = a, label_heap = [], data_labels = []\<rparr>"

definition ip_offset :: "assembler \<Rightarrow> nat" where
  "ip_offset a = GetBufferSize (asm_buffer a)"

definition pc_offset :: "assembler \<Rightarrow> nat" where
  "pc_offset a = GetBufferSize (asm_buffer a)"

definition SetRealizedAddress :: "assembler \<Rightarrow> addr \<Rightarrow> assembler" where
  "SetRealizedAddress a p = a\<lparr>realized_addr := p\<rparr>"

definition GetRealizedAddress :: "assembler \<Rightarrow> addr" where
  "GetRealizedAddress a = realized_addr a"

text \<open>\<^verbatim>\<open>new RelocLabel\<close>: the pointer is the index of the new heap object.\<close>

definition new_label :: "assembler \<Rightarrow> reloc_label \<Rightarrow> assembler \<times> nat" where
  "new_label a l = (a\<lparr>label_heap := label_heap a @ [l]\<rparr>, length (label_heap a))"

definition AppendRelocLabel :: "assembler \<Rightarrow> nat \<Rightarrow> assembler" where
  "AppendRelocLabel a l = a\<lparr>data_labels := data_labels a @ [l]\<rparr>"

text \<open>
  \<^verbatim>\<open>link_confused_instructions\<close> is defined per architecture; it is the argument \<open>link\<close>, which
  rewrites the instructions that refer to a label.
\<close>

definition PseudoBind :: "(reloc_label \<Rightarrow> code_buffer \<Rightarrow> code_buffer option) \<Rightarrow> assembler \<Rightarrow> nat \<Rightarrow> assembler option" where
  "PseudoBind link a l =
     (if l < length (label_heap a) then
        let lbl = bind_to (label_heap a ! l) (GetBufferSize (asm_buffer a));
            a' = a\<lparr>label_heap := (label_heap a)[l := lbl]\<rparr>
        in if has_confused_instructions lbl
           then (case link lbl (asm_buffer a') of None \<Rightarrow> None | Some b \<Rightarrow> Some (a'\<lparr>asm_buffer := b\<rparr>))
           else Some a'
      else None)"

primrec reloc_bind_loop :: "(reloc_label \<Rightarrow> code_buffer \<Rightarrow> code_buffer option) \<Rightarrow> assembler \<Rightarrow> nat list \<Rightarrow> assembler option" where
  "reloc_bind_loop link a [] = Some a"
| "reloc_bind_loop link a (l # ls) =
     (case PseudoBind link a l of None \<Rightarrow> None
      | Some a' \<Rightarrow> reloc_bind_loop link
          (a'\<lparr>asm_buffer := EmitBuffer (asm_buffer a') (take (label_size (label_heap a' ! l)) (label_data (label_heap a' ! l)))\<rparr>) ls)"

definition RelocBind :: "(reloc_label \<Rightarrow> code_buffer \<Rightarrow> code_buffer option) \<Rightarrow> assembler \<Rightarrow> assembler option" where
  "RelocBind link a = reloc_bind_loop link a (data_labels a)"

subsection \<open>Binding the literal pool\<close>

definition label_refs :: "reloc_label list \<Rightarrow> nat list \<Rightarrow> ref_label_insn list" where
  "label_refs heap ls = concat (map (\<lambda>l. ref_label_insns (heap ! l)) ls)"

definition label_bytes :: "reloc_label \<Rightarrow> u8 list" where
  "label_bytes l = take (label_size l) (label_data l)"

text \<open>The offset at which the data of each label of \<open>ls\<close> lands when the pool starts at \<open>p\<close>.\<close>

primrec pool_offsets :: "reloc_label list \<Rightarrow> nat \<Rightarrow> nat list \<Rightarrow> (nat \<times> nat) list" where
  "pool_offsets heap p [] = []"
| "pool_offsets heap p (l # ls) = (l, p) # pool_offsets heap (p + length (label_bytes (heap ! l))) ls"

text \<open>
  The references of the labels \<open>ls\<close> are well placed in a buffer when they do not overlap and lie
  inside it.
\<close>

definition refs_placed :: "nat \<Rightarrow> reloc_label list \<Rightarrow> nat list \<Rightarrow> nat \<Rightarrow> bool" where
  "refs_placed w heap ls n \<longleftrightarrow> (\<forall>l \<in> set ls. l < length heap) \<and>
     apart w (map ref_pc_offset (label_refs heap ls)) \<and>
     (\<forall>r \<in> set (label_refs heap ls). ref_pc_offset r + w \<le> n)"

lemma label_refs_simps [simp]:
  "label_refs heap [] = []"
  "label_refs heap (l # ls) = ref_label_insns (heap ! l) @ label_refs heap ls"
  by (simp_all add: label_refs_def)

lemma bind_heap_refs [simp]:
  "ref_label_insns (heap[l := bind_to (heap ! l) p] ! k) = ref_label_insns (heap ! k)"
  by (cases "l < length heap \<and> l = k") (auto simp: bind_to_def not_less nth_list_update_neq list_update_beyond)

lemma bind_heap_bytes [simp]:
  "label_bytes (heap[l := bind_to (heap ! l) p] ! k) = label_bytes (heap ! k)"
  by (cases "l < length heap \<and> l = k")
    (auto simp: bind_to_def label_bytes_def not_less nth_list_update_neq list_update_beyond)

lemma label_refs_bind [simp]: "label_refs (heap[l := bind_to (heap ! l) p]) ls = label_refs heap ls"
  by (simp add: label_refs_def)

lemma pool_offsets_bind [simp]:
  "pool_offsets (heap[l := bind_to (heap ! l) p]) q ls = pool_offsets heap q ls"
  by (induction ls arbitrary: q) simp_all

lemma pool_offsets_refs: "(l, p) \<in> set (pool_offsets heap q ls) \<Longrightarrow> l \<in> set ls"
  by (induction ls arbitrary: q) auto

lemma refs_in_label_refs: "l \<in> set ls \<Longrightarrow> r \<in> set (ref_label_insns (heap ! l)) \<Longrightarrow> r \<in> set (label_refs heap ls)"
  by (auto simp: label_refs_def)

locale literal_linker = code_cell load store emit width
  for load :: "code_buffer \<Rightarrow> nat \<Rightarrow> 'w option"
    and store :: "code_buffer \<Rightarrow> nat \<Rightarrow> 'w \<Rightarrow> code_buffer option"
    and emit :: "code_buffer \<Rightarrow> 'w \<Rightarrow> code_buffer"
    and width :: nat +
  fixes fix_inst :: "nat \<Rightarrow> ref_label_insn \<Rightarrow> 'w \<Rightarrow> 'w"
    and link :: "reloc_label \<Rightarrow> code_buffer \<Rightarrow> code_buffer option"
  assumes link_patches: "link lbl b =
      patch_all load store ref_pc_offset (fix_inst (label_pos lbl)) b (ref_label_insns lbl)"
begin

lemma PseudoBind_spec:
  assumes "l < length (label_heap a)" "apart width (map ref_pc_offset (ref_label_insns (label_heap a ! l)))"
    "\<forall>r \<in> set (ref_label_insns (label_heap a ! l)). ref_pc_offset r + width \<le> length (asm_buffer a)"
  shows "\<exists>b. PseudoBind link a l = Some (a\<lparr>label_heap := (label_heap a)[l := bind_to (label_heap a ! l) (length (asm_buffer a))],
        asm_buffer := b\<rparr>) \<and>
      length b = length (asm_buffer a) \<and>
      (\<forall>r \<in> set (ref_label_insns (label_heap a ! l)). load b (ref_pc_offset r) =
          map_option (fix_inst (length (asm_buffer a)) r) (load (asm_buffer a) (ref_pc_offset r))) \<and>
      (\<forall>i < length (asm_buffer a). (\<forall>r \<in> set (ref_label_insns (label_heap a ! l)).
          i < ref_pc_offset r \<or> ref_pc_offset r + width \<le> i) \<longrightarrow> b ! i = asm_buffer a ! i)"
proof -
  let ?l = "bind_to (label_heap a ! l) (length (asm_buffer a))"
  obtain b where b: "patch_all load store ref_pc_offset (fix_inst (length (asm_buffer a))) (asm_buffer a)
        (ref_label_insns (label_heap a ! l)) = Some b" "length b = length (asm_buffer a)"
      "\<forall>r \<in> set (ref_label_insns (label_heap a ! l)). load b (ref_pc_offset r) =
          map_option (fix_inst (length (asm_buffer a)) r) (load (asm_buffer a) (ref_pc_offset r))"
      "\<forall>i < length (asm_buffer a). (\<forall>r \<in> set (ref_label_insns (label_heap a ! l)).
          i < ref_pc_offset r \<or> ref_pc_offset r + width \<le> i) \<longrightarrow> b ! i = asm_buffer a ! i"
    using patch_all_spec [OF assms(2,3)] by blast
  have "PseudoBind link a l = Some (a\<lparr>label_heap := (label_heap a)[l := ?l], asm_buffer := b\<rparr>)"
    using assms(1) b(1)
    by (auto simp: PseudoBind_def link_patches bind_to_def GetBufferSize_def has_confused_instructions_def Let_def)
  with b show ?thesis by blast
qed

text \<open>
  After the labels are bound, the bytes of each label stand at its offset in the pool, and every
  instruction that refers to it has been rewritten for that offset; nothing else changed.
\<close>

lemma reloc_bind_loop_spec:
  assumes "refs_placed width (label_heap a) ls (length (asm_buffer a))"
  shows "\<exists>a'. reloc_bind_loop link a ls = Some a' \<and>
     length (asm_buffer a) \<le> length (asm_buffer a') \<and>
     length (asm_buffer a') = length (asm_buffer a) + sum_list (map (\<lambda>l. length (label_bytes (label_heap a ! l))) ls) \<and>
     (\<forall>i < length (asm_buffer a). (\<forall>r \<in> set (label_refs (label_heap a) ls).
          i < ref_pc_offset r \<or> ref_pc_offset r + width \<le> i) \<longrightarrow> asm_buffer a' ! i = asm_buffer a ! i) \<and>
     (\<forall>(l, p) \<in> set (pool_offsets (label_heap a) (length (asm_buffer a)) ls).
        take (length (label_bytes (label_heap a ! l))) (drop p (asm_buffer a')) = label_bytes (label_heap a ! l) \<and>
        (\<forall>r \<in> set (ref_label_insns (label_heap a ! l)). load (asm_buffer a') (ref_pc_offset r) =
           map_option (fix_inst p r) (load (asm_buffer a) (ref_pc_offset r))))"
  using assms
proof (induction ls arbitrary: a)
  case Nil
  then show ?case by simp
next
  case (Cons l ls)
  let ?h = "label_heap a" and ?b0 = "asm_buffer a" and ?data = "label_bytes (label_heap a ! l)"
  have l: "l < length ?h" "apart width (map ref_pc_offset (ref_label_insns (?h ! l)))"
    "\<forall>r \<in> set (ref_label_insns (?h ! l)). ref_pc_offset r + width \<le> length ?b0"
    and ls: "refs_placed width ?h ls (length ?b0)"
    and sep: "\<And>r q. r \<in> set (ref_label_insns (?h ! l)) \<Longrightarrow> q \<in> set (label_refs ?h ls) \<Longrightarrow>
        ref_pc_offset r + width \<le> ref_pc_offset q \<or> ref_pc_offset q + width \<le> ref_pc_offset r"
    using Cons.prems by (auto simp: refs_placed_def apart_append)
  obtain b where b: "PseudoBind link a l = Some (a\<lparr>label_heap := ?h[l := bind_to (?h ! l) (length ?b0)], asm_buffer := b\<rparr>)" "length b = length ?b0"
      "\<forall>r \<in> set (ref_label_insns (?h ! l)). load b (ref_pc_offset r) =
          map_option (fix_inst (length ?b0) r) (load ?b0 (ref_pc_offset r))"
      "\<forall>i < length ?b0. (\<forall>r \<in> set (ref_label_insns (?h ! l)).
          i < ref_pc_offset r \<or> ref_pc_offset r + width \<le> i) \<longrightarrow> b ! i = ?b0 ! i"
    using PseudoBind_spec [OF l] by blast
  define a1 where "a1 = a\<lparr>label_heap := ?h[l := bind_to (?h ! l) (length ?b0)], asm_buffer := b @ ?data\<rparr>"
  have step: "reloc_bind_loop link a (l # ls) = reloc_bind_loop link a1 ls"
    using b(1) l(1) by (simp add: a1_def EmitBuffer_def bind_to_def label_bytes_def)
  have "refs_placed width (label_heap a1) ls (length (asm_buffer a1))"
    using ls b(2) by (auto simp: refs_placed_def a1_def)
  from Cons.IH [OF this] obtain a' where a': "reloc_bind_loop link a1 ls = Some a'"
    "length (asm_buffer a1) \<le> length (asm_buffer a')"
    "length (asm_buffer a') = length (asm_buffer a1) + sum_list (map (\<lambda>l. length (label_bytes (?h ! l))) ls)"
    "\<forall>i < length (asm_buffer a1). (\<forall>r \<in> set (label_refs ?h ls).
        i < ref_pc_offset r \<or> ref_pc_offset r + width \<le> i) \<longrightarrow> asm_buffer a' ! i = asm_buffer a1 ! i"
    "\<forall>(k, p) \<in> set (pool_offsets ?h (length (asm_buffer a1)) ls).
        take (length (label_bytes (?h ! k))) (drop p (asm_buffer a')) = label_bytes (?h ! k) \<and>
        (\<forall>r \<in> set (ref_label_insns (?h ! k)). load (asm_buffer a') (ref_pc_offset r) =
           map_option (fix_inst p r) (load (asm_buffer a1) (ref_pc_offset r)))"
    by (auto simp: a1_def)
  have len1: "length (asm_buffer a1) = length ?b0 + length ?data" by (simp add: a1_def b(2))
  have old: "load (asm_buffer a1) (ref_pc_offset q) = load ?b0 (ref_pc_offset q)" if q: "q \<in> set (label_refs ?h ls)" for q
  proof (rule load_untouched [where P = "ref_pc_offset ` set (ref_label_insns (?h ! l))"])
    show "\<forall>p \<in> ref_pc_offset ` set (ref_label_insns (?h ! l)).
        ref_pc_offset q + width \<le> p \<or> p + width \<le> ref_pc_offset q" using sep q by blast
  qed (use q ls b(2,4) in \<open>auto simp: refs_placed_def a1_def nth_append\<close>)
  have data: "take (length ?data) (drop (length ?b0) (asm_buffer a')) = ?data"
  proof (rule nth_equalityI)
    fix i assume "i < length (take (length ?data) (drop (length ?b0) (asm_buffer a')))"
    then have i: "i < length ?data" by simp
    moreover have "\<forall>r \<in> set (label_refs ?h ls). ref_pc_offset r + width \<le> length ?b0 + i"
      using ls by (auto simp: refs_placed_def)
    ultimately show "take (length ?data) (drop (length ?b0) (asm_buffer a')) ! i = ?data ! i"
      using a'(2,4) len1 b(2) by (simp add: a1_def nth_append)
  qed (use a'(2) len1 in simp)
  have own: "load (asm_buffer a') (ref_pc_offset r) = map_option (fix_inst (length ?b0) r) (load ?b0 (ref_pc_offset r))"
    if r: "r \<in> set (ref_label_insns (?h ! l))" for r
  proof -
    have bound: "ref_pc_offset r + width \<le> length b" using l(3) r b(2) by simp
    have "load (asm_buffer a') (ref_pc_offset r) = load (asm_buffer a1) (ref_pc_offset r)"
    proof (rule load_untouched [where P = "ref_pc_offset ` set (label_refs ?h ls)"])
      show "\<forall>p \<in> ref_pc_offset ` set (label_refs ?h ls).
          ref_pc_offset r + width \<le> p \<or> p + width \<le> ref_pc_offset r" using sep [OF r] by blast
    qed (use bound a'(2,4) in \<open>auto simp: a1_def\<close>)
    also have "\<dots> = load b (ref_pc_offset r)" using load_append [OF bound] by (simp add: a1_def)
    finally show ?thesis using b(3) r by simp
  qed
  have keep: "asm_buffer a' ! i = ?b0 ! i" if "i < length ?b0"
    "\<forall>r \<in> set (label_refs ?h (l # ls)). i < ref_pc_offset r \<or> ref_pc_offset r + width \<le> i" for i
    using that a'(4) b(2,4) len1 by (simp add: a1_def nth_append)
  show ?case
  proof (intro exI conjI)
    show "reloc_bind_loop link a (l # ls) = Some a'" using step a'(1) by simp
  next
    show "\<forall>(k, p) \<in> set (pool_offsets ?h (length ?b0) (l # ls)).
        take (length (label_bytes (?h ! k))) (drop p (asm_buffer a')) = label_bytes (?h ! k) \<and>
        (\<forall>r \<in> set (ref_label_insns (?h ! k)). load (asm_buffer a') (ref_pc_offset r) =
           map_option (fix_inst p r) (load ?b0 (ref_pc_offset r)))"
      using data own a'(5) old pool_offsets_refs refs_in_label_refs len1 by fastforce
  qed (use a'(2,3) len1 keep in auto)
qed

end

end
