(* ===== verification/Arm64_Constants.thy ===== *)
theory Arm64_Constants
  imports Dobby_Prelude
begin

text \<open>
  The instruction-encoding constants of \<^verbatim>\<open>core/arch/arm64/constants-arm64.h\<close> and
  \<^verbatim>\<open>InstructionRelocation/arm64/inst_constants.h\<close>, as 32-bit words. An enumerator built by a
  token-pasting macro keeps the pasted name (\<^verbatim>\<open>OPT_X(LDR, literal)\<close> is \<open>LDR_x_literal\<close>).
\<close>


subsection \<open>Fields\<close>

definition kRdShift :: "nat" where "kRdShift = 0"
definition kRnShift :: "nat" where "kRnShift = 5"
definition kRaShift :: "nat" where "kRaShift = 10"
definition kRmShift :: "nat" where "kRmShift = 16"
definition kRtShift :: "nat" where "kRtShift = 0"
definition kRt2Shift :: "nat" where "kRt2Shift = 10"
definition kRsShift :: "nat" where "kRsShift = 16"

subsection \<open>Exceptions and branches\<close>

definition ExceptionFixed :: "u32" where "ExceptionFixed = 0xD4000000"
definition ExceptionFMask :: "u32" where "ExceptionFMask = 0xFF000000"
definition ExceptionMask :: "u32" where "ExceptionMask = 0xFFE0001F"
definition HLT :: "u32" where "HLT = ExceptionFixed OR 0x00400000"
definition BRK :: "u32" where "BRK = ExceptionFixed OR 0x00200000"
definition SVC :: "u32" where "SVC = ExceptionFixed OR 0x00000001"
definition HVC :: "u32" where "HVC = ExceptionFixed OR 0x00000002"
definition SMC :: "u32" where "SMC = ExceptionFixed OR 0x00000003"
definition DCPS1 :: "u32" where "DCPS1 = ExceptionFixed OR 0x00A00001"
definition DCPS2 :: "u32" where "DCPS2 = ExceptionFixed OR 0x00A00002"
definition DCPS3 :: "u32" where "DCPS3 = ExceptionFixed OR 0x00A00003"
definition UnconditionalBranchFixed :: "u32" where "UnconditionalBranchFixed = 0x14000000"
definition UnconditionalBranchFixedMask :: "u32" where "UnconditionalBranchFixedMask = 0x7C000000"
definition UnconditionalBranchMask :: "u32" where "UnconditionalBranchMask = 0xFC000000"
definition B_op :: "u32" where "B_op = UnconditionalBranchFixed OR 0x00000000"
definition BL_op :: "u32" where "BL_op = UnconditionalBranchFixed OR 0x80000000"
definition UnconditionalBranchToRegisterFixed :: "u32" where "UnconditionalBranchToRegisterFixed = 0xD6000000"
definition UnconditionalBranchToRegisterFixedMask :: "u32" where "UnconditionalBranchToRegisterFixedMask = 0xFE000000"
definition UnconditionalBranchToRegisterMask :: "u32" where "UnconditionalBranchToRegisterMask = 0xFFFFFC1F"
definition BR_op :: "u32" where "BR_op = UnconditionalBranchToRegisterFixed OR 0x001F0000"
definition BLR_op :: "u32" where "BLR_op = UnconditionalBranchToRegisterFixed OR 0x003F0000"
definition RET_op :: "u32" where "RET_op = UnconditionalBranchToRegisterFixed OR 0x005F0000"
definition CompareBranchFixed :: "u32" where "CompareBranchFixed = 0x34000000"
definition CompareBranchFixedMask :: "u32" where "CompareBranchFixedMask = 0x7E000000"
definition CompareBranchMask :: "u32" where "CompareBranchMask = 0xFF000000"
definition ConditionalBranchFixed :: "u32" where "ConditionalBranchFixed = 0x54000000"
definition ConditionalBranchFixedMask :: "u32" where "ConditionalBranchFixedMask = 0xFE000000"
definition ConditionalBranchMask :: "u32" where "ConditionalBranchMask = 0xFF000010"
definition TestBranchFixed :: "u32" where "TestBranchFixed = 0x36000000"
definition TestBranchFixedMask :: "u32" where "TestBranchFixedMask = 0x7E000000"
definition TestBranchMask :: "u32" where "TestBranchMask = 0x7F000000"

subsection \<open>Loads and stores\<close>

definition LoadRegLiteralFixed :: "u32" where "LoadRegLiteralFixed = 0x18000000"
definition LoadRegLiteralFixedMask :: "u32" where "LoadRegLiteralFixedMask = 0x3B000000"
definition LoadRegLiteralMask :: "u32" where "LoadRegLiteralMask = 0xFF000000"
definition LoadRegLiteralSub :: "u32 \<Rightarrow> u32 \<Rightarrow> u32" where "LoadRegLiteralSub opc V = LoadRegLiteralFixed OR LeftShift opc 2 30 OR LeftShift V 1 26"
definition LDR_w_literal :: "u32" where "LDR_w_literal = LoadRegLiteralSub 0 0"
definition LDR_x_literal :: "u32" where "LDR_x_literal = LoadRegLiteralSub 1 0"
definition LDRSW_literal :: "u32" where "LDRSW_literal = LoadRegLiteralSub 2 0"
definition PRFM_literal :: "u32" where "PRFM_literal = LoadRegLiteralSub 3 0"
definition LDR_s_literal :: "u32" where "LDR_s_literal = LoadRegLiteralSub 0 1"
definition LDR_d_literal :: "u32" where "LDR_d_literal = LoadRegLiteralSub 1 1"
definition LDR_q_literal :: "u32" where "LDR_q_literal = LoadRegLiteralSub 2 1"
definition LoadStoreOpSub :: "u32 \<Rightarrow> u32 \<Rightarrow> u32 \<Rightarrow> u32" where "LoadStoreOpSub sz V opc = LeftShift sz 2 30 OR LeftShift V 1 26 OR LeftShift opc 2 22"
definition STRB_w :: "u32" where "STRB_w = LoadStoreOpSub 0 0 0"
definition LDRB_w :: "u32" where "LDRB_w = LoadStoreOpSub 0 0 1"
definition LDRSB_x :: "u32" where "LDRSB_x = LoadStoreOpSub 0 0 2"
definition LDRSB_w :: "u32" where "LDRSB_w = LoadStoreOpSub 0 0 3"
definition STR_b :: "u32" where "STR_b = LoadStoreOpSub 0 1 0"
definition LDR_b :: "u32" where "LDR_b = LoadStoreOpSub 0 1 1"
definition STR_q :: "u32" where "STR_q = LoadStoreOpSub 0 1 2"
definition LDR_q :: "u32" where "LDR_q = LoadStoreOpSub 0 1 3"
definition STRH_w :: "u32" where "STRH_w = LoadStoreOpSub 1 0 0"
definition LDRH_w :: "u32" where "LDRH_w = LoadStoreOpSub 1 0 1"
definition LDRSH_x :: "u32" where "LDRSH_x = LoadStoreOpSub 1 0 2"
definition LDRSH_w :: "u32" where "LDRSH_w = LoadStoreOpSub 1 0 3"
definition STR_h :: "u32" where "STR_h = LoadStoreOpSub 1 1 0"
definition LDR_h :: "u32" where "LDR_h = LoadStoreOpSub 1 1 1"
definition STR_w :: "u32" where "STR_w = LoadStoreOpSub 2 0 0"
definition LDR_w :: "u32" where "LDR_w = LoadStoreOpSub 2 0 1"
definition LDRSW_op :: "u32" where "LDRSW_op = LoadStoreOpSub 2 0 2"
definition STR_s :: "u32" where "STR_s = LoadStoreOpSub 2 1 0"
definition LDR_s :: "u32" where "LDR_s = LoadStoreOpSub 2 1 1"
definition STR_x :: "u32" where "STR_x = LoadStoreOpSub 3 0 0"
definition LDR_x :: "u32" where "LDR_x = LoadStoreOpSub 3 0 1"
definition PRFM_op :: "u32" where "PRFM_op = LoadStoreOpSub 3 0 2"
definition STR_d :: "u32" where "STR_d = LoadStoreOpSub 3 1 0"
definition LDR_d :: "u32" where "LDR_d = LoadStoreOpSub 3 1 1"
definition LoadStoreRegisterOffsetFixed :: "u32" where "LoadStoreRegisterOffsetFixed = 0x38200800"
definition LoadStoreRegisterOffsetFixedMask :: "u32" where "LoadStoreRegisterOffsetFixedMask = 0x3B200C00"
definition LoadStoreRegisterOffsetMask :: "u32" where "LoadStoreRegisterOffsetMask = 0xFFE00C00"
definition LoadStoreUnscaledOffsetFixed :: "u32" where "LoadStoreUnscaledOffsetFixed = 0x38000000"
definition LoadStoreUnscaledOffsetFixedMask :: "u32" where "LoadStoreUnscaledOffsetFixedMask = 0x3B200C00"
definition LoadStoreUnscaledOffsetMask :: "u32" where "LoadStoreUnscaledOffsetMask = 0xFFE00C00"
definition LoadStoreUnsignedOffsetFixed :: "u32" where "LoadStoreUnsignedOffsetFixed = 0x39000000"
definition LoadStoreUnsignedOffsetFixedMask :: "u32" where "LoadStoreUnsignedOffsetFixedMask = 0x3B000000"
definition LoadStoreUnsignedOffsetMask :: "u32" where "LoadStoreUnsignedOffsetMask = 0xFFC00000"
definition LoadStoreRegisterOffsetOpSub :: "u32 \<Rightarrow> u32 \<Rightarrow> u32 \<Rightarrow> u32" where "LoadStoreRegisterOffsetOpSub sz V opc = LoadStoreRegisterOffsetFixed OR LeftShift sz 2 30 OR LeftShift V 1 26 OR LeftShift opc 2 22"
definition LoadStoreUnscaledOffsetOpSub :: "u32 \<Rightarrow> u32 \<Rightarrow> u32 \<Rightarrow> u32" where "LoadStoreUnscaledOffsetOpSub sz V opc = LoadStoreUnscaledOffsetFixed OR LeftShift sz 2 30 OR LeftShift V 1 26 OR LeftShift opc 2 22"
definition LoadStoreUnsignedOffsetSub :: "u32 \<Rightarrow> u32 \<Rightarrow> u32 \<Rightarrow> u32" where "LoadStoreUnsignedOffsetSub sz V opc = LoadStoreUnsignedOffsetFixed OR LeftShift sz 2 30 OR LeftShift V 1 26 OR LeftShift opc 2 22"
definition LoadStorePairOpSub :: "u32 \<Rightarrow> u32 \<Rightarrow> u32 \<Rightarrow> u32" where "LoadStorePairOpSub opc V L = LeftShift opc 2 30 OR LeftShift V 1 26 OR LeftShift L 1 22"
definition STP_w :: "u32" where "STP_w = LoadStorePairOpSub 0 0 0"
definition LDP_w :: "u32" where "LDP_w = LoadStorePairOpSub 0 0 1"
definition STP_s :: "u32" where "STP_s = LoadStorePairOpSub 0 1 0"
definition LDP_s :: "u32" where "LDP_s = LoadStorePairOpSub 0 1 1"
definition LDPSW_op :: "u32" where "LDPSW_op = LoadStorePairOpSub 1 0 1"
definition STP_d :: "u32" where "STP_d = LoadStorePairOpSub 1 1 0"
definition LDP_d :: "u32" where "LDP_d = LoadStorePairOpSub 1 1 1"
definition STP_x :: "u32" where "STP_x = LoadStorePairOpSub 2 0 0"
definition LDP_x :: "u32" where "LDP_x = LoadStorePairOpSub 2 0 1"
definition STP_q :: "u32" where "STP_q = LoadStorePairOpSub 2 1 0"
definition LDP_q :: "u32" where "LDP_q = LoadStorePairOpSub 2 1 1"
definition LoadStorePairOffsetFixed :: "u32" where "LoadStorePairOffsetFixed = 0x29000000"
definition LoadStorePairOffsetFixedMask :: "u32" where "LoadStorePairOffsetFixedMask = 0x3B800000"
definition LoadStorePairOffsetMask :: "u32" where "LoadStorePairOffsetMask = 0xFFC00000"
definition LoadStorePairPostIndexFixed :: "u32" where "LoadStorePairPostIndexFixed = 0x28800000"
definition LoadStorePairPostIndexFixedMask :: "u32" where "LoadStorePairPostIndexFixedMask = 0x3B800000"
definition LoadStorePairPostIndexMask :: "u32" where "LoadStorePairPostIndexMask = 0xFFC00000"
definition LoadStorePairPreIndexFixed :: "u32" where "LoadStorePairPreIndexFixed = 0x29800000"
definition LoadStorePairPreIndexFixedMask :: "u32" where "LoadStorePairPreIndexFixedMask = 0x3B800000"
definition LoadStorePairPreIndexMask :: "u32" where "LoadStorePairPreIndexMask = 0xFFC00000"

subsection \<open>Data processing\<close>

definition SixtyFourBits :: "u32" where "SixtyFourBits = 0x80000000"
definition ThirtyTwoBits :: "u32" where "ThirtyTwoBits = 0x00000000"
definition MoveWideImmediateFixed :: "u32" where "MoveWideImmediateFixed = 0x12800000"
definition MoveWideImmediateFixedMask :: "u32" where "MoveWideImmediateFixedMask = 0x1F800000"
definition MoveWideImmediateMask :: "u32" where "MoveWideImmediateMask = 0xFF800000"
definition MOVN :: "u32" where "MOVN = 0x00000000"
definition MOVZ :: "u32" where "MOVZ = 0x40000000"
definition MOVK :: "u32" where "MOVK = 0x60000000"
definition MoveWideImmediateOpSub :: "u32 \<Rightarrow> u32 \<Rightarrow> u32" where "MoveWideImmediateOpSub sf opc = MoveWideImmediateFixed OR LeftShift sf 1 31 OR LeftShift opc 2 29"
definition MOVN_w :: "u32" where "MOVN_w = MoveWideImmediateFixed OR MOVN"
definition MOVN_x :: "u32" where "MOVN_x = MoveWideImmediateFixed OR MOVN OR SixtyFourBits"
definition MOVZ_w :: "u32" where "MOVZ_w = MoveWideImmediateFixed OR MOVZ"
definition MOVZ_x :: "u32" where "MOVZ_x = MoveWideImmediateFixed OR MOVZ OR SixtyFourBits"
definition MOVK_w :: "u32" where "MOVK_w = MoveWideImmediateFixed OR MOVK"
definition MOVK_x :: "u32" where "MOVK_x = MoveWideImmediateFixed OR MOVK OR SixtyFourBits"
definition AddSubImmediateFixed :: "u32" where "AddSubImmediateFixed = 0x11000000"
definition AddSubImmediateFixedMask :: "u32" where "AddSubImmediateFixedMask = 0x1F000000"
definition AddSubImmediateMask :: "u32" where "AddSubImmediateMask = 0xFF000000"
definition AddSubShiftedFixed :: "u32" where "AddSubShiftedFixed = 0x0B000000"
definition AddSubShiftedFixedMask :: "u32" where "AddSubShiftedFixedMask = 0x1F200000"
definition AddSubShiftedMask :: "u32" where "AddSubShiftedMask = 0xFF200000"
definition AddSubExtendedFixed :: "u32" where "AddSubExtendedFixed = 0x0B200000"
definition AddSubExtendedFixedMask :: "u32" where "AddSubExtendedFixedMask = 0x1F200000"
definition AddSubExtendedMask :: "u32" where "AddSubExtendedMask = 0xFFE00000"
definition AddSubImmediateOpSub :: "u32 \<Rightarrow> u32 \<Rightarrow> u32 \<Rightarrow> u32" where "AddSubImmediateOpSub sf op S = AddSubImmediateFixed OR LeftShift sf 1 31 OR LeftShift op 1 30 OR LeftShift S 1 29"
definition ADD_w_imm :: "u32" where "ADD_w_imm = AddSubImmediateOpSub 0 0 0"
definition ADDS_w_imm :: "u32" where "ADDS_w_imm = AddSubImmediateOpSub 0 0 1"
definition SUB_w_imm :: "u32" where "SUB_w_imm = AddSubImmediateOpSub 0 1 0"
definition SUBS_w_imm :: "u32" where "SUBS_w_imm = AddSubImmediateOpSub 0 1 1"
definition ADD_x_imm :: "u32" where "ADD_x_imm = AddSubImmediateOpSub 1 0 0"
definition ADDS_x_imm :: "u32" where "ADDS_x_imm = AddSubImmediateOpSub 1 0 1"
definition SUB_x_imm :: "u32" where "SUB_x_imm = AddSubImmediateOpSub 1 1 0"
definition SUBS_x_imm :: "u32" where "SUBS_x_imm = AddSubImmediateOpSub 1 1 1"
definition AddSubShiftedOpSub :: "u32 \<Rightarrow> u32 \<Rightarrow> u32 \<Rightarrow> u32" where "AddSubShiftedOpSub sf op S = AddSubShiftedFixed OR LeftShift sf 1 31 OR LeftShift op 1 30 OR LeftShift S 1 29"
definition ADD_w_shift :: "u32" where "ADD_w_shift = AddSubShiftedOpSub 0 0 0"
definition ADDS_w_shift :: "u32" where "ADDS_w_shift = AddSubShiftedOpSub 0 0 1"
definition SUB_w_shift :: "u32" where "SUB_w_shift = AddSubShiftedOpSub 0 1 0"
definition SUBS_w_shift :: "u32" where "SUBS_w_shift = AddSubShiftedOpSub 0 1 1"
definition ADD_x_shift :: "u32" where "ADD_x_shift = AddSubShiftedOpSub 1 0 0"
definition ADDS_x_shift :: "u32" where "ADDS_x_shift = AddSubShiftedOpSub 1 0 1"
definition SUB_x_shift :: "u32" where "SUB_x_shift = AddSubShiftedOpSub 1 1 0"
definition SUBS_x_shift :: "u32" where "SUBS_x_shift = AddSubShiftedOpSub 1 1 1"
definition AddSubExtendedOpSub :: "u32 \<Rightarrow> u32 \<Rightarrow> u32 \<Rightarrow> u32" where "AddSubExtendedOpSub sf op S = AddSubExtendedFixed OR LeftShift sf 1 31 OR LeftShift op 1 30 OR LeftShift S 1 29"
definition ADD_w_extend :: "u32" where "ADD_w_extend = AddSubExtendedOpSub 0 0 0"
definition ADDS_w_extend :: "u32" where "ADDS_w_extend = AddSubExtendedOpSub 0 0 1"
definition SUB_w_extend :: "u32" where "SUB_w_extend = AddSubExtendedOpSub 0 1 0"
definition SUBS_w_extend :: "u32" where "SUBS_w_extend = AddSubExtendedOpSub 0 1 1"
definition ADD_x_extend :: "u32" where "ADD_x_extend = AddSubExtendedOpSub 1 0 0"
definition ADDS_x_extend :: "u32" where "ADDS_x_extend = AddSubExtendedOpSub 1 0 1"
definition SUB_x_extend :: "u32" where "SUB_x_extend = AddSubExtendedOpSub 1 1 0"
definition SUBS_x_extend :: "u32" where "SUBS_x_extend = AddSubExtendedOpSub 1 1 1"

subsection \<open>Logical and PC-relative\<close>

definition LogicalOpMask :: "u32" where "LogicalOpMask = 0x60200000"
definition LogicalOp_NOT :: "u32" where "LogicalOp_NOT = 0x00200000"
definition LogicalOp_AND :: "u32" where "LogicalOp_AND = 0x00000000"
definition LogicalOp_BIC :: "u32" where "LogicalOp_BIC = LogicalOp_AND OR LogicalOp_NOT"
definition LogicalOp_ORR :: "u32" where "LogicalOp_ORR = 0x20000000"
definition LogicalOp_ORN :: "u32" where "LogicalOp_ORN = LogicalOp_ORR OR LogicalOp_NOT"
definition LogicalOp_EOR :: "u32" where "LogicalOp_EOR = 0x40000000"
definition LogicalOp_EON :: "u32" where "LogicalOp_EON = LogicalOp_EOR OR LogicalOp_NOT"
definition LogicalOp_ANDS :: "u32" where "LogicalOp_ANDS = 0x60000000"
definition LogicalOp_BICS :: "u32" where "LogicalOp_BICS = LogicalOp_ANDS OR LogicalOp_NOT"
definition LogicalImmediateFixed :: "u32" where "LogicalImmediateFixed = 0x12000000"
definition LogicalImmediateFixedMask :: "u32" where "LogicalImmediateFixedMask = 0x1F800000"
definition LogicalImmediateMask :: "u32" where "LogicalImmediateMask = 0xFF800000"
definition LogicalShiftedFixed :: "u32" where "LogicalShiftedFixed = 0x0A000000"
definition LogicalShiftedFixedMask :: "u32" where "LogicalShiftedFixedMask = 0x1F000000"
definition LogicalShiftedMask :: "u32" where "LogicalShiftedMask = 0xFF200000"
definition PCRelAddressingFixed :: "u32" where "PCRelAddressingFixed = 0x10000000"
definition PCRelAddressingFixedMask :: "u32" where "PCRelAddressingFixedMask = 0x1F000000"
definition PCRelAddressingMask :: "u32" where "PCRelAddressingMask = 0x9F000000"
definition ADR_op :: "u32" where "ADR_op = PCRelAddressingFixed OR 0x00000000"
definition ADRP_op :: "u32" where "ADRP_op = PCRelAddressingFixed OR 0x80000000"

subsection \<open>Tables\<close>

text \<open>The load/store and load/store-pair operations of the two lists, with the fields each is built from.\<close>

definition LOAD_STORE_OP_LIST :: "(u32 \<times> u32 \<times> u32 \<times> u32) list" where "LOAD_STORE_OP_LIST = [(STRB_w, 0, 0, 0),
    (LDRB_w, 0, 0, 1),
    (LDRSB_x, 0, 0, 2),
    (LDRSB_w, 0, 0, 3),
    (STR_b, 0, 1, 0),
    (LDR_b, 0, 1, 1),
    (STR_q, 0, 1, 2),
    (LDR_q, 0, 1, 3),
    (STRH_w, 1, 0, 0),
    (LDRH_w, 1, 0, 1),
    (LDRSH_x, 1, 0, 2),
    (LDRSH_w, 1, 0, 3),
    (STR_h, 1, 1, 0),
    (LDR_h, 1, 1, 1),
    (STR_w, 2, 0, 0),
    (LDR_w, 2, 0, 1),
    (LDRSW_op, 2, 0, 2),
    (STR_s, 2, 1, 0),
    (LDR_s, 2, 1, 1),
    (STR_x, 3, 0, 0),
    (LDR_x, 3, 0, 1),
    (PRFM_op, 3, 0, 2),
    (STR_d, 3, 1, 0),
    (LDR_d, 3, 1, 1)]"
definition LOAD_STORE_PAIR_OP_LIST :: "(u32 \<times> u32 \<times> u32 \<times> u32) list" where "LOAD_STORE_PAIR_OP_LIST = [(STP_w, 0, 0, 0),
    (LDP_w, 0, 0, 1),
    (STP_s, 0, 1, 0),
    (LDP_s, 0, 1, 1),
    (LDPSW_op, 1, 0, 1),
    (STP_d, 1, 1, 0),
    (LDP_d, 1, 1, 1),
    (STP_x, 2, 0, 0),
    (LDP_x, 2, 0, 1),
    (STP_q, 2, 1, 0),
    (LDP_q, 2, 1, 1)]"

text \<open>Each list entry is built from its fields, and the fields can be read back from it.\<close>

lemma load_store_ops_fields:
  "list_all (\<lambda>(op, sz, V, opc). op = LoadStoreOpSub sz V opc \<and> bits op 30 31 = sz \<and>
     bits op 26 26 = V \<and> bits op 22 23 = opc) LOAD_STORE_OP_LIST"
  by code_simp

lemma load_store_pair_ops_fields:
  "list_all (\<lambda>(op, opc, V, L). op = LoadStorePairOpSub opc V L \<and> bits op 30 31 = opc \<and>
     bits op 26 26 = V \<and> bits op 22 22 = L) LOAD_STORE_PAIR_OP_LIST"
  by code_simp

lemma load_store_ops_distinct:
  "distinct (map fst LOAD_STORE_OP_LIST)" "distinct (map fst LOAD_STORE_PAIR_OP_LIST)"
  by code_simp+

end

