(* ===== verification/Arm64_Asm.thy ===== *)
theory Arm64_Asm
  imports Code_Buffer Arm64_Constants
begin

text \<open>
  The ARM64 registers (\<^verbatim>\<open>core/arch/arm64/registers-arm64.h\<close>), the assembler and the turbo assembler
  (\<^verbatim>\<open>core/assembler/assembler-arm64.h\<close>, \<^verbatim>\<open>assembler-arm64.cc\<close>) and the code generator
  (\<^verbatim>\<open>core/codegen/codegen-arm64.cc\<close>). Each emitting method maps the assembler state to the next
  one; a method that can reach \<^verbatim>\<open>UNREACHABLE()\<close>, which aborts, returns an option. The
  \<^verbatim>\<open>DCHECK\<close>s are compiled out of release builds and have no effect here.
\<close>

subsection \<open>Registers\<close>

datatype RegisterType = kRegister_32 | kRegister_64 | kRegister | kVRegister | kSIMD_FP_Register_8
  | kSIMD_FP_Register_16 | kSIMD_FP_Register_32 | kSIMD_FP_Register_64 | kSIMD_FP_Register_128 | kInvalid

primrec register_type_code :: "RegisterType \<Rightarrow> nat" where
  "register_type_code kRegister_32 = 0" | "register_type_code kRegister_64 = 1"
| "register_type_code kRegister = 2" | "register_type_code kVRegister = 3"
| "register_type_code kSIMD_FP_Register_8 = 4" | "register_type_code kSIMD_FP_Register_16 = 5"
| "register_type_code kSIMD_FP_Register_32 = 6" | "register_type_code kSIMD_FP_Register_64 = 7"
| "register_type_code kSIMD_FP_Register_128 = 8" | "register_type_code kInvalid = 9"

record CPURegister =
  reg_code :: nat
  reg_size :: nat
  reg_type :: RegisterType

definition X :: "nat \<Rightarrow> CPURegister" where "X c = \<lparr>reg_code = c, reg_size = 64, reg_type = kRegister_64\<rparr>"
definition W :: "nat \<Rightarrow> CPURegister" where "W c = \<lparr>reg_code = c, reg_size = 32, reg_type = kRegister_32\<rparr>"
definition Q :: "nat \<Rightarrow> CPURegister" where "Q c = \<lparr>reg_code = c, reg_size = 128, reg_type = kSIMD_FP_Register_128\<rparr>"
definition InvalidRegister :: CPURegister where
  "InvalidRegister = \<lparr>reg_code = 0, reg_size = 0, reg_type = kInvalid\<rparr>"

definition reg_Is :: "CPURegister \<Rightarrow> CPURegister \<Rightarrow> bool" where "reg_Is r s \<longleftrightarrow> reg_code s = reg_code r"
definition Is64Bits :: "CPURegister \<Rightarrow> bool" where "Is64Bits r \<longleftrightarrow> reg_size r = 64"
definition IsRegister :: "CPURegister \<Rightarrow> bool" where
  "IsRegister r \<longleftrightarrow> register_type_code (reg_type r) < register_type_code kRegister"
definition IsVRegister :: "CPURegister \<Rightarrow> bool" where
  "IsVRegister r \<longleftrightarrow> register_type_code (reg_type r) > register_type_code kVRegister"

definition xzr :: CPURegister where "xzr = X 31"
definition wzr :: CPURegister where "wzr = W 31"
definition SP :: CPURegister where "SP = X 31"
definition LR :: CPURegister where "LR = X 30"

text \<open>\<^verbatim>\<open>ARM64_TMP_REG_NDX_0\<close> is 17.\<close>
definition TMP_REG_0 :: CPURegister where "TMP_REG_0 = X 17"

definition reg_word :: "CPURegister \<Rightarrow> u32" where "reg_word r = word_of_nat (reg_code r)"
definition Rd :: "CPURegister \<Rightarrow> u32" where "Rd r = push_bit kRdShift (reg_word r)"
definition Rt :: "CPURegister \<Rightarrow> u32" where "Rt r = push_bit kRtShift (reg_word r)"
definition Rt2 :: "CPURegister \<Rightarrow> u32" where "Rt2 r = push_bit kRt2Shift (reg_word r)"
definition Rn :: "CPURegister \<Rightarrow> u32" where "Rn r = push_bit kRnShift (reg_word r)"
definition Rm :: "CPURegister \<Rightarrow> u32" where "Rm r = push_bit kRmShift (reg_word r)"

definition Low16Bits :: "u32 \<Rightarrow> u16" where "Low16Bits v = ucast (v AND 0xffff)"
definition High16Bits :: "u32 \<Rightarrow> u16" where "High16Bits v = ucast (drop_bit 16 v)"
definition Low32Bits :: "u64 \<Rightarrow> u32" where "Low32Bits v = ucast v"
definition High32Bits :: "u64 \<Rightarrow> u32" where "High32Bits v = ucast (drop_bit 32 v)"

subsection \<open>Operands\<close>

datatype Shift = NO_SHIFT | LSL | LSR | ASR | ROR | MSL
datatype Extend = NO_EXTEND | UXTB | UXTH | UXTW | UXTX | SXTB | SXTH | SXTW | SXTX
datatype AddrMode = Offset | PreIndex | PostIndex

primrec shift_code :: "Shift \<Rightarrow> u32" where
  "shift_code NO_SHIFT = - 1" | "shift_code LSL = 0" | "shift_code LSR = 1" | "shift_code ASR = 2"
| "shift_code ROR = 3" | "shift_code MSL = 4"

record Operand =
  op_immediate :: u64
  op_reg :: CPURegister
  op_shift :: Shift
  op_extend :: Extend
  op_shift_extend_imm :: u32

definition Operand_imm :: "u64 \<Rightarrow> Operand" where
  "Operand_imm imm = \<lparr>op_immediate = imm, op_reg = InvalidRegister, op_shift = NO_SHIFT,
     op_extend = NO_EXTEND, op_shift_extend_imm = 0\<rparr>"

definition Operand_shift :: "CPURegister \<Rightarrow> Shift \<Rightarrow> u32 \<Rightarrow> Operand" where
  "Operand_shift r s i = \<lparr>op_immediate = 0, op_reg = r, op_shift = s, op_extend = NO_EXTEND,
     op_shift_extend_imm = i\<rparr>"

definition Operand_extend :: "CPURegister \<Rightarrow> Extend \<Rightarrow> u32 \<Rightarrow> Operand" where
  "Operand_extend r e i = \<lparr>op_immediate = 0, op_reg = r, op_shift = NO_SHIFT, op_extend = e,
     op_shift_extend_imm = i\<rparr>"

text \<open>\<^verbatim>\<open>IsImmediate\<close> compares register codes: an operand on register 0 counts as an immediate too.\<close>

definition IsImmediate :: "Operand \<Rightarrow> bool" where "IsImmediate o' \<longleftrightarrow> reg_Is (op_reg o') InvalidRegister"
definition IsShiftedRegister :: "Operand \<Rightarrow> bool" where "IsShiftedRegister o' \<longleftrightarrow> op_shift o' \<noteq> NO_SHIFT"
definition IsExtendedRegister :: "Operand \<Rightarrow> bool" where "IsExtendedRegister o' \<longleftrightarrow> op_extend o' \<noteq> NO_EXTEND"

record MemOperand =
  m_base :: CPURegister
  m_regoffset :: CPURegister
  m_offset :: u64
  m_shift :: Shift
  m_extend :: Extend
  m_shift_extend_imm :: u32
  m_addrmode :: AddrMode

definition MemOperand_offset :: "CPURegister \<Rightarrow> u64 \<Rightarrow> AddrMode \<Rightarrow> MemOperand" where
  "MemOperand_offset r off md = \<lparr>m_base = r, m_regoffset = InvalidRegister, m_offset = off,
     m_shift = NO_SHIFT, m_extend = NO_EXTEND, m_shift_extend_imm = 0, m_addrmode = md\<rparr>"

definition MemOperand_regext :: "CPURegister \<Rightarrow> CPURegister \<Rightarrow> Extend \<Rightarrow> u32 \<Rightarrow> MemOperand" where
  "MemOperand_regext r ro e i = \<lparr>m_base = r, m_regoffset = ro, m_offset = 0,
     m_shift = NO_SHIFT, m_extend = e, m_shift_extend_imm = i, m_addrmode = Offset\<rparr>"

definition MemOperand_regshift :: "CPURegister \<Rightarrow> CPURegister \<Rightarrow> Shift \<Rightarrow> u32 \<Rightarrow> MemOperand" where
  "MemOperand_regshift r ro s i = \<lparr>m_base = r, m_regoffset = ro, m_offset = 0,
     m_shift = s, m_extend = NO_EXTEND, m_shift_extend_imm = i, m_addrmode = Offset\<rparr>"

definition IsImmediateOffset :: "MemOperand \<Rightarrow> bool" where "IsImmediateOffset m \<longleftrightarrow> m_addrmode m = Offset"
definition IsRegisterOffset :: "MemOperand \<Rightarrow> bool" where "IsRegisterOffset m \<longleftrightarrow> m_addrmode m = Offset"
definition IsPreIndex :: "MemOperand \<Rightarrow> bool" where "IsPreIndex m \<longleftrightarrow> m_addrmode m = PreIndex"
definition IsPostIndex :: "MemOperand \<Rightarrow> bool" where "IsPostIndex m \<longleftrightarrow> m_addrmode m = PostIndex"

subsection \<open>Field encoders\<close>

definition OpEncode_sf :: "CPURegister \<Rightarrow> u32" where
  "OpEncode_sf r = (if Is64Bits r then LeftShift 1 1 31 else 0)"

definition OpEncode_V :: "CPURegister \<Rightarrow> u32" where
  "OpEncode_V r = (if IsVRegister r then LeftShift 1 1 26 else 0)"

definition OpEncode_L :: "bool \<Rightarrow> u32" where
  "OpEncode_L load_or_store = (if load_or_store then LeftShift 1 1 22 else 0)"

definition OpEncode_shift :: "Shift \<Rightarrow> u32" where
  "OpEncode_shift s = LeftShift (shift_code s) 2 22"

text \<open>The \<^verbatim>\<open>N\<close> bit is computed and then left out of the encoding.\<close>

definition EncodeLogicalImmediate :: "CPURegister \<Rightarrow> CPURegister \<Rightarrow> Operand \<Rightarrow> u32" where
  "EncodeLogicalImmediate rd rn o' =
     (let imm = op_immediate o'; immr = ucast (bits imm 0 5); imms = ucast (bits imm 6 11)
      in OpEncode_sf rd OR LeftShift immr 6 16 OR LeftShift imms 6 10 OR Rd rd OR Rn rn)"

definition EncodeLogicalShift :: "CPURegister \<Rightarrow> CPURegister \<Rightarrow> Operand \<Rightarrow> u32" where
  "EncodeLogicalShift rd rn o' =
     (OpEncode_sf rd OR OpEncode_shift (op_shift o') OR Rm (op_reg o') OR
      LeftShift (op_shift_extend_imm o') 6 10 OR Rn rn OR Rd rd)"

definition OpEncode_LoadStorePair :: "u32 \<Rightarrow> CPURegister \<Rightarrow> CPURegister \<Rightarrow> MemOperand \<Rightarrow> u32" where
  "OpEncode_LoadStorePair op rt rt2 m =
     (let opc = bits op 30 31;
          scale = (if IsRegister rt then 2 + bit1 opc 1 else if IsVRegister rt then 2 + opc else 2);
          imm7 = ucast (signed_drop_bit (unat scale) (m_offset m))
      in LeftShift imm7 7 15)"

definition OpEncode_scale :: "u32 \<Rightarrow> nat" where
  "OpEncode_scale op =
     (if op AND LoadStoreUnsignedOffsetFixed = LoadStoreUnsignedOffsetFixed then unat (bits op 30 31) else 0)"

subsection \<open>The assembler\<close>

definition Emit :: "assembler \<Rightarrow> u32 \<Rightarrow> assembler" where
  "Emit a v = a\<lparr>asm_buffer := Emit32 (asm_buffer a) v\<rparr>"

definition EmitInt64 :: "assembler \<Rightarrow> u64 \<Rightarrow> assembler" where
  "EmitInt64 a v = a\<lparr>asm_buffer := Emit64 (asm_buffer a) v\<rparr>"

definition arm64_nop :: "assembler \<Rightarrow> assembler" where "arm64_nop a = Emit a 0xD503201F"

definition arm64_brk :: "assembler \<Rightarrow> u32 \<Rightarrow> assembler" where
  "arm64_brk a c = Emit a (BRK OR LeftShift c 16 5)"

definition arm64_ret :: "assembler \<Rightarrow> assembler" where "arm64_ret a = Emit a 0xD65F03C0"

definition arm64_adrp :: "assembler \<Rightarrow> CPURegister \<Rightarrow> u64 \<Rightarrow> assembler" where
  "arm64_adrp a rd imm =
     (let immlo = LeftShift (ucast (bits (signed_drop_bit 12 imm) 0 1)) 2 29;
          immhi = LeftShift (ucast (bits (signed_drop_bit 12 imm) 2 20)) 19 5
      in Emit a (ADRP_op OR Rd rd OR immlo OR immhi))"

definition AddSubImmediate :: "assembler \<Rightarrow> CPURegister \<Rightarrow> CPURegister \<Rightarrow> Operand \<Rightarrow> u32 \<Rightarrow> assembler option" where
  "AddSubImmediate a rd rn o' op =
     (if IsImmediate o' then
        let imm12 = ucast (LeftShift (op_immediate o') 12 10)
        in Some (Emit a (op OR Rd rd OR Rn rn OR imm12))
      else None)"

definition arm64_add :: "assembler \<Rightarrow> CPURegister \<Rightarrow> CPURegister \<Rightarrow> u64 \<Rightarrow> assembler option" where
  "arm64_add a rd rn imm =
     (if Is64Bits rd \<and> Is64Bits rn then AddSubImmediate a rd rn (Operand_imm imm) ADD_x_imm
      else AddSubImmediate a rd rn (Operand_imm imm) ADD_w_imm)"

definition arm64_sub :: "assembler \<Rightarrow> CPURegister \<Rightarrow> CPURegister \<Rightarrow> u64 \<Rightarrow> assembler option" where
  "arm64_sub a rd rn imm =
     (if Is64Bits rd \<and> Is64Bits rn then AddSubImmediate a rd rn (Operand_imm imm) SUB_x_imm
      else AddSubImmediate a rd rn (Operand_imm imm) SUB_w_imm)"

definition arm64_b :: "assembler \<Rightarrow> u64 \<Rightarrow> assembler" where
  "arm64_b a imm = (let imm26 = ucast (bits (signed_drop_bit 2 imm) 0 25) in Emit a (B_op OR imm26))"

definition arm64_br :: "assembler \<Rightarrow> CPURegister \<Rightarrow> assembler" where
  "arm64_br a rn = Emit a (BR_op OR Rn rn)"

definition arm64_blr :: "assembler \<Rightarrow> CPURegister \<Rightarrow> assembler" where
  "arm64_blr a rn = Emit a (BLR_op OR Rn rn)"

text \<open>The 26-bit field holds the byte offset itself, not the word offset.\<close>

definition EmitLoadRegLiteral :: "assembler \<Rightarrow> u32 \<Rightarrow> CPURegister \<Rightarrow> u64 \<Rightarrow> assembler" where
  "EmitLoadRegLiteral a op rt imm = Emit a (op OR ucast (LeftShift imm 26 5) OR Rt rt)"

definition arm64_ldr_literal :: "assembler \<Rightarrow> CPURegister \<Rightarrow> u64 \<Rightarrow> assembler option" where
  "arm64_ldr_literal a rt imm =
     (case reg_type rt of
        kRegister_32 \<Rightarrow> Some (EmitLoadRegLiteral a LDR_w_literal rt imm)
      | kRegister_64 \<Rightarrow> Some (EmitLoadRegLiteral a LDR_x_literal rt imm)
      | kSIMD_FP_Register_32 \<Rightarrow> Some (EmitLoadRegLiteral a LDR_s_literal rt imm)
      | kSIMD_FP_Register_64 \<Rightarrow> Some (EmitLoadRegLiteral a LDR_d_literal rt imm)
      | kSIMD_FP_Register_128 \<Rightarrow> Some (EmitLoadRegLiteral a LDR_q_literal rt imm)
      | _ \<Rightarrow> None)"

definition LoadStore :: "assembler \<Rightarrow> u32 \<Rightarrow> CPURegister \<Rightarrow> MemOperand \<Rightarrow> assembler option" where
  "LoadStore a op rt m =
     (if IsImmediateOffset m then
        let imm12 = signed_drop_bit (OpEncode_scale (LoadStoreUnsignedOffsetFixed OR op)) (m_offset m)
        in Some (Emit a (LoadStoreUnsignedOffsetFixed OR op OR ucast (LeftShift imm12 12 10) OR
             Rn (m_base m) OR Rt rt))
      else None)"

definition arm64_ldr :: "assembler \<Rightarrow> CPURegister \<Rightarrow> MemOperand \<Rightarrow> assembler option" where
  "arm64_ldr a rt src = LoadStore a LDR_x rt src"

definition arm64_str :: "assembler \<Rightarrow> CPURegister \<Rightarrow> MemOperand \<Rightarrow> assembler option" where
  "arm64_str a rt src = LoadStore a STR_x rt src"

definition LoadStorePair :: "assembler \<Rightarrow> u32 \<Rightarrow> CPURegister \<Rightarrow> CPURegister \<Rightarrow> MemOperand \<Rightarrow> assembler" where
  "LoadStorePair a op rt rt2 m =
     (let combine_fields_op = OpEncode_LoadStorePair op rt rt2 m OR Rt2 rt2 OR Rn (m_base m) OR Rt rt;
          addrmodeop = (if IsImmediateOffset m then LoadStorePairOffsetFixed
                        else if IsPreIndex m then LoadStorePairPreIndexFixed
                        else LoadStorePairPostIndexFixed)
      in Emit a (op OR addrmodeop OR combine_fields_op))"

definition arm64_ldp :: "assembler \<Rightarrow> CPURegister \<Rightarrow> CPURegister \<Rightarrow> MemOperand \<Rightarrow> assembler option" where
  "arm64_ldp a rt rt2 src =
     (if reg_type rt = kSIMD_FP_Register_128 then Some (LoadStorePair a LDP_q rt rt2 src)
      else if reg_type rt = kRegister_64 then Some (LoadStorePair a LDP_x rt rt2 src) else None)"

definition arm64_stp :: "assembler \<Rightarrow> CPURegister \<Rightarrow> CPURegister \<Rightarrow> MemOperand \<Rightarrow> assembler option" where
  "arm64_stp a rt rt2 dst =
     (if reg_type rt = kSIMD_FP_Register_128 then Some (LoadStorePair a STP_q rt rt2 dst)
      else if reg_type rt = kRegister_64 then Some (LoadStorePair a STP_x rt rt2 dst) else None)"

text \<open>The shift argument of the move-wide family is a bit count; \<open>- 1\<close>, the default, means no shift.\<close>

definition MoveWide :: "assembler \<Rightarrow> CPURegister \<Rightarrow> u64 \<Rightarrow> int \<Rightarrow> u32 \<Rightarrow> assembler" where
  "MoveWide a rd imm sh op =
     (let sh' = (if 0 < sh then sh div 16 else 0);
          imm16 = ucast (LeftShift imm 16 5)
      in Emit a (MoveWideImmediateFixed OR op OR OpEncode_sf rd OR LeftShift (word_of_int sh') 2 21 OR
           imm16 OR Rd rd))"

definition arm64_movk :: "assembler \<Rightarrow> CPURegister \<Rightarrow> u64 \<Rightarrow> int \<Rightarrow> assembler" where
  "arm64_movk a rd imm sh = MoveWide a rd imm sh MOVK"

definition arm64_movn :: "assembler \<Rightarrow> CPURegister \<Rightarrow> u64 \<Rightarrow> int \<Rightarrow> assembler" where
  "arm64_movn a rd imm sh = MoveWide a rd imm sh MOVN"

definition arm64_movz :: "assembler \<Rightarrow> CPURegister \<Rightarrow> u64 \<Rightarrow> int \<Rightarrow> assembler" where
  "arm64_movz a rd imm sh = MoveWide a rd imm sh MOVZ"

definition LogicalImmediate :: "assembler \<Rightarrow> CPURegister \<Rightarrow> CPURegister \<Rightarrow> Operand \<Rightarrow> u32 \<Rightarrow> assembler" where
  "LogicalImmediate a rd rn o' op = Emit a (op OR EncodeLogicalImmediate rd rn o')"

definition LogicalShift :: "assembler \<Rightarrow> CPURegister \<Rightarrow> CPURegister \<Rightarrow> Operand \<Rightarrow> u32 \<Rightarrow> assembler" where
  "LogicalShift a rd rn o' op = Emit a (op OR LogicalShiftedFixed OR EncodeLogicalShift rd rn o')"

definition Logical :: "assembler \<Rightarrow> CPURegister \<Rightarrow> CPURegister \<Rightarrow> Operand \<Rightarrow> u32 \<Rightarrow> assembler" where
  "Logical a rd rn o' op =
     (if IsImmediate o' then LogicalImmediate a rd rn o' op else LogicalShift a rd rn o' op)"

definition arm64_orr :: "assembler \<Rightarrow> CPURegister \<Rightarrow> CPURegister \<Rightarrow> Operand \<Rightarrow> assembler" where
  "arm64_orr a rd rn o' = Logical a rd rn o' LogicalOp_ORR"

definition arm64_mov :: "assembler \<Rightarrow> CPURegister \<Rightarrow> CPURegister \<Rightarrow> assembler option" where
  "arm64_mov a rd rn =
     (if reg_Is rd SP \<or> reg_Is rn SP then arm64_add a rd rn 0
      else if Is64Bits rd then Some (arm64_orr a rd xzr (Operand_shift rn LSL 0))
      else Some (arm64_orr a rd wzr (Operand_shift rn LSL 0)))"

subsection \<open>Labels and the turbo assembler\<close>

definition kLabelImm19 :: nat where "kLabelImm19 = 0"

text \<open>The rewritten instruction of one reference (the body of \<^verbatim>\<open>link_confused_instructions\<close>).\<close>

definition arm64_fix :: "nat \<Rightarrow> ref_label_insn \<Rightarrow> u32 \<Rightarrow> u32" where
  "arm64_fix pos r inst =
     (let fixup_offset = (word_of_nat pos - word_of_nat (ref_pc_offset r) :: u64)
      in if link_type r = kLabelImm19 then encode_imm19_offset inst fixup_offset else 0)"

definition arm64_link_confused_instructions :: "reloc_label \<Rightarrow> code_buffer \<Rightarrow> code_buffer option" where
  "arm64_link_confused_instructions l b =
     patch_all LoadInst RewriteInst ref_pc_offset (arm64_fix (label_pos l)) b (ref_label_insns l)"

definition arm64_Ldr :: "assembler \<Rightarrow> CPURegister \<Rightarrow> nat \<Rightarrow> assembler option" where
  "arm64_Ldr a rt l =
     (let lbl = label_heap a ! l in
      if label_pos lbl \<noteq> 0 then
        let off = (ucast (word_of_nat (label_pos lbl) - word_of_nat (GetBufferSize (asm_buffer a)) :: u64) :: u32)
        in arm64_ldr_literal a rt (scast off)
      else
        arm64_ldr_literal
          (a\<lparr>label_heap := (label_heap a)[l := link_to lbl kLabelImm19 (GetBufferSize (asm_buffer a))]\<rparr>) rt 0)"

definition arm64_Mov :: "assembler \<Rightarrow> CPURegister \<Rightarrow> u64 \<Rightarrow> assembler" where
  "arm64_Mov a rd imm =
     (let w0 = Low32Bits imm; w1 = High32Bits imm;
          h0 = Low16Bits w0; h1 = High16Bits w0; h2 = Low16Bits w1; h3 = High16Bits w1;
          a1 = arm64_movz a rd (ucast h0) 0;
          a2 = arm64_movk a1 rd (ucast h1) 16;
          a3 = arm64_movk a2 rd (ucast h2) 32
      in arm64_movk a3 rd (ucast h3) 48)"

definition arm64_CallFunction :: "assembler \<Rightarrow> addr \<Rightarrow> assembler" where
  "arm64_CallFunction a function = arm64_blr (arm64_Mov a TMP_REG_0 function) TMP_REG_0"

definition arm64_AdrpAdd :: "assembler \<Rightarrow> CPURegister \<Rightarrow> addr \<Rightarrow> addr \<Rightarrow> assembler option" where
  "arm64_AdrpAdd a rd from to =
     (let from_PAGE = ALIGN_FLOOR from 0x1000; to_PAGE = ALIGN_FLOOR to 0x1000; to_PAGEOFF = to mod 0x1000
      in arm64_add (arm64_adrp a rd (to_PAGE - from_PAGE)) rd rd to_PAGEOFF)"

definition arm64_LiteralLdrBranch :: "assembler \<Rightarrow> addr \<Rightarrow> assembler option" where
  "arm64_LiteralLdrBranch a address =
     (let (a1, l) = new_label a (withData (le_bytes 8 address));
          a2 = AppendRelocLabel a1 l
      in map_option (\<lambda>a3. arm64_br a3 TMP_REG_0) (arm64_Ldr a2 TMP_REG_0 l))"

interpretation arm64_linker: literal_linker LoadInst RewriteInst Emit32 4 arm64_fix arm64_link_confused_instructions
  by unfold_locales (simp add: arm64_link_confused_instructions_def)

end
