(* ===== verification/Arm64_Sem.thy ===== *)
theory Arm64_Sem
  imports Dobby_Prelude
begin

text \<open>
  A reference semantics of the A64 instructions that the relocator rewrites and the assembler emits,
  written from the architecture manual and independent of the code under verification. It is the
  specification against which relocated code and trampolines are judged: \<open>a64_decode\<close> gives the
  meaning of an instruction word, \<open>a64_step\<close> fetches, decodes and executes one instruction.
\<close>

datatype a64_instr =
    I_B u64 | I_BL u64
  | I_Bcond u32 u64
  | I_CB bool bool nat u64
  | I_TB bool nat nat u64
  | I_LDRlit nat nat u64
  | I_LDRSWlit nat u64
  | I_LDRlitV nat nat u64
  | I_ADR nat u64 | I_ADRP nat u64
  | I_MOVZ nat u64 nat | I_MOVK nat u64 nat
  | I_BR nat | I_BLR nat | I_RET nat
  | I_LDR nat nat u64 | I_STR nat nat u64
  | I_ADD nat nat u64 | I_SUB nat nat u64
  | I_STP nat nat nat u64 | I_LDPpost nat nat nat u64
  | I_STPq nat nat nat u64 | I_LDPqpost nat nat nat u64

definition fld :: "u32 \<Rightarrow> nat \<Rightarrow> nat \<Rightarrow> u32" where
  "fld i lo n = take_bit n (drop_bit lo i)"

definition regfld :: "u32 \<Rightarrow> nat \<Rightarrow> nat" where
  "regfld i lo = unat (fld i lo 5)"

definition sext :: "nat \<Rightarrow> u32 \<Rightarrow> u64" where
  "sext n w = signed_take_bit (n - 1) (ucast w)"

definition a64_decode :: "u32 \<Rightarrow> a64_instr option" where
  "a64_decode i =
    (if i AND 0x7C000000 = 0x14000000 then
       let off = push_bit 2 (sext 26 (fld i 0 26)) in Some (if bit i 31 then I_BL off else I_B off)
     else if i AND 0xFF000010 = 0x54000000 then
       Some (I_Bcond (fld i 0 4) (push_bit 2 (sext 19 (fld i 5 19))))
     else if i AND 0x7E000000 = 0x34000000 then
       Some (I_CB (bit i 24) (bit i 31) (regfld i 0) (push_bit 2 (sext 19 (fld i 5 19))))
     else if i AND 0x7E000000 = 0x36000000 then
       Some (I_TB (bit i 24) (unat (fld i 19 5) + (if bit i 31 then 32 else 0)) (regfld i 0)
         (push_bit 2 (sext 14 (fld i 5 14))))
     else if i AND 0x3B000000 = 0x18000000 then
       let off = push_bit 2 (sext 19 (fld i 5 19)); opc = fld i 30 2 in
       if bit i 26 then
         (if opc = 0 then Some (I_LDRlitV 4 (regfld i 0) off)
          else if opc = 1 then Some (I_LDRlitV 8 (regfld i 0) off)
          else if opc = 2 then Some (I_LDRlitV 16 (regfld i 0) off) else None)
       else if opc = 0 then Some (I_LDRlit 4 (regfld i 0) off)
       else if opc = 1 then Some (I_LDRlit 8 (regfld i 0) off)
       else if opc = 2 then Some (I_LDRSWlit (regfld i 0) off) else None
     else if i AND 0x9F000000 = 0x10000000 then
       Some (I_ADR (regfld i 0) (sext 21 (push_bit 2 (fld i 5 19) OR fld i 29 2)))
     else if i AND 0x9F000000 = 0x90000000 then
       Some (I_ADRP (regfld i 0) (push_bit 12 (sext 21 (push_bit 2 (fld i 5 19) OR fld i 29 2))))
     else if i AND 0xFF800000 = 0xD2800000 then
       Some (I_MOVZ (regfld i 0) (ucast (fld i 5 16)) (16 * unat (fld i 21 2)))
     else if i AND 0xFF800000 = 0xF2800000 then
       Some (I_MOVK (regfld i 0) (ucast (fld i 5 16)) (16 * unat (fld i 21 2)))
     else if i AND 0xFFFFFC1F = 0xD61F0000 then Some (I_BR (regfld i 5))
     else if i AND 0xFFFFFC1F = 0xD63F0000 then Some (I_BLR (regfld i 5))
     else if i AND 0xFFFFFC1F = 0xD65F0000 then Some (I_RET (regfld i 5))
     else if i AND 0xFFC00000 = 0xF9400000 then
       Some (I_LDR (regfld i 0) (regfld i 5) (push_bit 3 (ucast (fld i 10 12))))
     else if i AND 0xFFC00000 = 0xF9000000 then
       Some (I_STR (regfld i 0) (regfld i 5) (push_bit 3 (ucast (fld i 10 12))))
     else if i AND 0xFFC00000 = 0x91000000 then
       Some (I_ADD (regfld i 0) (regfld i 5) (ucast (fld i 10 12)))
     else if i AND 0xFFC00000 = 0xD1000000 then
       Some (I_SUB (regfld i 0) (regfld i 5) (ucast (fld i 10 12)))
     else if i AND 0xFFC00000 = 0xA9000000 then
       Some (I_STP (regfld i 0) (regfld i 10) (regfld i 5) (push_bit 3 (sext 7 (fld i 15 7))))
     else if i AND 0xFFC00000 = 0xA8C00000 then
       Some (I_LDPpost (regfld i 0) (regfld i 10) (regfld i 5) (push_bit 3 (sext 7 (fld i 15 7))))
     else if i AND 0xFFC00000 = 0xAD000000 then
       Some (I_STPq (regfld i 0) (regfld i 10) (regfld i 5) (push_bit 4 (sext 7 (fld i 15 7))))
     else if i AND 0xFFC00000 = 0xACC00000 then
       Some (I_LDPqpost (regfld i 0) (regfld i 10) (regfld i 5) (push_bit 4 (sext 7 (fld i 15 7))))
     else None)"

subsection \<open>Machine state\<close>

record flags =
  fN :: bool
  fZ :: bool
  fC :: bool
  fV :: bool

record a64_state =
  pc :: addr
  gpr :: "nat \<Rightarrow> u64"
  sp :: u64
  vreg :: "nat \<Rightarrow> 128 word"
  nzcv :: flags
  mem :: "addr \<Rightarrow> u8"

definition cond_holds :: "flags \<Rightarrow> u32 \<Rightarrow> bool" where
  "cond_holds f c =
     (let k = drop_bit 1 c;
          r = (if k = 0 then fZ f else if k = 1 then fC f else if k = 2 then fN f else if k = 3 then fV f
               else if k = 4 then fC f \<and> \<not> fZ f else if k = 5 then fN f = fV f
               else if k = 6 then fN f = fV f \<and> \<not> fZ f else True)
      in if bit c 0 \<and> c \<noteq> 15 then \<not> r else r)"

definition rX :: "a64_state \<Rightarrow> nat \<Rightarrow> u64" where "rX s r = (if r = 31 then 0 else gpr s r)"
definition rSP :: "a64_state \<Rightarrow> nat \<Rightarrow> u64" where "rSP s r = (if r = 31 then sp s else gpr s r)"
definition wX :: "nat \<Rightarrow> u64 \<Rightarrow> a64_state \<Rightarrow> a64_state" where
  "wX r v s = (if r = 31 then s else s\<lparr>gpr := (gpr s)(r := v)\<rparr>)"
definition wSP :: "nat \<Rightarrow> u64 \<Rightarrow> a64_state \<Rightarrow> a64_state" where
  "wSP r v s = (if r = 31 then s\<lparr>sp := v\<rparr> else s\<lparr>gpr := (gpr s)(r := v)\<rparr>)"

definition ld :: "nat \<Rightarrow> a64_state \<Rightarrow> addr \<Rightarrow> 'a::len word" where
  "ld n s a = le_word (map (\<lambda>i. mem s (a + word_of_nat i)) [0..<n])"

definition st :: "nat \<Rightarrow> addr \<Rightarrow> 'a::len word \<Rightarrow> a64_state \<Rightarrow> a64_state" where
  "st n a v s = s\<lparr>mem := (\<lambda>x. if unat (x - a) < n then le_bytes n v ! unat (x - a) else mem s x)\<rparr>"

definition goto :: "addr \<Rightarrow> a64_state \<Rightarrow> a64_state" where "goto a s = s\<lparr>pc := a\<rparr>"
definition next_pc :: "a64_state \<Rightarrow> a64_state" where "next_pc s = s\<lparr>pc := pc s + 4\<rparr>"

fun a64_exec :: "a64_instr \<Rightarrow> a64_state \<Rightarrow> a64_state" where
  "a64_exec (I_B off) s = goto (pc s + off) s"
| "a64_exec (I_BL off) s = goto (pc s + off) (wX 30 (pc s + 4) s)"
| "a64_exec (I_Bcond c off) s = (if cond_holds (nzcv s) c then goto (pc s + off) s else next_pc s)"
| "a64_exec (I_CB nz sf rt off) s =
     (let z = (if sf then rX s rt = 0 else (ucast (rX s rt) :: u32) = 0)
      in if z \<noteq> nz then goto (pc s + off) s else next_pc s)"
| "a64_exec (I_TB nz n rt off) s = (if bit (rX s rt) n = nz then goto (pc s + off) s else next_pc s)"
| "a64_exec (I_LDRlit n rt off) s = next_pc (wX rt (ld n s (pc s + off)) s)"
| "a64_exec (I_LDRSWlit rt off) s = next_pc (wX rt (scast (ld 4 s (pc s + off) :: u32)) s)"
| "a64_exec (I_LDRlitV n rt off) s = next_pc (s\<lparr>vreg := (vreg s)(rt := ld n s (pc s + off))\<rparr>)"
| "a64_exec (I_ADR rd off) s = next_pc (wX rd (pc s + off) s)"
| "a64_exec (I_ADRP rd off) s = next_pc (wX rd (push_bit 12 (drop_bit 12 (pc s)) + off) s)"
| "a64_exec (I_MOVZ rd imm sh) s = next_pc (wX rd (push_bit sh imm) s)"
| "a64_exec (I_MOVK rd imm sh) s =
     next_pc (wX rd ((rX s rd AND NOT (push_bit sh 0xFFFF)) OR push_bit sh imm) s)"
| "a64_exec (I_BR rn) s = goto (rX s rn) s"
| "a64_exec (I_BLR rn) s = goto (rX s rn) (wX 30 (pc s + 4) s)"
| "a64_exec (I_RET rn) s = goto (rX s rn) s"
| "a64_exec (I_LDR rt rn off) s = next_pc (wX rt (ld 8 s (rSP s rn + off)) s)"
| "a64_exec (I_STR rt rn off) s = next_pc (st 8 (rSP s rn + off) (rX s rt) s)"
| "a64_exec (I_ADD rd rn imm) s = next_pc (wSP rd (rSP s rn + imm) s)"
| "a64_exec (I_SUB rd rn imm) s = next_pc (wSP rd (rSP s rn - imm) s)"
| "a64_exec (I_STP rt rt2 rn off) s =
     next_pc (st 8 (rSP s rn + off + 8) (rX s rt2) (st 8 (rSP s rn + off) (rX s rt) s))"
| "a64_exec (I_LDPpost rt rt2 rn off) s =
     next_pc (wSP rn (rSP s rn + off) (wX rt2 (ld 8 s (rSP s rn + 8)) (wX rt (ld 8 s (rSP s rn)) s)))"
| "a64_exec (I_STPq rt rt2 rn off) s =
     next_pc (st 16 (rSP s rn + off + 16) (vreg s rt2) (st 16 (rSP s rn + off) (vreg s rt) s))"
| "a64_exec (I_LDPqpost rt rt2 rn off) s =
     next_pc (wSP rn (rSP s rn + off)
       (s\<lparr>vreg := (vreg s)(rt := ld 16 s (rSP s rn), rt2 := ld 16 s (rSP s rn + 16))\<rparr>))"

definition a64_fetch :: "a64_state \<Rightarrow> u32" where "a64_fetch s = ld 4 s (pc s)"

definition a64_step :: "a64_state \<Rightarrow> a64_state option" where
  "a64_step s = map_option (\<lambda>i. a64_exec i s) (a64_decode (a64_fetch s))"

primrec a64_run :: "nat \<Rightarrow> a64_state \<Rightarrow> a64_state option" where
  "a64_run 0 s = Some s"
| "a64_run (Suc n) s = Option.bind (a64_step s) (a64_run n)"

text \<open>The bytes \<open>bs\<close> are in memory from address \<open>a\<close> on.\<close>

definition loaded :: "a64_state \<Rightarrow> addr \<Rightarrow> u8 list \<Rightarrow> bool" where
  "loaded s a bs \<longleftrightarrow> (\<forall>i < length bs. mem s (a + word_of_nat i) = bs ! i)"

lemma loaded_ld:
  assumes "loaded s a bs" "off + n \<le> length bs"
  shows "ld n s (a + word_of_nat off) = le_word (take n (drop off bs))"
proof -
  have "map (\<lambda>i. mem s (a + word_of_nat off + word_of_nat i)) [0..<n] = take n (drop off bs)"
    using assms by (intro nth_equalityI)
      (auto simp: loaded_def add.assoc simp flip: of_nat_add)
  then show ?thesis by (simp add: ld_def)
qed

subsection \<open>Conditions\<close>

lemma cond_holds_invert:
  assumes "c < 14"
  shows "cond_holds f (c XOR 1) = (\<not> cond_holds f c)"
proof -
  have "drop_bit 1 (c XOR 1) = drop_bit 1 c" by (rule bit_word_eqI) (auto simp: bit_simps)
  moreover have "bit (c XOR 1) 0 \<longleftrightarrow> \<not> bit c 0" by (simp add: bit_xor_iff)
  moreover have "c \<noteq> 15" using assms by auto
  moreover have "c XOR 1 \<noteq> 15"
  proof
    assume "c XOR 1 = 15"
    then have "(c XOR 1) XOR 1 = 15 XOR 1" by (rule arg_cong)
    then have "c = 14" by (simp add: xor.assoc)
    with assms show False by simp
  qed
  ultimately show ?thesis unfolding cond_holds_def Let_def by (simp only: if_True if_False simp_thms) auto
qed

lemma cond_holds_always: "cond_holds f 14" "cond_holds f 15"
  by (simp_all add: cond_holds_def Let_def)

lemma and_mask_fld:
  assumes "w AND m = c" "\<forall>k < n. bit m (lo + k)"
  shows "fld w lo n = fld c lo n"
  using assms by (intro bit_word_eqI) (auto simp: fld_def bit_simps)

subsection \<open>Decoding by class\<close>

lemma decode_b: "i AND 0x7C000000 = 0x14000000 \<Longrightarrow>
    a64_decode i = Some (if bit i 31 then I_BL (push_bit 2 (sext 26 (fld i 0 26)))
      else I_B (push_bit 2 (sext 26 (fld i 0 26))))"
  by (simp add: a64_decode_def)

lemma decode_bcond:
  assumes "i AND 0xFF000010 = 0x54000000"
  shows "a64_decode i = Some (I_Bcond (fld i 0 4) (push_bit 2 (sext 19 (fld i 5 19))))"
  by (simp add: a64_decode_def and_mask_neq [OF assms] assms)

lemma decode_cb:
  assumes "i AND 0x7E000000 = 0x34000000"
  shows "a64_decode i = Some (I_CB (bit i 24) (bit i 31) (regfld i 0) (push_bit 2 (sext 19 (fld i 5 19))))"
  by (simp add: a64_decode_def and_mask_neq [OF assms] assms)

lemma decode_tb:
  assumes "i AND 0x7E000000 = 0x36000000"
  shows "a64_decode i = Some (I_TB (bit i 24) (unat (fld i 19 5) + (if bit i 31 then 32 else 0)) (regfld i 0)
         (push_bit 2 (sext 14 (fld i 5 14))))"
  by (simp add: a64_decode_def and_mask_neq [OF assms] assms)

lemma decode_ldr_lit_x:
  assumes "i AND 0xFF000000 = 0x58000000"
  shows "a64_decode i = Some (I_LDRlit 8 (regfld i 0) (push_bit 2 (sext 19 (fld i 5 19))))"
proof -
  have "\<not> bit i 26" using and_mask_bit [OF assms, of 26] by simp
  moreover have "fld i 30 2 = fld 0x58000000 30 2"
    by (rule and_mask_fld [OF assms]) (auto simp: less_Suc_eq numeral_eq_Suc)
  moreover have "fld 0x58000000 30 2 = 1" by code_simp
  moreover have "i AND 0x3B000000 = 0x18000000" using and_submask [OF assms, of "0x3B000000"] by simp
  ultimately show ?thesis by (simp add: a64_decode_def and_mask_neq [OF assms])
qed

lemma decode_adr:
  assumes "i AND 0x9F000000 = 0x10000000"
  shows "a64_decode i = Some (I_ADR (regfld i 0) (sext 21 (push_bit 2 (fld i 5 19) OR fld i 29 2)))"
  by (simp add: a64_decode_def and_mask_neq [OF assms] assms)

lemma decode_adrp:
  assumes "i AND 0x9F000000 = 0x90000000"
  shows "a64_decode i = Some (I_ADRP (regfld i 0) (push_bit 12 (sext 21 (push_bit 2 (fld i 5 19) OR fld i 29 2))))"
  by (simp add: a64_decode_def and_mask_neq [OF assms] assms)

lemma decode_movz:
  assumes "i AND 0xFF800000 = 0xD2800000"
  shows "a64_decode i = Some (I_MOVZ (regfld i 0) (ucast (fld i 5 16)) (16 * unat (fld i 21 2)))"
  by (simp add: a64_decode_def and_mask_neq [OF assms] assms)

lemma decode_movk:
  assumes "i AND 0xFF800000 = 0xF2800000"
  shows "a64_decode i = Some (I_MOVK (regfld i 0) (ucast (fld i 5 16)) (16 * unat (fld i 21 2)))"
  by (simp add: a64_decode_def and_mask_neq [OF assms] assms)

lemma decode_add_x:
  assumes "i AND 0xFFC00000 = 0x91000000"
  shows "a64_decode i = Some (I_ADD (regfld i 0) (regfld i 5) (ucast (fld i 10 12)))"
  by (simp add: a64_decode_def and_mask_neq [OF assms] assms)

text \<open>The inverse direction: what an instruction word is when it decodes to a PC-relative form.\<close>

lemma a64_decode_Bcond_iff:
  "a64_decode i = Some (I_Bcond c off) \<longleftrightarrow> i AND 0xFF000010 = 0x54000000 \<and>
     c = fld i 0 4 \<and> off = push_bit 2 (sext 19 (fld i 5 19))"
proof (cases "i AND 0xFF000010 = 0x54000000")
  case True
  then show ?thesis by (auto simp: decode_bcond)
next
  case False
  then show ?thesis by (auto simp: a64_decode_def Let_def split: if_splits)
qed

end
