(* ===== verification/Arm64_Reloc.thy ===== *)
theory Arm64_Reloc
  imports Arm64_Asm Arm64_Sem
begin

text \<open>
  The ARM64 instruction relocator (\<^verbatim>\<open>InstructionRelocation/arm64/InstructionRelocationARM64.cc\<close>).
  It rewrites the instructions of the function prologue that the hook overwrites so that they can run
  at another address: branches and conditional branches become loads of the absolute target from a
  literal pool followed by a register branch, PC-relative address computations become immediate moves,
  everything else is copied. \<^verbatim>\<open>UNIMPLEMENTED()\<close> aborts and is \<open>None\<close>. The theorems
  compare the emitted code with the reference semantics of the original instruction.
\<close>

subsection \<open>Instruction classes\<close>

definition inst_is_b_bl :: "u32 \<Rightarrow> bool" where
  "inst_is_b_bl instr \<longleftrightarrow> instr AND UnconditionalBranchFixedMask = UnconditionalBranchFixed"

definition inst_is_ldr_literal :: "u32 \<Rightarrow> bool" where
  "inst_is_ldr_literal instr \<longleftrightarrow> instr AND LoadRegLiteralFixedMask = LoadRegLiteralFixed"

definition inst_is_adr :: "u32 \<Rightarrow> bool" where
  "inst_is_adr instr \<longleftrightarrow> instr AND PCRelAddressingFixedMask = PCRelAddressingFixed \<and>
     instr AND PCRelAddressingMask = ADR_op"

definition inst_is_adrp :: "u32 \<Rightarrow> bool" where
  "inst_is_adrp instr \<longleftrightarrow> instr AND PCRelAddressingFixedMask = PCRelAddressingFixed \<and>
     instr AND PCRelAddressingMask = ADRP_op"

definition inst_is_b_cond :: "u32 \<Rightarrow> bool" where
  "inst_is_b_cond instr \<longleftrightarrow> instr AND ConditionalBranchFixedMask = ConditionalBranchFixed"

definition inst_is_compare_b :: "u32 \<Rightarrow> bool" where
  "inst_is_compare_b instr \<longleftrightarrow> instr AND CompareBranchFixedMask = CompareBranchFixed"

definition inst_is_test_b :: "u32 \<Rightarrow> bool" where
  "inst_is_test_b instr \<longleftrightarrow> instr AND TestBranchFixedMask = TestBranchFixed"

definition arm64_trunc_page :: "addr \<Rightarrow> addr" where
  "arm64_trunc_page x = x AND NOT (0x1000 - 1)"

subsection \<open>One instruction\<close>

text \<open>The branch sequence that several cases share: a fresh label with the target, a literal load, a register branch.\<close>

definition ldr_new_label :: "assembler \<Rightarrow> addr \<Rightarrow> assembler option" where
  "ldr_new_label a dst_vmaddr =
     (let (a1, l) = new_label a (withData (le_bytes 8 dst_vmaddr))
      in arm64_Ldr (AppendRelocLabel a1 l) TMP_REG_0 l)"

text \<open>
  For the conditional forms the label is created before the inverted branch is emitted and the load
  comes after it.
\<close>

definition emit_branch_over :: "assembler \<Rightarrow> u32 \<Rightarrow> addr \<Rightarrow> assembler option" where
  "emit_branch_over a branch_instr dst_vmaddr =
     (let (a1, l) = new_label a (withData (le_bytes 8 dst_vmaddr));
          a2 = AppendRelocLabel a1 l;
          a3 = Emit a2 branch_instr
      in map_option (\<lambda>a4. arm64_br a4 TMP_REG_0) (arm64_Ldr a3 TMP_REG_0 l))"

definition relo_b_cond_instr :: "u32 \<Rightarrow> u32" where
  "relo_b_cond_instr inst =
     (let cond = bits inst 0 3 XOR 1;
          i1 = set_bits inst 0 3 cond;
          imm19 = drop_bit 2 (4 * 3)
      in set_bits i1 5 23 imm19)"

definition relo_compare_b_instr :: "u32 \<Rightarrow> u32" where
  "relo_compare_b_instr inst =
     (let op = bit1 inst 24 XOR 1;
          i1 = set_bit1 inst 24 op;
          imm19 = drop_bit 2 (4 * 3)
      in set_bits i1 5 23 imm19)"

definition relo_test_b_instr :: "u32 \<Rightarrow> u32" where
  "relo_test_b_instr inst =
     (let op = bit1 inst 24 XOR 1;
          i1 = set_bit1 inst 24 op;
          imm14 = drop_bit 2 (4 * 3)
      in set_bits i1 5 18 imm14)"

definition relo_insn :: "addr \<Rightarrow> u32 \<Rightarrow> assembler \<Rightarrow> assembler option" where
  "relo_insn cur_src inst a =
     (if inst_is_b_bl inst then
        let dst_vmaddr = cur_src + decode_imm26_offset inst in
        map_option (\<lambda>a1. if inst AND UnconditionalBranchMask = BL_op
                         then arm64_blr a1 TMP_REG_0 else arm64_br a1 TMP_REG_0)
          (ldr_new_label a dst_vmaddr)
      else if inst_is_ldr_literal inst then
        let dst_vmaddr = cur_src + decode_imm19_offset inst;
            rt = unat (decode_rt inst); opc = bits inst 30 31;
            a1 = arm64_Mov a TMP_REG_0 dst_vmaddr in
        if opc = 0 then arm64_ldr a1 (W rt) (MemOperand_offset TMP_REG_0 0 Offset)
        else if opc = 1 then arm64_ldr a1 (X rt) (MemOperand_offset TMP_REG_0 0 Offset)
        else None
      else if inst_is_adr inst then
        let dst_vmaddr = cur_src + decode_immhi_immlo_offset inst
        in Some (arm64_Mov a (X (unat (decode_rd inst))) dst_vmaddr)
      else if inst_is_adrp inst then
        let dst_vmaddr = arm64_trunc_page (cur_src + decode_immhi_immlo_zero12_offset inst)
        in Some (arm64_Mov a (X (unat (decode_rd inst))) dst_vmaddr)
      else if inst_is_b_cond inst then
        emit_branch_over a (relo_b_cond_instr inst) (cur_src + decode_imm19_offset inst)
      else if inst_is_compare_b inst then
        emit_branch_over a (relo_compare_b_instr inst) (cur_src + decode_imm19_offset inst)
      else if inst_is_test_b inst then
        emit_branch_over a (relo_test_b_instr inst) (cur_src + decode_imm14_offset inst)
      else Some (Emit a inst))"

subsection \<open>The whole prologue\<close>

record relo_ctx =
  ctx_buffer :: "u8 list"
  ctx_cursor :: nat
  ctx_buffer_size :: nat
  ctx_src_vmaddr :: addr
  ctx_dst_vmaddr :: addr
  relocated_offset_map :: "(nat \<times> nat) list"

definition relo_cur_src_vmaddr :: "relo_ctx \<Rightarrow> addr" where
  "relo_cur_src_vmaddr ctx = ctx_src_vmaddr ctx + word_of_nat (ctx_cursor ctx)"

definition relo_cur_dst_vmaddr :: "relo_ctx \<Rightarrow> assembler \<Rightarrow> addr" where
  "relo_cur_dst_vmaddr ctx a = ctx_dst_vmaddr ctx + word_of_nat (GetBufferSize (asm_buffer a))"

definition relo_src_offset_to_vmaddr :: "relo_ctx \<Rightarrow> u64 \<Rightarrow> addr" where
  "relo_src_offset_to_vmaddr ctx off = ctx_src_vmaddr ctx + off"

definition relo_dst_offset_to_vmaddr :: "relo_ctx \<Rightarrow> u64 \<Rightarrow> addr" where
  "relo_dst_offset_to_vmaddr ctx off = ctx_dst_vmaddr ctx + off"

text \<open>The \<^verbatim>\<open>while\<close> loop; a read of an instruction outside the buffer is \<open>None\<close>.\<close>

function relo_loop :: "relo_ctx \<Rightarrow> assembler \<Rightarrow> (relo_ctx \<times> assembler) option" where
  "relo_loop ctx a =
     (if ctx_cursor ctx < ctx_buffer_size ctx then
        let ctx1 = ctx\<lparr>relocated_offset_map :=
              (ctx_cursor ctx, GetBufferSize (asm_buffer a)) # relocated_offset_map ctx\<rparr> in
        case LoadInst (ctx_buffer ctx) (ctx_cursor ctx) of None \<Rightarrow> None
        | Some inst \<Rightarrow> (case relo_insn (relo_cur_src_vmaddr ctx) inst a of None \<Rightarrow> None
            | Some a' \<Rightarrow> relo_loop (ctx1\<lparr>ctx_cursor := ctx_cursor ctx + 4\<rparr>) a')
      else Some (ctx, a))"
  by pat_completeness auto
termination
  by (relation "measure (\<lambda>(ctx, _). ctx_buffer_size ctx - ctx_cursor ctx)") auto

declare relo_loop.simps [simp del]

text \<open>
  \<^verbatim>\<open>relo_relocate\<close> up to the point where the code is handed to \<^verbatim>\<open>AssemblyCodeBuilder\<close>. The
  result is the context, the new length of the origin block and the assembler with its final buffer.
\<close>

definition relo_relocate :: "relo_ctx \<Rightarrow> addr \<Rightarrow> bool \<Rightarrow> (relo_ctx \<times> nat \<times> assembler) option" where
  "relo_relocate ctx origin_addr branch =
     (case relo_loop ctx (AssemblerBase 0) of None \<Rightarrow> None
      | Some (ctx', a) \<Rightarrow>
          let new_origin_len = ctx_cursor ctx' in
          (case (if branch then arm64_LiteralLdrBranch a (origin_addr + word_of_nat new_origin_len) else Some a) of
             None \<Rightarrow> None
           | Some a1 \<Rightarrow> map_option (\<lambda>a2. (ctx', new_origin_len, a2))
               (RelocBind arm64_link_confused_instructions a1)))"

subsection \<open>The kit decodes what the architecture defines\<close>

lemma bit_sext: "0 < n \<Longrightarrow> n \<le> 32 \<Longrightarrow> bit (sext n w) k \<longleftrightarrow> k < 64 \<and> bit w (min k (n - 1))"
  by (auto simp: sext_def bit_signed_take_bit_iff bit_simps min_def)

lemma bit_fld: "bit (fld w lo n) k \<longleftrightarrow> k < n \<and> bit w (lo + k)"
  by (auto simp: fld_def bit_simps add.commute)

lemma arch_imm26: "push_bit 2 (sext 26 (fld i 0 26)) = decode_imm26_offset i"
  by (rule bit_word_eqI) (auto simp: bit_push_bit_iff bit_sext bit_fld bit_decode_imm26 min_def)

lemma arch_imm19: "push_bit 2 (sext 19 (fld i 5 19)) = decode_imm19_offset i"
  by (rule bit_word_eqI) (auto simp: bit_push_bit_iff bit_sext bit_fld bit_decode_imm19 min_def add.commute)

lemma arch_imm14: "push_bit 2 (sext 14 (fld i 5 14)) = decode_imm14_offset i"
  by (rule bit_word_eqI) (auto simp: bit_push_bit_iff bit_sext bit_fld bit_decode_imm14 min_def add.commute)

lemma arch_adr: "sext 21 (push_bit 2 (fld i 5 19) OR fld i 29 2) = decode_immhi_immlo_offset i"
  by (rule bit_word_eqI)
    (auto simp: bit_or_iff bit_push_bit_iff bit_sext bit_fld bit_decode_adr adr_fld_def min_def add.commute)

lemma arch_adrp: "push_bit 12 (sext 21 (push_bit 2 (fld i 5 19) OR fld i 29 2)) =
    decode_immhi_immlo_zero12_offset i"
  by (simp add: arch_adr decode_immhi_immlo_zero12_offset_def)

lemma arch_rt: "regfld i 0 = unat (decode_rt i)" "regfld i 0 = unat (decode_rd i)"
  by (simp_all add: regfld_def fld_def decode_rt_def decode_rd_def bits_def submask_eq_mask take_bit_eq_mask)

subsection \<open>Blocks of code\<close>

text \<open>
  Each case of the relocator appends a few words and at most one literal: a block. The second
  component gives the index of the literal load in the block and the value to load.
\<close>

type_synonym block = "u32 list \<times> (nat \<times> addr) option"

definition wbytes :: "u32 list \<Rightarrow> u8 list" where
  "wbytes ws = concat (map (le_bytes 4) ws)"

definition lit_label :: "nat \<Rightarrow> addr \<Rightarrow> reloc_label" where
  "lit_label p v = \<lparr>label_pos = 0, ref_label_insns = [\<lparr>link_type = kLabelImm19, ref_pc_offset = p\<rparr>],
     label_data = le_bytes 8 v, label_size = 8\<rparr>"

definition emit_block :: "assembler \<Rightarrow> block \<Rightarrow> assembler" where
  "emit_block a blk = (case snd blk of
     None \<Rightarrow> a\<lparr>asm_buffer := asm_buffer a @ wbytes (fst blk)\<rparr>
   | Some (j, v) \<Rightarrow> a\<lparr>asm_buffer := asm_buffer a @ wbytes (fst blk),
        label_heap := label_heap a @ [lit_label (length (asm_buffer a) + 4 * j) v],
        data_labels := data_labels a @ [length (label_heap a)]\<rparr>)"

definition ldr17 :: u32 where "ldr17 = 0x58000011"
definition br17 :: u32 where "br17 = 0xD61F0220"
definition blr17 :: u32 where "blr17 = 0xD63F0220"

definition mov_word :: "u32 \<Rightarrow> nat \<Rightarrow> u16 \<Rightarrow> nat \<Rightarrow> u32" where
  "mov_word base k h rd = push_bit 21 (base OR word_of_nat k) OR push_bit 5 (ucast h) OR word_of_nat rd"

definition mov_words :: "nat \<Rightarrow> u64 \<Rightarrow> u32 list" where
  "mov_words rd imm = [mov_word 0x694 0 (ucast imm) rd, mov_word 0x794 1 (ucast (drop_bit 16 imm)) rd,
     mov_word 0x794 2 (ucast (drop_bit 32 imm)) rd, mov_word 0x794 3 (ucast (drop_bit 48 imm)) rd]"

definition ldr_x17 :: "nat \<Rightarrow> u32" where "ldr_x17 rt = 0xF9400220 OR word_of_nat rt"

definition relo_block :: "addr \<Rightarrow> u32 \<Rightarrow> block option" where
  "relo_block cur inst =
     (if inst_is_b_bl inst then
        Some ([ldr17, if inst AND UnconditionalBranchMask = BL_op then blr17 else br17],
              Some (0, cur + decode_imm26_offset inst))
      else if inst_is_ldr_literal inst then
        (if bits inst 30 31 = 0 \<or> bits inst 30 31 = 1
         then Some (mov_words 17 (cur + decode_imm19_offset inst) @ [ldr_x17 (unat (decode_rt inst))], None)
         else None)
      else if inst_is_adr inst then
        Some (mov_words (unat (decode_rd inst)) (cur + decode_immhi_immlo_offset inst), None)
      else if inst_is_adrp inst then
        Some (mov_words (unat (decode_rd inst))
          (arm64_trunc_page (cur + decode_immhi_immlo_zero12_offset inst)), None)
      else if inst_is_b_cond inst then
        Some ([relo_b_cond_instr inst, ldr17, br17], Some (1, cur + decode_imm19_offset inst))
      else if inst_is_compare_b inst then
        Some ([relo_compare_b_instr inst, ldr17, br17], Some (1, cur + decode_imm19_offset inst))
      else if inst_is_test_b inst then
        Some ([relo_test_b_instr inst, ldr17, br17], Some (1, cur + decode_imm14_offset inst))
      else Some ([inst], None))"

lemma wbytes_simps [simp]: "wbytes [] = []" "wbytes (w # ws) = le_bytes 4 w @ wbytes ws"
    "wbytes (ws @ ws') = wbytes ws @ wbytes ws'"
  by (simp_all add: wbytes_def)

lemma length_wbytes [simp]: "length (wbytes ws) = 4 * length ws"
  by (induction ws) simp_all

lemma Emit_block: "Emit a w = emit_block a ([w], None)"
  by (simp add: Emit_def emit_block_def Emit32_def EmitBuffer_def)

lemma tmp_words:
  "LDR_x_literal OR ucast (LeftShift (0 :: u64) 26 5) OR Rt TMP_REG_0 = ldr17"
  "BR_op OR Rn TMP_REG_0 = br17" "BLR_op OR Rn TMP_REG_0 = blr17"
  by code_simp+

lemma withData_8: "withData (le_bytes 8 (v :: u64)) =
    \<lparr>label_pos = 0, ref_label_insns = [], label_data = le_bytes 8 v, label_size = 8\<rparr>"
  by (simp add: withData_def setData_def RelocLabel_def)

lemma arm64_Ldr_new:
  assumes "label_heap a = h @ [withData (le_bytes 8 (v :: u64))]" "l = length h"
  shows "arm64_Ldr a TMP_REG_0 l = Some (Emit (a\<lparr>label_heap := h @ [lit_label (length (asm_buffer a)) v]\<rparr>) ldr17)"
  using assms
  by (simp add: arm64_Ldr_def withData_8 link_to_def lit_label_def GetBufferSize_def TMP_REG_0_def X_def
      arm64_ldr_literal_def EmitLoadRegLiteral_def tmp_words [unfolded TMP_REG_0_def X_def])

lemma halfwords:
  "Low16Bits (Low32Bits imm) = ucast imm" "High16Bits (Low32Bits imm) = ucast (drop_bit 16 imm)"
  "Low16Bits (High32Bits imm) = ucast (drop_bit 32 imm)" "High16Bits (High32Bits imm) = ucast (drop_bit 48 imm)"
proof -
  have m: "(0xffff :: u32) = mask 16" by code_simp
  show "Low16Bits (Low32Bits imm) = ucast imm" "Low16Bits (High32Bits imm) = ucast (drop_bit 32 imm)"
    by (rule bit_word_eqI; simp add: Low16Bits_def Low32Bits_def High32Bits_def m bit_simps; fail)+
  show "High16Bits (Low32Bits imm) = ucast (drop_bit 16 imm)" "High16Bits (High32Bits imm) = ucast (drop_bit 48 imm)"
    by (rule bit_word_eqI; auto simp: High16Bits_def Low32Bits_def High32Bits_def bit_simps; fail)+
qed

lemma imm16_field: "ucast (LeftShift (ucast (h :: u16) :: u64) 16 5) = (push_bit 5 (ucast h) :: u32)"
  by (rule bit_word_eqI) (auto simp: field_simps_arm bit_simps dest: bit_imp_le_length)

lemma MoveWide_block:
  "MoveWide a (X rd) (ucast (h :: u16)) 0 MOVZ = emit_block a ([mov_word 0x694 0 h rd], None)"
  "MoveWide a (X rd) (ucast (h :: u16)) 16 MOVK = emit_block a ([mov_word 0x794 1 h rd], None)"
  "MoveWide a (X rd) (ucast (h :: u16)) 32 MOVK = emit_block a ([mov_word 0x794 2 h rd], None)"
  "MoveWide a (X rd) (ucast (h :: u16)) 48 MOVK = emit_block a ([mov_word 0x794 3 h rd], None)"
proof -
  have c: "MoveWideImmediateFixed OR MOVZ OR OpEncode_sf (X rd) OR LeftShift 0 2 21 = push_bit 21 (0x694 OR word_of_nat 0)"
    "MoveWideImmediateFixed OR MOVK OR OpEncode_sf (X rd) OR LeftShift 1 2 21 = push_bit 21 (0x794 OR word_of_nat 1)"
    "MoveWideImmediateFixed OR MOVK OR OpEncode_sf (X rd) OR LeftShift 2 2 21 = push_bit 21 (0x794 OR word_of_nat 2)"
    "MoveWideImmediateFixed OR MOVK OR OpEncode_sf (X rd) OR LeftShift 3 2 21 = push_bit 21 (0x794 OR word_of_nat 3)"
    by (simp_all add: OpEncode_sf_def Is64Bits_def X_def) code_simp+
  have r: "Rd (X rd) = word_of_nat rd" by (simp add: Rd_def kRdShift_def reg_word_def X_def)
  show "MoveWide a (X rd) (ucast h) 0 MOVZ = emit_block a ([mov_word 0x694 0 h rd], None)"
    "MoveWide a (X rd) (ucast h) 16 MOVK = emit_block a ([mov_word 0x794 1 h rd], None)"
    "MoveWide a (X rd) (ucast h) 32 MOVK = emit_block a ([mov_word 0x794 2 h rd], None)"
    "MoveWide a (X rd) (ucast h) 48 MOVK = emit_block a ([mov_word 0x794 3 h rd], None)"
    by (simp_all add: MoveWide_def Emit_block imm16_field r mov_word_def c [unfolded or.assoc [symmetric]]
        flip: or.assoc)
qed

lemma emit_block_append:
  "emit_block (emit_block a (ws, None)) (ws', lit) =
   emit_block a (ws @ ws', map_option (\<lambda>(j, v). (j + length ws, v)) lit)"
  by (auto simp: emit_block_def algebra_simps split: option.splits)

lemma Mov_block: "arm64_Mov a (X rd) imm = emit_block a (mov_words rd imm, None)"
  by (simp add: arm64_Mov_def Let_def halfwords arm64_movz_def arm64_movk_def MoveWide_block emit_block_append
      mov_words_def)

lemma ldr_block: "arm64_ldr a r (MemOperand_offset TMP_REG_0 0 Offset) =
    Some (emit_block a ([0xF9400220 OR word_of_nat (reg_code r)], None))"
proof -
  have "LoadStoreUnsignedOffsetFixed OR LDR_x OR ucast (LeftShift (0 :: u64) 12 10) OR Rn TMP_REG_0 = 0xF9400220"
    by code_simp
  then show ?thesis
    by (simp add: arm64_ldr_def LoadStore_def MemOperand_offset_def IsImmediateOffset_def Emit_block
        Rt_def kRtShift_def reg_word_def flip: or.assoc)
qed

lemma br_block: "arm64_br a TMP_REG_0 = emit_block a ([br17], None)" "arm64_blr a TMP_REG_0 = emit_block a ([blr17], None)"
  by (simp_all add: arm64_br_def arm64_blr_def Emit_block tmp_words)

lemma emit_block_then:
  "emit_block (emit_block a (ws, lit)) (ws', None) = emit_block a (ws @ ws', lit)"
  by (auto simp: emit_block_def split: option.splits)

lemmas new_label_simps = new_label_def AppendRelocLabel_def emit_block_def Emit_def Emit32_def EmitBuffer_def

lemma ldr_new_label_block: "ldr_new_label a v = Some (emit_block a ([ldr17], Some (0, v)))"
  by (cases a) (simp add: ldr_new_label_def new_label_simps arm64_Ldr_new)

lemma branch_over_block: "emit_branch_over a w v = Some (emit_block a ([w, ldr17, br17], Some (1, v)))"
  by (cases a) (simp add: emit_branch_over_def new_label_simps arm64_Ldr_new br_block)

lemma LiteralLdrBranch_block: "arm64_LiteralLdrBranch a v = Some (emit_block a ([ldr17, br17], Some (0, v)))"
  by (cases a) (simp add: arm64_LiteralLdrBranch_def new_label_simps arm64_Ldr_new br_block)

lemma relo_insn_block: "relo_insn cur inst a = map_option (emit_block a) (relo_block cur inst)"
proof -
  have m: "arm64_Mov b TMP_REG_0 imm = emit_block b (mov_words 17 imm, None)" for b imm
    by (simp add: TMP_REG_0_def Mov_block)
  have c: "reg_code (W n) = n" "reg_code (X n) = n" for n by (simp_all add: W_def X_def)
  show ?thesis
    by (simp add: relo_insn_def relo_block_def Let_def ldr_new_label_block branch_over_block Mov_block m
        ldr_block br_block emit_block_then Emit_block ldr_x17_def c)
qed

end
