(* ===== verification/Arm64_Reloc_Sim.thy ===== *)
theory Arm64_Reloc_Sim
  imports Arm64_Reloc
begin

text \<open>
  Correctness of the ARM64 relocator: the layout of the relocated code (blocks followed by the literal
  pool), and the simulation of each original instruction by its block under the reference semantics
  of \<^verbatim>\<open>Arm64_Sem\<close>.
\<close>

subsection \<open>Layout invariant of the assembler\<close>

definition blk_ok :: "block \<Rightarrow> bool" where
  "blk_ok blk \<longleftrightarrow> (case snd blk of None \<Rightarrow> True | Some (j, _) \<Rightarrow> j < length (fst blk) \<and> fst blk ! j = ldr17)"

definition lpc :: "reloc_label \<Rightarrow> nat" where
  "lpc l = ref_pc_offset (hd (ref_label_insns l))"

definition label_ok :: "nat \<Rightarrow> reloc_label \<Rightarrow> bool" where
  "label_ok n l \<longleftrightarrow> (\<exists>p v. l = lit_label p v \<and> 4 dvd p \<and> p + 4 \<le> n)"

definition pool_inv :: "assembler \<Rightarrow> bool" where
  "pool_inv a \<longleftrightarrow> 4 dvd length (asm_buffer a) \<and> data_labels a = [0..<length (label_heap a)] \<and>
     (\<forall>l \<in> set (label_heap a). label_ok (length (asm_buffer a)) l) \<and>
     sorted_wrt (<) (map lpc (label_heap a))"

lemma lpc_lit [simp]: "lpc (lit_label p v) = p"
  by (simp add: lpc_def lit_label_def)

lemma label_ok_mono: "label_ok n l \<Longrightarrow> n \<le> m \<Longrightarrow> label_ok m l"
  by (auto simp: label_ok_def)

lemma label_ok_lpc: "label_ok n l \<Longrightarrow> 4 dvd lpc l \<and> lpc l + 4 \<le> n"
  by (auto simp: label_ok_def)

lemma label_ok_refs: "label_ok n l \<Longrightarrow> ref_label_insns l = [\<lparr>link_type = kLabelImm19, ref_pc_offset = lpc l\<rparr>]"
  by (auto simp: label_ok_def lit_label_def lpc_def)

lemma label_ok_bytes: "label_ok n l \<Longrightarrow> length (label_bytes l) = 8"
  by (auto simp: label_ok_def lit_label_def label_bytes_def)

lemma pool_inv_init: "pool_inv (AssemblerBase p)"
  by (simp add: pool_inv_def AssemblerBase_def)

lemma pool_inv_block:
  assumes "pool_inv a" "blk_ok blk"
  shows "pool_inv (emit_block a blk)"
proof (cases "snd blk")
  case None
  with assms show ?thesis
    by (auto simp: pool_inv_def emit_block_def intro: label_ok_mono)
next
  case (Some jv)
  obtain j v where jv: "jv = (j, v)" by (cases jv)
  let ?n = "length (asm_buffer a)"
  have j: "j < length (fst blk)" using assms(2) Some jv by (simp add: blk_ok_def)
  have "label_ok (?n + 4 * length (fst blk)) (lit_label (?n + 4 * j) v)"
    using assms(1) j by (auto simp: label_ok_def pool_inv_def intro!: exI)
  moreover have "\<forall>l \<in> set (label_heap a). lpc l < ?n + 4 * j"
    using assms(1) by (fastforce simp: pool_inv_def dest: label_ok_lpc)
  ultimately show ?thesis using assms(1) Some jv
    by (auto simp: pool_inv_def emit_block_def sorted_wrt_append intro: label_ok_mono)
qed

lemma pool_inv_blocks: "pool_inv a \<Longrightarrow> \<forall>b \<in> set bs. blk_ok b \<Longrightarrow> pool_inv (foldl emit_block a bs)"
  by (induction bs arbitrary: a) (auto intro: pool_inv_block)

lemma refs_of_heap:
  assumes "\<forall>l \<in> set h. label_ok n l"
  shows "label_refs h [0..<length h] = map (\<lambda>l. \<lparr>link_type = kLabelImm19, ref_pc_offset = lpc l\<rparr>) h"
proof -
  have "label_refs h [0..<length h] = concat (map ref_label_insns h)"
    unfolding label_refs_def by (rule arg_cong [of _ _ concat]) (simp add: map_equality_iff)
  also have "\<dots> = concat (map (\<lambda>l. [\<lparr>link_type = kLabelImm19, ref_pc_offset = lpc l\<rparr>]) h)"
    using assms by (intro arg_cong [of _ _ concat] map_cong) (auto dest: label_ok_refs)
  finally show ?thesis by simp
qed

lemma pool_inv_refs_placed:
  assumes "pool_inv a"
  shows "refs_placed 4 (label_heap a) (data_labels a) (length (asm_buffer a))"
proof -
  have ok: "\<forall>l \<in> set (label_heap a). label_ok (length (asm_buffer a)) l" using assms by (simp add: pool_inv_def)
  have "sorted_wrt (\<lambda>l m. lpc l < lpc m) (label_heap a)" using assms by (simp add: pool_inv_def sorted_wrt_map)
  then have "sorted_wrt (\<lambda>l m. lpc l + 4 \<le> lpc m \<or> lpc m + 4 \<le> lpc l) (label_heap a)"
  proof (rule sorted_wrt_mono_rel [rotated])
    fix l m assume "l \<in> set (label_heap a)" "m \<in> set (label_heap a)" "lpc l < lpc m"
    then have "4 dvd lpc l" "4 dvd lpc m" using ok by (auto dest: label_ok_lpc)
    then obtain x y where "lpc l = 4 * x" "lpc m = 4 * y" by (auto elim!: dvdE)
    with \<open>lpc l < lpc m\<close> show "lpc l + 4 \<le> lpc m \<or> lpc m + 4 \<le> lpc l" by simp
  qed
  then show ?thesis using assms refs_of_heap [OF ok] ok
    by (auto simp: refs_placed_def pool_inv_def apart_def sorted_wrt_map o_def dest: label_ok_lpc)
qed

subsection \<open>Where a block ends up\<close>

lemma buffer_blocks: "asm_buffer (foldl emit_block a bs) = asm_buffer a @ wbytes (concat (map fst bs))"
  by (induction bs arbitrary: a) (auto simp: emit_block_def split: option.splits)

lemma heap_blocks:
  "\<exists>hs. label_heap (foldl emit_block a bs) = label_heap a @ hs \<and>
     (\<forall>l \<in> set hs. length (asm_buffer a) \<le> lpc l)"
proof (induction bs arbitrary: a)
  case Nil
  then show ?case by simp
next
  case (Cons b bs)
  obtain hs where hs: "label_heap (foldl emit_block (emit_block a b) bs) = label_heap (emit_block a b) @ hs"
    "\<forall>l \<in> set hs. length (asm_buffer (emit_block a b)) \<le> lpc l" using Cons.IH by blast
  moreover have "length (asm_buffer a) \<le> length (asm_buffer (emit_block a b))"
    by (simp add: emit_block_def split: option.splits)
  moreover have "label_heap (emit_block a b) = label_heap a @ (case snd b of None \<Rightarrow> [] | Some (j, v) \<Rightarrow>
       [lit_label (length (asm_buffer a) + 4 * j) v])"
    by (simp add: emit_block_def split: option.splits)
  ultimately show ?case by (fastforce split: option.splits)
qed

lemma pool_offset_exists:
  assumes "l \<in> set ls" "\<forall>k \<in> set ls. length (label_bytes (h ! k)) = 8" "4 dvd q"
  shows "\<exists>p. (l, p) \<in> set (pool_offsets h q ls) \<and> q \<le> p \<and> 4 dvd p \<and> p + 8 \<le> q + 8 * length ls"
  using assms
proof (induction ls arbitrary: q)
  case Nil
  then show ?case by simp
next
  case (Cons k ls)
  show ?case
  proof (cases "l = k")
    case True
    with Cons.prems show ?thesis by (intro exI [of _ q]) auto
  next
    case False
    with Cons.prems have "4 dvd q + 8" "l \<in> set ls" by (auto intro: dvd_add)
    then obtain p where "(l, p) \<in> set (pool_offsets h (q + 8) ls)" "q + 8 \<le> p" "4 dvd p"
        "p + 8 \<le> q + 8 + 8 * length ls"
      using Cons.IH [of "q + 8"] Cons.prems(2) by auto
    then show ?thesis using Cons.prems(2) by (intro exI [of _ p]) auto
  qed
qed

lemma LoadInst_wbytes: "j < length ws \<Longrightarrow> LoadInst (b @ wbytes ws @ c) (length b + 4 * j) = Some (ws ! j)"
proof -
  assume j: "j < length ws"
  then have "wbytes ws = wbytes (take j ws) @ le_bytes 4 (ws ! j) @ wbytes (drop (Suc j) ws)"
    by (metis id_take_nth_drop wbytes_simps(2,3))
  moreover have "length (wbytes (take j ws)) = 4 * j" using j by simp
  ultimately show ?thesis
    using Load_at_end [of 4 "b @ wbytes (take j ws)" "ws ! j" "wbytes (drop (Suc j) ws) @ c"]
    by (simp add: LoadInst_def)
qed

lemma aligned_apart: "4 dvd p \<Longrightarrow> 4 dvd q \<Longrightarrow> p \<noteq> q \<Longrightarrow> p + 4 \<le> q \<or> q + 4 \<le> (p :: nat)"
  by (elim dvdE) auto

text \<open>Binding the pool of an assembler that satisfies the invariant.\<close>

lemma RelocBind_pool:
  assumes "pool_inv a"
  shows "\<exists>a'. RelocBind arm64_link_confused_instructions a = Some a' \<and>
     length (asm_buffer a') = length (asm_buffer a) + 8 * length (label_heap a) \<and>
     (\<forall>q. 4 dvd q \<and> q + 4 \<le> length (asm_buffer a) \<and> q \<notin> lpc ` set (label_heap a) \<longrightarrow>
        LoadInst (asm_buffer a') q = LoadInst (asm_buffer a) q) \<and>
     (\<forall>p v. lit_label p v \<in> set (label_heap a) \<longrightarrow> (\<exists>d. length (asm_buffer a) \<le> d \<and> 4 dvd d \<and>
        d + 8 \<le> length (asm_buffer a') \<and> take 8 (drop d (asm_buffer a')) = le_bytes 8 v \<and>
        LoadInst (asm_buffer a') p = map_option (\<lambda>w. encode_imm19_offset w (word_of_nat d - word_of_nat p))
          (LoadInst (asm_buffer a) p)))"
proof -
  let ?h = "label_heap a" and ?b = "asm_buffer a"
  have ok: "\<forall>l \<in> set ?h. label_ok (length ?b) l" and dl: "data_labels a = [0..<length ?h]" and al: "4 dvd length ?b"
    using assms by (simp_all add: pool_inv_def)
  note refs = refs_of_heap [OF ok]
  have eight: "\<forall>k \<in> set (data_labels a). length (label_bytes (?h ! k)) = 8"
    using ok dl by (auto intro!: label_ok_bytes)
  obtain a' where a': "reloc_bind_loop arm64_link_confused_instructions a (data_labels a) = Some a'"
    "length ?b \<le> length (asm_buffer a')"
    "length (asm_buffer a') = length ?b + sum_list (map (\<lambda>l. length (label_bytes (?h ! l))) (data_labels a))"
    "\<forall>i < length ?b. (\<forall>r \<in> set (label_refs ?h (data_labels a)).
        i < ref_pc_offset r \<or> ref_pc_offset r + 4 \<le> i) \<longrightarrow> asm_buffer a' ! i = ?b ! i"
    "\<forall>(l, p) \<in> set (pool_offsets ?h (length ?b) (data_labels a)).
        take (length (label_bytes (?h ! l))) (drop p (asm_buffer a')) = label_bytes (?h ! l) \<and>
        (\<forall>r \<in> set (ref_label_insns (?h ! l)). LoadInst (asm_buffer a') (ref_pc_offset r) =
           map_option (arm64_fix p r) (LoadInst ?b (ref_pc_offset r)))"
    using arm64_linker.reloc_bind_loop_spec [OF pool_inv_refs_placed [OF assms]] by blast
  have "sum_list (map (\<lambda>l. length (label_bytes (?h ! l))) (data_labels a)) = 8 * length ?h"
  proof -
    have "map (\<lambda>l. length (label_bytes (?h ! l))) (data_labels a) = map (\<lambda>_. 8) (data_labels a)"
      using eight by (intro map_cong) auto
    then show ?thesis by (simp add: dl map_replicate_const sum_list_replicate)
  qed
  then have len: "length (asm_buffer a') = length ?b + 8 * length ?h" using a'(3) by simp
  have "LoadInst (asm_buffer a') q = LoadInst ?b q" if "4 dvd q" "q + 4 \<le> length ?b" "q \<notin> lpc ` set ?h" for q
  proof (rule inst32.load_untouched [where P = "lpc ` set ?h"])
    show "\<forall>i < length ?b. (\<forall>p \<in> lpc ` set ?h. i < p \<or> p + 4 \<le> i) \<longrightarrow> asm_buffer a' ! i = ?b ! i"
      using a'(4) by (auto simp: dl refs)
    show "\<forall>p \<in> lpc ` set ?h. q + 4 \<le> p \<or> p + 4 \<le> q"
      using that ok aligned_apart label_ok_lpc by blast
  qed (use that a'(2) in auto)
  moreover have "\<exists>d. length ?b \<le> d \<and> 4 dvd d \<and>
        d + 8 \<le> length (asm_buffer a') \<and> take 8 (drop d (asm_buffer a')) = le_bytes 8 v \<and>
        LoadInst (asm_buffer a') p = map_option (\<lambda>w. encode_imm19_offset w (word_of_nat d - word_of_nat p))
          (LoadInst ?b p)" if pv: "lit_label p v \<in> set ?h" for p v
  proof -
    obtain k where k: "k < length ?h" "?h ! k = lit_label p v" using pv by (metis in_set_conv_nth)
    then obtain d where d: "(k, d) \<in> set (pool_offsets ?h (length ?b) (data_labels a))" "length ?b \<le> d" "4 dvd d"
        "d + 8 \<le> length ?b + 8 * length (data_labels a)"
      using pool_offset_exists [OF _ eight al, of k] dl by auto
    have lb: "label_bytes (lit_label p v) = le_bytes 8 v"
      "ref_label_insns (lit_label p v) = [\<lparr>link_type = kLabelImm19, ref_pc_offset = p\<rparr>]"
      by (simp_all add: label_bytes_def lit_label_def)
    have "arm64_fix d \<lparr>link_type = kLabelImm19, ref_pc_offset = p\<rparr> =
        (\<lambda>w. encode_imm19_offset w (word_of_nat d - word_of_nat p))"
      by (simp add: arm64_fix_def fun_eq_iff)
    with a'(5) d k len dl lb show ?thesis by (intro exI [of _ d]) fastforce
  qed
  ultimately show ?thesis using a'(1) len by (auto simp: RelocBind_def)
qed

text \<open>The words of a block in the final buffer.\<close>

lemma block_at:
  assumes "pool_inv a0" "\<forall>b \<in> set (bs1 @ blk # bs2). blk_ok b"
    and "RelocBind arm64_link_confused_instructions (foldl emit_block a0 (bs1 @ blk # bs2)) = Some a'"
  defines "off \<equiv> length (asm_buffer (foldl emit_block a0 bs1))"
  shows "4 dvd off"
    and "\<And>j. j < length (fst blk) \<Longrightarrow> (\<And>v. snd blk \<noteq> Some (j, v)) \<Longrightarrow>
       LoadInst (asm_buffer a') (off + 4 * j) = Some (fst blk ! j)"
    and "\<And>j v. snd blk = Some (j, v) \<Longrightarrow> \<exists>d. off + 4 * j < d \<and> 4 dvd d \<and> d + 8 \<le> length (asm_buffer a') \<and>
       take 8 (drop d (asm_buffer a')) = le_bytes 8 v \<and>
       LoadInst (asm_buffer a') (off + 4 * j) =
         Some (encode_imm19_offset ldr17 (word_of_nat d - word_of_nat (off + 4 * j)))"
proof -
  let ?ak = "foldl emit_block a0 bs1" and ?a = "foldl emit_block a0 (bs1 @ blk # bs2)"
  have invk: "pool_inv ?ak" and inv: "pool_inv ?a" and ok: "blk_ok blk"
    using assms(1,2) by (auto intro!: pool_inv_blocks pool_inv_block)
  show al: "4 dvd off" using invk by (simp add: off_def pool_inv_def)
  obtain hs where hs: "label_heap ?a = label_heap (emit_block ?ak blk) @ hs"
    "\<forall>l \<in> set hs. off + 4 * length (fst blk) \<le> lpc l"
    using heap_blocks [of "emit_block ?ak blk" bs2]
    by (auto simp: off_def emit_block_def split: option.splits)
  have old: "\<forall>l \<in> set (label_heap ?ak). lpc l + 4 \<le> off"
    using invk by (auto simp: pool_inv_def off_def dest: label_ok_lpc)
  have word: "LoadInst (asm_buffer ?a) (off + 4 * j) = Some (fst blk ! j)" if "j < length (fst blk)" for j
    using LoadInst_wbytes [OF that, of "asm_buffer ?ak" "wbytes (concat (map fst bs2))"]
    by (simp add: buffer_blocks off_def emit_block_def split: option.splits)
  have inb: "off + 4 * j + 4 \<le> length (asm_buffer ?a)" if "j < length (fst blk)" for j
    using that by (simp add: buffer_blocks off_def emit_block_def split: option.splits)
  from RelocBind_pool [OF inv] assms(3) have
    keep: "\<And>q. 4 dvd q \<Longrightarrow> q + 4 \<le> length (asm_buffer ?a) \<Longrightarrow> q \<notin> lpc ` set (label_heap ?a) \<Longrightarrow>
        LoadInst (asm_buffer a') q = LoadInst (asm_buffer ?a) q" and
    lit: "\<And>p v. lit_label p v \<in> set (label_heap ?a) \<Longrightarrow> \<exists>d. length (asm_buffer ?a) \<le> d \<and> 4 dvd d \<and>
        d + 8 \<le> length (asm_buffer a') \<and> take 8 (drop d (asm_buffer a')) = le_bytes 8 v \<and>
        LoadInst (asm_buffer a') p = map_option (\<lambda>w. encode_imm19_offset w (word_of_nat d - word_of_nat p))
          (LoadInst (asm_buffer ?a) p)"
    by auto
  show "LoadInst (asm_buffer a') (off + 4 * j) = Some (fst blk ! j)"
    if j: "j < length (fst blk)" and nl: "\<And>v. snd blk \<noteq> Some (j, v)" for j
  proof -
    have "off + 4 * j \<notin> lpc ` set (label_heap ?a)"
    proof
      assume "off + 4 * j \<in> lpc ` set (label_heap ?a)"
      then obtain l where l: "l \<in> set (label_heap (emit_block ?ak blk)) \<union> set hs" "lpc l = off + 4 * j"
        using hs(1) by force
      then consider "l \<in> set (label_heap ?ak)" | i v where "snd blk = Some (i, v)" "lpc l = off + 4 * i" | "l \<in> set hs"
        by (auto simp: emit_block_def off_def split: option.splits)
      then show False using old hs(2) l(2) j nl by cases fastforce+
    qed
    then show ?thesis using keep [of "off + 4 * j"] al word [OF j] inb [OF j] by simp
  qed
  show "\<exists>d. off + 4 * j < d \<and> 4 dvd d \<and> d + 8 \<le> length (asm_buffer a') \<and>
       take 8 (drop d (asm_buffer a')) = le_bytes 8 v \<and>
       LoadInst (asm_buffer a') (off + 4 * j) =
         Some (encode_imm19_offset ldr17 (word_of_nat d - word_of_nat (off + 4 * j)))"
    if jv: "snd blk = Some (j, v)" for j v
  proof -
    have j: "j < length (fst blk)" "fst blk ! j = ldr17" using ok jv by (simp_all add: blk_ok_def)
    have "lit_label (off + 4 * j) v \<in> set (label_heap ?a)"
      using hs(1) jv by (simp add: emit_block_def off_def)
    from lit [OF this] obtain d where d: "length (asm_buffer ?a) \<le> d" "4 dvd d" "d + 8 \<le> length (asm_buffer a')"
        "take 8 (drop d (asm_buffer a')) = le_bytes 8 v"
        "LoadInst (asm_buffer a') (off + 4 * j) =
          map_option (\<lambda>w. encode_imm19_offset w (word_of_nat d - word_of_nat (off + 4 * j)))
            (LoadInst (asm_buffer ?a) (off + 4 * j))"
      by blast
    have "off + 4 * j < d" using d(1) inb [OF j(1)] by linarith
    with d word [OF j(1)] j(2) show ?thesis by (intro exI [of _ d]) (simp del: of_nat_add of_nat_mult)
  qed
qed

subsection \<open>Running the emitted words\<close>

lemma step_at:
  assumes "loaded s A b" "LoadInst b off = Some w" "pc s = A + word_of_nat off" "a64_decode w = Some i"
  shows "a64_step s = Some (a64_exec i s)"
proof -
  have "off + 4 \<le> length b" "w = le_word (take 4 (drop off b))"
    using assms(2) by (auto simp: LoadInst_def Load_def split: if_splits)
  then have "a64_fetch s = w" using loaded_ld [OF assms(1), of off 4, where 'a = 32] assms(3) by (simp add: a64_fetch_def)
  then show ?thesis using assms(4) by (simp add: a64_step_def)
qed

lemma loaded_same_mem: "mem s' = mem s \<Longrightarrow> loaded s' = loaded s"
  by (simp add: loaded_def fun_eq_iff)

lemma state_simps [simp]:
  "mem (wX r v s) = mem s" "mem (goto a s) = mem s" "mem (next_pc s) = mem s"
  "pc (wX r v s) = pc s" "pc (goto a s) = a" "pc (next_pc s) = pc s + 4"
  "nzcv (wX r v s) = nzcv s" "sp (wX r v s) = sp s" "vreg (wX r v s) = vreg s"
  by (simp_all add: wX_def goto_def next_pc_def)

lemma bit_reg_nat: "rd < 32 \<Longrightarrow> bit (rd :: nat) n \<Longrightarrow> n < 5"
proof (rule ccontr)
  assume "rd < 32" "bit rd n" "\<not> n < 5"
  then have "rd < 2 ^ n" using power_increasing [of 5 n "2 :: nat"] by simp
  with \<open>bit rd n\<close> show False by (simp add: bit_iff_odd)
qed

lemma bit_reg: "rd < 32 \<Longrightarrow> bit (word_of_nat rd :: u32) n \<Longrightarrow> n < 5"
  by (auto simp: bit_simps dest: bit_reg_nat)

lemma mov_word_fields:
  assumes "rd < 32" "w = push_bit 21 N OR push_bit 5 (ucast (h :: u16)) OR word_of_nat rd"
  shows "fld w 0 5 = word_of_nat rd" "fld w 5 16 = ucast h" "fld w 21 2 = take_bit 2 N"
    "w AND 0xFF800000 = push_bit 21 N AND 0xFF800000"
proof -
  have hb: "\<not> bit h n" if "16 \<le> n" for n using that by (auto dest: bit_imp_le_length)
  have hb': "bit h n \<Longrightarrow> n < 16" for n using bit_imp_le_length [of h n] by simp
  note r = bit_reg [OF assms(1)]
  show "fld w 0 5 = word_of_nat rd"
    by (rule bit_word_eqI) (auto simp: assms(2) bit_fld bit_simps dest: bit_reg_nat [OF assms(1)])
  show "fld w 5 16 = ucast h"
    by (rule bit_word_eqI) (auto simp: assms(2) bit_fld bit_or_iff bit_push_bit_iff bit_unsigned_iff hb dest: r hb')
  show "fld w 21 2 = take_bit 2 N"
    by (rule bit_word_eqI) (auto simp: assms(2) bit_fld bit_or_iff bit_push_bit_iff bit_unsigned_iff bit_take_bit_iff hb dest: r)
  have "(0xFF800000 :: u32) = push_bit 23 0x1FF" by simp
  then have m: "bit (0xFF800000 :: u32) n \<Longrightarrow> 23 \<le> n" for n by (metis bit_push_bit_iff)
  show "w AND 0xFF800000 = push_bit 21 N AND 0xFF800000"
  proof (rule bit_word_eqI)
    fix n
    show "bit (w AND 0xFF800000) n = bit (push_bit 21 N AND 0xFF800000) n"
    proof (cases "23 \<le> n")
      case True
      then have "\<not> bit h (n - 5)" "\<not> bit (word_of_nat rd :: u32) n" using hb' [of "n - 5"] r [of n] by linarith+
      then show ?thesis by (simp add: assms(2) bit_and_iff bit_or_iff bit_push_bit_iff bit_unsigned_iff)
    next
      case False
      then have "\<not> bit (0xFF800000 :: u32) n" using m by blast
      then show ?thesis by (simp only: bit_and_iff simp_thms)
    qed
  qed
qed

lemma regfld_mov: "rd < 32 \<Longrightarrow> fld w 0 5 = word_of_nat rd \<Longrightarrow> regfld w 0 = rd"
  by (simp add: regfld_def unat_of_nat)

lemma ucast_u16_u64: "ucast (ucast (h :: u16) :: u32) = (ucast h :: u64)"
  by (rule bit_word_eqI) (auto simp: bit_simps dest: bit_imp_le_length)

lemma decode_mov_word:
  assumes "rd < 32"
  shows "a64_decode (mov_word 0x694 0 h rd) = Some (I_MOVZ rd (ucast h) 0)"
    "a64_decode (mov_word 0x794 1 h rd) = Some (I_MOVK rd (ucast h) 16)"
    "a64_decode (mov_word 0x794 2 h rd) = Some (I_MOVK rd (ucast h) 32)"
    "a64_decode (mov_word 0x794 3 h rd) = Some (I_MOVK rd (ucast h) 48)"
proof -
  note f = mov_word_fields [OF assms refl, of _ h]
  show "a64_decode (mov_word 0x694 0 h rd) = Some (I_MOVZ rd (ucast h) 0)"
    using f [of "0x694"] by (simp add: mov_word_def decode_movz regfld_mov [OF assms] ucast_u16_u64)
  show "a64_decode (mov_word 0x794 1 h rd) = Some (I_MOVK rd (ucast h) 16)"
    using f [of "0x795"] by (simp add: mov_word_def decode_movk regfld_mov [OF assms] ucast_u16_u64)
  show "a64_decode (mov_word 0x794 2 h rd) = Some (I_MOVK rd (ucast h) 32)"
    using f [of "0x796"] by (simp add: mov_word_def decode_movk regfld_mov [OF assms] ucast_u16_u64)
  show "a64_decode (mov_word 0x794 3 h rd) = Some (I_MOVK rd (ucast h) 48)"
    using f [of "0x797"] by (simp add: mov_word_def decode_movk regfld_mov [OF assms] ucast_u16_u64)
qed

lemma movk_recompose:
  fixes imm :: u64
  defines "h k \<equiv> ucast (ucast (drop_bit k imm) :: u16) :: u64"
  shows "((((((h 0 AND NOT (push_bit 16 0xFFFF)) OR push_bit 16 (h 16)) AND NOT (push_bit 32 0xFFFF)) OR push_bit 32 (h 32))
     AND NOT (push_bit 48 0xFFFF)) OR push_bit 48 (h 48)) = imm"
proof -
  have m: "(0xFFFF :: u64) = mask 16" by code_simp
  show ?thesis
  proof (rule bit_word_eqI)
    fix n assume "n < LENGTH(64)"
    then consider "n < 16" | "16 \<le> n" "n < 32" | "32 \<le> n" "n < 48" | "48 \<le> n" "n < 64" by fastforce
    then show "bit ((((((h 0 AND NOT (push_bit 16 0xFFFF)) OR push_bit 16 (h 16)) AND NOT (push_bit 32 0xFFFF))
        OR push_bit 32 (h 32)) AND NOT (push_bit 48 0xFFFF)) OR push_bit 48 (h 48)) n = bit imm n"
      by cases (auto simp: h_def m bit_simps)
  qed
qed

lemma run_mov:
  assumes "loaded s A b" "pc s = A + word_of_nat off" "rd < 32"
    and "\<And>j. j < 4 \<Longrightarrow> LoadInst b (off + 4 * j) = Some (mov_words rd imm ! j)"
  shows "a64_run 4 s = Some (wX rd imm (s\<lparr>pc := pc s + 16\<rparr>))"
proof -
  define s1 where "s1 = a64_exec (I_MOVZ rd (ucast (ucast imm :: u16)) 0) s"
  define s2 where "s2 = a64_exec (I_MOVK rd (ucast (ucast (drop_bit 16 imm) :: u16)) 16) s1"
  define s3 where "s3 = a64_exec (I_MOVK rd (ucast (ucast (drop_bit 32 imm) :: u16)) 32) s2"
  define s4 where "s4 = a64_exec (I_MOVK rd (ucast (ucast (drop_bit 48 imm) :: u16)) 48) s3"
  note w = assms(4) [of 0] assms(4) [of 1] assms(4) [of 2] assms(4) [of 3]
  have l: "loaded s1 A b" "loaded s2 A b" "loaded s3 A b"
    using assms(1) by (simp_all add: s1_def s2_def s3_def loaded_def)
  have "a64_step s = Some s1"
    unfolding s1_def using w(1) assms(2,3) by (intro step_at [OF assms(1), of off])
      (auto simp: mov_words_def decode_mov_word)
  moreover have "a64_step s1 = Some s2"
    unfolding s2_def using w(2) assms(2,3) by (intro step_at [OF l(1), of "off + 4"])
      (auto simp: mov_words_def decode_mov_word s1_def simp del: One_nat_def)
  moreover have "a64_step s2 = Some s3"
    unfolding s3_def using w(3) assms(2,3) by (intro step_at [OF l(2), of "off + 8"])
      (auto simp: mov_words_def decode_mov_word s1_def s2_def)
  moreover have "a64_step s3 = Some s4"
    unfolding s4_def using w(4) assms(2,3) by (intro step_at [OF l(3), of "off + 12"])
      (auto simp: mov_words_def decode_mov_word s1_def s2_def s3_def)
  ultimately have "a64_run 4 s = Some s4" by (simp add: numeral_eq_Suc)
  moreover have "s4 = wX rd imm (s\<lparr>pc := pc s + 16\<rparr>)"
    using movk_recompose [of imm]
    by (cases s) (auto simp: s4_def s3_def s2_def s1_def wX_def rX_def next_pc_def)
  ultimately show ?thesis by simp
qed

subsection \<open>The literal load and the register branch\<close>

lemma and_eqI:
  fixes x y m :: u32
  assumes "\<And>k. k \<in> set (filter (bit m) [0..<32]) \<Longrightarrow> bit x k = bit y k"
  shows "x AND m = y AND m"
  using assms by (intro bit_word_eqI) (auto simp: bit_and_iff)

lemma imm19_keeps: "\<forall>k \<in> set (filter (bit m) [0..<32]). k < 5 \<or> 23 < k \<Longrightarrow> encode_imm19_offset i off AND m = i AND m"
  by (rule and_eqI) (fastforce simp: bit_encode_imm19)

lemma decode_ldr17:
  assumes "take_bit 2 off = 0" "- (2 ^ 20) \<le> sint off" "sint off < 2 ^ 20"
  shows "a64_decode (encode_imm19_offset ldr17 off) = Some (I_LDRlit 8 17 off)"
proof -
  let ?w = "encode_imm19_offset ldr17 off"
  have f: "filter (bit (0xFF000000 :: u32)) [0..<32] = [24..<32]" "filter (bit (0x1F :: u32)) [0..<32] = [0..<5]"
    by code_simp+
  have "?w AND 0xFF000000 = ldr17 AND 0xFF000000" "?w AND 0x1F = ldr17 AND 0x1F"
    by (rule imm19_keeps, simp add: f)+
  then have c: "?w AND 0xFF000000 = 0x58000000" "?w AND 0x1F = 0x11" by (simp_all add: ldr17_def)
  have "fld ?w 0 5 = ?w AND 0x1F" by (simp add: fld_def take_bit_eq_mask mask_numeral)
  then have "regfld ?w 0 = 17" using c(2) by (simp add: regfld_def)
  then show ?thesis using decode_ldr_lit_x [OF c(1)] imm19.roundtrip [OF assms] by (simp add: arch_imm19)
qed

lemma decode_br17: "a64_decode br17 = Some (I_BR 17)" "a64_decode blr17 = Some (I_BLR 17)"
  by code_simp+

lemma sint_small_u64:
  assumes "unat (w :: u64) < 2 ^ 63"
  shows "sint w = int (unat w)"
proof -
  have n: "int (unat w) < 2 ^ 63" using assms by (metis of_nat_less_iff of_nat_numeral of_nat_power)
  have "sint w = signed_take_bit 63 (int (unat w))" by (simp add: sint_uint)
  also have "\<dots> = int (unat w)"
    by (rule signed_take_bit_int_eq_self [OF _ n]) (rule order_trans [of _ 0], simp, rule of_nat_0_le_iff)
  finally show ?thesis .
qed

lemma literal_offset:
  assumes "off < d" "d < 2 ^ 20" "4 dvd off" "4 dvd d"
  defines "o' \<equiv> (word_of_nat d - word_of_nat off :: u64)"
  shows "take_bit 2 o' = 0" "- (2 ^ 20) \<le> sint o'" "sint o' < 2 ^ 20"
proof -
  have o: "o' = word_of_nat (d - off)" using assms(1) by (simp add: o'_def of_nat_diff)
  have "4 dvd d - off" using assms(3,4) by (rule dvd_diff_nat [rotated])
  then have "take_bit 2 (d - off) = 0" by (simp add: take_bit_eq_mod)
  moreover have "take_bit 2 o' = word_of_nat (take_bit 2 (d - off))" unfolding o by (rule take_bit_of_nat)
  ultimately show "take_bit 2 o' = 0" by simp
  have "unat o' = take_bit 64 (d - off)" unfolding o by (simp only: unat_of_nat) (simp add: take_bit_eq_mod)
  also have "\<dots> = d - off" using assms(2) by (intro take_bit_nat_eq_self) simp
  finally have u: "unat o' = d - off" .
  then have "unat o' < 2 ^ 63" using assms(2) by simp
  from sint_small_u64 [OF this] have "sint o' = int (d - off)" by (simp only: u)
  moreover have "d - off < 2 ^ 20" using assms(2) by simp
  ultimately show "- (2 ^ 20) \<le> sint o'" "sint o' < 2 ^ 20" by auto
qed

text \<open>The words of a block as they stand in the buffer \<open>b\<close> after linking.\<close>

definition block_in :: "code_buffer \<Rightarrow> nat \<Rightarrow> block \<Rightarrow> bool" where
  "block_in b off blk \<longleftrightarrow> 4 dvd off \<and> off + 4 * length (fst blk) \<le> length b \<and>
     (\<forall>j < length (fst blk). (\<forall>v. snd blk \<noteq> Some (j, v)) \<longrightarrow> LoadInst b (off + 4 * j) = Some (fst blk ! j)) \<and>
     (\<forall>j v. snd blk = Some (j, v) \<longrightarrow> (\<exists>d. off + 4 * j < d \<and> 4 dvd d \<and> d + 8 \<le> length b \<and>
       take 8 (drop d b) = le_bytes 8 v \<and>
       LoadInst b (off + 4 * j) = Some (encode_imm19_offset ldr17 (word_of_nat d - word_of_nat (off + 4 * j)))))"

lemma step_literal:
  assumes "loaded s A b" "block_in b off blk" "snd blk = Some (j, v)"
    and "pc s = A + word_of_nat (off + 4 * j)" "length b < 2 ^ 20"
  shows "a64_step s = Some (next_pc (wX 17 v s))"
proof -
  let ?p = "off + 4 * j"
  obtain d where d: "?p < d" "4 dvd d" "d + 8 \<le> length b" "take 8 (drop d b) = le_bytes 8 v"
      "LoadInst b ?p = Some (encode_imm19_offset ldr17 (word_of_nat d - word_of_nat ?p))" and off: "4 dvd off"
    using assms(2,3) unfolding block_in_def by blast
  have "4 dvd ?p" "d < 2 ^ 20" using off d(3) assms(5) by simp_all
  note lo = literal_offset [OF d(1) this(2,1) d(2)]
  have "a64_step s = Some (a64_exec (I_LDRlit 8 17 (word_of_nat d - word_of_nat ?p)) s)"
    by (rule step_at [OF assms(1) d(5) assms(4) decode_ldr17 [OF lo]])
  moreover have "ld 8 s (A + word_of_nat d) = v"
    using loaded_ld [OF assms(1) d(3), where 'a = 64] d(4) by simp
  ultimately show ?thesis using assms(4) by (simp add: algebra_simps)
qed

lemma step_word:
  assumes "loaded s A b" "block_in b off blk" "j < length (fst blk)" "\<And>v. snd blk \<noteq> Some (j, v)"
    and "pc s = A + word_of_nat (off + 4 * j)" "a64_decode (fst blk ! j) = Some i"
  shows "a64_step s = Some (a64_exec i s)"
  using assms by (intro step_at [OF assms(1) _ assms(5,6)]) (auto simp: block_in_def)

lemma loaded_next [simp]: "loaded (next_pc s) = loaded s" "loaded (wX r v s) = loaded s" "loaded (goto a s) = loaded s"
  by (simp_all add: loaded_def fun_eq_iff)

lemma run_literal_branch:
  assumes "loaded s A b" "block_in b off blk" "snd blk = Some (j, v)" "Suc j < length (fst blk)"
    and "pc s = A + word_of_nat (off + 4 * j)" "length b < 2 ^ 20"
  shows "fst blk ! Suc j = br17 \<Longrightarrow> a64_run 2 s = Some (goto v (wX 17 v s))"
    and "fst blk ! Suc j = blr17 \<Longrightarrow> a64_run 2 s = Some (goto v (wX 30 (pc s + 8) (wX 17 v s)))"
proof -
  note st = step_literal [OF assms(1-3,5,6)]
  have pc: "pc (next_pc (wX 17 v s)) = A + word_of_nat (off + 4 * Suc j)" using assms(5) by (simp add: algebra_simps)
  have nx: "a64_step (next_pc (wX 17 v s)) = Some (a64_exec i (next_pc (wX 17 v s)))"
    if "a64_decode (fst blk ! Suc j) = Some i" for i
    using assms(1,3,4) that by (intro step_word [OF _ assms(2) _ _ pc]) auto
  show "a64_run 2 s = Some (goto v (wX 17 v s))" if "fst blk ! Suc j = br17"
    using st nx [of "I_BR 17"] that decode_br17
    by (simp add: numeral_eq_Suc rX_def wX_def next_pc_def goto_def)
  show "a64_run 2 s = Some (goto v (wX 30 (pc s + 8) (wX 17 v s)))" if "fst blk ! Suc j = blr17"
    using st nx [of "I_BLR 17"] that decode_br17
    by (cases s) (simp add: numeral_eq_Suc rX_def wX_def next_pc_def goto_def algebra_simps)
qed

subsection \<open>What it means to simulate an instruction\<close>

fun jumps :: "a64_instr \<Rightarrow> a64_state \<Rightarrow> bool" where
  "jumps (I_B _) s = True" | "jumps (I_BL _) s = True"
| "jumps (I_Bcond c _) s = cond_holds (nzcv s) c"
| "jumps (I_CB nz sf rt _) s = ((if sf then rX s rt = 0 else (ucast (rX s rt) :: u32) = 0) \<noteq> nz)"
| "jumps (I_TB nz n rt _) s = (bit (rX s rt) n = nz)"
| "jumps (I_BR _) s = True" | "jumps (I_BLR _) s = True" | "jumps (I_RET _) s = True"
| "jumps _ s = False"

fun links :: "a64_instr \<Rightarrow> bool" where
  "links (I_BL _) = True" | "links (I_BLR _) = True" | "links _ = False"

text \<open>
  The relocated code, at \<open>A + off\<close> with \<open>n\<close> words, simulates instruction \<open>i\<close> at address
  \<open>cur\<close>: started in \<open>s\<close> it reaches a state that agrees with the execution of \<open>i\<close> except
  for the scratch register x17, jumps to the same absolute address when \<open>i\<close> jumps and otherwise
  continues after its last word; a linking branch leaves the return address of the relocated code.
\<close>

definition simulates :: "addr \<Rightarrow> a64_instr \<Rightarrow> addr \<Rightarrow> nat \<Rightarrow> nat \<Rightarrow> a64_state \<Rightarrow> bool" where
  "simulates cur i A off n s \<longleftrightarrow>
     (let t = a64_exec i (s\<lparr>pc := cur\<rparr>); after = A + word_of_nat (off + 4 * n) in
      \<exists>k s'. a64_run k s = Some s' \<and> mem s' = mem t \<and> sp s' = sp t \<and> vreg s' = vreg t \<and> nzcv s' = nzcv t \<and>
        (\<forall>r. r \<noteq> 17 \<and> r \<noteq> 30 \<longrightarrow> gpr s' r = gpr t r) \<and>
        gpr s' 30 = (if links i then after else gpr t 30) \<and>
        pc s' = (if jumps i s then pc t else after))"

text \<open>
  The instructions whose relocation the code gets right. Left out are the conditional branches with
  condition \<^verbatim>\<open>AL\<close> or \<^verbatim>\<open>NV\<close>, whose inversion is again an unconditional branch, and the literal
  loads other than the 64-bit general one.
\<close>

fun relo_supported :: "a64_instr \<Rightarrow> bool" where
  "relo_supported (I_Bcond c _) = (c < 14)"
| "relo_supported (I_LDRlit n _ _) = (n = 8)"
| "relo_supported (I_LDRSWlit _ _) = False"
| "relo_supported (I_LDRlitV _ _ _) = False"
| "relo_supported _ = True"

lemmas class_defs = inst_is_b_bl_def inst_is_ldr_literal_def inst_is_adr_def inst_is_adrp_def inst_is_b_cond_def
  inst_is_compare_b_def inst_is_test_b_def UnconditionalBranchFixedMask_def UnconditionalBranchFixed_def
  LoadRegLiteralFixedMask_def LoadRegLiteralFixed_def PCRelAddressingFixedMask_def PCRelAddressingFixed_def
  PCRelAddressingMask_def ADR_op_def ADRP_op_def ConditionalBranchFixedMask_def ConditionalBranchFixed_def
  CompareBranchFixedMask_def CompareBranchFixed_def TestBranchFixedMask_def TestBranchFixed_def

lemma is_BL:
  assumes "inst_is_b_bl inst"
  shows "inst AND UnconditionalBranchMask = BL_op \<longleftrightarrow> bit inst 31"
proof -
  have c: "inst AND 0x7C000000 = 0x14000000" using assms by (simp add: class_defs)
  have f: "filter (bit (0xFC000000 :: u32)) [0..<32] = [26, 27, 28, 29, 30, 31]" by code_simp
  show ?thesis
  proof
    assume "inst AND UnconditionalBranchMask = BL_op"
    then have "inst AND 0xFC000000 = 0x94000000"
      by (simp add: UnconditionalBranchMask_def BL_op_def UnconditionalBranchFixed_def)
    from and_mask_bit [OF this, of 31] show "bit inst 31" by simp
  next
    assume b: "bit inst 31"
    have "inst AND 0xFC000000 = 0x94000000 AND 0xFC000000"
      using b and_mask_bit [OF c, of 26] and_mask_bit [OF c, of 27] and_mask_bit [OF c, of 28]
        and_mask_bit [OF c, of 29] and_mask_bit [OF c, of 30]
      by (intro and_eqI) (auto simp: f)
    then show "inst AND UnconditionalBranchMask = BL_op"
      by (simp add: UnconditionalBranchMask_def BL_op_def UnconditionalBranchFixed_def)
  qed
qed

lemma sim_b:
  assumes "inst_is_b_bl inst" "a64_decode inst = Some i" "relo_block cur inst = Some blk"
    and "loaded s A b" "block_in b off blk" "pc s = A + word_of_nat off" "length b < 2 ^ 20"
  shows "simulates cur i A off (length (fst blk)) s"
proof -
  let ?v = "cur + decode_imm26_offset inst"
  have i: "i = (if bit inst 31 then I_BL (decode_imm26_offset inst) else I_B (decode_imm26_offset inst))"
    using assms(1,2) decode_b [of inst] by (simp add: class_defs arch_imm26 split: if_splits)
  have blk: "blk = ([ldr17, if bit inst 31 then blr17 else br17], Some (0, ?v))"
    using assms(1,3) by (simp add: relo_block_def is_BL)
  note run = run_literal_branch [OF assms(4,5), of 0 ?v]
  show ?thesis
  proof (cases "bit inst 31")
    case True
    then have "a64_run 2 s = Some (goto ?v (wX 30 (pc s + 8) (wX 17 ?v s)))"
      using assms(6,7) blk by (intro run(2)) auto
    then show ?thesis using i blk True assms(6)
      by (auto simp: simulates_def Let_def wX_def goto_def intro!: exI [of _ 2])
  next
    case False
    then have "a64_run 2 s = Some (goto ?v (wX 17 ?v s))"
      using assms(6,7) blk by (intro run(1)) auto
    then show ?thesis using i blk False
      by (auto simp: simulates_def Let_def wX_def goto_def intro!: exI [of _ 2])
  qed
qed

lemma run_mov_block:
  assumes "loaded s A b" "block_in b off blk" "pc s = A + word_of_nat off" "rd < 32"
    and "fst blk = mov_words rd imm @ ws" "snd blk = None"
  shows "a64_run 4 s = Some (wX rd imm (s\<lparr>pc := pc s + 16\<rparr>))"
proof (rule run_mov [OF assms(1,3,4)])
  fix j :: nat assume j: "j < 4"
  have "length (mov_words rd imm) = 4" by (simp add: mov_words_def)
  with assms(2,5,6) j show "LoadInst b (off + 4 * j) = Some (mov_words rd imm ! j)"
    by (auto simp: block_in_def nth_append)
qed

lemma length_mov_words [simp]: "length (mov_words rd imm) = 4"
  by (simp add: mov_words_def)

lemma decode_rd_less: "unat (decode_rd inst) < 32" "unat (decode_rt inst) < 32"
proof -
  have "unat (take_bit 5 inst) < 2 ^ 5" by (simp only: unsigned_take_bit_eq take_bit_nat_less_exp)
  then show "unat (decode_rd inst) < 32" "unat (decode_rt inst) < 32"
    by (simp_all add: decode_rd_def decode_rt_def bits_def submask_eq_mask take_bit_eq_mask)
qed

lemma trunc_page_add:
  assumes "take_bit 12 off = 0"
  shows "arm64_trunc_page (cur + off) = push_bit 12 (drop_bit 12 cur) + off"
proof -
  let ?x = "push_bit 12 (drop_bit 12 cur + drop_bit 12 off)"
  have off: "off = push_bit 12 (drop_bit 12 off)" using bits_ident [of 12 off] assms by simp
  have x: "?x = push_bit 12 (drop_bit 12 cur) + off" by (subst off) (simp only: push_bit_add)
  then have "cur + off = ?x + take_bit 12 cur" using bits_ident [of 12 cur] by (metis add.assoc add.commute)
  also have "\<dots> = ?x OR take_bit 12 cur"
    by (rule disjunctive_add_eq_or) (auto simp: bit_simps intro!: bit_word_eqI)
  finally have "arm64_trunc_page (cur + off) = arm64_trunc_page (?x OR take_bit 12 cur)" by simp
  also have "\<dots> = ?x"
  proof -
    have m: "(0x1000 - 1 :: u64) = mask 12" by code_simp
    show ?thesis unfolding arm64_trunc_page_def m by (rule bit_word_eqI) (auto simp: bit_simps)
  qed
  finally show ?thesis using x by simp
qed

lemma sim_mov:
  assumes "loaded s A b" "block_in b off (mov_words rd v, None)" "pc s = A + word_of_nat off" "rd < 32"
    and "a64_exec i (s\<lparr>pc := cur\<rparr>) = next_pc (wX rd v (s\<lparr>pc := cur\<rparr>))" "\<not> links i" "\<not> jumps i s"
  shows "simulates cur i A off 4 s"
proof -
  have "a64_run 4 s = Some (wX rd v (s\<lparr>pc := pc s + 16\<rparr>))"
    using run_mov_block [OF assms(1-4), of v "[]"] by simp
  then show ?thesis using assms(3,5-7)
    by (auto simp: simulates_def Let_def wX_def next_pc_def algebra_simps intro!: exI [of _ 4])
qed

lemma sim_adr:
  assumes "inst_is_adr inst" "a64_decode inst = Some i" "relo_block cur inst = Some blk"
    and "loaded s A b" "block_in b off blk" "pc s = A + word_of_nat off"
  shows "simulates cur i A off (length (fst blk)) s"
proof -
  have c: "inst AND 0x9F000000 = 0x10000000" using assms(1) by (simp add: class_defs)
  have "\<not> inst_is_b_bl inst" "\<not> inst_is_ldr_literal inst"
    by (simp_all add: class_defs and_mask_neq [OF c])
  then have blk: "blk = (mov_words (unat (decode_rd inst)) (cur + decode_immhi_immlo_offset inst), None)"
    using assms(1,3) by (simp add: relo_block_def)
  have i: "i = I_ADR (unat (decode_rd inst)) (decode_immhi_immlo_offset inst)"
    using assms(2) decode_adr [OF c] by (simp add: arch_adr arch_rt(2))
  show ?thesis using sim_mov [OF assms(4) _ assms(6) decode_rd_less(1)] assms(5) blk i by simp
qed

lemma sim_adrp:
  assumes "inst_is_adrp inst" "a64_decode inst = Some i" "relo_block cur inst = Some blk"
    and "loaded s A b" "block_in b off blk" "pc s = A + word_of_nat off"
  shows "simulates cur i A off (length (fst blk)) s"
proof -
  have c: "inst AND 0x9F000000 = 0x90000000" using assms(1) by (simp add: class_defs)
  have "\<not> inst_is_b_bl inst" "\<not> inst_is_ldr_literal inst" "\<not> inst_is_adr inst"
    by (simp_all add: class_defs and_mask_neq [OF c])
  then have blk: "blk = (mov_words (unat (decode_rd inst))
      (push_bit 12 (drop_bit 12 cur) + decode_immhi_immlo_zero12_offset inst), None)"
    using assms(1,3) by (simp add: relo_block_def trunc_page_add adrp33.decode_aligned)
  have i: "i = I_ADRP (unat (decode_rd inst)) (decode_immhi_immlo_zero12_offset inst)"
    using assms(2) decode_adrp [OF c] by (simp add: arch_adrp arch_rt(2))
  show ?thesis using sim_mov [OF assms(4) _ assms(6) decode_rd_less(1)] assms(5) blk i by simp
qed

lemma a64_run_add: "a64_run m s = Some s' \<Longrightarrow> a64_run (m + n) s = a64_run n s'"
  by (induction m arbitrary: s) (auto split: Option.bind_splits)

lemma decode_ldr_x17: "rt < 32 \<Longrightarrow> a64_decode (ldr_x17 rt) = Some (I_LDR rt 17 0)"
proof -
  have "list_all (\<lambda>r. a64_decode (ldr_x17 r) = Some (I_LDR r 17 0)) [0..<32]" by code_simp
  then show "rt < 32 \<Longrightarrow> ?thesis" by (simp only: list_all_iff set_upt atLeastLessThan_iff) simp
qed

lemma sim_ldr_literal:
  assumes "inst_is_ldr_literal inst" "a64_decode inst = Some i" "relo_supported i" "relo_block cur inst = Some blk"
    and "loaded s A b" "block_in b off blk" "pc s = A + word_of_nat off"
  shows "simulates cur i A off (length (fst blk)) s"
proof -
  let ?rt = "unat (decode_rt inst)" and ?v = "cur + decode_imm19_offset inst"
  have c: "inst AND 0x3B000000 = 0x18000000" using assms(1) by (simp add: class_defs)
  have nb: "\<not> inst_is_b_bl inst" by (simp add: class_defs and_mask_neq [OF c])
  have i: "i = I_LDRlit 8 ?rt (decode_imm19_offset inst)"
    using assms(2,3) by (auto simp: a64_decode_def and_mask_neq [OF c] c Let_def arch_imm19 arch_rt(1) split: if_splits)
  have blk: "blk = (mov_words 17 ?v @ [ldr_x17 ?rt], None)"
    using assms(1,4) nb by (simp add: relo_block_def split: if_splits)
  have r1: "a64_run 4 s = Some (wX 17 ?v (s\<lparr>pc := pc s + 16\<rparr>))" (is "_ = Some ?s1")
    using run_mov_block [OF assms(5,6,7), of 17 ?v "[ldr_x17 ?rt]"] blk by simp
  have "a64_step ?s1 = Some (a64_exec (I_LDR ?rt 17 0) ?s1)"
  proof (rule step_word [OF _ assms(6), of _ _ 4])
    show "loaded ?s1 A b" using assms(5) by (simp add: loaded_def)
    show "a64_decode (fst blk ! 4) = Some (I_LDR ?rt 17 0)"
      using blk decode_ldr_x17 [OF decode_rd_less(2)] by (simp add: nth_append)
  qed (use blk assms(7) in \<open>simp_all add: algebra_simps\<close>)
  then have "a64_run (4 + 1) s = Some (a64_exec (I_LDR ?rt 17 0) ?s1)"
    using a64_run_add [OF r1, of 1] by simp
  then show ?thesis using i blk assms(7)
    by (auto simp: simulates_def Let_def wX_def rSP_def next_pc_def ld_def algebra_simps intro!: exI [of _ 5])
qed

subsection \<open>Inverted branches\<close>

lemma bit_3: "bit (3 :: int) k \<longleftrightarrow> k \<le> 1"
proof -
  have "(3 :: int) = mask 2" by (simp add: mask_numeral)
  then have "bit (3 :: int) k = bit (mask 2 :: int) k" by (simp only:)
  then show ?thesis by (auto simp: bit_mask_iff)
qed

lemma bit_12: "bit (12 :: int) k \<longleftrightarrow> k = 2 \<or> k = 3"
proof -
  have "bit (12 :: int) k = bit (push_bit 2 3 :: int) k" by simp
  also have "\<dots> \<longleftrightarrow> 2 \<le> k \<and> bit (3 :: int) (k - 2)" by (rule bit_push_bit_iff_int)
  finally show ?thesis by (auto simp: bit_3)
qed

lemma bit_branch_bcond: "k < 32 \<Longrightarrow> bit (relo_b_cond_instr inst) k \<longleftrightarrow>
    (if k \<le> 3 then bit inst k \<noteq> (k = 0) else if 5 \<le> k \<and> k \<le> 23 then k = 5 \<or> k = 6 else bit inst k)"
  by (auto simp: relo_b_cond_instr_def Let_def bit_set_bits bit_bits bit_xor_iff bit_3 bit_1_iff)

lemma bit_set_bit1: "bit (set_bit1 (w :: 'a::len word) n v) k \<longleftrightarrow>
    k < LENGTH('a) \<and> ((k \<noteq> n \<and> bit w k) \<or> (n \<le> k \<and> bit v (k - n)))"
  by (auto simp: set_bit1_def bit_simps dest: bit_imp_le_length)

lemma bit_branch_cb: "k < 32 \<Longrightarrow> bit (relo_compare_b_instr inst) k \<longleftrightarrow>
    (if k = 24 then \<not> bit inst k else if 5 \<le> k \<and> k \<le> 23 then k = 5 \<or> k = 6 else bit inst k)"
  by (auto simp: relo_compare_b_instr_def Let_def bit_set_bits bit_set_bit1 bit_bit1 bit_xor_iff bit_3 bit_1_iff)

lemma bit_branch_tb: "k < 32 \<Longrightarrow> bit (relo_test_b_instr inst) k \<longleftrightarrow>
    (if k = 24 then \<not> bit inst k else if 5 \<le> k \<and> k \<le> 18 then k = 5 \<or> k = 6 else bit inst k)"
  by (auto simp: relo_test_b_instr_def Let_def bit_set_bits bit_set_bit1 bit_bit1 bit_xor_iff bit_3 bit_1_iff)

lemma branch_offset_bcond: "decode_imm19_offset (relo_b_cond_instr inst) = 12"
  by (rule bit_word_eqI) (auto simp: bit_decode_imm19 bit_branch_bcond bit_12 min_def split: if_splits)

lemma branch_offset_cb: "decode_imm19_offset (relo_compare_b_instr inst) = 12"
  by (rule bit_word_eqI) (auto simp: bit_decode_imm19 bit_branch_cb bit_12 min_def split: if_splits)

lemma branch_offset_tb: "decode_imm14_offset (relo_test_b_instr inst) = 12"
  by (rule bit_word_eqI) (auto simp: bit_decode_imm14 bit_branch_tb bit_12 min_def split: if_splits)

lemmas branch_offsets = branch_offset_bcond branch_offset_cb branch_offset_tb

lemma decode_branch_bcond:
  assumes "inst AND 0xFF000010 = 0x54000000"
  shows "a64_decode (relo_b_cond_instr inst) = Some (I_Bcond (fld inst 0 4 XOR 1) 12)"
proof -
  have f: "filter (bit (0xFF000010 :: u32)) [0..<32] = 4 # [24..<32]" by code_simp
  have "relo_b_cond_instr inst AND 0xFF000010 = inst AND 0xFF000010"
    by (rule and_eqI) (auto simp: f bit_branch_bcond)
  moreover have "fld (relo_b_cond_instr inst) 0 4 = fld inst 0 4 XOR 1"
    by (rule bit_word_eqI) (auto simp: bit_fld bit_branch_bcond bit_xor_iff bit_1_iff)
  ultimately show ?thesis using decode_bcond [of "relo_b_cond_instr inst"] assms by (simp add: arch_imm19 branch_offsets)
qed

lemma regfld_cong: "(\<And>k. k < 5 \<Longrightarrow> bit v k = bit w k) \<Longrightarrow> regfld v 0 = regfld w 0"
proof -
  assume "\<And>k. k < 5 \<Longrightarrow> bit v k = bit w k"
  then have "fld v 0 5 = fld w 0 5" by (intro bit_word_eqI) (auto simp: bit_fld)
  then show ?thesis by (simp add: regfld_def)
qed

lemma decode_branch_cb:
  assumes "inst AND 0x7E000000 = 0x34000000"
  shows "a64_decode (relo_compare_b_instr inst) = Some (I_CB (\<not> bit inst 24) (bit inst 31) (regfld inst 0) 12)"
proof -
  have f: "filter (bit (0x7E000000 :: u32)) [0..<32] = [25..<31]" by code_simp
  have "relo_compare_b_instr inst AND 0x7E000000 = inst AND 0x7E000000"
    by (rule and_eqI) (auto simp: f bit_branch_cb)
  moreover have "regfld (relo_compare_b_instr inst) 0 = regfld inst 0"
    by (rule regfld_cong) (simp add: bit_branch_cb)
  ultimately show ?thesis using decode_cb [of "relo_compare_b_instr inst"] assms
    by (simp add: arch_imm19 branch_offsets bit_branch_cb)
qed

lemma decode_branch_tb:
  assumes "inst AND 0x7E000000 = 0x36000000"
  shows "a64_decode (relo_test_b_instr inst) =
    Some (I_TB (\<not> bit inst 24) (unat (fld inst 19 5) + (if bit inst 31 then 32 else 0)) (regfld inst 0) 12)"
proof -
  have f: "filter (bit (0x7E000000 :: u32)) [0..<32] = [25..<31]" by code_simp
  have "relo_test_b_instr inst AND 0x7E000000 = inst AND 0x7E000000"
    by (rule and_eqI) (auto simp: f bit_branch_tb)
  moreover have "regfld (relo_test_b_instr inst) 0 = regfld inst 0"
    by (rule regfld_cong) (simp add: bit_branch_tb)
  moreover have "fld (relo_test_b_instr inst) 19 5 = fld inst 19 5"
    by (rule bit_word_eqI) (auto simp: bit_fld bit_branch_tb)
  ultimately show ?thesis using decode_tb [of "relo_test_b_instr inst"] assms
    by (simp add: arch_imm14 branch_offsets bit_branch_tb)
qed

text \<open>An inverted branch over the literal branch simulates the original conditional branch.\<close>

lemma sim_branch_over:
  assumes "loaded s A b" "block_in b off ([w, ldr17, br17], Some (1, v))" "pc s = A + word_of_nat off"
      "length b < 2 ^ 20" "a64_decode w = Some i'"
    and "a64_exec i' s = (if jumps i s then next_pc s else goto (pc s + 12) s)"
    and "a64_exec i (s\<lparr>pc := cur\<rparr>) = (if jumps i s then goto v (s\<lparr>pc := cur\<rparr>) else next_pc (s\<lparr>pc := cur\<rparr>))" "\<not> links i"
  shows "simulates cur i A off 3 s"
proof -
  have st: "a64_step s = Some (a64_exec i' s)"
    using assms(3,5) by (intro step_word [OF assms(1,2), of 0]) auto
  show ?thesis
  proof (cases "jumps i s")
    case True
    have "a64_run 2 (next_pc s) = Some (goto v (wX 17 v (next_pc s)))"
      using run_literal_branch(1) [OF _ assms(2), of "next_pc s" A 1 v] assms(1,3,4)
      by (simp add: algebra_simps)
    then have "a64_run 3 s = Some (goto v (wX 17 v (next_pc s)))"
      using st True assms(6) by (simp add: numeral_eq_Suc)
    then show ?thesis using True assms(7,8)
      by (auto simp: simulates_def Let_def wX_def goto_def next_pc_def intro!: exI [of _ 3])
  next
    case False
    then have "a64_run 1 s = Some (goto (pc s + 12) s)" using st assms(6) by simp
    then show ?thesis using False assms(3,7,8)
      by (auto simp: simulates_def Let_def goto_def next_pc_def algebra_simps intro!: exI [of _ "1::nat"])
  qed
qed

lemma rX_pc [simp]: "rX (s\<lparr>pc := c\<rparr>) r = rX s r" "rSP (s\<lparr>pc := c\<rparr>) r = rSP s r"
  by (simp_all add: rX_def rSP_def)

lemma sim_b_cond:
  assumes "inst_is_b_cond inst" "a64_decode inst = Some i" "relo_supported i" "relo_block cur inst = Some blk"
    and "loaded s A b" "block_in b off blk" "pc s = A + word_of_nat off" "length b < 2 ^ 20"
  shows "simulates cur i A off (length (fst blk)) s"
proof -
  have c: "inst AND 0xFE000000 = 0x54000000" using assms(1) by (simp add: class_defs)
  have cls: "inst AND 0xFF000010 = 0x54000000"
    using assms(2) by (auto simp: a64_decode_def and_mask_neq [OF c] Let_def split: if_splits)
  have i: "i = I_Bcond (fld inst 0 4) (decode_imm19_offset inst)"
    using assms(2) decode_bcond [OF cls] by (simp add: arch_imm19)
  have "\<not> inst_is_b_bl inst" "\<not> inst_is_ldr_literal inst" "\<not> inst_is_adr inst" "\<not> inst_is_adrp inst"
    by (simp_all add: class_defs and_mask_neq [OF c])
  then have blk: "blk = ([relo_b_cond_instr inst, ldr17, br17], Some (1, cur + decode_imm19_offset inst))"
    using assms(1,4) by (simp add: relo_block_def)
  have "cond_holds (nzcv s) (fld inst 0 4 XOR 1) \<longleftrightarrow> \<not> cond_holds (nzcv s) (fld inst 0 4)"
    using assms(3) i by (intro cond_holds_invert) simp
  then have "simulates cur i A off 3 s"
    by (intro sim_branch_over [OF assms(5) assms(6) [unfolded blk] assms(7,8) decode_branch_bcond [OF cls]])
      (simp_all add: i)
  then show ?thesis by (simp add: blk numeral_3_eq_3)
qed

lemma sim_compare_b:
  assumes "inst_is_compare_b inst" "a64_decode inst = Some i" "relo_block cur inst = Some blk"
    and "loaded s A b" "block_in b off blk" "pc s = A + word_of_nat off" "length b < 2 ^ 20"
  shows "simulates cur i A off (length (fst blk)) s"
proof -
  have c: "inst AND 0x7E000000 = 0x34000000" using assms(1) by (simp add: class_defs)
  have i: "i = I_CB (bit inst 24) (bit inst 31) (regfld inst 0) (decode_imm19_offset inst)"
    using assms(2) decode_cb [OF c] by (simp add: arch_imm19)
  have "\<not> inst_is_b_bl inst" "\<not> inst_is_ldr_literal inst" "\<not> inst_is_adr inst" "\<not> inst_is_adrp inst"
    "\<not> inst_is_b_cond inst"
    by (simp_all add: class_defs and_mask_neq [OF c])
  then have blk: "blk = ([relo_compare_b_instr inst, ldr17, br17], Some (1, cur + decode_imm19_offset inst))"
    using assms(1,3) by (simp add: relo_block_def)
  have "simulates cur i A off 3 s"
    by (rule sim_branch_over [OF assms(4) assms(5) [unfolded blk] assms(6,7) decode_branch_cb [OF c]])
      (simp_all add: i Let_def)
  then show ?thesis by (simp add: blk numeral_3_eq_3)
qed

lemma sim_test_b:
  assumes "inst_is_test_b inst" "a64_decode inst = Some i" "relo_block cur inst = Some blk"
    and "loaded s A b" "block_in b off blk" "pc s = A + word_of_nat off" "length b < 2 ^ 20"
  shows "simulates cur i A off (length (fst blk)) s"
proof -
  have c: "inst AND 0x7E000000 = 0x36000000" using assms(1) by (simp add: class_defs)
  have i: "i = I_TB (bit inst 24) (unat (fld inst 19 5) + (if bit inst 31 then 32 else 0)) (regfld inst 0)
      (decode_imm14_offset inst)"
    using assms(2) decode_tb [OF c] by (simp add: arch_imm14)
  have "\<not> inst_is_b_bl inst" "\<not> inst_is_ldr_literal inst" "\<not> inst_is_adr inst" "\<not> inst_is_adrp inst"
    "\<not> inst_is_b_cond inst" "\<not> inst_is_compare_b inst"
    by (simp_all add: class_defs and_mask_neq [OF c])
  then have blk: "blk = ([relo_test_b_instr inst, ldr17, br17], Some (1, cur + decode_imm14_offset inst))"
    using assms(1,3) by (simp add: relo_block_def)
  have "simulates cur i A off 3 s"
    by (rule sim_branch_over [OF assms(4) assms(5) [unfolded blk] assms(6,7) decode_branch_tb [OF c]])
      (simp_all add: i)
  then show ?thesis by (simp add: blk numeral_3_eq_3)
qed

subsection \<open>Copied instructions\<close>

fun pc_relative :: "a64_instr \<Rightarrow> bool" where
  "pc_relative (I_B _) = True" | "pc_relative (I_BL _) = True" | "pc_relative (I_Bcond _ _) = True"
| "pc_relative (I_CB _ _ _ _) = True" | "pc_relative (I_TB _ _ _ _) = True" | "pc_relative (I_LDRlit _ _ _) = True"
| "pc_relative (I_LDRSWlit _ _) = True" | "pc_relative (I_LDRlitV _ _ _) = True"
| "pc_relative (I_ADR _ _) = True" | "pc_relative (I_ADRP _ _) = True" | "pc_relative _ = False"

lemma unclassified_not_pc_relative:
  assumes "a64_decode inst = Some i" "\<not> inst_is_b_bl inst" "\<not> inst_is_ldr_literal inst" "\<not> inst_is_adr inst"
    "\<not> inst_is_adrp inst" "\<not> inst_is_b_cond inst" "\<not> inst_is_compare_b inst" "\<not> inst_is_test_b inst"
  shows "\<not> pc_relative i"
proof -
  have "inst AND 0xFF000010 \<noteq> 0x54000000"
  proof
    assume "inst AND 0xFF000010 = 0x54000000"
    then have "inst AND 0xFE000000 = 0x54000000 AND 0xFE000000" by (rule and_submask) simp
    with assms(6) show False by (simp add: class_defs)
  qed
  moreover have "inst AND 0x9F000000 \<noteq> 0x10000000" "inst AND 0x9F000000 \<noteq> 0x90000000"
    using assms(4,5) and_submask [of inst "0x9F000000" _ "0x1F000000"] by (auto simp: class_defs)
  ultimately show ?thesis using assms(1-3,7,8)
    by (auto simp: a64_decode_def class_defs Let_def split: if_splits)
qed

lemma ld_pc [simp]: "ld n (s\<lparr>pc := c\<rparr>) = ld n s"
  by (simp add: ld_def fun_eq_iff)

lemmas state_defs = wX_def wSP_def goto_def next_pc_def st_def

lemma exec_pc_indep_mem: "\<not> pc_relative i \<Longrightarrow> mem (a64_exec i (s\<lparr>pc := c\<rparr>)) = mem (a64_exec i s)"
  by (cases i) (simp_all add: state_defs cong: if_cong)

lemma exec_pc_indep_sp: "\<not> pc_relative i \<Longrightarrow> sp (a64_exec i (s\<lparr>pc := c\<rparr>)) = sp (a64_exec i s)"
  by (cases i) (simp_all add: state_defs)

lemma exec_pc_indep_vreg: "\<not> pc_relative i \<Longrightarrow> vreg (a64_exec i (s\<lparr>pc := c\<rparr>)) = vreg (a64_exec i s)"
  by (cases i) (simp_all add: state_defs)

lemma exec_pc_indep_nzcv: "\<not> pc_relative i \<Longrightarrow> nzcv (a64_exec i (s\<lparr>pc := c\<rparr>)) = nzcv (a64_exec i s)"
  by (cases i) (simp_all add: state_defs)

lemma exec_pc_indep_gpr:
  "\<not> pc_relative i \<Longrightarrow> r \<noteq> 30 \<Longrightarrow> gpr (a64_exec i (s\<lparr>pc := c\<rparr>)) r = gpr (a64_exec i s) r"
  by (cases i) (simp_all add: state_defs)

lemma exec_pc_indep_lr:
  "\<not> pc_relative i \<Longrightarrow> gpr (a64_exec i s) 30 = (if links i then pc s + 4 else gpr (a64_exec i (s\<lparr>pc := c\<rparr>)) 30)"
  by (cases i) (simp_all add: state_defs)

lemma exec_pc_indep_pc:
  "\<not> pc_relative i \<Longrightarrow> pc (a64_exec i s) = (if jumps i s then pc (a64_exec i (s\<lparr>pc := c\<rparr>)) else pc s + 4)"
  by (cases i) (simp_all add: state_defs)

lemma sim_copy:
  assumes "\<not> pc_relative i" "a64_decode inst = Some i" "loaded s A b" "block_in b off ([inst], None)"
    "pc s = A + word_of_nat off"
  shows "simulates cur i A off 1 s"
proof -
  have "a64_run 1 s = Some (a64_exec i s)"
    using step_word [OF assms(3,4), of 0 i] assms(2,5) by simp
  moreover have "A + word_of_nat (off + 4 * 1) = pc s + 4" using assms(5) by (simp add: algebra_simps)
  moreover have "\<forall>r. r \<noteq> 17 \<and> r \<noteq> 30 \<longrightarrow> gpr (a64_exec i s) r = gpr (a64_exec i (s\<lparr>pc := cur\<rparr>)) r"
    using exec_pc_indep_gpr [OF assms(1)] by simp
  ultimately show ?thesis unfolding simulates_def Let_def
    using exec_pc_indep_lr [OF assms(1), of s cur] exec_pc_indep_pc [OF assms(1), of s cur] assms(1)
    by (intro exI [of _ "1 :: nat"] exI [of _ "a64_exec i s"])
      (simp only: exec_pc_indep_mem exec_pc_indep_sp exec_pc_indep_vreg exec_pc_indep_nzcv simp_thms)
qed

text \<open>Every case of the relocator.\<close>

lemma sim_block:
  assumes "a64_decode inst = Some i" "relo_supported i" "relo_block cur inst = Some blk"
    and "loaded s A b" "block_in b off blk" "pc s = A + word_of_nat off" "length b < 2 ^ 20"
  shows "simulates cur i A off (length (fst blk)) s"
proof -
  consider "inst_is_b_bl inst" | "inst_is_ldr_literal inst" | "inst_is_adr inst" | "inst_is_adrp inst"
    | "inst_is_b_cond inst" | "inst_is_compare_b inst" | "inst_is_test_b inst"
    | "\<not> inst_is_b_bl inst" "\<not> inst_is_ldr_literal inst" "\<not> inst_is_adr inst" "\<not> inst_is_adrp inst"
      "\<not> inst_is_b_cond inst" "\<not> inst_is_compare_b inst" "\<not> inst_is_test_b inst"
    by blast
  then show ?thesis
  proof cases
    case 1
    then show ?thesis by (rule sim_b [OF _ assms(1,3-7)])
  next
    case 2
    then show ?thesis by (rule sim_ldr_literal [OF _ assms(1-6)])
  next
    case 3
    then show ?thesis by (rule sim_adr [OF _ assms(1,3-6)])
  next
    case 4
    then show ?thesis by (rule sim_adrp [OF _ assms(1,3-6)])
  next
    case 5
    then show ?thesis by (rule sim_b_cond [OF _ assms(1-7)])
  next
    case 6
    then show ?thesis by (rule sim_compare_b [OF _ assms(1,3-7)])
  next
    case 7
    then show ?thesis by (rule sim_test_b [OF _ assms(1,3-7)])
  next
    case 8
    then have "blk = ([inst], None)" using assms(3) by (simp add: relo_block_def)
    then show ?thesis using sim_copy [OF unclassified_not_pc_relative [OF assms(1) 8] assms(1,4)] assms(5,6) by simp
  qed
qed

subsection \<open>The loop emits one block per instruction\<close>

lemma relo_block_ok: "relo_block cur inst = Some blk \<Longrightarrow> blk_ok blk"
  by (auto simp: relo_block_def blk_ok_def split: if_splits)

definition block_off :: "assembler \<Rightarrow> block list \<Rightarrow> nat \<Rightarrow> nat" where
  "block_off a bs k = length (asm_buffer (foldl emit_block a (take k bs)))"

lemma block_off_0 [simp]: "block_off a bs 0 = length (asm_buffer a)"
  by (simp add: block_off_def)

lemma block_off_Cons_Suc [simp]: "block_off a (b # bs) (Suc k) = block_off (emit_block a b) bs k"
  by (simp add: block_off_def)

lemma block_off_Suc: "k < length bs \<Longrightarrow> block_off a bs (Suc k) = block_off a bs k + 4 * length (fst (bs ! k))"
  by (simp add: block_off_def buffer_blocks take_Suc_conv_app_nth emit_block_def split: option.splits)

lemma relo_loop_blocks:
  assumes "relo_loop ctx a = Some (ctx', a')"
  shows "\<exists>bs. a' = foldl emit_block a bs \<and> ctx_cursor ctx' = ctx_cursor ctx + 4 * length bs \<and>
     ctx_buffer_size ctx \<le> ctx_cursor ctx' \<and>
     relocated_offset_map ctx' = rev (map (\<lambda>k. (ctx_cursor ctx + 4 * k, block_off a bs k)) [0..<length bs]) @ relocated_offset_map ctx \<and>
     (\<forall>k < length bs. ctx_cursor ctx + 4 * k < ctx_buffer_size ctx \<and>
        (\<exists>inst. LoadInst (ctx_buffer ctx) (ctx_cursor ctx + 4 * k) = Some inst \<and>
           relo_block (ctx_src_vmaddr ctx + word_of_nat (ctx_cursor ctx + 4 * k)) inst = Some (bs ! k)))"
  using assms
proof (induction ctx a rule: relo_loop.induct)
  case (1 ctx a)
  show ?case
  proof (cases "ctx_cursor ctx < ctx_buffer_size ctx")
    case False
    with "1.prems" show ?thesis by (intro exI [of _ "[]"]) (simp add: relo_loop.simps)
  next
    case True
    let ?c = "ctx_cursor ctx"
    let ?ctx1 = "ctx\<lparr>relocated_offset_map := (?c, GetBufferSize (asm_buffer a)) # relocated_offset_map ctx\<rparr>"
    obtain inst a1 where inst: "LoadInst (ctx_buffer ctx) ?c = Some inst"
      and a1: "relo_insn (relo_cur_src_vmaddr ctx) inst a = Some a1"
      and rest: "relo_loop (?ctx1\<lparr>ctx_cursor := ?c + 4\<rparr>) a1 = Some (ctx', a')"
      using True "1.prems" by (auto simp: relo_loop.simps [of ctx a] Let_def split: option.splits)
    obtain blk where blk: "relo_block (ctx_src_vmaddr ctx + word_of_nat ?c) inst = Some blk" "a1 = emit_block a blk"
      using a1 by (auto simp: relo_insn_block relo_cur_src_vmaddr_def)
    from "1.IH" [OF True refl inst a1 rest] obtain bs where
      bs: "a' = foldl emit_block a1 bs" "ctx_cursor ctx' = ?c + 4 + 4 * length bs" "ctx_buffer_size ctx \<le> ctx_cursor ctx'"
       "relocated_offset_map ctx' = rev (map (\<lambda>k. (?c + 4 + 4 * k, block_off a1 bs k)) [0..<length bs]) @
          (?c, length (asm_buffer a)) # relocated_offset_map ctx"
       "\<forall>k < length bs. ?c + 4 + 4 * k < ctx_buffer_size ctx \<and>
          (\<exists>inst. LoadInst (ctx_buffer ctx) (?c + 4 + 4 * k) = Some inst \<and>
            relo_block (ctx_src_vmaddr ctx + word_of_nat (?c + 4 + 4 * k)) inst = Some (bs ! k))"
      by (auto simp: GetBufferSize_def simp del: of_nat_add of_nat_mult)
    have shift: "?c + 4 * Suc k = ?c + 4 + 4 * k" for k by simp
    have "relocated_offset_map ctx' = rev (map (\<lambda>k. (?c + 4 * k, block_off a (blk # bs) k)) [0..<length (blk # bs)]) @
        relocated_offset_map ctx"
      using bs(4) blk(2) by (simp add: upt_conv_Cons map_Suc_upt [symmetric] o_def del: upt_Suc)
    moreover have "?c + 4 * k < ctx_buffer_size ctx \<and> (\<exists>inst. LoadInst (ctx_buffer ctx) (?c + 4 * k) = Some inst \<and>
           relo_block (ctx_src_vmaddr ctx + word_of_nat (?c + 4 * k)) inst = Some ((blk # bs) ! k))"
      if "k < length (blk # bs)" for k
      using that bs(5) True inst blk(1) by (cases k) (simp_all only: shift nth_Cons_Suc, auto)
    ultimately show ?thesis using bs(1-3) blk(2) by (intro exI [of _ "blk # bs"]) simp
  qed
qed

lemma block_in_final:
  assumes "\<forall>b \<in> set bs. blk_ok b" "k < length bs"
    and "RelocBind arm64_link_confused_instructions (foldl emit_block (AssemblerBase 0) bs) = Some a'"
  shows "block_in (asm_buffer a') (block_off (AssemblerBase 0) bs k) (bs ! k)"
proof -
  let ?a0 = "AssemblerBase 0"
  have bs: "bs = take k bs @ bs ! k # drop (Suc k) bs" using assms(2) by (rule id_take_nth_drop)
  have ok: "\<forall>b \<in> set (take k bs @ bs ! k # drop (Suc k) bs). blk_ok b" using assms(1) bs by simp
  have rb: "RelocBind arm64_link_confused_instructions (foldl emit_block ?a0 (take k bs @ bs ! k # drop (Suc k) bs)) = Some a'"
    using assms(3) bs by simp
  note at = block_at [OF pool_inv_init ok rb]
  have "length (asm_buffer (foldl emit_block ?a0 bs)) \<le> length (asm_buffer a')"
    using RelocBind_pool [OF pool_inv_blocks [OF pool_inv_init [of 0] assms(1)]] assms(3) by fastforce
  moreover have "length (asm_buffer (foldl emit_block ?a0 bs)) =
      block_off ?a0 bs k + 4 * length (fst (bs ! k)) + 4 * length (concat (map fst (drop (Suc k) bs)))"
    by (subst bs) (simp add: buffer_blocks block_off_def emit_block_def split: option.splits)
  ultimately show ?thesis unfolding block_in_def block_off_def using at by auto
qed

lemma relocate_blocks:
  assumes "relo_relocate ctx org br = Some (ctx', n, a)" "ctx_cursor ctx = 0" "relocated_offset_map ctx = []"
  defines "tail \<equiv> \<lambda>n. if br then [([ldr17, br17], Some (0, org + word_of_nat n))] else []"
  shows "\<exists>bs. RelocBind arm64_link_confused_instructions (foldl emit_block (AssemblerBase 0) (bs @ tail n)) = Some a \<and>
     (\<forall>b \<in> set (bs @ tail n). blk_ok b) \<and> n = 4 * length bs \<and> ctx_buffer_size ctx \<le> n \<and>
     relocated_offset_map ctx' = rev (map (\<lambda>k. (4 * k, block_off (AssemblerBase 0) bs k)) [0..<length bs]) \<and>
     (\<forall>k < length bs. 4 * k < ctx_buffer_size ctx \<and>
        (\<exists>inst. LoadInst (ctx_buffer ctx) (4 * k) = Some inst \<and>
           relo_block (ctx_src_vmaddr ctx + word_of_nat (4 * k)) inst = Some (bs ! k)))"
proof -
  obtain a1 where l: "relo_loop ctx (AssemblerBase 0) = Some (ctx', a1)" and n: "n = ctx_cursor ctx'"
    and b: "RelocBind arm64_link_confused_instructions
       (if br then emit_block a1 ([ldr17, br17], Some (0, org + word_of_nat n)) else a1) = Some a"
    using assms(1) by (cases br) (auto simp: relo_relocate_def Let_def LiteralLdrBranch_block split: option.splits)
  from relo_loop_blocks [OF l] assms(2,3) obtain bs where bs: "a1 = foldl emit_block (AssemblerBase 0) bs"
    "n = 4 * length bs" "ctx_buffer_size ctx \<le> n"
    "relocated_offset_map ctx' = rev (map (\<lambda>k. (4 * k, block_off (AssemblerBase 0) bs k)) [0..<length bs])"
    "\<forall>k < length bs. 4 * k < ctx_buffer_size ctx \<and>
        (\<exists>inst. LoadInst (ctx_buffer ctx) (4 * k) = Some inst \<and>
           relo_block (ctx_src_vmaddr ctx + word_of_nat (4 * k)) inst = Some (bs ! k))"
    by (auto simp: n simp del: of_nat_mult)
  have "\<forall>b \<in> set bs. blk_ok b" using bs(5) relo_block_ok by (metis in_set_conv_nth)
  then have "\<forall>b \<in> set (bs @ tail n). blk_ok b" by (auto simp: tail_def blk_ok_def)
  moreover have "RelocBind arm64_link_confused_instructions (foldl emit_block (AssemblerBase 0) (bs @ tail n)) = Some a"
    using b bs(1) by (auto simp: tail_def split: if_splits)
  ultimately show ?thesis using bs(2-5) by blast
qed

lemma map_of_offsets: "k < m \<Longrightarrow> map_of (rev (map (\<lambda>k. (4 * k, f k)) [0..<m])) (4 * k) = Some (f (k :: nat) :: nat)"
proof -
  assume "k < m"
  then have "(4 * k, f k) \<in> set (rev (map (\<lambda>k. (4 * k, f k)) [0..<m]))" by auto
  moreover have "distinct (map fst (rev (map (\<lambda>k. (4 * k, f k)) [0..<m])))"
    by (auto simp: rev_map [symmetric] distinct_map inj_on_def o_def)
  ultimately show ?thesis by simp
qed

lemma block_off_append: "k \<le> length bs \<Longrightarrow> block_off a (bs @ cs) k = block_off a bs k"
  by (simp add: block_off_def)

lemma relocate_code:
  assumes "relo_relocate ctx org br = Some (ctx', n, a)" "ctx_cursor ctx = 0" "relocated_offset_map ctx = []"
    and "length (asm_buffer a) < 2 ^ 20"
  shows "\<exists>off m. (br \<longrightarrow> asm_buffer a \<noteq> []) \<and> off 0 = 0 \<and> n mod 4 = 0 \<and> ctx_buffer_size ctx \<le> n \<and> n < ctx_buffer_size ctx + 4 \<and>
     (\<forall>k < n div 4. map_of (relocated_offset_map ctx') (4 * k) = Some (off k) \<and> off (Suc k) = off k + 4 * m k \<and>
        (\<forall>inst i s A. LoadInst (ctx_buffer ctx) (4 * k) = Some inst \<and> a64_decode inst = Some i \<and> relo_supported i \<and>
           loaded s A (asm_buffer a) \<and> pc s = A + word_of_nat (off k) \<longrightarrow>
           simulates (ctx_src_vmaddr ctx + word_of_nat (4 * k)) i A (off k) (m k) s)) \<and>
     (\<forall>s A. br \<and> loaded s A (asm_buffer a) \<and> pc s = A + word_of_nat (off (n div 4)) \<longrightarrow>
        a64_run 2 s = Some (goto (org + word_of_nat n) (wX 17 (org + word_of_nat n) s)))"
proof -
  define tail where "tail = (if br then [([ldr17, br17], Some (0, org + word_of_nat n))] else [] :: block list)"
  obtain bs where bs: "RelocBind arm64_link_confused_instructions (foldl emit_block (AssemblerBase 0) (bs @ tail)) = Some a"
     "\<forall>b \<in> set (bs @ tail). blk_ok b" "n = 4 * length bs" "ctx_buffer_size ctx \<le> n"
     "relocated_offset_map ctx' = rev (map (\<lambda>k. (4 * k, block_off (AssemblerBase 0) bs k)) [0..<length bs])"
     "\<forall>k < length bs. 4 * k < ctx_buffer_size ctx \<and>
        (\<exists>inst. LoadInst (ctx_buffer ctx) (4 * k) = Some inst \<and>
           relo_block (ctx_src_vmaddr ctx + word_of_nat (4 * k)) inst = Some (bs ! k))"
    using relocate_blocks [OF assms(1-3)] unfolding tail_def by blast
  let ?off = "block_off (AssemblerBase 0) bs" and ?m = "\<lambda>k. length (fst (bs ! k))"
  have bi: "block_in (asm_buffer a) (?off k) ((bs @ tail) ! k)" if "k < length (bs @ tail)" for k
    using block_in_final [OF bs(2) that bs(1)] that by (cases "k < length bs") (auto simp: block_off_append tail_def split: if_splits)
  have n: "n < ctx_buffer_size ctx + 4"
  proof (cases "length bs")
    case (Suc j)
    then have "4 * j < ctx_buffer_size ctx" using bs(6) by simp
    then show ?thesis using bs(3) Suc by simp
  qed (use bs(3) in simp)
  have sim: "simulates (ctx_src_vmaddr ctx + word_of_nat (4 * k)) i A (?off k) (?m k) s"
    if "k < length bs" "LoadInst (ctx_buffer ctx) (4 * k) = Some inst" "a64_decode inst = Some i" "relo_supported i"
      "loaded s A (asm_buffer a)" "pc s = A + word_of_nat (?off k)" for k inst i s A
    using sim_block [OF that(3,4) _ that(5) bi [of k] that(6) assms(4)] that(1,2) bs(6) by (auto simp: nth_append)
  have last: "block_in (asm_buffer a) (?off (length bs)) ([ldr17, br17], Some (0, org + word_of_nat n))" if br
    using bi [of "length bs"] that by (simp add: tail_def)
  have "a64_run 2 s = Some (goto (org + word_of_nat n) (wX 17 (org + word_of_nat n) s))"
    if br "loaded s A (asm_buffer a)" "pc s = A + word_of_nat (?off (length bs))" for s A
    using run_literal_branch(1) [OF that(2) last [OF that(1)], of 0 "org + word_of_nat n"] that(3) assms(4) by simp
  moreover have "?off 0 = 0" by (simp add: AssemblerBase_def)
  moreover have "br \<longrightarrow> asm_buffer a \<noteq> []" using last by (auto simp: block_in_def LoadInst_def)
  ultimately show ?thesis
    using sim n bs(3,4) map_of_offsets [of _ "length bs" ?off] block_off_Suc [of _ bs]
    by (intro exI [of _ ?off] exI [of _ ?m]) (auto simp: bs(5))
qed

subsection \<open>Properties\<close>

text \<open>
  C4: Relocated ARM64 code simulates the original. If the relocator succeeds, then for every
  instruction of the relocated region that it supports, wherever the code is placed (at \<open>A\<close>, less than
  1 MiB of code and literals), running the relocated code from the offset recorded in
  \<^verbatim>\<open>relocated_offset_map\<close> has the effect of the original instruction at its original address:
  same registers (but x17), memory and flags, same absolute branch target, and when the instruction does
  not branch, execution continues at the code of the next instruction.
\<close>
theorem arm64_relocate_simulates:
  assumes "relo_relocate ctx org br = Some (ctx', n, a)" "ctx_cursor ctx = 0" "relocated_offset_map ctx = []"
    and "4 * k < ctx_buffer_size ctx" "LoadInst (ctx_buffer ctx) (4 * k) = Some inst"
    and "a64_decode inst = Some i" "relo_supported i" "length (asm_buffer a) < 2 ^ 20"
  shows "\<exists>off m. map_of (relocated_offset_map ctx') (4 * k) = Some off \<and>
     (4 * Suc k < ctx_buffer_size ctx \<longrightarrow> map_of (relocated_offset_map ctx') (4 * Suc k) = Some (off + 4 * m)) \<and>
     (\<forall>s A. loaded s A (asm_buffer a) \<and> pc s = A + word_of_nat off \<longrightarrow>
        simulates (ctx_src_vmaddr ctx + word_of_nat (4 * k)) i A off m s)"
proof -
  obtain off m where om: "ctx_buffer_size ctx \<le> n" "n mod 4 = 0"
     "\<forall>k < n div 4. map_of (relocated_offset_map ctx') (4 * k) = Some (off k) \<and> off (Suc k) = off k + 4 * m k \<and>
        (\<forall>inst i s A. LoadInst (ctx_buffer ctx) (4 * k) = Some inst \<and> a64_decode inst = Some i \<and> relo_supported i \<and>
           loaded s A (asm_buffer a) \<and> pc s = A + word_of_nat (off k) \<longrightarrow>
           simulates (ctx_src_vmaddr ctx + word_of_nat (4 * k)) i A (off k) (m k) s)"
    using relocate_code [OF assms(1-3,8)] by (elim exE conjE) (rule that; assumption)
  have lt: "4 * j < ctx_buffer_size ctx \<Longrightarrow> j < n div 4" for j
    using om(1,2) by (auto simp: mod_eq_0_iff_dvd elim!: dvdE)
  note k = om(3) [rule_format, OF lt [OF assms(4)]]
  have "map_of (relocated_offset_map ctx') (4 * Suc k) = Some (off k + 4 * m k)" if "4 * Suc k < ctx_buffer_size ctx"
    using om(3) [rule_format, OF lt [OF that]] k by auto
  then show ?thesis using k assms(5-7) by blast
qed

text \<open>A concrete prologue: \<^verbatim>\<open>b .+0x1000; cbz x3, .+8; adrp x0, 0x2000\<close> at 0x1000.\<close>

definition sample_ctx :: relo_ctx where
  "sample_ctx = \<lparr>ctx_buffer = wbytes [0x14000400, 0xB4000043, 0xF0FFFFE0], ctx_cursor = 0, ctx_buffer_size = 12,
     ctx_src_vmaddr = 0x1000, ctx_dst_vmaddr = 0, relocated_offset_map = []\<rparr>"

lemma sample_relocates:
  "case relo_relocate sample_ctx 0x1000 True of Some (ctx', n, a) \<Rightarrow> length (asm_buffer a) \<le> 80 | None \<Rightarrow> False"
  by code_simp

theorem arm64_relocate_simulates_witness:
  "\<exists>ctx' n a off m. relo_relocate sample_ctx 0x1000 True = Some (ctx', n, a) \<and>
     map_of (relocated_offset_map ctx') 4 = Some off \<and>
     (\<forall>s A. loaded s A (asm_buffer a) \<and> pc s = A + word_of_nat off \<longrightarrow>
        simulates 0x1004 (I_CB False True 3 8) A off m s)"
proof -
  obtain ctx' n a where r: "relo_relocate sample_ctx 0x1000 True = Some (ctx', n, a)" "length (asm_buffer a) < 2 ^ 20"
    using sample_relocates by (force split: option.splits prod.splits)
  have c: "ctx_cursor sample_ctx = 0" "relocated_offset_map sample_ctx = []" "4 * 1 < ctx_buffer_size sample_ctx"
    "LoadInst (ctx_buffer sample_ctx) (4 * 1) = Some 0xB4000043" "a64_decode 0xB4000043 = Some (I_CB False True 3 8)"
    "relo_supported (I_CB False True 3 8)" "ctx_src_vmaddr sample_ctx + word_of_nat (4 * 1) = 0x1004"
    by code_simp+
  from arm64_relocate_simulates [OF r(1) c(1-6) r(2)] r(1) c(7) show ?thesis by auto
qed

text \<open>
  C28: With \<^verbatim>\<open>branch\<close> set, the code after the last relocated instruction loads the address of the first
  instruction after the relocated region from the pool and jumps there, changing only x17.
\<close>
theorem arm64_relocate_continues:
  assumes "relo_relocate ctx org True = Some (ctx', n, a)" "ctx_cursor ctx = 0" "relocated_offset_map ctx = []"
    and "0 < ctx_buffer_size ctx" "length (asm_buffer a) < 2 ^ 20"
  shows "\<exists>off. ctx_buffer_size ctx \<le> n \<and> n < ctx_buffer_size ctx + 4 \<and>
     (\<forall>s A. loaded s A (asm_buffer a) \<and> pc s = A + word_of_nat off \<longrightarrow>
        a64_run 2 s = Some (goto (org + word_of_nat n) (wX 17 (org + word_of_nat n) s)))"
  using relocate_code [OF assms(1-3,5)] by blast

theorem arm64_relocate_continues_witness:
  "\<exists>ctx' n a off. relo_relocate sample_ctx 0x1000 True = Some (ctx', n, a) \<and> 12 \<le> n \<and> n < 16 \<and>
     (\<forall>s A. loaded s A (asm_buffer a) \<and> pc s = A + word_of_nat off \<longrightarrow>
        a64_run 2 s = Some (goto (0x1000 + word_of_nat n) (wX 17 (0x1000 + word_of_nat n) s)))"
proof -
  obtain ctx' n a where r: "relo_relocate sample_ctx 0x1000 True = Some (ctx', n, a)" "length (asm_buffer a) < 2 ^ 20"
    using sample_relocates by (force split: option.splits prod.splits)
  have c: "ctx_cursor sample_ctx = 0" "relocated_offset_map sample_ctx = []" "ctx_buffer_size sample_ctx = 12"
    by code_simp+
  from arm64_relocate_continues [OF r(1) c(1,2) _ r(2)] c(3) r(1) show ?thesis by auto
qed

text \<open>The instructions on which the relocator stops in \<^verbatim>\<open>UNIMPLEMENTED()\<close>.\<close>

definition relo_unimplemented :: "u32 \<Rightarrow> bool" where
  "relo_unimplemented inst \<longleftrightarrow> \<not> inst_is_b_bl inst \<and> inst_is_ldr_literal inst \<and> bit inst 31"

lemma opc_hi: "(bits inst 30 31 = 0 \<or> bits inst 30 31 = 1) \<longleftrightarrow> \<not> bit (inst :: u32) 31"
proof
  assume "bits inst 30 31 = 0 \<or> bits inst 30 31 = 1"
  then have "\<not> bit (bits inst 30 31) 1" by auto
  then show "\<not> bit inst 31" by (simp add: bit_bits)
next
  assume n: "\<not> bit inst 31"
  have "bits inst 30 31 = (if bit inst 30 then 1 else 0)"
  proof (rule bit_word_eqI)
    fix k :: nat
    have "k = 0 \<or> k = 1 \<or> 1 < k" by linarith
    then show "bit (bits inst 30 31) k = bit (if bit inst 30 then 1 else 0 :: u32) k"
      using n by (auto simp: bit_bits bit_1_iff)
  qed
  then show "bits inst 30 31 = 0 \<or> bits inst 30 31 = 1" by simp
qed

lemma relo_block_None: "relo_block cur inst = None \<longleftrightarrow> relo_unimplemented inst"
  using opc_hi [of inst] by (auto simp: relo_block_def relo_unimplemented_def)

lemma relo_loop_total:
  assumes "\<And>k. ctx_cursor ctx + 4 * k < ctx_buffer_size ctx \<Longrightarrow>
      \<exists>inst. LoadInst (ctx_buffer ctx) (ctx_cursor ctx + 4 * k) = Some inst \<and> \<not> relo_unimplemented inst"
  shows "relo_loop ctx a \<noteq> None"
  using assms
proof (induction ctx a rule: relo_loop.induct)
  case (1 ctx a)
  show ?case
  proof (cases "ctx_cursor ctx < ctx_buffer_size ctx")
    case True
    then obtain inst where inst: "LoadInst (ctx_buffer ctx) (ctx_cursor ctx) = Some inst" "\<not> relo_unimplemented inst"
      using "1.prems" [of 0] by auto
    then obtain a1 where a1: "relo_insn (relo_cur_src_vmaddr ctx) inst a = Some a1"
      using relo_block_None by (fastforce simp: relo_insn_block)
    let ?ctx = "ctx\<lparr>relocated_offset_map := (ctx_cursor ctx, GetBufferSize (asm_buffer a)) # relocated_offset_map ctx,
       ctx_cursor := ctx_cursor ctx + 4\<rparr>"
    have "relo_loop ?ctx a1 \<noteq> None"
    proof (rule "1.IH" [OF True refl inst(1) a1])
      fix k assume "ctx_cursor ?ctx + 4 * k < ctx_buffer_size ?ctx"
      then show "\<exists>inst. LoadInst (ctx_buffer ?ctx) (ctx_cursor ?ctx + 4 * k) = Some inst \<and> \<not> relo_unimplemented inst"
        using "1.prems" [of "Suc k"] by (simp add: algebra_simps)
    qed
    then show ?thesis using True inst(1) a1 by (simp add: relo_loop.simps [of ctx a] Let_def)
  qed (simp add: relo_loop.simps)
qed

text \<open>
  C26: The relocator terminates and returns a result exactly when every instruction of the region
  can be read from the buffer and none is a literal load that it does not implement (\<^verbatim>\<open>LDRSW\<close>,
  \<^verbatim>\<open>PRFM\<close> and the 128-bit SIMD form); linking the literal pool never fails.
\<close>
theorem arm64_relocate_total:
  assumes "ctx_cursor ctx = 0" "relocated_offset_map ctx = []"
  shows "relo_relocate ctx org br \<noteq> None \<longleftrightarrow>
    (\<forall>k. 4 * k < ctx_buffer_size ctx \<longrightarrow>
       (\<exists>inst. LoadInst (ctx_buffer ctx) (4 * k) = Some inst \<and> \<not> relo_unimplemented inst))"
proof
  assume "relo_relocate ctx org br \<noteq> None"
  then obtain ctx' n a where r: "relo_relocate ctx org br = Some (ctx', n, a)" by auto
  obtain bs where "n = 4 * length bs" "ctx_buffer_size ctx \<le> n"
     "\<forall>k < length bs. \<exists>inst. LoadInst (ctx_buffer ctx) (4 * k) = Some inst \<and>
           relo_block (ctx_src_vmaddr ctx + word_of_nat (4 * k)) inst = Some (bs ! k)"
    using relocate_blocks [OF r assms] by blast
  moreover have "\<not> relo_unimplemented inst" if "relo_block cur inst = Some blk" for cur inst blk
    using that relo_block_None [of cur inst] by auto
  ultimately show "\<forall>k. 4 * k < ctx_buffer_size ctx \<longrightarrow>
       (\<exists>inst. LoadInst (ctx_buffer ctx) (4 * k) = Some inst \<and> \<not> relo_unimplemented inst)"
    by (meson less_le_trans nat_mult_less_cancel1 zero_less_numeral)
next
  assume h: "\<forall>k. 4 * k < ctx_buffer_size ctx \<longrightarrow>
       (\<exists>inst. LoadInst (ctx_buffer ctx) (4 * k) = Some inst \<and> \<not> relo_unimplemented inst)"
  then have "relo_loop ctx (AssemblerBase 0) \<noteq> None" using assms(1) by (intro relo_loop_total) simp
  then obtain ctx' a1 where l: "relo_loop ctx (AssemblerBase 0) = Some (ctx', a1)" by auto
  obtain bs where bs: "a1 = foldl emit_block (AssemblerBase 0) bs" "\<forall>k < length bs. \<exists>cur inst. relo_block cur inst = Some (bs ! k)"
    using relo_loop_blocks [OF l] by blast
  have "pool_inv a1" unfolding bs(1) using bs(2) relo_block_ok
    by (intro pool_inv_blocks pool_inv_init) (metis in_set_conv_nth)
  moreover from this have "pool_inv (emit_block a1 ([ldr17, br17], Some (0, v)))" for v
    by (rule pool_inv_block) (simp add: blk_ok_def)
  ultimately show "relo_relocate ctx org br \<noteq> None"
    using l RelocBind_pool by (fastforce simp: relo_relocate_def Let_def LiteralLdrBranch_block)
qed

theorem arm64_relocate_total_witness:
  "relo_relocate sample_ctx 0x1000 True \<noteq> None \<and>
   relo_relocate (sample_ctx\<lparr>ctx_buffer := wbytes [0x98000040], ctx_buffer_size := 4\<rparr>) 0x1000 True = None"
proof -
  let ?c = "sample_ctx\<lparr>ctx_buffer := wbytes [0x98000040], ctx_buffer_size := 4\<rparr>"
  have c: "ctx_cursor sample_ctx = 0" "relocated_offset_map sample_ctx = []" "ctx_cursor ?c = 0"
    "relocated_offset_map ?c = []" "LoadInst (ctx_buffer ?c) (4 * 0) = Some 0x98000040" "relo_unimplemented 0x98000040"
    "ctx_buffer_size ?c = 4"
    by code_simp+
  have "relo_relocate ?c 0x1000 True = None"
    using arm64_relocate_total [OF c(3,4), of "0x1000" True] c(5-7) by (metis mult_0_right option.inject zero_less_numeral)
  moreover have "relo_relocate sample_ctx 0x1000 True \<noteq> None" using sample_relocates by (auto split: option.splits)
  ultimately show ?thesis by blast
qed

lemma relo_insn_ldr_literal:
  assumes "inst_is_ldr_literal inst" "inst_is_ldr_literal inst'" "\<not> bit inst 31" "\<not> bit inst' 31"
    and "\<And>k. k < 24 \<Longrightarrow> bit inst k = bit inst' k"
  shows "relo_insn cur inst a = relo_insn cur inst' a"
proof -
  have "\<not> inst_is_b_bl w" if "inst_is_ldr_literal w" for w
    using that and_mask_neq [of w "0x3B000000" "0x18000000"] by (simp add: class_defs)
  then have nb: "\<not> inst_is_b_bl inst" "\<not> inst_is_b_bl inst'" using assms(1,2) by auto
  have "decode_imm19_offset inst = decode_imm19_offset inst'"
    using assms(5) by (intro bit_word_eqI) (auto simp: bit_decode_imm19 min_def)
  moreover have "decode_rt inst = decode_rt inst'"
    unfolding decode_rt_def using assms(5) by (intro bit_word_eqI) (auto simp: bit_bits)
  ultimately have "relo_block cur inst = relo_block cur inst'"
    using nb assms opc_hi [of inst] opc_hi [of inst'] by (simp add: relo_block_def)
  then show ?thesis by (simp add: relo_insn_block)
qed

lemma bit_0x40000000: "bit (0x40000000 :: u32) k \<longleftrightarrow> k = 30"
proof -
  have "(0x40000000 :: u32) = push_bit 30 1" by simp
  then have "bit (0x40000000 :: u32) k = bit (push_bit 30 1 :: u32) k" by (simp only:)
  also have "\<dots> \<longleftrightarrow> k = 30" unfolding bit_push_bit_iff bit_1_iff by auto
  finally show ?thesis .
qed

lemma decode_LDRlit_4:
  assumes "a64_decode inst = Some (I_LDRlit 4 rt off)"
  shows "inst AND 0xFF000000 = 0x18000000 \<and> rt = regfld inst 0 \<and> off = decode_imm19_offset inst"
proof -
  have c: "inst AND 0x3B000000 = 0x18000000" "\<not> bit inst 26" "fld inst 30 2 = 0"
    "rt = regfld inst 0" "off = decode_imm19_offset inst"
    using assms by (auto simp: a64_decode_def Let_def arch_imm19 split: if_splits)
  have "\<not> bit inst 30" "\<not> bit inst 31" using arg_cong [OF c(3), of "\<lambda>w. bit w 0"] arg_cong [OF c(3), of "\<lambda>w. bit w 1"]
    by (simp_all add: bit_fld)
  moreover have f: "filter (bit (0xFF000000 :: u32)) [0..<32] = [24, 25, 26, 27, 28, 29, 30, 31]" by code_simp
  ultimately have "inst AND 0xFF000000 = 0x18000000 AND 0xFF000000"
    using c(2) and_mask_bit [OF c(1), of 24] and_mask_bit [OF c(1), of 25] and_mask_bit [OF c(1), of 27]
      and_mask_bit [OF c(1), of 28] and_mask_bit [OF c(1), of 29]
    by (intro and_eqI) auto
  then show ?thesis using c by simp
qed

text \<open>
  The width of a literal load is lost. A 32-bit \<^verbatim>\<open>LDR Wt, label\<close> is relocated to the very code of
  the 64-bit \<^verbatim>\<open>LDR Xt, label\<close> (\<^verbatim>\<open>ldr(W(rt), ...)\<close> always encodes the 64-bit load), so the
  relocated instruction reads eight bytes and fills the upper half of the register.
\<close>
theorem arm64_ldr_w_literal_widened:
  assumes "a64_decode inst = Some (I_LDRlit 4 rt off)"
  shows "a64_decode (inst OR 0x40000000) = Some (I_LDRlit 8 rt off) \<and>
    relo_insn cur inst a = relo_insn cur (inst OR 0x40000000) a"
proof -
  let ?w = "inst OR 0x40000000"
  note d = decode_LDRlit_4 [OF assms]
  have bits: "bit ?w k = bit inst k" if "k \<noteq> 30" for k using that by (simp only: bit_or_iff bit_0x40000000 simp_thms)
  have cw: "?w AND 0xFF000000 = 0x58000000" using d by (simp add: bit.conj_disj_distrib2)
  have "regfld ?w 0 = regfld inst 0" by (rule regfld_cong) (simp add: bits)
  moreover have "decode_imm19_offset ?w = decode_imm19_offset inst"
    using bits by (intro bit_word_eqI) (auto simp: bit_decode_imm19 min_def)
  ultimately have "a64_decode ?w = Some (I_LDRlit 8 rt off)"
    using decode_ldr_lit_x [OF cw] d by (simp add: arch_imm19)
  moreover have "inst_is_ldr_literal inst" "inst_is_ldr_literal ?w"
    using and_submask [OF conjunct1 [OF d], of "0x3B000000"] and_submask [OF cw, of "0x3B000000"]
    by (simp_all add: class_defs)
  moreover have "\<not> bit inst 31" "\<not> bit ?w 31"
    using and_mask_bit [OF conjunct1 [OF d], of 31] bits [of 31] by simp_all
  ultimately show ?thesis using relo_insn_ldr_literal [of inst ?w cur a] bits by simp
qed

theorem arm64_ldr_w_literal_widened_witness:
  "a64_decode 0x18000043 = Some (I_LDRlit 4 3 8) \<and>
   relo_insn 0x1000 0x18000043 (AssemblerBase 0) = relo_insn 0x1000 0x58000043 (AssemblerBase 0)"
proof -
  have d: "a64_decode 0x18000043 = Some (I_LDRlit 4 3 8)" by code_simp
  from arm64_ldr_w_literal_widened [OF d, of "0x1000" "AssemblerBase 0"] d show ?thesis by simp
qed

end
