(* ===== verification/Arm64_Encode.thy ===== *)
theory Arm64_Encode
  imports Arm64_Reloc_Sim
begin

text \<open>
  The words that the ARM64 assembler emits for its arithmetic, load, store and pair methods decode to the intended
  instruction, for all registers and all offsets that fit the field.
\<close>

definition emits :: "(assembler \<Rightarrow> assembler option) \<Rightarrow> a64_instr \<Rightarrow> bool" where
  "emits f i \<longleftrightarrow> (\<exists>w. a64_decode w = Some i \<and> (\<forall>a. f a = Some (Emit a w)))"

lemma emitsI: "(\<And>a. f a = Some (Emit a w)) \<Longrightarrow> a64_decode w = Some i \<Longrightarrow> emits f i"
  by (auto simp: emits_def)

subsection \<open>Signed offsets\<close>

lemma sint_word_of_int: "- (2 ^ 63) \<le> k \<Longrightarrow> k < 2 ^ 63 \<Longrightarrow> sint (word_of_int k :: u64) = k"
  using signed_take_bit_int_eq_self [of 63 k] by (simp add: sint_sbintrunc')

lemma word_of_sint: "word_of_int (sint w) = (w :: 'a::len word)"
  by (simp flip: scast_eq)

lemma uint_pow: "n < LENGTH('a) \<Longrightarrow> uint (2 ^ n :: 'a::len word) = 2 ^ n"
  by (rule uint_2p) (simp add: word_greater_zero_iff)

text \<open>The signed range test written with wrap-around.\<close>

lemma signed_window:
  assumes "off + 2 ^ n < (2 ^ Suc n :: u64)" "n < 62"
  shows "- (2 ^ n) \<le> sint off" "sint off < 2 ^ n"
proof -
  define k where "k = uint (off + 2 ^ n) - 2 ^ n"
  have p: "(2 :: int) ^ n < 2 ^ 62" "(2 :: int) ^ Suc n < 2 ^ 64" using assms(2) by (intro power_strict_increasing; simp)+
  have "uint (2 ^ Suc n :: u64) = 2 ^ Suc n" using assms(2) by (intro uint_pow) simp
  then have "uint (off + 2 ^ n) < 2 ^ Suc n" using assms(1) by (simp only: word_less_def)
  then have k: "- (2 ^ n) \<le> k" "k < 2 ^ n" by (simp_all add: k_def)
  have "word_of_int k = off" unfolding k_def by (simp flip: wi_hom_sub)
  moreover have "sint (word_of_int k :: u64) = k" using k p(1) by (intro sint_word_of_int) simp_all
  ultimately show "- (2 ^ n) \<le> sint off" "sint off < 2 ^ n" using k by simp_all
qed

subsection \<open>Fields of a word\<close>

lemma bit_lt:
  assumes "w < 2 ^ n" "n < LENGTH('a)" "bit (w :: 'a::len word) k"
  shows "k < n"
proof -
  have "uint w < 2 ^ n" using assms(1,2) by (simp add: word_less_def uint_pow)
  then have "take_bit n (uint w) = uint w" by (intro take_bit_int_eq_self) simp_all
  moreover have "bit (uint w) k" using assms(3) by (simp add: bit_uint_iff bit_imp_le_length)
  ultimately show ?thesis by (metis bit_take_bit_iff)
qed

lemma low_mask:
  assumes "C AND 0x3FFFFF = 0" "bit (C :: u32) k"
  shows "22 \<le> k"
proof (rule ccontr)
  assume "\<not> 22 \<le> k"
  moreover have "C AND mask 22 = 0" using assms(1) by (simp add: mask_numeral)
  then have "\<not> bit (C AND mask 22) k" by simp
  ultimately show False using assms(2) by (simp add: bit_and_iff bit_mask_iff)
qed

lemma high_mask: "(0xFFC00000 :: u32) = NOT (mask 22)"
  by code_simp

lemma pair_fields:
  fixes C i7 r2 rn rt :: u32
  assumes "C AND 0x3FFFFF = 0" "i7 < 2 ^ 7" "r2 < 2 ^ 5" "rn < 2 ^ 5" "rt < 2 ^ 5"
  defines "w \<equiv> C OR push_bit 15 i7 OR push_bit 10 r2 OR push_bit 5 rn OR rt"
  shows "w AND 0xFFC00000 = C" "fld w 0 5 = rt" "fld w 5 5 = rn" "fld w 10 5 = r2" "fld w 15 7 = i7"
proof -
  note b = low_mask [OF assms(1)] bit_lt [OF assms(2), simplified] bit_lt [OF assms(3), simplified] bit_lt [OF assms(4), simplified] bit_lt [OF assms(5), simplified]
  note w = w_def bit_or_iff bit_push_bit_iff
  show "w AND 0xFFC00000 = C"
    unfolding high_mask by (rule bit_word_eqI) (auto simp: w bit_and_iff bit_not_iff bit_mask_iff dest: b)
  show "fld w 0 5 = rt" "fld w 5 5 = rn" "fld w 10 5 = r2" "fld w 15 7 = i7"
    by (rule bit_word_eqI; auto simp: w bit_fld dest: b)+
qed

lemma imm12_fields:
  fixes C i12 rn rt :: u32
  assumes "C AND 0x3FFFFF = 0" "i12 < 2 ^ 12" "rn < 2 ^ 5" "rt < 2 ^ 5"
  defines "w \<equiv> C OR push_bit 10 i12 OR push_bit 5 rn OR rt"
  shows "w AND 0xFFC00000 = C" "fld w 0 5 = rt" "fld w 5 5 = rn" "fld w 10 12 = i12"
proof -
  note b = low_mask [OF assms(1)] bit_lt [OF assms(2), simplified] bit_lt [OF assms(3), simplified] bit_lt [OF assms(4), simplified]
  note w = w_def bit_or_iff bit_push_bit_iff
  show "w AND 0xFFC00000 = C"
    unfolding high_mask by (rule bit_word_eqI) (auto simp: w bit_and_iff bit_not_iff bit_mask_iff dest: b)
  show "fld w 0 5 = rt" "fld w 5 5 = rn" "fld w 10 12 = i12"
    by (rule bit_word_eqI; auto simp: w bit_fld dest: b)+
qed

lemma reg_lt: "r < 32 \<Longrightarrow> (word_of_nat r :: u32) < 2 ^ 5" "r < 32 \<Longrightarrow> unat (word_of_nat r :: u32) = r"
  by (simp_all add: word_less_nat_alt unat_of_nat)

lemma reg_fields: "Rt (X r) = word_of_nat r" "Rt (Q r) = word_of_nat r" "Rn (X r) = push_bit 5 (word_of_nat r)"
  "Rd (X r) = word_of_nat r" "Rt2 (X r) = push_bit 10 (word_of_nat r)" "Rt2 (Q r) = push_bit 10 (word_of_nat r)"
  by (simp_all add: Rt_def Rn_def Rd_def Rt2_def reg_word_def X_def Q_def kRtShift_def kRnShift_def kRdShift_def kRt2Shift_def)

subsection \<open>Pairs\<close>

lemma LeftShift_field: "LeftShift w n c = push_bit c (take_bit n w)"
  by (rule bit_word_eqI) (auto simp: field_simps_arm bit_simps)

lemma pair_offset:
  assumes "take_bit k off = 0" "off + 2 ^ (6 + k) < (2 ^ Suc (6 + k) :: u64)" "k < 10"
  shows "push_bit k (sext 7 (take_bit 7 (ucast (signed_drop_bit k off)))) = off"
proof (rule bit_word_eqI)
  fix n assume n: "n < LENGTH(64)"
  have "6 + k < 62" using assms(3) by simp
  note hi = sint_range_bit [OF signed_window [OF assms(2) this], of n]
  show "bit (push_bit k (sext 7 (take_bit 7 (ucast (signed_drop_bit k off))))) n = bit off n"
  proof (cases "n < k")
    case True
    then show ?thesis using aligned_bit [OF assms(1) True] by (simp add: bit_push_bit_iff)
  next
    case False
    have "bit (push_bit k (sext 7 (take_bit 7 (ucast (signed_drop_bit k off))))) n =
        bit (signed_drop_bit k off) (min (n - k) 6)"
      using False n by (auto simp: bit_push_bit_iff bit_sext bit_take_bit_iff bit_unsigned_iff min_def)
    also have "\<dots> = bit off (k + min (n - k) 6)"
      using False n assms(3) by (auto simp: bit_signed_drop_bit_iff min_def)
    also have "\<dots> = bit off n" using hi False n by (cases "n - k \<le> 6") (auto simp: min_def add.commute)
    finally show ?thesis .
  qed
qed

definition pair_base :: "u32 \<Rightarrow> AddrMode \<Rightarrow> u32" where
  "pair_base op md = op OR (case md of Offset \<Rightarrow> LoadStorePairOffsetFixed | PreIndex \<Rightarrow> LoadStorePairPreIndexFixed
     | PostIndex \<Rightarrow> LoadStorePairPostIndexFixed)"

lemma reg_kinds: "IsRegister (X r)" "\<not> IsRegister (Q r)" "IsVRegister (Q r)"
  by (simp_all add: IsRegister_def IsVRegister_def X_def Q_def)

definition pair_word :: "u32 \<Rightarrow> nat \<Rightarrow> u64 \<Rightarrow> nat \<Rightarrow> nat \<Rightarrow> nat \<Rightarrow> u32" where
  "pair_word C k off r r' n = C OR push_bit 15 (take_bit 7 (ucast (signed_drop_bit k off))) OR
     push_bit 10 (word_of_nat r') OR push_bit 5 (word_of_nat n) OR word_of_nat r"

lemma LoadStorePair_word:
  assumes "rt = X r \<and> rt2 = X r' \<or> rt = Q r \<and> rt2 = Q r'"
  shows "LoadStorePair a op rt rt2 (MemOperand_offset (X n) off md) = Emit a (pair_word (pair_base op md)
    (unat (if IsRegister rt then 2 + bit1 (bits op 30 31) 1 else 2 + bits op 30 31)) off r r' n)"
  using assms
  by (auto simp: LoadStorePair_def OpEncode_LoadStorePair_def Let_def MemOperand_offset_def LeftShift_field reg_fields pair_base_def pair_word_def
      IsImmediateOffset_def IsPreIndex_def reg_kinds or.assoc split: AddrMode.splits)

lemma pair_decode:
  assumes C: "C AND 0x3FFFFF = 0" and r: "r < 32" "r' < 32" "n < 32"
    and dec: "\<And>w. w AND 0xFFC00000 = C \<Longrightarrow>
      a64_decode w = Some (mk (regfld w 0) (regfld w 10) (regfld w 5) (push_bit k (sext 7 (fld w 15 7))))"
    and off: "take_bit k off = 0" "off + 2 ^ (6 + k) < (2 ^ Suc (6 + k) :: u64)" "k < 10"
  shows "a64_decode (pair_word C k off r r' n) = Some (mk r r' n off)"
proof -
  have "take_bit 7 (ucast (signed_drop_bit k off) :: u32) < 2 ^ 7"
    by (simp add: word_less_def take_bit_eq_mod uint_mod)
  note f = pair_fields [OF C this reg_lt(1) [OF r(2)] reg_lt(1) [OF r(3)] reg_lt(1) [OF r(1)]]
  show ?thesis unfolding pair_word_def using dec [OF f(1)] r by (simp add: f(2-5) regfld_def reg_lt(2) pair_offset [OF off])
qed

lemma decode_stp:
  assumes "w AND 0xFFC00000 = 0xA9000000"
  shows "a64_decode w = Some (I_STP (regfld w 0) (regfld w 10) (regfld w 5) (push_bit 3 (sext 7 (fld w 15 7))))"
  by (simp add: a64_decode_def and_mask_neq [OF assms] assms)

lemma decode_ldp:
  assumes "w AND 0xFFC00000 = 0xA8C00000"
  shows "a64_decode w = Some (I_LDPpost (regfld w 0) (regfld w 10) (regfld w 5) (push_bit 3 (sext 7 (fld w 15 7))))"
  by (simp add: a64_decode_def and_mask_neq [OF assms] assms)

lemma decode_stpq:
  assumes "w AND 0xFFC00000 = 0xAD000000"
  shows "a64_decode w = Some (I_STPq (regfld w 0) (regfld w 10) (regfld w 5) (push_bit 4 (sext 7 (fld w 15 7))))"
  by (simp add: a64_decode_def and_mask_neq [OF assms] assms)

lemma decode_ldpq:
  assumes "w AND 0xFFC00000 = 0xACC00000"
  shows "a64_decode w = Some (I_LDPqpost (regfld w 0) (regfld w 10) (regfld w 5) (push_bit 4 (sext 7 (fld w 15 7))))"
  by (simp add: a64_decode_def and_mask_neq [OF assms] assms)

lemma emits_pair:
  assumes "r < 32" "r' < 32" "n < 32"
  shows "take_bit 3 off = 0 \<Longrightarrow> off + 512 < (1024 :: u64) \<Longrightarrow>
      emits (\<lambda>a. arm64_stp a (X r) (X r') (MemOperand_offset (X n) off Offset)) (I_STP r r' n off)"
    and "take_bit 3 off = 0 \<Longrightarrow> off + 512 < (1024 :: u64) \<Longrightarrow>
      emits (\<lambda>a. arm64_ldp a (X r) (X r') (MemOperand_offset (X n) off PostIndex)) (I_LDPpost r r' n off)"
    and "take_bit 4 off = 0 \<Longrightarrow> off + 1024 < (2048 :: u64) \<Longrightarrow>
      emits (\<lambda>a. arm64_stp a (Q r) (Q r') (MemOperand_offset (X n) off Offset)) (I_STPq r r' n off)"
    and "take_bit 4 off = 0 \<Longrightarrow> off + 1024 < (2048 :: u64) \<Longrightarrow>
      emits (\<lambda>a. arm64_ldp a (Q r) (Q r') (MemOperand_offset (X n) off PostIndex)) (I_LDPqpost r r' n off)"
proof -
  have t: "reg_type (X r) = kRegister_64" "reg_type (Q r) = kSIMD_FP_Register_128" by (simp_all add: X_def Q_def)
  have sc: "unat (2 + bit1 (bits STP_x 30 31) 1) = 3" "unat (2 + bit1 (bits LDP_x 30 31) 1) = 3"
    "unat (2 + bits STP_q 30 31) = 4" "unat (2 + bits LDP_q 30 31) = 4" by code_simp+
  have C: "pair_base STP_x Offset = 0xA9000000" "pair_base LDP_x PostIndex = 0xA8C00000"
    "pair_base STP_q Offset = 0xAD000000" "pair_base LDP_q PostIndex = 0xACC00000" by code_simp+
  note w = LoadStorePair_word [of "X r" r "X r'" r'] LoadStorePair_word [of "Q r" r "Q r'" r']
  note d = pair_decode [OF _ assms]
  note e = arm64_stp_def arm64_ldp_def t w reg_kinds sc [simplified] C
  show "emits (\<lambda>a. arm64_stp a (X r) (X r') (MemOperand_offset (X n) off Offset)) (I_STP r r' n off)"
    if "take_bit 3 off = 0" "off + 512 < 1024"
    using that by (intro emitsI [where w = "pair_word 0xA9000000 3 off r r' n"] d decode_stp) (simp_all add: e)
  show "emits (\<lambda>a. arm64_ldp a (X r) (X r') (MemOperand_offset (X n) off PostIndex)) (I_LDPpost r r' n off)"
    if "take_bit 3 off = 0" "off + 512 < 1024"
    using that by (intro emitsI [where w = "pair_word 0xA8C00000 3 off r r' n"] d decode_ldp) (simp_all add: e)
  show "emits (\<lambda>a. arm64_stp a (Q r) (Q r') (MemOperand_offset (X n) off Offset)) (I_STPq r r' n off)"
    if "take_bit 4 off = 0" "off + 1024 < 2048"
    using that by (intro emitsI [where w = "pair_word 0xAD000000 4 off r r' n"] d decode_stpq) (simp_all add: e)
  show "emits (\<lambda>a. arm64_ldp a (Q r) (Q r') (MemOperand_offset (X n) off PostIndex)) (I_LDPqpost r r' n off)"
    if "take_bit 4 off = 0" "off + 1024 < 2048"
    using that by (intro emitsI [where w = "pair_word 0xACC00000 4 off r r' n"] d decode_ldpq) (simp_all add: e)
qed

subsection \<open>Immediates\<close>

definition imm12_word :: "u32 \<Rightarrow> u32 \<Rightarrow> nat \<Rightarrow> nat \<Rightarrow> u32" where
  "imm12_word C i r n = C OR push_bit 10 i OR push_bit 5 (word_of_nat n) OR word_of_nat r"

lemma imm12_decode:
  assumes C: "C AND 0x3FFFFF = 0" and r: "r < 32" "n < 32" and i: "i < 2 ^ 12"
    and dec: "\<And>w. w AND 0xFFC00000 = C \<Longrightarrow> a64_decode w = Some (mk (regfld w 0) (regfld w 5) (push_bit k (ucast (fld w 10 12))))"
  shows "a64_decode (imm12_word C i r n) = Some (mk r n (push_bit k (ucast i)))"
proof -
  note f = imm12_fields [OF C i reg_lt(1) [OF r(2)] reg_lt(1) [OF r(1)]]
  show ?thesis unfolding imm12_word_def using dec [OF f(1)] r by (simp add: f(2-4) regfld_def reg_lt(2))
qed

lemma decode_ldr_uoff:
  assumes "w AND 0xFFC00000 = 0xF9400000"
  shows "a64_decode w = Some (I_LDR (regfld w 0) (regfld w 5) (push_bit 3 (ucast (fld w 10 12))))"
  by (simp add: a64_decode_def and_mask_neq [OF assms] assms)

lemma decode_str_uoff:
  assumes "w AND 0xFFC00000 = 0xF9000000"
  shows "a64_decode w = Some (I_STR (regfld w 0) (regfld w 5) (push_bit 3 (ucast (fld w 10 12))))"
  by (simp add: a64_decode_def and_mask_neq [OF assms] assms)

lemma decode_add_imm:
  assumes "w AND 0xFFC00000 = 0x91000000"
  shows "a64_decode w = Some (I_ADD (regfld w 0) (regfld w 5) (push_bit 0 (ucast (fld w 10 12))))"
  by (simp add: a64_decode_def and_mask_neq [OF assms] assms)

lemma decode_sub_imm:
  assumes "w AND 0xFFC00000 = 0xD1000000"
  shows "a64_decode w = Some (I_SUB (regfld w 0) (regfld w 5) (push_bit 0 (ucast (fld w 10 12))))"
  by (simp add: a64_decode_def and_mask_neq [OF assms] assms)


lemma imm12_value:
  assumes "imm < (2 ^ 12 :: u64)"
  shows "(ucast imm :: u32) < 2 ^ 12" "ucast (ucast imm :: u32) = imm" "(ucast (LeftShift imm 12 10) :: u32) = push_bit 10 (ucast imm)"
proof -
  have b: "k < 12" if "bit imm k" for k using bit_lt [OF assms _ that] by simp
  show "(ucast imm :: u32) < 2 ^ 12"
    using assms by (simp add: word_less_nat_alt unsigned_ucast_eq take_bit_nat_eq_self)
  show "ucast (ucast imm :: u32) = imm" by (rule bit_word_eqI) (auto simp: bit_simps dest: b)
  show "(ucast (LeftShift imm 12 10) :: u32) = push_bit 10 (ucast imm)"
    unfolding LeftShift_field by (rule bit_word_eqI) (auto simp: bit_simps dest: b)
qed

lemma emits_addsub:
  assumes "r < 32" "n < 32" "imm < 4096"
  shows "emits (\<lambda>a. arm64_add a (X r) (X n) imm) (I_ADD r n imm)" "emits (\<lambda>a. arm64_sub a (X r) (X n) imm) (I_SUB r n imm)"
proof -
  have i: "imm < 2 ^ 12" using assms(3) by simp
  note v = imm12_value [OF i]
  have "Is64Bits (X m)" for m by (simp add: Is64Bits_def X_def)
  moreover have "ADD_x_imm = 0x91000000" "SUB_x_imm = 0xD1000000" by code_simp+
  ultimately have e: "arm64_add a (X r) (X n) imm = Some (Emit a (imm12_word 0x91000000 (ucast imm) r n))"
    "arm64_sub a (X r) (X n) imm = Some (Emit a (imm12_word 0xD1000000 (ucast imm) r n))" for a
    by (simp_all add: arm64_add_def arm64_sub_def AddSubImmediate_def IsImmediate_def Operand_imm_def reg_Is_def reg_fields
        imm12_word_def v(3) or.commute or.left_commute)
  show "emits (\<lambda>a. arm64_add a (X r) (X n) imm) (I_ADD r n imm)"
    using e(1) imm12_decode [OF _ assms(1,2) v(1) decode_add_imm] v(2) by (auto intro!: emitsI)
  show "emits (\<lambda>a. arm64_sub a (X r) (X n) imm) (I_SUB r n imm)"
    using e(2) imm12_decode [OF _ assms(1,2) v(1) decode_sub_imm] v(2) by (auto intro!: emitsI)
qed

lemma emits_mem:
  assumes "r < 32" "n < 32" "take_bit 3 off = 0" "off < 0x8000"
  shows "emits (\<lambda>a. arm64_ldr a (X r) (MemOperand_offset (X n) off Offset)) (I_LDR r n off)"
    "emits (\<lambda>a. arm64_str a (X r) (MemOperand_offset (X n) off Offset)) (I_STR r n off)"
proof -
  let ?i = "signed_drop_bit 3 off"
  have b: "k < 15" if "bit off k" for k using bit_lt [of off 15] assms(4) that by simp
  have "\<not> bit off 63" using b by force
  then have i: "?i = drop_bit 3 off" by (intro bit_word_eqI) (auto simp: bit_signed_drop_bit_iff bit_drop_bit_eq dest: b)
  have lt: "?i < 2 ^ 12" using assms(4) by (simp add: i word_less_nat_alt drop_bit_eq_div unat_div_distrib)
  note v = imm12_value [OF lt]
  have p: "push_bit 3 (ucast (ucast ?i :: u32)) = off"
    unfolding v(2) unfolding i using bits_ident [of 3 off] assms(3) by simp
  have "OpEncode_scale (LoadStoreUnsignedOffsetFixed OR LDR_x) = 3" "OpEncode_scale (LoadStoreUnsignedOffsetFixed OR STR_x) = 3"
    "LoadStoreUnsignedOffsetFixed OR LDR_x = 0xF9400000" "LoadStoreUnsignedOffsetFixed OR STR_x = 0xF9000000" by code_simp+
  then have e: "arm64_ldr a (X r) (MemOperand_offset (X n) off Offset) = Some (Emit a (imm12_word 0xF9400000 (ucast ?i) r n))"
    "arm64_str a (X r) (MemOperand_offset (X n) off Offset) = Some (Emit a (imm12_word 0xF9000000 (ucast ?i) r n))" for a
    by (simp_all add: arm64_ldr_def arm64_str_def LoadStore_def IsImmediateOffset_def MemOperand_offset_def reg_fields
        imm12_word_def v(3) flip: or.assoc)
  show "emits (\<lambda>a. arm64_ldr a (X r) (MemOperand_offset (X n) off Offset)) (I_LDR r n off)"
    using e(1) imm12_decode [OF _ assms(1,2) v(1) decode_ldr_uoff] p by (auto intro!: emitsI)
  show "emits (\<lambda>a. arm64_str a (X r) (MemOperand_offset (X n) off Offset)) (I_STR r n off)"
    using e(2) imm12_decode [OF _ assms(1,2) v(1) decode_str_uoff] p by (auto intro!: emitsI)
qed

subsection \<open>Properties\<close>

text \<open>
  What the assembler emits decodes, by the architecture's encoding, to that very instruction: \<^verbatim>\<open>add\<close> and \<^verbatim>\<open>sub\<close> of
  X registers with a 12-bit immediate, \<^verbatim>\<open>ldr\<close> and \<^verbatim>\<open>str\<close> of an X register with an unsigned offset that is a multiple
  of 8 below 0x8000, \<^verbatim>\<open>stp\<close> with an offset and \<^verbatim>\<open>ldp\<close> with post-indexing of X and Q registers, with an offset
  that is a multiple of the access size in the range of the 7-bit field. W registers are not covered (\<^verbatim>\<open>ldr\<close> ignores their
  width), nor are the other addressing modes.
\<close>
lemma arm64_assembler_encodes:
  assumes "r < 32" "r' < 32" "n < 32"
  shows "(imm < 4096 \<longrightarrow> emits (\<lambda>a. arm64_add a (X r) (X n) imm) (I_ADD r n imm) \<and>
            emits (\<lambda>a. arm64_sub a (X r) (X n) imm) (I_SUB r n imm)) \<and>
    (take_bit 3 off = 0 \<and> off < 0x8000 \<longrightarrow>
        emits (\<lambda>a. arm64_ldr a (X r) (MemOperand_offset (X n) off Offset)) (I_LDR r n off) \<and>
        emits (\<lambda>a. arm64_str a (X r) (MemOperand_offset (X n) off Offset)) (I_STR r n off)) \<and>
    (take_bit 3 off = 0 \<and> off + 512 < 1024 \<longrightarrow>
        emits (\<lambda>a. arm64_stp a (X r) (X r') (MemOperand_offset (X n) off Offset)) (I_STP r r' n off) \<and>
        emits (\<lambda>a. arm64_ldp a (X r) (X r') (MemOperand_offset (X n) off PostIndex)) (I_LDPpost r r' n off)) \<and>
    (take_bit 4 off = 0 \<and> off + 1024 < 2048 \<longrightarrow>
        emits (\<lambda>a. arm64_stp a (Q r) (Q r') (MemOperand_offset (X n) off Offset)) (I_STPq r r' n off) \<and>
        emits (\<lambda>a. arm64_ldp a (Q r) (Q r') (MemOperand_offset (X n) off PostIndex)) (I_LDPqpost r r' n off))"
  using emits_addsub [OF assms(1,3)] emits_mem [OF assms(1,3)] emits_pair [OF assms] by blast

lemma arm64_assembler_encodes_example:
  "emits (\<lambda>a. arm64_stp a (X 29) (X 30) (MemOperand_offset (X 31) (- 16) Offset)) (I_STP 29 30 31 (- 16)) \<and>
   emits (\<lambda>a. arm64_ldp a (Q 6) (Q 7) (MemOperand_offset (X 31) 32 PostIndex)) (I_LDPqpost 6 7 31 32) \<and>
   emits (\<lambda>a. arm64_add a (X 17) (X 31) 384) (I_ADD 17 31 384)"
proof -
  have "take_bit 3 (- 16 :: u64) = 0" "take_bit 4 (32 :: u64) = 0" by code_simp+
  then show ?thesis
    using arm64_assembler_encodes [of 29 30 31 0 "- 16"] arm64_assembler_encodes [of 6 7 31 0 32]
      arm64_assembler_encodes [of 17 0 31 384 0] by simp
qed

end
