(* ===== verification/Process_Memory.thy ===== *)
theory Process_Memory
  imports Code_Buffer "HOL-Library.Multiset"
begin

text \<open>
  The memory of the process as the POSIX backend sees it: pages with their protection, the
  \<^verbatim>\<open>OSMemory\<close> wrappers of \<^verbatim>\<open>platform-posix.cc\<close>, the memory layout read from
  \<^verbatim>\<open>/proc/self/maps\<close> and \<^verbatim>\<open>DobbyCodePatch\<close> of \<^verbatim>\<open>code-patch-tool-posix.cc\<close>. Where an
  anonymous mapping is placed, and whether it is granted, is the kernel's choice: it is the
  parameter \<open>kmmap\<close> (process, fixed address or 0, size). \<open>kernel_mmap\<close> states what
  \<^verbatim>\<open>mmap(2)\<close> documents of that choice. A store to a page that is not writable ends the process
  (\<open>Segv\<close>), and so does a failed \<^verbatim>\<open>CHECK\<close> (\<open>Fatal\<close>).
\<close>

subsection \<open>Pages and protections\<close>

datatype MemoryPermission = kNoAccess | kRead | kReadWrite | kReadWriteExecute | kReadExecute

datatype crash = Segv | Fatal | NullDeref

type_synonym prot = "32 word"

definition PROT_NONE :: prot where "PROT_NONE = 0"
definition PROT_READ :: prot where "PROT_READ = 1"
definition PROT_WRITE :: prot where "PROT_WRITE = 2"
definition PROT_EXEC :: prot where "PROT_EXEC = 4"

lemmas prot_defs = PROT_NONE_def PROT_READ_def PROT_WRITE_def PROT_EXEC_def

record process =
  page_size :: addr
  page_prot :: "addr \<Rightarrow> prot option"
  memory :: "addr \<Rightarrow> u8"

fun GetProtectionFromMemoryPermission :: "MemoryPermission \<Rightarrow> prot" where
  "GetProtectionFromMemoryPermission kNoAccess = PROT_NONE"
| "GetProtectionFromMemoryPermission kRead = PROT_READ"
| "GetProtectionFromMemoryPermission kReadWrite = PROT_READ OR PROT_WRITE"
| "GetProtectionFromMemoryPermission kReadWriteExecute = PROT_READ OR PROT_WRITE OR PROT_EXEC"
| "GetProtectionFromMemoryPermission kReadExecute = PROT_READ OR PROT_EXEC"

definition prot_at :: "process \<Rightarrow> addr \<Rightarrow> prot option" where
  "prot_at p x = page_prot p (ALIGN_FLOOR x (page_size p))"

definition has_prot :: "prot \<Rightarrow> process \<Rightarrow> addr \<Rightarrow> bool" where
  "has_prot pr p x = (case prot_at p x of None \<Rightarrow> False | Some q \<Rightarrow> q AND pr = pr)"

text \<open>The range of \<open>n\<close> bytes from \<open>a\<close>; a page aligned range covers the pages whose base it contains.\<close>

definition in_range :: "addr \<Rightarrow> addr \<Rightarrow> addr \<Rightarrow> bool" where
  "in_range a n x \<longleftrightarrow> x - a < n"

definition page_bases :: "addr \<Rightarrow> addr \<Rightarrow> addr \<Rightarrow> addr list" where
  "page_bases ps a n = map (\<lambda>i. a + of_nat i * ps) [0..<(unat n + unat ps - 1) div unat ps]"

definition set_prot :: "addr \<Rightarrow> addr \<Rightarrow> prot option \<Rightarrow> process \<Rightarrow> process" where
  "set_prot a n v p = p\<lparr>page_prot := (\<lambda>x. if in_range a n x then v else page_prot p x)\<rparr>"

definition poke :: "addr \<Rightarrow> u8 list \<Rightarrow> (addr \<Rightarrow> u8) \<Rightarrow> addr \<Rightarrow> u8" where
  "poke a bs m = (\<lambda>x. if unat (x - a) < length bs then bs ! unat (x - a) else m x)"

subsection \<open>System calls\<close>

type_synonym kmmap = "process \<Rightarrow> addr \<Rightarrow> addr \<Rightarrow> addr option"

definition mmap :: "kmmap \<Rightarrow> addr \<Rightarrow> addr \<Rightarrow> prot \<Rightarrow> process \<Rightarrow> addr option \<times> process" where
  "mmap kmmap fixed n pr p =
     (case kmmap p fixed n of
        None \<Rightarrow> (None, p)
      | Some a \<Rightarrow> (Some a, (set_prot a n (Some pr) p)
                    \<lparr>memory := (\<lambda>x. if in_range a n (ALIGN_FLOOR x (page_size p)) then 0 else memory p x)\<rparr>))"

definition mprotect :: "addr \<Rightarrow> addr \<Rightarrow> prot \<Rightarrow> process \<Rightarrow> bool \<times> process" where
  "mprotect a n pr p =
     (if ALIGN_FLOOR a (page_size p) = a \<and> list_all (\<lambda>b. page_prot p b \<noteq> None) (page_bases (page_size p) a n)
      then (True, set_prot a n (Some pr) p) else (False, p))"

definition munmap :: "addr \<Rightarrow> addr \<Rightarrow> process \<Rightarrow> bool \<times> process" where
  "munmap a n p = (if ALIGN_FLOOR a (page_size p) = a then (True, set_prot a n None p) else (False, p))"

definition memcpy :: "addr \<Rightarrow> u8 list \<Rightarrow> process \<Rightarrow> crash + process" where
  "memcpy dst bs p =
     (if list_all (\<lambda>i. has_prot PROT_WRITE p (dst + of_nat i)) [0..<length bs]
      then Inr (p\<lparr>memory := poke dst bs (memory p)\<rparr>) else Inl Segv)"

text \<open>What the kernel promises of the address it returns.\<close>

definition page_size_ok :: "addr \<Rightarrow> bool" where
  "page_size_ok ps \<longleftrightarrow> (\<exists>k. 3 \<le> k \<and> k < 31 \<and> ps = 2 ^ k)"

definition kernel_mmap :: "kmmap \<Rightarrow> bool" where
  "kernel_mmap kmmap \<longleftrightarrow>
     (\<forall>p fixed n a. page_size_ok (page_size p) \<and> kmmap p fixed n = Some a \<longrightarrow>
        a \<noteq> 0 \<and> 0 < n \<and> ALIGN_FLOOR a (page_size p) = a \<and> unat a + unat n + unat (page_size p) \<le> 2 ^ 64 \<and>
        (fixed \<noteq> 0 \<longrightarrow> a = fixed) \<and>
        (fixed = 0 \<longrightarrow> (\<forall>x. in_range a n x \<longrightarrow> prot_at p x = None)))"

subsection \<open>OSMemory (platform-posix.cc)\<close>

definition OSMemory_PageSize :: "process \<Rightarrow> addr" where
  "OSMemory_PageSize p = page_size p"

definition OSMemory_Allocate :: "kmmap \<Rightarrow> addr \<Rightarrow> MemoryPermission \<Rightarrow> addr \<Rightarrow> process \<Rightarrow> addr \<times> process" where
  "OSMemory_Allocate kmmap n access fixed_address p =
     (let prot = GetProtectionFromMemoryPermission access in
      case mmap kmmap fixed_address n prot p of
        (None, p') \<Rightarrow> (0, p')
      | (Some result, p') \<Rightarrow> (result, p'))"

definition OSMemory_Free :: "addr \<Rightarrow> addr \<Rightarrow> process \<Rightarrow> bool \<times> process" where
  "OSMemory_Free address n p = munmap address n p"

definition OSMemory_Release :: "addr \<Rightarrow> addr \<Rightarrow> process \<Rightarrow> bool \<times> process" where
  "OSMemory_Release address n p = munmap address n p"

definition OSMemory_SetPermission :: "addr \<Rightarrow> addr \<Rightarrow> MemoryPermission \<Rightarrow> process \<Rightarrow> bool \<times> process" where
  "OSMemory_SetPermission address n access p =
     mprotect address n (GetProtectionFromMemoryPermission access) p"

subsection \<open>The code patch tool (code-patch-tool-posix.cc)\<close>

definition DobbyCodePatch :: "addr \<Rightarrow> u8 list \<Rightarrow> process \<Rightarrow> crash + (int \<times> process)" where
  "DobbyCodePatch address buffer p =
     (let ps = page_size p;
          patch_page = ALIGN_FLOOR address ps;
          patch_end_page = ALIGN_FLOOR (address + of_nat (length buffer)) ps;
          rwx = PROT_READ OR PROT_WRITE OR PROT_EXEC;
          rx = PROT_READ OR PROT_EXEC;
          p1 = snd (mprotect patch_page ps rwx p);
          p2 = (if patch_page \<noteq> patch_end_page then snd (mprotect patch_end_page ps rwx p1) else p1) in
      bind_res (memcpy address buffer p2) (\<lambda>p3.
        let p4 = snd (mprotect patch_page ps rx p3);
            p5 = (if patch_page \<noteq> patch_end_page then snd (mprotect patch_end_page ps rx p4) else p4) in
        Inr (0, p5)))"

subsection \<open>The memory layout (ProcessRuntimeUtility.cc)\<close>

record MemRange =
  mr_start :: addr
  mr_end :: addr
  mr_size :: addr

record MemRegion = MemRange +
  mr_permission :: MemoryPermission

definition MemRange :: "addr \<Rightarrow> addr \<Rightarrow> MemRange" where
  "MemRange a n = \<lparr>mr_start = a, mr_end = a + n, mr_size = n\<rparr>"

definition MemRange_reset :: "'x MemRange_scheme \<Rightarrow> addr \<Rightarrow> addr \<Rightarrow> 'x MemRange_scheme" where
  "MemRange_reset r a n = r\<lparr>mr_start := a, mr_size := n, mr_end := a + n\<rparr>"

definition MemRegion :: "addr \<Rightarrow> addr \<Rightarrow> MemoryPermission \<Rightarrow> MemRegion" where
  "MemRegion a n perm = MemRange.extend (MemRange a n) (MemRegion.fields perm)"

definition region_permission :: "string \<Rightarrow> MemoryPermission" where
  "region_permission s =
     (if s ! 0 = CHR ''r'' \<and> s ! 1 = CHR ''w'' then kReadWrite
      else if s ! 0 = CHR ''r'' \<and> s ! 2 = CHR ''x'' then kReadExecute
      else if s ! 0 = CHR ''r'' \<and> s ! 1 = CHR ''w'' \<and> s ! 2 = CHR ''x'' then kReadWriteExecute
      else kNoAccess)"

text \<open>
  The loop over \<^verbatim>\<open>/proc/self/maps\<close>, given for each pass what \<^verbatim>\<open>sscanf\<close> stored from the buffer
  (region start, region end, the four permission characters), \<open>None\<close> for fewer than seven fields.
  A buffer that cannot be parsed ends the loop without sorting.
\<close>

type_synonym maps_line = "(addr \<times> addr \<times> string) option"

fun layout_loop :: "MemRegion list \<Rightarrow> maps_line list \<Rightarrow> bool \<times> MemRegion list" where
  "layout_loop regions [] = (True, regions)"
| "layout_loop regions (None # ls) = (False, regions)"
| "layout_loop regions (Some (region_start, region_end, permissions) # ls) =
     layout_loop (regions @ [MemRegion region_start (region_end - region_start) (region_permission permissions)]) ls"

text \<open>
  The file: what \<^verbatim>\<open>sscanf\<close> makes of each piece that \<^verbatim>\<open>fgets\<close> reads (a line, or a part of a line
  longer than 2047 bytes), and of the buffer after the last one. The file ends in a newline, so \<^verbatim>\<open>feof\<close> is not set
  when the last line was read: there is one more pass, in which \<^verbatim>\<open>fgets\<close> stores nothing and the uninitialised
  \<^verbatim>\<open>line_buffer\<close>, in general the last line again, is parsed.
\<close>

type_synonym maps_file = "maps_line list \<times> maps_line"

definition maps_passes :: "maps_file \<Rightarrow> maps_line list" where
  "maps_passes file = fst file @ [snd file]"

definition GetProcessMemoryLayout :: "maps_file option \<Rightarrow> MemRegion list" where
  "GetProcessMemoryLayout file =
     (case file of
        None \<Rightarrow> []
      | Some f \<Rightarrow> (case layout_loop [] (maps_passes f) of
            (True, regions) \<Rightarrow> sort_key mr_start regions
          | (False, regions) \<Rightarrow> regions))"

subsection \<open>Page arithmetic\<close>

lemma ALIGN_FLOOR_pow2: "ALIGN_FLOOR x (2 ^ k) = push_bit k (drop_bit k x)"
proof (rule bit_word_eqI)
  fix n assume "n < LENGTH(64)"
  then show "bit (ALIGN_FLOOR x (2 ^ k)) n = bit (push_bit k (drop_bit k x)) n"
    by (auto simp: ALIGN_FLOOR_def mask_eq_decr_exp [symmetric] bit_simps)
qed

lemma unat_addr: "unat (x :: addr) < 2 ^ 64"
  using unsigned_less [of x, where 'a = nat] by simp

lemma unat_page_size: "k < 64 \<Longrightarrow> unat (2 ^ k :: addr) = 2 ^ k"
proof -
  assume "k < 64"
  then have "(2 :: nat) ^ k < 2 ^ 64" by (rule power_strict_increasing) simp
  then have "unat (of_nat (2 ^ k) :: addr) = 2 ^ k" by (simp only: unat_of_nat) simp
  then show ?thesis by simp
qed

lemma unat_ALIGN_FLOOR: "k < 64 \<Longrightarrow> unat (ALIGN_FLOOR x (2 ^ k)) = unat x div 2 ^ k * 2 ^ k"
proof -
  assume k: "k < 64"
  have "unat x div 2 ^ k * 2 ^ k < 2 ^ 64"
    using unat_addr [of x] div_times_less_eq_dividend [of "unat x" "2 ^ k"] by linarith
  with k show ?thesis
    by (simp add: ALIGN_FLOOR_pow2 push_bit_eq_mult drop_bit_eq_div unat_word_ariths unat_div_distrib
        unat_page_size mod_mult_left_eq)
qed

lemma unat_add_addr: "unat x + n < 2 ^ 64 \<Longrightarrow> unat (x + of_nat n :: addr) = unat x + n"
  by (simp add: unat_word_ariths unat_of_nat)

lemma in_range_nat: "unat a + unat n \<le> 2 ^ 64 \<Longrightarrow> in_range a n x \<longleftrightarrow> unat a \<le> unat x \<and> unat x < unat a + unat n"
proof -
  assume s: "unat a + unat n \<le> 2 ^ 64"
  have "unat (x - a) = (if unat a \<le> unat x then unat x - unat a else 2 ^ 64 + unat x - unat a)"
    using unat_sub_if_size [of x a] by (auto simp: word_size)
  with s unat_addr [of x] unat_addr [of a] show ?thesis
    by (auto simp: in_range_def word_less_nat_alt split: if_splits)
qed

lemma ALIGN_FLOOR_eq_iff: "k < 64 \<Longrightarrow> ALIGN_FLOOR x (2 ^ k) = ALIGN_FLOOR y (2 ^ k) \<longleftrightarrow> unat x div 2 ^ k = unat y div 2 ^ k"
  by (simp add: word_unat_eq_iff unat_ALIGN_FLOOR)

lemma ALIGN_FLOOR_idem [simp]: "ALIGN_FLOOR (ALIGN_FLOOR x r) r = ALIGN_FLOOR x r"
  by (simp add: ALIGN_FLOOR_def and.assoc)

lemma page_aligned_dvd: "k < 64 \<Longrightarrow> ALIGN_FLOOR a (2 ^ k) = a \<longleftrightarrow> 2 ^ k dvd unat a"
  by (simp add: word_unat_eq_iff unat_ALIGN_FLOOR) (metis dvd_div_mult_self dvd_triv_right)

text \<open>A page aligned range contains an address iff it contains the base of its page.\<close>

lemma in_range_floor:
  assumes "k < 64" "2 ^ k dvd unat a" "2 ^ k dvd unat n" "unat a + unat n \<le> 2 ^ 64"
  shows "in_range a n (ALIGN_FLOOR x (2 ^ k)) \<longleftrightarrow> in_range a n x"
proof -
  obtain i j where i: "unat a = 2 ^ k * i" "unat n = 2 ^ k * j" using assms(2,3) by (auto elim!: dvdE)
  have "2 ^ k * i \<le> unat x div 2 ^ k * 2 ^ k \<longleftrightarrow> 2 ^ k * i \<le> unat x"
    by (simp add: mult.commute less_eq_div_iff_mult_less_eq)
  moreover have "2 ^ k * i + 2 ^ k * j = (i + j) * 2 ^ k" by (simp add: algebra_simps)
  then have "unat x div 2 ^ k * 2 ^ k < 2 ^ k * i + 2 ^ k * j \<longleftrightarrow> unat x < 2 ^ k * i + 2 ^ k * j"
    by (simp only: mult_less_cancel2) (simp add: div_less_iff_less_mult)
  ultimately show ?thesis using assms(1,4) i by (simp add: in_range_nat unat_ALIGN_FLOOR)
qed

lemma single_page:
  assumes "k < 64" "unat b + 2 ^ k \<le> 2 ^ 64" "ALIGN_FLOOR b (2 ^ k) = b"
  shows "in_range b (2 ^ k) (ALIGN_FLOOR x (2 ^ k)) \<longleftrightarrow> ALIGN_FLOOR x (2 ^ k) = b"
proof -
  obtain i where i: "unat b = 2 ^ k * i" using assms(1,3) by (auto simp: page_aligned_dvd elim!: dvdE)
  have "2 ^ k * i + 2 ^ k = (i + 1) * 2 ^ k" by simp
  then have "unat x div 2 ^ k * 2 ^ k < 2 ^ k * i + 2 ^ k \<longleftrightarrow> unat x div 2 ^ k < i + 1"
    by (simp only: mult_less_cancel2) simp
  with assms i show ?thesis
    by (auto simp: in_range_nat unat_page_size unat_ALIGN_FLOOR word_unat_eq_iff mult.commute)
qed

lemma aligned_room:
  assumes "k < 64" "ALIGN_FLOOR b (2 ^ k) = b"
  shows "unat b + 2 ^ k \<le> 2 ^ 64"
proof -
  obtain i where i: "unat b = 2 ^ k * i" using assms by (auto simp: page_aligned_dvd elim!: dvdE)
  obtain m where m: "64 = k + m" using assms(1) by (metis less_imp_add_positive)
  have "i < 2 ^ m" using unat_addr [of b] i m by (simp only: power_add) simp
  then have "2 ^ k * (i + 1) \<le> 2 ^ k * 2 ^ m" by (intro mult_le_mono2) simp
  with i m show ?thesis by (simp only: power_add) (simp add: algebra_simps)
qed

subsection \<open>Protecting and patching\<close>

lemma set_prot_simps [simp]:
  "page_size (set_prot a n v p) = page_size p" "memory (set_prot a n v p) = memory p"
  by (simp_all add: set_prot_def)

lemma mprotect_simps [simp]:
  "page_size (snd (mprotect a n pr p)) = page_size p" "memory (snd (mprotect a n pr p)) = memory p"
  by (simp_all add: mprotect_def)

lemma prot_at_memory [simp]: "prot_at (p\<lparr>memory := m\<rparr>) x = prot_at p x"
  by (simp add: prot_at_def)

lemma page_bases_one: "0 < ps \<Longrightarrow> page_bases ps b ps = [b]"
proof -
  assume "0 < ps"
  then have u: "0 < unat ps" by (simp add: unat_gt_0 word_greater_zero_iff)
  then have "(unat ps + unat ps - 1) div unat ps = 1" by (intro div_nat_eqI) auto
  then show ?thesis by (simp add: page_bases_def)
qed

lemma prot_at_mprotect_page:
  assumes "page_size_ok (page_size p)"
  shows "prot_at (snd (mprotect (ALIGN_FLOOR a (page_size p)) (page_size p) pr p)) x =
    (if ALIGN_FLOOR x (page_size p) = ALIGN_FLOOR a (page_size p) \<and> prot_at p x \<noteq> None
     then Some pr else prot_at p x)"
proof -
  obtain k where k: "3 \<le> k" "k < 31" "page_size p = 2 ^ k" using assms by (auto simp: page_size_ok_def)
  let ?b = "ALIGN_FLOOR a (2 ^ k)"
  have "unat ?b + 2 ^ k \<le> 2 ^ 64" using k by (intro aligned_room) auto
  then have *: "in_range ?b (2 ^ k) (ALIGN_FLOOR x (2 ^ k)) \<longleftrightarrow> ALIGN_FLOOR x (2 ^ k) = ?b"
    using k by (intro single_page) auto
  have "(0 :: addr) < 2 ^ k" using unat_page_size [of k] k by (simp add: word_less_nat_alt)
  then show ?thesis
    using * k by (auto simp: mprotect_def page_bases_one prot_at_def set_prot_def)
qed

text \<open>The pages a patch of \<open>n\<close> bytes at \<open>a\<close> makes writable, and the byte effect of the copy.\<close>

definition patch_page_of :: "addr \<Rightarrow> addr \<Rightarrow> nat \<Rightarrow> addr \<Rightarrow> bool" where
  "patch_page_of ps a n x \<longleftrightarrow> ALIGN_FLOOR x ps = ALIGN_FLOOR a ps \<or> ALIGN_FLOOR x ps = ALIGN_FLOOR (a + of_nat n) ps"

lemma DobbyCodePatch_eq:
  assumes "page_size_ok (page_size p)"
    and w: "\<forall>i < length bs. prot_at p (a + of_nat i) \<noteq> None \<and>
          (patch_page_of (page_size p) a (length bs) (a + of_nat i) \<or> has_prot PROT_WRITE p (a + of_nat i))"
  shows "\<exists>p'. DobbyCodePatch a bs p = Inr (0, p') \<and> memory p' = poke a bs (memory p) \<and>
    page_size p' = page_size p \<and>
    (\<forall>x. prot_at p' x = (if patch_page_of (page_size p) a (length bs) x \<and> prot_at p x \<noteq> None
                         then Some (PROT_READ OR PROT_EXEC) else prot_at p x))"
proof -
  let ?ps = "page_size p" and ?n = "of_nat (length bs) :: addr"
  define two where "two pr q = (let q1 = snd (mprotect (ALIGN_FLOOR a ?ps) ?ps pr q) in
     if ALIGN_FLOOR a ?ps \<noteq> ALIGN_FLOOR (a + ?n) ?ps then snd (mprotect (ALIGN_FLOOR (a + ?n) ?ps) ?ps pr q1) else q1)"
    for pr q
  have two: "page_size (two pr q) = page_size q" "memory (two pr q) = memory q" for pr q
    by (simp_all add: two_def Let_def)
  have prot2: "prot_at (two pr q) x = (if patch_page_of ?ps a (length bs) x \<and> prot_at q x \<noteq> None then Some pr else prot_at q x)"
    if "page_size q = ?ps" for pr q x
    using prot_at_mprotect_page [of q] prot_at_mprotect_page [of "snd (mprotect (ALIGN_FLOOR a ?ps) ?ps pr q)"] that assms(1)
    by (auto simp: two_def Let_def patch_page_of_def)
  define rwx where "rwx = PROT_READ OR PROT_WRITE OR PROT_EXEC"
  have "list_all (\<lambda>i. has_prot PROT_WRITE (two rwx p) (a + of_nat i)) [0..<length bs]"
    using w by (auto simp: list_all_iff has_prot_def prot2 rwx_def prot_defs)
  then have "memcpy a bs (two rwx p) = Inr ((two rwx p)\<lparr>memory := poke a bs (memory p)\<rparr>)"
    by (simp add: memcpy_def two)
  moreover have "DobbyCodePatch a bs p = bind_res (memcpy a bs (two rwx p)) (\<lambda>p3. Inr (0, two (PROT_READ OR PROT_EXEC) p3))"
    by (simp add: DobbyCodePatch_def Let_def two_def rwx_def)
  ultimately show ?thesis
    by (auto simp: two prot2)
qed

lemma DobbyCodePatch_memory:
  "DobbyCodePatch a bs p = Inr (r, p') \<Longrightarrow> memory p' = poke a bs (memory p)"
  by (auto simp: DobbyCodePatch_def Let_def bind_res_Inr_iff memcpy_def split: if_splits)

lemma two_pages_cover:
  assumes "page_size_ok ps" "unat a + n < 2 ^ 64" "n \<le> unat ps" "i < n"
  shows "patch_page_of ps a n (a + of_nat i)"
proof -
  obtain k where k: "k < 31" "ps = 2 ^ k" using assms(1) by (auto simp: page_size_ok_def)
  have "(unat a + n) div 2 ^ k \<le> (unat a + 2 ^ k) div 2 ^ k"
    using assms(3) k by (intro div_le_mono) (simp add: unat_page_size)
  moreover have "(unat a + 2 ^ k) div 2 ^ k = unat a div 2 ^ k + 1" by (rule div_add_self2) simp
  ultimately have "(unat a + n) div 2 ^ k \<le> Suc (unat a div 2 ^ k)" by linarith
  moreover have "unat a div 2 ^ k \<le> (unat a + i) div 2 ^ k" "(unat a + i) div 2 ^ k \<le> (unat a + n) div 2 ^ k"
    using assms(4) by (auto intro: div_le_mono)
  ultimately have "(unat a + i) div 2 ^ k = unat a div 2 ^ k \<or> (unat a + i) div 2 ^ k = (unat a + n) div 2 ^ k"
    by linarith
  then show ?thesis using k assms(2,4) by (simp add: patch_page_of_def ALIGN_FLOOR_eq_iff unat_add_addr)
qed

lemma poke_outside: "\<not> unat (x - a) < length bs \<Longrightarrow> poke a bs m x = m x"
  by (simp add: poke_def)

lemma poke_inside: "i < length bs \<Longrightarrow> length bs \<le> 2 ^ 64 \<Longrightarrow> poke a bs m (a + of_nat i) = bs ! i"
  by (simp add: poke_def unat_of_nat)

subsection \<open>Properties\<close>

text \<open>
  C20: A code patch of at most one page of bytes succeeds when every byte it covers is mapped, whatever the
  protection of the pages: it stores exactly the buffer and nothing else, and leaves the (at most two)
  pages readable and executable, every other page as it was.
\<close>
theorem DobbyCodePatch_exact:
  assumes "page_size_ok (page_size p)" "unat a + length bs < 2 ^ 64" "length bs \<le> unat (page_size p)"
    and "\<forall>i < length bs. prot_at p (a + of_nat i) \<noteq> None"
  shows "\<exists>p'. DobbyCodePatch a bs p = Inr (0, p') \<and>
    (\<forall>i < length bs. memory p' (a + of_nat i) = bs ! i) \<and>
    (\<forall>x. \<not> in_range a (of_nat (length bs)) x \<longrightarrow> memory p' x = memory p x) \<and>
    (\<forall>i < length bs. prot_at p' (a + of_nat i) = Some (PROT_READ OR PROT_EXEC)) \<and>
    (\<forall>x. \<not> patch_page_of (page_size p) a (length bs) x \<longrightarrow> prot_at p' x = prot_at p x)"
proof -
  have c: "\<forall>i < length bs. patch_page_of (page_size p) a (length bs) (a + of_nat i)"
    using assms(1-3) two_pages_cover by blast
  then obtain p' where p': "DobbyCodePatch a bs p = Inr (0, p')" "memory p' = poke a bs (memory p)"
      "\<forall>x. prot_at p' x = (if patch_page_of (page_size p) a (length bs) x \<and> prot_at p x \<noteq> None
                         then Some (PROT_READ OR PROT_EXEC) else prot_at p x)"
    using DobbyCodePatch_eq [of p bs a] assms(1,4) by blast
  have l: "length bs < 2 ^ 64" using assms(2) by simp
  then have "\<not> in_range a (of_nat (length bs)) x \<Longrightarrow> memory p' x = memory p x" for x
    by (simp add: p'(2) poke_outside in_range_def word_less_nat_alt unat_of_nat)
  then show ?thesis
    using p' c assms(4) l by (auto simp: poke_inside)
qed

text \<open>A process with pages of sixteen bytes, for the witnesses: one page executable, the next writable.\<close>

definition demo_process :: process where
  "demo_process = \<lparr>page_size = 16, page_prot = (\<lambda>b. if b = 0x100 \<or> b = 0x120 then Some 5 else if b = 0x110 then Some 3 else None),
     memory = (\<lambda>_. 0)\<rparr>"

lemma page_size_ok_16: "page_size_ok 16"
  unfolding page_size_ok_def by (rule exI [of _ 4]) simp

lemma all_less_code: "(\<forall>i < n. P i) \<longleftrightarrow> list_all P [0..<n]"
  by (auto simp: list_all_iff)

theorem DobbyCodePatch_exact_witness:
  "\<exists>p'. DobbyCodePatch 0x10E [0x1F, 0x20, 0x03] demo_process = Inr (0, p') \<and>
     memory p' 0x10E = 0x1F \<and> memory p' 0x110 = 0x03 \<and> memory p' 0x111 = 0 \<and> prot_at p' 0x110 = Some 5"
proof -
  have "\<forall>i < length [0x1F, 0x20, 0x03 :: u8]. prot_at demo_process (0x10E + of_nat i) \<noteq> None"
    unfolding all_less_code by code_simp
  moreover have ok: "page_size_ok (page_size demo_process)" "unat (0x10E :: addr) + length [0x1F, 0x20, 0x03 :: u8] < 2 ^ 64"
      "length [0x1F, 0x20, 0x03 :: u8] \<le> unat (page_size demo_process)"
    by (simp_all add: demo_process_def page_size_ok_16)
  ultimately obtain p' where p': "DobbyCodePatch 0x10E [0x1F, 0x20, 0x03] demo_process = Inr (0, p')"
      "\<forall>i < length [0x1F, 0x20, 0x03 :: u8]. memory p' (0x10E + of_nat i) = [0x1F, 0x20, 0x03] ! i"
      "\<forall>x. \<not> in_range 0x10E (of_nat (length [0x1F, 0x20, 0x03 :: u8])) x \<longrightarrow> memory p' x = memory demo_process x"
      "\<forall>i < length [0x1F, 0x20, 0x03 :: u8]. prot_at p' (0x10E + of_nat i) = Some (PROT_READ OR PROT_EXEC)"
    using DobbyCodePatch_exact [of demo_process "0x10E" "[0x1F, 0x20, 0x03]"] ok by blast
  have "memory p' 0x111 = 0"
    using p'(3) [rule_format, of "0x111"] by (simp add: in_range_def demo_process_def)
  then show ?thesis
    using p'(1) p'(2) [rule_format, of 0] p'(2) [rule_format, of 2] p'(4) [rule_format, of 2]
    by (auto simp: prot_defs)
qed

text \<open>
  A patch that ends exactly on a page boundary also changes the page after it: a mapped page that the
  patch does not touch loses its own protection and becomes read-execute.
\<close>
theorem DobbyCodePatch_next_page:
  assumes "page_size_ok (page_size p)" "unat a + length bs < 2 ^ 64" "length bs \<le> unat (page_size p)"
    and "\<forall>i < length bs. prot_at p (a + of_nat i) \<noteq> None"
    and "ALIGN_FLOOR (a + of_nat (length bs)) (page_size p) = a + of_nat (length bs)"
    and "prot_at p (a + of_nat (length bs)) = Some (PROT_READ OR PROT_WRITE)"
  shows "\<exists>p'. DobbyCodePatch a bs p = Inr (0, p') \<and> prot_at p' (a + of_nat (length bs)) = Some (PROT_READ OR PROT_EXEC)"
proof -
  have "\<forall>i < length bs. patch_page_of (page_size p) a (length bs) (a + of_nat i)"
    using assms(1-3) two_pages_cover by blast
  then show ?thesis
    using DobbyCodePatch_eq [of p bs a] assms by (force simp: patch_page_of_def)
qed

theorem DobbyCodePatch_next_page_witness:
  "\<exists>p'. DobbyCodePatch 0x10D [0x1F, 0x20, 0x03] demo_process = Inr (0, p') \<and> prot_at p' 0x110 = Some 5"
proof -
  have "\<forall>i < length [0x1F, 0x20, 0x03 :: u8]. prot_at demo_process (0x10D + of_nat i) \<noteq> None"
    unfolding all_less_code by code_simp
  moreover have "ALIGN_FLOOR 0x110 (page_size demo_process) = 0x110" "prot_at demo_process 0x110 = Some 3"
    by code_simp+
  ultimately show ?thesis
    using DobbyCodePatch_next_page [of demo_process "0x10D" "[0x1F, 0x20, 0x03]"]
    by (simp add: demo_process_def page_size_ok_16 prot_defs)
qed

text \<open>
  Only the first and the last page of a patch are made writable: a patch that covers a whole page
  between them crashes when that page is not writable already.
\<close>
theorem DobbyCodePatch_middle_page:
  assumes "page_size_ok (page_size p)" "unat a + length bs < 2 ^ 64"
    and "unat a div unat (page_size p) + 2 \<le> (unat a + length bs) div unat (page_size p)"
    and "\<not> has_prot PROT_WRITE p (ALIGN_FLOOR a (page_size p) + page_size p)"
  shows "DobbyCodePatch a bs p = Inl Segv"
proof -
  obtain k where k: "k < 31" "page_size p = 2 ^ k" using assms(1) by (auto simp: page_size_ok_def)
  let ?ps = "page_size p" and ?m = "ALIGN_FLOOR a (page_size p) + page_size p"
  let ?P = "(2 :: nat) ^ k"
  define i where "i = ?P - unat a mod ?P"
  have up: "unat ?ps = ?P" using k by (simp add: unat_page_size)
  have "unat a = unat a div ?P * ?P + unat a mod ?P" by (rule div_mult_mod_eq [symmetric])
  moreover have "unat a mod ?P < ?P" by simp
  ultimately have "unat a + i = unat a div ?P * ?P + ?P" unfolding i_def by linarith
  then have i: "unat a + i = (unat a div ?P + 1) * ?P" by simp
  have "(unat a div ?P + 2) * ?P \<le> unat a + length bs"
    using assms(3) up by (simp add: less_eq_div_iff_mult_less_eq)
  moreover have "(unat a div ?P + 2) * ?P = (unat a div ?P + 1) * ?P + ?P" "0 < ?P" by simp_all
  ultimately have il: "i < length bs" using i by linarith
  then have um: "unat (a + of_nat i) = (unat a div ?P + 1) * ?P" using assms(2) i by (simp add: unat_add_addr)
  have "unat ?m = (unat a div ?P + 1) * ?P"
    using i il assms(2) k by (simp add: unat_word_ariths unat_ALIGN_FLOOR unat_page_size)
  then have m: "a + of_nat i = ?m" using um by (simp add: word_unat_eq_iff)
  have fl: "ALIGN_FLOOR ?m ?ps \<noteq> ALIGN_FLOOR a ?ps" "ALIGN_FLOOR ?m ?ps \<noteq> ALIGN_FLOOR (a + of_nat (length bs)) ?ps"
      "ALIGN_FLOOR a ?ps \<noteq> ALIGN_FLOOR (a + of_nat (length bs)) ?ps"
    using um m k assms(2,3) up by (auto simp: ALIGN_FLOOR_eq_iff unat_add_addr)
  have keep: "has_prot PROT_WRITE (snd (mprotect (ALIGN_FLOOR b ?ps) ?ps pr q)) ?m = has_prot PROT_WRITE q ?m"
    if "page_size q = ?ps" "ALIGN_FLOOR ?m ?ps \<noteq> ALIGN_FLOOR b ?ps" for b pr q
    using prot_at_mprotect_page [of q b pr ?m] that assms(1) by (simp add: has_prot_def)
  have "memcpy a bs q = Inl Segv" if "\<not> has_prot PROT_WRITE q ?m" for q
    using that il m by (auto simp: memcpy_def list_all_iff intro!: bexI [of _ i])
  then show ?thesis
    using fl assms(4) by (simp add: DobbyCodePatch_def Let_def keep)
qed

theorem DobbyCodePatch_middle_page_witness:
  "DobbyCodePatch 0x101 (replicate 40 0) (demo_process\<lparr>page_prot := (\<lambda>_. Some 5)\<rparr>) = Inl Segv"
proof (rule DobbyCodePatch_middle_page)
  show "\<not> has_prot PROT_WRITE (demo_process\<lparr>page_prot := (\<lambda>_. Some 5)\<rparr>)
     (ALIGN_FLOOR 0x101 (page_size (demo_process\<lparr>page_prot := (\<lambda>_. Some 5)\<rparr>)) + page_size (demo_process\<lparr>page_prot := (\<lambda>_. Some 5)\<rparr>))"
    by code_simp
qed (simp_all add: demo_process_def page_size_ok_16)

lemma layout_loop_all:
  "layout_loop rs (map Some ls) = (True, rs @ map (\<lambda>(s, e, pm). MemRegion s (e - s) (region_permission pm)) ls)"
  by (induction ls arbitrary: rs) auto

lemma layout_loop_stop: "layout_loop rs (map Some ls @ [None]) = (False, rs @ map (\<lambda>(s, e, pm). MemRegion s (e - s) (region_permission pm)) ls)"
  by (induction ls arbitrary: rs) auto

text \<open>
  When every line parses and the last one is still in the buffer, the layout is sorted by start address and holds the
  region of the last line twice; when nothing can be parsed from the buffer, the layout is in the order of the file. No
  region is ever reported as writable and executable, since the test for \<^verbatim>\<open>rwx\<close> comes after the test for \<^verbatim>\<open>rw\<close>.
\<close>

lemma GetProcessMemoryLayout_sorted:
  defines "region \<equiv> \<lambda>(s, e, pm). MemRegion s (e - s) (region_permission pm)"
  assumes "ls \<noteq> []"
  shows "sorted (map mr_start (GetProcessMemoryLayout (Some (map Some ls, Some (last ls)))))"
    "mset (GetProcessMemoryLayout (Some (map Some ls, Some (last ls)))) = mset (map region ls) + {#region (last ls)#}"
    "GetProcessMemoryLayout (Some (map Some ls, None)) = map region ls"
    "kReadWriteExecute \<notin> mr_permission ` set (GetProcessMemoryLayout (Some (map Some ls, b)))"
proof -
  have ll: "layout_loop [] (map Some ls @ [Some x]) = (True, map region ls @ [region x])" for x
    using layout_loop_all [of "[]" "ls @ [x]"] by (simp add: region_def)
  show "sorted (map mr_start (GetProcessMemoryLayout (Some (map Some ls, Some (last ls)))))"
    "mset (GetProcessMemoryLayout (Some (map Some ls, Some (last ls)))) = mset (map region ls) + {#region (last ls)#}"
    by (simp_all add: GetProcessMemoryLayout_def maps_passes_def ll)
  show "GetProcessMemoryLayout (Some (map Some ls, None)) = map region ls"
    by (simp add: GetProcessMemoryLayout_def maps_passes_def layout_loop_stop region_def)
  have "kReadWriteExecute \<noteq> mr_permission (region x)" for x
    by (cases x) (simp add: region_def region_permission_def MemRegion_def MemRegion.fields_def MemRange.extend_def)
  moreover have "layout_loop [] (map Some ls @ [None]) = (False, map region ls)" by (simp add: layout_loop_stop region_def)
  ultimately show "kReadWriteExecute \<notin> mr_permission ` set (GetProcessMemoryLayout (Some (map Some ls, b)))"
    by (cases b) (auto simp: GetProcessMemoryLayout_def maps_passes_def ll)
qed

end
