(* ===== verification/Mem_Alloc.thy ===== *)
theory Mem_Alloc
  imports Process_Memory
begin

text \<open>
  The allocators of executable and data memory (\<^verbatim>\<open>MemoryAllocator.cc\<close>,
  \<^verbatim>\<open>NearMemoryAllocator.cc\<close>) and \<^verbatim>\<open>AssemblyCodeBuilder.cc\<close>, which places an assembled buffer.
  An arena is a bump allocator; the allocators keep a list of code arenas and a list of data arenas.
  The state of a call is the pair of the shared allocator and the process. The kernel's answers
  (\<open>kmmap\<close>, and the lines of \<^verbatim>\<open>/proc/self/maps\<close>) are the parameter \<open>kernel\<close>. A null pointer
  returned for a block is \<open>None\<close>, a null address is 0.
\<close>

record kernel =
  k_mmap :: kmmap
  k_maps :: "process \<Rightarrow> maps_file option"

subsection \<open>Blocks and arenas (MemoryAllocator.h)\<close>

record MemBlock = MemRange +
  blk_addr :: addr

record MemoryArena = MemRange +
  arena_addr :: addr
  cursor_addr :: addr
  memory_blocks :: "MemBlock list"

definition MemBlock :: "addr \<Rightarrow> addr \<Rightarrow> MemBlock" where
  "MemBlock a n = MemRange.extend (MemRange a n) (MemBlock.fields a)"

definition MemBlock_reset :: "MemBlock \<Rightarrow> addr \<Rightarrow> addr \<Rightarrow> MemBlock" where
  "MemBlock_reset b a n = (MemRange_reset b a n)\<lparr>blk_addr := a\<rparr>"

definition MemoryArena :: "addr \<Rightarrow> addr \<Rightarrow> MemoryArena" where
  "MemoryArena a n = MemRange.extend (MemRange a n) (MemoryArena.fields a a [])"

definition allocMemBlock :: "addr \<Rightarrow> MemoryArena \<Rightarrow> MemBlock option \<times> MemoryArena" where
  "allocMemBlock n arena =
     (if mr_end arena - cursor_addr arena < n then (None, arena)
      else (Some (MemBlock (cursor_addr arena) n), arena\<lparr>cursor_addr := cursor_addr arena + n\<rparr>))"

subsection \<open>The default allocator (MemoryAllocator.cc)\<close>

record MemoryAllocator =
  code_arenas :: "MemoryArena list"
  data_arenas :: "MemoryArena list"

record machine =
  allocator :: MemoryAllocator
  proc :: process

definition MemoryAllocator :: MemoryAllocator where
  "MemoryAllocator = \<lparr>code_arenas = [], data_arenas = []\<rparr>"

definition upd_code :: "(MemoryArena list \<Rightarrow> MemoryArena list) \<Rightarrow> machine \<Rightarrow> machine" where
  "upd_code f m = m\<lparr>allocator := (allocator m)\<lparr>code_arenas := f (code_arenas (allocator m))\<rparr>\<rparr>"

definition upd_data :: "(MemoryArena list \<Rightarrow> MemoryArena list) \<Rightarrow> machine \<Rightarrow> machine" where
  "upd_data f m = m\<lparr>allocator := (allocator m)\<lparr>data_arenas := f (data_arenas (allocator m))\<rparr>\<rparr>"

text \<open>The loop over the arenas that stops at the first arena with room, and the block of the arena at the end.\<close>

fun alloc_first :: "addr \<Rightarrow> MemoryArena list \<Rightarrow> MemBlock option \<times> MemoryArena list" where
  "alloc_first n [] = (None, [])"
| "alloc_first n (arena # as) =
     (case allocMemBlock n arena of
        (Some block, arena') \<Rightarrow> (Some block, arena' # as)
      | (None, arena') \<Rightarrow> (let (r, as') = alloc_first n as in (r, arena' # as')))"

definition alloc_at :: "nat \<Rightarrow> addr \<Rightarrow> MemoryArena list \<Rightarrow> MemBlock option \<times> MemoryArena list" where
  "alloc_at i n as = (let (r, arena') = allocMemBlock n (as ! i) in (r, as[i := arena']))"

definition allocateCodeMemoryArena :: "kernel \<Rightarrow> u32 \<Rightarrow> machine \<Rightarrow> crash + machine" where
  "allocateCodeMemoryArena k n m =
     (if n mod ucast (OSMemory_PageSize (proc m)) \<noteq> 0 then Inl Fatal
      else let arena_size = ucast n;
               (arena_addr, p1) = OSMemory_Allocate (k_mmap k) arena_size kNoAccess 0 (proc m);
               p2 = snd (OSMemory_SetPermission arena_addr arena_size kReadExecute p1) in
           Inr (upd_code (\<lambda>as. as @ [MemoryArena arena_addr arena_size]) (m\<lparr>proc := p2\<rparr>)))"

text \<open>The block the caller takes from the arena just pushed; \<^verbatim>\<open>CHECK_NOT_NULL\<close> aborts when it has no room.\<close>

definition alloc_from_new :: "u32 \<Rightarrow> machine \<Rightarrow> crash + (MemBlock \<times> machine)" where
  "alloc_from_new n m =
     (case alloc_at (length (code_arenas (allocator m)) - 1) (ucast n) (code_arenas (allocator m)) of
        (None, _) \<Rightarrow> Inl Fatal
      | (Some block, as) \<Rightarrow> Inr (block, upd_code (\<lambda>_. as) m))"

definition allocateExecBlock :: "kernel \<Rightarrow> u32 \<Rightarrow> machine \<Rightarrow> crash + (MemBlock \<times> machine)" where
  "allocateExecBlock k n m =
     (case alloc_first (ucast n) (code_arenas (allocator m)) of
        (Some block, as) \<Rightarrow> Inr (block, upd_code (\<lambda>_. as) m)
      | (None, as) \<Rightarrow>
          let arena_size = ucast (ALIGN_CEIL (ucast n) (OSMemory_PageSize (proc m))) in
          bind_res (allocateCodeMemoryArena k arena_size (upd_code (\<lambda>_. as) m)) (alloc_from_new n))"

definition allocateExecMemory :: "kernel \<Rightarrow> u32 \<Rightarrow> machine \<Rightarrow> crash + (addr \<times> machine)" where
  "allocateExecMemory k n m = bind_res (allocateExecBlock k n m) (\<lambda>(block, m'). Inr (blk_addr block, m'))"

text \<open>\<^verbatim>\<open>allocateExecMemory(buffer, buffer_size)\<close>; \<^verbatim>\<open>DobbyCodePatch\<close> always returns 0, which \<^verbatim>\<open>CHECK_EQ\<close> tests.\<close>

definition patch_machine :: "addr \<Rightarrow> u8 list \<Rightarrow> machine \<Rightarrow> crash + (int \<times> machine)" where
  "patch_machine a bs m = bind_res (DobbyCodePatch a bs (proc m)) (\<lambda>(r, p). Inr (r, m\<lparr>proc := p\<rparr>))"

definition allocateExecMemory_buffer :: "kernel \<Rightarrow> u8 list \<Rightarrow> machine \<Rightarrow> crash + (addr \<times> machine)" where
  "allocateExecMemory_buffer k buffer m =
     bind_res (allocateExecMemory k (of_nat (length buffer)) m) (\<lambda>(mem, m1).
     bind_res (patch_machine mem buffer m1) (\<lambda>(ret, m2).
       if ret = 0 then Inr (mem, m2) else Inl Fatal))"

definition allocateDataMemoryArena :: "kernel \<Rightarrow> u32 \<Rightarrow> machine \<Rightarrow> machine" where
  "allocateDataMemoryArena k n m =
     (let buffer_size = ucast (ucast (ALIGN_CEIL (ucast n) (OSMemory_PageSize (proc m))) :: u32);
          (buffer, p1) = OSMemory_Allocate (k_mmap k) buffer_size kNoAccess 0 (proc m);
          p2 = snd (OSMemory_SetPermission buffer buffer_size kReadWrite p1) in
      upd_data (\<lambda>as. as @ [MemoryArena buffer buffer_size]) (m\<lparr>proc := p2\<rparr>))"

definition allocateDataBlock :: "kernel \<Rightarrow> u32 \<Rightarrow> machine \<Rightarrow> crash + (MemBlock \<times> machine)" where
  "allocateDataBlock k n m =
     (case alloc_first (ucast n) (data_arenas (allocator m)) of
        (Some block, as) \<Rightarrow> Inr (block, upd_data (\<lambda>_. as) m)
      | (None, as) \<Rightarrow> bind_res (allocateCodeMemoryArena k n (upd_data (\<lambda>_. as) m)) (alloc_from_new n))"

definition allocateDataMemory :: "kernel \<Rightarrow> u32 \<Rightarrow> machine \<Rightarrow> crash + (addr \<times> machine)" where
  "allocateDataMemory k n m = bind_res (allocateDataBlock k n m) (\<lambda>(block, m'). Inr (blk_addr block, m'))"

definition copy_machine :: "addr \<Rightarrow> u8 list \<Rightarrow> machine \<Rightarrow> crash + (addr \<times> machine)" where
  "copy_machine a bs m = bind_res (memcpy a bs (proc m)) (\<lambda>p. Inr (a, m\<lparr>proc := p\<rparr>))"

definition allocateDataMemory_buffer :: "kernel \<Rightarrow> u8 list \<Rightarrow> machine \<Rightarrow> crash + (addr \<times> machine)" where
  "allocateDataMemory_buffer k buffer m =
     bind_res (allocateDataMemory k (of_nat (length buffer)) m) (\<lambda>(mem, m1). copy_machine mem buffer m1)"

subsection \<open>The near allocator (NearMemoryAllocator.cc)\<close>

definition allocateFromDefaultArena :: "addr \<Rightarrow> addr \<Rightarrow> u32 \<Rightarrow> MemoryArena \<Rightarrow> addr" where
  "allocateFromDefaultArena min_valid_addr max_valid_addr n arena =
     (let unused_mem_start = cursor_addr arena;
          unused_mem_end = arena_addr arena + mr_size arena in
      if unused_mem_end < min_valid_addr \<or> unused_mem_start > max_valid_addr then 0
      else
        let unused_mem_start = max unused_mem_start min_valid_addr;
            unused_mem_end = min unused_mem_end max_valid_addr in
        if unused_mem_start \<ge> unused_mem_end then 0
        else if unused_mem_end - unused_mem_start < ucast n then 0
        else unused_mem_start)"

text \<open>
  The two loops over the arenas: for code the first arena that gives an address, for data every arena is
  asked and only the answer of the last one is kept. Both return the index of the arena they end at.
\<close>

fun near_code_loop :: "(MemoryArena \<Rightarrow> addr) \<Rightarrow> nat \<Rightarrow> nat \<times> addr \<Rightarrow> MemoryArena list \<Rightarrow> nat \<times> addr" where
  "near_code_loop f i r [] = r"
| "near_code_loop f i r (arena # as) =
     (let unused_mem = f arena in
      if unused_mem = 0 then near_code_loop f (Suc i) (i, unused_mem) as else (i, unused_mem))"

fun near_data_loop :: "(MemoryArena \<Rightarrow> addr) \<Rightarrow> nat \<Rightarrow> nat \<times> addr \<Rightarrow> MemoryArena list \<Rightarrow> nat \<times> addr" where
  "near_data_loop f i r [] = r"
| "near_data_loop f i r (arena # as) = near_data_loop f (Suc i) (i, f arena) as"

text \<open>Skipping the placeholder and taking the block, from the arena at index \<open>i\<close>.\<close>

definition alloc_near_at :: "nat \<Rightarrow> addr \<Rightarrow> u32 \<Rightarrow> MemoryArena list \<Rightarrow> MemBlock option \<times> MemoryArena list" where
  "alloc_near_at i unused_mem n as =
     (let placeholder_block_size = unused_mem - cursor_addr (as ! i);
          as1 = snd (alloc_at i placeholder_block_size as) in
      alloc_at i (ucast n) as1)"

definition allocateNearBlockFromDefaultAllocator ::
    "u32 \<Rightarrow> addr \<Rightarrow> addr \<Rightarrow> bool \<Rightarrow> machine \<Rightarrow> MemBlock option \<times> machine" where
  "allocateNearBlockFromDefaultAllocator n pos search_range executable m =
     (let min_valid_addr = pos - search_range;
          max_valid_addr = pos + search_range;
          f = allocateFromDefaultArena min_valid_addr max_valid_addr n;
          as = (if executable then code_arenas (allocator m) else data_arenas (allocator m));
          (i, unused_mem) = (if executable then near_code_loop f 0 (0, 0) as else near_data_loop f 0 (0, 0) as) in
      if unused_mem = 0 then (None, m)
      else let (block, as') = alloc_near_at i unused_mem n as in
           (block, if executable then upd_code (\<lambda>_. as') m else upd_data (\<lambda>_. as') m))"

definition check_has_sufficient_memory_between_region ::
    "addr \<Rightarrow> addr \<Rightarrow> u32 \<Rightarrow> MemRegion \<Rightarrow> MemRegion \<Rightarrow> addr" where
  "check_has_sufficient_memory_between_region min_valid_addr max_valid_addr n region next_region =
     (let unused_mem_start = mr_start region + mr_size region;
          unused_mem_end = mr_start next_region in
      if unused_mem_end < min_valid_addr \<or> unused_mem_start > max_valid_addr then 0
      else
        let unused_mem_start = ALIGN_FLOOR unused_mem_start 4;
            unused_mem_start = max unused_mem_start min_valid_addr;
            unused_mem_end = min unused_mem_end max_valid_addr in
        if unused_mem_start \<ge> unused_mem_end then 0
        else if unused_mem_end - unused_mem_start < ucast n then 0
        else unused_mem_start)"

fun region_loop :: "(MemRegion \<Rightarrow> MemRegion \<Rightarrow> addr) \<Rightarrow> MemRegion list \<Rightarrow> addr" where
  "region_loop f (r # r' # rs) = (if f r r' = 0 then region_loop f (r' # rs) else f r r')"
| "region_loop f rs = 0"

definition register_near_arena :: "addr \<Rightarrow> addr \<Rightarrow> bool \<Rightarrow> machine \<Rightarrow> machine" where
  "register_near_arena a arena_size executable m =
     (let push = (\<lambda>as. as @ [MemoryArena a arena_size]);
          m1 = (if executable then upd_code push m else upd_data push m);
          p = snd (OSMemory_SetPermission a arena_size
                (if executable then kReadExecute else kReadWrite) (proc m1)) in
      m1\<lparr>proc := p\<rparr>)"

definition allocateNearBlockFromUnusedRegion ::
    "kernel \<Rightarrow> u32 \<Rightarrow> addr \<Rightarrow> addr \<Rightarrow> bool \<Rightarrow> machine \<Rightarrow> MemBlock option \<times> machine" where
  "allocateNearBlockFromUnusedRegion k n pos search_range executable m =
     (let min_valid_addr = pos - search_range;
          max_valid_addr = pos + search_range;
          regions = GetProcessMemoryLayout (k_maps k (proc m));
          unused_mem = region_loop (check_has_sufficient_memory_between_region min_valid_addr max_valid_addr n) regions;
          ps = OSMemory_PageSize (proc m) in
      if unused_mem = 0 then (None, m)
      else
        let unused_arena_first_page_addr = ALIGN_FLOOR unused_mem ps;
            unused_arena_end_page_addr = ALIGN_FLOOR (unused_mem + ucast n) ps;
            unused_arena_size = unused_arena_end_page_addr - unused_arena_first_page_addr + ps;
            unused_arena_addr = unused_arena_first_page_addr;
            (r, p) = OSMemory_Allocate (k_mmap k) unused_arena_size kNoAccess unused_arena_addr (proc m);
            m1 = m\<lparr>proc := p\<rparr> in
        if r = 0 then (None, m1)
        else
          let m2 = register_near_arena unused_arena_addr unused_arena_size executable m1;
              as = (if executable then code_arenas (allocator m2) else data_arenas (allocator m2));
              (block, as') = alloc_near_at (length as - 1) unused_mem n as in
          (block, if executable then upd_code (\<lambda>_. as') m2 else upd_data (\<lambda>_. as') m2))"

definition allocateNearBlock :: "kernel \<Rightarrow> u32 \<Rightarrow> addr \<Rightarrow> addr \<Rightarrow> bool \<Rightarrow> machine \<Rightarrow> MemBlock option \<times> machine" where
  "allocateNearBlock k n pos search_range executable m =
     (case allocateNearBlockFromDefaultAllocator n pos search_range executable m of
        (Some b, m1) \<Rightarrow> (Some b, m1)
      | (None, m1) \<Rightarrow> allocateNearBlockFromUnusedRegion k n pos search_range executable m1)"

definition block_address :: "MemBlock option \<times> machine \<Rightarrow> addr \<times> machine" where
  "block_address r = (case r of (None, m) \<Rightarrow> (0, m) | (Some block, m) \<Rightarrow> (blk_addr block, m))"

definition allocateNearExecMemory :: "kernel \<Rightarrow> u32 \<Rightarrow> addr \<Rightarrow> addr \<Rightarrow> machine \<Rightarrow> addr \<times> machine" where
  "allocateNearExecMemory k n pos search_range m = block_address (allocateNearBlock k n pos search_range True m)"

definition allocateNearExecMemory_buffer ::
    "kernel \<Rightarrow> u8 list \<Rightarrow> addr \<Rightarrow> addr \<Rightarrow> machine \<Rightarrow> crash + (addr \<times> machine)" where
  "allocateNearExecMemory_buffer k buffer pos search_range m =
     (let (mem, m1) = allocateNearExecMemory k (of_nat (length buffer)) pos search_range m in
      bind_res (patch_machine mem buffer m1) (\<lambda>(ret, m2). if ret = 0 then Inr (mem, m2) else Inl Fatal))"

definition allocateNearDataMemory :: "kernel \<Rightarrow> u32 \<Rightarrow> addr \<Rightarrow> addr \<Rightarrow> machine \<Rightarrow> addr \<times> machine" where
  "allocateNearDataMemory k n pos search_range m = block_address (allocateNearBlock k n pos search_range False m)"

definition allocateNearDataMemory_buffer ::
    "kernel \<Rightarrow> u8 list \<Rightarrow> addr \<Rightarrow> addr \<Rightarrow> machine \<Rightarrow> crash + (addr \<times> machine)" where
  "allocateNearDataMemory_buffer k buffer pos search_range m =
     (let (mem, m1) = allocateNearExecMemory k (of_nat (length buffer)) pos search_range m in
      copy_machine mem buffer m1)"

subsection \<open>Placing assembled code (AssemblyCodeBuilder.cc)\<close>

definition FinalizeFromTurboAssembler :: "kernel \<Rightarrow> assembler \<Rightarrow> machine \<Rightarrow> crash + (MemBlock \<times> assembler \<times> machine)" where
  "FinalizeFromTurboAssembler k a m =
     (let buffer = asm_buffer a in
      bind_res
        (if GetRealizedAddress a = 0
         then bind_res (allocateExecBlock k (of_nat (GetBufferSize buffer)) m) (\<lambda>(block, m1).
                Inr (SetRealizedAddress a (blk_addr block), m1))
         else Inr (a, m))
        (\<lambda>(a1, m1).
          bind_res (patch_machine (GetRealizedAddress a1) (GetBuffer buffer) m1) (\<lambda>(_, m2).
            Inr (MemBlock (GetRealizedAddress a1) (of_nat (GetBufferSize buffer)), a1, m2))))"

subsection \<open>The contract of an allocator\<close>

text \<open>
  An allocator hands out cells that were not in use and marks them as used. The client lemma is about any
  sequence of requests: the blocks it gets are pairwise disjoint.
\<close>

primrec alloc_run :: "('s \<Rightarrow> 'r \<Rightarrow> ('b \<times> 's) option) \<Rightarrow> 's \<Rightarrow> 'r list \<Rightarrow> ('b list \<times> 's) option" where
  "alloc_run alloc s [] = Some ([], s)"
| "alloc_run alloc s (r # rs) =
     (case alloc s r of None \<Rightarrow> None | Some (b, s') \<Rightarrow>
        (case alloc_run alloc s' rs of None \<Rightarrow> None | Some (bs, s'') \<Rightarrow> Some (b # bs, s'')))"

locale region_allocator =
  fixes alloc :: "'s \<Rightarrow> 'r \<Rightarrow> ('b \<times> 's) option"
    and ok :: "'s \<Rightarrow> bool"
    and used :: "'s \<Rightarrow> addr set"
    and cells :: "'b \<Rightarrow> addr set"
    and serves :: "'r \<Rightarrow> 'b \<Rightarrow> bool"
  assumes alloc_ok: "ok s \<Longrightarrow> alloc s r = Some (b, s') \<Longrightarrow> ok s'"
    and alloc_unused: "ok s \<Longrightarrow> alloc s r = Some (b, s') \<Longrightarrow> cells b \<inter> used s = {}"
    and alloc_used: "ok s \<Longrightarrow> alloc s r = Some (b, s') \<Longrightarrow> used s \<union> cells b \<subseteq> used s'"
    and alloc_serves: "ok s \<Longrightarrow> alloc s r = Some (b, s') \<Longrightarrow> serves r b"
begin

lemma run_spec:
  "ok s \<Longrightarrow> alloc_run alloc s rs = Some (bs, s') \<Longrightarrow>
     ok s' \<and> used s \<subseteq> used s' \<and> (\<forall>b \<in> set bs. cells b \<inter> used s = {} \<and> cells b \<subseteq> used s') \<and>
     sorted_wrt (\<lambda>b c. cells b \<inter> cells c = {}) bs \<and> list_all2 serves rs bs"
proof (induction rs arbitrary: s bs)
  case Nil
  then show ?case by simp
next
  case (Cons r rs)
  then obtain b s1 bs' where 1: "alloc s r = Some (b, s1)" and 2: "alloc_run alloc s1 rs = Some (bs', s')"
      and bs: "bs = b # bs'"
    by (auto split: option.splits)
  note laws = alloc_ok [OF Cons.prems(1) 1] alloc_unused [OF Cons.prems(1) 1] alloc_used [OF Cons.prems(1) 1]
    alloc_serves [OF Cons.prems(1) 1]
  note ih = Cons.IH [OF laws(1) 2]
  have "\<forall>c \<in> set bs'. cells b \<inter> cells c = {} \<and> cells c \<inter> used s = {}" using ih laws(3) by blast
  then show ?case using ih laws unfolding bs by auto
qed

end

subsection \<open>Arenas\<close>

definition cells :: "addr \<Rightarrow> addr \<Rightarrow> addr set" where
  "cells a n = {x. unat a \<le> unat x \<and> unat x < unat a + unat n}"

definition block_cells :: "MemBlock \<Rightarrow> addr set" where
  "block_cells b = cells (blk_addr b) (mr_size b)"

definition arena_span :: "MemoryArena \<Rightarrow> addr set" where
  "arena_span A = cells (arena_addr A) (mr_size A)"

definition arena_used :: "MemoryArena \<Rightarrow> addr set" where
  "arena_used A = {x. unat (arena_addr A) \<le> unat x \<and> unat x < unat (cursor_addr A)}"

definition arena_ok :: "addr \<Rightarrow> MemoryArena \<Rightarrow> bool" where
  "arena_ok ps A \<longleftrightarrow> mr_end A = arena_addr A + mr_size A \<and> unat (arena_addr A) + unat (mr_size A) < 2 ^ 64 \<and>
     unat ps dvd unat (arena_addr A) \<and> unat ps dvd unat (mr_size A) \<and>
     unat (arena_addr A) \<le> unat (cursor_addr A) \<and> unat (cursor_addr A) \<le> unat (arena_addr A) + unat (mr_size A)"

lemma MemBlock_simps [simp]: "blk_addr (MemBlock a n) = a" "mr_size (MemBlock a n) = n" "mr_start (MemBlock a n) = a"
    "mr_end (MemBlock a n) = a + n"
  by (simp_all add: MemBlock_def MemRange_def MemRange.extend_def MemBlock.fields_def)

lemma MemoryArena_simps [simp]: "arena_addr (MemoryArena a n) = a" "mr_size (MemoryArena a n) = n"
    "mr_end (MemoryArena a n) = a + n" "cursor_addr (MemoryArena a n) = a"
  by (simp_all add: MemoryArena_def MemRange_def MemRange.extend_def MemoryArena.fields_def)

lemma unat_plus: "unat (x :: addr) + unat y < 2 ^ 64 \<Longrightarrow> unat (x + y) = unat x + unat y"
  using unat_add_addr [of x "unat y"] by simp

lemma unat_minus: "unat (y :: addr) \<le> unat x \<Longrightarrow> unat (x - y) = unat x - unat y"
  by (simp add: unat_sub_if_size)

lemma arena_end: "arena_ok ps A \<Longrightarrow> unat (mr_end A) = unat (arena_addr A) + unat (mr_size A)"
  by (simp add: arena_ok_def unat_plus)

lemma allocMemBlock_None: "allocMemBlock n A = (None, A') \<Longrightarrow> A' = A"
  by (simp add: allocMemBlock_def split: if_splits)

lemma allocMemBlock_Some:
  assumes "arena_ok ps A" "allocMemBlock n A = (Some b, A')"
  shows "b = MemBlock (cursor_addr A) n" "A' = A\<lparr>cursor_addr := cursor_addr A + n\<rparr>"
    "unat (cursor_addr A') = unat (cursor_addr A) + unat n"
    "unat (cursor_addr A) + unat n \<le> unat (arena_addr A) + unat (mr_size A)"
proof -
  show b: "b = MemBlock (cursor_addr A) n" "A' = A\<lparr>cursor_addr := cursor_addr A + n\<rparr>"
    using assms(2) by (auto simp: allocMemBlock_def split: if_splits)
  have "n \<le> mr_end A - cursor_addr A" using assms(2) by (auto simp: allocMemBlock_def not_less split: if_splits)
  then have "unat n \<le> unat (mr_end A) - unat (cursor_addr A)"
    using assms(1) arena_end [OF assms(1)] by (simp add: word_le_nat_alt unat_minus arena_ok_def)
  then show r: "unat (cursor_addr A) + unat n \<le> unat (arena_addr A) + unat (mr_size A)"
    using assms(1) arena_end [OF assms(1)] by (auto simp: arena_ok_def)
  then show "unat (cursor_addr A') = unat (cursor_addr A) + unat n"
    using assms(1) b(2) by (simp add: unat_plus arena_ok_def)
qed

lemma allocMemBlock_room:
  assumes "arena_ok ps A" "unat (cursor_addr A) + unat n \<le> unat (arena_addr A) + unat (mr_size A)"
  shows "allocMemBlock n A = (Some (MemBlock (cursor_addr A) n), A\<lparr>cursor_addr := cursor_addr A + n\<rparr>)"
proof -
  have "unat n \<le> unat (mr_end A - cursor_addr A)"
    using assms arena_end [OF assms(1)] by (simp add: unat_minus arena_ok_def)
  then show ?thesis by (simp add: allocMemBlock_def not_less [symmetric] word_less_nat_alt)
qed

lemma allocMemBlock_ok:
  assumes "arena_ok ps A" "allocMemBlock n A = (Some b, A')"
  shows "arena_ok ps A'" "arena_span A' = arena_span A" "arena_addr A' = arena_addr A"
    "block_cells b \<inter> arena_used A = {}" "block_cells b \<subseteq> arena_span A" "arena_used A \<subseteq> arena_span A"
    "arena_used A' = arena_used A \<union> block_cells b" "mr_size b = n"
  using allocMemBlock_Some [OF assms] assms(1)
  by (auto simp: arena_ok_def arena_span_def arena_used_def block_cells_def cells_def)

interpretation arena: region_allocator
  "\<lambda>A n. case allocMemBlock n A of (None, _) \<Rightarrow> None | (Some b, A') \<Rightarrow> Some (b, A')"
  "arena_ok ps" arena_used block_cells "\<lambda>n b. mr_size b = n" for ps
  by unfold_locales (auto split: prod.splits option.splits dest: allocMemBlock_ok)

subsection \<open>The allocators together\<close>

definition arenas_of :: "bool \<Rightarrow> machine \<Rightarrow> MemoryArena list" where
  "arenas_of executable m = (if executable then code_arenas (allocator m) else data_arenas (allocator m))"

definition upd_arenas :: "bool \<Rightarrow> (MemoryArena list \<Rightarrow> MemoryArena list) \<Rightarrow> machine \<Rightarrow> machine" where
  "upd_arenas executable f m = (if executable then upd_code f m else upd_data f m)"

definition arena_prot :: "bool \<Rightarrow> prot" where
  "arena_prot executable = (if executable then PROT_READ OR PROT_EXEC else PROT_READ OR PROT_WRITE)"

definition all_arenas :: "machine \<Rightarrow> MemoryArena list" where
  "all_arenas m = code_arenas (allocator m) @ data_arenas (allocator m)"

definition used_cells :: "machine \<Rightarrow> addr set" where
  "used_cells m = \<Union> (set (map arena_used (all_arenas m)))"

definition machine_ok :: "machine \<Rightarrow> bool" where
  "machine_ok m \<longleftrightarrow> page_size_ok (page_size (proc m)) \<and>
     (\<forall>A \<in> set (all_arenas m). arena_ok (page_size (proc m)) A) \<and>
     sorted_wrt (\<lambda>S T. S \<inter> T = {}) (map arena_span (all_arenas m)) \<and>
     (\<forall>ex. \<forall>A \<in> set (arenas_of ex m). \<forall>x \<in> arena_span A. prot_at (proc m) x = Some (arena_prot ex))"

text \<open>No request to the kernel failed: a failed one leaves an arena at the null address.\<close>

definition granted :: "machine \<Rightarrow> bool" where
  "granted m \<longleftrightarrow> list_all (\<lambda>A. arena_addr A \<noteq> 0) (all_arenas m)"

text \<open>What a successful allocation from the arenas of one kind gives.\<close>

definition allocates :: "bool \<Rightarrow> machine \<Rightarrow> addr \<Rightarrow> MemBlock \<Rightarrow> machine \<Rightarrow> bool" where
  "allocates ex m n b m' \<longleftrightarrow> machine_ok m' \<and> page_size (proc m') = page_size (proc m) \<and> mr_size b = n \<and>
     unat (blk_addr b) + unat n < 2 ^ 64 \<and>
     block_cells b \<inter> used_cells m = {} \<and> used_cells m \<union> block_cells b \<subseteq> used_cells m' \<and>
     (\<forall>x \<in> block_cells b. prot_at (proc m') x = Some (arena_prot ex))"

lemma upd_arenas_simps [simp]:
  "arenas_of ex (upd_arenas ex f m) = f (arenas_of ex m)" "proc (upd_arenas ex f m) = proc m"
  "arenas_of (\<not> ex) (upd_arenas ex f m) = arenas_of (\<not> ex) m"
  "arenas_of ex (m\<lparr>proc := p\<rparr>) = arenas_of ex m" "all_arenas (m\<lparr>proc := p\<rparr>) = all_arenas m"
  by (simp_all add: arenas_of_def upd_arenas_def upd_code_def upd_data_def all_arenas_def)

lemma upd_arenas_other: "arenas_of ex' (upd_arenas ex f m) = (if ex' = ex then f (arenas_of ex m) else arenas_of ex' m)"
  by (auto simp: arenas_of_def upd_arenas_def upd_code_def upd_data_def)

lemma upd_arenas_id: "upd_arenas ex (\<lambda>_. arenas_of ex m) m = m"
  by (simp add: arenas_of_def upd_arenas_def upd_code_def upd_data_def)

lemma set_all_arenas: "set (all_arenas m) = (\<Union>ex. set (arenas_of ex m))"
  by (auto simp: all_arenas_def arenas_of_def split: if_splits)

lemma all_arenas_update:
  assumes "i < length (arenas_of ex m)"
  obtains j where "j < length (all_arenas m)" "all_arenas m ! j = arenas_of ex m ! i"
    "\<And>A'. all_arenas (upd_arenas ex (\<lambda>_. (arenas_of ex m)[i := A']) m) = (all_arenas m)[j := A']"
proof (cases ex)
  case True
  show ?thesis
    by (rule that [of i]) (use assms True in \<open>auto simp: all_arenas_def arenas_of_def upd_arenas_def upd_code_def
        nth_append list_update_append1\<close>)
next
  case False
  show ?thesis
    by (rule that [of "length (code_arenas (allocator m)) + i"]) (use assms False in \<open>auto simp: all_arenas_def
        arenas_of_def upd_arenas_def upd_data_def nth_append list_update_append\<close>)
qed

lemma Union_update: "j < length xs \<Longrightarrow> \<Union> (set (xs[j := xs ! j \<union> c])) = \<Union> (set xs) \<union> c"
proof (induction xs arbitrary: j)
  case (Cons x xs)
  then show ?case by (cases j) auto
qed simp

lemma list_update_absorb: "xs ! j = v \<Longrightarrow> xs[j := v] = xs"
  by auto

lemma spans_apart:
  assumes "sorted_wrt (\<lambda>S T. S \<inter> T = {}) (map f xs)" "i < length xs" "j < length xs" "i \<noteq> j"
  shows "f (xs ! i) \<inter> f (xs ! j) = {}"
proof (cases "i < j")
  case True
  then show ?thesis using assms(1,3) sorted_wrt_nth_less [of _ "map f xs" i j] by simp
next
  case False
  then have "f (xs ! j) \<inter> f (xs ! i) = {}" using assms sorted_wrt_nth_less [of _ "map f xs" j i] by simp
  then show ?thesis by blast
qed

lemma alloc_bump:
  assumes m: "machine_ok m" and i: "i < length (arenas_of ex m)"
    and al: "allocMemBlock n (arenas_of ex m ! i) = (Some b, A')"
  shows "allocates ex m n b (upd_arenas ex (\<lambda>_. (arenas_of ex m)[i := A']) m)"
proof -
  let ?m' = "upd_arenas ex (\<lambda>_. (arenas_of ex m)[i := A']) m" and ?A = "arenas_of ex m ! i"
  obtain j where j: "j < length (all_arenas m)" "all_arenas m ! j = ?A" "all_arenas ?m' = (all_arenas m)[j := A']"
    using all_arenas_update [OF i] by metis
  have A: "?A \<in> set (arenas_of ex m)" using i by simp
  then have ok: "arena_ok (page_size (proc m)) ?A" using m j by (auto simp: machine_ok_def set_all_arenas)
  note al' = allocMemBlock_ok [OF ok al]
  have spans: "map arena_span (all_arenas ?m') = map arena_span (all_arenas m)"
    using j al'(2) by (simp add: map_update list_update_absorb)
  have used: "used_cells ?m' = used_cells m \<union> block_cells b"
    using j al'(7) Union_update [of j "map arena_used (all_arenas m)" "block_cells b"]
    by (simp add: used_cells_def map_update)
  have disj: "block_cells b \<inter> arena_used B = {}" if B: "B \<in> set (all_arenas m)" for B
  proof -
    obtain l where l: "l < length (all_arenas m)" "B = all_arenas m ! l" using B by (auto simp: in_set_conv_nth)
    have "arena_span B \<inter> arena_span ?A = {}" if "l \<noteq> j"
      using spans_apart [of arena_span "all_arenas m" l j] m j l that by (simp add: machine_ok_def)
    moreover have "arena_used B \<subseteq> arena_span B" using m B
      by (auto simp: machine_ok_def arena_ok_def arena_used_def arena_span_def cells_def)
    ultimately show ?thesis using al'(4,5) j l by (cases "l = j") auto
  qed
  have prot: "\<forall>x \<in> arena_span B. prot_at (proc m) x = Some (arena_prot ex')" if "B \<in> set (arenas_of ex' ?m')" for B ex'
    using that m A al'(2) by (auto simp: machine_ok_def upd_arenas_other split: if_splits dest!: set_update_subset_insert [THEN subsetD])
  have "machine_ok ?m'"
    using m prot spans al'(1) j by (auto simp: machine_ok_def dest!: set_update_subset_insert [THEN subsetD])
  moreover have "\<forall>x \<in> block_cells b. prot_at (proc m) x = Some (arena_prot ex)"
    using al'(5) m A by (auto simp: machine_ok_def)
  moreover have "unat (blk_addr b) + unat n < 2 ^ 64"
    using allocMemBlock_Some [OF ok al] ok by (auto simp: arena_ok_def)
  ultimately show ?thesis
    using used disj al'(8) by (auto simp: allocates_def used_cells_def)
qed

lemma alloc_first_Some:
  "alloc_first n as = (Some b, as') \<Longrightarrow> \<exists>i < length as. \<exists>A'. allocMemBlock n (as ! i) = (Some b, A') \<and> as' = as[i := A']"
proof (induction as arbitrary: as')
  case (Cons A as)
  show ?case
  proof (cases "allocMemBlock n A")
    case (Pair r A1)
    show ?thesis
    proof (cases r)
      case None
      then obtain as1 where as1: "alloc_first n as = (Some b, as1)" "as' = A # as1"
        using Cons.prems Pair allocMemBlock_None by (auto split: prod.splits)
      then obtain i A' where "i < length as" "allocMemBlock n (as ! i) = (Some b, A')" "as1 = as[i := A']"
        using Cons.IH by blast
      then show ?thesis using as1 by (intro exI [of _ "Suc i"]) auto
    next
      case (Some c)
      then show ?thesis using Cons.prems Pair by (intro exI [of _ 0]) auto
    qed
  qed
qed simp

lemma alloc_first_None: "alloc_first n as = (None, as') \<Longrightarrow> as' = as"
  by (induction as arbitrary: as') (auto split: prod.splits option.splits dest: allocMemBlock_None)

lemma GetProtection_simps [simp]:
  "GetProtectionFromMemoryPermission (if ex then kReadExecute else kReadWrite) = arena_prot ex"
  by (simp add: arena_prot_def)

lemma in_range_cells: "unat a + unat n \<le> 2 ^ 64 \<Longrightarrow> in_range a n x \<longleftrightarrow> x \<in> cells a n"
  by (simp add: in_range_nat cells_def)

lemma page_count: "0 < p \<Longrightarrow> (p * j + p - 1) div p = (j :: nat)"
proof -
  assume p: "0 < p"
  then have "p * j + p - 1 = (p - 1) + p * j" by simp
  then show ?thesis using p by (simp only: div_mult_self2) simp
qed

lemma page_bases_in_range:
  assumes "0 < ps" "unat ps dvd unat n" "b \<in> set (page_bases ps a n)"
  shows "in_range a n b"
proof -
  have u: "0 < unat ps" using assms(1) by (simp add: unat_gt_0 word_greater_zero_iff)
  obtain j where j: "unat n = unat ps * j" using assms(2) by (elim dvdE)
  have "(unat ps * j + unat ps - 1) div unat ps = j"
    using u by (rule page_count)
  then obtain i where i: "i < j" "b = a + of_nat i * ps"
    using assms(3) j by (auto simp: page_bases_def)
  have "i * unat ps < unat n" using i u j by (simp add: mult.commute)
  moreover have "unat (of_nat i * ps) = i * unat ps"
  proof -
    have "i * unat ps < 2 ^ 64" using calculation unat_addr [of n] by simp
    moreover have "of_nat i * ps = (of_nat (i * unat ps) :: addr)" by simp
    ultimately show ?thesis by (simp only: unat_of_nat) simp
  qed
  ultimately show ?thesis using i by (simp add: in_range_def word_less_nat_alt)
qed

lemma map_arena:
  assumes "kernel_mmap K" "page_size_ok (page_size p)" "unat (page_size p) dvd unat n"
    and "OSMemory_Allocate K n kNoAccess fixed p = (r, p1)" "r \<noteq> 0"
  shows "arena_ok (page_size p) (MemoryArena r n)" "fixed \<noteq> 0 \<Longrightarrow> r = fixed"
    "page_size (snd (OSMemory_SetPermission r n perm p1)) = page_size p"
    "prot_at (snd (OSMemory_SetPermission r n perm p1)) x =
       (if x \<in> cells r n then Some (GetProtectionFromMemoryPermission perm) else prot_at p x)"
    "fixed = 0 \<Longrightarrow> x \<in> cells r n \<Longrightarrow> prot_at p x = None"
proof -
  obtain k where k: "k < 31" "page_size p = 2 ^ k" using assms(2) by (auto simp: page_size_ok_def)
  have K: "K p fixed n = Some r" and p1: "p1 = (set_prot r n (Some PROT_NONE) p)
       \<lparr>memory := (\<lambda>x. if in_range r n (ALIGN_FLOOR x (page_size p)) then 0 else memory p x)\<rparr>"
    using assms(4,5) by (auto simp: OSMemory_Allocate_def mmap_def split: option.splits)
  then have q: "0 < n" "ALIGN_FLOOR r (page_size p) = r" "unat r + unat n + unat (page_size p) \<le> 2 ^ 64"
      "fixed \<noteq> 0 \<longrightarrow> r = fixed" "fixed = 0 \<longrightarrow> (\<forall>x. in_range r n x \<longrightarrow> prot_at p x = None)"
    using assms(1,2) unfolding kernel_mmap_def by blast+
  have up: "unat (page_size p) = 2 ^ k" using k by (simp add: unat_page_size)
  have dv: "2 ^ k dvd unat r" "2 ^ k dvd unat n" using q(2) k assms(3) up by (simp_all add: page_aligned_dvd)
  have "0 < unat (page_size p)" using up by simp
  then have rn: "unat r + unat n < 2 ^ 64" using q(3) by linarith
  show "arena_ok (page_size p) (MemoryArena r n)" using rn dv up by (simp add: arena_ok_def)
  show "fixed \<noteq> 0 \<Longrightarrow> r = fixed" using q(4) by simp
  show "page_size (snd (OSMemory_SetPermission r n perm p1)) = page_size p"
    by (simp add: OSMemory_SetPermission_def p1)
  have ir: "in_range r n (ALIGN_FLOOR y (page_size p)) \<longleftrightarrow> y \<in> cells r n" for y
    using in_range_floor [of k r n y] k dv rn by (simp add: in_range_cells)
  have "0 < page_size p" using up by (simp add: word_less_nat_alt)
  then have "list_all (\<lambda>b. page_prot p1 b \<noteq> None) (page_bases (page_size p) r n)"
    using page_bases_in_range [of "page_size p" n _ r] assms(3) by (auto simp: list_all_iff p1 set_prot_def)
  then have "mprotect r n pr p1 = (True, set_prot r n (Some pr) p1)" for pr
    using q(2) by (simp add: mprotect_def p1)
  then show "prot_at (snd (OSMemory_SetPermission r n perm p1)) x =
       (if x \<in> cells r n then Some (GetProtectionFromMemoryPermission perm) else prot_at p x)"
    using ir by (simp add: OSMemory_SetPermission_def prot_at_def p1 set_prot_def)
  show "fixed = 0 \<Longrightarrow> x \<in> cells r n \<Longrightarrow> prot_at p x = None"
    using q(5) rn by (simp add: in_range_cells)
qed

lemma push_arena:
  assumes m: "machine_ok m" and ok: "arena_ok (page_size (proc m)) (MemoryArena r n)"
    and ps: "page_size p2 = page_size (proc m)"
    and pr: "\<And>x. prot_at p2 x = (if x \<in> cells r n then Some (arena_prot ex) else prot_at (proc m) x)"
    and fresh: "\<And>x. x \<in> cells r n \<Longrightarrow> prot_at (proc m) x = None"
  shows "machine_ok (upd_arenas ex (\<lambda>as. as @ [MemoryArena r n]) (m\<lparr>proc := p2\<rparr>))"
    "used_cells (upd_arenas ex (\<lambda>as. as @ [MemoryArena r n]) (m\<lparr>proc := p2\<rparr>)) = used_cells m"
proof -
  let ?A = "MemoryArena r n" and ?m' = "upd_arenas ex (\<lambda>as. as @ [MemoryArena r n]) (m\<lparr>proc := p2\<rparr>)"
  have sp: "arena_span ?A = cells r n" "arena_used ?A = {}" by (auto simp: arena_span_def arena_used_def)
  have old: "arena_span B \<inter> cells r n = {}" if "B \<in> set (all_arenas m)" for B
    using that m fresh unfolding machine_ok_def set_all_arenas by fastforce
  have all: "set (all_arenas ?m') = insert ?A (set (all_arenas m))"
    "sorted_wrt (\<lambda>S T. S \<inter> T = {}) (map arena_span (all_arenas ?m'))"
    using m old by (cases ex; auto simp: machine_ok_def sorted_wrt_append all_arenas_def upd_arenas_def upd_code_def
        upd_data_def sp)+
  have "\<forall>x \<in> arena_span B. prot_at p2 x = Some (arena_prot ex')" if "B \<in> set (arenas_of ex' ?m')" for B ex'
  proof (cases "B = ?A \<and> ex' = ex")
    case True
    then show ?thesis using pr sp by simp
  next
    case False
    then have B: "B \<in> set (arenas_of ex' m)" using that by (auto simp: upd_arenas_other split: if_splits)
    then have "arena_span B \<inter> cells r n = {}" using old by (auto simp: set_all_arenas)
    then show ?thesis using B m pr by (auto simp: machine_ok_def)
  qed
  then show "machine_ok ?m'" using m all ps ok unfolding machine_ok_def by simp
  show "used_cells ?m' = used_cells m" using all sp by (simp add: used_cells_def)
qed

lemma allocates_trans:
  "allocates ex' m n' b' m1 \<Longrightarrow> allocates ex m1 n b m' \<Longrightarrow> allocates ex m n b m'"
  unfolding allocates_def by auto

lemma allocates_from:
  "used_cells m1 = used_cells m \<Longrightarrow> page_size (proc m1) = page_size (proc m) \<Longrightarrow> allocates ex m1 n b m' \<Longrightarrow> allocates ex m n b m'"
  by (simp add: allocates_def)

lemma code_as_arenas: "code_arenas (allocator m) = arenas_of True m" "data_arenas (allocator m) = arenas_of False m"
    "upd_code = upd_arenas True" "upd_data = upd_arenas False"
  by (auto simp: arenas_of_def upd_arenas_def fun_eq_iff)

lemma granted_arenas: "granted m \<longleftrightarrow> (\<forall>ex. \<forall>A \<in> set (arenas_of ex m). arena_addr A \<noteq> 0)"
  by (auto simp: granted_def list_all_iff set_all_arenas)

lemma alloc_at_Some:
  assumes "machine_ok m" "i < length (arenas_of ex m)" "alloc_at i n (arenas_of ex m) = (Some b, as')"
  shows "allocates ex m n b (upd_arenas ex (\<lambda>_. as') m)" "as' = (arenas_of ex m)[i := as' ! i]"
    "arena_addr (as' ! i) = arena_addr (arenas_of ex m ! i)"
proof -
  obtain A' where A': "allocMemBlock n (arenas_of ex m ! i) = (Some b, A')" "as' = (arenas_of ex m)[i := A']"
    using assms(3) by (auto simp: alloc_at_def split: prod.splits)
  then show "allocates ex m n b (upd_arenas ex (\<lambda>_. as') m)" using alloc_bump [OF assms(1,2)] by simp
  show "as' = (arenas_of ex m)[i := as' ! i]" using A'(2) assms(2) by simp
  have "arena_ok (page_size (proc m)) (arenas_of ex m ! i)"
    using assms(1,2) nth_mem unfolding machine_ok_def set_all_arenas by blast
  then show "arena_addr (as' ! i) = arena_addr (arenas_of ex m ! i)"
    using allocMemBlock_ok(3) [OF _ A'(1)] A'(2) assms(2) by simp
qed

lemma unat_u32 [simp]: "unat (ucast (n :: u32) :: addr) = unat n"
proof -
  have "unat n < 2 ^ 64" using unsigned_less [of n, where 'a = nat] by simp
  then show ?thesis by (simp add: unsigned_ucast_eq take_bit_nat_eq_self)
qed

lemma page_dvd_u32:
  assumes "page_size_ok ps" "n mod (ucast ps :: u32) = 0"
  shows "unat ps dvd unat (ucast n :: addr)"
proof -
  obtain k where k: "k < 31" "ps = 2 ^ k" using assms(1) by (auto simp: page_size_ok_def)
  have "(2 :: nat) ^ k < 2 ^ 32" using k by (intro power_strict_increasing) auto
  then have "unat (ucast ps :: u32) = 2 ^ k" using k by (simp add: unsigned_ucast_eq unat_page_size take_bit_nat_eq_self)
  moreover have "unat n mod unat (ucast ps :: u32) = 0" using assms(2) by (metis unat_0 unat_mod_distrib)
  ultimately show ?thesis using k by (simp add: unat_page_size dvd_eq_mod_eq_0)
qed

lemma new_code_arena:
  assumes m: "machine_ok m" and K: "kernel_mmap (k_mmap k)"
    and a: "allocateCodeMemoryArena k n m = Inr m1" and g: "arena_addr (last (arenas_of True m1)) \<noteq> 0"
  shows "machine_ok m1" "used_cells m1 = used_cells m" "page_size (proc m1) = page_size (proc m)"
    "arenas_of True m1 \<noteq> []" "arenas_of False m1 = arenas_of False m"
proof -
  obtain r p1 where r: "OSMemory_Allocate (k_mmap k) (ucast n) kNoAccess 0 (proc m) = (r, p1)"
    by (cases "OSMemory_Allocate (k_mmap k) (ucast n) kNoAccess 0 (proc m)")
  let ?p2 = "snd (OSMemory_SetPermission r (ucast n) kReadExecute p1)"
  have n: "n mod ucast (page_size (proc m)) = 0"
    and m1: "m1 = upd_arenas True (\<lambda>as. as @ [MemoryArena r (ucast n)]) (m\<lparr>proc := ?p2\<rparr>)"
    using a r by (auto simp: allocateCodeMemoryArena_def OSMemory_PageSize_def code_as_arenas Let_def split: if_splits)
  have r0: "r \<noteq> 0" using g m1 by simp
  have ps: "page_size_ok (page_size (proc m))" using m by (simp add: machine_ok_def)
  note ma = map_arena [OF K ps page_dvd_u32 [OF ps n] r r0]
  have ap: "arena_prot True = GetProtectionFromMemoryPermission kReadExecute" by (simp add: arena_prot_def)
  show "machine_ok m1" "used_cells m1 = used_cells m"
    unfolding m1 by (rule push_arena [OF m ma(1)]; use ma(3-5) ap in simp)+
  show "page_size (proc m1) = page_size (proc m)" "arenas_of True m1 \<noteq> []" "arenas_of False m1 = arenas_of False m"
    using ma(3) by (simp_all add: m1 upd_arenas_other)
qed

lemma alloc_from_new_Some:
  assumes "machine_ok m" "arenas_of True m \<noteq> []" "alloc_from_new n m = Inr (b, m')"
  shows "allocates True m (ucast n) b m'"
  using assms alloc_at_Some(1) [of m "length (arenas_of True m) - 1" True "ucast n" b]
  by (auto simp: alloc_from_new_def code_as_arenas split: prod.splits option.splits)

lemma alloc_from_new_granted:
  assumes "alloc_from_new n m = Inr (b, m')" "granted m'" "arenas_of True m \<noteq> []"
  shows "arena_addr (last (arenas_of True m)) \<noteq> 0"
proof -
  let ?A = "last (arenas_of True m)" and ?i = "length (arenas_of True m) - 1"
  obtain r A' where A': "allocMemBlock (ucast n) ?A = (r, A')" by (cases "allocMemBlock (ucast n) ?A")
  then have same: "arena_addr A' = arena_addr ?A" by (auto simp: allocMemBlock_def split: if_splits)
  have "m' = upd_arenas True (\<lambda>_. (arenas_of True m)[?i := A']) m"
    using assms(1,3) A' by (auto simp: alloc_from_new_def alloc_at_def code_as_arenas last_conv_nth
        split: prod.splits option.splits)
  then have "arenas_of True m' = (arenas_of True m)[?i := A']" by simp
  then have "A' \<in> set (arenas_of True m')" using assms(3) by (simp add: set_update_memI)
  then show ?thesis using assms(2) same by (auto simp: granted_arenas)
qed

lemma code_arena_pushed: "allocateCodeMemoryArena k n m = Inr m1 \<Longrightarrow> arenas_of True m1 \<noteq> []"
  by (auto simp: allocateCodeMemoryArena_def code_as_arenas Let_def split: if_splits prod.splits)

text \<open>The path of both block allocators when no arena has room.\<close>

lemma new_arena_block:
  assumes m: "machine_ok m" and K: "kernel_mmap (k_mmap k)" and g: "granted m'"
    and a: "bind_res (allocateCodeMemoryArena k a_size m) (alloc_from_new n) = Inr (b, m')"
  shows "allocates True m (ucast n) b m'"
proof -
  obtain m1 where m1: "allocateCodeMemoryArena k a_size m = Inr m1" "alloc_from_new n m1 = Inr (b, m')"
    using a by (auto simp: bind_res_Inr_iff)
  note ne = code_arena_pushed [OF m1(1)]
  note new = new_code_arena [OF m K m1(1) alloc_from_new_granted [OF m1(2) g ne]]
  show ?thesis
    by (rule allocates_from [OF new(2,3) alloc_from_new_Some [OF new(1) ne m1(2)]])
qed

lemma alloc_first_allocates:
  assumes "machine_ok m" "alloc_first n (arenas_of ex m) = (Some b, as)"
  shows "allocates ex m n b (upd_arenas ex (\<lambda>_. as) m)"
  using alloc_first_Some [OF assms(2)] alloc_bump [OF assms(1)] by blast

lemma exec_block_allocates:
  assumes "machine_ok m" "kernel_mmap (k_mmap k)" "allocateExecBlock k n m = Inr (b, m')" "granted m'"
  shows "allocates True m (ucast n) b m'"
proof (cases "alloc_first (ucast n) (arenas_of True m)")
  case (Pair r as)
  show ?thesis
  proof (cases r)
    case None
    then have "upd_arenas True (\<lambda>_. as) m = m" using Pair alloc_first_None upd_arenas_id by metis
    then show ?thesis
      using assms None Pair new_arena_block [OF assms(1,2,4)] by (simp add: allocateExecBlock_def code_as_arenas)
  next
    case (Some c)
    then show ?thesis using assms Pair alloc_first_allocates [OF assms(1)]
      by (auto simp: allocateExecBlock_def code_as_arenas)
  qed
qed

lemma data_block_allocates:
  assumes "machine_ok m" "kernel_mmap (k_mmap k)" "allocateDataBlock k n m = Inr (b, m')" "granted m'"
  shows "allocates (fst (alloc_first (ucast n) (arenas_of False m)) = None) m (ucast n) b m'"
proof (cases "alloc_first (ucast n) (arenas_of False m)")
  case (Pair r as)
  show ?thesis
  proof (cases r)
    case None
    then have "upd_arenas False (\<lambda>_. as) m = m" using Pair alloc_first_None upd_arenas_id by metis
    then show ?thesis
      using assms None Pair new_arena_block [OF assms(1,2,4)] by (simp add: allocateDataBlock_def code_as_arenas)
  next
    case (Some c)
    then show ?thesis using assms Pair alloc_first_allocates [OF assms(1)]
      by (auto simp: allocateDataBlock_def code_as_arenas)
  qed
qed

subsection \<open>Near blocks\<close>

definition in_search_range :: "addr \<Rightarrow> addr \<Rightarrow> addr \<Rightarrow> nat \<Rightarrow> bool" where
  "in_search_range pos rng u n \<longleftrightarrow> unat pos \<le> unat u + unat rng \<and> unat u + n \<le> unat pos + unat rng"

lemma search_window:
  assumes "unat rng < 2 ^ 63" "unat (pos - rng) < unat (pos + rng)" "unat (pos - rng) \<le> unat u"
    "unat u + n \<le> unat (pos + rng :: addr)"
  shows "in_search_range pos rng u n"
proof -
  have s: "unat (pos - rng) = (if unat rng \<le> unat pos then unat pos - unat rng else 2 ^ 64 + unat pos - unat rng)"
    using unat_sub_if_size [of pos rng] by (auto simp: word_size)
  have a: "unat (pos + rng) = (if unat pos + unat rng < 2 ^ 64 then unat pos + unat rng else unat pos + unat rng - 2 ^ 64)"
    using unat_plus_if_size [of pos rng] by (auto simp: word_size)
  show ?thesis
    using assms s a unat_addr [of pos] by (auto simp: in_search_range_def split: if_splits)
qed

text \<open>Both searches clip a gap to the search window and test that the request fits.\<close>

lemma clipped_gap:
  assumes "(if e < lo \<or> hi < st then 0 else let s = max st' lo; t = min e hi in
     if t \<le> s then 0 else if t - s < ucast (n :: u32) then 0 else s) = (u :: addr)" "u \<noteq> 0"
  shows "unat st' \<le> unat u" "unat lo \<le> unat u" "unat u + unat n \<le> unat e" "unat u + unat n \<le> unat hi" "unat lo < unat hi"
proof -
  have c: "u = max st' lo" "u < min e hi" "ucast n \<le> min e hi - u"
    using assms by (auto simp: Let_def not_le not_less split: if_splits)
  then have "unat n \<le> unat (min e hi) - unat u"
    using unat_minus [of u "min e hi"] by (simp add: word_le_nat_alt word_less_nat_alt del: min_less_iff_conj)
  moreover have "unat u < unat (min e hi)" using c(2) by (simp add: word_less_nat_alt del: min_less_iff_conj)
  moreover have "unat (min e hi) \<le> unat e" "unat (min e hi) \<le> unat hi" by (simp_all add: word_le_nat_alt [symmetric])
  moreover have "unat st' \<le> unat u" "unat lo \<le> unat u" by (simp_all add: c(1) word_le_nat_alt [symmetric])
  ultimately show "unat st' \<le> unat u" "unat lo \<le> unat u" "unat u + unat n \<le> unat e" "unat u + unat n \<le> unat hi" "unat lo < unat hi"
    by linarith+
qed

lemma default_arena_gap:
  assumes "allocateFromDefaultArena lo hi n A = u" "u \<noteq> 0"
  shows "unat (cursor_addr A) \<le> unat u" "unat lo \<le> unat u" "unat u + unat n \<le> unat (arena_addr A + mr_size A)"
    "unat u + unat n \<le> unat hi" "unat lo < unat hi"
proof -
  note c = clipped_gap [of "arena_addr A + mr_size A" lo hi "cursor_addr A" "cursor_addr A" n u, OF _ assms(2)]
  show "unat (cursor_addr A) \<le> unat u" "unat lo \<le> unat u" "unat u + unat n \<le> unat (arena_addr A + mr_size A)"
    "unat u + unat n \<le> unat hi" "unat lo < unat hi"
    using assms(1) unfolding allocateFromDefaultArena_def Let_def by (intro c [unfolded Let_def]; simp only:)+
qed

lemma region_gap:
  assumes "check_has_sufficient_memory_between_region lo hi n r r' = u" "u \<noteq> 0"
  shows "unat (ALIGN_FLOOR (mr_start r + mr_size r) 4) \<le> unat u" "unat lo \<le> unat u" "unat u + unat n \<le> unat (mr_start r')"
    "unat u + unat n \<le> unat hi" "unat lo < unat hi"
proof -
  note c = clipped_gap [of "mr_start r'" lo hi "mr_start r + mr_size r" "ALIGN_FLOOR (mr_start r + mr_size r) 4" n u, OF _ assms(2)]
  show "unat (ALIGN_FLOOR (mr_start r + mr_size r) 4) \<le> unat u" "unat lo \<le> unat u" "unat u + unat n \<le> unat (mr_start r')"
    "unat u + unat n \<le> unat hi" "unat lo < unat hi"
    using assms(1) unfolding check_has_sufficient_memory_between_region_def Let_def by (intro c [unfolded Let_def]; simp only:)+
qed

lemma near_code_loop_hit:
  "near_code_loop f i r as = (j, u) \<Longrightarrow> u \<noteq> 0 \<Longrightarrow> snd r = 0 \<Longrightarrow> i \<le> j \<and> j < i + length as \<and> f (as ! (j - i)) = u"
proof (induction as arbitrary: i r)
  case (Cons A as)
  show ?case
  proof (cases "f A = 0")
    case True
    then have "Suc i \<le> j \<and> j < Suc i + length as \<and> f (as ! (j - Suc i)) = u"
      using Cons.IH [of "Suc i" "(i, 0)"] Cons.prems by simp
    moreover from this have "j - i = Suc (j - Suc i)" by auto
    ultimately show ?thesis by simp
  qed (use Cons.prems in auto)
qed auto

lemma near_data_loop_hit:
  "near_data_loop f i r as = (if as = [] then r else (i + length as - 1, f (last as)))"
  by (induction as arbitrary: i r) auto

lemma alloc_near_at_room:
  assumes "i < length as" "arena_ok ps (as ! i)" "unat (cursor_addr (as ! i)) \<le> unat u"
    and "unat u + unat n \<le> unat (arena_addr (as ! i)) + unat (mr_size (as ! i))"
  shows "alloc_near_at i u n as = (Some (MemBlock u (ucast n)), as[i := (as ! i)\<lparr>cursor_addr := u + ucast n\<rparr>])"
proof -
  let ?A = "as ! i" let ?A1 = "?A\<lparr>cursor_addr := u\<rparr>"
  have "unat (cursor_addr ?A) + unat (u - cursor_addr ?A) \<le> unat (arena_addr ?A) + unat (mr_size ?A)"
    using assms(3,4) by (simp add: unat_minus)
  then have 1: "alloc_at i (u - cursor_addr ?A) as = (Some (MemBlock (cursor_addr ?A) (u - cursor_addr ?A)), as[i := ?A1])"
    using allocMemBlock_room [OF assms(2)] by (simp add: alloc_at_def)
  have "arena_ok ps ?A1" using assms by (auto simp: arena_ok_def)
  then have "allocMemBlock (ucast n) ?A1 = (Some (MemBlock u (ucast n)), ?A1\<lparr>cursor_addr := u + ucast n\<rparr>)"
    using allocMemBlock_room [of ps ?A1 "ucast n"] assms(4) by simp
  then show ?thesis using assms(1) 1 by (simp add: alloc_near_at_def alloc_at_def)
qed

lemma alloc_near_at_allocates:
  assumes m: "machine_ok m" and i: "i < length (arenas_of ex m)"
    and a: "alloc_near_at i u n (arenas_of ex m) = (Some b, as')"
  shows "allocates ex m (ucast n) b (upd_arenas ex (\<lambda>_. as') m)"
proof -
  let ?as = "arenas_of ex m" and ?ph = "u - cursor_addr (arenas_of ex m ! i)"
  obtain r as1 where as1: "alloc_at i ?ph ?as = (r, as1)" by (cases "alloc_at i ?ph ?as")
  then have 2: "alloc_at i (ucast n) as1 = (Some b, as')" using a by (simp add: alloc_near_at_def)
  let ?m1 = "upd_arenas ex (\<lambda>_. as1) m"
  have m1: "upd_arenas ex (\<lambda>_. as') ?m1 = upd_arenas ex (\<lambda>_. as') m"
    by (simp add: upd_arenas_def upd_code_def upd_data_def)
  show ?thesis
  proof (cases r)
    case None
    then have "as1 = ?as" using as1 allocMemBlock_None by (fastforce simp: alloc_at_def split: prod.splits)
    then show ?thesis using alloc_at_Some(1) [OF m i] 2 by simp
  next
    case (Some c)
    then have 1: "allocates ex m ?ph c ?m1" "length as1 = length ?as"
      using alloc_at_Some(1) [OF m i] as1 by (auto simp: alloc_at_def split: prod.splits)
    moreover have "machine_ok ?m1" using 1(1) by (simp only: allocates_def)
    ultimately have "allocates ex ?m1 (ucast n) b (upd_arenas ex (\<lambda>_. as') ?m1)"
      using alloc_at_Some(1) [of ?m1 i ex] 2 i by simp
    then show ?thesis using allocates_trans [OF 1(1)] m1 by simp
  qed
qed

lemma default_near_cases:
  assumes m: "machine_ok m" and r: "allocateNearBlockFromDefaultAllocator n pos rng ex m = (r, m')"
  shows "r = None \<and> m' = m \<or>
    (\<exists>i u as'. i < length (arenas_of ex m) \<and> u \<noteq> 0 \<and> r = Some (MemBlock u (ucast n)) \<and>
       allocateFromDefaultArena (pos - rng) (pos + rng) n (arenas_of ex m ! i) = u \<and>
       alloc_near_at i u n (arenas_of ex m) = (r, as') \<and> m' = upd_arenas ex (\<lambda>_. as') m)"
proof -
  let ?f = "allocateFromDefaultArena (pos - rng) (pos + rng) n" and ?as = "arenas_of ex m"
  obtain i u where iu: "(if ex then near_code_loop ?f 0 (0, 0) ?as else near_data_loop ?f 0 (0, 0) ?as) = (i, u)"
    by (metis surj_pair)
  show ?thesis
  proof (cases "u = 0")
    case True
    then show ?thesis using r iu
      by (auto simp: allocateNearBlockFromDefaultAllocator_def code_as_arenas Let_def split: if_splits prod.splits)
  next
    case u: False
    have hit: "i < length ?as \<and> ?f (?as ! i) = u"
    proof (cases ex)
      case True
      then show ?thesis using near_code_loop_hit [of ?f 0 "(0, 0)" ?as i u] iu u by simp
    next
      case False
      then have "?as \<noteq> [] \<and> i = length ?as - 1 \<and> u = ?f (last ?as)"
        using iu u near_data_loop_hit [of ?f 0 "(0, 0)" ?as] by (auto split: if_splits)
      then show ?thesis by (auto simp: last_conv_nth)
    qed
    then have ok: "arena_ok (page_size (proc m)) (?as ! i)"
      using m nth_mem unfolding machine_ok_def set_all_arenas by blast
    have "\<exists>as'. alloc_near_at i u n ?as = (Some (MemBlock u (ucast n)), as')"
      using alloc_near_at_room [OF _ ok, of u n] hit u
        default_arena_gap(1,3) [of "pos - rng" "pos + rng" n "?as ! i", OF refl] ok by (auto simp: arena_ok_def unat_plus)
    then obtain as' where as': "alloc_near_at i u n ?as = (Some (MemBlock u (ucast n)), as')" by blast
    then have "r = Some (MemBlock u (ucast n)) \<and> m' = upd_arenas ex (\<lambda>_. as') m"
      using r iu u
      by (auto simp: allocateNearBlockFromDefaultAllocator_def code_as_arenas Let_def split: if_splits prod.splits)
    then show ?thesis using hit u as' by blast
  qed
qed

lemma region_loop_hit: "region_loop f rs = u \<Longrightarrow> u \<noteq> 0 \<Longrightarrow> \<exists>i. Suc i < length rs \<and> f (rs ! i) (rs ! Suc i) = u"
proof (induction f rs rule: region_loop.induct)
  case (1 f r r' rs)
  show ?case
  proof (cases "f r r' = 0")
    case True
    then obtain i where "Suc i < length (r' # rs)" "f ((r' # rs) ! i) ((r' # rs) ! Suc i) = u" using 1 by auto
    then show ?thesis by (intro exI [of _ "Suc i"]) simp
  next
    case False
    then show ?thesis using 1 by (intro exI [of _ 0]) auto
  qed
qed auto

text \<open>The arena that is mapped around an unused address: whole pages, with the requested bytes inside.\<close>

definition unused_arena_size :: "addr \<Rightarrow> addr \<Rightarrow> u32 \<Rightarrow> addr" where
  "unused_arena_size ps u n = ALIGN_FLOOR (u + ucast n) ps - ALIGN_FLOOR u ps + ps"

lemma unused_near_hit:
  assumes "allocateNearBlockFromUnusedRegion k n pos rng ex m = (Some b, m')"
  defines "regions \<equiv> GetProcessMemoryLayout (k_maps k (proc m))" and "ps \<equiv> page_size (proc m)"
  shows "\<exists>i u r p as'. Suc i < length regions \<and> u \<noteq> 0 \<and>
    check_has_sufficient_memory_between_region (pos - rng) (pos + rng) n (regions ! i) (regions ! Suc i) = u \<and>
    OSMemory_Allocate (k_mmap k) (unused_arena_size ps u n) kNoAccess (ALIGN_FLOOR u ps) (proc m) = (r, p) \<and> r \<noteq> 0 \<and>
    (let m2 = upd_arenas ex (\<lambda>as. as @ [MemoryArena (ALIGN_FLOOR u ps) (unused_arena_size ps u n)])
            (m\<lparr>proc := snd (OSMemory_SetPermission (ALIGN_FLOOR u ps) (unused_arena_size ps u n)
                  (if ex then kReadExecute else kReadWrite) p)\<rparr>) in
     alloc_near_at (length (arenas_of ex m)) u n (arenas_of ex m2) = (Some b, as') \<and> m' = upd_arenas ex (\<lambda>_. as') m2)"
proof -
  let ?f = "check_has_sufficient_memory_between_region (pos - rng) (pos + rng) n"
  define u where "u = region_loop ?f regions"
  obtain r p where rp: "OSMemory_Allocate (k_mmap k) (unused_arena_size ps u n) kNoAccess (ALIGN_FLOOR u ps) (proc m) = (r, p)"
    by (metis surj_pair)
  define m2 where "m2 = upd_arenas ex (\<lambda>as. as @ [MemoryArena (ALIGN_FLOOR u ps) (unused_arena_size ps u n)])
            (m\<lparr>proc := snd (OSMemory_SetPermission (ALIGN_FLOOR u ps) (unused_arena_size ps u n)
                  (if ex then kReadExecute else kReadWrite) p)\<rparr>)"
  have reg: "register_near_arena (ALIGN_FLOOR u ps) (unused_arena_size ps u n) ex (m\<lparr>proc := p\<rparr>) = m2"
    by (cases ex) (simp_all add: register_near_arena_def m2_def upd_arenas_def upd_code_def upd_data_def)
  have len: "length (arenas_of ex m2) - 1 = length (arenas_of ex m)" by (simp add: m2_def)
  have arenas: "(if ex then code_arenas (allocator q) else data_arenas (allocator q)) = arenas_of ex q"
    "(if ex then upd_code g q else upd_data g q) = upd_arenas ex g q" for q g
    by (simp_all add: arenas_of_def upd_arenas_def)
  have "allocateNearBlockFromUnusedRegion k n pos rng ex m =
     (if u = 0 then (None, m) else if r = 0 then (None, m\<lparr>proc := p\<rparr>)
      else let (block, as') = alloc_near_at (length (arenas_of ex m)) u n (arenas_of ex m2) in
           (block, upd_arenas ex (\<lambda>_. as') m2))"
    unfolding allocateNearBlockFromUnusedRegion_def Let_def OSMemory_PageSize_def regions_def [symmetric] ps_def [symmetric]
      u_def [symmetric] unused_arena_size_def [symmetric] rp prod.case arenas reg len ..
  then have "u \<noteq> 0 \<and> r \<noteq> 0 \<and> (\<exists>as'. alloc_near_at (length (arenas_of ex m)) u n (arenas_of ex m2) = (Some b, as') \<and>
      m' = upd_arenas ex (\<lambda>_. as') m2)"
    using assms(1) by (auto simp: Let_def split: if_splits prod.splits)
  moreover have "\<exists>i. Suc i < length regions \<and> ?f (regions ! i) (regions ! Suc i) = u" if "u \<noteq> 0"
    using region_loop_hit [of ?f regions u] that by (simp add: u_def)
  ultimately show ?thesis using rp unfolding m2_def Let_def by blast
qed

lemma unused_arena:
  assumes "page_size_ok ps" "unat u + unat n < 2 ^ 64"
  shows "unat ps dvd unat (unused_arena_size ps u n)" "unat ps dvd unat (ALIGN_FLOOR u ps)"
    "unat (ALIGN_FLOOR u ps) + unat (unused_arena_size ps u n) = unat (ALIGN_FLOOR (u + ucast n) ps) + unat ps"
    "unat (ALIGN_FLOOR u ps) \<le> unat u" "unat u + unat n < unat (ALIGN_FLOOR (u + ucast n) ps) + unat ps"
proof -
  obtain k where k: "k < 31" "ps = 2 ^ k" using assms(1) by (auto simp: page_size_ok_def)
  let ?P = "(2 :: nat) ^ k"
  have P: "?P < 2 ^ 31" using k by (intro power_strict_increasing) auto
  have big: "(2 :: nat) ^ 32 + 2 ^ 31 + 2 ^ 31 < 2 ^ 64" by simp
  have s: "unat (u + ucast n) = unat u + unat n" using assms(2) by (simp add: unat_plus)
  have f: "unat (ALIGN_FLOOR u ps) = unat u div ?P * ?P" "unat (ALIGN_FLOOR (u + ucast n) ps) = (unat u + unat n) div ?P * ?P"
    using k s by (simp_all add: unat_ALIGN_FLOOR)
  have le: "unat u div ?P * ?P \<le> (unat u + unat n) div ?P * ?P" by (intro mult_le_mono1 div_le_mono) simp
  have "(unat u + unat n) div ?P * ?P \<le> unat u + unat n" by simp
  moreover have lt: "x < x div ?P * ?P + ?P" for x :: nat by (metis add.commute div_mult_mod_eq mod_less_divisor nat_add_left_cancel_less zero_less_numeral zero_less_power)
  moreover have "unat n < 2 ^ 32" using unsigned_less [of n, where 'a = nat] by simp
  ultimately have "(unat u + unat n) div ?P * ?P - unat u div ?P * ?P + ?P < 2 ^ 64"
    using lt [of "unat u"] P big by linarith
  then have sz: "unat (unused_arena_size ps u n) = ((unat u + unat n) div ?P * ?P - unat u div ?P * ?P) + ?P"
    using f le k by (simp add: unused_arena_size_def unat_plus unat_minus unat_page_size)
  have "unat (unused_arena_size ps u n) = ((unat u + unat n) div ?P - unat u div ?P + 1) * ?P"
    by (simp add: sz diff_mult_distrib)
  then show "unat ps dvd unat (unused_arena_size ps u n)" using k by (simp add: unat_page_size)
  show "unat ps dvd unat (ALIGN_FLOOR u ps)" using k f by (simp add: unat_page_size)
  show "unat (ALIGN_FLOOR u ps) + unat (unused_arena_size ps u n) = unat (ALIGN_FLOOR (u + ucast n) ps) + unat ps"
  proof -
    have "unat ps = ?P" using k by (simp add: unat_page_size)
    then show ?thesis using sz f le by linarith
  qed
  show "unat (ALIGN_FLOOR u ps) \<le> unat u" "unat u + unat n < unat (ALIGN_FLOOR (u + ucast n) ps) + unat ps"
    using f k lt by (simp_all add: unat_page_size)
qed

lemma unused_arena_ok:
  assumes "kernel_mmap (k_mmap k)" "page_size_ok (page_size p)" "unat u + unat n < 2 ^ 64"
    and "OSMemory_Allocate (k_mmap k) (unused_arena_size (page_size p) u n) kNoAccess (ALIGN_FLOOR u (page_size p)) p = (r, p')" "r \<noteq> 0"
  shows "arena_ok (page_size p) (MemoryArena (ALIGN_FLOOR u (page_size p)) (unused_arena_size (page_size p) u n))"
proof (cases "ALIGN_FLOOR u (page_size p) = 0")
  case True
  then show ?thesis
    using unused_arena(1) [OF assms(2,3)] unat_addr [of "unused_arena_size (page_size p) u n"] by (simp add: arena_ok_def)
next
  case False
  then show ?thesis using map_arena(1,2) [OF assms(1,2) unused_arena(1) [OF assms(2,3)] assms(4,5)] by simp
qed

text \<open>The two ways a near block is found.\<close>

lemma near_block_cases:
  assumes "machine_ok m" "allocateNearBlock k n pos rng ex m = (Some b, m')"
  shows "allocateNearBlockFromDefaultAllocator n pos rng ex m = (Some b, m') \<or>
    allocateNearBlockFromUnusedRegion k n pos rng ex m = (Some b, m')"
proof (cases "allocateNearBlockFromDefaultAllocator n pos rng ex m")
  case (Pair r m1)
  then show ?thesis
    using default_near_cases [OF assms(1) Pair] assms(2) by (cases r) (auto simp: allocateNearBlock_def)
qed

lemma default_near_block:
  assumes m: "machine_ok m" and rng: "unat rng < 2 ^ 63"
    and a: "allocateNearBlockFromDefaultAllocator n pos rng ex m = (Some b, m')"
  shows "in_search_range pos rng (blk_addr b) (unat n)" "allocates ex m (ucast n) b m'"
proof -
  obtain i u as' where h: "i < length (arenas_of ex m)" "u \<noteq> 0" "b = MemBlock u (ucast n)"
       "allocateFromDefaultArena (pos - rng) (pos + rng) n (arenas_of ex m ! i) = u"
       "alloc_near_at i u n (arenas_of ex m) = (Some b, as')" "m' = upd_arenas ex (\<lambda>_. as') m"
    using default_near_cases [OF m a] by auto
  note g = default_arena_gap [OF h(4,2)]
  show "in_search_range pos rng (blk_addr b) (unat n)" using search_window [OF rng g(5,2,4)] h(3) by simp
  show "allocates ex m (ucast n) b m'" using alloc_near_at_allocates [OF m h(1,5)] h(6) by simp
qed

lemma unused_near_block:
  assumes ps: "page_size_ok (page_size (proc m))" and K: "kernel_mmap (k_mmap k)" and rng: "unat rng < 2 ^ 63"
    and a: "allocateNearBlockFromUnusedRegion k n pos rng ex m = (Some b, m')"
  shows "in_search_range pos rng (blk_addr b) (unat n)" "mr_size b = ucast n"
    "\<exists>i. Suc i < length (GetProcessMemoryLayout (k_maps k (proc m))) \<and>
       (let r = GetProcessMemoryLayout (k_maps k (proc m)) ! i in
        unat (ALIGN_FLOOR (mr_start r + mr_size r) 4) \<le> unat (blk_addr b)) \<and>
       unat (blk_addr b) + unat n \<le> unat (mr_start (GetProcessMemoryLayout (k_maps k (proc m)) ! Suc i))"
proof -
  let ?ps = "page_size (proc m)" and ?regions = "GetProcessMemoryLayout (k_maps k (proc m))"
  obtain i u r p as' where h: "Suc i < length ?regions" "u \<noteq> 0"
    "check_has_sufficient_memory_between_region (pos - rng) (pos + rng) n (?regions ! i) (?regions ! Suc i) = u"
    "OSMemory_Allocate (k_mmap k) (unused_arena_size ?ps u n) kNoAccess (ALIGN_FLOOR u ?ps) (proc m) = (r, p)" "r \<noteq> 0"
    "alloc_near_at (length (arenas_of ex m)) u n (arenas_of ex m @ [MemoryArena (ALIGN_FLOOR u ?ps) (unused_arena_size ?ps u n)])
       = (Some b, as')"
    using unused_near_hit [OF a] by (auto simp: Let_def)
  note g = region_gap [OF h(3,2)]
  have un: "unat u + unat n < 2 ^ 64" using g(4) unat_addr [of "pos + rng"] by linarith
  note ua = unused_arena [OF ps un]
  have "b = MemBlock u (ucast n)"
    using alloc_near_at_room [of "length (arenas_of ex m)" "arenas_of ex m @ [MemoryArena (ALIGN_FLOOR u ?ps) (unused_arena_size ?ps u n)]"
        ?ps u n] unused_arena_ok [OF K ps un h(4,5)] ua(3-5) h(6) by simp
  then show "in_search_range pos rng (blk_addr b) (unat n)" "mr_size b = ucast n"
    "\<exists>i. Suc i < length ?regions \<and> (let r = ?regions ! i in unat (ALIGN_FLOOR (mr_start r + mr_size r) 4) \<le> unat (blk_addr b)) \<and>
       unat (blk_addr b) + unat n \<le> unat (mr_start (?regions ! Suc i))"
    using search_window [OF rng g(5,2,4)] g(1,3) h(1) by (auto simp: Let_def)
qed

text \<open>Whether no page of a page aligned range is mapped.\<close>

definition unmapped_range :: "process \<Rightarrow> addr \<Rightarrow> addr \<Rightarrow> bool" where
  "unmapped_range p a n = list_all (\<lambda>b. page_prot p b = None) (page_bases (page_size p) a n)"

text \<open>
  What the kernel promises of \<^verbatim>\<open>/proc/self/maps\<close>: regions consist of whole pages, a region starts at a mapped page,
  and the memory between two regions that follow each other is not mapped.
\<close>

definition gap_ok :: "process \<Rightarrow> MemRegion \<Rightarrow> MemRegion \<Rightarrow> bool" where
  "gap_ok p r r' =
     (let e = mr_start r + mr_size r; s = mr_start r' in
      ALIGN_FLOOR e (page_size p) = e \<and> ALIGN_FLOOR s (page_size p) = s \<and>
      (e < s \<longrightarrow> unmapped_range p e (s - e) \<and> prot_at p s \<noteq> None))"

fun gaps_ok :: "process \<Rightarrow> MemRegion list \<Rightarrow> bool" where
  "gaps_ok p (r # r' # rs) = (gap_ok p r r' \<and> gaps_ok p (r' # rs))"
| "gaps_ok p rs = True"

definition kernel_maps :: "(process \<Rightarrow> maps_file option) \<Rightarrow> bool" where
  "kernel_maps maps \<longleftrightarrow> (\<forall>p. page_size_ok (page_size p) \<longrightarrow> gaps_ok p (GetProcessMemoryLayout (maps p)))"

lemma gaps_ok_nth: "gaps_ok p rs \<Longrightarrow> Suc i < length rs \<Longrightarrow> gap_ok p (rs ! i) (rs ! Suc i)"
proof (induction p rs arbitrary: i rule: gaps_ok.induct)
  case (1 p r r' rs)
  then show ?case by (cases i) auto
qed auto

text \<open>
  The arena mapped for a near block is one page too large when the block ends on a page boundary: then it covers the page
  behind the block, with whatever is mapped there.
\<close>

definition near_overrun :: "bool \<Rightarrow> machine \<Rightarrow> machine \<Rightarrow> MemBlock \<Rightarrow> bool" where
  "near_overrun ex m m' b \<longleftrightarrow>
     length (arenas_of ex m) < length (arenas_of ex m') \<and> prot_at (proc m) (blk_addr b + mr_size b) \<noteq> None"

lemma unmapped_range_cells:
  assumes "page_size_ok (page_size p)" "unat (page_size p) dvd unat a" "unat (page_size p) dvd unat n"
    and "unat a + unat n < 2 ^ 64" "unmapped_range p a n" "x \<in> cells a n"
  shows "prot_at p x = None"
proof -
  obtain k where k: "k < 31" "page_size p = 2 ^ k" using assms(1) by (auto simp: page_size_ok_def)
  let ?P = "(2 :: nat) ^ k"
  have up: "unat (page_size p) = ?P" using k by (simp add: unat_page_size)
  obtain i j where ij: "unat a = ?P * i" "unat n = ?P * j" using assms(2,3) up by (auto elim!: dvdE)
  define q where "q = unat x div ?P"
  have q: "i \<le> q" "q < i + j"
    using assms(6) ij by (auto simp: q_def cells_def less_eq_div_iff_mult_less_eq div_less_iff_less_mult algebra_simps)
  have "unat (a + of_nat (q - i) * page_size p) = ?P * q"
  proof -
    have "a + of_nat (q - i) * page_size p = a + of_nat ((q - i) * ?P)" using k by simp
    moreover have e: "unat a + (q - i) * ?P = ?P * q" using ij q by (simp add: diff_mult_distrib mult.commute)
    moreover have "?P * q < 2 ^ 64" using q assms(4) ij
      by (metis add_mult_distrib2 le_less_trans less_imp_le mult_le_mono2)
    ultimately show ?thesis using unat_add_addr [of a "(q - i) * ?P"] by simp
  qed
  then have "ALIGN_FLOOR x (page_size p) = a + of_nat (q - i) * page_size p"
    using k by (simp add: word_unat_eq_iff [of "ALIGN_FLOOR x _"] unat_ALIGN_FLOOR q_def mult.commute [of _ ?P])
  moreover have "(?P * j + ?P - 1) div ?P = j" using page_count [of ?P j] by simp
  then have "a + of_nat (q - i) * page_size p \<in> set (page_bases (page_size p) a n)"
    using q ij up by (auto simp: page_bases_def simp del: of_nat_diff intro!: image_eqI [of _ _ "q - i"])
  ultimately show ?thesis using assms(5) by (auto simp: unmapped_range_def list_all_iff prot_at_def)
qed

text \<open>In every other case the pages of the new arena were free.\<close>

lemma near_arena_free:
  assumes ps: "page_size_ok (page_size p)" and gap: "gap_ok p r r'"
    and u: "check_has_sufficient_memory_between_region lo hi n r r' = u" "u \<noteq> 0"
    and free: "prot_at p (u + ucast n) = None"
    and x: "x \<in> cells (ALIGN_FLOOR u (page_size p)) (unused_arena_size (page_size p) u n)"
  shows "prot_at p x = None"
proof -
  obtain k where k: "k < 31" "page_size p = 2 ^ k" "2 < k" using ps unfolding page_size_ok_def by force
  let ?P = "(2 :: nat) ^ k" and ?e = "mr_start r + mr_size r" and ?s = "mr_start r'"
  have up: "unat (page_size p) = ?P" using k by (simp add: unat_page_size)
  note g = region_gap [OF u]
  have un: "unat u + unat n < 2 ^ 64" using g(4) unat_addr [of hi] by linarith
  note ua = unused_arena [OF ps un]
  have s: "unat (u + ucast n) = unat u + unat n" using un by (simp add: unat_plus)
  have fl: "unat (ALIGN_FLOOR y (page_size p)) = unat y div ?P * ?P" for y using k by (simp add: unat_ALIGN_FLOOR)
  have al: "?P dvd unat ?e" "?P dvd unat ?s"
    using gap fl [of ?e] fl [of ?s] by (auto simp: gap_ok_def Let_def intro: dvdI [of _ _ "_ div _"] simp: mult.commute)
  have "unat (ALIGN_FLOOR ?e 4) = unat ?e div 4 * 4" using unat_ALIGN_FLOOR [of 2 ?e] by simp
  moreover have "4 dvd ?P" using k(3) le_imp_power_dvd [of 2 k "2 :: nat"] by simp
  ultimately have eu: "unat ?e \<le> unat u" using g(1) al(1) dvd_trans by force
  have lt: "y < y div ?P * ?P + ?P" for y
    by (metis add.commute div_mult_mod_eq mod_less_divisor nat_add_left_cancel_less zero_less_numeral zero_less_power)
  have range: "unat u div ?P * ?P \<le> unat x" "unat x < (unat u + unat n) div ?P * ?P + ?P"
    using x ua(3) up fl s by (auto simp: cells_def)
  show ?thesis
  proof (cases "?e < ?s")
    case True
    then have un: "unmapped_range p ?e (?s - ?e)" and "prot_at p ?s \<noteq> None" using gap by (simp_all add: gap_ok_def Let_def)
    then have "u + ucast n \<noteq> ?s" using free by auto
    then have less: "unat u + unat n < unat ?s" using g(3) s by (metis le_neq_implies_less word_unat_eq_iff)
    have se: "unat (?s - ?e) = unat ?s - unat ?e" using True by (simp add: unat_minus word_less_nat_alt)
    obtain j where j: "unat ?s = ?P * j" using al(2) by (elim dvdE)
    then have "(unat u + unat n) div ?P < j" using less by (simp add: div_less_iff_less_mult mult.commute)
    then have "(unat u + unat n) div ?P * ?P + ?P \<le> unat ?s" using j
      by (metis Suc_leI add.commute mult.commute mult_Suc_right mult_le_mono2)
    moreover obtain i where i: "unat ?e = ?P * i" using al(1) by (elim dvdE)
    then have "i \<le> unat u div ?P" using eu by (simp add: less_eq_div_iff_mult_less_eq mult.commute)
    then have "unat ?e \<le> unat u div ?P * ?P" using i by (simp add: mult.commute)
    ultimately have "x \<in> cells ?e (?s - ?e)" using range se True by (simp add: cells_def word_less_nat_alt)
    moreover have "?P dvd unat (?s - ?e)" using al se by simp
    ultimately show ?thesis
      using unmapped_range_cells [OF ps _ _ _ un] al up se True unat_addr [of ?s] by (simp add: word_less_nat_alt)
  next
    case False
    then have e: "unat ?s \<le> unat ?e" by (simp add: word_less_nat_alt)
    then have n: "unat n = 0" using eu g(3) by linarith
    then have "u + ucast n = u" by (simp add: unat_eq_0)
    moreover have "ALIGN_FLOOR x (page_size p) = ALIGN_FLOOR u (page_size p)"
    proof -
      have "unat x div ?P = unat u div ?P" using range n
        by (intro div_nat_eqI) (simp_all add: mult.commute)
      then show ?thesis by (simp add: word_unat_eq_iff fl)
    qed
    ultimately show ?thesis using free by (simp add: prot_at_def)
  qed
qed

lemma unused_near_allocates:
  assumes m: "machine_ok m" and K: "kernel_mmap (k_mmap k)"
    and a: "allocateNearBlockFromUnusedRegion k n pos rng ex m = (Some b, m')"
    and g: "granted m'" and M: "kernel_maps (k_maps k)" and f: "\<not> near_overrun ex m m' b"
  shows "allocates ex m (ucast n) b m'"
proof -
  have ps: "page_size_ok (page_size (proc m))" using m by (simp add: machine_ok_def)
  let ?ps = "page_size (proc m)" and ?regions = "GetProcessMemoryLayout (k_maps k (proc m))"
  obtain i u r p as' m2 where h: "u \<noteq> 0"
    "check_has_sufficient_memory_between_region (pos - rng) (pos + rng) n (?regions ! i) (?regions ! Suc i) = u"
    "OSMemory_Allocate (k_mmap k) (unused_arena_size ?ps u n) kNoAccess (ALIGN_FLOOR u ?ps) (proc m) = (r, p)" "r \<noteq> 0"
    and i: "Suc i < length ?regions"
    and m2: "m2 = upd_arenas ex (\<lambda>as. as @ [MemoryArena (ALIGN_FLOOR u ?ps) (unused_arena_size ?ps u n)])
            (m\<lparr>proc := snd (OSMemory_SetPermission (ALIGN_FLOOR u ?ps) (unused_arena_size ?ps u n)
                  (if ex then kReadExecute else kReadWrite) p)\<rparr>)"
    and al: "alloc_near_at (length (arenas_of ex m)) u n (arenas_of ex m2) = (Some b, as')"
    and m': "m' = upd_arenas ex (\<lambda>_. as') m2"
    using unused_near_hit [OF a] by (auto simp: Let_def)
  let ?r = "ALIGN_FLOOR u ?ps" and ?n = "unused_arena_size ?ps u n" and ?l = "length (arenas_of ex m)"
  have un: "unat u + unat n < 2 ^ 64" using region_gap(4) [OF h(2,1)] unat_addr [of "pos + rng"] by linarith
  note ua = unused_arena [OF ps un] and ok = unused_arena_ok [OF K ps un h(3,4)]
  have as2: "arenas_of ex m2 = arenas_of ex m @ [MemoryArena ?r ?n]" by (simp add: m2)
  have "b = MemBlock u (ucast n) \<and> as' = arenas_of ex m @ [(MemoryArena ?r ?n)\<lparr>cursor_addr := u + ucast n\<rparr>]"
    using alloc_near_at_room [of ?l "arenas_of ex m2" ?ps u n] ok ua(3-5) al as2 by simp
  then have b: "b = MemBlock u (ucast n)" and as': "arenas_of ex m' = arenas_of ex m @ [(MemoryArena ?r ?n)\<lparr>cursor_addr := u + ucast n\<rparr>]" by (simp_all add: m')
  have "\<forall>A \<in> set (arenas_of ex m'). arena_addr A \<noteq> 0" using g by (simp add: granted_arenas)
  then have fr: "?r \<noteq> 0" by (simp add: as')
  note ma = map_arena [OF K ps ua(1) h(3,4)]
  have r: "r = ?r" using ma(2) fr .
  have "prot_at (proc m) (u + ucast n) = None" using f by (simp add: near_overrun_def as' b)
  moreover have "gap_ok (proc m) (?regions ! i) (?regions ! Suc i)"
    using M ps i gaps_ok_nth unfolding kernel_maps_def by blast
  ultimately have fresh: "prot_at (proc m) x = None" if "x \<in> cells ?r ?n" for x
    using near_arena_free [OF ps _ h(2,1) _ that] by blast
  have "machine_ok m2" "used_cells m2 = used_cells m" unfolding m2
    by (rule push_arena [OF m ok]; use ma(3,4) fresh in \<open>simp add: r\<close>)+
  moreover have "page_size (proc m2) = ?ps" using ma(3) by (simp add: m2 r)
  ultimately show ?thesis
    using alloc_near_at_allocates [of m2 ?l ex u n b as'] al as2 m' by (auto intro: allocates_from)
qed

subsection \<open>Requests to the shared allocators\<close>

text \<open>
  A request is one of the block operations. \<open>serve\<close> gives its block and the new state. It gives none when the operation
  fails, when \<^verbatim>\<open>mmap\<close> failed (an arena at the null address was registered), when the search range is 2 to the 63 or
  more, and when a near block ends where a mapped page starts, which the code then overwrites (\<open>near_overrun\<close>).
\<close>

datatype request = ReqExec u32 | ReqData u32 | ReqNear u32 addr addr bool

fun request_size :: "request \<Rightarrow> addr" where
  "request_size (ReqExec n) = ucast n"
| "request_size (ReqData n) = ucast n"
| "request_size (ReqNear n pos rng ex) = ucast n"

fun raw_request :: "kernel \<Rightarrow> machine \<Rightarrow> request \<Rightarrow> (MemBlock \<times> machine) option" where
  "raw_request k m (ReqExec n) = (case allocateExecBlock k n m of Inl _ \<Rightarrow> None | Inr r \<Rightarrow> Some r)"
| "raw_request k m (ReqData n) = (case allocateDataBlock k n m of Inl _ \<Rightarrow> None | Inr r \<Rightarrow> Some r)"
| "raw_request k m (ReqNear n pos rng ex) =
     (case allocateNearBlock k n pos rng ex m of (None, _) \<Rightarrow> None
      | (Some b, m') \<Rightarrow> if rng < 0x8000000000000000 \<and> \<not> near_overrun ex m m' b then Some (b, m') else None)"

definition serve :: "kernel \<Rightarrow> machine \<Rightarrow> request \<Rightarrow> (MemBlock \<times> machine) option" where
  "serve k m r = (case raw_request k m r of None \<Rightarrow> None | Some (b, m') \<Rightarrow> if granted m' then Some (b, m') else None)"

lemma serve_allocates:
  assumes m: "machine_ok m" and K: "kernel_mmap (k_mmap k)" and M: "kernel_maps (k_maps k)" and s: "serve k m r = Some (b, m')"
  shows "\<exists>ex. allocates ex m (request_size r) b m'"
proof -
  have g: "granted m'" and r: "raw_request k m r = Some (b, m')"
    using s by (auto simp: serve_def split: option.splits if_splits)
  show ?thesis
  proof (cases r)
    case (ReqExec n)
    then have "allocateExecBlock k n m = Inr (b, m')" using r by (auto split: sum.splits)
    then show ?thesis using exec_block_allocates [OF m K _ g] ReqExec by auto
  next
    case (ReqData n)
    then have "allocateDataBlock k n m = Inr (b, m')" using r by (auto split: sum.splits)
    then show ?thesis using data_block_allocates [OF m K _ g] ReqData by auto
  next
    case (ReqNear n pos rng ex)
    then have a: "allocateNearBlock k n pos rng ex m = (Some b, m')" and "rng < 0x8000000000000000"
      and f: "\<not> near_overrun ex m m' b"
      using r by (auto split: prod.splits option.splits if_splits)
    then have rng: "unat rng < 2 ^ 63" by (simp add: word_less_nat_alt)
    have "allocates ex m (ucast n) b m'"
      using near_block_cases [OF m a] default_near_block(2) [OF m rng] unused_near_allocates [OF m K _ g M f] by blast
    then show ?thesis using ReqNear by auto
  qed
qed

lemma near_block_window:
  assumes "machine_ok m" "kernel_mmap (k_mmap k)" "unat rng < 2 ^ 63"
    and "allocateNearBlock k n pos rng ex m = (Some b, m')"
  shows "in_search_range pos rng (blk_addr b) (unat n)" "mr_size b = ucast n"
proof -
  have ps: "page_size_ok (page_size (proc m))" using assms(1) by (simp add: machine_ok_def)
  consider "allocateNearBlockFromDefaultAllocator n pos rng ex m = (Some b, m')"
    | "allocateNearBlockFromUnusedRegion k n pos rng ex m = (Some b, m')"
    using near_block_cases [OF assms(1,4)] by blast
  then have "in_search_range pos rng (blk_addr b) (unat n) \<and> mr_size b = ucast n"
  proof cases
    case 1
    then show ?thesis using default_near_block [OF assms(1,3) 1] by (simp add: allocates_def)
  next
    case 2
    then show ?thesis using unused_near_block(1,2) [OF ps assms(2,3) 2] by simp
  qed
  then show "in_search_range pos rng (blk_addr b) (unat n)" "mr_size b = ucast n" by simp_all
qed

text \<open>The kernel is a parameter of the operations; the contract holds for one that keeps its promises.\<close>

definition serve_with :: "kernel \<Rightarrow> machine \<Rightarrow> request \<Rightarrow> (MemBlock \<times> machine) option" where
  "serve_with k = (if kernel_mmap (k_mmap k) \<and> kernel_maps (k_maps k) then serve k else (\<lambda>_ _. None))"

interpretation shared: region_allocator "serve_with k" machine_ok used_cells block_cells
  "\<lambda>r b. mr_size b = request_size r" for k
proof unfold_locales
  fix m r b m'
  assume m: "machine_ok m" and "serve_with k m r = Some (b, m')"
  then have "\<exists>ex. allocates ex m (request_size r) b m'"
    using serve_allocates by (auto simp: serve_with_def split: if_splits)
  then show "machine_ok m'" "block_cells b \<inter> used_cells m = {}" "used_cells m \<union> block_cells b \<subseteq> used_cells m'"
    "mr_size b = request_size r"
    by (auto simp: allocates_def)
qed

lemma machine_ok_empty: "page_size_ok (page_size p) \<Longrightarrow> machine_ok \<lparr>allocator = MemoryAllocator, proc = p\<rparr>"
  by (simp add: machine_ok_def all_arenas_def arenas_of_def MemoryAllocator_def)

subsection \<open>Properties\<close>

text \<open>
  C16: The blocks that a sequence of executable, data and near requests hands out are pairwise disjoint and have the
  sizes asked for, and the state keeps the arena invariant: every arena page aligned, cursors inside, arenas disjoint,
  code arenas read-execute, data arenas read-write. This is for a kernel that keeps the promises of \<^verbatim>\<open>mmap\<close> and of the
  maps file, and for a sequence in which every request is served: no \<^verbatim>\<open>mmap\<close> fails, search ranges are below 2 to the 63, and no
  near block in a new arena ends exactly where a mapped page starts; in that case (lemma \<open>near_arena_overruns\<close>) the
  code maps its arena over that page. That all other new arenas lie in free memory is proved, not assumed.
\<close>
theorem alloc_blocks_disjoint:
  assumes "kernel_mmap (k_mmap k)" "kernel_maps (k_maps k)" "page_size_ok (page_size p)"
    and "alloc_run (serve k) \<lparr>allocator = MemoryAllocator, proc = p\<rparr> rs = Some (bs, m)"
  shows "machine_ok m \<and> sorted_wrt (\<lambda>b c. block_cells b \<inter> block_cells c = {}) bs \<and>
    list_all2 (\<lambda>r b. mr_size b = request_size r) rs bs"
  using shared.run_spec [OF machine_ok_empty [OF assms(3)], of k rs bs m] assms(1,2,4) by (simp add: serve_with_def)

text \<open>A kernel that maps at \<^verbatim>\<open>0x400\<close> or at the fixed address, when the pages are free, with pages of sixteen bytes.\<close>

definition demo_mmap :: kmmap where
  "demo_mmap p fixed n =
     (if fixed = 0 \<and> page_size p = 16 \<and> 0 < n \<and> n \<le> 32 \<and> unmapped_range p 0x400 32 then Some 0x400 else None)"

definition demo_kernel :: kernel where
  "demo_kernel = \<lparr>k_mmap = demo_mmap, k_maps = (\<lambda>_. None)\<rparr>"

lemma demo_mmap_ok: "kernel_mmap demo_mmap"
  unfolding kernel_mmap_def
proof (intro allI impI)
  fix p fixed n a
  assume h: "page_size_ok (page_size p) \<and> demo_mmap p fixed n = Some a"
  then have e: "fixed = 0" "page_size p = 16" "0 < n" "n \<le> 32" "unmapped_range p 0x400 32" "a = 0x400"
    by (auto simp: demo_mmap_def split: if_splits)
  have n: "unat n \<le> 32" using e(4) by (simp add: word_le_nat_alt)
  have "prot_at p x = None" if "in_range 0x400 n x" for x
  proof -
    have "x \<in> cells 0x400 32" using that n by (simp add: in_range_cells cells_def)
    then show ?thesis using unmapped_range_cells [of p "0x400" 32 x] h e by simp
  qed
  moreover have "ALIGN_FLOOR 0x400 16 = 0x400" by code_simp
  ultimately show "a \<noteq> 0 \<and> 0 < n \<and> ALIGN_FLOOR a (page_size p) = a \<and> unat a + unat n + unat (page_size p) \<le> 2 ^ 64 \<and>
      (fixed \<noteq> 0 \<longrightarrow> a = fixed) \<and> (fixed = 0 \<longrightarrow> (\<forall>x. in_range a n x \<longrightarrow> prot_at p x = None))"
    using e n by simp
qed

text \<open>
  C25: A near block has the size asked for and lies, with all its bytes, within the search range around the
  position, whether it comes from an arena with room or from memory mapped for it; the computation of the
  window does not depend on \<^verbatim>\<open>pos - search_range\<close> and \<^verbatim>\<open>pos + search_range\<close> not wrapping around.
\<close>
theorem near_block_in_range:
  assumes "machine_ok m" "kernel_mmap (k_mmap k)" "unat rng < 2 ^ 63"
    and "allocateNearBlock k n pos rng ex m = (Some b, m')"
  shows "mr_size b = ucast n \<and> unat pos \<le> unat (blk_addr b) + unat rng \<and>
     unat (blk_addr b) + unat n \<le> unat pos + unat rng"
  using near_block_window [OF assms] by (simp add: in_search_range_def)

text \<open>A kernel that grants a fixed mapping below \<^verbatim>\<open>0x1000\<close>, and lists two regions with a gap of one page.\<close>

definition fixed_mmap :: kmmap where
  "fixed_mmap p fixed n =
     (if page_size p = 16 \<and> fixed \<noteq> 0 \<and> 0 < n \<and> n < 0x1000 \<and> fixed < 0x1000 \<and> ALIGN_FLOOR fixed 16 = fixed then Some fixed else None)"

definition gap_kernel :: kernel where
  "gap_kernel = \<lparr>k_mmap = fixed_mmap, k_maps = (\<lambda>_. Some ([Some (0x120, 0x130, ''r-xp''), Some (0x100, 0x110, ''r-xp'')], Some (0x100, 0x110, ''r-xp'')))\<rparr>"

definition gap_machine :: machine where
  "gap_machine = \<lparr>allocator = MemoryAllocator, proc = demo_process\<lparr>page_prot := (\<lambda>b. if b = 0x100 \<or> b = 0x120 then Some 5 else None),
      memory := (\<lambda>_. 0xAA)\<rparr>\<rparr>"

lemma fixed_mmap_ok: "kernel_mmap fixed_mmap"
  unfolding kernel_mmap_def
proof (intro allI impI)
  fix p fixed n a
  assume "page_size_ok (page_size p) \<and> fixed_mmap p fixed n = Some a"
  then have e: "page_size p = 16" "fixed \<noteq> 0" "0 < n" "n < 0x1000" "fixed < 0x1000" "ALIGN_FLOOR fixed 16 = fixed" "a = fixed"
    by (auto simp: fixed_mmap_def split: if_splits)
  then show "a \<noteq> 0 \<and> 0 < n \<and> ALIGN_FLOOR a (page_size p) = a \<and> unat a + unat n + unat (page_size p) \<le> 2 ^ 64 \<and>
      (fixed \<noteq> 0 \<longrightarrow> a = fixed) \<and> (fixed = 0 \<longrightarrow> (\<forall>x. in_range a n x \<longrightarrow> prot_at p x = None))"
    by (simp add: word_less_nat_alt)
qed

text \<open>
  A kernel that also grants fixed mappings and lists, as regions of one page, the pages of a window that are mapped.
\<close>

definition window_mmap :: kmmap where
  "window_mmap p fixed n = (if fixed = 0 then demo_mmap p fixed n else fixed_mmap p fixed n)"

definition scan_maps :: "addr list \<Rightarrow> process \<Rightarrow> maps_file option" where
  "scan_maps window p =
     (let pages = filter (\<lambda>a. page_prot p a \<noteq> None) window;
          line = (\<lambda>a. Some (a, a + 16, ''r-xp'')) in
      if page_size p \<noteq> 16 \<or> pages = [] then None else Some (map line pages, line (last pages)))"

definition window_kernel :: kernel where
  "window_kernel = \<lparr>k_mmap = window_mmap, k_maps = scan_maps [0x100, 0x110, 0x120]\<rparr>"

lemma window_kernel_ok: "kernel_mmap (k_mmap window_kernel)" "kernel_maps (k_maps window_kernel)"
proof -
  show "kernel_mmap (k_mmap window_kernel)"
    unfolding kernel_mmap_def window_kernel_def
  proof (intro allI impI)
    fix p fixed n a
    assume h: "page_size_ok (page_size p) \<and> k_mmap \<lparr>k_mmap = window_mmap, k_maps = scan_maps [0x100, 0x110, 0x120]\<rparr> p fixed n = Some a"
    show "a \<noteq> 0 \<and> 0 < n \<and> ALIGN_FLOOR a (page_size p) = a \<and> unat a + unat n + unat (page_size p) \<le> 2 ^ 64 \<and>
        (fixed \<noteq> 0 \<longrightarrow> a = fixed) \<and> (fixed = 0 \<longrightarrow> (\<forall>x. in_range a n x \<longrightarrow> prot_at p x = None))"
    proof (cases "fixed = 0")
      case True
      then show ?thesis using h demo_mmap_ok [unfolded kernel_mmap_def, rule_format, of p fixed n a] by (auto simp: window_mmap_def)
    next
      case False
      then show ?thesis using h fixed_mmap_ok [unfolded kernel_mmap_def, rule_format, of p fixed n a] by (auto simp: window_mmap_def)
    qed
  qed
  have "gaps_ok p (GetProcessMemoryLayout (scan_maps [0x100, 0x110, 0x120] p))" for p
  proof (cases "page_size p = 16")
    case True
    have f: "ALIGN_FLOOR 0x100 16 = 0x100" "ALIGN_FLOOR 0x110 16 = 0x110" "ALIGN_FLOOR 0x120 16 = 0x120" "ALIGN_FLOOR 0x130 16 = 0x130"
      "page_bases 16 0x110 0x10 = [0x110]" by code_simp+
    show ?thesis
      by (cases "page_prot p 0x100"; cases "page_prot p 0x110"; cases "page_prot p 0x120")
        (simp_all add: scan_maps_def True GetProcessMemoryLayout_def maps_passes_def MemRegion_def MemRange_def MemRange.extend_def
          MemRegion.fields_def gap_ok_def unmapped_range_def f prot_at_def)
  qed (simp add: scan_maps_def GetProcessMemoryLayout_def)
  then show "kernel_maps (k_maps window_kernel)" by (simp add: kernel_maps_def window_kernel_def)
qed

definition window_process :: process where
  "window_process = demo_process\<lparr>page_prot := (\<lambda>b. if b = 0x100 \<or> b = 0x120 then Some 5 else None)\<rparr>"

definition demo_requests :: "request list" where
  "demo_requests = [ReqExec 20, ReqExec 5, ReqNear 8 0x11C 0x10 True, ReqNear 4 0x11C 0x10 True]"

text \<open>The third block comes from an arena mapped between two regions, the fourth from the same arena.\<close>

theorem alloc_blocks_disjoint_witness:
  "\<exists>bs m. alloc_run (serve window_kernel) \<lparr>allocator = MemoryAllocator, proc = window_process\<rparr> demo_requests = Some (bs, m) \<and>
     map blk_addr bs = [0x400, 0x414, 0x110, 0x118] \<and> machine_ok m \<and> sorted_wrt (\<lambda>b c. block_cells b \<inter> block_cells c = {}) bs"
proof -
  let ?r = "alloc_run (serve window_kernel) \<lparr>allocator = MemoryAllocator, proc = window_process\<rparr> demo_requests"
  have "map_option (\<lambda>(bs, m). map blk_addr bs) ?r = Some [0x400, 0x414, 0x110, 0x118]" by code_simp
  then obtain bs m where r: "?r = Some (bs, m)" "map blk_addr bs = [0x400, 0x414, 0x110, 0x118]" by auto
  have "page_size_ok (page_size window_process)" by (simp add: window_process_def demo_process_def page_size_ok_16)
  then have "machine_ok m \<and> sorted_wrt (\<lambda>b c. block_cells b \<inter> block_cells c = {}) bs"
    using alloc_blocks_disjoint [OF window_kernel_ok _ r(1)] by simp
  then show ?thesis using r by (intro exI [of _ bs] exI [of _ m]) simp
qed

lemma gap_machine_ok: "machine_ok gap_machine" "kernel_mmap (k_mmap gap_kernel)"
  using machine_ok_empty page_size_ok_16 by (simp_all add: gap_machine_def gap_kernel_def fixed_mmap_ok demo_process_def)

theorem near_block_in_range_witness:
  "\<exists>b m'. allocateNearBlock gap_kernel 8 0x11C 0x10 True gap_machine = (Some b, m') \<and>
     unat (0x11C :: addr) \<le> unat (blk_addr b) + unat (0x10 :: addr) \<and> unat (blk_addr b) + 8 \<le> unat (0x11C :: addr) + 0x10"
proof -
  let ?r = "allocateNearBlock gap_kernel 8 0x11C 0x10 True gap_machine"
  have "map_option blk_addr (fst ?r) = Some 0x110" by code_simp
  then obtain b m' where r: "?r = (Some b, m')" by (cases ?r) auto
  then show ?thesis
    using near_block_in_range [OF gap_machine_ok _ r] by simp
qed

text \<open>
  The arena mapped for a near block reaches past the block: when the block ends on a page boundary, the
  page that follows it belongs to the new arena, so that \<^verbatim>\<open>MAP_FIXED\<close> has replaced whatever was
  mapped there, up to the first page of the next region.
\<close>
theorem near_arena_overruns:
  assumes "machine_ok m" "kernel_mmap (k_mmap k)" "unat rng < 2 ^ 63"
    and "allocateNearBlockFromUnusedRegion k n pos rng ex m = (Some b, m')" "arena_addr (last (arenas_of ex m')) \<noteq> 0"
    and "ALIGN_FLOOR (blk_addr b + ucast n) (page_size (proc m)) = blk_addr b + ucast n"
  shows "blk_addr b + ucast n \<in> arena_span (last (arenas_of ex m')) \<and>
    prot_at (proc m') (blk_addr b + ucast n) = Some (arena_prot ex)"
proof -
  have ps: "page_size_ok (page_size (proc m))" using assms(1) by (simp add: machine_ok_def)
  let ?ps = "page_size (proc m)"
  obtain i u r p as' m2 where h: "u \<noteq> 0"
    "check_has_sufficient_memory_between_region (pos - rng) (pos + rng) n (GetProcessMemoryLayout (k_maps k (proc m)) ! i)
       (GetProcessMemoryLayout (k_maps k (proc m)) ! Suc i) = u"
    "OSMemory_Allocate (k_mmap k) (unused_arena_size ?ps u n) kNoAccess (ALIGN_FLOOR u ?ps) (proc m) = (r, p)" "r \<noteq> 0"
    and m2: "m2 = upd_arenas ex (\<lambda>as. as @ [MemoryArena (ALIGN_FLOOR u ?ps) (unused_arena_size ?ps u n)])
            (m\<lparr>proc := snd (OSMemory_SetPermission (ALIGN_FLOOR u ?ps) (unused_arena_size ?ps u n)
                  (if ex then kReadExecute else kReadWrite) p)\<rparr>)"
    and al: "alloc_near_at (length (arenas_of ex m)) u n (arenas_of ex m2) = (Some b, as')"
    and m': "m' = upd_arenas ex (\<lambda>_. as') m2"
    using unused_near_hit [OF assms(4)] by (auto simp: Let_def)
  let ?r = "ALIGN_FLOOR u ?ps" and ?n = "unused_arena_size ?ps u n"
  have un: "unat u + unat n < 2 ^ 64" using region_gap(4) [OF h(2,1)] unat_addr [of "pos + rng"] by linarith
  note ua = unused_arena [OF ps un] and ok = unused_arena_ok [OF assms(2) ps un h(3,4)]
  have "b = MemBlock u (ucast n) \<and> as' = arenas_of ex m @ [(MemoryArena ?r ?n)\<lparr>cursor_addr := u + ucast n\<rparr>]"
    using alloc_near_at_room [of "length (arenas_of ex m)" "arenas_of ex m2" ?ps u n] ok ua(3-5) al by (simp add: m2)
  then have b: "blk_addr b = u" and as': "arenas_of ex m' = arenas_of ex m @ [(MemoryArena ?r ?n)\<lparr>cursor_addr := u + ucast n\<rparr>]"
    by (auto simp: m')
  have "?r \<noteq> 0" using assms(5) as' by simp
  then have r: "r = ?r" using map_arena(2) [OF assms(2) ps ua(1) h(3,4)] by simp
  have "u + ucast n \<in> cells ?r ?n"
    using ua(3-5) assms(6) un b by (simp add: cells_def unat_plus)
  moreover have l: "last (arenas_of ex m') = (MemoryArena ?r ?n)\<lparr>cursor_addr := u + ucast n\<rparr>" using as' by simp
  moreover have "proc m' = snd (OSMemory_SetPermission ?r ?n (if ex then kReadExecute else kReadWrite) p)"
    by (simp add: m' m2)
  ultimately show ?thesis
    using map_arena(4) [OF assms(2) ps ua(1) h(3,4), where perm = "if ex then kReadExecute else kReadWrite" and x = "u + ucast n"]
    by (simp add: b arena_span_def r)
qed

theorem near_arena_overruns_witness:
  "\<exists>b m'. allocateNearBlockFromUnusedRegion gap_kernel 16 0x110 0x40 True gap_machine = (Some b, m') \<and>
     0x120 \<in> arena_span (last (arenas_of True m')) \<and> memory (proc gap_machine) 0x120 = 0xAA \<and> memory (proc m') 0x120 = 0"
proof -
  let ?r = "allocateNearBlockFromUnusedRegion gap_kernel 16 0x110 0x40 True gap_machine"
  have 1: "map_option blk_addr (fst ?r) = Some 0x110" "arena_addr (last (arenas_of True (snd ?r))) = 0x110"
    "memory (proc (snd ?r)) 0x120 = 0" "memory (proc gap_machine) 0x120 = 0xAA"
    "ALIGN_FLOOR (0x110 + ucast (16 :: u32)) (page_size (proc gap_machine)) = 0x120"
    by code_simp+
  then obtain b m' where r: "?r = (Some b, m')" by (cases ?r) auto
  then have "0x120 \<in> arena_span (last (arenas_of True m'))"
    using near_arena_overruns [OF gap_machine_ok _ r] 1 by simp
  then show ?thesis using r 1 by auto
qed

text \<open>
  The search for near data memory in the data arenas keeps only the answer of the last arena: when that arena
  has no room in the range, the search gives up, whatever room the earlier data arenas have.
\<close>
theorem near_data_last_arena_only:
  assumes "arenas_of False m \<noteq> []"
    and "allocateFromDefaultArena (pos - rng) (pos + rng) n (last (arenas_of False m)) = 0"
  shows "allocateNearBlockFromDefaultAllocator n pos rng False m = (None, m)"
  using assms
  by (simp add: allocateNearBlockFromDefaultAllocator_def code_as_arenas near_data_loop_hit)

theorem near_data_last_arena_only_witness:
  "let m = upd_data (\<lambda>_. [MemoryArena 0x200 0x100, (MemoryArena 0x400 0x10)\<lparr>cursor_addr := 0x410\<rparr>]) gap_machine in
   allocateFromDefaultArena (0x300 - 0x200) (0x300 + 0x200) 8 (hd (arenas_of False m)) = 0x200 \<and>
   allocateNearBlockFromDefaultAllocator 8 0x300 0x200 False m = (None, m)"
proof -
  let ?m = "upd_data (\<lambda>_. [MemoryArena 0x200 0x100, (MemoryArena 0x400 0x10)\<lparr>cursor_addr := 0x410\<rparr>]) gap_machine"
  have "allocateFromDefaultArena (0x300 - 0x200) (0x300 + 0x200) 8 (hd (arenas_of False ?m)) = 0x200"
    "allocateFromDefaultArena (0x300 - 0x200) (0x300 + 0x200) 8 (last (arenas_of False ?m)) = 0"
    "arenas_of False ?m \<noteq> []"
    by code_simp+
  then show ?thesis using near_data_last_arena_only [of ?m "0x300" "0x200" 8] by (simp add: Let_def)
qed

lemma OSMemory_Allocate_memory:
  assumes "kernel_mmap K" "page_size_ok (page_size p)" "OSMemory_Allocate K n acc 0 p = (r, p1)" "prot_at p x \<noteq> None"
  shows "memory p1 x = memory p x"
proof (cases "K p 0 n")
  case (Some a)
  have "\<not> in_range a n (ALIGN_FLOOR x (page_size p))"
  proof
    assume "in_range a n (ALIGN_FLOOR x (page_size p))"
    then have "prot_at p (ALIGN_FLOOR x (page_size p)) = None"
      using assms(1,2) Some unfolding kernel_mmap_def by blast
    then show False using assms(4) by (simp add: prot_at_def)
  qed
  then show ?thesis using assms(3) Some by (auto simp: OSMemory_Allocate_def mmap_def)
qed (use assms(3) in \<open>auto simp: OSMemory_Allocate_def mmap_def\<close>)

lemma SetPermission_memory [simp]: "memory (snd (OSMemory_SetPermission a n acc p)) = memory p"
  by (simp add: OSMemory_SetPermission_def)

lemma allocateExecBlock_memory:
  assumes m: "machine_ok m" and K: "kernel_mmap (k_mmap k)" and a: "allocateExecBlock k n m = Inr (b, m')"
    and x: "prot_at (proc m) x \<noteq> None"
  shows "memory (proc m') x = memory (proc m) x"
proof -
  have ps: "page_size_ok (page_size (proc m))" using m by (simp add: machine_ok_def)
  have code: "memory (proc m2) x = memory (proc m) x"
    if "allocateCodeMemoryArena k n' (upd_arenas ex f m) = Inr m2" for n' f m2 ex
    using that OSMemory_Allocate_memory [OF K ps _ x]
    by (auto simp: allocateCodeMemoryArena_def code_as_arenas Let_def split: if_splits prod.splits)
  have new: "proc m3 = proc m2" if "alloc_from_new n m2 = Inr (b, m3)" for m2 m3
    using that by (auto simp: alloc_from_new_def code_as_arenas split: prod.splits option.splits)
  show ?thesis
    using a code new by (auto simp: allocateExecBlock_def code_as_arenas bind_res_Inr_iff split: prod.splits option.splits)
qed

lemma used_cells_mapped: "machine_ok m \<Longrightarrow> x \<in> used_cells m \<Longrightarrow> prot_at (proc m) x \<noteq> None"
proof -
  assume m: "machine_ok m" and "x \<in> used_cells m"
  then obtain A where A: "A \<in> set (all_arenas m)" "x \<in> arena_used A" by (auto simp: used_cells_def)
  then have "x \<in> arena_span A"
    using m by (auto simp: machine_ok_def arena_ok_def arena_used_def arena_span_def cells_def)
  then show ?thesis using m A(1) by (auto simp: machine_ok_def set_all_arenas)
qed

text \<open>
  C37: An executable block is read-execute in all its bytes, was not part of any block handed out before, and leaves
  the bytes of all of them as they are.
\<close>
theorem exec_block_executable:
  assumes "machine_ok m" "kernel_mmap (k_mmap k)" "allocateExecBlock k n m = Inr (b, m')" "granted m'"
  shows "mr_size b = ucast n \<and> (\<forall>x \<in> block_cells b. prot_at (proc m') x = Some (PROT_READ OR PROT_EXEC)) \<and>
    block_cells b \<inter> used_cells m = {} \<and> (\<forall>x \<in> used_cells m. memory (proc m') x = memory (proc m) x)"
  using exec_block_allocates [OF assms] allocateExecBlock_memory [OF assms(1-3)] used_cells_mapped [OF assms(1)]
  by (simp add: allocates_def arena_prot_def)

definition demo_machine :: machine where
  "demo_machine = \<lparr>allocator = MemoryAllocator, proc = demo_process\<rparr>"

lemma demo_machine_ok: "machine_ok demo_machine" "kernel_mmap (k_mmap demo_kernel)"
  by (simp_all add: demo_machine_def machine_ok_empty demo_process_def page_size_ok_16 demo_kernel_def demo_mmap_ok)

theorem exec_block_executable_witness:
  "\<exists>b m'. allocateExecBlock demo_kernel 20 demo_machine = Inr (b, m') \<and>
     prot_at (proc m') 0x413 = Some 5 \<and> block_cells b \<inter> used_cells demo_machine = {}"
proof -
  have "(case allocateExecBlock demo_kernel 20 demo_machine of Inl _ \<Rightarrow> False | Inr (b, m') \<Rightarrow> granted m' \<and> blk_addr b = 0x400)"
    by code_simp
  then obtain b m' where r: "allocateExecBlock demo_kernel 20 demo_machine = Inr (b, m')" "granted m'" "blk_addr b = 0x400"
    by (auto split: sum.splits)
  note e = exec_block_executable [OF demo_machine_ok r(1,2)]
  then have "0x413 \<in> block_cells b" using r(3) by (simp add: block_cells_def cells_def)
  then show ?thesis using r e by (auto simp: prot_defs)
qed

text \<open>
  Copying a buffer into fresh data memory always ends the process while there is no data arena: the new arena is
  a code arena, which is not writable, and its size must be a multiple of the page size.
\<close>
theorem data_memory_copy_crashes:
  assumes "machine_ok m" "kernel_mmap (k_mmap k)" "data_arenas (allocator m) = []"
    and "buffer \<noteq> []" "length buffer < 2 ^ 32" "prot_at (proc m) 0 = None"
  shows "\<exists>c. allocateDataMemory_buffer k buffer m = Inl c"
proof -
  let ?n = "of_nat (length buffer) :: u32" let ?N = "ucast ?n :: addr"
  have ps: "page_size_ok (page_size (proc m))" using assms(1) by (simp add: machine_ok_def)
  obtain r p1 where r: "OSMemory_Allocate (k_mmap k) ?N kNoAccess 0 (proc m) = (r, p1)" by (metis surj_pair)
  let ?p2 = "snd (OSMemory_SetPermission r ?N kReadExecute p1)"
  have uN: "unat ?N = length buffer" using assms(5) by (simp add: unat_of_nat)
  show ?thesis
  proof (cases "?n mod ucast (page_size (proc m)) = 0")
    case False
    then show ?thesis using assms(3)
      by (simp add: allocateDataMemory_buffer_def allocateDataMemory_def allocateDataBlock_def allocateCodeMemoryArena_def
          OSMemory_PageSize_def upd_data_def)
  next
    case True
    have w: "\<not> has_prot PROT_WRITE ?p2 r"
    proof (cases "r = 0")
      case True
      then have "p1 = proc m"
        using r assms(2) ps by (auto simp: OSMemory_Allocate_def mmap_def kernel_mmap_def split: option.splits)
      moreover have "snd (mprotect 0 ?N pr (proc m)) = proc m" for pr
      proof -
        have "0 < (unat ?N + unat (page_size (proc m)) - 1) div unat (page_size (proc m))"
        proof -
          have "0 < length buffer" "0 < unat (page_size (proc m))"
            using assms(4) ps by (auto simp: page_size_ok_def unat_page_size)
          then show ?thesis unfolding uN div_greater_zero_iff by linarith
        qed
        then have "0 \<in> set (page_bases (page_size (proc m)) 0 ?N)"
          by (auto simp: page_bases_def intro!: image_eqI [of _ _ 0])
        moreover have "ALIGN_FLOOR 0 (page_size (proc m)) = 0" by (simp add: ALIGN_FLOOR_def)
        ultimately show ?thesis using assms(6) by (auto simp: mprotect_def list_all_iff prot_at_def)
      qed
      ultimately show ?thesis using True assms(6) by (simp add: OSMemory_SetPermission_def has_prot_def)
    next
      case False
      have "r \<in> cells r ?N" using uN assms(4) by (simp add: cells_def)
      then show ?thesis
        using map_arena(4) [OF assms(2) ps page_dvd_u32 [OF ps True] r False, of kReadExecute r]
        by (simp add: has_prot_def prot_defs)
    qed
    then have "memcpy r buffer ?p2 = Inl Segv"
      using assms(4) by (auto simp: memcpy_def list_all_iff intro!: bexI [of _ 0])
    then show ?thesis using assms(3) True r
      by (simp add: allocateDataMemory_buffer_def allocateDataMemory_def allocateDataBlock_def allocateCodeMemoryArena_def
          alloc_from_new_def alloc_at_def allocMemBlock_def OSMemory_PageSize_def upd_data_def upd_code_def copy_machine_def nth_append Let_def)
  qed
qed

theorem data_memory_copy_crashes_witness: "\<exists>c. allocateDataMemory_buffer demo_kernel (replicate 32 7) demo_machine = Inl c"
proof (rule data_memory_copy_crashes [OF demo_machine_ok])
  show "prot_at (proc demo_machine) 0 = None" by code_simp
qed (simp_all add: demo_machine_def MemoryAllocator_def)

text \<open>Where a new executable block lies, and what it leaves alone.\<close>

lemma exec_block_where:
  assumes m: "machine_ok m" and K: "kernel_mmap (k_mmap k)" and a: "allocateExecBlock k n m = Inr (b, m')" and g: "granted m'"
    and x: "prot_at (proc m) x \<noteq> None"
  shows "prot_at (proc m') x = prot_at (proc m) x"
    "(\<And>A. A \<in> set (all_arenas m) \<Longrightarrow> x \<notin> arena_span A) \<Longrightarrow> x \<notin> block_cells b"
proof -
  have ps: "page_size_ok (page_size (proc m))" using m by (simp add: machine_ok_def)
  obtain r as where f: "alloc_first (ucast n) (arenas_of True m) = (r, as)" by (cases "alloc_first (ucast n) (arenas_of True m)")
  have "prot_at (proc m') x = prot_at (proc m) x \<and> ((\<forall>A \<in> set (all_arenas m). x \<notin> arena_span A) \<longrightarrow> x \<notin> block_cells b)"
  proof (cases r)
    case (Some c)
    with f a have m': "m' = upd_arenas True (\<lambda>_. as) m" and "c = b" by (auto simp: allocateExecBlock_def code_as_arenas)
    with alloc_first_Some f Some obtain i A' where i: "i < length (arenas_of True m)"
        "allocMemBlock (ucast n) (arenas_of True m ! i) = (Some b, A')" by blast
    then have A: "arenas_of True m ! i \<in> set (all_arenas m)" using nth_mem by (fastforce simp: set_all_arenas)
    then have "block_cells b \<subseteq> arena_span (arenas_of True m ! i)"
      using allocMemBlock_ok(5) [OF _ i(2)] m unfolding machine_ok_def by blast
    then show ?thesis using A m' by auto
  next
    case None
    then have "upd_arenas True (\<lambda>_. as) m = m" using f alloc_first_None upd_arenas_id by metis
    with None f a obtain n' m1 where m1: "allocateCodeMemoryArena k n' m = Inr m1" "alloc_from_new n m1 = Inr (b, m')"
      by (auto simp: allocateExecBlock_def code_as_arenas bind_res_Inr_iff)
    note ne = code_arena_pushed [OF m1(1)] and gr = alloc_from_new_granted [OF m1(2) g code_arena_pushed [OF m1(1)]]
    obtain r p1 where r: "OSMemory_Allocate (k_mmap k) (ucast n') kNoAccess 0 (proc m) = (r, p1)"
      by (cases "OSMemory_Allocate (k_mmap k) (ucast n') kNoAccess 0 (proc m)")
    have n': "n' mod ucast (page_size (proc m)) = 0"
      and m1': "m1 = upd_arenas True (\<lambda>as. as @ [MemoryArena r (ucast n')]) (m\<lparr>proc := snd (OSMemory_SetPermission r (ucast n') kReadExecute p1)\<rparr>)"
      using m1(1) r by (auto simp: allocateCodeMemoryArena_def OSMemory_PageSize_def code_as_arenas Let_def split: if_splits)
    have "r \<noteq> 0" using gr m1' by simp
    note ma = map_arena [OF K ps page_dvd_u32 [OF ps n'] r this]
    have out: "x \<notin> cells r (ucast n')" using ma(5) x by auto
    have al: "allocMemBlock (ucast n) (MemoryArena r (ucast n')) = (Some b, A') \<Longrightarrow> block_cells b \<subseteq> cells r (ucast n')" for A'
      using allocMemBlock_ok(5) [OF ma(1)] by (simp add: arena_span_def)
    have "proc m' = proc m1" "block_cells b \<subseteq> cells r (ucast n')"
      using m1(2) al ma(1) unfolding m1' 
      by (auto simp: alloc_from_new_def alloc_at_def code_as_arenas nth_append split: prod.splits option.splits dest: allocMemBlock_ok(5))
    then show ?thesis using out ma(4) m1' by auto
  qed
  then show "prot_at (proc m') x = prot_at (proc m) x"
    "(\<And>A. A \<in> set (all_arenas m) \<Longrightarrow> x \<notin> arena_span A) \<Longrightarrow> x \<notin> block_cells b" by blast+
qed

lemma Finalize_frame:
  assumes "machine_ok m" "kernel_mmap (k_mmap k)" "GetRealizedAddress a = 0"
    and "allocateExecBlock k (of_nat (length (asm_buffer a))) m = Inr (b, m1)" "granted m1"
    and "length (asm_buffer a) \<le> unat (page_size (proc m))"
  defines "L \<equiv> length (asm_buffer a)"
  obtains m' where "FinalizeFromTurboAssembler k a m = Inr (MemBlock (blk_addr b) (of_nat L), SetRealizedAddress a (blk_addr b), m')"
    "memory (proc m') = poke (blk_addr b) (asm_buffer a) (memory (proc m1))" "page_size (proc m') = page_size (proc m)"
    "unat (blk_addr b) + L < 2 ^ 64" "block_cells b = cells (blk_addr b) (of_nat L)" "L < 2 ^ 31"
    "\<And>i. i < L \<Longrightarrow> prot_at (proc m') (blk_addr b + of_nat i) = Some (PROT_READ OR PROT_EXEC)"
    "\<And>x. prot_at (proc m) x \<noteq> None \<Longrightarrow> prot_at (proc m') x \<in> {prot_at (proc m) x, Some (PROT_READ OR PROT_EXEC)}"
    "\<And>x. prot_at (proc m) x \<noteq> None \<Longrightarrow> x \<notin> block_cells b \<Longrightarrow> memory (proc m') x = memory (proc m) x"
proof -
  have ps: "page_size_ok (page_size (proc m))" using assms(1) by (simp add: machine_ok_def)
  then obtain j where "j < 31" "page_size (proc m) = 2 ^ j" by (auto simp: page_size_ok_def)
  moreover have "(2 :: nat) ^ j < 2 ^ 31" using calculation by (intro power_strict_increasing) auto
  ultimately have L: "L < 2 ^ 31" using assms(6) by (simp add: unat_page_size L_def)
  then have uL: "unat (of_nat L :: addr) = L" "ucast (of_nat L :: u32) = (of_nat L :: addr)"
    by (simp_all add: unat_of_nat word_unat_eq_iff)
  note al = exec_block_allocates [OF assms(1,2,4,5), folded L_def]
  have room: "unat (blk_addr b) + L < 2 ^ 64" and sz: "mr_size b = of_nat L" and ps1: "page_size (proc m1) = page_size (proc m)"
    using al uL by (auto simp: allocates_def)
  have bc: "block_cells b = cells (blk_addr b) (of_nat L)" using sz by (simp add: block_cells_def)
  have rx: "\<forall>i < L. prot_at (proc m1) (blk_addr b + of_nat i) = Some (PROT_READ OR PROT_EXEC)"
    using al room uL by (simp add: allocates_def arena_prot_def bc cells_def unat_add_addr)
  have cov: "\<forall>i < L. patch_page_of (page_size (proc m1)) (blk_addr b) L (blk_addr b + of_nat i)"
    using two_pages_cover [OF ps room assms(6) [folded L_def]] ps1 by simp
  obtain p' where p': "DobbyCodePatch (blk_addr b) (asm_buffer a) (proc m1) = Inr (0, p')"
      "memory p' = poke (blk_addr b) (asm_buffer a) (memory (proc m1))" "page_size p' = page_size (proc m)"
      "\<forall>x. prot_at p' x = (if patch_page_of (page_size (proc m1)) (blk_addr b) L x \<and> prot_at (proc m1) x \<noteq> None
                         then Some (PROT_READ OR PROT_EXEC) else prot_at (proc m1) x)"
    using DobbyCodePatch_eq [of "proc m1" "asm_buffer a" "blk_addr b"] ps ps1 rx cov by (auto simp: L_def)
  have out: "memory p' x = memory (proc m) x" if x: "prot_at (proc m) x \<noteq> None" "x \<notin> block_cells b" for x
  proof -
    have "\<not> unat (x - blk_addr b) < L"
      using in_range_cells [of "blk_addr b" "of_nat L" x] room uL x(2) by (simp add: bc in_range_def word_less_nat_alt)
    then show ?thesis
      using p'(2) allocateExecBlock_memory [OF assms(1,2,4) x(1)] by (simp add: poke_outside L_def)
  qed
  have "FinalizeFromTurboAssembler k a m =
      Inr (MemBlock (blk_addr b) (of_nat L), SetRealizedAddress a (blk_addr b), m1\<lparr>proc := p'\<rparr>)"
    using assms(3,4) p'(1)
    by (simp add: FinalizeFromTurboAssembler_def GetRealizedAddress_def SetRealizedAddress_def GetBufferSize_def GetBuffer_def
        patch_machine_def Let_def L_def)
  then show thesis
    using out p' rx cov L room bc exec_block_where(1) [OF assms(1,2,4,5)]
    by (intro that [of "m1\<lparr>proc := p'\<rparr>"]) auto
qed

text \<open>
  C21: Placing assembled code: when the allocator provides the block, the builder returns a block at its address with
  the length of the code, the process memory there holds exactly the assembled bytes on read-execute pages, and the
  blocks handed out earlier keep their contents. (The code is at most one page long.)
\<close>
theorem FinalizeFromTurboAssembler_places:
  assumes "machine_ok m" "kernel_mmap (k_mmap k)" "GetRealizedAddress a = 0"
    and "allocateExecBlock k (of_nat (length (asm_buffer a))) m = Inr (b, m1)" "granted m1"
    and "length (asm_buffer a) \<le> unat (page_size (proc m))"
  shows "\<exists>m'. FinalizeFromTurboAssembler k a m =
      Inr (MemBlock (blk_addr b) (of_nat (length (asm_buffer a))), SetRealizedAddress a (blk_addr b), m') \<and>
    (\<forall>i < length (asm_buffer a). memory (proc m') (blk_addr b + of_nat i) = asm_buffer a ! i \<and>
       prot_at (proc m') (blk_addr b + of_nat i) = Some (PROT_READ OR PROT_EXEC)) \<and>
    (\<forall>x \<in> used_cells m. memory (proc m') x = memory (proc m) x)"
proof -
  have "x \<notin> block_cells b" if "x \<in> used_cells m" for x
    using exec_block_allocates [OF assms(1,2,4,5)] that by (auto simp: allocates_def)
  then show ?thesis
    using used_cells_mapped [OF assms(1)] by - (rule Finalize_frame [OF assms], simp add: poke_inside)
qed

definition demo_asm :: assembler where
  "demo_asm = (AssemblerBase 0)\<lparr>asm_buffer := [0x1F, 0x20, 0x03, 0xD5]\<rparr>"

theorem FinalizeFromTurboAssembler_places_witness:
  "\<exists>m'. FinalizeFromTurboAssembler demo_kernel demo_asm demo_machine =
      Inr (MemBlock 0x400 4, SetRealizedAddress demo_asm 0x400, m') \<and> memory (proc m') 0x403 = 0xD5"
proof -
  let ?r = "allocateExecBlock demo_kernel (of_nat (length (asm_buffer demo_asm))) demo_machine"
  have "(case ?r of Inl _ \<Rightarrow> False | Inr (b, m1) \<Rightarrow> granted m1 \<and> blk_addr b = 0x400)"
    "GetRealizedAddress demo_asm = 0" "asm_buffer demo_asm = [0x1F, 0x20, 0x03, 0xD5]"
    by code_simp+
  moreover from this obtain b m1 where r: "?r = Inr (b, m1)" "granted m1" "blk_addr b = 0x400"
    by (auto split: sum.splits)
  moreover have "length (asm_buffer demo_asm) \<le> unat (page_size (proc demo_machine))"
    by (simp add: demo_asm_def demo_machine_def demo_process_def)
  ultimately obtain m' where m': "FinalizeFromTurboAssembler demo_kernel demo_asm demo_machine =
      Inr (MemBlock 0x400 (of_nat (length (asm_buffer demo_asm))), SetRealizedAddress demo_asm 0x400, m')"
      "\<forall>i < length (asm_buffer demo_asm). memory (proc m') (0x400 + of_nat i) = asm_buffer demo_asm ! i"
    using FinalizeFromTurboAssembler_places [OF demo_machine_ok _ r(1,2)] by auto
  then show ?thesis using m'(2) [rule_format, of 3] by (simp add: demo_asm_def)
qed

end
