(* ===== verification/Arm64_Trampoline.thy ===== *)
theory Arm64_Trampoline
  imports Arm64_Encode Mem_Alloc
begin

text \<open>
  The ARM64 trampolines: the code that is written over the prologue of a hooked function to reach the
  replacement (\<^verbatim>\<open>trampoline_arm64.cc\<close>), and its short form with a forwarding stub in near memory
  (\<^verbatim>\<open>near_trampoline_arm64.cc\<close>). The theorems run the emitted bytes in the reference semantics
  \<open>a64_run\<close>.
\<close>

definition llabs :: "u64 \<Rightarrow> u64" where
  "llabs d = (if sint d < 0 then - d else d)"

definition adrp_range :: u64 where
  "adrp_range = push_bit (2 + 19 + 12 - 1) 1"

definition GenerateNormalTrampolineBuffer :: "addr \<Rightarrow> addr \<Rightarrow> code_buffer option" where
  "GenerateNormalTrampolineBuffer from to =
     (let a = AssemblerBase from; distance = llabs (from - to) in
      Option.bind
        (if distance < adrp_range
         then map_option (\<lambda>a1. arm64_br a1 TMP_REG_0) (arm64_AdrpAdd a TMP_REG_0 from to)
         else arm64_LiteralLdrBranch a to)
        (\<lambda>a1. map_option asm_buffer (RelocBind arm64_link_confused_instructions a1)))"

definition ARM64_B_XXX_RANGE :: addr where
  "ARM64_B_XXX_RANGE = push_bit 2 (push_bit 25 1)"

text \<open>The result is the placed code, or \<open>None\<close> when no near memory was found.\<close>

definition GenerateFastForwardTrampoline :: "kernel \<Rightarrow> addr \<Rightarrow> addr \<Rightarrow> machine \<Rightarrow> crash + (MemBlock option \<times> machine)" where
  "GenerateFastForwardTrampoline k src dst m =
     (let a = AssemblerBase 0;
          (tramp_mem, m1) = allocateNearExecMemory k (3 * 4) src ARM64_B_XXX_RANGE m in
      if tramp_mem = 0 then Inr (None, m1)
      else
        let place = (\<lambda>a mem m. bind_res (FinalizeFromTurboAssembler k (SetRealizedAddress a mem) m)
              (\<lambda>(c, _, m'). Inr (Some c, m')));
            distance = llabs (tramp_mem - dst) in
        if distance < adrp_range then
          (case arm64_AdrpAdd a TMP_REG_0 tramp_mem dst of None \<Rightarrow> Inl Fatal
           | Some a1 \<Rightarrow> place (arm64_br a1 TMP_REG_0) tramp_mem m1)
        else
          let a1 = arm64_br (arm64_Mov a TMP_REG_0 dst) TMP_REG_0;
              (tramp_mem, m2) = allocateNearExecMemory k (of_nat (GetBufferSize (asm_buffer a1))) src ARM64_B_XXX_RANGE m1 in
          if tramp_mem = 0 then Inr (None, m2) else place a1 tramp_mem m2)"

definition GenerateNearTrampolineBuffer :: "kernel \<Rightarrow> addr \<Rightarrow> addr \<Rightarrow> machine \<Rightarrow> crash + (code_buffer option \<times> machine)" where
  "GenerateNearTrampolineBuffer k src dst m =
     (let a = AssemblerBase src in
      if llabs (dst - src) < ARM64_B_XXX_RANGE then Inr (Some (asm_buffer (arm64_b a (dst - src))), m)
      else bind_res (GenerateFastForwardTrampoline k src dst m) (\<lambda>(fast_forward_trampoline, m1).
        case fast_forward_trampoline of None \<Rightarrow> Inr (None, m1)
        | Some c \<Rightarrow> Inr (Some (asm_buffer (arm64_b a (blk_addr c - src))), m1)))"

subsection \<open>The emitted words\<close>

definition adrp17 :: "addr \<Rightarrow> u32" where
  "adrp17 d = encode_immhi_immlo_zero12_offset 0x90000011 d"

definition add17 :: "addr \<Rightarrow> u32" where
  "add17 to = 0x91000231 OR push_bit 10 (ucast (take_bit 12 to))"

definition page_delta :: "addr \<Rightarrow> addr \<Rightarrow> addr" where
  "page_delta from to = ALIGN_FLOOR to 0x1000 - ALIGN_FLOOR from 0x1000"

lemma page_floor: "ALIGN_FLOOR x 0x1000 = push_bit 12 (drop_bit 12 x)"
  using ALIGN_FLOOR_pow2 [of x 12] by simp

lemma adrp_word: "ADRP_op OR Rd TMP_REG_0 OR LeftShift (ucast (bits (signed_drop_bit 12 imm) 0 1)) 2 29 OR
    LeftShift (ucast (bits (signed_drop_bit 12 imm) 2 20)) 19 5 = adrp17 imm"
proof (rule bit_word_eqI)
  fix b assume "b < LENGTH(32)"
  then have b: "b < 32" by simp
  have c: "ADRP_op OR Rd TMP_REG_0 = 0x90000011" by code_simp
  have "list_all (\<lambda>b. \<not> bit (0x90000011 :: u32) b) ([5..<24] @ [29, 30])" by code_simp
  moreover have "b \<in> set ([5..<24] @ [29, 30])" if "5 \<le> b \<and> b \<le> 23 \<or> 29 \<le> b \<and> b \<le> 30"
    using that by (simp only: set_append set_upt list.set) auto
  ultimately have z: "\<not> bit (0x90000011 :: u32) b" if "5 \<le> b \<and> b \<le> 23 \<or> 29 \<le> b \<and> b \<le> 30"
    using that by (auto simp only: list_all_iff)
  show "bit (ADRP_op OR Rd TMP_REG_0 OR LeftShift (ucast (bits (signed_drop_bit 12 imm) 0 1)) 2 29 OR
    LeftShift (ucast (bits (signed_drop_bit 12 imm) 2 20)) 19 5) b = bit (adrp17 imm) b"
    unfolding adrp17_def encode_immhi_immlo_zero12_offset_def bit_encode_adr [OF b] or.assoc [symmetric] c
    using b z by (auto simp: field_simps_arm bit_simps)
qed

lemma add_word: "ADD_x_imm OR Rd TMP_REG_0 OR Rn TMP_REG_0 OR ucast (LeftShift (to mod 0x1000 :: u64) 12 10) = add17 to"
proof -
  have c: "(ADD_x_imm OR Rd TMP_REG_0) OR Rn TMP_REG_0 = 0x91000231" by code_simp
  have m: "to mod 0x1000 = take_bit 12 to" by (simp add: take_bit_eq_mod)
  have "ucast (LeftShift (take_bit 12 to) 12 10) = (push_bit 10 (ucast (take_bit 12 to)) :: u32)"
    by (rule bit_word_eqI) (auto simp: field_simps_arm bit_simps)
  then show ?thesis unfolding or.assoc [symmetric] c m add17_def by simp
qed

lemma AdrpAdd_block: "arm64_AdrpAdd a TMP_REG_0 from to = Some (emit_block a ([adrp17 (page_delta from to), add17 to], None))"
proof -
  have "Is64Bits TMP_REG_0" by code_simp
  then show ?thesis
    by (simp add: arm64_AdrpAdd_def Let_def arm64_adrp_def arm64_add_def AddSubImmediate_def Operand_imm_def
        IsImmediate_def adrp_word [simplified] add_word Emit_block emit_block_then page_delta_def reg_Is_def)
qed

lemma decode_adrp17:
  assumes "take_bit 12 d = 0" "- (2 ^ 32) \<le> sint d" "sint d < 2 ^ 32"
  shows "a64_decode (adrp17 d) = Some (I_ADRP 17 d)"
proof -
  have k: "adrp17 d AND 0x9F00001F = 0x90000011"
    using adr_encode_class [of "0x90000011" "signed_drop_bit 12 d"]
    by (simp add: adrp17_def encode_immhi_immlo_zero12_offset_def)
  have c: "adrp17 d AND 0x9F000000 = 0x90000000" using and_submask [OF k, of "0x9F000000"] by simp
  have "adrp17 d AND 0x1F = 0x11" using and_submask [OF k, of "0x1F"] by simp
  then have "regfld (adrp17 d) 0 = 17" by (simp add: regfld_def fld_def take_bit_eq_mask mask_numeral)
  then show ?thesis
    using decode_adrp [OF c] adrp33.roundtrip [OF assms] by (simp add: arch_adrp) (simp add: adrp17_def)
qed

lemma decode_add17: "a64_decode (add17 to) = Some (I_ADD 17 17 (take_bit 12 to))"
proof -
  have b: "bit (add17 to) k \<longleftrightarrow> (if 10 \<le> k \<and> k < 22 then bit to (k - 10) else bit (0x91000231 :: u32) k)" if "k < 32" for k
  proof -
    have "list_all (\<lambda>k. \<not> bit (0x91000231 :: u32) k) [10..<22]" by code_simp
    then have "\<not> bit (0x91000231 :: u32) k" if "10 \<le> k \<and> k < 22" using that by (simp only: list_all_iff set_upt) simp
    then show ?thesis using that by (auto simp: add17_def bit_simps)
  qed
  have c: "add17 to AND 0xFFC00000 = 0x91000231 AND 0xFFC00000"
  proof (rule and_eqI)
    fix k assume k: "k \<in> set (filter (bit (0xFFC00000 :: u32)) [0..<32])"
    have "list_all (\<lambda>k. \<not> bit (0xFFC00000 :: u32) k) [10..<22]" by code_simp
    moreover have "bit (0xFFC00000 :: u32) k" "k < 32" using k by simp_all
    ultimately have "\<not> (10 \<le> k \<and> k < 22)" by (auto simp only: list_all_iff set_upt atLeastLessThan_iff)
    then show "bit (add17 to) k = bit (0x91000231 :: u32) k" using b k by auto
  qed
  have "fld (add17 to) 0 5 = fld 0x91000231 0 5" "fld (add17 to) 5 5 = fld 0x91000231 5 5"
    by (rule bit_word_eqI; auto simp: bit_fld b)+
  moreover have "unat (fld 0x91000231 0 5) = 17" "unat (fld 0x91000231 5 5) = 17" by code_simp+
  moreover have "ucast (fld (add17 to) 10 12) = take_bit 12 to"
    by (rule bit_word_eqI) (auto simp: bit_simps bit_fld b)
  ultimately show ?thesis using decode_add_x [of "add17 to"] c by (simp add: regfld_def)
qed

subsection \<open>Distances\<close>

lemma llabs_bound:
  assumes "llabs d < w" "uint w < 2 ^ 63"
  shows "\<bar>sint d\<bar> < uint w"
proof (cases "sint d < 0")
  case True
  have "- (2 ^ 63) \<le> sint d" using sint_ge [of d] by simp
  moreover have "uint (- d) < uint w" using assms(1) True by (simp add: llabs_def word_less_def)
  moreover have "uint (word_of_int (- sint d) :: u64) = (- sint d) mod 2 ^ 64" by (simp only: uint_word_of_int len_num0 len_num1 len_bit0) simp
  then have "uint (- d) = (- sint d) mod 2 ^ 64" by simp
  then have "uint (- d) = - sint d" using True \<open>- (2 ^ 63) \<le> sint d\<close> by (simp add: mod_pos_pos_trivial)
  ultimately show ?thesis using True by simp
next
  case False
  then have "uint d < uint w" using assms(1) by (simp add: llabs_def word_less_def)
  with assms(2) have "signed_take_bit 63 (uint d) = uint d"
    by (intro signed_take_bit_int_eq_self) (simp_all add: order_trans [of _ "0 :: int"])
  with False \<open>uint d < uint w\<close> show ?thesis by (simp add: sint_uint)
qed

lemma page_delta_eq: "page_delta from to = to - from + (take_bit 12 from - take_bit 12 to)"
proof -
  have "push_bit 12 (drop_bit 12 x) = x - take_bit 12 x" for x :: addr
    using bits_ident [of 12 x] by (simp add: algebra_simps)
  then show ?thesis by (simp add: page_delta_def page_floor)
qed

lemma page_delta_aligned: "take_bit 12 (page_delta from to) = 0"
proof -
  have "page_delta from to = 0x1000 * (drop_bit 12 to - drop_bit 12 from)"
    by (simp add: page_delta_def page_floor push_bit_eq_mult right_diff_distrib)
  then have "page_delta from to = push_bit 12 (drop_bit 12 to - drop_bit 12 from)" by (simp add: push_bit_eq_mult)
  then show ?thesis by (simp add: take_bit_push_bit)
qed

lemma sint_page_delta:
  assumes "llabs (from - to) < adrp_range"
  shows "4096 dvd sint (page_delta from to)" "\<bar>sint (page_delta from to)\<bar> \<le> 2 ^ 32"
proof -
  let ?f = "uint (take_bit 12 from)" and ?t = "uint (take_bit 12 to)" and ?d = "sint (from - to)"
  have "uint adrp_range = 2 ^ 32" by code_simp
  with llabs_bound [OF assms] have d: "\<bar>?d\<bar> < 2 ^ 32" by simp
  have ft: "0 \<le> ?f" "?f < 4096" "0 \<le> ?t" "?t < 4096" by (simp_all add: take_bit_eq_mod uint_mod)
  have "word_of_int (- ?d + (?f - ?t)) = - (from - to) + (take_bit 12 from - take_bit 12 to)"
    by (simp only: wi_hom_add [symmetric] wi_hom_sub [symmetric] wi_hom_neg [symmetric] word_of_sint word_of_int_uint)
  then have w: "page_delta from to = word_of_int (- ?d + (?f - ?t))" by (simp add: page_delta_eq)
  have "\<bar>- d + (f - t)\<bar> < 2 ^ 32 + 4096"
    if "\<bar>d\<bar> < 2 ^ 32" "0 \<le> f" "f < 4096" "0 \<le> t" "t < 4096" for d f t :: int
    using that by (auto simp: abs_less_iff)
  from this [OF d ft] have r: "\<bar>- ?d + (?f - ?t)\<bar> < 2 ^ 32 + 4096" .
  then have "sint (word_of_int (- ?d + (?f - ?t)) :: u64) = - ?d + (?f - ?t)"
    by (intro sint_word_of_int) (simp_all add: abs_less_iff)
  with r have s: "\<bar>sint (page_delta from to)\<bar> < 2 ^ 32 + 4096" by (simp only: w)
  have "take_bit 12 (sint (page_delta from to)) = 0"
    using page_delta_aligned [of "from" to] by (simp add: bit_eq_iff bit_take_bit_iff bit_sint_iff)
  then show "4096 dvd sint (page_delta from to)" by (simp add: take_bit_eq_mod dvd_eq_mod_eq_0)
  then obtain q where q: "sint (page_delta from to) = 4096 * q" by (rule dvdE)
  have "\<bar>q\<bar> < 1048577" using s unfolding q by (simp add: abs_less_iff)
  then show "\<bar>sint (page_delta from to)\<bar> \<le> 2 ^ 32" unfolding q by (simp add: abs_le_iff abs_less_iff)
qed

subsection \<open>Running the trampoline\<close>

text \<open>The address reached is off by as much as the page distance is changed by the encoding.\<close>

lemma adrp_add_br_runs:
  assumes "loaded s A b" "block_in b off ([adrp17 (page_delta (pc s) to), add17 to, br17], None)"
    and "pc s = A + word_of_nat off" "a64_decode (adrp17 (page_delta (pc s) to)) = Some (I_ADRP 17 e)"
    and "v = to + (e - page_delta (pc s) to)"
  shows "a64_run 3 s = Some (goto v (wX 17 v s))"
proof -
  let ?base = "push_bit 12 (drop_bit 12 (pc s))"
  have s1: "a64_step s = Some (next_pc (wX 17 (?base + e) s))" (is "_ = Some ?s1")
    using step_word [OF assms(1,2), of 0] assms(3,4) by simp
  have l1: "loaded ?s1 A b" using assms(1) by simp
  have v: "?base + e + take_bit 12 to = v"
    using bits_ident [of 12 to] by (simp add: assms(5) page_delta_def page_floor algebra_simps)
  have s2: "a64_step ?s1 = Some (next_pc (wX 17 v ?s1))" (is "_ = Some ?s2")
    using step_word [OF l1 assms(2), of 1] assms(3)
    by (simp add: decode_add17 wSP_def wX_def rSP_def next_pc_def v [unfolded assms(3)])
  have l2: "loaded ?s2 A b" using assms(1) by simp
  have "a64_step ?s2 = Some (goto v ?s2)"
    using step_word [OF l2 assms(2), of 2] assms(3) decode_br17(1) by (simp add: rX_def wX_def next_pc_def)
  with s1 s2 show ?thesis by (simp add: numeral_eq_Suc goto_def next_pc_def wX_def)
qed

lemma decode_page_delta:
  assumes "llabs (from - to) < adrp_range" "page_delta from to \<noteq> 2 ^ 32"
  shows "a64_decode (adrp17 (page_delta from to)) = Some (I_ADRP 17 (page_delta from to))"
proof -
  have "sint (page_delta from to) \<noteq> 2 ^ 32" using assms(2) by (metis word_of_sint of_int_numeral of_int_power)
  then show ?thesis using sint_page_delta [OF assms(1)] by (intro decode_adrp17 page_delta_aligned) auto
qed

lemma single_block:
  assumes "blk_ok blk"
  shows "\<exists>a. RelocBind arm64_link_confused_instructions (emit_block (AssemblerBase p) blk) = Some a \<and>
     block_in (asm_buffer a) 0 blk \<and>
     length (asm_buffer a) = 4 * length (fst blk) + (if snd blk = None then 0 else 8)"
proof -
  have e: "foldl emit_block (AssemblerBase p) ([] @ blk # []) = emit_block (AssemblerBase p) blk" by simp
  have ok: "\<forall>b \<in> set ([] @ blk # []). blk_ok b" using assms by simp
  obtain a where a: "RelocBind arm64_link_confused_instructions (emit_block (AssemblerBase p) blk) = Some a"
    "length (asm_buffer a) = length (asm_buffer (emit_block (AssemblerBase p) blk)) + 8 * length (label_heap (emit_block (AssemblerBase p) blk))"
    using RelocBind_pool [OF pool_inv_blocks [OF pool_inv_init ok], of p] by (auto simp: e)
  have len: "length (asm_buffer a) = 4 * length (fst blk) + (if snd blk = None then 0 else 8)"
    using a(2) by (auto simp: emit_block_def AssemblerBase_def split: option.splits)
  have "asm_buffer (AssemblerBase p) = []" by (simp add: AssemblerBase_def)
  then have "block_in (asm_buffer a) 0 blk"
    using block_at [OF pool_inv_init ok a(1) [folded e]] len unfolding block_in_def by auto
  then show ?thesis using a(1) len by blast
qed

definition normal_block :: "addr \<Rightarrow> addr \<Rightarrow> block" where
  "normal_block from to = (if llabs (from - to) < adrp_range then ([adrp17 (page_delta from to), add17 to, br17], None)
     else ([ldr17, br17], Some (0, to)))"

lemma normal_trampoline_block:
  "\<exists>b. GenerateNormalTrampolineBuffer from to = Some b \<and> block_in b 0 (normal_block from to) \<and>
     length b = (if llabs (from - to) < adrp_range then 12 else 16)"
proof -
  have "blk_ok (normal_block from to)" by (simp add: normal_block_def blk_ok_def)
  from single_block [OF this, of "from"] show ?thesis
    by (auto simp: GenerateNormalTrampolineBuffer_def normal_block_def AdrpAdd_block br_block emit_block_then
        LiteralLdrBranch_block split: if_splits)
qed

subsection \<open>The near trampoline\<close>

definition b_word :: "addr \<Rightarrow> u32" where
  "b_word off = encode_imm26_offset 0x14000000 off"

lemma b_block: "arm64_b a off = emit_block a ([b_word off], None)"
proof -
  have "bit (B_op OR ucast (bits (signed_drop_bit 2 off) 0 25)) k = bit (b_word off) k" if "k < 32" for k
  proof -
    have "B_op = 0x14000000" by code_simp
    moreover have "list_all (\<lambda>k. \<not> bit (0x14000000 :: u32) k) [0..<26]" by code_simp
    then have "\<not> bit (0x14000000 :: u32) k" if "k \<le> 25" using that by (simp only: list_all_iff set_upt) simp
    ultimately show ?thesis using that by (auto simp: b_word_def bit_encode_imm26 field_simps_arm bit_simps)
  qed
  then have "B_op OR ucast (bits (signed_drop_bit 2 off) 0 25) = b_word off" by (intro bit_word_eqI) simp
  then show ?thesis by (simp add: arm64_b_def Let_def Emit_block)
qed

lemma decode_b_word:
  assumes "take_bit 2 off = 0" "- (2 ^ 27) \<le> sint off" "sint off < 2 ^ 27"
  shows "a64_decode (b_word off) = Some (I_B off)"
proof -
  have b: "bit (b_word off) k = bit (0x14000000 :: u32) k" if "26 \<le> k" for k
    using that by (auto simp: b_word_def bit_encode_imm26 dest: bit_imp_le_length)
  have "b_word off AND 0x7C000000 = 0x14000000 AND 0x7C000000"
  proof (rule and_eqI)
    fix k assume "k \<in> set (filter (bit (0x7C000000 :: u32)) [0..<32])"
    moreover have "filter (bit (0x7C000000 :: u32)) [0..<32] = [26..<31]" by code_simp
    ultimately show "bit (b_word off) k = bit (0x14000000 :: u32) k" by (intro b) (simp only: set_upt atLeastLessThan_iff)
  qed
  moreover have "\<not> bit (b_word off) 31" by (simp add: b)
  ultimately show ?thesis
    using decode_b [of "b_word off"] imm26.roundtrip [OF assms] by (simp add: arch_imm26 b_word_def)
qed

lemma branch_runs:
  assumes "loaded s src (wbytes [b_word (dst - src)])" "pc s = src" "take_bit 2 (dst - src) = 0"
    and "- (2 ^ 27) \<le> sint (dst - src)" "sint (dst - src) < 2 ^ 27"
  shows "a64_run 1 s = Some (goto dst s)"
proof -
  have "LoadInst (wbytes [b_word (dst - src)]) 0 = Some (b_word (dst - src))"
    using LoadInst_wbytes [of 0 "[b_word (dst - src)]" "[]" "[]"] by simp
  from step_at [OF assms(1) this _ decode_b_word [OF assms(3-5)]] assms(2) show ?thesis by simp
qed

text \<open>The code of the forwarding stub, for a stub at \<open>at\<close>.\<close>

definition forward_words :: "addr \<Rightarrow> addr \<Rightarrow> bool \<Rightarrow> u32 list" where
  "forward_words at dst near = (if near then [adrp17 (page_delta at dst), add17 dst, br17] else mov_words 17 dst @ [br17])"

lemma forward_runs:
  assumes "loaded s at (wbytes (forward_words at dst near))" "pc s = at"
    and "near \<Longrightarrow> llabs (at - dst) < adrp_range \<and> page_delta at dst \<noteq> 2 ^ 32"
  shows "\<exists>n. a64_run n s = Some (goto dst (wX 17 dst s))"
proof -
  let ?ws = "forward_words at dst near"
  have bi: "block_in (wbytes ?ws) 0 (?ws, None)"
    using LoadInst_wbytes [of _ ?ws "[]" "[]"] by (simp add: block_in_def)
  show ?thesis
  proof (cases near)
    case True
    then have "a64_run 3 s = Some (goto dst (wX 17 dst s))"
      using assms bi decode_page_delta [of at dst]
      by (intro adrp_add_br_runs [of s at "wbytes ?ws" 0 dst "page_delta at dst"]) (simp_all add: forward_words_def)
    then show ?thesis by blast
  next
    case False
    let ?s = "wX 17 dst (s\<lparr>pc := pc s + 16\<rparr>)"
    have r: "a64_run 4 s = Some ?s"
      using run_mov_block [OF assms(1) bi, of 17 dst "[br17]"] assms(2) False by (simp add: forward_words_def)
    have l: "loaded ?s at (wbytes ?ws)" using assms(1) by (simp add: loaded_def)
    have "a64_step ?s = Some (goto dst ?s)"
      using step_word [OF l bi, of 4 "I_BR 17"] assms(2) False decode_br17(1)
      by (simp add: forward_words_def nth_append rX_def wX_def)
    then have "a64_run (4 + 1) s = Some (goto dst ?s)" using a64_run_add [OF r, of 1] by simp
    moreover have "goto dst ?s = goto dst (wX 17 dst s)" by (simp add: goto_def wX_def)
    ultimately show ?thesis by metis
  qed
qed

lemma near_exec_memory:
  assumes "allocateNearExecMemory k n pos rng m = (a, m')" "a \<noteq> 0"
  obtains b where "allocateNearBlock k n pos rng True m = (Some b, m')" "blk_addr b = a"
  using assms by (auto simp: allocateNearExecMemory_def block_address_def split: prod.splits option.splits)

lemma served_near_ok:
  assumes "machine_ok m" "kernel_mmap (k_mmap k)" "kernel_maps (k_maps k)" "serve k m (ReqNear n pos rng True) \<noteq> None"
  shows "machine_ok (snd (allocateNearExecMemory k n pos rng m))"
proof -
  obtain b m' where q: "serve k m (ReqNear n pos rng True) = Some (b, m')" using assms(4) by auto
  then have "m' = snd (allocateNearExecMemory k n pos rng m)"
    by (auto simp: serve_def allocateNearExecMemory_def block_address_def split: option.splits prod.splits if_splits)
  then show ?thesis using serve_allocates [OF assms(1-3) q] by (auto simp: allocates_def)
qed

lemma Finalize_at:
  assumes "FinalizeFromTurboAssembler k (SetRealizedAddress a at) m = Inr (c, a', m')" "at \<noteq> 0"
  shows "c = MemBlock at (of_nat (length (asm_buffer a)))" "memory (proc m') = poke at (asm_buffer a) (memory (proc m))"
  using assms DobbyCodePatch_memory
  by (auto simp: FinalizeFromTurboAssembler_def GetRealizedAddress_def SetRealizedAddress_def GetBufferSize_def GetBuffer_def
      patch_machine_def Let_def bind_res_Inr_iff)

lemma fast_forward_cases:
  assumes "GenerateFastForwardTrampoline k src dst m = Inr (Some c, m')"
  obtains m0 n b m1 near where "m0 = m \<or> m0 = snd (allocateNearExecMemory k 12 src ARM64_B_XXX_RANGE m)"
    "allocateNearBlock k n src ARM64_B_XXX_RANGE True m0 = (Some b, m1)" "blk_addr b = blk_addr c" "0 < n"
    "near \<longrightarrow> llabs (blk_addr c - dst) < adrp_range"
    "mr_size c = of_nat (4 * length (forward_words (blk_addr c) dst near))"
    "memory (proc m') = poke (blk_addr c) (wbytes (forward_words (blk_addr c) dst near)) (memory (proc m1))"
proof -
  obtain t m1 where t: "allocateNearExecMemory k 12 src ARM64_B_XXX_RANGE m = (t, m1)" "t \<noteq> 0"
    using assms by (auto simp: GenerateFastForwardTrampoline_def Let_def split: prod.splits if_splits)
  show thesis
  proof (cases "llabs (t - dst) < adrp_range")
    case True
    have w: "asm_buffer (emit_block (AssemblerBase 0) ([adrp17 (page_delta t dst), add17 dst, br17], None)) =
        wbytes (forward_words t dst True)"
      by (simp add: emit_block_def AssemblerBase_def forward_words_def)
    obtain a' where "FinalizeFromTurboAssembler k (SetRealizedAddress (emit_block (AssemblerBase 0)
         ([adrp17 (page_delta t dst), add17 dst, br17], None)) t) m1 = Inr (c, a', m')"
      using assms t True by (auto simp: GenerateFastForwardTrampoline_def Let_def AdrpAdd_block br_block emit_block_then bind_res_Inr_iff)
    from Finalize_at [OF this t(2)] have c: "c = MemBlock t (of_nat (4 * length (forward_words t dst True)))"
        "memory (proc m') = poke t (wbytes (forward_words t dst True)) (memory (proc m1))"
      by (simp_all only: w length_wbytes)
    obtain b where "allocateNearBlock k 12 src ARM64_B_XXX_RANGE True m = (Some b, m1)" "blk_addr b = t"
      by (rule near_exec_memory [OF t])
    with c True that [of m 12 b m1 True] show thesis by simp
  next
    case False
    have w: "asm_buffer (emit_block (AssemblerBase 0) (mov_words 17 dst @ [br17], None)) = wbytes (forward_words t' dst False)" for t'
      by (simp add: emit_block_def AssemblerBase_def forward_words_def)
    have m17: "arm64_Mov a TMP_REG_0 dst = emit_block a (mov_words 17 dst, None)" for a by (simp add: TMP_REG_0_def Mov_block)
    have "of_nat (GetBufferSize (asm_buffer (emit_block (AssemblerBase 0) (mov_words 17 dst @ [br17], None)))) = (20 :: u32)"
      by (simp add: emit_block_def AssemblerBase_def GetBufferSize_def)
    then obtain t' m2 a' where t': "allocateNearExecMemory k 20 src ARM64_B_XXX_RANGE m1 = (t', m2)" "t' \<noteq> 0"
      and f: "FinalizeFromTurboAssembler k (SetRealizedAddress (emit_block (AssemblerBase 0) (mov_words 17 dst @ [br17], None)) t') m2 =
         Inr (c, a', m')"
      using assms t False
      by (auto simp: GenerateFastForwardTrampoline_def Let_def m17 br_block emit_block_then bind_res_Inr_iff split: prod.splits if_splits)
    from Finalize_at [OF f t'(2)] have c: "c = MemBlock t' (of_nat (4 * length (forward_words t' dst False)))"
        "memory (proc m') = poke t' (wbytes (forward_words t' dst False)) (memory (proc m2))"
      by (simp_all only: w [of t'] length_wbytes)
    obtain b where "allocateNearBlock k 20 src ARM64_B_XXX_RANGE True m1 = (Some b, m2)" "blk_addr b = t'"
      by (rule near_exec_memory [OF t'])
    with c t(1) that [of m1 20 b m2 False] show thesis by simp
  qed
qed

lemma stub_in_branch_range:
  assumes "in_search_range src ARM64_B_XXX_RANGE at n" "0 < n"
  shows "- (2 ^ 27) \<le> sint (at - src)" "sint (at - src) < 2 ^ 27"
proof -
  have r: "unat ARM64_B_XXX_RANGE = 2 ^ 27" by (simp add: ARM64_B_XXX_RANGE_def push_bit_eq_mult)
  have b: "unat src \<le> unat at + 2 ^ 27" "unat at < unat src + 2 ^ 27"
    using assms unfolding in_search_range_def r by linarith+
  define d where "d = uint at - uint src"
  have w: "at - src = word_of_int d" unfolding d_def by (simp only: wi_hom_sub [symmetric] word_of_int_uint)
  have "- (2 ^ 27) \<le> int x - int y \<and> int x - int y < 2 ^ 27" if "y \<le> x + 2 ^ 27" "x < y + 2 ^ 27" for x y :: nat
    using that by auto
  from this [OF b] have d: "- (2 ^ 27) \<le> d" "d < 2 ^ 27" by (simp_all add: d_def)
  then have "sint (at - src) = d" unfolding w by (intro sint_word_of_int) simp_all
  then show "- (2 ^ 27) \<le> sint (at - src)" "sint (at - src) < 2 ^ 27" using d by simp_all
qed

lemma normal_jump:
  assumes "page_delta from to \<noteq> 2 ^ 32"
  obtains b n where "GenerateNormalTrampolineBuffer from to = Some b" "length b \<in> {12, 16}"
     "\<And>s. loaded s from b \<Longrightarrow> pc s = from \<Longrightarrow> a64_run n s = Some (goto to (wX 17 to s))"
proof -
  obtain b where b: "GenerateNormalTrampolineBuffer from to = Some b" "block_in b 0 (normal_block from to)"
      "length b \<in> {12, 16}"
    using normal_trampoline_block [of "from" to] by (auto split: if_splits)
  show ?thesis
  proof (cases "llabs (from - to) < adrp_range")
    case True
    have "a64_run 3 s = Some (goto to (wX 17 to s))" if "loaded s from b" "pc s = from" for s
      using that b(2) True decode_page_delta [OF True assms]
      by (intro adrp_add_br_runs [of s "from" b 0 to "page_delta from to"]) (simp_all add: normal_block_def)
    then show ?thesis using that b(1,3) by blast
  next
    case False
    have "a64_run 2 s = Some (goto to (wX 17 to s))" if "loaded s from b" "pc s = from" for s
      using that b(2,3) False
      by (intro run_literal_branch(1) [of s "from" b 0 "normal_block from to" 0]) (auto simp: normal_block_def)
    then show ?thesis using that b(1,3) by blast
  qed
qed

subsection \<open>Properties\<close>

text \<open>
  C18: The normal trampoline works: whatever the two addresses, code is produced (12 or 16 bytes), and running it at
  \<^verbatim>\<open>from\<close> reaches exactly \<^verbatim>\<open>to\<close>, changing no register but x17, unless the target lies in the page
  exactly 4 GiB above the page of \<^verbatim>\<open>from\<close>.
\<close>
theorem normal_trampoline_jumps:
  assumes "page_delta from to \<noteq> 2 ^ 32"
  shows "\<exists>b n. GenerateNormalTrampolineBuffer from to = Some b \<and> length b \<in> {12, 16} \<and>
     (\<forall>s. loaded s from b \<and> pc s = from \<longrightarrow> a64_run n s = Some (goto to (wX 17 to s)))"
  using normal_jump [OF assms] by metis

theorem normal_trampoline_jumps_witness:
  "(\<exists>b n. GenerateNormalTrampolineBuffer 0x7000001234 0x7080004568 = Some b \<and> length b \<in> {12, 16} \<and>
     (\<forall>s. loaded s 0x7000001234 b \<and> pc s = 0x7000001234 \<longrightarrow>
        a64_run n s = Some (goto 0x7080004568 (wX 17 0x7080004568 s))))"
proof -
  have "page_delta 0x7000001234 0x7080004568 \<noteq> 2 ^ 32" by code_simp
  from normal_trampoline_jumps [OF this] show ?thesis .
qed

text \<open>
  The range test of the trampoline compares the distance of the two addresses, not of their pages. When the
  target is less than 4 GiB away but in the page exactly 4 GiB above, the 21-bit page field of ADRP wraps and the
  trampoline jumps 8 GiB below the target.
\<close>
theorem normal_trampoline_page_overflow:
  assumes "page_delta from to = 2 ^ 32" "llabs (from - to) < adrp_range"
  shows "\<exists>b. GenerateNormalTrampolineBuffer from to = Some b \<and>
     (\<forall>s. loaded s from b \<and> pc s = from \<longrightarrow> a64_run 3 s = Some (goto (to - 2 ^ 33) (wX 17 (to - 2 ^ 33) s)))"
proof -
  obtain b where b: "GenerateNormalTrampolineBuffer from to = Some b" "block_in b 0 (normal_block from to)"
    using normal_trampoline_block [of "from" to] by auto
  have d: "a64_decode (adrp17 (2 ^ 32)) = Some (I_ADRP 17 (- (2 ^ 32)))" by code_simp
  have "a64_run 3 s = Some (goto (to - 2 ^ 33) (wX 17 (to - 2 ^ 33) s))" if "loaded s from b" "pc s = from" for s
    using that b(2) assms(2) d
    by (intro adrp_add_br_runs [of s "from" b 0 to "- (2 ^ 32)"]) (simp_all add: normal_block_def assms(1))
  then show ?thesis using b(1) by blast
qed

theorem normal_trampoline_page_overflow_witness:
  "\<exists>b. GenerateNormalTrampolineBuffer 0x7000000FFC 0x7100000FF8 = Some b \<and>
     (\<forall>s. loaded s 0x7000000FFC b \<and> pc s = 0x7000000FFC \<longrightarrow>
        a64_run 3 s = Some (goto (0x7100000FF8 - 2 ^ 33) (wX 17 (0x7100000FF8 - 2 ^ 33) s)))"
proof -
  have "page_delta 0x7000000FFC 0x7100000FF8 = 2 ^ 32" "llabs (0x7000000FFC - 0x7100000FF8) < adrp_range" by code_simp+
  from normal_trampoline_page_overflow [OF this] show ?thesis .
qed

text \<open>
  C17: The near trampoline is a single branch instruction. When the target is within its range it reaches the target
  directly and changes nothing; otherwise it reaches a stub in near memory, and the stub jumps to the target changing
  only x17. That the stub lies in the range of the branch is proved for every block that the allocator can return. For the stub
  it is assumed that the request for it is served as in C13 (the block overwrites no mapped page), that it does not overlap the
  branch, that branch, stub and target are word-aligned to each other, and that the target is not in the page exactly
  4 GiB above the page of the stub: there the stub goes to a wrong address, as the normal trampoline does.
\<close>
theorem near_trampoline_jumps:
  assumes "machine_ok m" "kernel_maps (k_maps k)" "kernel_mmap (k_mmap k)"
    and "GenerateNearTrampolineBuffer k src dst m = Inr (Some b, m')" "take_bit 2 (dst - src) = 0"
    and stub: "\<forall>c. GenerateFastForwardTrampoline k src dst m = Inr (Some c, m') \<longrightarrow>
        serve k m (ReqNear 12 src ARM64_B_XXX_RANGE True) \<noteq> None \<and> take_bit 2 (blk_addr c - src) = 0 \<and>
        page_delta (blk_addr c) dst \<noteq> 2 ^ 32 \<and> (\<forall>i < 4. \<not> in_range (blk_addr c) (mr_size c) (src + of_nat i))"
    and "mem s = poke src b (memory (proc m'))" "pc s = src"
  shows "length b = 4 \<and> (\<exists>n. a64_run n s = Some (goto dst s) \<or> a64_run n s = Some (goto dst (wX 17 dst s)))"
proof (cases "llabs (dst - src) < ARM64_B_XXX_RANGE")
  case True
  have "uint ARM64_B_XXX_RANGE = 2 ^ 27" by code_simp
  then have "\<bar>sint (dst - src)\<bar> < 2 ^ 27" using llabs_bound [OF True] by simp
  moreover have b: "b = wbytes [b_word (dst - src)]"
    using assms(4) True by (auto simp: GenerateNearTrampolineBuffer_def Let_def b_block emit_block_def AssemblerBase_def)
  moreover have "loaded s src b" using assms(7) b by (simp add: loaded_def poke_inside)
  ultimately have "a64_run 1 s = Some (goto dst s)" using branch_runs [OF _ assms(8,5)] by (simp add: abs_less_iff)
  moreover have "length b = 4" using b by simp
  ultimately show ?thesis by blast
next
  case False
  obtain c where c: "GenerateFastForwardTrampoline k src dst m = Inr (Some c, m')"
      and b: "b = wbytes [b_word (blk_addr c - src)]"
    using assms(4) False
    by (auto simp: GenerateNearTrampolineBuffer_def Let_def b_block emit_block_def AssemblerBase_def bind_res_Inr_iff split: option.splits)
  note st = stub [rule_format, OF c]
  obtain m0 n blk m1 near where f: "m0 = m \<or> m0 = snd (allocateNearExecMemory k 12 src ARM64_B_XXX_RANGE m)"
    "allocateNearBlock k n src ARM64_B_XXX_RANGE True m0 = (Some blk, m1)" "blk_addr blk = blk_addr c" "0 < n"
    "near \<longrightarrow> llabs (blk_addr c - dst) < adrp_range"
    "mr_size c = of_nat (4 * length (forward_words (blk_addr c) dst near))"
    "memory (proc m') = poke (blk_addr c) (wbytes (forward_words (blk_addr c) dst near)) (memory (proc m1))"
    using fast_forward_cases [OF c] by metis
  let ?at = "blk_addr c" and ?ws = "forward_words (blk_addr c) dst near"
  have "machine_ok (snd (allocateNearExecMemory k 12 src ARM64_B_XXX_RANGE m))" using served_near_ok [OF assms(1,3,2)] st by blast
  then have "machine_ok m0" using f(1) assms(1) by auto
  moreover have "unat ARM64_B_XXX_RANGE < 2 ^ 63" by (simp add: ARM64_B_XXX_RANGE_def push_bit_eq_mult)
  ultimately have "in_search_range src ARM64_B_XXX_RANGE ?at (unat n)"
    using near_block_window [OF _ assms(3) _ f(2)] f(3) by simp
  note r = stub_in_branch_range [OF this]
  have l: "loaded s src b" using assms(7) b by (simp add: loaded_def poke_inside)
  have run1: "a64_run 1 s = Some (goto ?at s)"
    using branch_runs [OF l [unfolded b] assms(8)] st r f(4) by (simp add: unat_gt_0)
  have "mem s (?at + of_nat i) = wbytes ?ws ! i" if i: "i < length (wbytes ?ws)" for i
  proof -
    have len: "length ?ws \<le> 5" by (simp add: forward_words_def)
    have "\<not> unat (?at + of_nat i - src) < 4"
    proof
      assume h: "unat (?at + of_nat i - src) < 4"
      have "src + of_nat (unat (?at + of_nat i - src)) - ?at = of_nat i" by simp
      moreover have "(of_nat i :: addr) < mr_size c"
        using i len by (simp add: f(6) word_less_nat_alt unat_of_nat del: of_nat_mult)
      ultimately show False using st h by (metis in_range_def)
    qed
    then show ?thesis using i len b by (simp add: assms(7) poke_outside f(7) poke_inside)
  qed
  then have l2: "loaded (goto ?at s) ?at (wbytes ?ws)" by (simp add: loaded_def)
  obtain n2 where "a64_run n2 (goto ?at s) = Some (goto dst (wX 17 dst (goto ?at s)))"
    using forward_runs [OF l2] f(5) st by auto
  moreover have "goto dst (wX 17 dst (goto ?at s)) = goto dst (wX 17 dst s)" by (simp add: goto_def wX_def)
  ultimately have "a64_run (1 + n2) s = Some (goto dst (wX 17 dst s))" using a64_run_add [OF run1] by simp
  moreover have "length b = 4" using b by simp
  ultimately show ?thesis by blast
qed

text \<open>A kernel with two mapped pages of sixteen bytes and a gap of two pages between them, and a target far away.\<close>

definition stub_mmap :: kmmap where
  "stub_mmap p fixed n = (if page_size p = 16 \<and> fixed = 0x10000010 \<and> n = 16 then Some fixed else None)"

definition stub_kernel :: kernel where
  "stub_kernel = \<lparr>k_mmap = stub_mmap,
     k_maps = scan_maps [0x10000000, 0x10000010, 0x10000020, 0x10000030]\<rparr>"

definition stub_machine :: machine where
  "stub_machine = \<lparr>allocator = MemoryAllocator, proc = \<lparr>page_size = 16,
     page_prot = (\<lambda>b. if b = 0x10000000 \<or> b = 0x10000030 then Some 5 else None), memory = (\<lambda>_. 0)\<rparr>\<rparr>"

lemma stub_machine_ok: "machine_ok stub_machine" "kernel_mmap (k_mmap stub_kernel)" "kernel_maps (k_maps stub_kernel)"
proof -
  show "machine_ok stub_machine" unfolding stub_machine_def by (rule machine_ok_empty) (simp add: page_size_ok_16)
  have "ALIGN_FLOOR 0x10000010 16 = 0x10000010" by code_simp
  then show "kernel_mmap (k_mmap stub_kernel)"
    by (auto simp: kernel_mmap_def stub_kernel_def stub_mmap_def split: if_splits)
  have "gaps_ok p (GetProcessMemoryLayout (scan_maps [0x10000000, 0x10000010, 0x10000020, 0x10000030] p))" for p
  proof (cases "page_size p = 16")
    case True
    have f: "ALIGN_FLOOR 0x10000000 16 = 0x10000000" "ALIGN_FLOOR 0x10000010 16 = 0x10000010" "ALIGN_FLOOR 0x10000020 16 = 0x10000020"
      "ALIGN_FLOOR 0x10000030 16 = 0x10000030" "ALIGN_FLOOR 0x10000040 16 = 0x10000040" "page_bases 16 0x10000010 0x10 = [0x10000010]"
      "page_bases 16 0x10000020 0x10 = [0x10000020]" "page_bases 16 0x10000010 0x20 = [0x10000010, 0x10000020]" by code_simp+
    show ?thesis
      by (cases "page_prot p 0x10000000"; cases "page_prot p 0x10000010"; cases "page_prot p 0x10000020"; cases "page_prot p 0x10000030")
        (simp_all add: scan_maps_def True GetProcessMemoryLayout_def maps_passes_def MemRegion_def MemRange_def MemRange.extend_def
          MemRegion.fields_def gap_ok_def unmapped_range_def f prot_at_def)
  qed (simp add: scan_maps_def GetProcessMemoryLayout_def)
  then show "kernel_maps (k_maps stub_kernel)" by (simp add: kernel_maps_def stub_kernel_def)
qed

theorem near_trampoline_jumps_witness:
  "\<exists>b m'. GenerateNearTrampolineBuffer stub_kernel 0x10000004 0x20000004 stub_machine = Inr (Some b, m') \<and> length b = 4 \<and>
     (\<forall>s. mem s = poke 0x10000004 b (memory (proc m')) \<and> pc s = 0x10000004 \<longrightarrow>
        (\<exists>n. a64_run n s = Some (goto 0x20000004 s) \<or> a64_run n s = Some (goto 0x20000004 (wX 17 0x20000004 s))))"
proof -
  let ?src = "0x10000004 :: addr" and ?dst = "0x20000004 :: addr"
  let ?r = "GenerateNearTrampolineBuffer stub_kernel ?src ?dst stub_machine"
    and ?f = "GenerateFastForwardTrampoline stub_kernel ?src ?dst stub_machine"
  have "case ?r of Inr (Some b, _) \<Rightarrow> True | _ \<Rightarrow> False" by code_simp
  then obtain b m' where r: "?r = Inr (Some b, m')" by (auto split: sum.splits option.splits)
  have "case ?f of Inr (Some c, _) \<Rightarrow> blk_addr c = 0x10000010 \<and> mr_size c = 12 | _ \<Rightarrow> False" by code_simp
  then have c: "blk_addr c = 0x10000010" "mr_size c = 12" if "?f = Inr (Some c, m'')" for c m''
    using that by auto
  have q: "serve stub_kernel stub_machine (ReqNear 12 ?src ARM64_B_XXX_RANGE True) \<noteq> None" by code_simp
  have "list_all (\<lambda>i. \<not> in_range 0x10000010 12 (?src + of_nat i)) [0..<4]" by code_simp
  then have st: "\<forall>c. ?f = Inr (Some c, m') \<longrightarrow> serve stub_kernel stub_machine (ReqNear 12 ?src ARM64_B_XXX_RANGE True) \<noteq> None \<and> take_bit 2 (blk_addr c - ?src) = 0 \<and> page_delta (blk_addr c) ?dst \<noteq> 2 ^ 32 \<and>
      (\<forall>i < 4. \<not> in_range (blk_addr c) (mr_size c) (?src + of_nat i))"
    using c q by (auto simp: all_less_code page_delta_def ALIGN_FLOOR_def simp del: upt_rec_numeral)
  have "take_bit 2 (?dst - ?src) = 0" by code_simp
  from near_trampoline_jumps [OF stub_machine_ok(1,3,2) r this st]
  have "length b = 4 \<and> (\<exists>n. a64_run n s = Some (goto ?dst s) \<or> a64_run n s = Some (goto ?dst (wX 17 ?dst s)))"
    if "mem s = poke ?src b (memory (proc m'))" "pc s = ?src" for s
    using that by blast
  moreover have "\<exists>s :: a64_state. mem s = poke ?src b (memory (proc m')) \<and> pc s = ?src"
    by (rule exI [of _ "\<lparr>pc = ?src, gpr = \<lambda>_. 0, sp = 0, vreg = \<lambda>_. 0,
        nzcv = \<lparr>fN = False, fZ = False, fC = False, fV = False\<rparr>, mem = poke ?src b (memory (proc m'))\<rparr>"]) simp
  ultimately show ?thesis using r by blast
qed

end
