(* ===== verification/Arm64_Closure.thy ===== *)
theory Arm64_Closure
  imports Arm64_Trampoline
begin

text \<open>
  The closure trampoline of the ARM64 build (\<^verbatim>\<open>ClosureTrampolineARM64.cc\<close>) and the bridge it calls
  (\<^verbatim>\<open>closure_bridge_arm64.cc\<close>): the trampoline of an instrumented address saves the link register,
  passes its entry on the stack to the bridge, and the bridge stores a \<^verbatim>\<open>DobbyRegisterContext\<close> on the
  stack, calls the common handler with it, and reloads the registers from it. The next hop is handed back in x17.
  The parameter \<open>full\<close> is the build option \<^verbatim>\<open>FULL_FLOATING_POINT_REGISTER_PACK\<close>. The addresses of the
  C function \<^verbatim>\<open>common_closure_bridge_handler\<close> and of the heap object of the entry are parameters.
\<close>

subsection \<open>Emitting a sequence\<close>

type_synonym emitter = "assembler \<Rightarrow> assembler option"

fun emit_seq :: "emitter list \<Rightarrow> emitter" where
  "emit_seq [] a = Some a"
| "emit_seq (f # fs) a = (case f a of None \<Rightarrow> None | Some a' \<Rightarrow> emit_seq fs a')"

definition MEM :: "CPURegister \<Rightarrow> u64 \<Rightarrow> MemOperand" where "MEM r off = MemOperand_offset r off Offset"
definition MEM_EXT :: "CPURegister \<Rightarrow> u64 \<Rightarrow> AddrMode \<Rightarrow> MemOperand" where "MEM_EXT r off md = MemOperand_offset r off md"

abbreviation e_sub :: "CPURegister \<Rightarrow> CPURegister \<Rightarrow> u64 \<Rightarrow> emitter" where "e_sub rd rn imm \<equiv> (\<lambda>a. arm64_sub a rd rn imm)"
abbreviation e_add :: "CPURegister \<Rightarrow> CPURegister \<Rightarrow> u64 \<Rightarrow> emitter" where "e_add rd rn imm \<equiv> (\<lambda>a. arm64_add a rd rn imm)"
abbreviation e_stp :: "CPURegister \<Rightarrow> CPURegister \<Rightarrow> MemOperand \<Rightarrow> emitter" where "e_stp r s m \<equiv> (\<lambda>a. arm64_stp a r s m)"
abbreviation e_ldp :: "CPURegister \<Rightarrow> CPURegister \<Rightarrow> MemOperand \<Rightarrow> emitter" where "e_ldp r s m \<equiv> (\<lambda>a. arm64_ldp a r s m)"
abbreviation e_str :: "CPURegister \<Rightarrow> MemOperand \<Rightarrow> emitter" where "e_str r m \<equiv> (\<lambda>a. arm64_str a r m)"
abbreviation e_ldr :: "CPURegister \<Rightarrow> MemOperand \<Rightarrow> emitter" where "e_ldr r m \<equiv> (\<lambda>a. arm64_ldr a r m)"
abbreviation e_mov :: "CPURegister \<Rightarrow> CPURegister \<Rightarrow> emitter" where "e_mov rd rn \<equiv> (\<lambda>a. arm64_mov a rd rn)"

subsection \<open>The bridge (closure_bridge_arm64.cc)\<close>

definition save_q8_q31 :: "emitter list" where
  "save_q8_q31 =
    [e_sub SP SP (24 * 16),
     e_stp (Q 30) (Q 31) (MEM SP (22 * 16)), e_stp (Q 28) (Q 29) (MEM SP (20 * 16)), e_stp (Q 26) (Q 27) (MEM SP (18 * 16)),
     e_stp (Q 24) (Q 25) (MEM SP (16 * 16)), e_stp (Q 22) (Q 23) (MEM SP (14 * 16)), e_stp (Q 20) (Q 21) (MEM SP (12 * 16)),
     e_stp (Q 18) (Q 19) (MEM SP (10 * 16)), e_stp (Q 16) (Q 17) (MEM SP (8 * 16)), e_stp (Q 14) (Q 15) (MEM SP (6 * 16)),
     e_stp (Q 12) (Q 13) (MEM SP (4 * 16)), e_stp (Q 10) (Q 11) (MEM SP (2 * 16)), e_stp (Q 8) (Q 9) (MEM SP (0 * 16))]"

definition save_q0_q7 :: "emitter list" where
  "save_q0_q7 =
    [e_sub SP SP (8 * 16),
     e_stp (Q 6) (Q 7) (MEM SP (6 * 16)), e_stp (Q 4) (Q 5) (MEM SP (4 * 16)),
     e_stp (Q 2) (Q 3) (MEM SP (2 * 16)), e_stp (Q 0) (Q 1) (MEM SP (0 * 16))]"

definition save_x1_x30 :: "emitter list" where
  "save_x1_x30 =
    [e_sub SP SP (30 * 8),
     e_stp (X 29) (X 30) (MEM SP (28 * 8)), e_stp (X 27) (X 28) (MEM SP (26 * 8)), e_stp (X 25) (X 26) (MEM SP (24 * 8)),
     e_stp (X 23) (X 24) (MEM SP (22 * 8)), e_stp (X 21) (X 22) (MEM SP (20 * 8)), e_stp (X 19) (X 20) (MEM SP (18 * 8)),
     e_stp (X 17) (X 18) (MEM SP (16 * 8)), e_stp (X 15) (X 16) (MEM SP (14 * 8)), e_stp (X 13) (X 14) (MEM SP (12 * 8)),
     e_stp (X 11) (X 12) (MEM SP (10 * 8)), e_stp (X 9) (X 10) (MEM SP (8 * 8)), e_stp (X 7) (X 8) (MEM SP (6 * 8)),
     e_stp (X 5) (X 6) (MEM SP (4 * 8)), e_stp (X 3) (X 4) (MEM SP (2 * 8)), e_stp (X 1) (X 2) (MEM SP (0 * 8))]"

definition save_x0_sp :: "bool \<Rightarrow> emitter list" where
  "save_x0_sp full =
    [e_sub SP SP (2 * 8), e_str (X 0) (MEM SP 8),
     e_add TMP_REG_0 SP (2 * 8), e_add TMP_REG_0 TMP_REG_0 (2 * 8 + 30 * 8 + 8 * 16)] @
    (if full then [e_add TMP_REG_0 TMP_REG_0 (24 * 16)] else []) @
    [e_sub SP SP (2 * 8), e_str TMP_REG_0 (MEM SP 8)]"

text \<open>\<^verbatim>\<open>sizeof(DobbyRegisterContext)\<close> is 784: two words, 32 words for x0 to lr, 32 registers of 16 bytes.\<close>

definition sizeof_DobbyRegisterContext :: u64 where
  "sizeof_DobbyRegisterContext = 2 * 8 + 8 + 29 * 8 + 2 * 8 + 32 * 16"

definition REGISTER_CONTEXT_SIZE :: "bool \<Rightarrow> u64" where
  "REGISTER_CONTEXT_SIZE full = (if full then sizeof_DobbyRegisterContext else sizeof_DobbyRegisterContext - 24 * 16)"

definition call_handler :: "bool \<Rightarrow> addr \<Rightarrow> emitter list" where
  "call_handler full common_closure_bridge_handler =
    [e_mov (X 0) SP, e_ldr (X 1) (MEM SP (REGISTER_CONTEXT_SIZE full + 0)),
     \<lambda>a. Some (arm64_CallFunction a common_closure_bridge_handler)]"

definition restore_x :: "emitter list" where
  "restore_x =
    [e_add SP SP (2 * 8), e_ldr (X 0) (MEM SP 8), e_add SP SP (2 * 8),
     e_ldp (X 1) (X 2) (MEM_EXT SP 16 PostIndex), e_ldp (X 3) (X 4) (MEM_EXT SP 16 PostIndex),
     e_ldp (X 5) (X 6) (MEM_EXT SP 16 PostIndex), e_ldp (X 7) (X 8) (MEM_EXT SP 16 PostIndex),
     e_ldp (X 9) (X 10) (MEM_EXT SP 16 PostIndex), e_ldp (X 11) (X 12) (MEM_EXT SP 16 PostIndex),
     e_ldp (X 13) (X 14) (MEM_EXT SP 16 PostIndex), e_ldp (X 15) (X 16) (MEM_EXT SP 16 PostIndex),
     e_ldp (X 17) (X 18) (MEM_EXT SP 16 PostIndex), e_ldp (X 19) (X 20) (MEM_EXT SP 16 PostIndex),
     e_ldp (X 21) (X 22) (MEM_EXT SP 16 PostIndex), e_ldp (X 23) (X 24) (MEM_EXT SP 16 PostIndex),
     e_ldp (X 25) (X 26) (MEM_EXT SP 16 PostIndex), e_ldp (X 27) (X 28) (MEM_EXT SP 16 PostIndex),
     e_ldp (X 29) (X 30) (MEM_EXT SP 16 PostIndex)]"

definition restore_q0_q7 :: "emitter list" where
  "restore_q0_q7 =
    [e_ldp (Q 0) (Q 1) (MEM_EXT SP 32 PostIndex), e_ldp (Q 2) (Q 3) (MEM_EXT SP 32 PostIndex),
     e_ldp (Q 4) (Q 5) (MEM_EXT SP 32 PostIndex), e_ldp (Q 6) (Q 7) (MEM_EXT SP 32 PostIndex)]"

definition restore_q8_q31 :: "emitter list" where
  "restore_q8_q31 =
    [e_ldp (Q 8) (Q 9) (MEM_EXT SP 32 PostIndex), e_ldp (Q 10) (Q 11) (MEM_EXT SP 32 PostIndex),
     e_ldp (Q 12) (Q 13) (MEM_EXT SP 32 PostIndex), e_ldp (Q 14) (Q 15) (MEM_EXT SP 32 PostIndex),
     e_ldp (Q 16) (Q 17) (MEM_EXT SP 32 PostIndex), e_ldp (Q 18) (Q 19) (MEM_EXT SP 32 PostIndex),
     e_ldp (Q 20) (Q 21) (MEM_EXT SP 32 PostIndex), e_ldp (Q 22) (Q 23) (MEM_EXT SP 32 PostIndex),
     e_ldp (Q 24) (Q 25) (MEM_EXT SP 32 PostIndex), e_ldp (Q 26) (Q 27) (MEM_EXT SP 32 PostIndex),
     e_ldp (Q 28) (Q 29) (MEM_EXT SP 32 PostIndex), e_ldp (Q 30) (Q 31) (MEM_EXT SP 32 PostIndex)]"

definition closure_bridge_code :: "bool \<Rightarrow> addr \<Rightarrow> assembler option" where
  "closure_bridge_code full common_closure_bridge_handler =
     emit_seq ((if full then save_q8_q31 else []) @ save_q0_q7 @ save_x1_x30 @ save_x0_sp full @
       call_handler full common_closure_bridge_handler @ restore_x @ restore_q0_q7 @
       (if full then restore_q8_q31 else []) @ [\<lambda>a. Some (arm64_ret a)])
       (AssemblerBase 0)"

text \<open>The static \<^verbatim>\<open>closure_bridge\<close> is passed in and returned; 0 is the null pointer.\<close>

definition get_closure_bridge :: "bool \<Rightarrow> addr \<Rightarrow> kernel \<Rightarrow> addr \<Rightarrow> machine \<Rightarrow> crash + (addr \<times> machine)" where
  "get_closure_bridge full common_closure_bridge_handler k closure_bridge m =
     (if closure_bridge \<noteq> 0 then Inr (closure_bridge, m)
      else case closure_bridge_code full common_closure_bridge_handler of None \<Rightarrow> Inl Fatal
        | Some a \<Rightarrow> bind_res (FinalizeFromTurboAssembler k a m) (\<lambda>(code, _, m1). Inr (blk_addr code, m1)))"

subsection \<open>The closure trampoline (ClosureTrampolineARM64.cc)\<close>

record ClosureTrampolineEntry =
  cte_address :: addr
  cte_size :: u32
  cte_carry_handler :: addr
  cte_carry_data :: addr

text \<open>
  The two labels are bound before and after the first literal. \<^verbatim>\<open>get_closure_bridge()\<close> is evaluated between
  them; it only reads and writes other state, so that its result is the argument \<open>bridge\<close> here.
\<close>

definition closure_trampoline_code :: "addr \<Rightarrow> addr \<Rightarrow> assembler option" where
  "closure_trampoline_code tramp_entry bridge =
     (let (a0, entry_label) = new_label (AssemblerBase 0) RelocLabel;
          (a1, forward_bridge_label) = new_label a0 RelocLabel in
      emit_seq
        [e_sub SP SP (2 * 8), e_str (X 30) (MEM SP 8),
         \<lambda>a. arm64_Ldr a TMP_REG_0 entry_label, e_str TMP_REG_0 (MEM SP 0),
         \<lambda>a. arm64_Ldr a TMP_REG_0 forward_bridge_label, \<lambda>a. Some (arm64_blr a TMP_REG_0),
         e_ldr (X 30) (MEM SP 8), e_add SP SP (2 * 8),
         \<lambda>a. Some (arm64_br a TMP_REG_0),
         \<lambda>a. PseudoBind arm64_link_confused_instructions a entry_label, \<lambda>a. Some (EmitInt64 a tramp_entry),
         \<lambda>a. PseudoBind arm64_link_confused_instructions a forward_bridge_label, \<lambda>a. Some (EmitInt64 a bridge)] a1)"

text \<open>The result: the entry, the new value of the static bridge pointer and the machine.\<close>

definition CreateClosureTrampoline ::
    "bool \<Rightarrow> addr \<Rightarrow> kernel \<Rightarrow> addr \<Rightarrow> addr \<Rightarrow> addr \<Rightarrow> addr \<Rightarrow> machine \<Rightarrow> crash + (ClosureTrampolineEntry \<times> addr \<times> machine)" where
  "CreateClosureTrampoline full handler_fn k tramp_entry closure_bridge carry_data carry_handler m =
     bind_res (get_closure_bridge full handler_fn k closure_bridge m) (\<lambda>(bridge, m1).
     case closure_trampoline_code tramp_entry bridge of None \<Rightarrow> Inl Fatal
     | Some a \<Rightarrow> bind_res (FinalizeFromTurboAssembler k a m1) (\<lambda>(closure_tramp, _, m2).
         Inr (\<lparr>cte_address = blk_addr closure_tramp, cte_size = ucast (mr_size closure_tramp),
               cte_carry_handler = carry_handler, cte_carry_data = carry_data\<rparr>, bridge, m2)))"

subsection \<open>The handlers\<close>

text \<open>
  \<^verbatim>\<open>set_routing_bridge_next_hop\<close> stores into the x17 slot of the context; the context is in memory at
  the address \<open>ctx\<close>, x0 is 24 bytes into it.
\<close>

definition ctx_x :: "addr \<Rightarrow> nat \<Rightarrow> addr" where "ctx_x ctx r = ctx + 24 + 8 * of_nat r"
definition ctx_sp :: "addr \<Rightarrow> addr" where "ctx_sp ctx = ctx + 8"
definition ctx_q :: "addr \<Rightarrow> nat \<Rightarrow> addr" where "ctx_q ctx r = ctx + 272 + 16 * of_nat r"

definition set_routing_bridge_next_hop :: "addr \<Rightarrow> addr \<Rightarrow> a64_state \<Rightarrow> a64_state" where
  "set_routing_bridge_next_hop ctx address s = st 8 (ctx_x ctx (reg_code TMP_REG_0)) address s"

subsection \<open>The instructions of a sequence\<close>

lemma emit_seq_emits:
  assumes "list_all2 emits fs is"
  obtains ws where "map a64_decode ws = map Some is" "\<And>a. emit_seq fs a = Some (emit_block a (ws, None))"
proof -
  have "\<exists>ws. map a64_decode ws = map Some is \<and> (\<forall>a. emit_seq fs a = Some (emit_block a (ws, None)))"
    using assms
  proof (induction rule: list_all2_induct)
    case Nil
    then show ?case by (intro exI [of _ "[]"]) (simp add: emit_block_def)
  next
    case (Cons f fs i "is")
    then obtain w ws where "a64_decode w = Some i" "\<And>a. f a = Some (Emit a w)" "map a64_decode ws = map Some is"
        "\<And>a. emit_seq fs a = Some (emit_block a (ws, None))" by (auto simp: emits_def)
    then show ?case by (intro exI [of _ "w # ws"]) (simp add: Emit_block emit_block_then)
  qed
  then show thesis using that by blast
qed

lemma emit_seq_append: "emit_seq (fs @ gs) a = Option.bind (emit_seq fs a) (emit_seq gs)"
  by (induction fs a rule: emit_seq.induct) (simp_all split: option.splits)

lemma emit_seq_three:
  assumes "\<And>a. emit_seq fs a = Some (emit_block a (ws1, None))" "\<And>a. emit_seq gs a = Some (emit_block a (ws2, None))"
    "\<And>a. emit_seq hs a = Some (emit_block a (ws3, None))"
  shows "emit_seq (fs @ gs @ hs) a = Some (emit_block a (ws1 @ ws2 @ ws3, None))"
  using assms by (simp add: emit_seq_append emit_block_then)

lemma emits_mov_sp: "emits (e_mov (X 0) SP) (I_ADD 0 31 0)"
  using emits_addsub(1) [of 0 31 0] by (simp add: arm64_mov_def reg_Is_def SP_def)

lemma emits_ret: "emits (\<lambda>a. Some (arm64_ret a)) (I_RET 30)"
  by (rule emitsI [where w = "0xD65F03C0"]) (simp add: arm64_ret_def, code_simp)

lemmas emits_simps = emits_addsub emits_mem emits_pair emits_ret emits_mov_sp [unfolded SP_def]

subsection \<open>Running straight-line stack code\<close>

definition decode_at :: "code_buffer \<Rightarrow> nat \<Rightarrow> a64_instr option" where
  "decode_at b off = Option.bind (LoadInst b off) a64_decode"

text \<open>
  An abstract interpreter for code that adjusts the stack pointer by constants and accesses memory relative to it:
  from the displacement \<open>d\<close> of the stack pointer it computes the final one, and checks that every store stays in
  the frame, the \<open>len\<close> bytes from displacement 0.
\<close>

fun frame_step :: "nat \<Rightarrow> a64_instr \<Rightarrow> u64 \<Rightarrow> u64 option" where
  "frame_step len (I_SUB rd rn c) d = (if rn \<noteq> 31 then None else if rd = 31 then Some (d - c) else Some d)"
| "frame_step len (I_ADD rd rn c) d = (if rd \<noteq> 31 then Some d else if rn = 31 then Some (d + c) else None)"
| "frame_step len (I_STP r r' rn off) d = (if rn = 31 \<and> unat (d + off) + 16 \<le> len then Some d else None)"
| "frame_step len (I_STPq r r' rn off) d = (if rn = 31 \<and> unat (d + off) + 32 \<le> len then Some d else None)"
| "frame_step len (I_STR r rn off) d = (if rn = 31 \<and> unat (d + off) + 8 \<le> len then Some d else None)"
| "frame_step len (I_LDR r rn off) d = Some d"
| "frame_step len (I_LDPpost r r' rn off) d = (if rn = 31 then Some (d + off) else None)"
| "frame_step len (I_LDPqpost r r' rn off) d = (if rn = 31 then Some (d + off) else None)"
| "frame_step len (I_LDRlit n r off) d = Some d"
| "frame_step len i d = None"

fun frame_run :: "nat \<Rightarrow> a64_instr list \<Rightarrow> u64 \<Rightarrow> u64 option" where
  "frame_run len [] d = Some d"
| "frame_run len (i # is) d = Option.bind (frame_step len i d) (frame_run len is)"

definition outside :: "addr \<Rightarrow> nat \<Rightarrow> addr \<Rightarrow> bool" where
  "outside F len x \<longleftrightarrow> len \<le> unat (x - F)"

definition code_outside :: "addr \<Rightarrow> nat \<Rightarrow> addr \<Rightarrow> code_buffer \<Rightarrow> bool" where
  "code_outside F len A b \<longleftrightarrow> (\<forall>i < length b. outside F len (A + of_nat i))"

lemma st_outside:
  assumes "unat o' + n \<le> len" "len < 2 ^ 63" "outside F len x"
  shows "mem (st n (F + o') v s) x = mem s x"
proof -
  have "\<not> unat (x - (F + o')) < n"
  proof
    assume h: "unat (x - (F + o')) < n"
    have "x - F = (x - (F + o')) + o'" by simp
    moreover have "unat (x - (F + o')) + unat o' < 2 ^ 64" using h assms(1,2) by simp
    ultimately have "unat (x - F) = unat (x - (F + o')) + unat o'" by (simp only: unat_plus)
    then show False using h assms by (simp add: outside_def)
  qed
  then show ?thesis by (simp add: st_def)
qed

lemma frame_step_sound:
  assumes "frame_step len i d = Some d'" "sp s = F + d" "len < 2 ^ 63"
  shows "sp (a64_exec i s) = F + d'" "pc (a64_exec i s) = pc s + 4"
    "\<And>x. outside F len x \<Longrightarrow> mem (a64_exec i s) x = mem s x"
proof -
  have st: "mem (st n (F + o' + e) v t) x = mem t x" if "unat (o' + e) + n \<le> len" "outside F len x"
    for n o' e x t and v :: "'a::len word"
    using st_outside [OF that(1) assms(3) that(2), of v t] by (simp add: add.assoc)
  have st8: "mem (st 8 (F + o' + e + 8) w (st 8 (F + o' + e) v t)) x = mem t x"
    if "unat (o' + e) + 16 \<le> len" "outside F len x" for o' e x t and v w :: u64
  proof -
    have "unat (o' + e + 8) = unat (o' + e) + 8"
      using unat_plus [of "o' + e" 8] that(1) assms(3) by simp
    then show ?thesis using st_outside [of "o' + e + 8" 8 len F x w] st [of o' e 8 x v t] that assms(3)
      by (simp add: add.assoc)
  qed
  have st16: "mem (st 16 (F + o' + e + 16) w (st 16 (F + o' + e) v t)) x = mem t x"
    if "unat (o' + e) + 32 \<le> len" "outside F len x" for o' e x t and v w :: "128 word"
  proof -
    have "unat (o' + e + 16) = unat (o' + e) + 16"
      using unat_plus [of "o' + e" 16] that(1) assms(3) by simp
    then show ?thesis using st_outside [of "o' + e + 16" 16 len F x w] st [of o' e 16 x v t] that assms(3)
      by (simp add: add.assoc)
  qed
  show "sp (a64_exec i s) = F + d'" "pc (a64_exec i s) = pc s + 4"
    using assms(1,2) by (cases i; auto simp: state_defs rSP_def split: if_splits)+
  show "mem (a64_exec i s) x = mem s x" if "outside F len x" for x
    using assms(1,2) st8 [OF _ that] st16 [OF _ that] st [OF _ that]
    by (cases i; simp add: wX_def wSP_def rSP_def next_pc_def split: if_splits)
qed

lemma run_frame:
  assumes "frame_run len is d = Some d'" "sp s = F + d" "len < 2 ^ 63" "loaded s A b" "code_outside F len A b"
    and "pc s = A + of_nat off" "\<forall>j < length is. decode_at b (off + 4 * j) = Some (is ! j)"
  shows "a64_run (length is) s = Some (fold a64_exec is s) \<and> sp (fold a64_exec is s) = F + d' \<and>
    pc (fold a64_exec is s) = A + of_nat (off + 4 * length is) \<and>
    (\<forall>x. outside F len x \<longrightarrow> mem (fold a64_exec is s) x = mem s x)"
  using assms
proof (induction "is" arbitrary: s d off)
  case Nil
  then show ?case by simp
next
  case (Cons i "is")
  note h = Cons.prems
  obtain d1 where d1: "frame_step len i d = Some d1" "frame_run len is d1 = Some d'"
    using h(1) by (auto split: bind_splits)
  note fs = frame_step_sound [OF d1(1) h(2,3)]
  have "decode_at b off = Some i" using h(7) by force
  then obtain w where w: "LoadInst b off = Some w" "a64_decode w = Some i" by (auto simp: decode_at_def split: bind_splits)
  have step: "a64_step s = Some (a64_exec i s)" by (rule step_at [OF h(4) w(1) h(6) w(2)])
  have l: "loaded (a64_exec i s) A b" using h(4,5) fs(3) by (simp add: loaded_def code_outside_def)
  have p: "pc (a64_exec i s) = A + of_nat (off + 4)" using fs(2) h(6) by simp
  have dec: "\<forall>j < length is. decode_at b (off + 4 + 4 * j) = Some (is ! j)"
  proof (intro allI impI)
    fix j assume "j < length is"
    then show "decode_at b (off + 4 + 4 * j) = Some (is ! j)" using h(7) [rule_format, of "Suc j"] by (simp add: add.assoc)
  qed
  show ?case using step Cons.IH [OF d1(2) fs(1) h(3) l h(5) p dec] fs(3) by simp
qed

subsection \<open>Slots of the frame\<close>

lemma ld_cong: "(\<And>i. i < n \<Longrightarrow> mem s (a + of_nat i) = mem t (a + of_nat i)) \<Longrightarrow> ld n s a = ld n t a"
  unfolding ld_def by (intro arg_cong [where f = le_word] map_cong) auto

lemma ld_st_other:
  assumes "c + n \<le> d \<or> d + k \<le> c" "c < 2 ^ 32" "d < 2 ^ 32" "n < 2 ^ 32" "k < 2 ^ 32"
  shows "ld n (st k (F + of_nat d) v s) (F + of_nat c) = ld n s (F + of_nat c)"
proof -
  have "mem (st k (F + of_nat d) v s) (F + of_nat c + of_nat i) = mem s (F + of_nat c + of_nat i)" if i: "i < n" for i
  proof -
    have "F + of_nat c + of_nat i - (F + of_nat d) = of_nat (c + i) - (of_nat d :: addr)" by simp
    moreover have "unat (of_nat (c + i) :: addr) = c + i" "unat (of_nat d :: addr) = d"
      using assms(2-4) i by (simp_all add: unat_of_nat del: of_nat_add)
    ultimately have "unat (F + of_nat c + of_nat i - (F + of_nat d)) = (if d \<le> c + i then c + i - d else c + i + 2 ^ 64 - d)"
      by (simp only: unat_sub_if_size) (simp add: word_size)
    then have "\<not> unat (F + of_nat c + of_nat i - (F + of_nat d)) < k" using assms i by auto
    then show ?thesis by (simp add: st_def)
  qed
  then show ?thesis by (rule ld_cong)
qed

lemma ld_st_same:
  assumes "LENGTH('a::len) \<le> 8 * n" "n < 2 ^ 32"
  shows "ld n (st n a v s) a = (v :: 'a word)"
proof -
  have "map (\<lambda>i. mem (st n a v s) (a + of_nat i)) [0..<n] = le_bytes n v"
    using assms(2) by (intro nth_equalityI) (simp_all add: st_def unat_of_nat)
  then show ?thesis using assms(1) by (simp add: ld_def le_word_le_bytes)
qed

subsection \<open>The code of the bridge\<close>

definition bridge_save :: "a64_instr list" where
  "bridge_save = [I_SUB 31 31 128, I_STPq 6 7 31 96, I_STPq 4 5 31 64, I_STPq 2 3 31 32, I_STPq 0 1 31 0,
    I_SUB 31 31 240, I_STP 29 30 31 224, I_STP 27 28 31 208, I_STP 25 26 31 192, I_STP 23 24 31 176, I_STP 21 22 31 160,
    I_STP 19 20 31 144, I_STP 17 18 31 128, I_STP 15 16 31 112, I_STP 13 14 31 96, I_STP 11 12 31 80, I_STP 9 10 31 64,
    I_STP 7 8 31 48, I_STP 5 6 31 32, I_STP 3 4 31 16, I_STP 1 2 31 0, I_SUB 31 31 16, I_STR 0 31 8, I_ADD 17 31 16,
    I_ADD 17 17 384, I_SUB 31 31 16, I_STR 17 31 8, I_ADD 0 31 0, I_LDR 1 31 400]"

definition bridge_restore :: "a64_instr list" where
  "bridge_restore = [I_ADD 31 31 16, I_LDR 0 31 8, I_ADD 31 31 16, I_LDPpost 1 2 31 16, I_LDPpost 3 4 31 16,
    I_LDPpost 5 6 31 16, I_LDPpost 7 8 31 16, I_LDPpost 9 10 31 16, I_LDPpost 11 12 31 16, I_LDPpost 13 14 31 16,
    I_LDPpost 15 16 31 16, I_LDPpost 17 18 31 16, I_LDPpost 19 20 31 16, I_LDPpost 21 22 31 16, I_LDPpost 23 24 31 16,
    I_LDPpost 25 26 31 16, I_LDPpost 27 28 31 16, I_LDPpost 29 30 31 16, I_LDPqpost 0 1 31 32, I_LDPqpost 2 3 31 32,
    I_LDPqpost 4 5 31 32, I_LDPqpost 6 7 31 32]"

abbreviation "save_seq \<equiv> save_q0_q7 @ save_x1_x30 @ save_x0_sp False @
  [e_mov (X 0) SP, e_ldr (X 1) (MEM SP (REGISTER_CONTEXT_SIZE False + 0))]"
abbreviation "restore_seq \<equiv> restore_x @ restore_q0_q7 @ [\<lambda>a. Some (arm64_ret a)]"

lemma bridge_emits: "list_all2 emits save_seq bridge_save" "list_all2 emits restore_seq (bridge_restore @ [I_RET 30])"
  by (simp_all add: save_q0_q7_def save_x1_x30_def save_x0_sp_def restore_x_def restore_q0_q7_def bridge_save_def bridge_restore_def
      MEM_def MEM_EXT_def SP_def TMP_REG_0_def REGISTER_CONTEXT_SIZE_def sizeof_DobbyRegisterContext_def emits_simps)

lemma decode_wbytes:
  assumes "map a64_decode ws = map Some is" "j < length is"
  shows "decode_at (b @ wbytes ws @ c) (length b + 4 * j) = Some (is ! j)"
proof -
  have "length ws = length is" using map_eq_imp_length_eq [OF assms(1)] .
  moreover have "a64_decode (ws ! j) = Some (is ! j)" using assms calculation by (metis nth_map)
  ultimately show ?thesis using LoadInst_wbytes [of j ws b c] assms(2) by (simp add: decode_at_def)
qed

definition call_words :: "addr \<Rightarrow> u32 list" where "call_words h = mov_words 17 h @ [blr17]"

lemma bridge_layout:
  obtains a where "closure_bridge_code False h = Some a"
    "\<And>j. j < length bridge_save \<Longrightarrow> decode_at (asm_buffer a) (4 * j) = Some (bridge_save ! j)"
    "\<And>j. j < 5 \<Longrightarrow> LoadInst (asm_buffer a) (116 + 4 * j) = Some (call_words h ! j)"
    "\<And>j. j < length (bridge_restore @ [I_RET 30]) \<Longrightarrow>
       decode_at (asm_buffer a) (136 + 4 * j) = Some ((bridge_restore @ [I_RET 30]) ! j)"
    "length (asm_buffer a) = 228" "realized_addr a = 0"
proof -
  obtain ws where p: "map a64_decode ws = map Some bridge_save" "\<And>a. emit_seq save_seq a = Some (emit_block a (ws, None))"
    using emit_seq_emits [OF bridge_emits(1)] by blast
  obtain ws' where r: "map a64_decode ws' = map Some (bridge_restore @ [I_RET 30])"
      "\<And>a. emit_seq restore_seq a = Some (emit_block a (ws', None))"
    using emit_seq_emits [OF bridge_emits(2)] by blast
  define a where "a = emit_block (AssemblerBase 0) (ws @ call_words h @ ws', None)"
  have call: "arm64_CallFunction b h = emit_block b (call_words h, None)" for b
    by (simp add: arm64_CallFunction_def TMP_REG_0_def Mov_block br_block [unfolded TMP_REG_0_def] emit_block_then call_words_def)
  have "closure_bridge_code False h = emit_seq (save_seq @ [\<lambda>a. Some (arm64_CallFunction a h)] @ restore_seq) (AssemblerBase 0)"
    by (simp add: closure_bridge_code_def call_handler_def)
  also have "\<dots> = Some a"
    unfolding a_def by (rule emit_seq_three [OF p(2) _ r(2)]) (simp add: call)
  finally have 1: "closure_bridge_code False h = Some a" .
  have len: "length ws = 29" "length ws' = 23" "length (call_words h) = 5"
    using map_eq_imp_length_eq [OF p(1)] map_eq_imp_length_eq [OF r(1)]
    by (simp_all add: bridge_save_def bridge_restore_def call_words_def)
  have buf: "asm_buffer a = wbytes ws @ wbytes (call_words h) @ wbytes ws'"
    by (simp add: a_def emit_block_def AssemblerBase_def)
  show thesis
  proof (rule that [OF 1])
    show "decode_at (asm_buffer a) (4 * j) = Some (bridge_save ! j)" if "j < length bridge_save" for j
      using decode_wbytes [OF p(1) that, of "[]"] by (simp add: buf)
    show "LoadInst (asm_buffer a) (116 + 4 * j) = Some (call_words h ! j)" if "j < 5" for j
      using LoadInst_wbytes [of j "call_words h" "wbytes ws"] that len by (simp add: buf)
    show "decode_at (asm_buffer a) (136 + 4 * j) = Some ((bridge_restore @ [I_RET 30]) ! j)"
      if "j < length (bridge_restore @ [I_RET 30])" for j
      using decode_wbytes [OF r(1) that, of "wbytes ws @ wbytes (call_words h)" "[]"] len by (simp add: buf)
  qed (simp_all add: buf len, simp add: a_def emit_block_def AssemblerBase_def)
qed

subsection \<open>What the bridge stores\<close>

lemma st_poke: "st n a v s = s\<lparr>mem := poke a (le_bytes n v) (mem s)\<rparr>"
  by (simp add: st_def poke_def)

text \<open>The frame at \<open>B\<close> after the bridge has saved the registers of \<open>s\<close>.\<close>

definition saved_mem :: "addr \<Rightarrow> a64_state \<Rightarrow> a64_state" where
  "saved_mem B s = fold (\<lambda>(d, v). st 8 (B + of_nat d) v)
     ([(256, gpr s 29), (264, gpr s 30), (240, gpr s 27), (248, gpr s 28), (224, gpr s 25), (232, gpr s 26), (208, gpr s 23),
       (216, gpr s 24), (192, gpr s 21), (200, gpr s 22), (176, gpr s 19), (184, gpr s 20), (160, gpr s 17), (168, gpr s 18),
       (144, gpr s 15), (152, gpr s 16), (128, gpr s 13), (136, gpr s 14), (112, gpr s 11), (120, gpr s 12), (96, gpr s 9),
       (104, gpr s 10), (80, gpr s 7), (88, gpr s 8), (64, gpr s 5), (72, gpr s 6), (48, gpr s 3), (56, gpr s 4), (32, gpr s 1),
       (40, gpr s 2), (24, gpr s 0), (8, B + 416)])
     (fold (\<lambda>(d, v). st 16 (B + of_nat d) v)
       [(368, vreg s 6), (384, vreg s 7), (336, vreg s 4), (352, vreg s 5), (304, vreg s 2), (320, vreg s 3), (272, vreg s 0),
        (288, vreg s 1)] s)"

lemma bridge_save_state:
  assumes "sp s = B + 400"
  shows "mem (fold a64_exec bridge_save s) = mem (saved_mem B s)"
    "vreg (fold a64_exec bridge_save s) = vreg s" "nzcv (fold a64_exec bridge_save s) = nzcv s"
    "gpr (fold a64_exec bridge_save s) = (gpr s)(17 := B + 416, 0 := B, 1 := ld 8 (saved_mem B s) (B + 400))"
  using assms
  by (simp_all add: bridge_save_def saved_mem_def st_poke rSP_def rX_def wX_def wSP_def next_pc_def ld_def add.assoc
      add.commute [of "numeral w" B for w])

lemma ld_fold_other:
  assumes "\<forall>(d, v) \<in> set ps. (c + n \<le> d \<or> d + k \<le> c) \<and> d < 2 ^ 32" "c < 2 ^ 32" "n < 2 ^ 32" "k < 2 ^ 32"
  shows "ld n (fold (\<lambda>(d, v). st k (F + of_nat d) v) ps s) (F + of_nat c) = ld n s (F + of_nat c)"
  using assms(1)
proof (induction ps arbitrary: s)
  case Nil
  then show ?case by simp
next
  case (Cons p ps)
  then show ?case by (cases p) (auto simp: ld_st_other [OF _ assms(2) _ assms(3,4)])
qed

text \<open>The offsets of the slots are pairwise at least \<open>k\<close> apart: every slot holds the value stored there.\<close>

lemma ld_fold_same:
  fixes v :: "'a::len word"
  assumes "sorted_wrt (\<lambda>(d, _) (d', _). d + k \<le> d' \<or> d' + k \<le> d) ps" "(c, v) \<in> set ps" "\<forall>(d, v) \<in> set ps. d < 2 ^ 32"
    and "LENGTH('a) \<le> 8 * k" "k < 2 ^ 32"
  shows "ld k (fold (\<lambda>(d, v). st k (F + of_nat d) v) ps s) (F + of_nat c) = v"
  using assms(1-3)
proof (induction ps arbitrary: s)
  case Nil
  then show ?case by simp
next
  case (Cons p ps)
  obtain d w where p: "p = (d, w)" by (cases p)
  show ?case
  proof (cases "(c, v) \<in> set ps")
    case True
    then show ?thesis using Cons p by auto
  next
    case False
    then have cv: "c = d" "v = w" using Cons.prems(2) p by auto
    have "\<forall>(d', v') \<in> set ps. (d + k \<le> d' \<or> d' + k \<le> d) \<and> d' < 2 ^ 32" using Cons.prems(1,3) p cv by auto
    moreover have "d < 2 ^ 32" using Cons.prems(3) p by auto
    ultimately have "ld k (fold (\<lambda>(d, v). st k (F + of_nat d) v) ps t) (F + of_nat d) = (ld k t (F + of_nat d) :: 'a word)" for t
      by (rule ld_fold_other [OF _ _ assms(5,5)])
    then show ?thesis by (simp add: p cv ld_st_same [OF assms(4,5)])
  qed
qed

definition gpr_slots :: "addr \<Rightarrow> a64_state \<Rightarrow> (nat \<times> u64) list" where
  "gpr_slots B s = [(256, gpr s 29), (264, gpr s 30), (240, gpr s 27), (248, gpr s 28), (224, gpr s 25), (232, gpr s 26), (208, gpr s 23),
       (216, gpr s 24), (192, gpr s 21), (200, gpr s 22), (176, gpr s 19), (184, gpr s 20), (160, gpr s 17), (168, gpr s 18),
       (144, gpr s 15), (152, gpr s 16), (128, gpr s 13), (136, gpr s 14), (112, gpr s 11), (120, gpr s 12), (96, gpr s 9),
       (104, gpr s 10), (80, gpr s 7), (88, gpr s 8), (64, gpr s 5), (72, gpr s 6), (48, gpr s 3), (56, gpr s 4), (32, gpr s 1),
       (40, gpr s 2), (24, gpr s 0), (8, B + 416)]"

definition q_slots :: "a64_state \<Rightarrow> (nat \<times> 128 word) list" where
  "q_slots s = [(368, vreg s 6), (384, vreg s 7), (336, vreg s 4), (352, vreg s 5), (304, vreg s 2), (320, vreg s 3), (272, vreg s 0),
        (288, vreg s 1)]"

lemma saved_mem_slots: "saved_mem B s = fold (\<lambda>(d, v). st 8 (B + of_nat d) v) (gpr_slots B s)
    (fold (\<lambda>(d, v). st 16 (B + of_nat d) v) (q_slots s) s)"
  unfolding saved_mem_def gpr_slots_def q_slots_def ..

lemma slots_apart:
  "sorted_wrt (\<lambda>(d, _) (d', _). d + 8 \<le> d' \<or> d' + 8 \<le> d) (gpr_slots B s)" "\<forall>(d, v) \<in> set (gpr_slots B s). d + 8 \<le> 272"
  "sorted_wrt (\<lambda>(d, _) (d', _). d + 16 \<le> d' \<or> d' + 16 \<le> d) (q_slots s)" "\<forall>(d, v) \<in> set (q_slots s). 272 \<le> d \<and> d + 16 \<le> 400"
  by (simp_all add: gpr_slots_def q_slots_def)

lemma saved_gpr: "(c, v) \<in> set (gpr_slots B s) \<Longrightarrow> ld 8 (saved_mem B s) (B + of_nat c) = v"
  unfolding saved_mem_slots using slots_apart(2) [of B s] by (intro ld_fold_same slots_apart(1)) auto

lemma saved_q: "(c, v) \<in> set (q_slots s) \<Longrightarrow> ld 16 (saved_mem B s) (B + of_nat c) = v"
proof -
  assume v: "(c, v) \<in> set (q_slots s)"
  then have c: "272 \<le> c" "c + 16 \<le> 400" using slots_apart(4) [of s] by auto
  have "ld 16 (saved_mem B s) (B + of_nat c) = ld 16 (fold (\<lambda>(d, v). st 16 (B + of_nat d) v) (q_slots s) s) (B + of_nat c)"
    unfolding saved_mem_slots using slots_apart(2) [of B s] c by (intro ld_fold_other) auto
  also have "\<dots> = v" using v slots_apart(4) [of s] by (intro ld_fold_same slots_apart(3)) auto
  finally show ?thesis .
qed

lemma saved_above:
  assumes "400 \<le> c" "c < 2 ^ 32"
  shows "ld 8 (saved_mem B s) (B + of_nat c) = ld 8 s (B + of_nat c)"
proof -
  have "ld 8 (saved_mem B s) (B + of_nat c) = ld 8 (fold (\<lambda>(d, v). st 16 (B + of_nat d) v) (q_slots s) s) (B + of_nat c)"
    unfolding saved_mem_slots using slots_apart(2) [of B s] assms by (intro ld_fold_other) fastforce+
  also have "\<dots> = ld 8 s (B + of_nat c)" using slots_apart(4) [of s] assms by (intro ld_fold_other) fastforce+
  finally show ?thesis .
qed

lemma saved_ctx_x: "r \<le> 30 \<Longrightarrow> ld 8 (saved_mem B s) (ctx_x B r) = gpr s r"
proof -
  assume "r \<le> 30"
  then have "r \<in> set [0..<31]" by simp
  moreover have "[0..<31] = [0, 1, 2, 3, 4, 5, 6, 7, 8, 9, 10, 11, 12, 13, 14, 15, 16, 17, 18, 19, 20, 21, 22, 23, 24, 25, 26, 27, 28, 29, 30]" by code_simp
  then have "list_all (\<lambda>r. (24 + 8 * r, gpr s r) \<in> set (gpr_slots B s)) [0..<31]"
    by (simp add: gpr_slots_def)
  ultimately have "(24 + 8 * r, gpr s r) \<in> set (gpr_slots B s)" by (simp only: list_all_iff)
  from saved_gpr [OF this] show ?thesis by (simp add: ctx_x_def algebra_simps)
qed

lemma saved_ctx_q: "r < 8 \<Longrightarrow> ld 16 (saved_mem B s) (ctx_q B r) = vreg s r"
proof -
  assume "r < 8"
  then have "r \<in> set [0..<8]" by simp
  moreover have "[0..<8] = [0, 1, 2, 3, 4, 5, 6, 7]" by code_simp
  then have "list_all (\<lambda>r. (272 + 16 * r, vreg s r) \<in> set (q_slots s)) [0..<8]"
    by (simp add: q_slots_def)
  ultimately have "(272 + 16 * r, vreg s r) \<in> set (q_slots s)" by (simp only: list_all_iff)
  from saved_q [OF this] show ?thesis by (simp add: ctx_q_def algebra_simps)
qed

lemma saved_ctx_sp: "ld 8 (saved_mem B s) (ctx_sp B) = B + 416"
  using saved_gpr [of 8 "B + 416" B s] by (simp add: gpr_slots_def ctx_sp_def)

subsection \<open>What the bridge reloads\<close>

lemma bridge_restore_state:
  assumes "sp s = B"
  shows "mem (fold a64_exec bridge_restore s) = mem s" "nzcv (fold a64_exec bridge_restore s) = nzcv s"
    "r \<le> 30 \<Longrightarrow> gpr (fold a64_exec bridge_restore s) r = ld 8 s (ctx_x B r)"
    "q < 8 \<Longrightarrow> vreg (fold a64_exec bridge_restore s) q = ld 16 s (ctx_q B q)"
    "8 \<le> q \<Longrightarrow> vreg (fold a64_exec bridge_restore s) q = vreg s q"
proof -
  note e = bridge_restore_def rSP_def wX_def wSP_def next_pc_def ld_def add.assoc add.commute [of "numeral w" B for w] ctx_x_def ctx_q_def assms
  show "mem (fold a64_exec bridge_restore s) = mem s" "nzcv (fold a64_exec bridge_restore s) = nzcv s"
    by (simp_all add: e)
  have u: "[0..<31] = [0, 1, 2, 3, 4, 5, 6, 7, 8, 9, 10, 11, 12, 13, 14, 15, 16, 17, 18, 19, 20, 21, 22, 23, 24, 25, 26, 27, 28, 29, 30]" "[0..<8] = [0, 1, 2, 3, 4, 5, 6, 7]" by code_simp+
  have "list_all (\<lambda>r. gpr (fold a64_exec bridge_restore s) r = ld 8 s (ctx_x B r)) [0..<31]"
    unfolding u by (simp add: e)
  then show "gpr (fold a64_exec bridge_restore s) r = ld 8 s (ctx_x B r)" if "r \<le> 30"
    using that by (simp only: list_all_iff set_upt) simp
  have "list_all (\<lambda>q. vreg (fold a64_exec bridge_restore s) q = ld 16 s (ctx_q B q)) [0..<8]"
    unfolding u by (simp add: e)
  then show "vreg (fold a64_exec bridge_restore s) q = ld 16 s (ctx_q B q)" if "q < 8"
    using that by (simp only: list_all_iff set_upt) simp
  show "vreg (fold a64_exec bridge_restore s) q = vreg s q" if "8 \<le> q"
    using that by (simp add: e)
qed

subsection \<open>The code of the trampoline\<close>

lemma RewriteInst_wbytes:
  assumes "j < length ws"
  shows "RewriteInst (wbytes ws @ c) (4 * j) w = Some (wbytes (ws[j := w]) @ c)"
proof -
  have "wbytes ws = wbytes (take j ws) @ le_bytes 4 (ws ! j) @ wbytes (drop (Suc j) ws)"
    by (subst id_take_nth_drop [OF assms]) simp
  moreover have "wbytes (ws[j := w]) = wbytes (take j ws) @ le_bytes 4 w @ wbytes (drop (Suc j) ws)"
    using assms by (simp add: upd_conv_take_nth_drop)
  moreover have "length (wbytes (take j ws)) = 4 * j" using assms by simp
  ultimately show ?thesis by (simp add: RewriteInst_def Store_def)
qed

definition ldr17_28 :: u32 where "ldr17_28 = encode_imm19_offset ldr17 28"

lemma decode_ldr17_28: "a64_decode ldr17_28 = Some (I_LDRlit 8 17 28)"
  by code_simp

definition closure_pre :: "a64_instr list" where
  "closure_pre = [I_SUB 31 31 16, I_STR 30 31 8, I_LDRlit 8 17 28, I_STR 17 31 0, I_LDRlit 8 17 28]"

definition closure_post :: "a64_instr list" where
  "closure_post = [I_LDR 30 31 8, I_ADD 31 31 16]"

lemma Emit_words: "asm_buffer a = wbytes ws \<Longrightarrow> Emit a w = a\<lparr>asm_buffer := wbytes (ws @ [w])\<rparr>"
  by (simp add: Emit_def Emit32_def EmitBuffer_def)

lemma closure_layout:
  obtains a where "closure_trampoline_code e br = Some a" "length (asm_buffer a) = 52" "realized_addr a = 0"
    "\<And>j. j < 5 \<Longrightarrow> decode_at (asm_buffer a) (4 * j) = Some (closure_pre ! j)"
    "decode_at (asm_buffer a) 20 = Some (I_BLR 17)"
    "\<And>j. j < 2 \<Longrightarrow> decode_at (asm_buffer a) (24 + 4 * j) = Some (closure_post ! j)"
    "decode_at (asm_buffer a) 32 = Some (I_BR 17)"
    "take 8 (drop 36 (asm_buffer a)) = le_bytes 8 e" "take 8 (drop 44 (asm_buffer a)) = le_bytes 8 br"
proof -
  note sp = SP_def MEM_def TMP_REG_0_def
  have em: "emits (e_sub SP SP (2 * 8)) (I_SUB 31 31 16)" "emits (e_str (X 30) (MEM SP 8)) (I_STR 30 31 8)"
    "emits (e_str TMP_REG_0 (MEM SP 0)) (I_STR 17 31 0)" "emits (e_ldr (X 30) (MEM SP 8)) (I_LDR 30 31 8)"
    "emits (e_add SP SP (2 * 8)) (I_ADD 31 31 16)"
    by (simp_all add: sp emits_simps)
  obtain w0 w1 w3 w6 w7 where
    w: "a64_decode w0 = Some (I_SUB 31 31 16)" "a64_decode w1 = Some (I_STR 30 31 8)" "a64_decode w3 = Some (I_STR 17 31 0)"
      "a64_decode w6 = Some (I_LDR 30 31 8)" "a64_decode w7 = Some (I_ADD 31 31 16)"
    and f: "\<And>a. e_sub SP SP (2 * 8) a = Some (Emit a w0)" "\<And>a. e_str (X 30) (MEM SP 8) a = Some (Emit a w1)"
      "\<And>a. e_str TMP_REG_0 (MEM SP 0) a = Some (Emit a w3)" "\<And>a. e_ldr (X 30) (MEM SP 8) a = Some (Emit a w6)"
      "\<And>a. e_add SP SP (2 * 8) a = Some (Emit a w7)"
    using em unfolding emits_def by metis
  have g: "arm64_br a TMP_REG_0 = Emit a br17" "arm64_blr a TMP_REG_0 = Emit a blr17" for a
    by (simp_all add: br_block Emit_block)
  define ws where "ws = [w0, w1, ldr17_28, w3, ldr17_28, blr17, w6, w7, br17]"
  define a where "a = \<lparr>asm_buffer = wbytes ws @ le_bytes 8 e @ le_bytes 8 br, realized_addr = 0,
     label_heap = [bind_to (link_to RelocLabel kLabelImm19 8) 36, bind_to (link_to RelocLabel kLabelImm19 16) 44], data_labels = []\<rparr>"
  let ?h = "[link_to RelocLabel kLabelImm19 8, link_to RelocLabel kLabelImm19 16]"
  let ?ws0 = "[w0, w1, ldr17, w3, ldr17, blr17, w6, w7, br17]"
  let ?a9 = "\<lparr>asm_buffer = wbytes ?ws0, realized_addr = 0, label_heap = ?h, data_labels = []\<rparr>"
  have ldr: "arm64_Ldr b TMP_REG_0 l = Some (Emit (b\<lparr>label_heap := (label_heap b)[l := link_to (label_heap b ! l) kLabelImm19 (length (asm_buffer b))]\<rparr>) ldr17)"
    if "label_pos (label_heap b ! l) = 0" for b l
    using that by (simp add: arm64_Ldr_def GetBufferSize_def TMP_REG_0_def X_def
      arm64_ldr_literal_def EmitLoadRegLiteral_def tmp_words [unfolded TMP_REG_0_def X_def])
  have em9: "emit_seq [e_sub SP SP (2 * 8), e_str (X 30) (MEM SP 8), \<lambda>a. arm64_Ldr a TMP_REG_0 0, e_str TMP_REG_0 (MEM SP 0),
       \<lambda>a. arm64_Ldr a TMP_REG_0 1, \<lambda>a. Some (arm64_blr a TMP_REG_0), e_ldr (X 30) (MEM SP 8), e_add SP SP (2 * 8),
       \<lambda>a. Some (arm64_br a TMP_REG_0)] ((AssemblerBase 0)\<lparr>label_heap := [RelocLabel, RelocLabel]\<rparr>) = Some ?a9"
    by (simp add: f [simplified] g ldr Emit_def Emit32_def EmitBuffer_def AssemblerBase_def RelocLabel_def link_to_def)
  have link: "PseudoBind arm64_link_confused_instructions b l = Some (b\<lparr>label_heap := (label_heap b)[l := bind_to (label_heap b ! l) (length (asm_buffer b))],
       asm_buffer := wbytes (vs[j := encode_imm19_offset (vs ! j) (of_nat (length (asm_buffer b)) - of_nat (4 * j))]) @ c\<rparr>)"
    if "l < length (label_heap b)" "ref_label_insns (label_heap b ! l) = [\<lparr>link_type = kLabelImm19, ref_pc_offset = 4 * j\<rparr>]"
      "asm_buffer b = wbytes vs @ c" "j < length vs" for b l j vs c
    using that LoadInst_wbytes [OF that(4), of "[]" c]
    by (simp add: PseudoBind_def Let_def bind_to_def has_confused_instructions_def GetBufferSize_def
        arm64_link_confused_instructions_def arm64_fix_def RewriteInst_wbytes del: of_nat_mult)
  have l28: "encode_imm19_offset ldr17 (36 - 8) = ldr17_28" "encode_imm19_offset ldr17 (44 - 16) = ldr17_28"
    by (simp_all add: ldr17_28_def)
  have "closure_trampoline_code e br = Option.bind (Some ?a9) (emit_seq
      [\<lambda>a. PseudoBind arm64_link_confused_instructions a 0, \<lambda>a. Some (EmitInt64 a e),
       \<lambda>a. PseudoBind arm64_link_confused_instructions a 1, \<lambda>a. Some (EmitInt64 a br)])"
    unfolding closure_trampoline_code_def em9 [symmetric] emit_seq_append [symmetric]
    by (simp add: new_label_def AssemblerBase_def del: emit_seq.simps)
  also have "\<dots> = Some a"
    using link [of 0 ?a9 2 ?ws0 "[]"]
      link [of 1 "\<lparr>asm_buffer = wbytes (?ws0[2 := ldr17_28]) @ le_bytes 8 e, realized_addr = 0,
          label_heap = [bind_to (link_to RelocLabel kLabelImm19 8) 36, link_to RelocLabel kLabelImm19 16], data_labels = []\<rparr>"
        4 "?ws0[2 := ldr17_28]" "le_bytes 8 e"]
    by (simp add: link_to_def RelocLabel_def EmitInt64_def Emit64_def EmitBuffer_def a_def ws_def l28 [simplified] bind_to_def)
  finally have 1: "closure_trampoline_code e br = Some a" .
  have d: "decode_at (asm_buffer a) (4 * j) = a64_decode (ws ! j)" if "j < 9" for j
    using LoadInst_wbytes [of j ws "[]"] that by (simp add: decode_at_def a_def ws_def)
  show thesis
  proof (rule that [OF 1])
    show "decode_at (asm_buffer a) (4 * j) = Some (closure_pre ! j)" if "j < 5" for j
      using that d [of j] w decode_ldr17_28 by (auto simp: ws_def closure_pre_def less_Suc_eq numeral_eq_Suc)
    show "decode_at (asm_buffer a) (24 + 4 * j) = Some (closure_post ! j)" if "j < 2" for j
      using that d [of 6] d [of 7] w by (auto simp: ws_def closure_post_def less_Suc_eq numeral_2_eq_2)
    show "decode_at (asm_buffer a) 20 = Some (I_BLR 17)" "decode_at (asm_buffer a) 32 = Some (I_BR 17)"
      using d [of 5] d [of 8] decode_br17 by (simp_all add: ws_def)
  qed (simp_all add: a_def ws_def)
qed

subsection \<open>Through the trampoline and the bridge\<close>

text \<open>The code is in place and disjoint from the 416 bytes below the stack pointer.\<close>

definition closure_ready :: "addr \<Rightarrow> addr \<Rightarrow> addr \<Rightarrow> addr \<Rightarrow> addr \<Rightarrow> a64_state \<Rightarrow> bool" where
  "closure_ready e h A br B s \<longleftrightarrow>
     (case (closure_trampoline_code e br, closure_bridge_code False h) of
        (Some at, Some ab) \<Rightarrow> loaded s A (asm_buffer at) \<and> loaded s br (asm_buffer ab) \<and>
          code_outside B 416 A (asm_buffer at) \<and> code_outside B 416 br (asm_buffer ab)
      | _ \<Rightarrow> False)"

lemma closure_ready_mem:
  assumes "closure_ready e h A br B s" "\<And>x. outside B 416 x \<Longrightarrow> mem t x = mem s x"
  shows "closure_ready e h A br B t"
  using assms by (auto simp: closure_ready_def loaded_def code_outside_def split: option.splits)

lemma step_decode_at:
  assumes "loaded s A b" "decode_at b off = Some i" "pc s = A + of_nat off"
  shows "a64_step s = Some (a64_exec i s)"
  using assms step_at [OF assms(1) _ assms(3)] by (auto simp: decode_at_def split: bind_splits)

lemma closure_pre_runs:
  assumes "closure_ready e h A br B s" "pc s = A" "sp s = B + 416"
  shows "\<exists>t. a64_run 6 s = Some t \<and> pc t = br \<and> sp t = B + 400 \<and> ld 8 t (B + 400) = e \<and> ld 8 t (B + 408) = gpr s 30 \<and>
    gpr t = (gpr s)(17 := br, 30 := A + 24) \<and> vreg t = vreg s \<and> nzcv t = nzcv s \<and>
    (\<forall>x. outside B 416 x \<longrightarrow> mem t x = mem s x)"
proof -
  obtain a where a: "closure_trampoline_code e br = Some a" "length (asm_buffer a) = 52"
    "\<And>j. j < 5 \<Longrightarrow> decode_at (asm_buffer a) (4 * j) = Some (closure_pre ! j)"
    "decode_at (asm_buffer a) 20 = Some (I_BLR 17)"
    "take 8 (drop 36 (asm_buffer a)) = le_bytes 8 e" "take 8 (drop 44 (asm_buffer a)) = le_bytes 8 br"
    using closure_layout [of e br] by metis
  have l: "loaded s A (asm_buffer a)" and co: "code_outside B 416 A (asm_buffer a)"
    using assms(1) a(1) by (auto simp: closure_ready_def split: option.splits)
  have lit: "ld 8 t (A + 36) = e" "ld 8 t (A + 44) = br" if t: "\<And>x. outside B 416 x \<Longrightarrow> mem t x = mem s x" for t
  proof -
    have "loaded t A (asm_buffer a)" using l co t by (simp add: loaded_def code_outside_def)
    from loaded_ld [OF this, of 36 8, where 'a = 64] loaded_ld [OF this, of 44 8, where 'a = 64] a(2,5,6)
    show "ld 8 t (A + 36) = e" "ld 8 t (A + 44) = br" by simp_all
  qed
  let ?s1 = "fold a64_exec closure_pre s"
  have fr: "frame_run 416 closure_pre 416 = Some 400" "length closure_pre = 5" by (simp_all add: closure_pre_def) 
  have r1: "a64_run 5 s = Some ?s1 \<and> sp ?s1 = B + 400 \<and> pc ?s1 = A + of_nat (0 + 4 * 5) \<and> (\<forall>x. outside B 416 x \<longrightarrow> mem ?s1 x = mem s x)"
    using run_frame [OF fr(1) assms(3) _ l co, of 0] a(3) assms(2) fr(2) by simp
  define m1 where "m1 = st 8 (B + 408) (gpr s 30) s"
  define m2 where "m2 = st 8 (B + 400) e m1"
  have o1: "mem m1 x = mem s x" "mem m2 x = mem s x" if "outside B 416 x" for x
    using that by (simp_all add: m1_def m2_def st_outside [of 408 8 416 B x] st_outside [of 400 8 416 B x])
  have "ld 8 m1 (A + 36) = e" "ld 8 m2 (A + 44) = br" using lit o1 by blast+
  then have s1: "mem ?s1 = mem m2" "gpr ?s1 = (gpr s)(17 := br)" "vreg ?s1 = vreg s" "nzcv ?s1 = nzcv s"
    using assms(2,3)
    by (simp_all add: closure_pre_def st_poke rSP_def rX_def wX_def wSP_def next_pc_def ld_def add.assoc m1_def m2_def
        add.commute [of "numeral w" A for w] add.commute [of "numeral w" B for w])
  have l1: "loaded ?s1 A (asm_buffer a)" using l co r1 by (simp add: loaded_def code_outside_def)
  have s2: "a64_step ?s1 = Some (goto br (wX 30 (A + 24) ?s1))"
    using step_decode_at [OF l1 a(4)] r1 s1(2) by (simp add: rX_def add.assoc)
  have "ld 8 m2 (B + 400) = e" by (simp add: m2_def ld_st_same)
  moreover have "ld 8 m2 (B + 408) = gpr s 30"
    by (simp add: m2_def m1_def ld_st_same ld_st_other [of 408 8 400 8 B e, simplified])
  ultimately have slots: "ld 8 ?s1 (B + 400) = e" "ld 8 ?s1 (B + 408) = gpr s 30" using s1(1) by (simp_all add: ld_def)
  have "a64_run (5 + 1) s = Some (goto br (wX 30 (A + 24) ?s1))" using a64_run_add [of 5 s ?s1 1] r1 s2 by simp
  then show ?thesis using r1 s1 slots
    by (intro exI [of _ "goto br (wX 30 (A + 24) ?s1)"]) (simp add: goto_def wX_def ld_def)
qed

lemma bridge_call_runs:
  assumes "closure_ready e h A br B s" "pc s = br" "sp s = B + 400"
  shows "\<exists>n t. a64_run n s = Some t \<and> pc t = h \<and> sp t = B \<and>
    gpr t = (gpr s)(0 := B, 1 := ld 8 s (B + 400), 17 := h, 30 := br + 136) \<and> vreg t = vreg s \<and> nzcv t = nzcv s \<and>
    mem t = mem (saved_mem B s) \<and> (\<forall>x. outside B 416 x \<longrightarrow> mem t x = mem s x)"
proof -
  obtain a where a: "closure_bridge_code False h = Some a"
    "\<And>j. j < length bridge_save \<Longrightarrow> decode_at (asm_buffer a) (4 * j) = Some (bridge_save ! j)"
    "\<And>j. j < 5 \<Longrightarrow> LoadInst (asm_buffer a) (116 + 4 * j) = Some (call_words h ! j)"
    using bridge_layout [of h] by metis
  have l: "loaded s br (asm_buffer a)" and co: "code_outside B 416 br (asm_buffer a)"
    using assms(1) a(1) by (auto simp: closure_ready_def split: option.splits)
  let ?s1 = "fold a64_exec bridge_save s"
  have fr: "frame_run 416 bridge_save 400 = Some 0" "length bridge_save = 29" by (simp_all add: bridge_save_def)
  have r1: "a64_run 29 s = Some ?s1 \<and> sp ?s1 = B + 0 \<and> pc ?s1 = br + of_nat (0 + 4 * 29) \<and> (\<forall>x. outside B 416 x \<longrightarrow> mem ?s1 x = mem s x)"
    using run_frame [OF fr(1) assms(3) _ l co, of 0] a(2) assms(2) fr(2) by simp
  note s1 = bridge_save_state [OF assms(3)]
  have l1: "loaded ?s1 br (asm_buffer a)" using l co r1 by (simp add: loaded_def code_outside_def)
  let ?s2 = "wX 17 h (?s1\<lparr>pc := pc ?s1 + 16\<rparr>)"
  have r2: "a64_run 4 ?s1 = Some ?s2"
    using r1 a(3) by (intro run_mov [OF l1, of 116]) (auto simp: call_words_def nth_append)
  have l2: "loaded ?s2 br (asm_buffer a)" using l1 by (simp add: loaded_def)
  have "decode_at (asm_buffer a) 132 = Some (I_BLR 17)"
    using a(3) [of 4] decode_br17 by (simp add: decode_at_def call_words_def nth_append)
  from step_decode_at [OF l2 this] have s3: "a64_step ?s2 = Some (goto h (wX 30 (br + 136) ?s2))"
    using r1 by (simp add: rX_def wX_def add.assoc)
  have "a64_run (29 + 4) s = Some ?s2" using a64_run_add [of 29 s ?s1 4] r1 r2 by simp
  then have "a64_run (33 + 1) s = Some (goto h (wX 30 (br + 136) ?s2))" using a64_run_add [of 33 s ?s2 1] s3 by simp
  moreover have "ld 8 (saved_mem B s) (B + 400) = (ld 8 s (B + 400) :: u64)" using saved_above [of 400 B s] by simp
  ultimately show ?thesis using r1 s1
    by (intro exI [of _ "33 + 1"] exI [of _ "goto h (wX 30 (br + 136) ?s2)"]) (auto simp: goto_def wX_def fun_upd_twist)
qed

lemma bridge_return_runs:
  assumes "closure_ready e h A br B s" "pc s = br + 136" "sp s = B" "ld 8 s (ctx_x B 30) = A + 24"
  shows "\<exists>n t. a64_run n s = Some t \<and> pc t = ld 8 s (ctx_x B 17) \<and> sp t = B + 416 \<and> mem t = mem s \<and> nzcv t = nzcv s \<and>
    (\<forall>r < 30. gpr t r = ld 8 s (ctx_x B r)) \<and> gpr t 30 = ld 8 s (B + 408) \<and>
    (\<forall>q. vreg t q = (if q < 8 then ld 16 s (ctx_q B q) else vreg s q))"
proof -
  obtain a where a: "closure_bridge_code False h = Some a"
    "\<And>j. j < length (bridge_restore @ [I_RET 30]) \<Longrightarrow>
       decode_at (asm_buffer a) (136 + 4 * j) = Some ((bridge_restore @ [I_RET 30]) ! j)"
    using bridge_layout [of h] by metis
  obtain b where b: "closure_trampoline_code e br = Some b"
    "\<And>j. j < 2 \<Longrightarrow> decode_at (asm_buffer b) (24 + 4 * j) = Some (closure_post ! j)"
    "decode_at (asm_buffer b) 32 = Some (I_BR 17)"
    using closure_layout [of e br] by metis
  have l: "loaded s br (asm_buffer a)" "loaded s A (asm_buffer b)" and co: "code_outside B 416 br (asm_buffer a)" "code_outside B 416 A (asm_buffer b)"
    using assms(1) a(1) b(1) by (auto simp: closure_ready_def split: option.splits)
  let ?s1 = "fold a64_exec bridge_restore s"
  have fr: "frame_run 416 bridge_restore 0 = Some 400" "length bridge_restore = 22" by (simp_all add: bridge_restore_def)
  have r1: "a64_run 22 s = Some ?s1 \<and> sp ?s1 = B + 400 \<and> pc ?s1 = br + of_nat (136 + 4 * 22)"
    using run_frame [OF fr(1) _ _ l(1) co(1), of 136] a(2) assms(2,3) fr(2) by (simp add: nth_append)
  note s1 = bridge_restore_state [OF assms(3)]
  have l1: "loaded ?s1 br (asm_buffer a)" "loaded ?s1 A (asm_buffer b)" using l s1(1) by (simp_all add: loaded_def)
  have "decode_at (asm_buffer a) 224 = Some (I_RET 30)" using a(2) [of 22] fr(2) by (simp add: nth_append)
  from step_decode_at [OF l1(1) this] have s2: "a64_step ?s1 = Some (goto (A + 24) ?s1)"
    using r1 s1(3) [of 30] assms(4) by (simp add: rX_def)
  let ?s2 = "goto (A + 24) ?s1"
  have l2: "loaded ?s2 A (asm_buffer b)" using l1 by simp
  let ?s3 = "fold a64_exec closure_post ?s2"
  have fr2: "frame_run 416 closure_post 400 = Some 416" "length closure_post = 2" by (simp_all add: closure_post_def)
  have r3: "a64_run 2 ?s2 = Some ?s3 \<and> sp ?s3 = B + 416 \<and> pc ?s3 = A + of_nat (24 + 4 * 2)"
    using run_frame [OF fr2(1) _ _ l2 co(2), of 24] b(2) r1 fr2(2) by (simp add: goto_def)
  have s3: "mem ?s3 = mem s" "nzcv ?s3 = nzcv s" "gpr ?s3 = (gpr ?s1)(30 := ld 8 s (B + 408))" "vreg ?s3 = vreg ?s1"
    using r1 s1(1,2) by (simp_all add: closure_post_def rSP_def wX_def wSP_def next_pc_def goto_def ld_def add.assoc)
  have l3: "loaded ?s3 A (asm_buffer b)" using l(2) s3(1) by (simp add: loaded_def)
  have s4: "a64_step ?s3 = Some (goto (ld 8 s (ctx_x B 17)) ?s3)"
    using step_decode_at [OF l3 b(3)] r3 s3(3) s1(3) [of 17] by (simp add: rX_def)
  have "a64_run (22 + 1) s = Some ?s2" using a64_run_add [of 22 s ?s1 1] r1 s2 by simp
  then have "a64_run (23 + 2) s = Some ?s3" using a64_run_add [of 23 s ?s2 2] r3 by simp
  then have "a64_run (25 + 1) s = Some (goto (ld 8 s (ctx_x B 17)) ?s3)" using a64_run_add [of 25 s ?s3 1] s4 by simp
  then show ?thesis using r3 s3 s1
    by (intro exI [of _ "25 + 1"] exI [of _ "goto (ld 8 s (ctx_x B 17)) ?s3"]) (simp add: goto_def)
qed

lemma closure_call_runs:
  assumes "closure_ready e h A br B s" "pc s = A" "sp s = B + 416"
  shows "\<exists>n t. a64_run n s = Some t \<and> pc t = h \<and> gpr t 0 = B \<and> gpr t 1 = e \<and> sp t = B \<and> gpr t 30 = br + 136 \<and>
    (\<forall>r < 30. r \<noteq> 17 \<longrightarrow> ld 8 t (ctx_x B r) = gpr s r) \<and> ld 8 t (ctx_x B 30) = A + 24 \<and> ld 8 t (ctx_sp B) = sp s \<and>
    (\<forall>q < 8. ld 16 t (ctx_q B q) = vreg s q) \<and> ld 8 t (B + 408) = gpr s 30 \<and> vreg t = vreg s \<and> nzcv t = nzcv s \<and>
    (\<forall>x. outside B 416 x \<longrightarrow> mem t x = mem s x)"
proof -
  obtain u where u: "a64_run 6 s = Some u" "pc u = br" "sp u = B + 400" "ld 8 u (B + 400) = e" "ld 8 u (B + 408) = gpr s 30"
    "gpr u = (gpr s)(17 := br, 30 := A + 24)" "vreg u = vreg s" "nzcv u = nzcv s" "\<And>x. outside B 416 x \<Longrightarrow> mem u x = mem s x"
    using closure_pre_runs [OF assms] by blast
  obtain n t where t: "a64_run n u = Some t" "pc t = h" "sp t = B" "vreg t = vreg u" "nzcv t = nzcv u" "mem t = mem (saved_mem B u)"
    "gpr t = (gpr u)(0 := B, 1 := ld 8 u (B + 400), 17 := h, 30 := br + 136)" "\<And>x. outside B 416 x \<Longrightarrow> mem t x = mem u x"
    using bridge_call_runs [OF closure_ready_mem [OF assms(1) u(9)] u(2,3)] by blast
  have ld: "ld n t = ld n (saved_mem B u)" for n by (simp add: fun_eq_iff ld_def t(6))
  have "ld 8 t (ctx_x B r) = gpr u r" if "r \<le> 30" for r using saved_ctx_x [OF that] by (simp add: ld)
  moreover have "ld 8 t (B + 408) = gpr s 30" using saved_above [of 408 B u, where 'a = 64] u(5) by (simp add: ld)
  moreover have "a64_run (6 + n) s = Some t" using a64_run_add [OF u(1)] t(1) by simp
  moreover have "ld 8 t (ctx_sp B) = B + 416" "\<forall>q < 8. ld 16 t (ctx_q B q) = vreg s q"
    using saved_ctx_sp saved_ctx_q u(7) by (simp_all add: ld)
  ultimately show ?thesis using t u assms(3)
    by (intro exI [of _ "6 + n"] exI [of _ t]) simp
qed

text \<open>
  What is asked of the C handler, run from its entry: it returns with the stack pointer restored, and in the frame at
  \<open>B\<close> it changed nothing but the next hop; code outside the frame is untouched.
\<close>

definition handler_sets_hop :: "addr \<Rightarrow> addr \<Rightarrow> a64_state \<Rightarrow> a64_state \<Rightarrow> bool" where
  "handler_sets_hop B hop t t' \<longleftrightarrow> pc t' = gpr t 30 \<and> sp t' = sp t \<and>
     (\<forall>x. \<not> outside B 416 x \<longrightarrow> mem t' x = mem (set_routing_bridge_next_hop B hop t) x)"

lemma hop_ld:
  assumes "handler_sets_hop B hop t t'" "c + n \<le> 416"
  shows "ld n t' (B + of_nat c) = ld n (st 8 (B + of_nat 160) hop t) (B + of_nat c)"
proof (rule ld_cong)
  fix i assume i: "i < n"
  have "B + of_nat c + of_nat i - B = (of_nat (c + i) :: addr)" by simp
  moreover have "unat (of_nat (c + i) :: addr) = c + i" using i assms(2) by (simp add: unat_of_nat del: of_nat_add)
  ultimately have "unat (B + of_nat c + of_nat i - B) = c + i" by (simp only:)
  then have "\<not> outside B 416 (B + of_nat c + of_nat i)" using i assms(2) by (simp add: outside_def)
  then show "mem t' (B + of_nat c + of_nat i) = mem (st 8 (B + of_nat 160) hop t) (B + of_nat c + of_nat i)"
    using assms(1) by (simp add: handler_sets_hop_def set_routing_bridge_next_hop_def ctx_x_def TMP_REG_0_def X_def add.commute [of 160 B])
qed

lemma hop_other:
  assumes "handler_sets_hop B hop t t'" "c + n \<le> 416" "c + n \<le> 160 \<or> 168 \<le> c"
  shows "ld n t' (B + of_nat c) = ld n t (B + of_nat c)"
proof -
  have "ld n (st 8 (B + of_nat 160) hop t) (B + of_nat c) = ld n t (B + of_nat c)"
    using assms(2,3) by (intro ld_st_other) auto
  then show ?thesis by (simp only: hop_ld [OF assms(1,2)])
qed

lemma hop_frame:
  assumes "handler_sets_hop B hop t t'"
  shows "r \<le> 30 \<Longrightarrow> ld 8 t' (ctx_x B r) = (if r = 17 then hop else ld 8 t (ctx_x B r))" "ld 8 t' (B + 408) = (ld 8 t (B + 408) :: u64)"
    "q < 8 \<Longrightarrow> ld 16 t' (ctx_q B q) = (ld 16 t (ctx_q B q) :: 128 word)"
proof -
  have c: "ctx_x B r = B + of_nat (24 + 8 * r)" "ctx_q B q = B + of_nat (272 + 16 * q)" "B + 408 = B + of_nat 408" for r q
    by (simp_all add: ctx_x_def ctx_q_def add.assoc)
  have "ld 8 t' (B + of_nat 160) = hop"
    by (subst hop_ld [OF assms]) (simp_all add: ld_st_same)
  then show "ld 8 t' (ctx_x B r) = (if r = 17 then hop else ld 8 t (ctx_x B r))" if "r \<le> 30"
  proof (cases "r = 17")
    case True
    then show ?thesis using \<open>ld 8 t' (B + of_nat 160) = hop\<close> by (simp add: c)
  next
    case False
    then have "ld 8 t' (B + of_nat (24 + 8 * r)) = (ld 8 t (B + of_nat (24 + 8 * r)) :: u64)"
      using that by (intro hop_other [OF assms]) auto
    then show ?thesis using False by (simp only: c if_False)
  qed
  show "ld 8 t' (B + 408) = (ld 8 t (B + 408) :: u64)" unfolding c(3) by (rule hop_other [OF assms]) simp_all
  show "ld 16 t' (ctx_q B q) = (ld 16 t (ctx_q B q) :: 128 word)" if "q < 8"
    unfolding c(2) using that by (intro hop_other [OF assms]) simp_all
qed

subsection \<open>Properties\<close>

text \<open>
  C15: When the closure trampoline is entered, the common handler is reached with the register context as first and
  the trampoline's entry as second argument. The context holds x0 to x29 (but x17), q0 to q7 and the stack pointer as
  they were at entry; its \<^verbatim>\<open>lr\<close> field is not the caller's link register but the return address into
  the trampoline. Nothing above the stack pointer is written.
\<close>
theorem closure_trampoline_passes_context:
  assumes "closure_ready e h A br B s" "pc s = A" "sp s = B + 416"
  shows "\<exists>n t. a64_run n s = Some t \<and> pc t = h \<and> gpr t 0 = B \<and> gpr t 1 = e \<and> sp t = B \<and> gpr t 30 = br + 136 \<and>
    (\<forall>r < 30. r \<noteq> 17 \<longrightarrow> ld 8 t (ctx_x B r) = gpr s r) \<and> ld 8 t (ctx_x B 30) = A + 24 \<and> ld 8 t (ctx_sp B) = sp s \<and>
    (\<forall>q < 8. ld 16 t (ctx_q B q) = vreg s q) \<and> (\<forall>x. outside B 416 x \<longrightarrow> mem t x = mem s x)"
  using closure_call_runs [OF assms] by blast

text \<open>
  C14: The closure trampoline is transparent. If the handler only sets the next hop, then a run from the trampoline
  arrives at the next hop with all general registers (but x17), the stack pointer and q0 to q7 as at entry. (The flags
  and q8 to q31 are whatever the handler leaves.)
\<close>
theorem closure_trampoline_transparent:
  assumes "closure_ready e h A br B s" "pc s = A" "sp s = B + 416"
    and handler: "\<And>t. pc t = h \<Longrightarrow> gpr t 0 = B \<Longrightarrow> gpr t 1 = e \<Longrightarrow> (\<forall>x. outside B 416 x \<longrightarrow> mem t x = mem s x) \<Longrightarrow>
        \<exists>k t'. a64_run k t = Some t' \<and> handler_sets_hop B hop t t' \<and> closure_ready e h A br B t'"
  shows "\<exists>n u. a64_run n s = Some u \<and> pc u = hop \<and> sp u = sp s \<and> (\<forall>r \<le> 30. r \<noteq> 17 \<longrightarrow> gpr u r = gpr s r) \<and>
    (\<forall>q < 8. vreg u q = vreg s q)"
proof -
  obtain n t where t: "a64_run n s = Some t" "pc t = h" "gpr t 0 = B" "gpr t 1 = e" "sp t = B" "gpr t 30 = br + 136"
    "\<forall>r < 30. r \<noteq> 17 \<longrightarrow> ld 8 t (ctx_x B r) = gpr s r" "ld 8 t (ctx_x B 30) = A + 24"
    "\<forall>q < 8. ld 16 t (ctx_q B q) = vreg s q" "ld 8 t (B + 408) = gpr s 30" "\<forall>x. outside B 416 x \<longrightarrow> mem t x = mem s x"
    using closure_call_runs [OF assms(1-3)] by blast
  obtain k t' where t': "a64_run k t = Some t'" "handler_sets_hop B hop t t'" "closure_ready e h A br B t'"
    using handler [OF t(2-4,11)] by blast
  note hf = hop_frame [OF t'(2)]
  have "pc t' = br + 136" "sp t' = B" using t'(2) t(5,6) by (simp_all add: handler_sets_hop_def)
  then obtain m u where u: "a64_run m t' = Some u" "pc u = ld 8 t' (ctx_x B 17)" "sp u = B + 416"
    "\<forall>r < 30. gpr u r = ld 8 t' (ctx_x B r)" "gpr u 30 = ld 8 t' (B + 408)"
    "\<forall>q. vreg u q = (if q < 8 then ld 16 t' (ctx_q B q) else vreg t' q)"
    using bridge_return_runs [OF t'(3)] hf(1) [of 30] t(8) by auto
  have "a64_run (n + (k + m)) s = Some u" using a64_run_add [OF t(1)] a64_run_add [OF t'(1)] u(1) by simp
  moreover have "gpr u r = gpr s r" if "r \<le> 30" "r \<noteq> 17" for r
    using that u(4,5) hf(1) [of r] hf(2) t(7,10) by (cases "r = 30") auto
  moreover have "\<forall>q < 8. vreg u q = vreg s q" using u(6) hf(3) t(9) by simp
  ultimately show ?thesis using u(2,3) hf(1) [of 17] assms(3) by (intro exI [of _ "n + (k + m)"] exI [of _ u]) simp
qed

subsection \<open>A concrete trampoline\<close>

text \<open>
  The trampoline at 0x1000, the bridge at 0x2000, and at 0x3000 a handler that stores 0x6000 into the next hop and
  returns.
\<close>

definition demo_handler :: "u32 list" where
  "demo_handler = mov_words 17 0x6000 @ [0xF9005011, 0xD65F03C0]"

definition demo_closure_state :: a64_state where
  "demo_closure_state = \<lparr>pc = 0x1000, gpr = of_nat, sp = 0x2A0, vreg = of_nat,
     nzcv = \<lparr>fN = False, fZ = False, fC = False, fV = False\<rparr>,
     mem = poke 0x1000 (asm_buffer (the (closure_trampoline_code 0x5000 0x2000)))
       (poke 0x2000 (asm_buffer (the (closure_bridge_code False 0x3000))) (poke 0x3000 (wbytes demo_handler) (\<lambda>_. 0)))\<rparr>"

lemma unat_offset:
  fixes a b :: addr
  assumes "unat (a - b) + i < 2 ^ 64"
  shows "unat (a + of_nat i - b) = unat (a - b) + i"
proof -
  have "unat (of_nat i :: addr) = i" using assms by (simp add: unat_of_nat)
  moreover have "a + of_nat i - b = (a - b) + of_nat i" by simp
  ultimately show ?thesis using assms unat_plus [of "a - b" "of_nat i"] by (simp only:)
qed

lemma code_outside_above:
  assumes "len \<le> unat (A - B)" "unat (A - B) + length b < 2 ^ 64"
  shows "code_outside B len A b"
  unfolding code_outside_def outside_def
proof (intro allI impI)
  fix i assume "i < length b"
  then have "unat (A + of_nat i - B) = unat (A - B) + i" using assms(2) by (intro unat_offset) simp
  then show "len \<le> unat (A + of_nat i - B)" using assms(1) by (simp only:)
qed

lemma poke_apart: "length bs \<le> unat (a' - a) \<Longrightarrow> unat (a' - a) + i < 2 ^ 64 \<Longrightarrow> poke a bs m (a' + of_nat i) = m (a' + of_nat i)"
  by (rule poke_outside) (simp only: unat_offset not_less trans_le_add1)

lemma demo_closure:
  "closure_ready 0x5000 0x3000 0x1000 0x2000 0x100 demo_closure_state"
  "loaded demo_closure_state 0x3000 (wbytes demo_handler)" "code_outside 0x100 416 0x3000 (wbytes demo_handler)"
proof -
  obtain a where a: "closure_trampoline_code 0x5000 0x2000 = Some a" "length (asm_buffer a) = 52" using closure_layout by metis
  obtain b where b: "closure_bridge_code False 0x3000 = Some b" "length (asm_buffer b) = 228" using bridge_layout by metis
  have h: "length demo_handler = 6" by (simp add: demo_handler_def)
  have "loaded demo_closure_state 0x1000 (asm_buffer a)" "loaded demo_closure_state 0x2000 (asm_buffer b)"
    "loaded demo_closure_state 0x3000 (wbytes demo_handler)"
    using a b h by (simp_all add: loaded_def demo_closure_state_def poke_inside poke_apart)
  moreover have "code_outside 0x100 416 0x1000 (asm_buffer a)" "code_outside 0x100 416 0x2000 (asm_buffer b)"
    "code_outside 0x100 416 0x3000 (wbytes demo_handler)"
    using a b h by (simp_all add: code_outside_above)
  ultimately show "closure_ready 0x5000 0x3000 0x1000 0x2000 0x100 demo_closure_state"
    "loaded demo_closure_state 0x3000 (wbytes demo_handler)" "code_outside 0x100 416 0x3000 (wbytes demo_handler)"
    using a b by (simp_all add: closure_ready_def)
qed

lemma demo_handler_runs:
  assumes "loaded t 0x3000 (wbytes demo_handler)" "pc t = 0x3000" "gpr t 0 = B" "code_outside B 416 0x3000 (wbytes demo_handler)"
  shows "a64_run 6 t = Some (goto (gpr t 30) (st 8 (B + 160) (0x6000 :: u64) (wX 17 0x6000 t)))"
proof -
  let ?s = "wX 17 0x6000 (t\<lparr>pc := pc t + 16\<rparr>)"
  have w: "LoadInst (wbytes demo_handler) (4 * j) = Some (demo_handler ! j)" if "j < 6" for j
    using LoadInst_wbytes [of j demo_handler "[]" "[]"] that by (simp add: demo_handler_def)
  have r: "a64_run 4 t = Some ?s"
    using assms(2) w by (intro run_mov [OF assms(1), of 0]) (auto simp: demo_handler_def nth_append)
  have l: "loaded ?s 0x3000 (wbytes demo_handler)" using assms(1) by (simp add: loaded_def)
  have d: "decode_at (wbytes demo_handler) 16 = Some (I_STR 17 0 160)" "decode_at (wbytes demo_handler) 20 = Some (I_RET 30)"
    using w [of 4] w [of 5] by (simp_all add: decode_at_def demo_handler_def nth_append) code_simp+
  let ?s2 = "next_pc (st 8 (B + 160) (0x6000 :: u64) ?s)"
  have s1: "a64_step ?s = Some ?s2"
    using step_decode_at [OF l d(1)] assms(2,3) by (simp add: rX_def rSP_def wX_def)
  have l2: "loaded ?s2 0x3000 (wbytes demo_handler)"
    using l assms(4) by (simp add: loaded_def code_outside_def st_outside [of 160 8 416 B])
  have pc: "pc ?s2 = 0x3014" using assms(2) by (simp add: next_pc_def st_def)
  have g: "gpr ?s2 30 = gpr t 30" by (simp add: next_pc_def st_def wX_def)
  have s2: "a64_step ?s2 = Some (goto (gpr t 30) ?s2)"
    using step_decode_at [OF l2 d(2)] pc g by (simp add: rX_def)
  have "a64_run (4 + 2) t = Some (goto (gpr t 30) ?s2)"
    using a64_run_add [OF r, of 2] s1 s2 by (simp add: numeral_2_eq_2)
  moreover have "goto (gpr t 30) ?s2 = goto (gpr t 30) (st 8 (B + 160) (0x6000 :: u64) (wX 17 0x6000 t))"
    by (simp add: goto_def next_pc_def st_poke wX_def)
  ultimately show ?thesis by simp
qed

theorem closure_trampoline_passes_context_witness:
  "\<exists>n t. a64_run n demo_closure_state = Some t \<and> pc t = 0x3000 \<and> gpr t 0 = 0x100 \<and> gpr t 1 = 0x5000 \<and>
     ld 8 t (ctx_x 0x100 19) = (19 :: u64) \<and> ld 8 t (ctx_sp 0x100) = (0x2A0 :: u64)"
proof -
  have s: "pc demo_closure_state = 0x1000" "sp demo_closure_state = 0x100 + 416" "gpr demo_closure_state 19 = 19"
    by (simp_all add: demo_closure_state_def)
  from closure_trampoline_passes_context [OF demo_closure(1) s(1,2)] obtain n t where
    "a64_run n demo_closure_state = Some t" "pc t = 0x3000" "gpr t 0 = 0x100" "gpr t 1 = 0x5000"
    "\<forall>r < 30. r \<noteq> 17 \<longrightarrow> ld 8 t (ctx_x 0x100 r) = gpr demo_closure_state r" "ld 8 t (ctx_sp 0x100) = sp demo_closure_state"
    by blast
  with s show ?thesis by (intro exI [of _ n] exI [of _ t]) simp
qed

theorem closure_trampoline_transparent_witness:
  "\<exists>n u. a64_run n demo_closure_state = Some u \<and> pc u = 0x6000 \<and> sp u = 0x2A0 \<and> gpr u 0 = 0 \<and> gpr u 30 = 30 \<and> vreg u 7 = 7"
proof -
  have s: "pc demo_closure_state = 0x1000" "sp demo_closure_state = 0x100 + 416" "sp demo_closure_state = 0x2A0"
    "gpr demo_closure_state = of_nat" "vreg demo_closure_state = of_nat"
    by (simp_all add: demo_closure_state_def)
  have "\<exists>k t'. a64_run k t = Some t' \<and> handler_sets_hop 0x100 0x6000 t t' \<and> closure_ready 0x5000 0x3000 0x1000 0x2000 0x100 t'"
    if t: "pc t = 0x3000" "gpr t 0 = 0x100" "\<forall>x. outside 0x100 416 x \<longrightarrow> mem t x = mem demo_closure_state x" for t
  proof -
    let ?u = "goto (gpr t 30) (st 8 (0x100 + 160) (0x6000 :: u64) (wX 17 0x6000 t))"
    have "loaded t 0x3000 (wbytes demo_handler)" using demo_closure(2,3) t(3) by (simp add: loaded_def code_outside_def)
    from demo_handler_runs [OF this t(1,2) demo_closure(3)] have "a64_run 6 t = Some ?u" .
    moreover have "mem ?u x = mem demo_closure_state x" if "outside 0x100 416 x" for x
      using t(3) that st_outside [of 160 8 416 "0x100" x "0x6000 :: u64" "wX 17 0x6000 t"] by simp
    then have "closure_ready 0x5000 0x3000 0x1000 0x2000 0x100 ?u" by (rule closure_ready_mem [OF demo_closure(1)])
    moreover have "handler_sets_hop 0x100 0x6000 t ?u"
      by (simp add: handler_sets_hop_def set_routing_bridge_next_hop_def ctx_x_def TMP_REG_0_def X_def goto_def st_def wX_def)
    ultimately show ?thesis by blast
  qed
  from closure_trampoline_transparent [OF demo_closure(1) s(1,2), of "0x6000", OF this] obtain n u where
    "a64_run n demo_closure_state = Some u" "pc u = 0x6000" "sp u = sp demo_closure_state"
    "\<forall>r \<le> 30. r \<noteq> 17 \<longrightarrow> gpr u r = gpr demo_closure_state r" "\<forall>q < 8. vreg u q = vreg demo_closure_state q"
    by blast
  with s show ?thesis by (intro exI [of _ n] exI [of _ u]) simp
qed

end
