(* ===== verification/Interceptor.thy ===== *)
theory Interceptor
  imports Arm64_Closure
begin

text \<open>
  The public operations of the library on ARM64 Android: \<^verbatim>\<open>DobbyHook\<close>, \<^verbatim>\<open>DobbyInstrument\<close> and
  \<^verbatim>\<open>DobbyDestroy\<close>, with the registry of intercepted addresses (\<^verbatim>\<open>Interceptor.cpp\<close>), the routing
  objects (\<^verbatim>\<open>InterceptRouting.cpp\<close>, \<^verbatim>\<open>FunctionInlineHook\<close>, \<^verbatim>\<open>InstructionInstrument\<close>) and the
  near-branch plugin. A routing object is embedded in the entry that points to it; the pointer back from the routing to
  its entry is left implicit. What the loader and the heap decide (addresses of functions and of new objects, the
  contents of uninitialised memory) is the parameter \<open>host\<close>.
\<close>

subsection \<open>Entries and routings (InterceptEntry.h, InterceptRouting.h)\<close>

datatype InterceptEntryType = kFunctionInlineHook | kInstructionInstrument

datatype routing_kind =
    FunctionInlineHookRouting (replace_func: addr)
  | InstructionInstrumentRouting (pre_handler: addr) (post_handler: addr)

record InterceptRouting =
  origin_block :: "MemBlock option"
  relocated_block :: "MemBlock option"
  trampoline_buffer :: "code_buffer option"
  trampoline_target :: addr
  kind_of :: routing_kind

record InterceptEntry =
  entry_id :: u32
  entry_type :: InterceptEntryType
  entry_routing :: "InterceptRouting option"
  patched_addr :: addr
  patched_size :: u32
  relocated_addr :: addr
  relocated_size :: u32
  origin_insns :: "u8 list"
  origin_insn_size :: u32
  thumb_mode :: bool

record host =
  h_kernel :: kernel
  h_full_fp :: bool
  h_bridge_handler :: addr
  h_instrument_dispatch :: addr
  h_tramp_entry :: addr
  h_entry :: addr
  h_fresh :: InterceptEntry

record dobby =
  dm :: machine
  entries :: "InterceptEntry list"
  near_branch_trampoline :: bool
  bridge_ptr :: addr

subsection \<open>The registry (Interceptor.cpp)\<close>

fun find_entry :: "InterceptEntry list \<Rightarrow> addr \<Rightarrow> InterceptEntry option" where
  "find_entry [] a = None"
| "find_entry (e # es) a = (if patched_addr e = a then Some e else find_entry es a)"

definition add_entry :: "InterceptEntry \<Rightarrow> InterceptEntry list \<Rightarrow> InterceptEntry list" where
  "add_entry e es = es @ [e]"

fun remove_entry :: "addr \<Rightarrow> InterceptEntry list \<Rightarrow> InterceptEntry list" where
  "remove_entry a [] = []"
| "remove_entry a (e # es) = (if patched_addr e = a then es else e # remove_entry a es)"

definition getEntry :: "InterceptEntry list \<Rightarrow> nat \<Rightarrow> InterceptEntry option" where
  "getEntry es i = (if i < length es then Some (es ! i) else None)"

definition count_entries :: "InterceptEntry list \<Rightarrow> nat" where
  "count_entries es = length es"

text \<open>The constructor sets three fields; the others keep what the fresh memory holds. (\<open>thumb_mode\<close> is for 32-bit ARM only.)\<close>

definition InterceptEntry :: "InterceptEntry \<Rightarrow> InterceptEntryType \<Rightarrow> addr \<Rightarrow> InterceptEntry list \<Rightarrow> InterceptEntry" where
  "InterceptEntry fresh ty address es =
     fresh\<lparr>entry_type := ty, patched_addr := address, entry_id := of_nat (count_entries es)\<rparr>"

definition InterceptRouting :: "routing_kind \<Rightarrow> InterceptRouting" where
  "InterceptRouting kd = \<lparr>origin_block = None, relocated_block = None, trampoline_buffer = None, trampoline_target = 0, kind_of = kd\<rparr>"

subsection \<open>Relocating a prologue in place (InstructionRelocationARM64.cc)\<close>

text \<open>Reading \<open>n\<close> bytes through a pointer.\<close>

definition read_mem :: "addr \<Rightarrow> nat \<Rightarrow> process \<Rightarrow> crash + u8 list" where
  "read_mem a n p =
     (if list_all (\<lambda>i. has_prot PROT_READ p (a + of_nat i)) [0..<n]
      then Inr (map (\<lambda>i. memory p (a + of_nat i)) [0..<n]) else Inl Segv)"

definition reloc_ctx :: "u8 list \<Rightarrow> MemBlock \<Rightarrow> MemBlock \<Rightarrow> relo_ctx" where
  "reloc_ctx buffer origin relocated = \<lparr>ctx_buffer = buffer, ctx_cursor = 0, ctx_buffer_size = unat (mr_size origin),
     ctx_src_vmaddr = blk_addr origin, ctx_dst_vmaddr = blk_addr relocated, relocated_offset_map = []\<rparr>"

definition GenRelocateCode ::
    "kernel \<Rightarrow> addr \<Rightarrow> MemBlock \<Rightarrow> MemBlock \<Rightarrow> bool \<Rightarrow> machine \<Rightarrow> crash + (MemBlock \<times> MemBlock \<times> machine)" where
  "GenRelocateCode k buffer origin relocated branch m =
     bind_res (read_mem buffer (unat (mr_size origin)) (proc m)) (\<lambda>bytes.
     case relo_relocate (reloc_ctx bytes origin relocated) (blk_addr origin) branch of None \<Rightarrow> Inl Fatal
     | Some (ctx', new_origin_len, a) \<Rightarrow>
         let origin' = MemBlock_reset origin (blk_addr origin) (of_nat new_origin_len) in
         bind_res (FinalizeFromTurboAssembler k a m) (\<lambda>(code, _, m').
           Inr (origin', MemBlock_reset relocated (blk_addr code) (mr_size code), m')))"

definition GenRelocateCodeAndBranch ::
    "kernel \<Rightarrow> addr \<Rightarrow> MemBlock \<Rightarrow> MemBlock \<Rightarrow> machine \<Rightarrow> crash + (MemBlock \<times> MemBlock \<times> machine)" where
  "GenRelocateCodeAndBranch k buffer origin relocated m = GenRelocateCode k buffer origin relocated True m"

subsection \<open>Routing (InterceptRouting.cpp)\<close>

text \<open>The near-branch plugin; it leaves the buffer unset when no near memory was found.\<close>

definition plugin_GenerateTrampolineBuffer ::
    "kernel \<Rightarrow> addr \<Rightarrow> addr \<Rightarrow> InterceptRouting \<Rightarrow> machine \<Rightarrow> crash + (bool \<times> InterceptRouting \<times> machine)" where
  "plugin_GenerateTrampolineBuffer k src dst r m =
     bind_res (GenerateNearTrampolineBuffer k src dst m) (\<lambda>(buf, m').
       case buf of None \<Rightarrow> Inr (False, r, m') | Some b \<Rightarrow> Inr (True, r\<lparr>trampoline_buffer := Some b\<rparr>, m'))"

definition GenerateTrampolineBuffer ::
    "kernel \<Rightarrow> bool \<Rightarrow> addr \<Rightarrow> addr \<Rightarrow> InterceptRouting \<Rightarrow> machine \<Rightarrow> crash + (InterceptRouting \<times> machine)" where
  "GenerateTrampolineBuffer k near src dst r m =
     bind_res (if near then bind_res (plugin_GenerateTrampolineBuffer k src dst r m) (\<lambda>(_, r', m'). Inr (r', m')) else Inr (r, m))
       (\<lambda>(r', m'). case trampoline_buffer r' of
          None \<Rightarrow> Inr (r'\<lparr>trampoline_buffer := GenerateNormalTrampolineBuffer src dst\<rparr>, m')
        | Some _ \<Rightarrow> Inr (r', m'))"

text \<open>The array of the entry holds 256 bytes; a longer prologue would be copied past its end.\<close>

definition GenerateRelocatedCode ::
    "kernel \<Rightarrow> InterceptEntry \<Rightarrow> InterceptRouting \<Rightarrow> machine \<Rightarrow> crash + (bool \<times> InterceptEntry \<times> InterceptRouting \<times> machine)" where
  "GenerateRelocatedCode k e r m =
     (case trampoline_buffer r of None \<Rightarrow> Inl NullDeref
      | Some buf \<Rightarrow>
          let tramp_size = of_nat (GetBufferSize buf) :: u32;
              origin = MemBlock (patched_addr e) (ucast tramp_size);
              relocated = MemBlock 0 0 in
          bind_res (GenRelocateCodeAndBranch k (patched_addr e) origin relocated m) (\<lambda>(origin, relocated, m1).
            let r1 = r\<lparr>origin_block := Some origin, relocated_block := Some relocated\<rparr> in
            if mr_size relocated = 0 then Inr (False, e, r1, m1)
            else bind_res (read_mem (blk_addr origin) (unat (mr_size origin)) (proc m1)) (\<lambda>bytes.
              if 256 < length bytes then Inl Segv
              else Inr (True, e\<lparr>relocated_addr := blk_addr relocated,
                       origin_insns := bytes @ drop (length bytes) (origin_insns e),
                       origin_insn_size := ucast (mr_size origin)\<rparr>, r1, m1))))"

definition Active :: "InterceptEntry \<Rightarrow> InterceptRouting \<Rightarrow> machine \<Rightarrow> crash + machine" where
  "Active e r m =
     (case trampoline_buffer r of None \<Rightarrow> Inl NullDeref
      | Some buf \<Rightarrow> bind_res (patch_machine (patched_addr e) (GetBuffer buf) m) (\<lambda>(_, m'). Inr m'))"

definition Commit :: "InterceptEntry \<Rightarrow> InterceptRouting \<Rightarrow> machine \<Rightarrow> crash + machine" where
  "Commit e r m = Active e r m"

subsection \<open>Inline hooks (FunctionInlineHook)\<close>

definition hook_BuildRouting :: "host \<Rightarrow> bool \<Rightarrow> InterceptEntry \<Rightarrow> InterceptRouting \<Rightarrow> machine \<Rightarrow> crash + (InterceptRouting \<times> machine)" where
  "hook_BuildRouting h near e r m =
     (let r1 = r\<lparr>trampoline_target := replace_func (kind_of r)\<rparr>;
          from = patched_addr e; to = trampoline_target r1 in
      GenerateTrampolineBuffer (h_kernel h) near from to r1 m)"

text \<open>The result of \<^verbatim>\<open>GenerateRelocatedCode\<close> is not looked at.\<close>

definition hook_DispatchRouting ::
    "host \<Rightarrow> bool \<Rightarrow> InterceptEntry \<Rightarrow> InterceptRouting \<Rightarrow> machine \<Rightarrow> crash + (InterceptEntry \<times> InterceptRouting \<times> machine)" where
  "hook_DispatchRouting h near e r m =
     bind_res (hook_BuildRouting h near e r m) (\<lambda>(r1, m1).
     bind_res (GenerateRelocatedCode (h_kernel h) e r1 m1) (\<lambda>(_, e', r2, m2). Inr (e', r2, m2)))"

definition set_page_executable :: "addr \<Rightarrow> machine \<Rightarrow> bool \<times> machine" where
  "set_page_executable address m =
     (let ps = OSMemory_PageSize (proc m);
          (ok, p) = OSMemory_SetPermission (ALIGN_FLOOR address ps) ps kReadExecute (proc m) in
      (ok, m\<lparr>proc := p\<rparr>))"

text \<open>The result: the return value, the value stored through \<^verbatim>\<open>origin_func\<close> when it was stored, and the state.\<close>

definition DobbyHook :: "host \<Rightarrow> addr \<Rightarrow> addr \<Rightarrow> dobby \<Rightarrow> crash + (int \<times> addr option \<times> dobby)" where
  "DobbyHook h address replace d =
     (if address = 0 then Inr (-1, None, d)
      else let (ok, m0) = set_page_executable address (dm d); d0 = d\<lparr>dm := m0\<rparr> in
      if \<not> ok then Inr (-1, None, d0)
      else case find_entry (entries d0) address of Some _ \<Rightarrow> Inr (-1, None, d0)
      | None \<Rightarrow>
          let e = InterceptEntry (h_fresh h) kFunctionInlineHook address (entries d0);
              r = InterceptRouting (FunctionInlineHookRouting replace) in
          bind_res (hook_DispatchRouting h (near_branch_trampoline d0) e r m0) (\<lambda>(e1, r1, m1).
          bind_res (Commit e1 r1 m1) (\<lambda>m2.
            Inr (0, Some (relocated_addr e1),
              d0\<lparr>dm := m2, entries := add_entry (e1\<lparr>entry_routing := Some r1\<rparr>) (entries d0)\<rparr>))))"

subsection \<open>Instruction instrumentation (InstructionInstrument)\<close>

definition instrument_BuildRouting ::
    "host \<Rightarrow> bool \<Rightarrow> addr \<Rightarrow> InterceptEntry \<Rightarrow> InterceptRouting \<Rightarrow> machine \<Rightarrow> crash + (InterceptRouting \<times> addr \<times> machine)" where
  "instrument_BuildRouting h near bridge e r m =
     bind_res (CreateClosureTrampoline (h_full_fp h) (h_bridge_handler h) (h_kernel h) (h_tramp_entry h) bridge
                 (h_entry h) (h_instrument_dispatch h) m) (\<lambda>(closure_trampoline, bridge', m1).
     let r1 = r\<lparr>trampoline_target := cte_address closure_trampoline\<rparr>;
         from = patched_addr e; to = trampoline_target r1 in
     bind_res (GenerateTrampolineBuffer (h_kernel h) near from to r1 m1) (\<lambda>(r2, m2). Inr (r2, bridge', m2)))"

definition instrument_DispatchRouting ::
    "host \<Rightarrow> bool \<Rightarrow> addr \<Rightarrow> InterceptEntry \<Rightarrow> InterceptRouting \<Rightarrow> machine \<Rightarrow>
     crash + (InterceptEntry \<times> InterceptRouting \<times> addr \<times> machine)" where
  "instrument_DispatchRouting h near bridge e r m =
     bind_res (instrument_BuildRouting h near bridge e r m) (\<lambda>(r1, bridge', m1).
     bind_res (GenerateRelocatedCode (h_kernel h) e r1 m1) (\<lambda>(_, e', r2, m2). Inr (e', r2, bridge', m2)))"

definition DobbyInstrument :: "host \<Rightarrow> addr \<Rightarrow> addr \<Rightarrow> dobby \<Rightarrow> crash + (int \<times> dobby)" where
  "DobbyInstrument h address pre d =
     (if address = 0 then Inr (-1, d)
      else let (ok, m0) = set_page_executable address (dm d); d0 = d\<lparr>dm := m0\<rparr> in
      if \<not> ok then Inr (-1, d0)
      else case find_entry (entries d0) address of Some _ \<Rightarrow> Inr (-1, d0)
      | None \<Rightarrow>
          let e = InterceptEntry (h_fresh h) kInstructionInstrument address (entries d0);
              r = InterceptRouting (InstructionInstrumentRouting pre 0) in
          bind_res (instrument_DispatchRouting h (near_branch_trampoline d0) (bridge_ptr d0) e r m0) (\<lambda>(e1, r1, bridge', m1).
          bind_res (Commit e1 r1 m1) (\<lambda>m2.
            Inr (0, d0\<lparr>dm := m2, bridge_ptr := bridge',
              entries := add_entry (e1\<lparr>entry_routing := Some r1\<rparr>) (entries d0)\<rparr>))))"

text \<open>
  The C side of the bridge (\<^verbatim>\<open>common_bridge_handler.cc\<close>, \<^verbatim>\<open>instrument_routing_handler.cc\<close>): the user's callback is
  the parameter \<open>call\<close>.
\<close>

definition instrument_forward_handler ::
    "(addr \<Rightarrow> addr \<Rightarrow> addr \<Rightarrow> a64_state \<Rightarrow> a64_state) \<Rightarrow> InterceptEntry \<Rightarrow> addr \<Rightarrow> a64_state \<Rightarrow> a64_state" where
  "instrument_forward_handler call e ctx s =
     (let s1 = (case entry_routing e of
          Some r \<Rightarrow> (case kind_of r of
              InstructionInstrumentRouting pre _ \<Rightarrow> if pre \<noteq> 0 then call pre (patched_addr e) ctx s else s
            | _ \<Rightarrow> s)
        | None \<Rightarrow> s)
      in set_routing_bridge_next_hop ctx (relocated_addr e) s1)"

subsection \<open>Removal (dobby.cpp) and the plugin switch (NearBranchTrampoline.cc)\<close>

definition DobbyDestroy :: "addr \<Rightarrow> dobby \<Rightarrow> crash + (int \<times> dobby)" where
  "DobbyDestroy address d =
     (case find_entry (entries d) address of
        Some e \<Rightarrow>
          bind_res (patch_machine address (take (unat (origin_insn_size e)) (origin_insns e)) (dm d)) (\<lambda>(_, m).
            Inr (0, d\<lparr>dm := m, entries := remove_entry address (entries d)\<rparr>))
      | None \<Rightarrow> Inr (-1, d))"

definition dobby_enable_near_branch_trampoline :: "dobby \<Rightarrow> dobby" where
  "dobby_enable_near_branch_trampoline d = d\<lparr>near_branch_trampoline := True\<rparr>"

definition dobby_disable_near_branch_trampoline :: "dobby \<Rightarrow> dobby" where
  "dobby_disable_near_branch_trampoline d = d\<lparr>near_branch_trampoline := False\<rparr>"

subsection \<open>The contract of the registry\<close>

text \<open>
  A registry of entries under keys, seen as a finite map. The client lemmas are about any sequence of guarded
  insertions and deletions.
\<close>

datatype ('k, 'e) registry_op = Register 'e | Unregister 'k

locale hook_registry =
  fixes lookup :: "'r \<Rightarrow> 'k \<Rightarrow> 'e option"
    and insert_entry :: "'e \<Rightarrow> 'r \<Rightarrow> 'r"
    and delete_entry :: "'k \<Rightarrow> 'r \<Rightarrow> 'r"
    and key :: "'e \<Rightarrow> 'k"
    and ok :: "'r \<Rightarrow> bool"
  assumes lookup_insert: "ok r \<Longrightarrow> lookup r (key e) = None \<Longrightarrow> lookup (insert_entry e r) = (lookup r)(key e \<mapsto> e)"
    and lookup_delete: "ok r \<Longrightarrow> lookup (delete_entry k r) = (lookup r)(k := None)"
    and ok_insert: "ok r \<Longrightarrow> lookup r (key e) = None \<Longrightarrow> ok (insert_entry e r)"
    and ok_delete: "ok r \<Longrightarrow> ok (delete_entry k r)"
begin

fun apply_op :: "('k, 'e) registry_op \<Rightarrow> 'r \<Rightarrow> 'r" where
  "apply_op (Register e) r = (if lookup r (key e) = None then insert_entry e r else r)"
| "apply_op (Unregister k) r = delete_entry k r"

fun map_op :: "('k, 'e) registry_op \<Rightarrow> ('k \<rightharpoonup> 'e) \<Rightarrow> ('k \<rightharpoonup> 'e)" where
  "map_op (Register e) m = (if m (key e) = None then m(key e \<mapsto> e) else m)"
| "map_op (Unregister k) m = m(k := None)"

lemma op_refines: "ok r \<Longrightarrow> ok (apply_op p r) \<and> lookup (apply_op p r) = map_op p (lookup r)"
  by (cases p) (auto simp: lookup_insert lookup_delete ok_insert ok_delete)

lemma ops_refine: "ok r \<Longrightarrow> ok (fold apply_op ps r) \<and> lookup (fold apply_op ps r) = fold map_op ps (lookup r)"
  by (induction ps arbitrary: r) (simp_all add: op_refines)

lemma delete_insert: "ok r \<Longrightarrow> lookup r (key e) = None \<Longrightarrow> lookup (delete_entry (key e) (insert_entry e r)) = lookup r"
  by (auto simp: lookup_insert lookup_delete ok_insert)

end

lemma find_entry_set: "find_entry es a = None \<longleftrightarrow> a \<notin> patched_addr ` set es"
  by (induction es) auto

lemma find_add: "find_entry (add_entry e es) a = (if find_entry es a = None \<and> patched_addr e = a then Some e else find_entry es a)"
  unfolding add_entry_def by (induction es) auto

lemma set_remove: "set (remove_entry a es) \<subseteq> set es"
  by (induction es) auto

lemma distinct_remove: "distinct (map patched_addr es) \<Longrightarrow> distinct (map patched_addr (remove_entry a es))"
  using set_remove by (induction es) fastforce+

lemma find_remove: "distinct (map patched_addr es) \<Longrightarrow> find_entry (remove_entry a es) b = (if a = b then None else find_entry es b)"
  by (induction es) (auto simp: find_entry_set)

lemma distinct_add:
  "distinct (map patched_addr es) \<Longrightarrow> find_entry es (patched_addr e) = None \<Longrightarrow> distinct (map patched_addr (add_entry e es))"
  by (auto simp: add_entry_def find_entry_set)

interpretation interceptor: hook_registry find_entry add_entry remove_entry patched_addr "\<lambda>es. distinct (map patched_addr es)"
  by unfold_locales (auto simp: fun_eq_iff find_add find_remove distinct_remove distinct_add)

lemma remove_add: "find_entry es (patched_addr e) = None \<Longrightarrow> remove_entry (patched_addr e) (add_entry e es) = es"
  unfolding add_entry_def by (induction es) auto

subsection \<open>The calls and their effect on the registry\<close>

datatype api_call = Hook addr addr | Instrument addr addr | Destroy addr | EnableNear | DisableNear

fun api :: "host \<Rightarrow> api_call \<Rightarrow> dobby \<Rightarrow> crash + (int \<times> dobby)" where
  "api h (Hook a f) d = bind_res (DobbyHook h a f d) (\<lambda>(r, _, d'). Inr (r, d'))"
| "api h (Instrument a f) d = DobbyInstrument h a f d"
| "api h (Destroy a) d = DobbyDestroy a d"
| "api h EnableNear d = Inr (0, dobby_enable_near_branch_trampoline d)"
| "api h DisableNear d = Inr (0, dobby_disable_near_branch_trampoline d)"

text \<open>The states that calls can reach from a process where the library was just loaded.\<close>

inductive reachable :: "dobby \<Rightarrow> bool" where
  loaded_lib: "entries d = [] \<Longrightarrow> reachable d"
| call: "reachable d \<Longrightarrow> api h c d = Inr (r, d') \<Longrightarrow> reachable d'"

lemma relocated_entry:
  "GenerateRelocatedCode k e r m = Inr (b, e', r', m') \<Longrightarrow> patched_addr e' = patched_addr e \<and> entry_type e' = entry_type e"
  by (auto simp: GenerateRelocatedCode_def Let_def bind_res_Inr_iff split: option.splits if_splits)

lemma set_page_memory: "set_page_executable a m = (ok, m') \<Longrightarrow> memory (proc m') = memory (proc m) \<and> allocator m' = allocator m"
  by (auto simp: set_page_executable_def OSMemory_SetPermission_def Let_def split: prod.splits)
    (metis mprotect_simps(2) snd_conv)

lemma DobbyHook_registry:
  assumes "DobbyHook h a f d = Inr (r, o', d')"
  shows "r = -1 \<and> o' = None \<and> entries d' = entries d \<and> memory (proc (dm d')) = memory (proc (dm d)) \<or>
    r = 0 \<and> a \<noteq> 0 \<and> find_entry (entries d) a = None \<and>
    (\<exists>e. patched_addr e = a \<and> entry_type e = kFunctionInlineHook \<and> entries d' = add_entry e (entries d))"
proof (cases "a = 0 \<or> \<not> fst (set_page_executable a (dm d)) \<or> find_entry (entries d) a \<noteq> None")
  case True
  then show ?thesis using assms set_page_memory [of a "dm d"]
    by (cases "set_page_executable a (dm d)") (auto simp: DobbyHook_def Let_def split: option.splits if_splits)
next
  case False
  obtain ok m0 where sp: "set_page_executable a (dm d) = (ok, m0)" by (cases "set_page_executable a (dm d)")
  with False assms obtain e1 r1 m1 m2 where
    "hook_DispatchRouting h (near_branch_trampoline d) (InterceptEntry (h_fresh h) kFunctionInlineHook a (entries d))
       (InterceptRouting (FunctionInlineHookRouting f)) m0 = Inr (e1, r1, m1)"
    "r = 0" "d' = d\<lparr>dm := m2, entries := add_entry (e1\<lparr>entry_routing := Some r1\<rparr>) (entries d)\<rparr>"
    by (auto simp: DobbyHook_def bind_res_Inr_iff)
  moreover from this have "patched_addr e1 = a \<and> entry_type e1 = kFunctionInlineHook"
    by (auto simp: hook_DispatchRouting_def bind_res_Inr_iff InterceptEntry_def dest: relocated_entry)
  ultimately show ?thesis using False by (auto intro!: exI [of _ "e1\<lparr>entry_routing := Some r1\<rparr>"])
qed

lemma DobbyInstrument_registry:
  assumes "DobbyInstrument h a f d = Inr (r, d')"
  shows "r = -1 \<and> entries d' = entries d \<and> memory (proc (dm d')) = memory (proc (dm d)) \<or>
    r = 0 \<and> a \<noteq> 0 \<and> find_entry (entries d) a = None \<and>
    (\<exists>e. patched_addr e = a \<and> entry_type e = kInstructionInstrument \<and> entries d' = add_entry e (entries d))"
proof (cases "a = 0 \<or> \<not> fst (set_page_executable a (dm d)) \<or> find_entry (entries d) a \<noteq> None")
  case True
  then show ?thesis using assms set_page_memory [of a "dm d"]
    by (cases "set_page_executable a (dm d)") (auto simp: DobbyInstrument_def Let_def split: option.splits if_splits)
next
  case False
  obtain ok m0 where sp: "set_page_executable a (dm d) = (ok, m0)" by (cases "set_page_executable a (dm d)")
  with False assms obtain e1 r1 b m1 m2 where
    "instrument_DispatchRouting h (near_branch_trampoline d) (bridge_ptr d) (InterceptEntry (h_fresh h) kInstructionInstrument a (entries d))
       (InterceptRouting (InstructionInstrumentRouting f 0)) m0 = Inr (e1, r1, b, m1)"
    "r = 0" "d' = d\<lparr>dm := m2, bridge_ptr := b, entries := add_entry (e1\<lparr>entry_routing := Some r1\<rparr>) (entries d)\<rparr>"
    by (auto simp: DobbyInstrument_def bind_res_Inr_iff)
  moreover from this have "patched_addr e1 = a \<and> entry_type e1 = kInstructionInstrument"
    by (auto simp: instrument_DispatchRouting_def bind_res_Inr_iff InterceptEntry_def dest: relocated_entry)
  ultimately show ?thesis using False by (auto intro!: exI [of _ "e1\<lparr>entry_routing := Some r1\<rparr>"])
qed

lemma DobbyDestroy_registry:
  assumes "DobbyDestroy a d = Inr (r, d')"
  shows "find_entry (entries d) a = None \<and> r = -1 \<and> d' = d \<or>
    find_entry (entries d) a \<noteq> None \<and> r = 0 \<and> entries d' = remove_entry a (entries d)"
  using assms by (auto simp: DobbyDestroy_def bind_res_Inr_iff split: option.splits)

subsection \<open>The effect of a hook\<close>

text \<open>The original instructions, and the code a hook generates from them.\<close>

definition prologue :: "machine \<Rightarrow> addr \<Rightarrow> nat \<Rightarrow> u8 list" where
  "prologue m a n = map (\<lambda>i. memory (proc m) (a + of_nat i)) [0..<n]"

definition hook_code :: "addr \<Rightarrow> addr \<Rightarrow> machine \<Rightarrow> (u8 list \<times> relo_ctx \<times> nat \<times> assembler) option" where
  "hook_code a to m = (case GenerateNormalTrampolineBuffer a to of None \<Rightarrow> None
     | Some b \<Rightarrow> map_option (Pair b)
         (relo_relocate (reloc_ctx (prologue m a (length b)) (MemBlock a (of_nat (length b))) (MemBlock 0 0)) a True))"

lemma has_prot_read: "has_prot PROT_READ p x \<Longrightarrow> prot_at p x \<noteq> None"
  by (auto simp: has_prot_def split: option.splits)

lemma has_prot_rx: "prot_at p x = Some (PROT_READ OR PROT_EXEC) \<Longrightarrow> has_prot PROT_READ p x"
  by (simp add: has_prot_def prot_defs)

lemma arena_page:
  assumes "machine_ok m" "A \<in> set (all_arenas m)" "ALIGN_FLOOR x (page_size (proc m)) = ALIGN_FLOOR y (page_size (proc m))"
  shows "x \<in> arena_span A \<longleftrightarrow> y \<in> arena_span A"
proof -
  obtain k where k: "k < 31" "page_size (proc m) = 2 ^ k" using assms(1) by (auto simp: machine_ok_def page_size_ok_def)
  have A: "arena_ok (page_size (proc m)) A" using assms(1,2) by (simp add: machine_ok_def)
  then have r: "unat (arena_addr A) + unat (mr_size A) \<le> 2 ^ 64" "2 ^ k dvd unat (arena_addr A)" "2 ^ k dvd unat (mr_size A)"
    using k by (auto simp: arena_ok_def unat_page_size)
  have "z \<in> arena_span A \<longleftrightarrow> in_range (arena_addr A) (mr_size A) (ALIGN_FLOOR z (2 ^ k))" for z
    using in_range_floor [of k "arena_addr A" "mr_size A" z] k r in_range_cells [OF r(1)] by (simp add: arena_span_def)
  then show ?thesis using assms(3) k by simp
qed

lemma set_page_ok:
  assumes "machine_ok m" "prot_at (proc m) a \<noteq> None" "\<And>A. A \<in> set (all_arenas m) \<Longrightarrow> a \<notin> arena_span A"
  obtains m0 where "set_page_executable a m = (True, m0)" "machine_ok m0" "memory (proc m0) = memory (proc m)"
    "all_arenas m0 = all_arenas m" "page_size (proc m0) = page_size (proc m)"
    "\<And>x. prot_at (proc m0) x = (if ALIGN_FLOOR x (page_size (proc m)) = ALIGN_FLOOR a (page_size (proc m)) \<and> prot_at (proc m) x \<noteq> None
        then Some (PROT_READ OR PROT_EXEC) else prot_at (proc m) x)"
proof -
  let ?ps = "page_size (proc m)"
  let ?q = "mprotect (ALIGN_FLOOR a ?ps) ?ps (PROT_READ OR PROT_EXEC) (proc m)"
  let ?m0 = "m\<lparr>proc := snd ?q\<rparr>"
  have ps: "page_size_ok ?ps" using assms(1) by (simp add: machine_ok_def)
  then have "(0 :: addr) < ?ps" using unat_page_size by (auto simp: page_size_ok_def word_less_nat_alt)
  then have "fst ?q" using assms(2) by (simp add: mprotect_def page_bases_one prot_at_def)
  then have "set_page_executable a m = (True, ?m0)"
    by (auto simp: set_page_executable_def OSMemory_PageSize_def OSMemory_SetPermission_def Let_def split: prod.splits)
  moreover note pr = prot_at_mprotect_page [OF ps, of a "PROT_READ OR PROT_EXEC"]
  moreover have "machine_ok ?m0"
  proof -
    have "prot_at (snd ?q) x = prot_at (proc m) x" if "A \<in> set (all_arenas m)" "x \<in> arena_span A" for A x
      using pr [of x] arena_page [OF assms(1) that(1), of x a] that(2) assms(3) [OF that(1)] by auto
    then have "prot_at (snd ?q) x = prot_at (proc m) x" if "A \<in> set (arenas_of ex m)" "x \<in> arena_span A" for A x ex
      using that by (auto simp: set_all_arenas)
    moreover have "all_arenas ?m0 = all_arenas m" "arenas_of ex ?m0 = arenas_of ex m" for ex by (simp_all add: all_arenas_def arenas_of_def)
    ultimately show ?thesis using assms(1) unfolding machine_ok_def by simp
  qed
  ultimately show thesis by (intro that [of ?m0]) (simp_all add: all_arenas_def)
qed

lemma read_mem_ok:
  "\<forall>i < n. has_prot PROT_READ (proc m) (a + of_nat i) \<Longrightarrow> read_mem a n (proc m) = Inr (prologue m a n)"
  by (simp add: read_mem_def prologue_def list_all_iff)

lemma prologue_cong: "(\<And>i. i < n \<Longrightarrow> memory (proc m') (a + of_nat i) = memory (proc m) (a + of_nat i)) \<Longrightarrow> prologue m' a n = prologue m a n"
  by (simp add: prologue_def)

lemma emit_blocks_realized: "realized_addr (foldl emit_block a bs) = realized_addr a"
  by (induction bs arbitrary: a) (auto simp: emit_block_def split: option.splits)

lemma reloc_bind_realized: "reloc_bind_loop link a ls = Some a' \<Longrightarrow> realized_addr a' = realized_addr a"
  by (induction ls arbitrary: a) (auto simp: PseudoBind_def Let_def split: option.splits if_splits)

lemma relocate_realized: "relo_relocate ctx org br = Some (ctx', n, a) \<Longrightarrow> ctx_cursor ctx = 0 \<Longrightarrow> relocated_offset_map ctx = [] \<Longrightarrow> realized_addr a = 0"
  using relocate_blocks [of ctx org br ctx' n a]
  by (auto simp: RelocBind_def AssemblerBase_def emit_blocks_realized dest!: reloc_bind_realized)

lemma hook_code_parts:
  assumes "hook_code a f m = Some (b, ctx', n, asm)" "length (asm_buffer asm) < 2 ^ 20"
  shows "GenerateNormalTrampolineBuffer a f = Some b" "length b \<in> {12, 16}" "n = length b" "asm_buffer asm \<noteq> []"
    "GetRealizedAddress asm = 0"
    "relo_relocate (reloc_ctx (prologue m a n) (MemBlock a (of_nat n)) (MemBlock 0 0)) a True = Some (ctx', n, asm)"
proof -
  have b: "GenerateNormalTrampolineBuffer a f = Some b"
    and r: "relo_relocate (reloc_ctx (prologue m a (length b)) (MemBlock a (of_nat (length b))) (MemBlock 0 0)) a True = Some (ctx', n, asm)"
    using assms(1) by (auto simp: hook_code_def split: option.splits)
  show "length b \<in> {12, 16}" using b normal_trampoline_block [of a f] by (auto split: if_splits)
  then have sz: "unat (of_nat (length b) :: addr) = length b" by auto
  note rc = relocate_code [OF r _ _ assms(2), unfolded reloc_ctx_def, simplified]
  show n: "n = length b" "asm_buffer asm \<noteq> []" using rc \<open>length b \<in> {12, 16}\<close> sz by auto
  show "GetRealizedAddress asm = 0" using relocate_realized [OF r] by (simp add: reloc_ctx_def GetRealizedAddress_def)
  show "GenerateNormalTrampolineBuffer a f = Some b" by (rule b)
  show "relo_relocate (reloc_ctx (prologue m a n) (MemBlock a (of_nat n)) (MemBlock 0 0)) a True = Some (ctx', n, asm)"
    using r n(1) by simp
qed

lemma MemBlock_reset_simps: "blk_addr (MemBlock_reset b a n) = a" "mr_size (MemBlock_reset b a n) = n"
  by (simp_all add: MemBlock_reset_def MemRange_reset_def)

text \<open>The prologue is readable and apart from the library's memory; the code is small and its block was provided.\<close>

definition prologue_ok :: "addr \<Rightarrow> machine \<Rightarrow> bool" where
  "prologue_ok a m \<longleftrightarrow> unat a + 16 < 2 ^ 64 \<and> 16 \<le> unat (page_size (proc m)) \<and>
     (\<forall>i < 16. has_prot PROT_READ (proc m) (a + of_nat i)) \<and>
     (\<forall>A \<in> set (all_arenas m). \<forall>i < 16. a + of_nat i \<notin> arena_span A)"

definition code_room :: "kernel \<Rightarrow> assembler \<Rightarrow> machine \<Rightarrow> MemBlock \<Rightarrow> bool" where
  "code_room k a m blk \<longleftrightarrow> length (asm_buffer a) \<le> unat (page_size (proc m)) \<and> length (asm_buffer a) < 2 ^ 20 \<and>
     (case allocateExecBlock k (of_nat (length (asm_buffer a))) m of Inr (b, m1) \<Rightarrow> b = blk \<and> granted m1 | Inl _ \<Rightarrow> False)"

lemma relocate_prologue:
  assumes m: "machine_ok m" and K: "kernel_mmap (k_mmap k)" and P: "prologue_ok a m"
    and c: "hook_code a f m = Some (b, ctx', n, asm)" and R: "code_room k asm m blk"
    and e: "patched_addr e = a" and t: "trampoline_buffer r = Some b"
  defines "L \<equiv> length (asm_buffer asm)"
  obtains e' r' m' where "GenerateRelocatedCode k e r m = Inr (True, e', r', m')"
    "patched_addr e' = a" "entry_type e' = entry_type e" "relocated_addr e' = blk_addr blk"
    "take n (origin_insns e') = prologue m a n" "unat (origin_insn_size e') = n" "trampoline_buffer r' = Some b"
    "\<And>i. i < L \<Longrightarrow> memory (proc m') (blk_addr blk + of_nat i) = asm_buffer asm ! i"
    "\<And>i. i < 16 \<Longrightarrow> a + of_nat i \<notin> block_cells blk" "block_cells blk = cells (blk_addr blk) (of_nat L)"
    "unat (blk_addr blk) + L < 2 ^ 64" "page_size (proc m') = page_size (proc m)"
    "\<And>x. prot_at (proc m) x \<noteq> None \<Longrightarrow> x \<notin> block_cells blk \<Longrightarrow> memory (proc m') x = memory (proc m) x"
    "\<And>i. i < 16 \<Longrightarrow> has_prot PROT_READ (proc m') (a + of_nat i)"
proof -
  obtain m1 where R': "L \<le> unat (page_size (proc m))" "L < 2 ^ 20" "allocateExecBlock k (of_nat L) m = Inr (blk, m1)" "granted m1"
    using R by (auto simp: code_room_def L_def split: sum.splits)
  note hc = hook_code_parts [OF c R'(2) [unfolded L_def]]
  have rd: "has_prot PROT_READ (proc m) (a + of_nat i)" if "i < 16" for i using P that by (simp add: prologue_ok_def)
  have n: "n \<le> 16" "length b = n" "unat (of_nat n :: u32) = n" "unat (of_nat n :: addr) = n"
      "ucast (of_nat n :: u32) = (of_nat n :: addr)" "ucast (of_nat n :: addr) = (of_nat n :: u32)"
    using hc(2,3) by auto
  obtain m' where m': "FinalizeFromTurboAssembler k asm m = Inr (MemBlock (blk_addr blk) (of_nat L), SetRealizedAddress asm (blk_addr blk), m')"
    "memory (proc m') = poke (blk_addr blk) (asm_buffer asm) (memory (proc m1))" "page_size (proc m') = page_size (proc m)"
    "unat (blk_addr blk) + L < 2 ^ 64" "block_cells blk = cells (blk_addr blk) (of_nat L)" "L < 2 ^ 31"
    "\<And>x. prot_at (proc m) x \<noteq> None \<Longrightarrow> prot_at (proc m') x \<in> {prot_at (proc m) x, Some (PROT_READ OR PROT_EXEC)}"
    "\<And>x. prot_at (proc m) x \<noteq> None \<Longrightarrow> x \<notin> block_cells blk \<Longrightarrow> memory (proc m') x = memory (proc m) x"
    using Finalize_frame [OF m K hc(5) R'(3,4,1) [unfolded L_def]] unfolding L_def by metis
  have nb: "a + of_nat i \<notin> block_cells blk" if "i < 16" for i
    using exec_block_where(2) [OF m K R'(3,4)] has_prot_read [OF rd [OF that]] P that by (simp add: prologue_ok_def)
  have rd': "has_prot PROT_READ (proc m') (a + of_nat i)" if "i < 16" for i
    using m'(7) [OF has_prot_read [OF rd [OF that]]] rd [OF that] by (auto simp: has_prot_def prot_defs)
  have P': "prologue m' a n = prologue m a n"
    using m'(8) [OF has_prot_read [OF rd] nb] n(1) by (intro prologue_cong) simp
  let ?e = "e\<lparr>relocated_addr := blk_addr blk, origin_insns := prologue m a n @ drop n (origin_insns e), origin_insn_size := of_nat n\<rparr>"
  let ?o = "MemBlock_reset (MemBlock a (of_nat n)) a (of_nat n)" and ?r = "MemBlock_reset (MemBlock 0 0) (blk_addr blk) (of_nat L)"
  have sz: "(of_nat L :: addr) \<noteq> 0" using hc(4) m'(6) by (simp add: word_unat_eq_iff unat_of_nat L_def)
  have "GenRelocateCodeAndBranch k a (MemBlock a (of_nat n)) (MemBlock 0 0) m = Inr (?o, ?r, m')"
    using read_mem_ok [of n m a] rd n(1,4) hc(6) m'(1) by (simp add: GenRelocateCodeAndBranch_def GenRelocateCode_def)
  moreover have "read_mem a n (proc m') = Inr (prologue m a n)" using read_mem_ok [of n m' a] rd' n(1) P' by simp
  moreover have "length (prologue m a n) = n" by (simp add: prologue_def)
  ultimately have "GenerateRelocatedCode k e r m = Inr (True, ?e, r\<lparr>origin_block := Some ?o, relocated_block := Some ?r\<rparr>, m')"
    using n sz e t by (simp add: GenerateRelocatedCode_def GetBufferSize_def Let_def MemBlock_reset_simps)
  moreover have "memory (proc m') (blk_addr blk + of_nat i) = asm_buffer asm ! i" if "i < L" for i
    using that m'(2,6) by (simp add: poke_inside L_def)
  ultimately show thesis using that e t n(3) nb rd' m'(3-5,8) by (auto simp: prologue_def)
qed

lemma Commit_patches:
  assumes "page_size_ok (page_size (proc m))" "unat a + length b < 2 ^ 64" "length b \<le> unat (page_size (proc m))"
    and "\<And>i. i < length b \<Longrightarrow> prot_at (proc m) (a + of_nat i) \<noteq> None" "patched_addr e = a" "trampoline_buffer r = Some b"
  obtains p where "Commit e r m = Inr (m\<lparr>proc := p\<rparr>)" "memory p = poke a b (memory (proc m))"
    "page_size p = page_size (proc m)" "\<forall>x. prot_at (proc m) x \<noteq> None \<longrightarrow> prot_at p x \<noteq> None"
proof -
  have "\<forall>i < length b. prot_at (proc m) (a + of_nat i) \<noteq> None \<and>
      (patch_page_of (page_size (proc m)) a (length b) (a + of_nat i) \<or> has_prot PROT_WRITE (proc m) (a + of_nat i))"
    using two_pages_cover [OF assms(1-3)] assms(4) by simp
  from DobbyCodePatch_eq [OF assms(1) this] that assms(5,6) show thesis
    by (auto simp: Commit_def Active_def patch_machine_def GetBuffer_def)
qed

text \<open>What a hook needs of the process, with the near-branch plugin off, and its effect.\<close>

definition hook_ready :: "host \<Rightarrow> addr \<Rightarrow> dobby \<Rightarrow> bool" where
  "hook_ready h a d \<longleftrightarrow> machine_ok (dm d) \<and> kernel_mmap (k_mmap (h_kernel h)) \<and> a \<noteq> 0 \<and> prologue_ok a (dm d) \<and>
     find_entry (entries d) a = None \<and> \<not> near_branch_trampoline d"

lemma hook_effect:
  assumes r: "hook_ready h a d" and c: "hook_code a f (dm d) = Some (b, ctx', n, asm)"
    and R: "code_room (h_kernel h) asm (snd (set_page_executable a (dm d))) blk"
  defines "L \<equiv> length (asm_buffer asm)"
  obtains e d' M where "DobbyHook h a f d = Inr (0, Some (blk_addr blk), d')"
    "entries d' = add_entry e (entries d)" "patched_addr e = a" "entry_type e = kFunctionInlineHook"
    "take n (origin_insns e) = prologue (dm d) a n" "unat (origin_insn_size e) = n"
    "memory (proc (dm d')) = poke a b M" "\<And>i. i < L \<Longrightarrow> M (blk_addr blk + of_nat i) = asm_buffer asm ! i"
    "\<And>i. i < 16 \<Longrightarrow> a + of_nat i \<notin> block_cells blk" "block_cells blk = cells (blk_addr blk) (of_nat L)"
    "unat (blk_addr blk) + L < 2 ^ 64"
    "\<And>x. prot_at (proc (dm d)) x \<noteq> None \<Longrightarrow> x \<notin> block_cells blk \<Longrightarrow> M x = memory (proc (dm d)) x"
    "\<And>i. i < 16 \<Longrightarrow> prot_at (proc (dm d')) (a + of_nat i) \<noteq> None" "page_size (proc (dm d')) = page_size (proc (dm d))"
proof -
  let ?m = "dm d" and ?k = "h_kernel h" and ?r0 = "InterceptRouting (FunctionInlineHookRouting f)"
  have ok: "machine_ok ?m" and K: "kernel_mmap (k_mmap ?k)" and a: "a \<noteq> 0" and P: "prologue_ok a ?m"
    and reg: "find_entry (entries d) a = None" "\<not> near_branch_trampoline d"
    using r by (auto simp: hook_ready_def)
  have rd: "has_prot PROT_READ (proc ?m) (a + of_nat i)" if "i < 16" for i using P that by (simp add: prologue_ok_def)
  have "a \<notin> arena_span A" if "A \<in> set (all_arenas ?m)" for A using P that unfolding prologue_ok_def by force
  then obtain m0 where m0: "set_page_executable a ?m = (True, m0)" "machine_ok m0" "memory (proc m0) = memory (proc ?m)"
    "all_arenas m0 = all_arenas ?m" "page_size (proc m0) = page_size (proc ?m)"
    "\<And>x. prot_at (proc m0) x = (if ALIGN_FLOOR x (page_size (proc ?m)) = ALIGN_FLOOR a (page_size (proc ?m)) \<and> prot_at (proc ?m) x \<noteq> None
        then Some (PROT_READ OR PROT_EXEC) else prot_at (proc ?m) x)"
    using set_page_ok [OF ok, of a] rd [of 0] has_prot_read by auto
  have "has_prot PROT_READ (proc m0) (a + of_nat i)" if "i < 16" for i
    using rd [OF that] m0(6) [of "a + of_nat i"] has_prot_rx by (auto simp: has_prot_def split: if_splits)
  then have P0: "prologue_ok a m0" using P m0(4,5) by (simp add: prologue_ok_def)
  have pr: "prologue m0 = prologue ?m" using m0(3) by (simp add: prologue_def fun_eq_iff)
  have c0: "hook_code a f m0 = Some (b, ctx', n, asm)" "prologue m0 a n = prologue ?m a n" using c unfolding hook_code_def pr by simp_all
  have R0: "code_room ?k asm m0 blk" using R m0(1) by simp
  then have "length (asm_buffer asm) < 2 ^ 20" by (simp add: code_room_def)
  note hc = hook_code_parts [OF c this]
  define e0 where "e0 = InterceptEntry (h_fresh h) kFunctionInlineHook a (entries d)"
  define r1 where "r1 = ?r0\<lparr>trampoline_target := f, trampoline_buffer := Some b\<rparr>"
  have e0: "patched_addr e0 = a" "entry_type e0 = kFunctionInlineHook" by (simp_all add: e0_def InterceptEntry_def)
  have br: "hook_BuildRouting h False e0 ?r0 m0 = Inr (r1, m0)"
    using hc(1) e0(1) by (simp add: hook_BuildRouting_def GenerateTrampolineBuffer_def InterceptRouting_def r1_def)
  have r1: "trampoline_buffer r1 = Some b" by (simp add: r1_def)
  show thesis
  proof (rule relocate_prologue [OF m0(2) K P0 c0(1) R0 e0(1) r1, folded L_def])
    fix e1 r2 m2
    assume g: "GenerateRelocatedCode ?k e0 r1 m0 = Inr (True, e1, r2, m2)" "patched_addr e1 = a" "entry_type e1 = entry_type e0"
      "relocated_addr e1 = blk_addr blk" "take n (origin_insns e1) = prologue m0 a n" "unat (origin_insn_size e1) = n"
      "trampoline_buffer r2 = Some b" "\<And>i. i < L \<Longrightarrow> memory (proc m2) (blk_addr blk + of_nat i) = asm_buffer asm ! i"
      "\<And>i. i < 16 \<Longrightarrow> a + of_nat i \<notin> block_cells blk" "block_cells blk = cells (blk_addr blk) (of_nat L)"
      "unat (blk_addr blk) + L < 2 ^ 64" "page_size (proc m2) = page_size (proc m0)"
      "\<And>x. prot_at (proc m0) x \<noteq> None \<Longrightarrow> x \<notin> block_cells blk \<Longrightarrow> memory (proc m2) x = memory (proc m0) x"
      "\<And>i. i < 16 \<Longrightarrow> has_prot PROT_READ (proc m2) (a + of_nat i)"
    have b: "length b \<le> 16" using hc(2) by auto
    then have ps: "page_size_ok (page_size (proc m2))" "unat a + length b < 2 ^ 64" "length b \<le> unat (page_size (proc m2))"
        "\<And>i. i < length b \<Longrightarrow> prot_at (proc m2) (a + of_nat i) \<noteq> None"
      using has_prot_read [OF g(14)] m0(2) g(12) P0 by (simp_all add: machine_ok_def prologue_ok_def)
    obtain p where p: "Commit e1 r2 m2 = Inr (m2\<lparr>proc := p\<rparr>)" "memory p = poke a b (memory (proc m2))"
        "page_size p = page_size (proc m2)" "\<forall>x. prot_at (proc m2) x \<noteq> None \<longrightarrow> prot_at p x \<noteq> None"
      by (rule Commit_patches [OF ps g(2,7)]) blast
    have "hook_DispatchRouting h False e0 ?r0 m0 = Inr (e1, r2, m2)" using br g(1) by (simp add: hook_DispatchRouting_def)
    then have hk: "DobbyHook h a f d = Inr (0, Some (blk_addr blk),
        d\<lparr>dm := m2\<lparr>proc := p\<rparr>, entries := add_entry (e1\<lparr>entry_routing := Some r2\<rparr>) (entries d)\<rparr>)"
      using a m0(1) reg g(4) p(1) by (simp add: DobbyHook_def e0_def)
    have "memory (proc m2) x = memory (proc ?m) x" if "prot_at (proc ?m) x \<noteq> None" "x \<notin> block_cells blk" for x
      using g(13) [of x] that m0(3,6) by auto
    then show thesis
      using g p m0(5) e0(2) c0(2) has_prot_read [OF g(14)]
      by (intro that [OF hk, of "e1\<lparr>entry_routing := Some r2\<rparr>" "memory (proc m2)"]) auto
  qed
qed

text \<open>The registry as a map from addresses to kinds of entries, and what each call may do to it.\<close>

definition hooked :: "dobby \<Rightarrow> addr \<rightharpoonup> InterceptEntryType" where
  "hooked d a = map_option entry_type (find_entry (entries d) a)"

definition registers :: "InterceptEntryType \<Rightarrow> addr \<Rightarrow> int \<Rightarrow> (addr \<rightharpoonup> InterceptEntryType) \<Rightarrow> (addr \<rightharpoonup> InterceptEntryType) \<Rightarrow> bool" where
  "registers ty a r M M' \<longleftrightarrow> r = -1 \<and> M' = M \<or> r = 0 \<and> a \<noteq> 0 \<and> M a = None \<and> M' = M(a \<mapsto> ty)"

fun api_spec :: "api_call \<Rightarrow> int \<Rightarrow> (addr \<rightharpoonup> InterceptEntryType) \<Rightarrow> (addr \<rightharpoonup> InterceptEntryType) \<Rightarrow> bool" where
  "api_spec (Hook a f) r M M' = registers kFunctionInlineHook a r M M'"
| "api_spec (Instrument a f) r M M' = registers kInstructionInstrument a r M M'"
| "api_spec (Destroy a) r M M' = (if M a = None then r = -1 \<and> M' = M else r = 0 \<and> M' = M(a := None))"
| "api_spec _ r M M' = (r = 0 \<and> M' = M)"

lemma registers_add:
  assumes "find_entry (entries d) (patched_addr e) = None" "patched_addr e \<noteq> 0" "entries d' = add_entry e (entries d)"
  shows "registers (entry_type e) (patched_addr e) 0 (hooked d) (hooked d')"
  using assms by (auto simp: registers_def hooked_def find_add fun_eq_iff)

lemma api_step:
  assumes "distinct (map patched_addr (entries d))" "api h c d = Inr (r, d')"
  shows "distinct (map patched_addr (entries d')) \<and> api_spec c r (hooked d) (hooked d')"
proof (cases c)
  case (Hook a f)
  then obtain o' where "DobbyHook h a f d = Inr (r, o', d')" using assms(2) by (auto simp: bind_res_Inr_iff)
  from DobbyHook_registry [OF this] show ?thesis using assms(1) Hook
    by (auto simp: distinct_add registers_def hooked_def find_add fun_eq_iff)
next
  case (Instrument a f)
  then have "DobbyInstrument h a f d = Inr (r, d')" using assms(2) by simp
  from DobbyInstrument_registry [OF this] show ?thesis using assms(1) Instrument
    by (auto simp: distinct_add registers_def hooked_def find_add fun_eq_iff)
next
  case (Destroy a)
  then have "DobbyDestroy a d = Inr (r, d')" using assms(2) by simp
  from DobbyDestroy_registry [OF this] show ?thesis using assms(1) Destroy
    by (auto simp: distinct_remove hooked_def find_remove fun_eq_iff)
qed (use assms in \<open>auto simp: hooked_def dobby_enable_near_branch_trampoline_def dobby_disable_near_branch_trampoline_def\<close>)

lemma reachable_distinct: "reachable d \<Longrightarrow> distinct (map patched_addr (entries d))"
  by (induction rule: reachable.induct) (auto dest: api_step)

subsection \<open>Properties\<close>

text \<open>
  C3: The registry of the interceptor implements a map from addresses to hooks. In every state that calls can reach, no
  two entries have the same address, and each call has the effect of its specification: a hook or an instrumentation
  either fails with -1 and leaves the map, or returns 0 and adds a new non-null address to it;
  \<^verbatim>\<open>DobbyDestroy\<close> removes exactly its address, or fails when that address is not registered; the plugin switch changes nothing.
\<close>
theorem interceptor_refines_map:
  assumes "reachable d" "api h c d = Inr (r, d')"
  shows "distinct (map patched_addr (entries d)) \<and> distinct (map patched_addr (entries d')) \<and>
    api_spec c r (hooked d) (hooked d')"
  using reachable_distinct [OF assms(1)] api_step assms(2) by blast

text \<open>
  C34: The errors of \<^verbatim>\<open>DobbyHook\<close> and \<^verbatim>\<open>DobbyDestroy\<close>. A null address and an address on an
  unmapped page are refused with -1 and nothing changes; an address that is already hooked is refused with -1, no
  pointer is stored, the registry and all of memory stay as they are, but the page has become read-execute;
  destroying an address that is not registered returns -1 and changes nothing.
\<close>
theorem DobbyHook_errors:
  assumes "machine_ok (dm d)"
  shows "DobbyHook h 0 f d = Inr (-1, None, d) \<and>
    (a \<noteq> 0 \<and> prot_at (proc (dm d)) a = None \<longrightarrow> DobbyHook h a f d = Inr (-1, None, d)) \<and>
    (a \<noteq> 0 \<and> prot_at (proc (dm d)) a \<noteq> None \<and> find_entry (entries d) a \<noteq> None \<longrightarrow>
      (\<exists>m'. DobbyHook h a f d = Inr (-1, None, d\<lparr>dm := m'\<rparr>) \<and> memory (proc m') = memory (proc (dm d)) \<and>
        allocator m' = allocator (dm d) \<and> prot_at (proc m') a = Some (PROT_READ OR PROT_EXEC))) \<and>
    (find_entry (entries d) a = None \<longrightarrow> DobbyDestroy a d = Inr (-1, d))"
proof -
  let ?p = "proc (dm d)"
  define q where "q = mprotect (ALIGN_FLOOR a (page_size ?p)) (page_size ?p) (PROT_READ OR PROT_EXEC) ?p"
  have ps: "page_size_ok (page_size ?p)" using assms by (simp add: machine_ok_def)
  then have "(0 :: addr) < page_size ?p" using unat_page_size by (auto simp: page_size_ok_def word_less_nat_alt)
  then have q: "fst q \<longleftrightarrow> prot_at ?p a \<noteq> None" "\<not> fst q \<Longrightarrow> snd q = ?p" "memory (snd q) = memory ?p"
    by (auto simp: q_def mprotect_def page_bases_one prot_at_def split: if_splits)
  have se: "set_page_executable a (dm d) = (fst q, (dm d)\<lparr>proc := snd q\<rparr>)"
    by (simp add: q_def set_page_executable_def OSMemory_PageSize_def OSMemory_SetPermission_def Let_def split: prod.splits)
  have "prot_at (snd q) a = Some (PROT_READ OR PROT_EXEC)" if "fst q"
    using prot_at_mprotect_page [OF ps, of a "PROT_READ OR PROT_EXEC" a] that q(1) by (simp add: q_def)
  then show ?thesis using se q by (auto simp: DobbyHook_def DobbyDestroy_def Let_def split: option.splits)
qed

text \<open>
  C1: A hook redirects its function, with the near-branch plugin switched off (its default) and unless the replacement
  lies in the page exactly 4 GiB above the page of the function. When the prologue is readable code outside the
  library's own memory, the relocator supports it and memory for the relocated code is provided, \<^verbatim>\<open>DobbyHook\<close> returns 0,
  and from then on a call of the hooked address reaches the replacement with every register but x17 as the caller left
  it. In the excepted page the \<^verbatim>\<open>adrp\<close> of the trampoline overflows and the call goes 8 GiB below the replacement (lemma
  \<open>normal_trampoline_page_overflow\<close>).
\<close>
theorem DobbyHook_redirects:
  assumes "hook_ready h a d" "hook_code a f (dm d) = Some (b, ctx', n, asm)"
    and "code_room (h_kernel h) asm (snd (set_page_executable a (dm d))) blk" "page_delta a f \<noteq> 2 ^ 32"
  shows "\<exists>d' k. DobbyHook h a f d = Inr (0, Some (blk_addr blk), d') \<and> hooked d' = (hooked d)(a \<mapsto> kFunctionInlineHook) \<and>
    (\<forall>s. mem s = memory (proc (dm d')) \<and> pc s = a \<longrightarrow> a64_run k s = Some (goto f (wX 17 f s)))"
proof (rule hook_effect [OF assms(1-3)])
  fix e d' M
  assume h: "DobbyHook h a f d = Inr (0, Some (blk_addr blk), d')" "entries d' = add_entry e (entries d)" "patched_addr e = a"
    "entry_type e = kFunctionInlineHook" "memory (proc (dm d')) = poke a b M"
  obtain b' k where b: "GenerateNormalTrampolineBuffer a f = Some b'" "length b' \<in> {12, 16}"
     "\<And>s. loaded s a b' \<Longrightarrow> pc s = a \<Longrightarrow> a64_run k s = Some (goto f (wX 17 f s))"
    using normal_jump [OF assms(4)] by metis
  have "b' = b" using b(1) assms(2) by (auto simp: hook_code_def split: option.splits)
  then have "loaded s a b'" if "mem s = memory (proc (dm d'))" for s using that h(5) b(2) by (auto simp: loaded_def poke_inside)
  moreover have "find_entry (entries d) a = None" using assms(1) by (simp add: hook_ready_def)
  then have "hooked d' = (hooked d)(a \<mapsto> kFunctionInlineHook)" using h(2-4) by (auto simp: hooked_def find_add fun_eq_iff)
  ultimately show ?thesis using h(1) b(3) by blast
qed

text \<open>
  C2: The pointer a hook returns, with the near-branch plugin off, stands for the original function. The code there starts with the relocated first
  instruction; each relocated instruction that the relocator supports has the effect of the original one at its original
  address and hands over to the next; after the last one, execution continues in the original function behind the
  bytes the trampoline replaced, with only x17 changed.
\<close>
theorem DobbyHook_origin_simulates:
  assumes "hook_ready h a d" "hook_code a f (dm d) = Some (b, ctx', n, asm)"
    and "code_room (h_kernel h) asm (snd (set_page_executable a (dm d))) blk"
  shows "\<exists>d' off m. DobbyHook h a f d = Inr (0, Some (blk_addr blk), d') \<and> n = length b \<and> off 0 = 0 \<and>
    (\<forall>k < n div 4. off (Suc k) = off k + 4 * m k \<and>
       (\<forall>inst i s. LoadInst (prologue (dm d) a n) (4 * k) = Some inst \<and> a64_decode inst = Some i \<and> relo_supported i \<and>
          mem s = memory (proc (dm d')) \<and> pc s = blk_addr blk + of_nat (off k) \<longrightarrow>
          simulates (a + of_nat (4 * k)) i (blk_addr blk) (off k) (m k) s)) \<and>
    (\<forall>s. mem s = memory (proc (dm d')) \<and> pc s = blk_addr blk + of_nat (off (n div 4)) \<longrightarrow>
       a64_run 2 s = Some (goto (a + of_nat n) (wX 17 (a + of_nat n) s)))"
proof (rule hook_effect [OF assms])
  fix e d' M
  assume h: "DobbyHook h a f d = Inr (0, Some (blk_addr blk), d')" "memory (proc (dm d')) = poke a b M"
    "\<And>i. i < length (asm_buffer asm) \<Longrightarrow> M (blk_addr blk + of_nat i) = asm_buffer asm ! i"
    "\<And>i. i < 16 \<Longrightarrow> a + of_nat i \<notin> block_cells blk" "block_cells blk = cells (blk_addr blk) (of_nat (length (asm_buffer asm)))"
    "unat (blk_addr blk) + length (asm_buffer asm) < 2 ^ 64"
  have L: "length (asm_buffer asm) < 2 ^ 20" using assms(3) by (simp add: code_room_def)
  note hc = hook_code_parts [OF assms(2) L]
  have "mem s (blk_addr blk + of_nat i) = asm_buffer asm ! i" if s: "mem s = memory (proc (dm d'))" and i: "i < length (asm_buffer asm)" for s i
  proof -
    let ?x = "blk_addr blk + of_nat i"
    have "?x \<in> block_cells blk" using h(5,6) i L by (simp add: cells_def unat_add_addr unat_of_nat)
    then have "\<not> unat (?x - a) < length b" using h(4) [of "unat (?x - a)"] hc(2) by auto
    then show ?thesis using s i h(2,3) by (simp add: poke_outside)
  qed
  then have l: "loaded s (blk_addr blk) (asm_buffer asm)" if "mem s = memory (proc (dm d'))" for s
    unfolding loaded_def using that by blast
  have "unat (of_nat n :: addr) = n" using hc(2,3) by auto
  then show ?thesis
    using relocate_code [OF hc(6) _ _ L, unfolded reloc_ctx_def, simplified] h(1) l hc(3) by simp blast
qed

text \<open>
  C10: Destroying a hook undoes it (the near-branch plugin being off): \<^verbatim>\<open>DobbyDestroy\<close> after \<^verbatim>\<open>DobbyHook\<close> returns 0, the registry is the one
  before the hook, the prologue has its original bytes again, and so has every byte that was mapped before outside the
  block of the relocated code.
\<close>
theorem DobbyHook_Destroy_restores:
  assumes "hook_ready h a d" "hook_code a f (dm d) = Some (b, ctx', n, asm)"
    and "code_room (h_kernel h) asm (snd (set_page_executable a (dm d))) blk"
  shows "\<exists>d' d''. DobbyHook h a f d = Inr (0, Some (blk_addr blk), d') \<and> DobbyDestroy a d' = Inr (0, d'') \<and>
    entries d'' = entries d \<and> (\<forall>i < 16. memory (proc (dm d'')) (a + of_nat i) = memory (proc (dm d)) (a + of_nat i)) \<and>
    (\<forall>x. prot_at (proc (dm d)) x \<noteq> None \<and> x \<notin> block_cells blk \<longrightarrow> memory (proc (dm d'')) x = memory (proc (dm d)) x)"
proof (rule hook_effect [OF assms])
  fix e d' M
  assume h: "DobbyHook h a f d = Inr (0, Some (blk_addr blk), d')" "entries d' = add_entry e (entries d)" "patched_addr e = a"
    "take n (origin_insns e) = prologue (dm d) a n" "unat (origin_insn_size e) = n" "memory (proc (dm d')) = poke a b M"
    "\<And>i. i < 16 \<Longrightarrow> a + of_nat i \<notin> block_cells blk"
    "\<And>x. prot_at (proc (dm d)) x \<noteq> None \<Longrightarrow> x \<notin> block_cells blk \<Longrightarrow> M x = memory (proc (dm d)) x"
    "\<And>i. i < 16 \<Longrightarrow> prot_at (proc (dm d')) (a + of_nat i) \<noteq> None" "page_size (proc (dm d')) = page_size (proc (dm d))"
  have r: "find_entry (entries d) a = None" "page_size_ok (page_size (proc (dm d)))" "prologue_ok a (dm d)"
    using assms(1) by (simp_all add: hook_ready_def machine_ok_def)
  have hc: "length b \<in> {12, 16}" "n = length b" using hook_code_parts [OF assms(2)] assms(3) by (simp_all add: code_room_def)
  let ?o = "prologue (dm d) a n"
  have lo: "length ?o = n" "n \<le> 16" using hc by (auto simp: prologue_def)
  have "\<forall>i < length ?o. prot_at (proc (dm d')) (a + of_nat i) \<noteq> None \<and>
      (patch_page_of (page_size (proc (dm d'))) a (length ?o) (a + of_nat i) \<or> has_prot PROT_WRITE (proc (dm d')) (a + of_nat i))"
    using two_pages_cover [of "page_size (proc (dm d'))" a n] h(9,10) r(2,3) lo by (simp add: prologue_ok_def)
  from DobbyCodePatch_eq [OF _ this] obtain p where p: "DobbyCodePatch a ?o (proc (dm d')) = Inr (0, p)"
      "memory p = poke a ?o (memory (proc (dm d')))" using r(2) h(10) by auto
  let ?d = "d'\<lparr>dm := (dm d')\<lparr>proc := p\<rparr>, entries := entries d\<rparr>"
  have "find_entry (entries d') a = Some e" using h(2,3) r(1) by (simp add: find_add)
  then have "DobbyDestroy a d' = Inr (0, ?d)"
    using h(2-5) p(1) remove_add [of "entries d" e] r(1) by (simp add: DobbyDestroy_def patch_machine_def)
  moreover have M: "memory p x = memory (proc (dm d)) x" if "prot_at (proc (dm d)) x \<noteq> None" "x \<notin> block_cells blk" for x
    using h(6,8) that lo hc by (cases "unat (x - a) < n") (auto simp: p(2) poke_def prologue_def)
  moreover have "memory p (a + of_nat i) = memory (proc (dm d)) (a + of_nat i)" if "i < 16" for i
    using M [OF _ h(7) [OF that]] r(3) that has_prot_read by (auto simp: prologue_ok_def)
  ultimately show ?thesis using h(1) by auto
qed

text \<open>
  A process with pages of 256 bytes, for the witnesses: a function \<^verbatim>\<open>cbz x3, .+8; adrp x0, 0; add x29, sp, 0\<close>
  at 0x1000 in an executable page, and a kernel that maps one page at 0x2000.
\<close>

definition hook_mmap :: kmmap where
  "hook_mmap p fixed n =
     (if fixed = 0 \<and> page_size p = 256 \<and> n = 256 \<and> unmapped_range p 0x2000 256 then Some 0x2000 else None)"

definition hook_host :: host where
  "hook_host = \<lparr>h_kernel = \<lparr>k_mmap = hook_mmap, k_maps = (\<lambda>_. None)\<rparr>, h_full_fp = False, h_bridge_handler = 0x9000,
     h_instrument_dispatch = 0x9100, h_tramp_entry = 0xA000, h_entry = 0xA100,
     h_fresh = \<lparr>entry_id = 0, entry_type = kFunctionInlineHook, entry_routing = None, patched_addr = 0, patched_size = 0,
       relocated_addr = 0, relocated_size = 0, origin_insns = [], origin_insn_size = 0, thumb_mode = False\<rparr>\<rparr>"

definition hook_state :: dobby where
  "hook_state = \<lparr>dm = \<lparr>allocator = MemoryAllocator, proc = \<lparr>page_size = 256, page_prot = (\<lambda>b. if b = 0x1000 then Some 5 else None),
     memory = poke 0x1000 (wbytes [0xB4000043, 0x90000000, 0x910003FD]) (\<lambda>_. 0)\<rparr>\<rparr>,
     entries = [], near_branch_trampoline = False, bridge_ptr = 0\<rparr>"

lemma page_size_ok_256: "page_size_ok 256"
  unfolding page_size_ok_def by (rule exI [of _ 8]) simp

lemma hook_mmap_ok: "kernel_mmap hook_mmap"
  unfolding kernel_mmap_def
proof (intro allI impI)
  fix p fixed n a
  assume h: "page_size_ok (page_size p) \<and> hook_mmap p fixed n = Some a"
  then have e: "fixed = 0" "page_size p = 256" "n = 256" "unmapped_range p 0x2000 256" "a = 0x2000"
    by (auto simp: hook_mmap_def split: if_splits)
  have "prot_at p x = None" if "in_range 0x2000 256 x" for x
    using unmapped_range_cells [of p "0x2000" 256 x] that h e by (simp add: in_range_cells)
  moreover have "ALIGN_FLOOR 0x2000 256 = 0x2000" by code_simp
  ultimately show "a \<noteq> 0 \<and> 0 < n \<and> ALIGN_FLOOR a (page_size p) = a \<and> unat a + unat n + unat (page_size p) \<le> 2 ^ 64 \<and>
      (fixed \<noteq> 0 \<longrightarrow> a = fixed) \<and> (fixed = 0 \<longrightarrow> (\<forall>x. in_range a n x \<longrightarrow> prot_at p x = None))"
    using e by simp
qed

lemma hook_state_ready: "hook_ready hook_host 0x1000 hook_state"
proof -
  have "machine_ok (dm hook_state)" unfolding hook_state_def by (simp add: machine_ok_empty page_size_ok_256)
  moreover have "list_all (\<lambda>i. has_prot PROT_READ (proc (dm hook_state)) (0x1000 + of_nat i)) [0..<16]" by code_simp
  ultimately show ?thesis
    by (simp add: hook_ready_def prologue_ok_def all_less_code hook_host_def hook_mmap_ok hook_state_def all_arenas_def
        MemoryAllocator_def del: upt_rec_numeral)
qed

lemma hook_state_code:
  obtains b ctx' n asm blk where "hook_code 0x1000 0x5000 (dm hook_state) = Some (b, ctx', n, asm)" "n = 12" "blk_addr blk = 0x2000"
    "code_room (h_kernel hook_host) asm (snd (set_page_executable 0x1000 (dm hook_state))) blk"
proof -
  let ?m = "snd (set_page_executable 0x1000 (dm hook_state))"
  have "case hook_code 0x1000 0x5000 (dm hook_state) of Some (b, ctx', n, asm) \<Rightarrow> n = 12 \<and> length (asm_buffer asm) \<le> 256 \<and>
      (case allocateExecBlock (h_kernel hook_host) (of_nat (length (asm_buffer asm))) ?m of
         Inr (blk, m1) \<Rightarrow> blk_addr blk = 0x2000 \<and> granted m1 | Inl _ \<Rightarrow> False) | None \<Rightarrow> False"
    by code_simp
  then obtain b ctx' n asm where c: "hook_code 0x1000 0x5000 (dm hook_state) = Some (b, ctx', n, asm)" "n = 12" "length (asm_buffer asm) \<le> 256"
      "case allocateExecBlock (h_kernel hook_host) (of_nat (length (asm_buffer asm))) ?m of
         Inr (blk, m1) \<Rightarrow> blk_addr blk = 0x2000 \<and> granted m1 | Inl _ \<Rightarrow> False"
    by (force split: option.splits prod.splits)
  then obtain blk m1 where "allocateExecBlock (h_kernel hook_host) (of_nat (length (asm_buffer asm))) ?m = Inr (blk, m1)"
      "blk_addr blk = 0x2000" "granted m1"
    by (force split: sum.splits prod.splits)
  moreover have "page_size (proc ?m) = 256" by code_simp
  ultimately show thesis using c by (intro that [OF c(1,2)]) (auto simp: code_room_def)
qed

theorem interceptor_refines_map_witness:
  "\<exists>d'. api hook_host (Hook 0x1000 0x5000) hook_state = Inr (0, d') \<and> hooked d' = [0x1000 \<mapsto> kFunctionInlineHook]"
proof (rule hook_state_code)
  fix b ctx' n asm blk
  assume h: "hook_code 0x1000 0x5000 (dm hook_state) = Some (b, ctx', n, asm)"
    "code_room (h_kernel hook_host) asm (snd (set_page_executable 0x1000 (dm hook_state))) blk"
  obtain d' where d': "DobbyHook hook_host 0x1000 0x5000 hook_state = Inr (0, Some (blk_addr blk), d')"
    by (rule hook_effect [OF hook_state_ready h])
  then have a: "api hook_host (Hook 0x1000 0x5000) hook_state = Inr (0, d')" by simp
  have r: "reachable hook_state" by (rule loaded_lib) (simp add: hook_state_def)
  have "hooked hook_state = Map.empty" by (simp add: hooked_def hook_state_def fun_eq_iff)
  then show ?thesis using interceptor_refines_map [OF r a] a by (simp add: registers_def)
qed

theorem DobbyHook_errors_witness:
  "DobbyHook hook_host 0x3000 0x5000 hook_state = Inr (-1, None, hook_state) \<and> DobbyDestroy 0x3000 hook_state = Inr (-1, hook_state)"
proof -
  have "machine_ok (dm hook_state)" using hook_state_ready by (simp add: hook_ready_def)
  moreover have "prot_at (proc (dm hook_state)) 0x3000 = None" "find_entry (entries hook_state) 0x3000 = None" by code_simp+
  ultimately show ?thesis using DobbyHook_errors [of hook_state hook_host "0x5000" "0x3000"] by simp
qed

theorem DobbyHook_redirects_witness:
  "\<exists>d' k. DobbyHook hook_host 0x1000 0x5000 hook_state = Inr (0, Some 0x2000, d') \<and>
    (\<forall>s. mem s = memory (proc (dm d')) \<and> pc s = 0x1000 \<longrightarrow> a64_run k s = Some (goto 0x5000 (wX 17 0x5000 s)))"
proof (rule hook_state_code)
  fix b ctx' n asm blk
  assume h: "hook_code 0x1000 0x5000 (dm hook_state) = Some (b, ctx', n, asm)" "blk_addr blk = 0x2000"
    "code_room (h_kernel hook_host) asm (snd (set_page_executable 0x1000 (dm hook_state))) blk"
  have "page_delta 0x1000 0x5000 \<noteq> 2 ^ 32" by code_simp
  from DobbyHook_redirects [OF hook_state_ready h(1,3) this] h(2) show ?thesis by auto
qed

theorem DobbyHook_origin_simulates_witness:
  "\<exists>d' off m. DobbyHook hook_host 0x1000 0x5000 hook_state = Inr (0, Some 0x2000, d') \<and>
    (\<forall>s. mem s = memory (proc (dm d')) \<and> pc s = 0x2000 \<longrightarrow> simulates 0x1000 (I_CB False True 3 8) 0x2000 0 m s) \<and>
    (\<forall>s. mem s = memory (proc (dm d')) \<and> pc s = 0x2000 + of_nat off \<longrightarrow> a64_run 2 s = Some (goto 0x100C (wX 17 0x100C s)))"
proof (rule hook_state_code)
  fix b ctx' n asm blk
  assume h: "hook_code 0x1000 0x5000 (dm hook_state) = Some (b, ctx', n, asm)" "n = 12" "blk_addr blk = 0x2000"
    "code_room (h_kernel hook_host) asm (snd (set_page_executable 0x1000 (dm hook_state))) blk"
  have c: "LoadInst (prologue (dm hook_state) 0x1000 12) 0 = Some 0xB4000043" "a64_decode 0xB4000043 = Some (I_CB False True 3 8)"
    "relo_supported (I_CB False True 3 8)" by code_simp+
  obtain d' off m where d': "DobbyHook hook_host 0x1000 0x5000 hook_state = Inr (0, Some 0x2000, d')" "off 0 = 0"
    "\<forall>k < n div 4. \<forall>inst i s. LoadInst (prologue (dm hook_state) 0x1000 n) (4 * k) = Some inst \<and> a64_decode inst = Some i \<and>
        relo_supported i \<and> mem s = memory (proc (dm d')) \<and> pc s = 0x2000 + of_nat (off k) \<longrightarrow>
        simulates (0x1000 + of_nat (4 * k)) i 0x2000 (off k) (m k) s"
    "\<forall>s. mem s = memory (proc (dm d')) \<and> pc s = 0x2000 + of_nat (off (n div 4)) \<longrightarrow>
       a64_run 2 s = Some (goto (0x1000 + of_nat n) (wX 17 (0x1000 + of_nat n) s))"
    using DobbyHook_origin_simulates [OF hook_state_ready h(1,4), unfolded h(3)] by blast
  then show ?thesis
    using d'(3) [rule_format, of 0 "0xB4000043" "I_CB False True 3 8"] c h(2)
    by (intro exI [of _ d'] exI [of _ "off 3"] exI [of _ "m 0"]) simp
qed

theorem DobbyHook_Destroy_restores_witness:
  "\<exists>d' d''. DobbyHook hook_host 0x1000 0x5000 hook_state = Inr (0, Some 0x2000, d') \<and> DobbyDestroy 0x1000 d' = Inr (0, d'') \<and>
    entries d'' = [] \<and> memory (proc (dm d'')) 0x1003 = 0xB4"
proof (rule hook_state_code)
  fix b ctx' n asm blk
  assume h: "hook_code 0x1000 0x5000 (dm hook_state) = Some (b, ctx', n, asm)" "blk_addr blk = 0x2000"
    "code_room (h_kernel hook_host) asm (snd (set_page_executable 0x1000 (dm hook_state))) blk"
  obtain d' d'' where d: "DobbyHook hook_host 0x1000 0x5000 hook_state = Inr (0, Some 0x2000, d')" "DobbyDestroy 0x1000 d' = Inr (0, d'')"
    "entries d'' = entries hook_state"
    "\<forall>i < 16. memory (proc (dm d'')) (0x1000 + of_nat i) = memory (proc (dm hook_state)) (0x1000 + of_nat i)"
    using DobbyHook_Destroy_restores [OF hook_state_ready h(1,3)] h(2) by metis
  have "memory (proc (dm hook_state)) 0x1003 = 0xB4" by code_simp
  then show ?thesis using d(1-3) d(4) [rule_format, of 3] by (intro exI [of _ d'] exI [of _ d'']) (simp add: hook_state_def)
qed

end
