(* ===== verification/Literal_Pool.thy ===== *)
theory Literal_Pool
  imports Code_Buffer
begin

text \<open>
  The layout of relocated code: blocks of instruction bytes, each with at most one reference to a literal, followed by
  the pool of the literals. The locale extends \<open>literal_linker\<close>, so that one proof serves every instruction set whose
  relocator appends labels with data and binds them at the end.
\<close>

text \<open>A block: its bytes, and the offset of its reference with the bytes of the literal.\<close>

type_synonym lit_block = "u8 list \<times> (nat \<times> u8 list) option"

definition linked_label :: "nat \<Rightarrow> nat \<Rightarrow> u8 list \<Rightarrow> reloc_label" where
  "linked_label kind p v = link_to (withData v) kind p"

definition put_block :: "nat \<Rightarrow> assembler \<Rightarrow> lit_block \<Rightarrow> assembler" where
  "put_block kind a blk = (case snd blk of
     None \<Rightarrow> a\<lparr>asm_buffer := asm_buffer a @ fst blk\<rparr>
   | Some (j, v) \<Rightarrow> a\<lparr>asm_buffer := asm_buffer a @ fst blk,
        label_heap := label_heap a @ [linked_label kind (length (asm_buffer a) + j) v],
        data_labels := data_labels a @ [length (label_heap a)]\<rparr>)"

fun block_labels :: "nat \<Rightarrow> nat \<Rightarrow> lit_block list \<Rightarrow> reloc_label list" where
  "block_labels kind n [] = []"
| "block_labels kind n (b # bs) =
     (case snd b of None \<Rightarrow> [] | Some (j, v) \<Rightarrow> [linked_label kind (n + j) v]) @ block_labels kind (n + length (fst b)) bs"

definition code_of :: "lit_block list \<Rightarrow> u8 list" where
  "code_of bs = concat (map fst bs)"

definition block_pos :: "lit_block list \<Rightarrow> nat \<Rightarrow> nat" where
  "block_pos bs k = length (code_of (take k bs))"

lemma code_of_simps [simp]: "code_of [] = []" "code_of (b # bs) = fst b @ code_of bs" "code_of (bs @ bs') = code_of bs @ code_of bs'"
  by (simp_all add: code_of_def)

lemma block_pos_simps [simp]: "block_pos bs 0 = 0" "block_pos (b # bs) (Suc k) = length (fst b) + block_pos bs k"
  by (simp_all add: block_pos_def)

lemma block_pos_Suc: "k < length bs \<Longrightarrow> block_pos bs (Suc k) = block_pos bs k + length (fst (bs ! k))"
  by (simp add: block_pos_def take_Suc_conv_app_nth)

lemma block_pos_length: "block_pos bs (length bs) = length (code_of bs)"
  by (simp add: block_pos_def)

lemma block_pos_le: "k \<le> l \<Longrightarrow> block_pos bs k \<le> block_pos bs l"
proof -
  assume "k \<le> l"
  then have "take l bs = take k bs @ take (l - k) (drop k bs)" by (metis le_add_diff_inverse take_add)
  then show ?thesis by (simp add: block_pos_def)
qed

lemma block_end: "k < length bs \<Longrightarrow> block_pos bs k + length (fst (bs ! k)) \<le> length (code_of bs)"
  using block_pos_le [of "Suc k" "length bs" bs] by (simp add: block_pos_Suc block_pos_length)

lemma code_of_nth: "k < length bs \<Longrightarrow> i < length (fst (bs ! k)) \<Longrightarrow> code_of bs ! (block_pos bs k + i) = fst (bs ! k) ! i"
  by (induction bs arbitrary: k) (auto simp: nth_append less_Suc_eq_0_disj)

lemma put_blocks:
  "asm_buffer (foldl (put_block kind) a bs) = asm_buffer a @ code_of bs"
  "label_heap (foldl (put_block kind) a bs) = label_heap a @ block_labels kind (length (asm_buffer a)) bs"
  by (induction bs arbitrary: a) (auto simp: put_block_def split: option.splits)

lemma put_blocks_data:
  "data_labels a = [0..<length (label_heap a)] \<Longrightarrow>
     data_labels (foldl (put_block kind) a bs) = [0..<length (label_heap (foldl (put_block kind) a bs))]"
  by (induction bs arbitrary: a) (auto simp: put_block_def split: option.splits)

lemma linked_label_simps:
  "ref_label_insns (linked_label kind p v) = [\<lparr>link_type = kind, ref_pc_offset = p\<rparr>]"
  "label_bytes (linked_label kind p v) = v"
  by (simp_all add: linked_label_def link_to_def withData_def setData_def RelocLabel_def label_bytes_def)

text \<open>References lie in their blocks and literals have the size \<open>n\<close>.\<close>

definition lit_ok :: "nat \<Rightarrow> nat \<Rightarrow> lit_block \<Rightarrow> bool" where
  "lit_ok width n b \<longleftrightarrow> (case snd b of None \<Rightarrow> True | Some (j, v) \<Rightarrow> j + width \<le> length (fst b) \<and> length v = n)"

lemma lit_okD:
  "\<forall>b \<in> set bs. lit_ok width n b \<Longrightarrow> k < length bs \<Longrightarrow> snd (bs ! k) = Some (j, v) \<Longrightarrow> j + width \<le> length (fst (bs ! k)) \<and> length v = n"
  by (drule bspec, erule nth_mem, simp add: lit_ok_def)

lemma block_labels_in:
  "l \<in> set (block_labels kind n bs) \<Longrightarrow> \<exists>k j v. k < length bs \<and> snd (bs ! k) = Some (j, v) \<and> l = linked_label kind (n + block_pos bs k + j) v"
proof (induction bs arbitrary: n)
  case (Cons b bs)
  then consider j v where "snd b = Some (j, v)" "l = linked_label kind (n + j) v" | "l \<in> set (block_labels kind (n + length (fst b)) bs)"
    by (cases "snd b") auto
  then show ?case
  proof cases
    case 1
    then show ?thesis by - (rule exI [of _ 0], rule exI [of _ j], rule exI [of _ v], simp)
  next
    case 2
    then obtain k j v where "k < length bs" "snd (bs ! k) = Some (j, v)" "l = linked_label kind (n + length (fst b) + block_pos bs k + j) v"
      using Cons.IH by blast
    then show ?thesis by - (rule exI [of _ "Suc k"], rule exI [of _ j], rule exI [of _ v], simp add: add.assoc)
  qed
qed simp

lemma block_label_of:
  "k < length bs \<Longrightarrow> snd (bs ! k) = Some (j, v) \<Longrightarrow> linked_label kind (n + block_pos bs k + j) v \<in> set (block_labels kind n bs)"
proof (induction bs arbitrary: k n)
  case (Cons b bs)
  show ?case
  proof (cases k)
    case (Suc l)
    then have "linked_label kind (n + length (fst b) + block_pos bs l + j) v \<in> set (block_labels kind (n + length (fst b)) bs)"
      using Cons by simp
    then show ?thesis by (simp add: Suc add.assoc)
  qed (use Cons.prems in simp)
qed simp

definition label_pc :: "reloc_label \<Rightarrow> nat" where
  "label_pc l = ref_pc_offset (hd (ref_label_insns l))"

lemma label_pc_linked [simp]: "label_pc (linked_label kind p v) = p"
  by (simp add: label_pc_def linked_label_simps)

lemma block_labels_apart:
  "\<forall>b \<in> set bs. lit_ok width m b \<Longrightarrow> sorted_wrt (\<lambda>p q. p + width \<le> q) (map label_pc (block_labels kind n bs)) \<and>
     (\<forall>l \<in> set (block_labels kind n bs). n \<le> label_pc l \<and> label_pc l + width \<le> n + length (code_of bs))"
proof (induction bs arbitrary: n)
  case (Cons b bs)
  have IH: "sorted_wrt (\<lambda>p q. p + width \<le> q) (map label_pc (block_labels kind (n + length (fst b)) bs))"
    "\<And>l. l \<in> set (block_labels kind (n + length (fst b)) bs) \<Longrightarrow> n + length (fst b) \<le> label_pc l \<and>
       label_pc l + width \<le> n + length (fst b) + length (code_of bs)"
    using Cons.IH [of "n + length (fst b)"] Cons.prems by auto
  have "lit_ok width m b" using Cons.prems by simp
  then show ?case using IH by (fastforce simp: lit_ok_def split: option.splits)
qed simp

lemma refs_concat:
  assumes "\<forall>l \<in> set h. ref_label_insns l = [\<lparr>link_type = kind, ref_pc_offset = label_pc l\<rparr>]"
  shows "label_refs h [0..<length h] = map (\<lambda>l. \<lparr>link_type = kind, ref_pc_offset = label_pc l\<rparr>) h"
proof -
  have "label_refs h [0..<length h] = concat (map ref_label_insns h)"
    unfolding label_refs_def by (rule arg_cong [of _ _ concat]) (simp add: map_equality_iff)
  also have "\<dots> = concat (map (\<lambda>l. [\<lparr>link_type = kind, ref_pc_offset = label_pc l\<rparr>]) h)"
    using assms by (intro arg_cong [of _ _ concat] map_cong) auto
  finally show ?thesis by simp
qed

lemma pool_offset_nth:
  assumes "\<forall>k \<in> set ls. length (label_bytes (h ! k)) = m" "i < length ls"
  shows "(ls ! i, q + m * i) \<in> set (pool_offsets h q ls)"
  using assms
proof (induction ls arbitrary: i q)
  case (Cons l ls)
  show ?case
  proof (cases i)
    case (Suc k)
    then have "(ls ! k, q + m + m * k) \<in> set (pool_offsets h (q + m) ls)" using Cons by simp
    then show ?thesis using Cons.prems(1) by (simp add: Suc algebra_simps)
  qed simp
qed simp


locale literal_pool = literal_linker load store emit width fix_inst link
  for load :: "code_buffer \<Rightarrow> nat \<Rightarrow> 'w option"
    and store :: "code_buffer \<Rightarrow> nat \<Rightarrow> 'w \<Rightarrow> code_buffer option"
    and emit :: "code_buffer \<Rightarrow> 'w \<Rightarrow> code_buffer"
    and width :: nat
    and fix_inst :: "nat \<Rightarrow> ref_label_insn \<Rightarrow> 'w \<Rightarrow> 'w"
    and link :: "reloc_label \<Rightarrow> code_buffer \<Rightarrow> code_buffer option" +
  fixes kind :: nat and size :: nat
begin

text \<open>The code after binding: the bytes outside the references, and each reference with its literal.\<close>

lemma bound_blocks:
  assumes "label_heap a = []" "data_labels a = []" "asm_buffer a = []" "\<forall>b \<in> set bs. lit_ok width size b"
  shows "\<exists>a'. RelocBind link (foldl (put_block kind) a bs) = Some a' \<and>
     length (asm_buffer a') = length (code_of bs) + size * length (block_labels kind 0 bs) \<and>
     (\<forall>k < length bs. \<forall>i < length (fst (bs ! k)).
        (\<forall>j v. snd (bs ! k) = Some (j, v) \<longrightarrow> i < j \<or> j + width \<le> i) \<longrightarrow>
        asm_buffer a' ! (block_pos bs k + i) = fst (bs ! k) ! i) \<and>
     (\<forall>k j v. k < length bs \<and> snd (bs ! k) = Some (j, v) \<longrightarrow>
        (\<exists>m < length (block_labels kind 0 bs). take size (drop (length (code_of bs) + size * m) (asm_buffer a')) = v \<and>
          load (asm_buffer a') (block_pos bs k + j) =
            map_option (fix_inst (length (code_of bs) + size * m) \<lparr>link_type = kind, ref_pc_offset = block_pos bs k + j\<rparr>)
              (load (code_of bs) (block_pos bs k + j))))"
proof -
  let ?a = "foldl (put_block kind) a bs"
  define h where "h = block_labels kind 0 bs"
  have heap: "label_heap ?a = h" and buf: "asm_buffer ?a = code_of bs" using assms by (simp_all add: put_blocks h_def)
  have dl: "data_labels ?a = [0..<length h]" using put_blocks_data [of a kind bs] assms heap by simp
  have sorted: "sorted_wrt (\<lambda>p q. p + width \<le> q) (map label_pc h)"
    and inside: "\<And>l. l \<in> set h \<Longrightarrow> label_pc l + width \<le> length (code_of bs)"
    using block_labels_apart [OF assms(4), of kind 0] by (auto simp: h_def)
  have linked: "\<exists>k j v. k < length bs \<and> snd (bs ! k) = Some (j, v) \<and> l = linked_label kind (block_pos bs k + j) v" if "l \<in> set h" for l
    using block_labels_in that by (fastforce simp: h_def)
  have refs: "label_refs h [0..<length h] = map (\<lambda>l. \<lparr>link_type = kind, ref_pc_offset = label_pc l\<rparr>) h"
    by (rule refs_concat) (use linked in \<open>fastforce simp: linked_label_simps\<close>)
  have bytes: "\<forall>l \<in> set h. length (label_bytes l) = size"
  proof
    fix l assume "l \<in> set h"
    then obtain k j v where k: "k < length bs" "snd (bs ! k) = Some (j, v)" "l = linked_label kind (block_pos bs k + j) v"
      using linked by blast
    then show "length (label_bytes l) = size" using lit_okD [OF assms(4)] by (auto simp: linked_label_simps)
  qed
  have placed: "refs_placed width (label_heap ?a) (data_labels ?a) (length (asm_buffer ?a))"
  proof -
    have "apart width (map label_pc h)" unfolding apart_def
      by (rule sorted_wrt_mono_rel [OF _ sorted]) simp
    then show ?thesis using inside by (auto simp: refs_placed_def heap dl buf refs o_def)
  qed
  obtain a' where a': "reloc_bind_loop link ?a (data_labels ?a) = Some a'"
    "length (asm_buffer a') = length (code_of bs) + sum_list (map (\<lambda>l. length (label_bytes (h ! l))) [0..<length h])"
    "\<forall>i < length (code_of bs). (\<forall>r \<in> set (label_refs h [0..<length h]). i < ref_pc_offset r \<or> ref_pc_offset r + width \<le> i) \<longrightarrow>
        asm_buffer a' ! i = code_of bs ! i"
    "\<forall>(l, p) \<in> set (pool_offsets h (length (code_of bs)) [0..<length h]).
        take (length (label_bytes (h ! l))) (drop p (asm_buffer a')) = label_bytes (h ! l) \<and>
        (\<forall>r \<in> set (ref_label_insns (h ! l)). load (asm_buffer a') (ref_pc_offset r) =
           map_option (fix_inst p r) (load (code_of bs) (ref_pc_offset r)))"
    using reloc_bind_loop_spec [OF placed] unfolding heap dl buf by blast
  have sum: "sum_list (map (\<lambda>l. length (label_bytes (h ! l))) [0..<length h]) = size * length h"
  proof -
    have "map (\<lambda>l. length (label_bytes (h ! l))) [0..<length h] = map (\<lambda>_. size) [0..<length h]"
      using bytes by (intro map_cong) auto
    then show ?thesis by (simp add: map_replicate_const sum_list_replicate)
  qed
  have keep: "asm_buffer a' ! (block_pos bs k + i) = fst (bs ! k) ! i"
    if k: "k < length bs" "i < length (fst (bs ! k))" and out: "\<And>j v. snd (bs ! k) = Some (j, v) \<Longrightarrow> i < j \<or> j + width \<le> i" for k i
  proof -
    have "block_pos bs k + i < label_pc l \<or> label_pc l + width \<le> block_pos bs k + i" if l: "l \<in> set h" for l
    proof -
      obtain m j v where m: "m < length bs" "snd (bs ! m) = Some (j, v)" "l = linked_label kind (block_pos bs m + j) v"
        using linked [OF l] by blast
      then have j: "j + width \<le> length (fst (bs ! m))" using lit_okD [OF assms(4)] by blast
      consider "m = k" | "m < k" | "k < m" by linarith
      then show ?thesis
      proof cases
        case 1
        then show ?thesis using out m by fastforce
      next
        case 2
        then have "block_pos bs (Suc m) \<le> block_pos bs k" by (intro block_pos_le) simp
        then show ?thesis using m j by (simp add: block_pos_Suc)
      next
        case 3
        then have "block_pos bs (Suc k) \<le> block_pos bs m" by (intro block_pos_le) simp
        then show ?thesis using m k by (simp add: block_pos_Suc)
      qed
    qed
    moreover have "block_pos bs k + i < length (code_of bs)" using block_end [OF k(1)] k(2) by linarith
    ultimately show ?thesis using a'(3) code_of_nth [OF k] by (auto simp: refs)
  qed
  have lit: "\<exists>m < length h. take size (drop (length (code_of bs) + size * m) (asm_buffer a')) = v \<and>
          load (asm_buffer a') (block_pos bs k + j) =
            map_option (fix_inst (length (code_of bs) + size * m) \<lparr>link_type = kind, ref_pc_offset = block_pos bs k + j\<rparr>)
              (load (code_of bs) (block_pos bs k + j))"
    if k: "k < length bs" "snd (bs ! k) = Some (j, v)" for k j v
  proof -
    have "linked_label kind (block_pos bs k + j) v \<in> set h" using block_label_of [OF k, of kind 0] by (simp add: h_def)
    then obtain m where m: "m < length h" "h ! m = linked_label kind (block_pos bs k + j) v" by (metis in_set_conv_nth)
    have "([0..<length h] ! m, length (code_of bs) + size * m) \<in> set (pool_offsets h (length (code_of bs)) [0..<length h])"
      using bytes m by (intro pool_offset_nth) auto
    then have p: "(m, length (code_of bs) + size * m) \<in> set (pool_offsets h (length (code_of bs)) [0..<length h])" using m by simp
    have "length v = size" using lit_okD [OF assms(4) k] by simp
    then show ?thesis using bspec [OF a'(4) p] m by (intro exI [of _ m]) (simp add: linked_label_simps)
  qed
  show ?thesis using a'(1,2) keep lit sum unfolding h_def [symmetric] RelocBind_def by (intro exI [of _ a']) auto
qed

end

end
