(* ===== verification/Arm32_Asm.thy ===== *)
theory Arm32_Asm
  imports Literal_Pool
begin

text \<open>
  The assembler of the 32-bit ARM back end: \<^verbatim>\<open>core/arch/arm\<close>, \<^verbatim>\<open>core/assembler/assembler-arm.h\<close>,
  \<^verbatim>\<open>core/codegen/codegen-arm.cc\<close> for the A32 instruction set and the Thumb assembler of
  \<^verbatim>\<open>InstructionRelocation/arm/InstructionRelocationARM.h\<close> for T32. A register is its code; addresses have 32 bits.
  \<^verbatim>\<open>ASSERT\<close> is defined empty and \<^verbatim>\<open>assert\<close> is compiled out; \<^verbatim>\<open>UNREACHABLE\<close> ends the process and is \<open>None\<close>.
\<close>

subsection \<open>Constants and registers\<close>

type_synonym addr32 = u32

datatype addr_mode32 = Offset32 | PreIndex32 | PostIndex32

definition AL :: u32 where "AL = 14"

definition B7 :: u32 where "B7 = push_bit 7 1"
definition B8 :: u32 where "B8 = push_bit 8 1"
definition B9 :: u32 where "B9 = push_bit 9 1"
definition B10 :: u32 where "B10 = push_bit 10 1"
definition B14 :: u32 where "B14 = push_bit 14 1"
definition B20 :: u32 where "B20 = push_bit 20 1"
definition B22 :: u32 where "B22 = push_bit 22 1"
definition B23 :: u32 where "B23 = push_bit 23 1"
definition B25 :: u32 where "B25 = push_bit 25 1"
definition B26 :: u32 where "B26 = push_bit 26 1"

definition kConditionShift :: nat where "kConditionShift = 28"

definition R8 :: nat where "R8 = 8"
definition VOLATILE_REGISTER :: nat where "VOLATILE_REGISTER = 12"
definition PC :: nat where "PC = 15"

text \<open>\<^verbatim>\<open>no_reg\<close> has code 0, and a register is valid when its code is not 0.\<close>

definition no_reg :: nat where "no_reg = 0"

definition IsValid :: "nat \<Rightarrow> bool" where "IsValid r \<longleftrightarrow> r \<noteq> 0"

definition Rd32 :: "nat \<Rightarrow> u32" where "Rd32 rd = push_bit 12 (word_of_nat rd)"
definition Rt32 :: "nat \<Rightarrow> u32" where "Rt32 rt = push_bit 12 (word_of_nat rt)"
definition Rn32 :: "nat \<Rightarrow> u32" where "Rn32 rn = push_bit 16 (word_of_nat rn)"

definition ARM_PC_OFFSET :: nat where "ARM_PC_OFFSET = 8"
definition Thumb_PC_OFFSET :: nat where "Thumb_PC_OFFSET = 4"
definition ARM_INST_LEN :: nat where "ARM_INST_LEN = 4"
definition Thumb1_INST_LEN :: nat where "Thumb1_INST_LEN = 2"
definition Thumb2_INST_LEN :: nat where "Thumb2_INST_LEN = 4"
definition THUMB_ADDRESS_FLAG :: addr32 where "THUMB_ADDRESS_FLAG = 1"

definition kLdrLiteral :: nat where "kLdrLiteral = 0"
definition kThumb1Ldr :: nat where "kThumb1Ldr = 0"
definition kThumb2LiteralLdr :: nat where "kThumb2LiteralLdr = 1"

subsection \<open>Operands\<close>

datatype operand32 = OperandImm int | OperandReg nat

definition GetImmediate32 :: "operand32 \<Rightarrow> int" where
  "GetImmediate32 x = (case x of OperandImm i \<Rightarrow> i | OperandReg _ \<Rightarrow> 0)"

record mem_operand32 =
  mo_rn :: nat
  mo_rm :: nat
  mo_offset :: int
  mo_mode :: addr_mode32

definition MemOperand32 :: "nat \<Rightarrow> int \<Rightarrow> mem_operand32" where
  "MemOperand32 rn offset = \<lparr>mo_rn = rn, mo_rm = no_reg, mo_offset = offset, mo_mode = Offset32\<rparr>"

definition OpEncode_MemOperand :: "mem_operand32 \<Rightarrow> u32 option" where
  "OpEncode_MemOperand x =
     (if IsValid (mo_rm x) then None
      else
        let U = (if mo_offset x \<ge> 0 then push_bit 23 1 else 0);
            imm = bits (word_of_int \<bar>mo_offset x\<bar>) 0 11;
            (P, W) = (case mo_mode x of Offset32 \<Rightarrow> (1, 0) | PostIndex32 \<Rightarrow> (0, 0) | PreIndex32 \<Rightarrow> (1, 1))
        in Some (U OR imm OR (push_bit 24 P OR push_bit 21 W) OR Rn32 (mo_rn x)))"

definition OpEncode_Operand :: "operand32 \<Rightarrow> u32" where
  "OpEncode_Operand x = (case x of
      OperandReg rm \<Rightarrow> if IsValid rm then word_of_nat rm else 0
    | OperandImm i \<Rightarrow> word_of_int i)"

subsection \<open>The A32 assembler\<close>

definition arm_EmitARMInst :: "assembler \<Rightarrow> u32 \<Rightarrow> assembler" where
  "arm_EmitARMInst a instr = a\<lparr>asm_buffer := EmitARMInst (asm_buffer a) instr\<rparr>"

definition arm_EmitAddress :: "assembler \<Rightarrow> u32 \<Rightarrow> assembler" where
  "arm_EmitAddress a v = a\<lparr>asm_buffer := Emit32 (asm_buffer a) v\<rparr>"

definition arm_add_sub :: "assembler \<Rightarrow> u32 \<Rightarrow> u32 \<Rightarrow> nat \<Rightarrow> nat \<Rightarrow> operand32 \<Rightarrow> assembler" where
  "arm_add_sub a encoding c rd rn x =
     arm_EmitARMInst a (encoding OR push_bit kConditionShift c OR word_of_int (GetImmediate32 x) OR Rd32 rd OR Rn32 rn)"

definition arm_sub32 :: "assembler \<Rightarrow> nat \<Rightarrow> nat \<Rightarrow> operand32 \<Rightarrow> assembler" where
  "arm_sub32 a rd rn x = arm_add_sub a (B25 OR B22) AL rd rn x"

definition arm_add32 :: "assembler \<Rightarrow> nat \<Rightarrow> nat \<Rightarrow> operand32 \<Rightarrow> assembler" where
  "arm_add32 a rd rn x = arm_add_sub a (B25 OR B23) AL rd rn x"

definition arm_load_store :: "assembler \<Rightarrow> u32 \<Rightarrow> u32 \<Rightarrow> nat \<Rightarrow> mem_operand32 \<Rightarrow> assembler option" where
  "arm_load_store a encoding c rt x =
     map_option (\<lambda>m. arm_EmitARMInst a (encoding OR push_bit kConditionShift c OR (Rt32 rt OR m))) (OpEncode_MemOperand x)"

definition arm_ldr32 :: "assembler \<Rightarrow> nat \<Rightarrow> mem_operand32 \<Rightarrow> assembler option" where
  "arm_ldr32 a rt x = arm_load_store a (B20 OR B26) AL rt x"

definition arm_str32 :: "assembler \<Rightarrow> nat \<Rightarrow> mem_operand32 \<Rightarrow> assembler option" where
  "arm_str32 a rt x = arm_load_store a B26 AL rt x"

definition arm_mov32 :: "assembler \<Rightarrow> u32 \<Rightarrow> nat \<Rightarrow> operand32 \<Rightarrow> assembler" where
  "arm_mov32 a c rd x = arm_EmitARMInst a (0x01a00000 OR push_bit kConditionShift c OR (Rd32 rd OR OpEncode_Operand x))"

definition arm_branch_word :: "u32 \<Rightarrow> u32 \<Rightarrow> int \<Rightarrow> u32" where
  "arm_branch_word encoding c branch_offset =
     encoding OR push_bit kConditionShift c OR bits (word_of_int (branch_offset div 4)) 0 23"

definition arm_b32 :: "assembler \<Rightarrow> u32 \<Rightarrow> int \<Rightarrow> assembler" where
  "arm_b32 a c branch_offset = arm_EmitARMInst a (arm_branch_word 0xa000000 c branch_offset)"

definition arm_bl32 :: "assembler \<Rightarrow> u32 \<Rightarrow> int \<Rightarrow> assembler" where
  "arm_bl32 a c branch_offset = arm_EmitARMInst a (arm_branch_word 0xb000000 c branch_offset)"

definition arm_Ldr32 :: "assembler \<Rightarrow> nat \<Rightarrow> nat \<Rightarrow> assembler option" where
  "arm_Ldr32 a rt l =
     (if l < length (label_heap a) then
        if label_pos (label_heap a ! l) \<noteq> 0
        then arm_ldr32 a rt (MemOperand32 PC (int (label_pos (label_heap a ! l)) - int (GetBufferSize (asm_buffer a))))
        else arm_ldr32 (a\<lparr>label_heap := (label_heap a)[l := link_to (label_heap a ! l) kLdrLiteral (GetBufferSize (asm_buffer a))]\<rparr>)
          rt (MemOperand32 PC 0)
      else None)"

definition arm_CallFunction :: "assembler \<Rightarrow> addr32 \<Rightarrow> assembler option" where
  "arm_CallFunction a function =
     map_option (\<lambda>a. arm_EmitAddress a function) (arm_ldr32 (arm_b32 (arm_bl32 a AL 0) AL 4) PC (MemOperand32 PC (-4)))"

definition arm_LiteralLdrBranch32 :: "assembler \<Rightarrow> addr32 \<Rightarrow> assembler option" where
  "arm_LiteralLdrBranch32 a address =
     map_option (\<lambda>a. arm_EmitAddress a address) (arm_ldr32 a PC (MemOperand32 PC (-4)))"

subsection \<open>Linking the literals of A32 code\<close>

definition arm32_fix :: "nat \<Rightarrow> ref_label_insn \<Rightarrow> u32 \<Rightarrow> u32" where
  "arm32_fix pos r inst =
     (if link_type r = kLdrLiteral then
        let pc = ref_pc_offset r + ARM_PC_OFFSET;
            imm12 = int pos - int pc
        in if imm12 > 0 then set_bits (set_bit1 inst 23 1) 0 11 (word_of_int imm12)
           else set_bits (set_bit1 inst 23 0) 0 11 (word_of_int (- imm12))
      else inst)"

definition arm32_link_confused_instructions :: "reloc_label \<Rightarrow> code_buffer \<Rightarrow> code_buffer option" where
  "arm32_link_confused_instructions lbl b =
     patch_all LoadARMInst RewriteARMInst ref_pc_offset (arm32_fix (label_pos lbl)) b (ref_label_insns lbl)"

interpretation arm32_cell: code_cell LoadARMInst RewriteARMInst EmitARMInst 4
  using code_cell_bytes [where 'a = 32 and n = 4]
  by (simp add: LoadARMInst_def [abs_def] RewriteARMInst_def [abs_def] EmitARMInst_def [abs_def])

interpretation arm32_linker: literal_pool LoadARMInst RewriteARMInst EmitARMInst 4 arm32_fix arm32_link_confused_instructions
    kLdrLiteral 4
  by unfold_locales (simp add: arm32_link_confused_instructions_def)

subsection \<open>The Thumb assembler\<close>

definition EmitInt16 :: "assembler \<Rightarrow> u16 \<Rightarrow> assembler" where
  "EmitInt16 a v = a\<lparr>asm_buffer := Emit16 (asm_buffer a) v\<rparr>"

definition thumb_EmitAddress :: "assembler \<Rightarrow> u32 \<Rightarrow> assembler" where
  "thumb_EmitAddress a v = a\<lparr>asm_buffer := Emit32 (asm_buffer a) v\<rparr>"

definition t1_nop :: "assembler \<Rightarrow> assembler" where
  "t1_nop a = EmitInt16 a 0xbf00"

definition t1_b :: "assembler \<Rightarrow> int \<Rightarrow> assembler" where
  "t1_b a imm = EmitInt16 a (ucast (0xe000 OR bits (word_of_int (imm div 2) :: u32) 0 10))"

text \<open>The two halfwords of \<^verbatim>\<open>EmitThumb2Branch\<close> for the condition AL.\<close>

definition Thumb2Branch :: "int \<Rightarrow> bool \<Rightarrow> u16 \<times> u16" where
  "Thumb2Branch imm link =
     (let operand = (word_of_int (imm div 2) :: u32);
          signbit = drop_bit 31 (word_of_int imm :: u32) AND 1;
          i1 = drop_bit 22 operand AND 1;
          i2 = drop_bit 21 operand AND 1;
          imm10 = drop_bit 11 operand AND 0x03ff;
          imm11 = operand AND 0x07ff;
          j1 = (if i1 XOR signbit = 0 then 1 else 0);
          j2 = (if i2 XOR signbit = 0 then 1 else 0)
      in (ucast (0xf000 OR LeftShift signbit 1 10 OR LeftShift imm10 10 0),
          ucast (0x9000 OR LeftShift j1 1 13 OR LeftShift j2 1 11 OR LeftShift imm11 11 0 OR (if link then B14 else 0))))"

definition EmitThumb2Branch :: "assembler \<Rightarrow> u32 \<Rightarrow> int \<Rightarrow> bool \<Rightarrow> assembler option" where
  "EmitThumb2Branch a c imm link =
     (if c \<noteq> AL then None
      else let (h1, h2) = Thumb2Branch imm link in Some (EmitInt16 (EmitInt16 a h1) h2))"

definition t2_b :: "assembler \<Rightarrow> int \<Rightarrow> assembler option" where
  "t2_b a imm = EmitThumb2Branch a AL imm False"

definition t2_bl :: "assembler \<Rightarrow> int \<Rightarrow> assembler option" where
  "t2_bl a imm = EmitThumb2Branch a AL imm True"

definition EmitThumb2LoadLiteral :: "assembler \<Rightarrow> nat \<Rightarrow> mem_operand32 \<Rightarrow> assembler" where
  "EmitThumb2LoadLiteral a rt x =
     (let offset = mo_offset x;
          (U, imm12) = (if offset > 0 then (B7, word_of_int offset) else (0, word_of_int (- offset)))
      in EmitInt16 (EmitInt16 a (ucast (0xf85f OR U))) (ucast (push_bit 12 (word_of_nat rt) OR imm12 :: u32)))"

definition EmitThumb2LoadStore :: "assembler \<Rightarrow> nat \<Rightarrow> mem_operand32 \<Rightarrow> assembler" where
  "EmitThumb2LoadStore a rt x =
     (if mo_rn x = PC then EmitThumb2LoadLiteral a rt x
      else if mo_mode x = Offset32 \<and> mo_offset x \<ge> 0 then
        EmitInt16 (EmitInt16 a (ucast (0xf8d0 OR word_of_nat (mo_rn x) :: u32)))
          (ucast (push_bit 12 (word_of_nat rt) OR word_of_int (mo_offset x) :: u32))
      else
        let imm8 = (if mo_offset x > 0 then word_of_int (mo_offset x) else word_of_int (- mo_offset x));
            U = (if mo_offset x > 0 then 0 else B9);
            (P, W) = (case mo_mode x of PostIndex32 \<Rightarrow> (0, B8) | PreIndex32 \<Rightarrow> (B10, B8) | Offset32 \<Rightarrow> (0, 0))
        in EmitInt16 (EmitInt16 a (ucast (0xf850 OR word_of_nat (mo_rn x) :: u32)))
          (ucast (0x0800 OR push_bit 12 (word_of_nat rt) OR P OR U OR W OR imm8 :: u32)))"

definition t2_ldr :: "assembler \<Rightarrow> nat \<Rightarrow> mem_operand32 \<Rightarrow> assembler" where
  "t2_ldr a dst src = EmitThumb2LoadStore a dst src"

definition T2_Ldr :: "assembler \<Rightarrow> nat \<Rightarrow> nat \<Rightarrow> assembler option" where
  "T2_Ldr a rt l =
     (if l < length (label_heap a) then
        if label_pos (label_heap a ! l) \<noteq> 0
        then Some (t2_ldr a rt (MemOperand32 PC (int (label_pos (label_heap a ! l)) - int (GetBufferSize (asm_buffer a)))))
        else Some (t2_ldr (a\<lparr>label_heap := (label_heap a)[l := link_to (label_heap a ! l) kThumb2LiteralLdr (GetBufferSize (asm_buffer a))]\<rparr>)
          rt (MemOperand32 PC 0))
      else None)"

definition AlignThumbNop :: "assembler \<Rightarrow> assembler" where
  "AlignThumbNop a =
     (if (word_of_nat (GetBufferSize (asm_buffer a)) + ucast (realized_addr a) :: u32) mod word_of_nat Thumb2_INST_LEN \<noteq> 0
      then t1_nop a else a)"

subsection \<open>Linking the literals of Thumb code\<close>

text \<open>A 32-bit Thumb instruction is patched as two halfwords.\<close>

definition LoadThumbPair :: "code_buffer \<Rightarrow> nat \<Rightarrow> (u16 \<times> u16) option" where
  "LoadThumbPair b p = Option.bind (LoadThumb1Inst b p) (\<lambda>h1. map_option (Pair h1) (LoadThumb1Inst b (p + 2)))"

definition RewriteThumbPair :: "code_buffer \<Rightarrow> nat \<Rightarrow> u16 \<times> u16 \<Rightarrow> code_buffer option" where
  "RewriteThumbPair b p hs = Option.bind (RewriteThumb1Inst b p (fst hs)) (\<lambda>b. RewriteThumb1Inst b (p + Thumb1_INST_LEN) (snd hs))"

definition EmitThumbPair :: "code_buffer \<Rightarrow> u16 \<times> u16 \<Rightarrow> code_buffer" where
  "EmitThumbPair b hs = Emit16 (Emit16 b (fst hs)) (snd hs)"

definition thumb_fix :: "nat \<Rightarrow> ref_label_insn \<Rightarrow> u16 \<times> u16 \<Rightarrow> u16 \<times> u16" where
  "thumb_fix pos r hs =
     (let pc = ref_pc_offset r + Thumb_PC_OFFSET;
          imm12 = int pos - int pc
      in if imm12 > 0 then (set_bit1 (fst hs) 7 1, set_bits (snd hs) 0 11 (word_of_int imm12))
         else (set_bit1 (fst hs) 7 0, set_bits (snd hs) 0 11 (word_of_int (- imm12))))"

definition thumb_patch :: "reloc_label \<Rightarrow> code_buffer \<Rightarrow> code_buffer option" where
  "thumb_patch lbl b = patch_all LoadThumbPair RewriteThumbPair ref_pc_offset (thumb_fix (label_pos lbl)) b (ref_label_insns lbl)"

text \<open>A reference of the kind \<^verbatim>\<open>kThumb1Ldr\<close> is \<^verbatim>\<open>UNREACHABLE\<close>; \<^verbatim>\<open>T1_Ldr\<close>, which would make one, is too.\<close>

definition thumb_link_confused_instructions :: "reloc_label \<Rightarrow> code_buffer \<Rightarrow> code_buffer option" where
  "thumb_link_confused_instructions lbl b =
     (if \<forall>r \<in> set (ref_label_insns lbl). link_type r = kThumb2LiteralLdr then thumb_patch lbl b else None)"

interpretation thumb_cell: code_cell LoadThumbPair RewriteThumbPair EmitThumbPair 4
proof
  fix b b' :: code_buffer and p i :: nat and v :: "u16 \<times> u16"
  note d = LoadThumbPair_def RewriteThumbPair_def LoadThumb1Inst_def RewriteThumb1Inst_def Thumb1_INST_LEN_def
  show "LoadThumbPair b p \<noteq> None \<longleftrightarrow> p + 4 \<le> length b"
    by (auto simp: d Load_def)
  show "RewriteThumbPair b p v \<noteq> None \<longleftrightarrow> p + 4 \<le> length b"
    by (auto simp: d Store_def Option.bind_eq_Some_conv)
  show "length b' = length b" if "RewriteThumbPair b p v = Some b'"
    using that by (auto simp: d Store_Some Option.bind_eq_Some_conv)
  show "b' ! i = b ! i" if "RewriteThumbPair b p v = Some b'" "i < p \<or> p + 4 \<le> i" "i < length b"
  proof -
    from that(1) obtain b1 where b1: "Store 2 b p (fst v) = Some b1" "Store 2 b1 (p + 2) (snd v) = Some b'"
      by (auto simp: d Option.bind_eq_Some_conv simp del: add_2_eq_Suc')
    then have "length b1 = length b" by (auto simp: Store_Some)
    then show ?thesis using Store_other [OF b1(1), of i] Store_other [OF b1(2), of i] that by auto
  qed
  show "LoadThumbPair b' p = Some v" if "RewriteThumbPair b p v = Some b'"
  proof -
    from that obtain b1 where b1: "Store 2 b p (fst v) = Some b1" "Store 2 b1 (p + 2) (snd v) = Some b'"
      by (auto simp: d Option.bind_eq_Some_conv simp del: add_2_eq_Suc')
    then have len: "length b1 = length b" "length b' = length b" "p + 4 \<le> length b" by (auto simp: Store_Some)
    have "Load 2 b' (p + 2) = Some (snd v)" by (rule Load_Store [OF b1(2)]) simp
    moreover have "(Load 2 b' p :: u16 option) = Load 2 b1 p"
      by (rule Load_cong) (use len Store_other [OF b1(2)] in auto)
    moreover have "Load 2 b1 p = Some (fst v)" by (rule Load_Store [OF b1(1)]) simp
    ultimately show ?thesis by (simp add: d)
  qed
  show "LoadThumbPair b' p = LoadThumbPair b p"
    if "p + 4 \<le> length b" "p + 4 \<le> length b'" "\<And>i. p \<le> i \<Longrightarrow> i < p + 4 \<Longrightarrow> b' ! i = b ! i"
  proof -
    have "(Load 2 b' p :: u16 option) = Load 2 b p" "(Load 2 b' (p + 2) :: u16 option) = Load 2 b (p + 2)"
      using that by (intro Load_cong; simp)+
    then show ?thesis by (simp add: d)
  qed
  show "EmitThumbPair b v ! i = b ! i" if "i < length b"
    using that by (simp add: EmitThumbPair_def emit_defs nth_append)
  show "length (EmitThumbPair b v) = length b + 4" by (simp add: EmitThumbPair_def)
  show "LoadThumbPair (EmitThumbPair b v) (length b) = Some v"
  proof -
    have "Load 2 (b @ le_bytes 2 (fst v) @ le_bytes 2 (snd v)) (length b) = Some (fst v)" by (rule Load_at_end) simp
    moreover have "Load 2 ((b @ le_bytes 2 (fst v)) @ le_bytes 2 (snd v) @ []) (length (b @ le_bytes 2 (fst v))) = Some (snd v)"
      by (rule Load_at_end) simp
    ultimately show ?thesis by (simp add: d EmitThumbPair_def emit_defs)
  qed
qed

interpretation thumb_linker: literal_pool LoadThumbPair RewriteThumbPair EmitThumbPair 4 "\<lambda>pos r. thumb_fix pos r" thumb_patch
    kThumb2LiteralLdr 4
  by unfold_locales (simp add: thumb_patch_def)

text \<open>When all references have the kind for literals, the check of the kinds never fails.\<close>

lemma bind_loop_cong:
  assumes "\<forall>l \<in> set ls. l < length (label_heap a) \<longrightarrow> (\<forall>p b. link (bind_to (label_heap a ! l) p) b = link' (bind_to (label_heap a ! l) p) b)"
    and "distinct ls"
  shows "reloc_bind_loop link a ls = reloc_bind_loop link' a ls"
  using assms
proof (induction ls arbitrary: a)
  case (Cons l ls)
  have eq: "PseudoBind link a l = PseudoBind link' a l"
    using Cons.prems by (simp add: PseudoBind_def Let_def)
  show ?case
  proof (cases "PseudoBind link' a l")
    case (Some a')
    then have "label_heap a' = (label_heap a)[l := bind_to (label_heap a ! l) (GetBufferSize (asm_buffer a))]"
      by (auto simp: PseudoBind_def Let_def split: if_splits option.splits)
    moreover have "l \<noteq> k" if "k \<in> set ls" for k using that Cons.prems(2) by auto
    ultimately have "\<forall>k \<in> set ls. label_heap a' ! k = label_heap a ! k \<and> length (label_heap a') = length (label_heap a)"
      by simp
    then show ?thesis using Cons by (simp add: eq Some)
  qed (simp add: eq)
qed simp

end
