(* ===== verification/Arm32_Sem.thy ===== *)
theory Arm32_Sem
  imports Dobby_Prelude
begin

text \<open>
  A reference semantics of the A32 and T32 instructions that the 32-bit relocator rewrites and emits and that function
  prologues use, written from the architecture manual and independent of the code under verification.
\<close>

record cpsr =
  cN :: bool
  cZ :: bool
  cC :: bool
  cV :: bool

text \<open>\<open>ip\<close> is the address of the current instruction and \<open>tb\<close> the Thumb bit; register 15 reads as \<open>ip\<close> plus 8 or 4.\<close>

record a32_state =
  ip :: u32
  tb :: bool
  rg :: "nat \<Rightarrow> u32"
  cc :: cpsr
  ram :: "u32 \<Rightarrow> u8"

datatype a32_instr =
    I_nop
  | I_b u32 u32
  | I_bl u32 u32
  | I_blx u32
  | I_cb bool nat u32
  | I_lit u32 bool nat u32
  | I_mem u32 bool bool bool bool nat nat u32
  | I_adr u32 nat u32
  | I_mov u32 nat nat
  | I_addr u32 nat nat
  | I_addi u32 nat nat u32
  | I_subi u32 nat nat u32
  | I_cmpi u32 nat u32
  | I_push u32 u32
  | I_bx u32 nat

definition fld32 :: "u32 \<Rightarrow> nat \<Rightarrow> nat \<Rightarrow> u32" where
  "fld32 i lo n = take_bit n (drop_bit lo i)"

definition rf :: "u32 \<Rightarrow> nat \<Rightarrow> nat" where
  "rf i lo = unat (fld32 i lo 4)"

definition sx :: "nat \<Rightarrow> u32 \<Rightarrow> u32" where
  "sx n w = signed_take_bit (n - 1) w"

subsection \<open>Decoding A32\<close>

definition a32_imm :: "u32 \<Rightarrow> u32" where
  "a32_imm i = word_rotr (2 * unat (fld32 i 8 4)) (fld32 i 0 8)"

definition a32_decode :: "u32 \<Rightarrow> a32_instr option" where
  "a32_decode i =
    (let c = fld32 i 28 4; off24 = push_bit 2 (sx 24 (fld32 i 0 24)) in
     if c = 15 then
       (if i AND 0x0E000000 = 0x0A000000 then Some (I_blx (off24 OR (if bit i 24 then 2 else 0))) else None)
     else if i AND 0x0F000000 = 0x0A000000 then Some (I_b c off24)
     else if i AND 0x0F000000 = 0x0B000000 then Some (I_bl c off24)
     else if i AND 0x0E000000 = 0x04000000 then
       let off = (if bit i 23 then fld32 i 0 12 else - fld32 i 0 12) in
       if \<not> bit i 24 \<and> bit i 21 then None
       else if bit i 20 \<and> rf i 16 = 15 \<and> bit i 24 \<and> \<not> bit i 21 then Some (I_lit c (bit i 22) (rf i 12) off)
       else Some (I_mem c (bit i 20) (bit i 22) (bit i 24) (bit i 21) (rf i 12) (rf i 16) off)
     else if i AND 0x0FFF0000 = 0x028F0000 then Some (I_adr c (rf i 12) (a32_imm i))
     else if i AND 0x0FFF0000 = 0x024F0000 then Some (I_adr c (rf i 12) (- a32_imm i))
     else if i AND 0x0FF00000 = 0x02800000 then Some (I_addi c (rf i 12) (rf i 16) (a32_imm i))
     else if i AND 0x0FF00000 = 0x02400000 then Some (I_subi c (rf i 12) (rf i 16) (a32_imm i))
     else if i AND 0x0FF0F000 = 0x03500000 then Some (I_cmpi c (rf i 16) (a32_imm i))
     else if i AND 0x0FFF0FF0 = 0x01A00000 then Some (I_mov c (rf i 12) (rf i 0))
     else if i AND 0x0FFF0000 = 0x092D0000 then Some (I_push c (fld32 i 0 16))
     else if i AND 0x0FFFFFF0 = 0x012FFF10 then Some (I_bx c (rf i 0))
     else None)"

subsection \<open>Decoding T32\<close>

text \<open>The first halfword of a 32-bit instruction starts with 0b11101, 0b11110 or 0b11111.\<close>

definition t32_wide :: "u16 \<Rightarrow> bool" where
  "t32_wide h \<longleftrightarrow> drop_bit 13 h = 7 \<and> drop_bit 11 h AND 3 \<noteq> 0"

definition t16_decode :: "u16 \<Rightarrow> a32_instr option" where
  "t16_decode h =
    (let i = ucast h :: u32 in
     if i = 0xBF00 then Some I_nop
     else if i AND 0xF000 = 0xD000 then
       (if fld32 i 8 4 < 14 then Some (I_b (fld32 i 8 4) (push_bit 1 (sx 8 (fld32 i 0 8)))) else None)
     else if i AND 0xF800 = 0xE000 then Some (I_b 14 (push_bit 1 (sx 11 (fld32 i 0 11))))
     else if i AND 0xF500 = 0xB100 then
       Some (I_cb (bit i 11) (unat (fld32 i 0 3)) (push_bit 6 (fld32 i 9 1) OR push_bit 1 (fld32 i 3 5)))
     else if i AND 0xF800 = 0x4800 then Some (I_lit 14 False (unat (fld32 i 8 3)) (push_bit 2 (fld32 i 0 8)))
     else if i AND 0xF800 = 0xA000 then Some (I_adr 14 (unat (fld32 i 8 3)) (push_bit 2 (fld32 i 0 8)))
     else if i AND 0xFF00 = 0x4600 then
       Some (I_mov 14 (unat (fld32 i 0 3 OR push_bit 3 (fld32 i 7 1))) (rf i 3))
     else if i AND 0xFF00 = 0x4400 then
       Some (I_addr 14 (unat (fld32 i 0 3 OR push_bit 3 (fld32 i 7 1))) (rf i 3))
     else if i AND 0xFE00 = 0xB400 then Some (I_push 14 (fld32 i 0 8 OR push_bit 14 (fld32 i 8 1)))
     else if i AND 0xFF80 = 0xB080 then Some (I_subi 14 13 13 (push_bit 2 (fld32 i 0 7)))
     else if i AND 0xFF87 = 0x4700 then Some (I_bx 14 (rf i 3))
     else None)"

text \<open>The offset of the wide branches B.W and BL.\<close>

definition t32_off :: "u32 \<Rightarrow> u32 \<Rightarrow> u32" where
  "t32_off a b =
     (let s = fld32 a 10 1; i1 = (fld32 b 13 1 XOR s) XOR 1; i2 = (fld32 b 11 1 XOR s) XOR 1
      in sx 25 (push_bit 24 s OR push_bit 23 i1 OR push_bit 22 i2 OR push_bit 12 (fld32 a 0 10) OR push_bit 1 (fld32 b 0 11)))"

definition t32_decode :: "u16 \<Rightarrow> u16 \<Rightarrow> a32_instr option" where
  "t32_decode h1 h2 =
    (let a = ucast h1 :: u32; b = ucast h2 :: u32 in
     if a AND 0xF800 = 0xF000 \<and> b AND 0xD000 = 0x9000 then Some (I_b 14 (t32_off a b))
     else if a AND 0xF800 = 0xF000 \<and> b AND 0xD000 = 0xD000 then Some (I_bl 14 (t32_off a b))
     else if a AND 0xF800 = 0xF000 \<and> b AND 0xD001 = 0xC000 then Some (I_blx (t32_off a b))
     else if a AND 0xF800 = 0xF000 \<and> b AND 0xD000 = 0x8000 \<and> fld32 a 6 4 < 14 then
       Some (I_b (fld32 a 6 4) (sx 21 (push_bit 20 (fld32 a 10 1) OR push_bit 19 (fld32 b 11 1) OR push_bit 18 (fld32 b 13 1)
         OR push_bit 12 (fld32 a 0 6) OR push_bit 1 (fld32 b 0 11))))
     else if a AND 0xFF7F = 0xF85F then
       Some (I_lit 14 False (rf b 12) (if bit a 7 then fld32 b 0 12 else - fld32 b 0 12))
     else if a AND 0xFFF0 = 0xF8D0 then Some (I_mem 14 True False True False (rf b 12) (rf a 0) (fld32 b 0 12))
     else if a AND 0xFBFF = 0xF20F \<and> \<not> bit b 15 then
       Some (I_adr 14 (rf b 8) (push_bit 11 (fld32 a 10 1) OR push_bit 8 (fld32 b 12 3) OR fld32 b 0 8))
     else if a AND 0xFBFF = 0xF2AF \<and> \<not> bit b 15 then
       Some (I_adr 14 (rf b 8) (- (push_bit 11 (fld32 a 10 1) OR push_bit 8 (fld32 b 12 3) OR fld32 b 0 8)))
     else None)"

subsection \<open>Execution\<close>

definition cond32 :: "cpsr \<Rightarrow> u32 \<Rightarrow> bool" where
  "cond32 f c =
     (let k = drop_bit 1 c;
          r = (if k = 0 then cZ f else if k = 1 then cC f else if k = 2 then cN f else if k = 3 then cV f
               else if k = 4 then cC f \<and> \<not> cZ f else if k = 5 then cN f = cV f
               else if k = 6 then cN f = cV f \<and> \<not> cZ f else True)
      in if bit c 0 \<and> c \<noteq> 15 then \<not> r else r)"

definition pc_value :: "a32_state \<Rightarrow> u32" where
  "pc_value s = ip s + (if tb s then 4 else 8)"

definition rR :: "a32_state \<Rightarrow> nat \<Rightarrow> u32" where
  "rR s r = (if r = 15 then pc_value s else rg s r)"

text \<open>An interworking write of the program counter, and a write of any register before the next instruction.\<close>

definition bx_to :: "u32 \<Rightarrow> a32_state \<Rightarrow> a32_state" where
  "bx_to v s = (if bit v 0 then s\<lparr>ip := v AND NOT 1, tb := True\<rparr> else s\<lparr>ip := v, tb := False\<rparr>)"

definition skip :: "u32 \<Rightarrow> a32_state \<Rightarrow> a32_state" where
  "skip n s = s\<lparr>ip := ip s + n\<rparr>"

definition setR :: "nat \<Rightarrow> u32 \<Rightarrow> a32_state \<Rightarrow> a32_state" where
  "setR r v s = s\<lparr>rg := (rg s)(r := v)\<rparr>"

definition wR :: "u32 \<Rightarrow> nat \<Rightarrow> u32 \<Rightarrow> a32_state \<Rightarrow> a32_state" where
  "wR n r v s = (if r = 15 then bx_to v s else skip n (setR r v s))"

text \<open>The result of a data-processing instruction; in Thumb state a write of the program counter does not change the state.\<close>

definition wA :: "u32 \<Rightarrow> nat \<Rightarrow> u32 \<Rightarrow> a32_state \<Rightarrow> a32_state" where
  "wA n r v s = (if r = 15 \<and> tb s then s\<lparr>ip := v AND NOT 1\<rparr> else wR n r v s)"

definition ld32 :: "nat \<Rightarrow> a32_state \<Rightarrow> u32 \<Rightarrow> 'a::len word" where
  "ld32 n s a = le_word (map (\<lambda>i. ram s (a + word_of_nat i)) [0..<n])"

definition st32 :: "nat \<Rightarrow> u32 \<Rightarrow> 'a::len word \<Rightarrow> a32_state \<Rightarrow> a32_state" where
  "st32 n a v s = s\<lparr>ram := (\<lambda>x. if unat (x - a) < n then le_bytes n v ! unat (x - a) else ram s x)\<rparr>"

definition align4 :: "u32 \<Rightarrow> u32" where
  "align4 a = a AND NOT 3"

definition link_address :: "u32 \<Rightarrow> a32_state \<Rightarrow> u32" where
  "link_address n s = (ip s + n) OR (if tb s then 1 else 0)"

text \<open>Registers of a list, lowest first, stored below the stack pointer.\<close>

definition push_regs :: "u32 \<Rightarrow> a32_state \<Rightarrow> a32_state" where
  "push_regs l s =
     (let rs = filter (\<lambda>r. bit l r) [0..<16]; sp = rg s 13 - 4 * word_of_nat (length rs)
      in fold (\<lambda>(k, r) t. st32 4 (sp + 4 * word_of_nat k) (rR s r) t) (enumerate 0 rs) (setR 13 sp s))"

definition sub_flags :: "u32 \<Rightarrow> u32 \<Rightarrow> cpsr" where
  "sub_flags a b = \<lparr>cN = bit (a - b) 31, cZ = (a = b), cC = (b \<le> a), cV = (sint a - sint b \<noteq> sint (a - b))\<rparr>"

text \<open>\<open>n\<close> is the length of the instruction.\<close>

fun a32_exec :: "u32 \<Rightarrow> a32_instr \<Rightarrow> a32_state \<Rightarrow> a32_state" where
  "a32_exec n I_nop s = skip n s"
| "a32_exec n (I_b c off) s = (if cond32 (cc s) c then s\<lparr>ip := pc_value s + off\<rparr> else skip n s)"
| "a32_exec n (I_bl c off) s =
     (if cond32 (cc s) c then (setR 14 (link_address n s) s)\<lparr>ip := pc_value s + off\<rparr> else skip n s)"
| "a32_exec n (I_blx off) s = (setR 14 (link_address n s) s)\<lparr>ip := align4 (pc_value s) + off, tb := \<not> tb s\<rparr>"
| "a32_exec n (I_cb nz r off) s = (if (rg s r = 0) \<noteq> nz then s\<lparr>ip := pc_value s + off\<rparr> else skip n s)"
| "a32_exec n (I_lit c byte rt off) s =
     (let a = align4 (pc_value s) + off; v = (if byte then ucast (ld32 1 s a :: u8) else ld32 4 s a)
      in if cond32 (cc s) c then wR n rt v s else skip n s)"
| "a32_exec n (I_mem c load byte pre wb rt rn off) s =
     (let base = rR s rn; a = (if pre then base + off else base);
          s1 = (if \<not> pre \<or> wb then setR rn (base + off) s else s)
      in if \<not> cond32 (cc s) c then skip n s
         else if load then wR n rt (if byte then ucast (ld32 1 s a :: u8) else ld32 4 s a) s1
         else skip n (if byte then st32 1 a (ucast (rR s rt) :: u8) s1 else st32 4 a (rR s rt) s1))"
| "a32_exec n (I_adr c rd off) s = (if cond32 (cc s) c then wA n rd (align4 (pc_value s) + off) s else skip n s)"
| "a32_exec n (I_mov c rd rm) s = (if cond32 (cc s) c then wA n rd (rR s rm) s else skip n s)"
| "a32_exec n (I_addr c rd rm) s = (if cond32 (cc s) c then wA n rd (rR s rd + rR s rm) s else skip n s)"
| "a32_exec n (I_addi c rd rn imm) s = (if cond32 (cc s) c then wA n rd (rR s rn + imm) s else skip n s)"
| "a32_exec n (I_subi c rd rn imm) s = (if cond32 (cc s) c then wA n rd (rR s rn - imm) s else skip n s)"
| "a32_exec n (I_cmpi c rn imm) s = (if cond32 (cc s) c then skip n (s\<lparr>cc := sub_flags (rR s rn) imm\<rparr>) else skip n s)"
| "a32_exec n (I_push c l) s = (if cond32 (cc s) c then skip n (push_regs l s) else skip n s)"
| "a32_exec n (I_bx c rm) s = (if cond32 (cc s) c then bx_to (rR s rm) s else skip n s)"

definition a32_step :: "a32_state \<Rightarrow> a32_state option" where
  "a32_step s =
     (if tb s then
        let h1 = (ld32 2 s (ip s) :: u16) in
        if t32_wide h1 then map_option (\<lambda>i. a32_exec 4 i s) (t32_decode h1 (ld32 2 s (ip s + 2)))
        else map_option (\<lambda>i. a32_exec 2 i s) (t16_decode h1)
      else map_option (\<lambda>i. a32_exec 4 i s) (a32_decode (ld32 4 s (ip s))))"

primrec a32_run :: "nat \<Rightarrow> a32_state \<Rightarrow> a32_state option" where
  "a32_run 0 s = Some s"
| "a32_run (Suc n) s = Option.bind (a32_step s) (a32_run n)"

lemma a32_run_add: "a32_run (m + n) s = Option.bind (a32_run m s) (a32_run n)"
proof (induction m arbitrary: s)
  case (Suc m)
  then show ?case by (cases "a32_step s") simp_all
qed simp

text \<open>The bytes \<open>bs\<close> are in memory from address \<open>a\<close> on.\<close>

definition in_ram :: "a32_state \<Rightarrow> u32 \<Rightarrow> u8 list \<Rightarrow> bool" where
  "in_ram s a bs \<longleftrightarrow> (\<forall>i < length bs. ram s (a + word_of_nat i) = bs ! i)"

lemma in_ram_ld:
  assumes "in_ram s a bs" "off + n \<le> length bs"
  shows "ld32 n s (a + word_of_nat off) = le_word (take n (drop off bs))"
proof -
  have "map (\<lambda>i. ram s (a + word_of_nat off + word_of_nat i)) [0..<n] = take n (drop off bs)"
    using assms by (intro nth_equalityI) (auto simp: in_ram_def add.assoc simp flip: of_nat_add)
  then show ?thesis by (simp add: ld32_def)
qed

lemma cond32_always [simp]: "cond32 f 14" "cond32 f 15"
  by (simp_all add: cond32_def Let_def)

lemma run_simps [simp]:
  "ram (skip n s) = ram s" "tb (skip n s) = tb s" "rg (skip n s) = rg s" "cc (skip n s) = cc s" "ip (skip n s) = ip s + n"
  "ram (setR r v s) = ram s" "tb (setR r v s) = tb s" "rg (setR r v s) = (rg s)(r := v)" "cc (setR r v s) = cc s" "ip (setR r v s) = ip s"
  "ram (bx_to v s) = ram s" "rg (bx_to v s) = rg s" "cc (bx_to v s) = cc s"
  by (simp_all add: skip_def setR_def bx_to_def)

end
