(* ===== verification/Arm32_Reloc.thy ===== *)
theory Arm32_Reloc
  imports Arm32_Asm Arm32_Sem
begin

text \<open>
  The 32-bit instruction relocator (\<^verbatim>\<open>InstructionRelocation/arm/InstructionRelocationARM.cc\<close>), for A32 and Thumb code,
  and the trampolines of \<^verbatim>\<open>trampoline_arm.cc\<close>. The instruction set is chosen at the start and never changes
  (\<^verbatim>\<open>curr_state\<close> is not assigned again), so only one of the two assemblers over the common buffer is used; the other has no
  labels. An abort is \<open>None\<close>, and so is a read behind the end of the source buffer.
\<close>

subsection \<open>Helpers\<close>

datatype execute_state = ARMExecuteState | ThumbExecuteState

record relo_ctx32 =
  c_buffer :: "u8 list"
  c_cursor :: nat
  c_size :: nat
  c_src :: addr32
  c_changed :: "addr32 list"
  c_offsets :: "(nat \<times> nat) list"

definition relo_cur_src_vmaddr32 :: "execute_state \<Rightarrow> relo_ctx32 \<Rightarrow> addr32" where
  "relo_cur_src_vmaddr32 st ctx =
     (let relocated_len = c_cursor ctx in
      if st = ARMExecuteState then c_src ctx + word_of_nat relocated_len + word_of_nat ARM_PC_OFFSET
      else c_src ctx + word_of_nat relocated_len + word_of_nat Thumb_PC_OFFSET)"

definition is_thumb2 :: "u32 \<Rightarrow> bool" where
  "is_thumb2 insn =
     (let insn1 = ucast insn :: u16; op0 = bits insn1 13 15; op1 = bits insn1 11 12 in op0 = 7 \<and> op1 \<noteq> 0)"

definition check_execute_state_changed :: "relo_ctx32 \<Rightarrow> addr32 \<Rightarrow> bool" where
  "check_execute_state_changed ctx insn_addr \<longleftrightarrow> insn_addr \<in> set (c_changed ctx)"

definition SignExtend32 :: "u32 \<Rightarrow> nat \<Rightarrow> u32" where
  "SignExtend32 x M =
     (let sign_bit = bit1 x (M - 1); sign_mask = 0 - sign_bit in x OR push_bit M (drop_bit M sign_mask))"

datatype arm_shift_type = arm_shift_lsl | arm_shift_lsr | arm_shift_asr | arm_shift_ror | arm_shift_rrx

definition arm_shift_c :: "u32 \<Rightarrow> arm_shift_type \<Rightarrow> nat \<Rightarrow> u32 \<Rightarrow> u32" where
  "arm_shift_c val shift_type shift_count carry_in =
     (if shift_count = 0 then val else case shift_type of
        arm_shift_lsl \<Rightarrow> push_bit shift_count val
      | arm_shift_lsr \<Rightarrow> drop_bit 1 (drop_bit (shift_count - 1) val)
      | arm_shift_asr \<Rightarrow> drop_bit 1 (drop_bit (shift_count - 1) val)
      | arm_shift_ror \<Rightarrow> drop_bit (shift_count mod 32) val OR push_bit (32 - shift_count mod 32) val
      | arm_shift_rrx \<Rightarrow> push_bit 31 carry_in OR drop_bit 1 val)"

definition arm_expand_imm_c :: "u32 \<Rightarrow> u32" where
  "arm_expand_imm_c imm12 =
     (let unrotated_value = bits imm12 0 7 in arm_shift_c unrotated_value arm_shift_ror (2 * unat (bits imm12 8 11)) 0)"

text \<open>A new label with a 32-bit value, appended to the labels of the assembler.\<close>

definition data_label32 :: "assembler \<Rightarrow> u32 \<Rightarrow> assembler \<times> nat" where
  "data_label32 a v = (let (a1, l) = new_label a (withData (le_bytes 4 v)) in (AppendRelocLabel a1 l, l))"

subsection \<open>A32 instructions\<close>

definition is_arm_literal :: "u32 \<Rightarrow> bool" where
  "is_arm_literal insn =
     (let P = bit1 insn 24; W = bit1 insn 21; o1 = bit1 insn 20; o2 = bit1 insn 22; Rn = bits insn 16 19;
          P_W = push_bit 1 P OR W
      in bits insn 28 31 \<noteq> 15 \<and> bits insn 25 27 = 2 \<and>
         (o1 = 1 \<and> o2 = 0 \<and> P_W \<noteq> 1 \<and> Rn = 15 \<or> o1 = 1 \<and> o2 = 1 \<and> P_W \<noteq> 1 \<and> Rn = 15))"

definition arm_relo_literal :: "addr32 \<Rightarrow> u32 \<Rightarrow> assembler \<Rightarrow> assembler option" where
  "arm_relo_literal cur insn a =
     (let U = bit1 insn 23; imm12 = bits insn 0 11; Rt = unat (bits insn 12 15);
          dst_vmaddr = (if U = 1 then cur + imm12 else cur - imm12);
          (a, label) = data_label32 a dst_vmaddr
      in if Rt = PC
         then Option.bind (arm_Ldr32 a VOLATILE_REGISTER label) (\<lambda>a. arm_ldr32 a Rt (MemOperand32 VOLATILE_REGISTER 0))
         else Option.bind (arm_Ldr32 a Rt label) (\<lambda>a. arm_ldr32 a Rt (MemOperand32 Rt 0)))"

text \<open>The target of an \<^verbatim>\<open>ADR\<close>, or -1.\<close>

definition arm_adr_target :: "addr32 \<Rightarrow> u32 \<Rightarrow> u32" where
  "arm_adr_target cur insn =
     (if bits insn 28 31 \<noteq> 15 \<and> bits insn 25 27 AND 6 = 0 \<and> bit1 insn 25 = 1 \<and> bits insn 23 24 AND 2 = 0 then
        let opc = bits insn 21 23; S = bit1 insn 20; Rn = bits insn 16 19; imm = arm_expand_imm_c (bits insn 0 11) in
        if opc = 2 \<and> S = 0 \<and> Rn = 15 then cur - imm
        else if opc = 4 \<and> S = 0 \<and> Rn = 15 then cur + imm
        else -1
      else -1)"

definition arm_relo_adr :: "u32 \<Rightarrow> u32 \<Rightarrow> assembler \<Rightarrow> assembler option" where
  "arm_relo_adr dst_vmaddr insn a =
     (let Rd = unat (bits insn 12 15); (a, dst_label) = data_label32 a dst_vmaddr in arm_Ldr32 a Rd dst_label)"

definition arm_relo_branch :: "addr32 \<Rightarrow> u32 \<Rightarrow> assembler \<Rightarrow> assembler option" where
  "arm_relo_branch cur insn a =
     (let c = bits insn 28 31; H = bit1 insn 24; imm24 = bits insn 0 23;
          label = SignExtend32 (push_bit 2 imm24) 26;
          dst = cur + label;
          (branch_link, c, dst_vmaddr) =
            (if c \<noteq> 15 \<and> H = 0 then (False, c, dst) else if c \<noteq> 15 \<and> H = 1 then (True, c, dst) else (True, AL, dst OR 1));
          a = (if branch_link then arm_bl32 a c 0 else arm_b32 a c 0);
          a = arm_b32 a AL 4
      in map_option (\<lambda>a. arm_mov32 (arm_EmitAddress a dst_vmaddr) AL R8 (OperandReg R8)) (arm_ldr32 a PC (MemOperand32 PC (-4))))"

definition ARMRelocateSingleInsn :: "addr32 \<Rightarrow> u32 \<Rightarrow> assembler \<Rightarrow> assembler option" where
  "ARMRelocateSingleInsn cur insn a =
     (if is_arm_literal insn then arm_relo_literal cur insn a
      else if arm_adr_target cur insn \<noteq> -1 then arm_relo_adr (arm_adr_target cur insn) insn a
      else if bits insn 25 27 AND 6 = 4 \<and> bit1 insn 25 = 1 then arm_relo_branch cur insn a
      else Some (arm_EmitARMInst a insn))"

subsection \<open>16-bit Thumb instructions\<close>

text \<open>The results are the addresses from which on the code is A32, and the assembler.\<close>

definition thumb1_special :: "addr32 \<Rightarrow> u16 \<Rightarrow> assembler \<Rightarrow> (addr32 list \<times> assembler) option option" where
  "thumb1_special cur insn a =
     (let op0 = bits insn 8 9 in
      if op0 \<noteq> 3 then
        if bits insn 3 6 = 15 then
          let rewrite_inst = set_bits insn 3 6 (word_of_nat VOLATILE_REGISTER);
              (a, label) = data_label32 a cur
          in Some (map_option (\<lambda>a. ([], EmitInt16 a rewrite_inst)) (T2_Ldr a VOLATILE_REGISTER label))
        else None
      else if bits insn 3 6 = 15 then
        let (a, label) = data_label32 a cur in
        if bit1 insn 7 = 0 then Some (map_option (Pair [cur]) (T2_Ldr a PC label))
        else Some (Option.bind (t2_bl a 4) (\<lambda>a. Option.bind (t2_b a 4) (\<lambda>a. map_option (Pair [cur]) (T2_Ldr a PC label))))
      else None)"

definition thumb1_ldr_literal :: "addr32 \<Rightarrow> u16 \<Rightarrow> assembler \<Rightarrow> assembler option" where
  "thumb1_ldr_literal cur insn a =
     (let imm = push_bit 2 (ucast (bits insn 0 7)); dst_vmaddr = (cur + imm) AND NOT (4 - 1);
          rt = unat (bits insn 8 10);
          (a, label) = data_label32 a dst_vmaddr
      in map_option (\<lambda>a. t2_ldr a rt (MemOperand32 rt 0)) (T2_Ldr a rt label))"

definition thumb1_adr :: "addr32 \<Rightarrow> u16 \<Rightarrow> assembler \<Rightarrow> assembler option" where
  "thumb1_adr cur insn a =
     (let rd = unat (bits insn 8 10); imm32 = push_bit 2 (ucast (bits insn 0 7)); dst_vmaddr = cur + imm32;
          (a, label) = data_label32 a dst_vmaddr
      in T2_Ldr a rd label)"

definition thumb1_b_cond :: "addr32 \<Rightarrow> u16 \<Rightarrow> assembler \<Rightarrow> assembler option" where
  "thumb1_b_cond cur insn a =
     (let c = bits insn 8 11 in
      if c \<ge> 14 then None
      else
        let imm = SignExtend32 (push_bit 1 (ucast (bits insn 0 7))) 9; dst_vmaddr = (cur + imm) OR 1;
            (a, label) = data_label32 a dst_vmaddr;
            b_cond_insn = set_bits (0xe000 :: u16) 8 11 c;
            a = t1_nop (EmitInt16 a (b_cond_insn OR drop_bit 1 4))
        in Option.bind (t2_b a 4) (\<lambda>a. T2_Ldr a PC label))"

definition thumb1_cbz :: "addr32 \<Rightarrow> u16 \<Rightarrow> assembler \<Rightarrow> assembler option" where
  "thumb1_cbz cur insn a =
     (let imm5 = bits insn 3 7; i = bit1 insn 9; imm = (push_bit 6 (ucast i) OR push_bit 1 (ucast imm5) :: u32);
          dst_vmaddr = cur + imm;
          (a, label) = data_label32 a (dst_vmaddr + 1);
          insn = set_bits insn 3 7 (bits 4 1 5);
          insn = set_bit1 insn 9 (bit1 4 6);
          a = t1_nop (EmitInt16 a insn)
      in Option.bind (t2_b a 4) (\<lambda>a. T2_Ldr a PC label))"

definition thumb1_b :: "addr32 \<Rightarrow> u16 \<Rightarrow> assembler \<Rightarrow> assembler option" where
  "thumb1_b cur insn a =
     (let imm = SignExtend32 (push_bit 1 (ucast (bits insn 0 10))) 12; dst_vmaddr = cur + imm;
          (a, label) = data_label32 a (dst_vmaddr + 1)
      in T2_Ldr a PC label)"

definition Thumb1RelocateSingleInsn :: "addr32 \<Rightarrow> u16 \<Rightarrow> assembler \<Rightarrow> (addr32 list \<times> assembler) option" where
  "Thumb1RelocateSingleInsn cur insn a0 =
     (let a = AlignThumbNop a0;
          special = (if bits insn 10 15 = 17 then thumb1_special cur insn a else None)
      in case special of Some r \<Rightarrow> r | None \<Rightarrow>
         (if insn AND 0xf800 = 0x4800 then map_option (Pair []) (thumb1_ldr_literal cur insn a)
          else if insn AND 0xf800 = 0xa000 then map_option (Pair []) (thumb1_adr cur insn a)
          else if insn AND 0xf000 = 0xd000 then map_option (Pair []) (thumb1_b_cond cur insn a)
          else if insn AND 0xf500 = 0xb100 then map_option (Pair []) (thumb1_cbz cur insn a)
          else if insn AND 0xf800 = 0xe000 then map_option (Pair []) (thumb1_b cur insn a)
          else Some ([], EmitInt16 a insn)))"

subsection \<open>32-bit Thumb instructions\<close>

text \<open>The load of the target that stands behind it.\<close>

definition t2_ldr_address :: "assembler \<Rightarrow> addr32 \<Rightarrow> assembler" where
  "t2_ldr_address a dst_vmaddr = thumb_EmitAddress (t2_ldr a PC (MemOperand32 PC 0)) dst_vmaddr"

definition thumb2_b_cond :: "addr32 \<Rightarrow> u16 \<Rightarrow> u16 \<Rightarrow> assembler \<Rightarrow> assembler option" where
  "thumb2_b_cond cur insn1 insn2 a =
     (let S = ucast (bit1 insn1 10); J1 = ucast (bit1 insn2 13); J2 = ucast (bit1 insn2 11);
          imm6 = ucast (bits insn1 0 5); imm11 = ucast (bits insn2 0 10);
          imm = SignExtend32 (push_bit 20 S OR push_bit 19 J2 OR push_bit 18 J1 OR push_bit 12 imm6 OR push_bit 1 imm11) 21;
          dst_vmaddr = (cur + imm) OR 1;
          c = bits insn1 6 9;
          b_cond_insn = set_bits (0xe000 :: u16) 8 11 c;
          a = t1_nop (EmitInt16 a (b_cond_insn OR drop_bit 1 4))
      in map_option (\<lambda>a. t2_ldr_address a dst_vmaddr) (t2_b a 8))"

definition thumb2_imm :: "u16 \<Rightarrow> u16 \<Rightarrow> u32" where
  "thumb2_imm insn1 insn2 =
     (let S = ucast (bit1 insn1 10); J1 = bit1 insn2 13; J2 = bit1 insn2 11;
          imm10 = ucast (bits insn1 0 9); imm11 = ucast (bits insn2 0 10);
          i1 = (if J1 XOR bit1 insn1 10 = 0 then 1 else 0); i2 = (if J2 XOR bit1 insn1 10 = 0 then 1 else 0)
      in SignExtend32 (push_bit 24 S OR push_bit 23 i1 OR push_bit 22 i2 OR push_bit 12 imm10 OR push_bit 1 imm11) 25)"

definition thumb2_b :: "addr32 \<Rightarrow> u16 \<Rightarrow> u16 \<Rightarrow> assembler \<Rightarrow> assembler option" where
  "thumb2_b cur insn1 insn2 a = Some (t2_ldr_address a ((cur + thumb2_imm insn1 insn2) OR 1))"

text \<open>The call sequence of \<^verbatim>\<open>BL\<close> and \<^verbatim>\<open>BLX\<close>.\<close>

definition t2_call :: "assembler \<Rightarrow> addr32 \<Rightarrow> assembler option" where
  "t2_call a dst_vmaddr = Option.bind (t2_bl a 4) (\<lambda>a. map_option (\<lambda>a. t2_ldr_address a dst_vmaddr) (t2_b a 8))"

definition thumb2_bl :: "addr32 \<Rightarrow> u16 \<Rightarrow> u16 \<Rightarrow> assembler \<Rightarrow> assembler option" where
  "thumb2_bl cur insn1 insn2 a = t2_call a ((cur + thumb2_imm insn1 insn2) OR 1)"

definition thumb2_blx :: "addr32 \<Rightarrow> u16 \<Rightarrow> u16 \<Rightarrow> assembler \<Rightarrow> assembler option" where
  "thumb2_blx cur insn1 insn2 a =
     (let S = ucast (bit1 insn1 10); J1 = bit1 insn2 13; J2 = bit1 insn2 11;
          imm10h = ucast (bits insn1 0 9); imm10l = ucast (bits insn2 1 10);
          i1 = (if J1 XOR bit1 insn1 10 = 0 then 1 else 0); i2 = (if J2 XOR bit1 insn1 10 = 0 then 1 else 0);
          imm = SignExtend32 (push_bit 24 S OR push_bit 23 i1 OR push_bit 22 i2 OR push_bit 12 imm10h OR push_bit 2 imm10l) 24;
          dst_vmaddr = cur AND NOT (4 - 1)
      in t2_call a (dst_vmaddr + imm))"

text \<open>The operand of \<^verbatim>\<open>ADR.W\<close>: the register and the address.\<close>

definition thumb2_adr_target :: "addr32 \<Rightarrow> u16 \<Rightarrow> u16 \<Rightarrow> (nat \<times> addr32) option" where
  "thumb2_adr_target cur insn1 insn2 =
     (if insn1 AND 0xfa10 = 0xf200 \<and> insn2 AND 0x8000 = 0 \<and> bit1 insn1 8 = 0 \<and> bits insn2 5 6 AND 2 = 0 then
        let o1 = bit1 insn1 7; o2 = bit1 insn1 5; rn = bits insn1 0 3 in
        if (o1 = 0 \<and> o2 = 0 \<or> o1 = 1 \<and> o2 = 1) \<and> rn = 15 then
          let i = ucast (bit1 insn1 10); imm3 = ucast (bits insn2 12 14); imm8 = ucast (bits insn2 0 7);
              rd = unat (bits insn2 8 11);
              imm = (push_bit 11 i OR push_bit 8 imm3 OR imm8 :: u32)
          in Some (rd, if o1 = 0 \<and> o2 = 0 then cur + imm else cur - imm)
        else None
      else None)"

definition thumb2_adr :: "nat \<Rightarrow> addr32 \<Rightarrow> assembler \<Rightarrow> assembler option" where
  "thumb2_adr rd dst_vmaddr a = map_option (\<lambda>a. thumb_EmitAddress a dst_vmaddr) (t2_b (t2_ldr a rd (MemOperand32 PC 4)) 0)"

definition thumb2_ldr_literal :: "addr32 \<Rightarrow> u16 \<Rightarrow> u16 \<Rightarrow> assembler \<Rightarrow> assembler option" where
  "thumb2_ldr_literal cur insn1 insn2 a =
     (let U = bit1 insn1 7; imm = ucast (bits insn2 0 11); rt = unat (bits insn2 12 15);
          dst_vmaddr = (if U = 1 then cur + imm else cur - imm);
          a = t2_ldr a rt (MemOperand32 PC 8);
          a = t2_ldr a rt (MemOperand32 rt 0)
      in map_option (\<lambda>a. thumb_EmitAddress a dst_vmaddr) (t2_b a 4))"

definition Thumb2RelocateSingleInsn :: "addr32 \<Rightarrow> u16 \<Rightarrow> u16 \<Rightarrow> assembler \<Rightarrow> assembler option" where
  "Thumb2RelocateSingleInsn cur insn1 insn2 a0 =
     (let a = AlignThumbNop a0;
          branch = (insn1 AND 0xf800 = 0xf000 \<and> insn2 AND 0x8000 = 0x8000);
          op1 = bits insn1 6 9; op3 = bits insn2 12 14
      in if branch \<and> op1 AND 0xE \<noteq> 0xE \<and> op3 AND 5 = 0 then thumb2_b_cond cur insn1 insn2 a
         else if branch \<and> op3 AND 5 = 1 then thumb2_b cur insn1 insn2 a
         else if branch \<and> op3 AND 5 = 5 then thumb2_bl cur insn1 insn2 a
         else if branch \<and> op3 AND 5 = 4 then thumb2_blx cur insn1 insn2 a
         else case thumb2_adr_target cur insn1 insn2 of
             Some (rd, dst_vmaddr) \<Rightarrow> thumb2_adr rd dst_vmaddr a
           | None \<Rightarrow>
               if insn1 AND 0xff7f = 0xf85f then thumb2_ldr_literal cur insn1 insn2 a
               else Some (EmitInt16 (EmitInt16 a insn1) insn2))"

subsection \<open>The loops over the prologue\<close>

definition note_offset :: "relo_ctx32 \<Rightarrow> assembler \<Rightarrow> relo_ctx32" where
  "note_offset ctx a = ctx\<lparr>c_offsets := (c_cursor ctx, GetBufferSize (asm_buffer a)) # c_offsets ctx\<rparr>"

function gen_arm_relocate_code :: "relo_ctx32 \<Rightarrow> assembler \<Rightarrow> (relo_ctx32 \<times> assembler) option" where
  "gen_arm_relocate_code ctx a =
     (if c_cursor ctx < c_size ctx then
        (case LoadARMInst (c_buffer ctx) (c_cursor ctx) of None \<Rightarrow> None
         | Some insn \<Rightarrow> (case ARMRelocateSingleInsn (relo_cur_src_vmaddr32 ARMExecuteState ctx) insn a of None \<Rightarrow> None
            | Some a' \<Rightarrow>
                let ctx' = (note_offset ctx a)\<lparr>c_cursor := c_cursor ctx + ARM_INST_LEN\<rparr>;
                    next_insn_addr = relo_cur_src_vmaddr32 ARMExecuteState ctx' - word_of_nat ARM_PC_OFFSET
                in if check_execute_state_changed ctx' next_insn_addr then Some (ctx', a') else gen_arm_relocate_code ctx' a'))
      else Some (ctx, a))"
  by pat_completeness auto
termination
  by (relation "measure (\<lambda>(ctx, _). c_size ctx - c_cursor ctx)") (auto simp: ARM_INST_LEN_def note_offset_def)

declare gen_arm_relocate_code.simps [simp del]

function gen_thumb_relocate_code :: "relo_ctx32 \<Rightarrow> assembler \<Rightarrow> (relo_ctx32 \<times> assembler) option" where
  "gen_thumb_relocate_code ctx a =
     (if c_cursor ctx < c_size ctx then
        (case LoadThumb2Inst (c_buffer ctx) (c_cursor ctx) of None \<Rightarrow> None
         | Some insn \<Rightarrow>
             let ctx1 = note_offset ctx a; a1 = t1_nop a; cur = relo_cur_src_vmaddr32 ThumbExecuteState ctx;
                 insn1 = ucast insn; insn2 = ucast (drop_bit 16 insn)
             in (case (if is_thumb2 insn then map_option (Pair []) (Thumb2RelocateSingleInsn cur insn1 insn2 a1)
                       else Thumb1RelocateSingleInsn cur insn1 a1) of None \<Rightarrow> None
                 | Some (changed, a') \<Rightarrow>
                    let ctx' = ctx1\<lparr>c_changed := changed @ c_changed ctx,
                          c_cursor := c_cursor ctx + (if is_thumb2 insn then Thumb2_INST_LEN else Thumb1_INST_LEN)\<rparr>;
                        next_insn_addr = relo_cur_src_vmaddr32 ThumbExecuteState ctx' - word_of_nat Thumb_PC_OFFSET
                    in if check_execute_state_changed ctx' next_insn_addr then Some (ctx', a') else gen_thumb_relocate_code ctx' a'))
      else Some (ctx, a))"
  by pat_completeness auto
termination
  by (relation "measure (\<lambda>(ctx, _). c_size ctx - c_cursor ctx)")
    (auto simp: Thumb1_INST_LEN_def Thumb2_INST_LEN_def note_offset_def split: if_splits)

declare gen_thumb_relocate_code.simps [simp del]

lemma gen_thumb_progress:
  "gen_thumb_relocate_code ctx a = Some (ctx', a') \<Longrightarrow>
     c_cursor ctx \<le> c_cursor ctx' \<and> c_size ctx' = c_size ctx \<and> (c_cursor ctx < c_size ctx \<longrightarrow> c_cursor ctx < c_cursor ctx')"
proof (induction ctx a rule: gen_thumb_relocate_code.induct)
  case (1 ctx a)
  show ?case
    using 1(2)
    by (subst (asm) gen_thumb_relocate_code.simps)
      (auto simp: Let_def note_offset_def Thumb1_INST_LEN_def Thumb2_INST_LEN_def split: if_splits option.splits
        dest!: 1(1) [rotated -1])
qed


subsection \<open>The whole relocation\<close>

definition gen_relocate_code :: "execute_state \<Rightarrow> relo_ctx32 \<Rightarrow> assembler \<Rightarrow> (relo_ctx32 \<times> assembler) option" where
  "gen_relocate_code st ctx a = (if st = ThumbExecuteState then gen_thumb_relocate_code ctx a else gen_arm_relocate_code ctx a)"

lemma gen_arm_progress:
  "gen_arm_relocate_code ctx a = Some (ctx', a') \<Longrightarrow>
     c_cursor ctx \<le> c_cursor ctx' \<and> c_size ctx' = c_size ctx \<and> (c_cursor ctx < c_size ctx \<longrightarrow> c_cursor ctx < c_cursor ctx')"
proof (induction ctx a rule: gen_arm_relocate_code.induct)
  case (1 ctx a)
  show ?case
    using 1(2)
    by (subst (asm) gen_arm_relocate_code.simps)
      (auto simp: Let_def note_offset_def ARM_INST_LEN_def split: if_splits option.splits dest!: 1(1) [rotated -1])
qed

text \<open>
  The label \<^verbatim>\<open>relocate_remain\<close>. A loop that stops before the end has set the other state in its assembler, so the
  code jumps back, with an aligning no-operation in Thumb code; \<^verbatim>\<open>curr_state\<close> is still the old one.
\<close>

function relocate_remain :: "execute_state \<Rightarrow> relo_ctx32 \<Rightarrow> assembler \<Rightarrow> (relo_ctx32 \<times> assembler) option" where
  "relocate_remain st ctx a =
     (case gen_relocate_code st ctx a of None \<Rightarrow> None
      | Some (ctx', a') \<Rightarrow>
          if c_cursor ctx' < c_size ctx'
          then relocate_remain st ctx' (if st = ThumbExecuteState \<and> pc_offset a' mod 4 \<noteq> 0 then t1_nop a' else a')
          else Some (ctx', a'))"
  by pat_completeness auto
termination
proof (relation "measure (\<lambda>(st, ctx, _). c_size ctx - c_cursor ctx)")
  fix st ctx a p ctx' a'
  assume "gen_relocate_code st ctx a = Some p" "(ctx', a') = p" "c_cursor ctx' < c_size ctx'"
  then have "c_cursor ctx < c_cursor ctx'" "c_size ctx' = c_size ctx" "c_cursor ctx' < c_size ctx"
    using gen_arm_progress [of ctx a ctx' a'] gen_thumb_progress [of ctx a ctx' a']
    by (auto simp: gen_relocate_code_def split: if_splits)
  then show "((st, ctx', if st = ThumbExecuteState \<and> pc_offset a' mod 4 \<noteq> 0 then t1_nop a' else a'), st, ctx, a)
    \<in> measure (\<lambda>(st, ctx, _). c_size ctx - c_cursor ctx)" by simp
qed simp

declare relocate_remain.simps [simp del]

text \<open>\<^verbatim>\<open>RelocLabelFixup\<close>: a value that is the offset of a relocated instruction is replaced by its new offset.\<close>

primrec RelocLabelFixup :: "(nat \<times> nat) list \<Rightarrow> nat list \<Rightarrow> assembler \<Rightarrow> assembler" where
  "RelocLabelFixup offs [] a = a"
| "RelocLabelFixup offs (l # ls) a =
     RelocLabelFixup offs ls
       (case map_of (map (\<lambda>(o1, o2). (int o1, o2)) offs) (sint (le_word (take 4 (label_data (label_heap a ! l))) :: u32)) of
          None \<Rightarrow> a
        | Some v \<Rightarrow> a\<lparr>label_heap := (label_heap a)[l := fixupData (label_heap a ! l) (le_bytes 4 (word_of_nat v :: u32))]\<rparr>)"

definition link_of :: "execute_state \<Rightarrow> reloc_label \<Rightarrow> code_buffer \<Rightarrow> code_buffer option" where
  "link_of st = (if st = ThumbExecuteState then thumb_link_confused_instructions else arm32_link_confused_instructions)"

text \<open>
  \<^verbatim>\<open>GenRelocateCode\<close> up to the point where the code is placed; the instruction set is the lowest bit of the address of
  the code. The result is the context, the new length of the origin block and the assembler with its final buffer.
\<close>

definition relocate_branch :: "execute_state \<Rightarrow> addr32 \<Rightarrow> assembler \<Rightarrow> assembler option" where
  "relocate_branch st next_addr a =
     (if st = ThumbExecuteState
      then Some (thumb_EmitAddress (t2_ldr (AlignThumbNop a) PC (MemOperand32 PC 0)) (next_addr + THUMB_ADDRESS_FLAG))
      else arm_LiteralLdrBranch32 a next_addr)"

definition GenRelocateCode32 :: "execute_state \<Rightarrow> u8 list \<Rightarrow> nat \<Rightarrow> addr32 \<Rightarrow> bool \<Rightarrow> (relo_ctx32 \<times> nat \<times> assembler) option" where
  "GenRelocateCode32 st code_bytes origin_len origin_addr branch =
     (let ctx = \<lparr>c_buffer = code_bytes, c_cursor = 0, c_size = origin_len, c_src = origin_addr, c_changed = [], c_offsets = []\<rparr> in
      Option.bind (relocate_remain st ctx (AssemblerBase 0)) (\<lambda>(ctx, a).
        let new_origin_len = c_cursor ctx in
        Option.bind (if branch then relocate_branch st (origin_addr + word_of_nat new_origin_len) a else Some a) (\<lambda>a.
          let a = RelocLabelFixup (c_offsets ctx) (data_labels a) a in
          map_option (\<lambda>a. (ctx, new_origin_len, a)) (RelocBind (link_of st) a))))"

subsection \<open>Trampolines (trampoline\_arm.cc)\<close>

definition generate_arm_trampoline :: "addr32 \<Rightarrow> addr32 \<Rightarrow> code_buffer option" where
  "generate_arm_trampoline from_addr to_addr =
     map_option (\<lambda>a. Copy (asm_buffer a)) (arm_LiteralLdrBranch32 (AssemblerBase (ucast from_addr)) to_addr)"

definition generate_thumb_trampoline :: "addr32 \<Rightarrow> addr32 \<Rightarrow> code_buffer" where
  "generate_thumb_trampoline from_addr to_addr =
     Copy (asm_buffer (thumb_EmitAddress (t2_ldr (AlignThumbNop (AssemblerBase (ucast from_addr))) PC (MemOperand32 PC 0)) to_addr))"

definition GenerateNormalTrampolineBuffer32 :: "addr32 \<Rightarrow> addr32 \<Rightarrow> code_buffer option" where
  "GenerateNormalTrampolineBuffer32 from_addr to_addr =
     (if from_addr mod 2 = 0 then generate_arm_trampoline from_addr to_addr
      else Some (generate_thumb_trampoline (from_addr - THUMB_ADDRESS_FLAG) to_addr))"

end
