(* ===== verification/Arm32_Blocks.thy ===== *)
theory Arm32_Blocks
  imports Arm32_Reloc
begin

text \<open>
  The relocation loops of both instruction sets as lists of blocks. The locale states what a loop has to do with one
  instruction; the layout of the whole relocated code follows once, for A32 and for Thumb.
\<close>

subsection \<open>Fixing up labels\<close>

definition fixup_value :: "(nat \<times> nat) list \<Rightarrow> u8 list \<Rightarrow> u8 list" where
  "fixup_value offs v =
     (case map_of (map (\<lambda>(o1, o2). (int o1, o2)) offs) (sint (le_word v :: u32)) of
        None \<Rightarrow> v | Some n \<Rightarrow> le_bytes 4 (word_of_nat n :: u32))"

definition fix_lit :: "(nat \<times> nat) list \<Rightarrow> lit_block \<Rightarrow> lit_block" where
  "fix_lit offs b = (fst b, map_option (\<lambda>(j, v). (j, fixup_value offs v)) (snd b))"

definition fix_label :: "(nat \<times> nat) list \<Rightarrow> reloc_label \<Rightarrow> reloc_label" where
  "fix_label offs l =
     (case map_of (map (\<lambda>(o1, o2). (int o1, o2)) offs) (sint (le_word (take 4 (label_data l)) :: u32)) of
        None \<Rightarrow> l | Some n \<Rightarrow> fixupData l (le_bytes 4 (word_of_nat n :: u32)))"

lemma fst_fix_lit [simp]: "fst (fix_lit offs b) = fst b"
  by (simp add: fix_lit_def)

lemma code_of_fix_lit [simp]: "code_of (map (fix_lit offs) bs) = code_of bs"
  by (induction bs) auto

lemma block_pos_fix_lit [simp]: "block_pos (map (fix_lit offs) bs) k = block_pos bs k"
  by (simp add: block_pos_def take_map)

lemma length_fixup_value: "length v = 4 \<Longrightarrow> length (fixup_value offs v) = 4"
  by (simp add: fixup_value_def split: option.split)

lemma lit_ok_fix_lit: "lit_ok w 4 b \<Longrightarrow> lit_ok w 4 (fix_lit offs b)"
  by (auto simp: lit_ok_def fix_lit_def length_fixup_value split: option.splits)

lemma fix_label_linked: "length v = 4 \<Longrightarrow> fix_label offs (linked_label kind p v) = linked_label kind p (fixup_value offs v)"
  by (auto simp: fix_label_def fixup_value_def linked_label_def link_to_def withData_def setData_def RelocLabel_def
      fixupData_def split: option.split)

lemma block_labels_fix_lit:
  "\<forall>b \<in> set bs. lit_ok w 4 b \<Longrightarrow> block_labels kind n (map (fix_lit offs) bs) = map (fix_label offs) (block_labels kind n bs)"
proof (induction bs arbitrary: n)
  case (Cons b bs)
  then show ?case by (cases "snd b") (auto simp: fix_lit_def lit_ok_def fix_label_linked)
qed simp

lemma RelocLabelFixup_heap:
  assumes "n \<le> m" "m \<le> length (label_heap a)"
  shows "RelocLabelFixup offs [n..<m] a =
     a\<lparr>label_heap := take n (label_heap a) @ map (fix_label offs) (take (m - n) (drop n (label_heap a))) @ drop m (label_heap a)\<rparr>"
  using assms
proof (induction "m - n" arbitrary: n a)
  case 0
  then show ?case by simp
next
  case (Suc d)
  then have n: "n < m" "n < length (label_heap a)" by linarith+
  have "RelocLabelFixup offs [n..<m] a = RelocLabelFixup offs [Suc n..<m] (a\<lparr>label_heap := (label_heap a)[n := fix_label offs (label_heap a ! n)]\<rparr>)"
    using n by (auto simp: upt_conv_Cons fix_label_def split: option.split)
  also have "\<dots> = a\<lparr>label_heap := take n (label_heap a) @ map (fix_label offs) (take (m - n) (drop n (label_heap a))) @ drop m (label_heap a)\<rparr>"
  proof -
    have "m - n = Suc (m - Suc n)" using n by simp
    moreover have "drop n (label_heap a) = label_heap a ! n # drop (Suc n) (label_heap a)" using n by (simp add: Cons_nth_drop_Suc)
    ultimately show ?thesis using Suc.hyps Suc.prems n
      by (simp add: take_Suc_conv_app_nth take_update_cancel drop_update_cancel)
  qed
  finally show ?case .
qed

lemma fixup_blocks:
  assumes "label_heap a = []" "data_labels a = []" "\<forall>b \<in> set bs. lit_ok w 4 b"
  shows "RelocLabelFixup offs (data_labels (foldl (put_block kind) a bs)) (foldl (put_block kind) a bs) =
     foldl (put_block kind) a (map (fix_lit offs) bs)"
proof -
  let ?a = "foldl (put_block kind) a bs" and ?b = "foldl (put_block kind) a (map (fix_lit offs) bs)"
  have d: "data_labels ?a = [0..<length (label_heap ?a)]" "data_labels ?b = [0..<length (label_heap ?b)]"
    using put_blocks_data assms by simp_all
  have h: "label_heap ?b = map (fix_label offs) (label_heap ?a)"
    using assms by (simp add: put_blocks block_labels_fix_lit)
  have r: "realized_addr (foldl (put_block kind) a xs) = realized_addr a" for xs
    by (induction xs arbitrary: a) (auto simp: put_block_def split: option.splits)
  have m: "assembler.more (foldl (put_block kind) a xs) = assembler.more a" for xs by simp
  show ?thesis
    using d h r [of bs] r [of "map (fix_lit offs) bs"] RelocLabelFixup_heap [of 0 "length (label_heap ?a)" ?a offs]
    by (intro assembler.equality) (simp_all add: put_blocks)
qed


subsection \<open>Chains of relocated instructions\<close>

text \<open>An item is the length of an instruction and its block; a chain starts at offset \<open>c\<close> of the source and \<open>p\<close> of the code.\<close>

type_synonym item = "nat \<times> lit_block"

fun item_offsets :: "nat \<Rightarrow> nat \<Rightarrow> item list \<Rightarrow> (nat \<times> nat) list" where
  "item_offsets c p [] = []"
| "item_offsets c p ((n, b) # its) = (c, p) # item_offsets (c + n) (p + length (fst b)) its"

fun chain :: "(nat \<Rightarrow> nat \<Rightarrow> item option) \<Rightarrow> nat \<Rightarrow> nat \<Rightarrow> nat \<Rightarrow> item list \<Rightarrow> bool" where
  "chain f m c p [] \<longleftrightarrow> m \<le> c"
| "chain f m c p ((n, b) # its) \<longleftrightarrow> c < m \<and> 0 < n \<and> f c p = Some (n, b) \<and> chain f m (c + n) (p + length (fst b)) its"

abbreviation blocks :: "item list \<Rightarrow> lit_block list" where
  "blocks its \<equiv> map snd its"

lemma chain_item:
  "chain f m c p its \<Longrightarrow> (c', p') \<in> set (item_offsets c p its) \<Longrightarrow>
     \<exists>k < length its. p' = p + block_pos (blocks its) k \<and> c' < m \<and> 0 < fst (its ! k) \<and> f c' p' = Some (its ! k) \<and>
       (if c' + fst (its ! k) < m then (c' + fst (its ! k), p' + length (fst (snd (its ! k)))) \<in> set (item_offsets c p its)
        else p' + length (fst (snd (its ! k))) = p + length (code_of (blocks its)) \<and>
          c' + fst (its ! k) = c + sum_list (map fst its))"
proof (induction f m c p its rule: chain.induct)
  case (2 f m c p n b its)
  have h: "chain f m (c + n) (p + length (fst b)) its" "c < m" "0 < n" "f c p = Some (n, b)" using "2.prems"(1) by auto
  show ?case
  proof (cases "(c', p') = (c, p)")
    case True
    have "if c + n < m then (c + n, p + length (fst b)) \<in> set (item_offsets (c + n) (p + length (fst b)) its) else its = []"
      using h(1) by (cases its) auto
    then show ?thesis using True h by (intro exI [of _ 0]) auto
  next
    case False
    then have "(c', p') \<in> set (item_offsets (c + n) (p + length (fst b)) its)" using "2.prems"(2) by auto
    from "2.IH" [OF h(1) this] obtain k where k: "k < length its" "p' = p + length (fst b) + block_pos (blocks its) k"
      "c' < m" "0 < fst (its ! k)" "f c' p' = Some (its ! k)"
      "if c' + fst (its ! k) < m
       then (c' + fst (its ! k), p' + length (fst (snd (its ! k)))) \<in> set (item_offsets (c + n) (p + length (fst b)) its)
       else p' + length (fst (snd (its ! k))) = p + length (fst b) + length (code_of (blocks its)) \<and>
         c' + fst (its ! k) = c + n + sum_list (map fst its)"
      by blast
    then show ?thesis by (intro exI [of _ "Suc k"]) (auto simp: add.assoc split: if_splits)
  qed
qed simp

lemma chain_first: "chain f m c p its \<Longrightarrow> c < m \<Longrightarrow> (c, p) \<in> set (item_offsets c p its)"
  by (cases its) auto

lemma chain_dvd:
  "chain f m c p its \<Longrightarrow> (\<And>c p n b. f c p = Some (n, b) \<Longrightarrow> d dvd length (fst b)) \<Longrightarrow> d dvd p \<Longrightarrow>
     (\<forall>(c', p') \<in> set (item_offsets c p its). d dvd p') \<and> d dvd p + length (code_of (blocks its))"
proof (induction f m c p its rule: chain.induct)
  case (2 f m c p n b its)
  have "d dvd length (fst b)" using "2.prems"(2) [of c p n b] "2.prems"(1) by simp
  then show ?case using "2.IH" "2.prems" by (auto simp: add.assoc)
qed simp

lemma chain_end: "chain f m c p its \<Longrightarrow> m \<le> c + sum_list (map fst its)"
  by (induction f m c p its rule: chain.induct) auto

text \<open>A block in the final code.\<close>

definition placed_block :: "(code_buffer \<Rightarrow> nat \<Rightarrow> 'w option) \<Rightarrow> (nat \<Rightarrow> ref_label_insn \<Rightarrow> 'w \<Rightarrow> 'w) \<Rightarrow> nat \<Rightarrow> nat \<Rightarrow>
    code_buffer \<Rightarrow> nat \<Rightarrow> lit_block \<Rightarrow> bool" where
  "placed_block load fix_inst width kind buf p b \<longleftrightarrow> p + length (fst b) \<le> length buf \<and>
     (\<forall>i < length (fst b). (\<forall>j v. snd b = Some (j, v) \<longrightarrow> i < j \<or> j + width \<le> i) \<longrightarrow> buf ! (p + i) = fst b ! i) \<and>
     (\<forall>j v. snd b = Some (j, v) \<longrightarrow> (\<exists>q. p + length (fst b) \<le> q \<and> q + 4 \<le> length buf \<and> take 4 (drop q buf) = v \<and>
        load buf (p + j) = map_option (fix_inst q \<lparr>link_type = kind, ref_pc_offset = p + j\<rparr>) (load (fst b) j)))"

text \<open>What a relocation loop does with one instruction, as long as the instruction set does not change.\<close>

locale relocator32 = literal_pool load store emit width fix_inst link kind 4
  for load :: "code_buffer \<Rightarrow> nat \<Rightarrow> 'w option"
    and store :: "code_buffer \<Rightarrow> nat \<Rightarrow> 'w \<Rightarrow> code_buffer option"
    and emit :: "code_buffer \<Rightarrow> 'w \<Rightarrow> code_buffer"
    and width :: nat
    and fix_inst :: "nat \<Rightarrow> ref_label_insn \<Rightarrow> 'w \<Rightarrow> 'w"
    and link :: "reloc_label \<Rightarrow> code_buffer \<Rightarrow> code_buffer option"
    and kind :: nat +
  fixes loop :: "relo_ctx32 \<Rightarrow> assembler \<Rightarrow> (relo_ctx32 \<times> assembler) option"
    and item :: "u8 list \<Rightarrow> addr32 \<Rightarrow> nat \<Rightarrow> nat \<Rightarrow> item option"
  assumes load_drop: "load buf (p + j) = load (drop p buf) j"
    and loop_end: "\<not> c_cursor ctx < c_size ctx \<Longrightarrow> loop ctx a = Some (ctx, a)"
    and loop_step: "loop ctx a = Some (ctx', a') \<Longrightarrow> c_changed ctx' = [] \<Longrightarrow> c_cursor ctx < c_size ctx \<Longrightarrow>
       realized_addr a = 0 \<Longrightarrow>
       \<exists>n b. item (c_buffer ctx) (c_src ctx) (c_cursor ctx) (length (asm_buffer a)) = Some (n, b) \<and> 0 < n \<and>
         loop (ctx\<lparr>c_offsets := (c_cursor ctx, length (asm_buffer a)) # c_offsets ctx, c_cursor := c_cursor ctx + n\<rparr>)
           (put_block kind a b) = Some (ctx', a')"
    and item_ok: "item bytes src c p = Some (n, b) \<Longrightarrow> lit_ok width 4 b"
begin

lemma realized_put_block [simp]: "realized_addr (put_block kind a b) = realized_addr a"
  by (auto simp: put_block_def split: option.splits)

lemma loop_items:
  "loop ctx a = Some (ctx', a') \<Longrightarrow> c_changed ctx' = [] \<Longrightarrow> realized_addr a = 0 \<Longrightarrow>
     \<exists>its. chain (item (c_buffer ctx) (c_src ctx)) (c_size ctx) (c_cursor ctx) (length (asm_buffer a)) its \<and>
       a' = foldl (put_block kind) a (blocks its) \<and> c_cursor ctx' = c_cursor ctx + sum_list (map fst its) \<and>
       c_offsets ctx' = rev (item_offsets (c_cursor ctx) (length (asm_buffer a)) its) @ c_offsets ctx"
proof (induction "c_size ctx - c_cursor ctx" arbitrary: ctx a rule: less_induct)
  case less
  show ?case
  proof (cases "c_cursor ctx < c_size ctx")
    case False
    then show ?thesis using loop_end less.prems(1) by (intro exI [of _ "[]"]) auto
  next
    case True
    obtain n b where nb: "item (c_buffer ctx) (c_src ctx) (c_cursor ctx) (length (asm_buffer a)) = Some (n, b)" "0 < n"
      "loop (ctx\<lparr>c_offsets := (c_cursor ctx, length (asm_buffer a)) # c_offsets ctx, c_cursor := c_cursor ctx + n\<rparr>)
           (put_block kind a b) = Some (ctx', a')"
      using loop_step [OF less.prems(1,2) True less.prems(3)] by blast
    have len: "length (asm_buffer (put_block kind a b)) = length (asm_buffer a) + length (fst b)"
      by (auto simp: put_block_def split: option.splits)
    have "\<exists>its. chain (item (c_buffer ctx) (c_src ctx)) (c_size ctx) (c_cursor ctx + n) (length (asm_buffer a) + length (fst b)) its \<and>
      a' = foldl (put_block kind) (put_block kind a b) (blocks its) \<and> c_cursor ctx' = c_cursor ctx + n + sum_list (map fst its) \<and>
      c_offsets ctx' = rev (item_offsets (c_cursor ctx + n) (length (asm_buffer a) + length (fst b)) its) @
         (c_cursor ctx, length (asm_buffer a)) # c_offsets ctx"
      using less.hyps [OF _ nb(3) less.prems(2)] True nb(2) less.prems(3) len by simp
    then obtain its where "chain (item (c_buffer ctx) (c_src ctx)) (c_size ctx) (c_cursor ctx + n) (length (asm_buffer a) + length (fst b)) its"
      "a' = foldl (put_block kind) (put_block kind a b) (blocks its)" "c_cursor ctx' = c_cursor ctx + n + sum_list (map fst its)"
      "c_offsets ctx' = rev (item_offsets (c_cursor ctx + n) (length (asm_buffer a) + length (fst b)) its) @
         (c_cursor ctx, length (asm_buffer a)) # c_offsets ctx"
      by (elim exE conjE) (rule that)
    then show ?thesis using True nb by (intro exI [of _ "(n, b) # its"]) auto
  qed
qed

lemma chain_ok: "chain (item bytes src) m c p its \<Longrightarrow> b \<in> set (blocks its) \<Longrightarrow> lit_ok width 4 b"
  by (induction "item bytes src" m c p its rule: chain.induct) (auto dest: item_ok)

text \<open>The blocks of a list in the code that \<^verbatim>\<open>RelocBind\<close> leaves behind.\<close>

lemma bound_placed:
  assumes "\<forall>b \<in> set bs. lit_ok width 4 b" "RelocBind link (foldl (put_block kind) (AssemblerBase 0) bs) = Some a" "k < length bs"
  shows "placed_block load fix_inst width kind (asm_buffer a) (block_pos bs k) (bs ! k)"
proof -
  obtain a' where a': "RelocBind link (foldl (put_block kind) (AssemblerBase 0) bs) = Some a'"
     "length (asm_buffer a') = length (code_of bs) + 4 * length (block_labels kind 0 bs)"
     "\<forall>k < length bs. \<forall>i < length (fst (bs ! k)).
        (\<forall>j v. snd (bs ! k) = Some (j, v) \<longrightarrow> i < j \<or> j + width \<le> i) \<longrightarrow>
        asm_buffer a' ! (block_pos bs k + i) = fst (bs ! k) ! i"
     "\<forall>k j v. k < length bs \<and> snd (bs ! k) = Some (j, v) \<longrightarrow>
        (\<exists>m < length (block_labels kind 0 bs). take 4 (drop (length (code_of bs) + 4 * m) (asm_buffer a')) = v \<and>
          load (asm_buffer a') (block_pos bs k + j) =
            map_option (fix_inst (length (code_of bs) + 4 * m) \<lparr>link_type = kind, ref_pc_offset = block_pos bs k + j\<rparr>)
              (load (code_of bs) (block_pos bs k + j)))"
    using bound_blocks [OF _ _ _ assms(1), of "AssemblerBase 0"] by (auto simp: AssemblerBase_def)
  have eq: "a' = a" using a'(1) assms(2) by simp
  have split: "drop (block_pos bs k) (code_of bs) = fst (bs ! k) @ code_of (drop (Suc k) bs)"
  proof -
    have "code_of bs = code_of (take k bs) @ fst (bs ! k) @ code_of (drop (Suc k) bs)"
      using arg_cong [OF id_take_nth_drop [OF assms(3)], of code_of] by simp
    then show ?thesis by (simp add: block_pos_def)
  qed
  have "load (code_of bs) (block_pos bs k + j) = load (fst (bs ! k)) j" if "snd (bs ! k) = Some (j, v)" for j v
    using lit_okD [OF assms(1,3) that] load_append by (simp add: load_drop split)
  moreover have "block_pos bs k + length (fst (bs ! k)) \<le> length (asm_buffer a)"
    using block_end [OF assms(3)] a'(2) by (simp add: eq)
  moreover have "\<forall>j v. snd (bs ! k) = Some (j, v) \<longrightarrow> (\<exists>q. length (code_of bs) \<le> q \<and> q + 4 \<le> length (asm_buffer a) \<and> take 4 (drop q (asm_buffer a)) = v \<and>
      load (asm_buffer a) (block_pos bs k + j) =
        map_option (fix_inst q \<lparr>link_type = kind, ref_pc_offset = block_pos bs k + j\<rparr>) (load (code_of bs) (block_pos bs k + j)))"
  proof (intro allI impI)
    fix j v assume "snd (bs ! k) = Some (j, v)"
    then obtain m where "m < length (block_labels kind 0 bs)" "take 4 (drop (length (code_of bs) + 4 * m) (asm_buffer a')) = v"
      "load (asm_buffer a') (block_pos bs k + j) = map_option (fix_inst (length (code_of bs) + 4 * m)
         \<lparr>link_type = kind, ref_pc_offset = block_pos bs k + j\<rparr>) (load (code_of bs) (block_pos bs k + j))"
      using a'(4) assms(3) by blast
    then show "\<exists>q. length (code_of bs) \<le> q \<and> q + 4 \<le> length (asm_buffer a) \<and> take 4 (drop q (asm_buffer a)) = v \<and>
      load (asm_buffer a) (block_pos bs k + j) =
        map_option (fix_inst q \<lparr>link_type = kind, ref_pc_offset = block_pos bs k + j\<rparr>) (load (code_of bs) (block_pos bs k + j))"
      using a'(2) eq by (intro exI [of _ "length (code_of bs) + 4 * m"]) auto
  qed
  ultimately show ?thesis
    using a'(3) assms(3) block_end [OF assms(3)] unfolding placed_block_def eq by (simp, meson le_trans)
qed

text \<open>The whole relocation: the loop, the branch block \<open>tail\<close>, the fix-up of the labels and the literal pool.\<close>

lemma relocated:
  assumes "loop ctx (AssemblerBase 0) = Some (ctx', a1)" "c_changed ctx' = []" "c_cursor ctx = 0" "c_offsets ctx = []"
    and "a2 = foldl (put_block kind) a1 tail" "\<forall>b \<in> set tail. snd b = None"
    and "RelocBind link (RelocLabelFixup (c_offsets ctx') (data_labels a2) a2) = Some a"
  shows "c_size ctx \<le> c_cursor ctx' \<and> (0 < c_size ctx \<longrightarrow> (0, 0) \<in> set (c_offsets ctx')) \<and>
     (\<forall>(c, p) \<in> set (c_offsets ctx'). c < c_size ctx \<and> (\<exists>n b. item (c_buffer ctx) (c_src ctx) c p = Some (n, b) \<and> 0 < n \<and>
        placed_block load fix_inst width kind (asm_buffer a) p (fix_lit (c_offsets ctx') b) \<and>
        (if c + n < c_size ctx then (c + n, p + length (fst b)) \<in> set (c_offsets ctx')
         else p + length (fst b) = length (asm_buffer a1) \<and> c + n = c_cursor ctx'))) \<and>
     (\<forall>j < length tail. placed_block load fix_inst width kind (asm_buffer a) (length (asm_buffer a1) + block_pos tail j) (tail ! j)) \<and>
     (\<forall>d. (\<forall>c p n b. item (c_buffer ctx) (c_src ctx) c p = Some (n, b) \<longrightarrow> d dvd length (fst b)) \<longrightarrow>
        (\<forall>(c, p) \<in> set (c_offsets ctx'). d dvd p) \<and> d dvd length (asm_buffer a1))"
proof -
  have base: "realized_addr (AssemblerBase 0) = 0" "asm_buffer (AssemblerBase 0) = []" "label_heap (AssemblerBase 0) = []"
    "data_labels (AssemblerBase 0) = []" by (simp_all add: AssemblerBase_def)
  from loop_items [OF assms(1,2) base(1)] obtain its where
      i: "chain (item (c_buffer ctx) (c_src ctx)) (c_size ctx) (c_cursor ctx) (length (asm_buffer (AssemblerBase 0))) its"
      "a1 = foldl (put_block kind) (AssemblerBase 0) (blocks its)" "c_cursor ctx' = c_cursor ctx + sum_list (map fst its)"
      "c_offsets ctx' = rev (item_offsets (c_cursor ctx) (length (asm_buffer (AssemblerBase 0))) its) @ c_offsets ctx"
    by (elim exE conjE) (rule that)
  have its: "chain (item (c_buffer ctx) (c_src ctx)) (c_size ctx) 0 0 its"
      "a1 = foldl (put_block kind) (AssemblerBase 0) (blocks its)" "c_cursor ctx' = sum_list (map fst its)"
      "set (c_offsets ctx') = set (item_offsets 0 0 its)"
    using i assms(3,4) base(2) by simp_all
  let ?offs = "c_offsets ctx'"
  define bs where "bs = blocks its @ tail"
  have ok: "\<forall>b \<in> set bs. lit_ok width 4 b" using chain_ok [OF its(1)] assms(6) by (auto simp: bs_def lit_ok_def)
  have a2: "a2 = foldl (put_block kind) (AssemblerBase 0) bs" using assms(5) its(2) by (simp add: bs_def)
  have bind: "RelocBind link (foldl (put_block kind) (AssemblerBase 0) (map (fix_lit ?offs) bs)) = Some a"
    using assms(7) fixup_blocks [OF base(3,4) ok] by (simp add: a2)
  have ok': "\<forall>b \<in> set (map (fix_lit ?offs) bs). lit_ok width 4 b" using ok lit_ok_fix_lit by auto
  have placed: "placed_block load fix_inst width kind (asm_buffer a) (block_pos bs k) (fix_lit ?offs (bs ! k))" if "k < length bs" for k
    using bound_placed [OF ok' bind, of k] that by simp
  have rest: "length (asm_buffer a1) = length (code_of (blocks its))" using its(2) base(2) by (simp add: put_blocks)
  have T: "placed_block load fix_inst width kind (asm_buffer a) (length (asm_buffer a1) + block_pos tail j) (tail ! j)"
    if j: "j < length tail" for j
  proof -
    have "fix_lit ?offs (tail ! j) = tail ! j" using assms(6) j by (simp add: fix_lit_def prod_eq_iff)
    then show ?thesis using placed [of "length its + j"] j
      by (simp add: bs_def nth_append rest block_pos_def)
  qed
  have I: "c < c_size ctx \<and> (\<exists>n b. item (c_buffer ctx) (c_src ctx) c p = Some (n, b) \<and> 0 < n \<and>
        placed_block load fix_inst width kind (asm_buffer a) p (fix_lit ?offs b) \<and>
        (if c + n < c_size ctx then (c + n, p + length (fst b)) \<in> set ?offs
         else p + length (fst b) = length (asm_buffer a1) \<and> c + n = c_cursor ctx'))" if cp: "(c, p) \<in> set ?offs" for c p
  proof -
    have "(c, p) \<in> set (item_offsets 0 0 its)" using cp its(4) by simp
    from chain_item [OF its(1) this] obtain k where k: "k < length its" "p = block_pos (blocks its) k" "c < c_size ctx"
      "0 < fst (its ! k)" "item (c_buffer ctx) (c_src ctx) c p = Some (its ! k)"
      "if c + fst (its ! k) < c_size ctx then (c + fst (its ! k), p + length (fst (snd (its ! k)))) \<in> set (item_offsets 0 0 its)
        else p + length (fst (snd (its ! k))) = length (code_of (blocks its)) \<and> c + fst (its ! k) = sum_list (map fst its)"
      by (simp only: add_0) (elim exE conjE, rule that)
    obtain n b where nb: "its ! k = (n, b)" by (cases "its ! k")
    have "block_pos bs k = p" "bs ! k = b" using k(1,2) nb by (simp_all add: bs_def block_pos_def nth_append)
    then have "placed_block load fix_inst width kind (asm_buffer a) p (fix_lit ?offs b)"
      using placed [of k] k(1) by (simp add: bs_def)
    moreover have "item (c_buffer ctx) (c_src ctx) c p = Some (n, b)" "0 < n" using k(4,5) by (simp_all only: nb fst_conv)
    moreover have "if c + n < c_size ctx then (c + n, p + length (fst b)) \<in> set ?offs
         else p + length (fst b) = length (asm_buffer a1) \<and> c + n = c_cursor ctx'"
      using k(6) by (simp only: nb fst_conv snd_conv its(3,4) rest)
    ultimately show ?thesis using k(3) by blast
  qed
  have C: "c_size ctx \<le> c_cursor ctx'" using chain_end [OF its(1)] its(3) by simp
  have Z: "(0, 0) \<in> set ?offs" if "0 < c_size ctx" using chain_first [OF its(1) that] its(4) by simp
  have D: "(\<forall>(c, p) \<in> set ?offs. d dvd p) \<and> d dvd length (asm_buffer a1)"
    if "\<forall>c p n b. item (c_buffer ctx) (c_src ctx) c p = Some (n, b) \<longrightarrow> d dvd length (fst b)" for d
    using chain_dvd [OF its(1), of d] that by (simp only: its(4) rest) auto
  show ?thesis
    by (intro conjI impI ballI allI C Z T; (assumption | rule D [THEN conjunct2], assumption | rule D [THEN conjunct1, THEN bspec], assumption, assumption | simp only: split_paired_all prod.case, rule I, assumption)?)
qed

lemma put_blocks_realized: "realized_addr (foldl (put_block kind) a bs) = realized_addr a"
  by (induction bs arbitrary: a) (auto simp: put_block_def split: option.splits)

lemma loop_realized: "loop ctx a = Some (ctx', a') \<Longrightarrow> c_changed ctx' = [] \<Longrightarrow> realized_addr a = 0 \<Longrightarrow> realized_addr a' = 0"
  using loop_items [of ctx a ctx' a'] put_blocks_realized by fastforce

lemma fixed_blocks:
  assumes "loop ctx (AssemblerBase 0) = Some (ctx', a1)" "c_changed ctx' = []"
    and "a2 = foldl (put_block kind) a1 tail" "\<forall>b \<in> set tail. snd b = None"
  shows "\<exists>bs. (\<forall>b \<in> set bs. lit_ok width 4 b) \<and>
    RelocLabelFixup offs (data_labels a2) a2 = foldl (put_block kind) (AssemblerBase 0) bs"
proof -
  have base: "realized_addr (AssemblerBase 0) = 0" "asm_buffer (AssemblerBase 0) = []" "label_heap (AssemblerBase 0) = []"
    "data_labels (AssemblerBase 0) = []" by (simp_all add: AssemblerBase_def)
  from loop_items [OF assms(1,2) base(1)] obtain its where
      i: "chain (item (c_buffer ctx) (c_src ctx)) (c_size ctx) (c_cursor ctx) (length (asm_buffer (AssemblerBase 0))) its"
      "a1 = foldl (put_block kind) (AssemblerBase 0) (blocks its)"
    by (elim exE conjE) (rule that)
  define bs where "bs = blocks its @ tail"
  have ok: "\<forall>b \<in> set bs. lit_ok width 4 b" using chain_ok [OF i(1)] assms(4) by (auto simp: bs_def lit_ok_def)
  have "a2 = foldl (put_block kind) (AssemblerBase 0) bs" using assms(3) i(2) by (simp add: bs_def)
  then have "RelocLabelFixup offs (data_labels a2) a2 = foldl (put_block kind) (AssemblerBase 0) (map (fix_lit offs) bs)"
    using fixup_blocks [OF base(3,4) ok] by simp
  moreover have "\<forall>b \<in> set (map (fix_lit offs) bs). lit_ok width 4 b" using ok lit_ok_fix_lit by auto
  ultimately show ?thesis by blast
qed

text \<open>Binding the pool never fails.\<close>

lemma binds:
  assumes "loop ctx (AssemblerBase 0) = Some (ctx', a1)" "c_changed ctx' = []"
    and "a2 = foldl (put_block kind) a1 tail" "\<forall>b \<in> set tail. snd b = None"
  shows "RelocBind link (RelocLabelFixup offs (data_labels a2) a2) \<noteq> None"
proof -
  obtain bs where bs: "\<forall>b \<in> set bs. lit_ok width 4 b"
    "RelocLabelFixup offs (data_labels a2) a2 = foldl (put_block kind) (AssemblerBase 0) bs"
    using fixed_blocks [OF assms] by blast
  have base: "label_heap (AssemblerBase 0) = []" "data_labels (AssemblerBase 0) = []" "asm_buffer (AssemblerBase 0) = []"
    by (simp_all add: AssemblerBase_def)
  from bound_blocks [OF base bs(1)] show ?thesis unfolding bs(2) by blast
qed

end

end
