(* ===== verification/Arm32_Reloc_Sim.thy ===== *)
theory Arm32_Reloc_Sim
  imports Arm32_Blocks
begin

text \<open>
  Relocated A32 code simulates the original. Every instruction becomes a block of words with at most one literal; the
  block is run under the reference semantics of \<^verbatim>\<open>Arm32_Sem\<close>.
\<close>

subsection \<open>The blocks of A32 instructions\<close>

definition words_of :: "u32 list \<Rightarrow> u8 list" where
  "words_of ws = concat (map (le_bytes 4) ws)"

definition ldr_reg :: "nat \<Rightarrow> nat \<Rightarrow> u32" where
  "ldr_reg rt rn = 0xE5900000 OR push_bit 16 (word_of_nat rn) OR push_bit 12 (word_of_nat rt)"

definition ldr_lit :: "nat \<Rightarrow> u32" where
  "ldr_lit rt = ldr_reg rt 15"

definition lit_words :: "u32 list \<Rightarrow> u32 \<Rightarrow> lit_block" where
  "lit_words ws v = (words_of ws, Some (0, le_bytes 4 v))"

definition arm_lit_block :: "addr32 \<Rightarrow> u32 \<Rightarrow> lit_block" where
  "arm_lit_block cur insn =
     (let imm12 = bits insn 0 11; Rt = unat (bits insn 12 15); r = (if Rt = 15 then 12 else Rt)
      in lit_words [ldr_lit r, ldr_reg Rt r] (if bit1 insn 23 = 1 then cur + imm12 else cur - imm12))"

definition arm_branch_block :: "addr32 \<Rightarrow> u32 \<Rightarrow> lit_block" where
  "arm_branch_block cur insn =
     (let c = bits insn 28 31; dst = cur + SignExtend32 (push_bit 2 (bits insn 0 23)) 26;
          link = (c = 15 \<or> bit1 insn 24 = 1)
      in (words_of [(if link then 0x0B000000 else 0x0A000000) OR push_bit 28 (if c = 15 then 14 else c),
            0xEA000001, 0xE51FF004, (if c = 15 then dst OR 1 else dst), 0xE1A08008], None))"

definition arm_block :: "addr32 \<Rightarrow> u32 \<Rightarrow> lit_block" where
  "arm_block cur insn =
     (if is_arm_literal insn then arm_lit_block cur insn
      else if arm_adr_target cur insn \<noteq> -1 then lit_words [ldr_lit (unat (bits insn 12 15))] (arm_adr_target cur insn)
      else if bits insn 25 27 AND 6 = 4 \<and> bit1 insn 25 = 1 then arm_branch_block cur insn
      else (words_of [insn], None))"

lemma words_of_simps [simp]: "words_of [] = []" "words_of (w # ws) = le_bytes 4 w @ words_of ws"
  by (simp_all add: words_of_def)

lemma length_words_of [simp]: "length (words_of ws) = 4 * length ws"
  by (induction ws) simp_all

lemma no_reg_invalid [simp]: "\<not> IsValid no_reg"
  by (simp add: IsValid_def no_reg_def)

lemma or_fields: "(k1 :: u32) OR k2 OR r OR k3 OR k4 OR n = (k1 OR k2 OR k3 OR k4) OR n OR r"
  by (simp only: ac_simps)

lemmas arm_emit_defs = arm_load_store_def OpEncode_MemOperand_def MemOperand32_def arm_EmitARMInst_def EmitARMInst_def
  EmitBuffer_def kConditionShift_def AL_def B20_def B26_def Rt32_def Rn32_def

lemma arm_ldr32_plain: "arm_ldr32 a rt (MemOperand32 rn 0) = Some (a\<lparr>asm_buffer := asm_buffer a @ le_bytes 4 (ldr_reg rt rn)\<rparr>)"
  by (simp add: arm_ldr32_def arm_emit_defs ldr_reg_def Let_def bits_def or_fields)

lemma arm_Ldr32_new:
  "arm_Ldr32 (fst (data_label32 a v)) rt (snd (data_label32 a v)) =
     Some (put_block kLdrLiteral a (words_of [ldr_lit rt], Some (0, le_bytes 4 v)))"
  by (simp add: data_label32_def new_label_def AppendRelocLabel_def arm_Ldr32_def arm_ldr32_plain put_block_def ldr_lit_def PC_def
      nth_append linked_label_def GetBufferSize_def withData_def setData_def RelocLabel_def link_to_def)

lemma put_block_append:
  "(put_block kind a (bs, lit))\<lparr>asm_buffer := asm_buffer (put_block kind a (bs, lit)) @ cs\<rparr> = put_block kind a (bs @ cs, lit)"
  by (auto simp: put_block_def split: option.split)

lemma arm_ldr_pc_back: "arm_ldr32 a 15 (MemOperand32 15 (-4)) = Some (a\<lparr>asm_buffer := asm_buffer a @ le_bytes 4 (0xE51FF004 :: u32)\<rparr>)"
  by (simp add: arm_ldr32_def arm_emit_defs Let_def bits_def submask_def)

lemma arm_relo_literal_block: "arm_relo_literal cur insn a = Some (put_block kLdrLiteral a (arm_lit_block cur insn))"
proof -
  have eq: "Option.bind (case data_label32 a v of (a, l) \<Rightarrow> arm_Ldr32 a r l) (\<lambda>a. arm_ldr32 a rt (MemOperand32 r 0)) =
      Some (put_block kLdrLiteral a (lit_words [ldr_lit r, ldr_reg rt r] v))" for r rt v
    using arm_Ldr32_new [of a v r] put_block_append [of kLdrLiteral a "words_of [ldr_lit r]" _ "words_of [ldr_reg rt r]"]
    by (simp add: split_beta lit_words_def arm_ldr32_plain)
  show ?thesis
    by (simp add: arm_relo_literal_def arm_lit_block_def Let_def split_beta VOLATILE_REGISTER_def PC_def eq [simplified split_beta])
qed

lemma arm_relo_adr_block: "arm_relo_adr v insn a = Some (put_block kLdrLiteral a (lit_words [ldr_lit (unat (bits insn 12 15))] v))"
  using arm_Ldr32_new [of a v "unat (bits insn 12 15)"] by (simp add: arm_relo_adr_def split_beta lit_words_def Let_def)

lemma arm_branch_words:
  "arm_branch_word 0xa000000 c 0 = 0x0A000000 OR push_bit 28 c" "arm_branch_word 0xb000000 c 0 = 0x0B000000 OR push_bit 28 c"
  "arm_branch_word 0xa000000 14 4 = 0xEA000001"
  by (simp_all add: arm_branch_word_def kConditionShift_def AL_def bits_def submask_def)

lemma bit1_01: "bit1 w n = (if bit (w :: 'a::len word) n then 1 else 0)"
  by (rule bit_word_eqI) (auto simp: bit_bit1 bit_simps)

lemma arm_relo_branch_block: "arm_relo_branch cur insn a = Some (put_block kLdrLiteral a (arm_branch_block cur insn))"
  by (auto simp: arm_relo_branch_def arm_branch_block_def Let_def arm_b32_def arm_bl32_def arm_branch_words arm_ldr_pc_back PC_def
      arm_EmitARMInst_def EmitARMInst_def EmitBuffer_def arm_EmitAddress_def Emit32_def put_block_def arm_mov32_def bit1_01
      kConditionShift_def AL_def Rd32_def OpEncode_Operand_def R8_def IsValid_def)

lemma ARMRelocateSingleInsn_block: "ARMRelocateSingleInsn cur insn a = Some (put_block kLdrLiteral a (arm_block cur insn))"
  by (simp add: ARMRelocateSingleInsn_def arm_block_def arm_relo_literal_block arm_relo_adr_block arm_relo_branch_block
      put_block_def arm_EmitARMInst_def EmitARMInst_def EmitBuffer_def)

definition arm_item :: "u8 list \<Rightarrow> addr32 \<Rightarrow> nat \<Rightarrow> nat \<Rightarrow> item option" where
  "arm_item bytes src c p = map_option (\<lambda>insn. (4, arm_block (src + word_of_nat c + 8) insn)) (LoadARMInst bytes c)"

lemma Load_drop: "0 < n \<Longrightarrow> Load n b (p + j) = Load n (drop p b) j"
  by (auto simp: Load_def add.commute)

lemma lit_ok_arm_block: "lit_ok 4 4 (arm_block cur insn)"
  by (simp add: arm_block_def arm_lit_block_def arm_branch_block_def lit_words_def lit_ok_def Let_def)

interpretation arm_relocator: relocator32 LoadARMInst RewriteARMInst EmitARMInst 4 arm32_fix arm32_link_confused_instructions
    kLdrLiteral gen_arm_relocate_code arm_item
proof unfold_locales
  show "LoadARMInst buf (p + j) = LoadARMInst (drop p buf) j" for buf p j
    by (simp add: LoadARMInst_def Load_drop)
  show "gen_arm_relocate_code ctx a = Some (ctx, a)" if "\<not> c_cursor ctx < c_size ctx" for ctx a
    using that by (simp add: gen_arm_relocate_code.simps)
  show "\<exists>n b. arm_item (c_buffer ctx) (c_src ctx) (c_cursor ctx) (length (asm_buffer a)) = Some (n, b) \<and> 0 < n \<and>
         gen_arm_relocate_code (ctx\<lparr>c_offsets := (c_cursor ctx, length (asm_buffer a)) # c_offsets ctx, c_cursor := c_cursor ctx + n\<rparr>)
           (put_block kLdrLiteral a b) = Some (ctx', a')"
    if g: "gen_arm_relocate_code ctx a = Some (ctx', a')" "c_changed ctx' = []" "c_cursor ctx < c_size ctx" for ctx a ctx' a'
  proof -
    obtain insn where l: "LoadARMInst (c_buffer ctx) (c_cursor ctx) = Some insn"
      using g by (auto simp: gen_arm_relocate_code.simps [of ctx a] split: option.splits)
    let ?b = "arm_block (relo_cur_src_vmaddr32 ARMExecuteState ctx) insn"
    let ?ctx = "ctx\<lparr>c_offsets := (c_cursor ctx, length (asm_buffer a)) # c_offsets ctx, c_cursor := c_cursor ctx + 4\<rparr>"
    have eq: "gen_arm_relocate_code ctx a =
       (if check_execute_state_changed ?ctx (relo_cur_src_vmaddr32 ARMExecuteState ?ctx - word_of_nat ARM_PC_OFFSET)
        then Some (?ctx, put_block kLdrLiteral a ?b) else gen_arm_relocate_code ?ctx (put_block kLdrLiteral a ?b))"
      using g(3) l by (subst gen_arm_relocate_code.simps)
        (simp add: Let_def ARMRelocateSingleInsn_block note_offset_def ARM_INST_LEN_def GetBufferSize_def)
    have "\<not> check_execute_state_changed ?ctx x" if "?ctx = ctx'" for x
      using that g(2) by (auto simp: check_execute_state_changed_def)
    then have "gen_arm_relocate_code ?ctx (put_block kLdrLiteral a ?b) = Some (ctx', a')"
      using eq g(1) by (auto split: if_splits)
    then show ?thesis using l
      by (intro exI [of _ "4 :: nat"] exI [of _ ?b]) (simp add: arm_item_def relo_cur_src_vmaddr32_def ARM_PC_OFFSET_def)
  qed
  show "lit_ok 4 4 b" if "arm_item bytes src c p = Some (n, b)" for bytes src c p n b
    using that lit_ok_arm_block by (auto simp: arm_item_def)
qed

subsection \<open>Loading words and literals\<close>

abbreviation arm_placed :: "code_buffer \<Rightarrow> nat \<Rightarrow> lit_block \<Rightarrow> bool" where
  "arm_placed \<equiv> placed_block LoadARMInst arm32_fix 4 kLdrLiteral"

lemma Load_words_of: "j < length ws \<Longrightarrow> LoadARMInst (words_of ws) (4 * j) = Some (ws ! j)"
proof -
  assume j: "j < length ws"
  then have "words_of ws = words_of (take j ws) @ le_bytes 4 (ws ! j) @ words_of (drop (Suc j) ws)"
    using arg_cong [OF id_take_nth_drop [OF j], of words_of] by (simp add: words_of_def)
  then show ?thesis using Load_at_end [of 4 "words_of (take j ws)" "ws ! j"] j by (simp add: LoadARMInst_def min_def)
qed

lemma arm_word:
  assumes "arm_placed b p (words_of ws, lit)" "j < length ws" "lit = None \<or> (\<exists>v. lit = Some (0, v)) \<and> 0 < j"
  shows "LoadARMInst b (p + 4 * j) = Some (ws ! j)"
proof -
  have "Load 4 (drop p b) (4 * j) = (Load 4 (words_of ws) (4 * j) :: u32 option)"
    using assms by (intro Load_cong) (auto simp: placed_block_def)
  then show ?thesis using Load_words_of [OF assms(2)] by (simp add: LoadARMInst_def Load_drop [of 4])
qed

lemma arm_literal:
  assumes "arm_placed b p (words_of (w # ws), Some (0, le_bytes 4 v))"
  shows "\<exists>q. p + 4 \<le> q \<and> q + 4 \<le> length b \<and> LoadARMInst b q = Some v \<and>
    LoadARMInst b p = Some (arm32_fix q \<lparr>link_type = kLdrLiteral, ref_pc_offset = p\<rparr> w)"
proof -
  obtain q where q: "p + 4 \<le> q" "q + 4 \<le> length b" "take 4 (drop q b) = le_bytes 4 v"
    "LoadARMInst b (p + 0) = map_option (arm32_fix q \<lparr>link_type = kLdrLiteral, ref_pc_offset = p + 0\<rparr>) (LoadARMInst (words_of (w # ws)) 0)"
    using assms unfolding placed_block_def fst_conv snd_conv length_words_of list.size by (elim conjE) (drule spec, drule spec, drule mp, rule refl, elim exE conjE, rule that, simp_all)
  then show ?thesis using Load_words_of [of 0 "w # ws"] by (intro exI [of _ q]) (simp add: LoadARMInst_def Load_def)
qed

lemma a32_step_at:
  assumes "in_ram s A b" "\<not> tb s" "ip s = A + word_of_nat p" "LoadARMInst b p = Some w" "a32_decode w = Some i"
  shows "a32_step s = Some (a32_exec 4 i s)"
proof -
  have "ld32 4 s (ip s) = w"
    using assms in_ram_ld [OF assms(1), of p 4] by (auto simp: LoadARMInst_def Load_def split: if_splits)
  then show ?thesis using assms by (simp add: a32_step_def)
qed

lemma in_ram_Load: "in_ram s A b \<Longrightarrow> Load n b q = Some v \<Longrightarrow> ld32 n s (A + word_of_nat q) = v"
  by (auto simp: in_ram_ld Load_def split: if_splits)

lemma less_16_cases: "(r :: nat) < 16 \<Longrightarrow>
   r = 0 \<or> r = 1 \<or> r = 2 \<or> r = 3 \<or> r = 4 \<or> r = 5 \<or> r = 6 \<or> r = 7 \<or> r = 8 \<or> r = 9 \<or> r = 10 \<or> r = 11 \<or> r = 12 \<or> r = 13 \<or> r = 14 \<or> r = 15"
  by presburger

lemma low12:
  assumes "m < 4096"
  defines "w \<equiv> (word_of_nat m :: u32)"
  shows "take_bit 12 w = w" "\<And>k. 12 \<le> k \<Longrightarrow> drop_bit k w = 0" "\<And>k. 12 \<le> k \<Longrightarrow> \<not> bit w k" "\<And>M. take_bit 12 M = 0 \<Longrightarrow> w AND M = 0"
proof -
  show t: "take_bit 12 w = w" 
  proof -
    have "take_bit 12 m = m" using assms(1) by (intro take_bit_nat_eq_self) simp
    then show ?thesis unfolding w_def by (metis take_bit_of_nat)
  qed
  show nb: "\<not> bit w k" if "12 \<le> k" for k using that arg_cong [OF t, of "\<lambda>w. bit w k"] by (simp add: bit_take_bit_iff)
  show "drop_bit k w = 0" if "12 \<le> k" for k using that nb by (intro bit_word_eqI) (simp add: bit_drop_bit_eq)
  show "w AND M = 0" if M: "take_bit 12 M = 0" for M
  proof (rule bit_word_eqI)
    fix k
    have "\<not> bit M k" if "k < 12" using that arg_cong [OF M, of "\<lambda>w. bit w k"] by (simp add: bit_take_bit_iff)
    then show "bit (w AND M) k = bit 0 k" using nb [of k] by (cases "k < 12") (auto simp: bit_and_iff)
  qed
qed

lemma decode_ldr_literal:
  assumes "r < 16" "m < 4096" "K = 0xE59F0000 \<or> K = 0xE51F0000"
  shows "a32_decode (K OR push_bit 12 (word_of_nat r) OR word_of_nat m) =
    Some (I_lit 14 False r (if K = 0xE59F0000 then word_of_nat m else - word_of_nat m))"
proof -
  note m = low12 [OF assms(2)]
  show ?thesis using less_16_cases [OF assms(1)] assms(3)
    by (elim disjE) (simp_all add: a32_decode_def Let_def fld32_def rf_def m drop_bit_or take_bit_or bit_or_iff bit.conj_disj_distrib2)
qed

lemma ldr_lit_fields:
  assumes "r < 16"
  shows "set_bits (set_bit1 (ldr_lit r) 23 1) 0 11 w = 0xE59F0000 OR push_bit 12 (word_of_nat r) OR w"
    and "set_bits (set_bit1 (ldr_lit r) 23 0) 0 11 w = 0xE51F0000 OR push_bit 12 (word_of_nat r) OR w"
proof -
  have "\<forall>r \<in> set [0..<16]. NOT (push_bit 0 (submask 11)) AND set_bit1 (ldr_lit r) 23 1 = 0xE59F0000 OR push_bit 12 (word_of_nat r)"
    "\<forall>r \<in> set [0..<16]. NOT (push_bit 0 (submask 11)) AND set_bit1 (ldr_lit r) 23 0 = 0xE51F0000 OR push_bit 12 (word_of_nat r)"
    by code_simp+
  then have "NOT (push_bit 0 (submask 11)) AND set_bit1 (ldr_lit r) 23 1 = 0xE59F0000 OR push_bit 12 (word_of_nat r)"
    "NOT (push_bit 0 (submask 11)) AND set_bit1 (ldr_lit r) 23 0 = 0xE51F0000 OR push_bit 12 (word_of_nat r)"
    using assms by simp_all
  then show "set_bits (set_bit1 (ldr_lit r) 23 1) 0 11 w = 0xE59F0000 OR push_bit 12 (word_of_nat r) OR w"
    "set_bits (set_bit1 (ldr_lit r) 23 0) 0 11 w = 0xE51F0000 OR push_bit 12 (word_of_nat r) OR w"
    unfolding set_bits_def diff_zero by (simp_all only: or.assoc push_bit_0_id id_apply)
qed

lemma fix_ldr_lit:
  assumes "r < 16" "\<bar>int q - int (p + 8)\<bar> < 4096"
  shows "a32_decode (arm32_fix q \<lparr>link_type = kLdrLiteral, ref_pc_offset = p\<rparr> (ldr_lit r)) =
    Some (I_lit 14 False r (word_of_int (int q - int (p + 8))))"
proof -
  let ?d = "int q - int (p + 8)"
  define m where "m = nat \<bar>?d\<bar>"
  define K :: u32 where "K = (if ?d > 0 then 0xE59F0000 else 0xE51F0000)"
  have m: "m < 4096" using assms(2) by (simp add: m_def nat_less_iff)
  have "arm32_fix q \<lparr>link_type = kLdrLiteral, ref_pc_offset = p\<rparr> (ldr_lit r) = K OR push_bit 12 (word_of_nat r) OR word_of_nat m"
    by (simp add: arm32_fix_def Let_def ARM_PC_OFFSET_def ldr_lit_fields [OF assms(1)] K_def m_def)
  moreover have "(if K = 0xE59F0000 then word_of_nat m else - word_of_nat m) = (word_of_int ?d :: u32)"
    by (simp add: K_def m_def)
  ultimately show ?thesis using decode_ldr_literal [OF assms(1) m, of K] by (simp add: K_def split: if_splits)
qed

lemma decode_ldr_reg:
  assumes "r < 15"
  shows "a32_decode (ldr_reg r r) = Some (I_mem 14 True False True False r r 0)"
    and "a32_decode (ldr_reg 15 12) = Some (I_mem 14 True False True False 15 12 0)"
proof -
  have "\<forall>r \<in> set [0..<15]. a32_decode (ldr_reg r r) = Some (I_mem 14 True False True False r r 0)" by code_simp
  then show "a32_decode (ldr_reg r r) = Some (I_mem 14 True False True False r r 0)" using assms by simp
  show "a32_decode (ldr_reg 15 12) = Some (I_mem 14 True False True False 15 12 0)" by code_simp
qed

lemma decode_fixed:
  "a32_decode 0xEA000001 = Some (I_b 14 4)" "a32_decode 0xE51FF004 = Some (I_lit 14 False 15 (- 4))"
  "a32_decode 0xE1A08008 = Some (I_mov 14 8 8)"
  by code_simp+

lemma align4_id: "take_bit 2 a = 0 \<Longrightarrow> align4 a = a"
proof -
  assume t: "take_bit 2 a = 0"
  have "\<not> bit a k" if "k < 2" for k using that arg_cong [OF t, of "\<lambda>w. bit w k"] by (simp add: bit_take_bit_iff)
  moreover have "align4 a = a AND NOT (mask 2)" by (simp add: align4_def mask_eq_exp_minus_1)
  ultimately show ?thesis by (intro bit_word_eqI) (auto simp: bit_and_iff bit_not_iff bit_mask_iff)
qed

lemma take_bit_4_dvd: "4 dvd p \<Longrightarrow> take_bit 2 (word_of_nat p :: u32) = 0"
proof -
  assume "4 dvd p"
  then have "take_bit 2 p = 0" by (simp add: take_bit_eq_mod)
  then show ?thesis using take_bit_of_nat [of 2 p, where 'a = u32] by simp
qed

lemma aligned_nat: "take_bit 2 (a :: u32) = 0 \<Longrightarrow> \<exists>n. a = word_of_nat (4 * n)"
proof -
  assume "take_bit 2 a = 0"
  then have "unat (take_bit 2 a) = 0" by simp
  then have "take_bit 2 (unat a) = 0" by (simp only: unsigned_take_bit_eq)
  then have "unat a mod 4 = 0" by (simp add: take_bit_eq_mod)
  then obtain n where n: "unat a = 4 * n" by (auto simp: mod_eq_0_iff_dvd elim: dvdE)
  have "a = word_of_nat (unat a)" by simp
  then have "a = word_of_nat (4 * n)" unfolding n .
  then show ?thesis by blast
qed

lemma aligned_add:
  assumes "take_bit 2 a = 0" "take_bit 2 b = 0"
  shows "take_bit 2 (a + b :: u32) = 0"
proof -
  obtain m n where "a = word_of_nat (4 * m)" "b = word_of_nat (4 * n)" using assms aligned_nat by blast
  then have "a + b = word_of_nat (4 * (m + n))" by simp
  then show ?thesis using take_bit_4_dvd [of "4 * (m + n)"] by simp
qed

text \<open>The code \<open>b\<close> at the word-aligned address \<open>A\<close>, and a state about to execute its offset \<open>p\<close>.\<close>

definition at_code :: "a32_state \<Rightarrow> bool \<Rightarrow> u32 \<Rightarrow> code_buffer \<Rightarrow> nat \<Rightarrow> bool" where
  "at_code s t A b p \<longleftrightarrow> in_ram s A b \<and> tb s = t \<and> ip s = A + word_of_nat p \<and> take_bit 2 A = 0 \<and> length b \<le> 4096"

lemma step_ldr_lit:
  assumes "at_code s False A b p" "4 dvd p" "arm_placed b p (words_of (ldr_lit r # ws), Some (0, le_bytes 4 v))" "r < 15"
  shows "a32_step s = Some (skip 4 (setR r v s))"
proof -
  obtain q where q: "p + 4 \<le> q" "q + 4 \<le> length b" "LoadARMInst b q = Some v"
    "LoadARMInst b p = Some (arm32_fix q \<lparr>link_type = kLdrLiteral, ref_pc_offset = p\<rparr> (ldr_lit r))"
    using arm_literal [OF assms(3)] by blast
  have s: "in_ram s A b" "\<not> tb s" "ip s = A + word_of_nat p" "take_bit 2 A = 0" "length b \<le> 4096"
    using assms(1) by (auto simp: at_code_def)
  have p: "p + 4 \<le> length b" using q(4) by (auto simp: LoadARMInst_def Load_def split: if_splits)
  have "\<bar>int q - int (p + 8)\<bar> < 4096" using q(1,2) p s(5) by (auto simp: abs_if)
  from a32_step_at [OF s(1-3) q(4) fix_ldr_lit [OF _ this]] assms(4)
  have step: "a32_step s = Some (a32_exec 4 (I_lit 14 False r (word_of_int (int q - int (p + 8)))) s)" by simp
  have exec: "a32_exec 4 (I_lit 14 False r d) s = skip 4 (setR r (ld32 4 s (align4 (pc_value s) + d)) s)" for d
    using assms(4) by (simp add: wR_def)
  have "take_bit 2 (ip s + 8) = 0"
    using s(3,4) take_bit_4_dvd [OF assms(2)] take_bit_4_dvd [of 8] by (simp add: aligned_add)
  then have "align4 (pc_value s) + word_of_int (int q - int (p + 8)) = A + word_of_nat q"
    using s(2,3) by (simp add: pc_value_def align4_id)
  moreover have "ld32 4 s (A + word_of_nat q) = v" using in_ram_Load [OF s(1), of 4 q v] q(3) by (simp add: LoadARMInst_def)
  ultimately show ?thesis by (simp only: step exec)
qed

subsection \<open>What it means to simulate an instruction\<close>

fun jumps32 :: "a32_instr \<Rightarrow> a32_state \<Rightarrow> bool" where
  "jumps32 I_nop s = False"
| "jumps32 (I_b c _) s = cond32 (cc s) c"
| "jumps32 (I_bl c _) s = cond32 (cc s) c"
| "jumps32 (I_blx _) s = True"
| "jumps32 (I_cb nz r _) s = ((rg s r = 0) \<noteq> nz)"
| "jumps32 (I_lit c _ rt _) s = (cond32 (cc s) c \<and> rt = 15)"
| "jumps32 (I_mem c load _ _ _ rt _ _) s = (cond32 (cc s) c \<and> load \<and> rt = 15)"
| "jumps32 (I_adr c rd _) s = (cond32 (cc s) c \<and> rd = 15)"
| "jumps32 (I_mov c rd _) s = (cond32 (cc s) c \<and> rd = 15)"
| "jumps32 (I_addr c rd _) s = (cond32 (cc s) c \<and> rd = 15)"
| "jumps32 (I_addi c rd _ _) s = (cond32 (cc s) c \<and> rd = 15)"
| "jumps32 (I_subi c rd _ _) s = (cond32 (cc s) c \<and> rd = 15)"
| "jumps32 (I_cmpi _ _ _) s = False"
| "jumps32 (I_push _ _) s = False"
| "jumps32 (I_bx c _) s = cond32 (cc s) c"

fun links32 :: "a32_instr \<Rightarrow> a32_state \<Rightarrow> bool" where
  "links32 (I_bl c _) s = cond32 (cc s) c"
| "links32 (I_blx _) s = True"
| "links32 _ s = False"

text \<open>Equal up to the registers \<open>R\<close> and the address of the next instruction.\<close>

definition same_result :: "nat set \<Rightarrow> a32_state \<Rightarrow> a32_state \<Rightarrow> bool" where
  "same_result R s t \<longleftrightarrow> (\<forall>r. r \<notin> R \<longrightarrow> rg s r = rg t r) \<and> cc s = cc t \<and> ram s = ram t \<and> tb s = tb t"

text \<open>
  The code \<open>b\<close> at \<open>A\<close>, run from \<open>s\<close>, does what the instruction \<open>i\<close> of \<open>len\<close> bytes does at \<open>src\<close>; without a jump it goes on
  at offset \<open>next\<close>. The scratch register r12 is excepted. A call leaves a return address in the code, from which the
  code goes on at \<open>next\<close> without further effect.
\<close>

definition simulates32 :: "code_buffer \<Rightarrow> u32 \<Rightarrow> u32 \<Rightarrow> u32 \<Rightarrow> a32_instr \<Rightarrow> nat \<Rightarrow> a32_state \<Rightarrow> bool" where
  "simulates32 b A src len i next s \<longleftrightarrow>
     (let s' = a32_exec len i (s\<lparr>ip := src\<rparr>) in
      \<exists>k t. a32_run k s = Some t \<and> same_result (if links32 i s then {12, 14} else {12}) s' t \<and>
        ip t = (if jumps32 i s then ip s' else A + word_of_nat next) \<and>
        (links32 i s \<longrightarrow> (bit (rg t 14) 0 \<longleftrightarrow> tb s) \<and>
          (\<forall>u. in_ram u A b \<and> tb u = tb s \<and> ip u = rg t 14 AND NOT 1 \<longrightarrow>
             (\<exists>j. a32_run j u = Some (u\<lparr>ip := A + word_of_nat next\<rparr>)))))"

text \<open>The instructions that the A32 relocator handles correctly.\<close>

fun a32_supported :: "a32_instr \<Rightarrow> bool" where
  "a32_supported (I_b c _) = True"
| "a32_supported (I_bl c _) = True"
| "a32_supported (I_blx off) = (\<not> bit off 1)"
| "a32_supported (I_lit c byte rt _) = (c = 14 \<and> \<not> byte)"
| "a32_supported (I_mem c load _ _ _ rt rn _) = (rn \<noteq> 15 \<and> (load \<or> rt \<noteq> 15))"
| "a32_supported (I_adr c rd _) = (c = 14 \<and> rd \<noteq> 15)"
| "a32_supported (I_mov c _ rm) = (rm \<noteq> 15)"
| "a32_supported (I_addr c rd rm) = (rm \<noteq> 15 \<and> rd \<noteq> 15)"
| "a32_supported (I_addi c _ rn _) = (rn \<noteq> 15)"
| "a32_supported (I_subi c _ rn _) = (rn \<noteq> 15)"
| "a32_supported (I_cmpi c rn _) = (rn \<noteq> 15)"
| "a32_supported (I_push c l) = (\<not> bit l 15)"
| "a32_supported (I_bx c rm) = (rm \<noteq> 15)"
| "a32_supported I_nop = True"
| "a32_supported (I_cb _ _ _) = False"

fun pc_relative32 :: "a32_instr \<Rightarrow> bool" where
  "pc_relative32 (I_b _ _) = True"
| "pc_relative32 (I_bl _ _) = True"
| "pc_relative32 (I_blx _) = True"
| "pc_relative32 (I_lit _ _ _ _) = True"
| "pc_relative32 (I_adr _ _ _) = True"
| "pc_relative32 (I_cb _ _ _) = True"
| "pc_relative32 _ = False"

subsection \<open>Instructions that are copied\<close>

lemma ip_update [simp]:
  "ld32 n (s\<lparr>ip := c\<rparr>) = ld32 n s" "ld32 n (skip m s) = ld32 n s" "ld32 n (setR r v s) = ld32 n s" "rg (s\<lparr>ip := c\<rparr>) = rg s"
  "st32 n a v (s\<lparr>ip := c\<rparr>) = (st32 n a v s)\<lparr>ip := c\<rparr>" "setR r v (s\<lparr>ip := c\<rparr>) = (setR r v s)\<lparr>ip := c\<rparr>"
  "r \<noteq> 15 \<Longrightarrow> rR (s\<lparr>ip := c\<rparr>) r = rR s r"
  by (simp_all add: ld32_def fun_eq_iff st32_def setR_def rR_def)

lemma push_regs_ip: "\<not> bit l 15 \<Longrightarrow> push_regs l (s\<lparr>ip := c\<rparr>) = (push_regs l s)\<lparr>ip := c\<rparr>"
proof -
  assume l: "\<not> bit l 15"
  have "fold (\<lambda>(k, r) t. st32 4 (p + 4 * word_of_nat k) (rR (s\<lparr>ip := c\<rparr>) r) t) xs (u\<lparr>ip := c\<rparr>) =
      (fold (\<lambda>(k, r) t. st32 4 (p + 4 * word_of_nat k) (rR s r) t) xs u)\<lparr>ip := c\<rparr>"
    if "15 \<notin> snd ` set xs" for xs p and u :: a32_state
    using that
  proof (induction xs arbitrary: u)
    case (Cons x xs)
    then show ?case by (cases x) auto
  qed simp
  moreover have "15 \<notin> snd ` set (enumerate 0 (filter (\<lambda>r. bit l r) [0..<16]))" using l
    by (force simp: in_set_enumerate_eq dest: nth_mem)
  ultimately show ?thesis by (simp add: push_regs_def Let_def)
qed

lemma push_regs_keeps [simp]: "ip (push_regs l s) = ip s"
proof -
  have "ip (fold (\<lambda>(k, r) t. st32 4 (p + 4 * word_of_nat k) (rR s r) t) xs u) = ip u" for xs p and u :: a32_state
    by (induction xs arbitrary: u) (auto simp: st32_def)
  then show ?thesis by (simp add: push_regs_def Let_def)
qed

lemma exec_ip_indep:
  assumes "\<not> pc_relative32 i" "a32_supported i"
  shows "same_result {} (a32_exec n i (s\<lparr>ip := c\<rparr>)) (a32_exec n i s) \<and>
    ip (a32_exec n i s) = (if jumps32 i s then ip (a32_exec n i (s\<lparr>ip := c\<rparr>)) else ip s + n)"
  using assms
  by (cases i) (auto simp: same_result_def wR_def wA_def bx_to_def skip_def setR_def st32_def push_regs_ip rR_def Let_def)

lemma sim_copy32:
  assumes "a32_step s = Some (a32_exec len i s)" "ip s = A + word_of_nat p" "\<not> pc_relative32 i" "a32_supported i"
  shows "simulates32 b A src len i (p + unat len) s"
proof -
  have "\<not> links32 i s" using assms(3) by (cases i) auto
  then show ?thesis
    using exec_ip_indep [OF assms(3,4), where n = len and s = s and c = src] assms(1,2)
    unfolding simulates32_def Let_def
    by (intro exI [of _ "1 :: nat"] exI [of _ "a32_exec len i s"]) (auto simp: same_result_def add.assoc)
qed

subsection \<open>Classes of A32 instructions\<close>

lemma and_field: "(w :: u32) AND push_bit lo (mask n) = push_bit lo (fld32 w lo n)"
  by (rule bit_word_eqI) (auto simp: fld32_def bit_simps)

lemma fld_of_and: "lo + n \<le> 32 \<Longrightarrow> fld32 w lo n = drop_bit lo (w AND push_bit lo (mask n))"
  by (rule bit_word_eqI) (auto simp: fld32_def bit_simps)

lemma bits_fld: "0 < n \<Longrightarrow> bits (w :: u32) lo (lo + n - 1) = fld32 w lo n"
  by (rule bit_word_eqI) (auto simp: bit_bits fld32_def bit_simps)

lemma fld_sub: "k + n \<le> m \<Longrightarrow> fld32 w (lo + k) n = take_bit n (drop_bit k (fld32 w lo m))"
  by (rule bit_word_eqI) (auto simp: fld32_def bit_simps add.assoc)

lemma bits_flds:
  "bits (w :: u32) 28 31 = fld32 w 28 4" "bits w 25 27 = fld32 w 25 3" "bits w 0 11 = fld32 w 0 12" "bits w 12 15 = fld32 w 12 4"
  "bits w 16 19 = fld32 w 16 4" "bits w 23 24 = fld32 w 23 2" "bits w 21 23 = fld32 w 21 3" "bits w 0 23 = fld32 w 0 24"
  "bits w 0 7 = fld32 w 0 8" "bits w 8 11 = fld32 w 8 4"
  using bits_fld [of 4 w 28] bits_fld [of 3 w 25] bits_fld [of 12 w 0] bits_fld [of 4 w 12] bits_fld [of 4 w 16]
    bits_fld [of 2 w 23] bits_fld [of 3 w 21] bits_fld [of 24 w 0] bits_fld [of 8 w 0] bits_fld [of 4 w 8] by simp_all

text \<open>The fields of an instruction from the masks of the decoder.\<close>

lemma mask_class:
  "w AND 0x0E000000 = x \<Longrightarrow> fld32 w 25 3 = drop_bit 25 x"
  "w AND 0x0F000000 = x \<Longrightarrow> fld32 w 24 4 = drop_bit 24 x"
  "w AND 0x0FFF0000 = x \<Longrightarrow> fld32 w 16 12 = drop_bit 16 x"
  "w AND 0x0FF00000 = x \<Longrightarrow> fld32 w 20 8 = drop_bit 20 x"
proof -
  have m: "(0x0E000000 :: u32) = push_bit 25 (mask 3)" "(0x0F000000 :: u32) = push_bit 24 (mask 4)"
    "(0x0FFF0000 :: u32) = push_bit 16 (mask 12)" "(0x0FF00000 :: u32) = push_bit 20 (mask 8)"
    by (simp_all add: mask_eq_exp_minus_1)
  show "w AND 0x0E000000 = x \<Longrightarrow> fld32 w 25 3 = drop_bit 25 x" using fld_of_and [of 25 3 w] unfolding m by simp
  show "w AND 0x0F000000 = x \<Longrightarrow> fld32 w 24 4 = drop_bit 24 x" using fld_of_and [of 24 4 w] unfolding m by simp
  show "w AND 0x0FFF0000 = x \<Longrightarrow> fld32 w 16 12 = drop_bit 16 x" using fld_of_and [of 16 12 w] unfolding m by simp
  show "w AND 0x0FF00000 = x \<Longrightarrow> fld32 w 20 8 = drop_bit 20 x" using fld_of_and [of 20 8 w] unfolding m by simp
qed

lemma fld_parts:
  "fld32 w 25 3 = take_bit 3 (drop_bit 1 (fld32 w 24 4))"
  "fld32 w 25 3 = take_bit 3 (drop_bit 9 (fld32 w 16 12))"
  "fld32 w 23 2 = take_bit 2 (drop_bit 7 (fld32 w 16 12))"
  "fld32 w 21 3 = take_bit 3 (drop_bit 5 (fld32 w 16 12))"
  "fld32 w 16 4 = take_bit 4 (fld32 w 16 12)"
  "fld32 w 25 3 = take_bit 3 (drop_bit 5 (fld32 w 20 8))"
  "fld32 w 23 2 = take_bit 2 (drop_bit 3 (fld32 w 20 8))"
  "fld32 w 21 3 = take_bit 3 (drop_bit 1 (fld32 w 20 8))"
  using fld_sub [of 1 3 4 w 24] fld_sub [of 9 3 12 w 16] fld_sub [of 7 2 12 w 16] fld_sub [of 5 3 12 w 16] fld_sub [of 0 4 12 w 16]
    fld_sub [of 5 3 8 w 20] fld_sub [of 3 2 8 w 20] fld_sub [of 1 3 8 w 20]
  by simp_all

lemma bit_fld32: "k < n \<Longrightarrow> bit (fld32 w lo n) k \<longleftrightarrow> bit w (lo + k)"
  by (auto simp: fld32_def bit_simps)

lemma SignExtend32_sx: "take_bit M x = x \<Longrightarrow> 0 < M \<Longrightarrow> M \<le> 32 \<Longrightarrow> SignExtend32 x M = sx M x"
proof (rule bit_word_eqI)
  fix k assume a: "take_bit M x = x" "0 < M" "M \<le> 32" "k < LENGTH(32)"
  have nb: "M \<le> j \<Longrightarrow> \<not> bit x j" for j using arg_cong [OF a(1), of "\<lambda>w. bit w j"] by (auto simp: bit_take_bit_iff)
  have ones: "(0 - (1 :: u32)) = mask 32" by (simp add: mask_eq_exp_minus_1)
  show "bit (SignExtend32 x M) k = bit (sx M x) k"
    using a nb [of k] by (cases "bit x (M - 1)"; cases "k = M - 1")
      (auto simp: SignExtend32_def sx_def bit1_01 ones bit_or_iff bit_push_bit_iff bit_drop_bit_eq bit_mask_iff bit_signed_take_bit_iff min_def)
qed

lemma branch_offset32: "SignExtend32 (push_bit 2 (fld32 w 0 24)) 26 = push_bit 2 (sx 24 (fld32 w 0 24))"
proof -
  have "take_bit 26 (push_bit 2 (fld32 w 0 24)) = push_bit 2 (fld32 w 0 24)"
    by (rule bit_word_eqI) (auto simp: fld32_def bit_simps)
  then have "SignExtend32 (push_bit 2 (fld32 w 0 24)) 26 = sx 26 (push_bit 2 (fld32 w 0 24))" by (intro SignExtend32_sx) simp_all
  also have "\<dots> = push_bit 2 (sx 24 (fld32 w 0 24))"
    by (rule bit_word_eqI) (auto simp: sx_def fld32_def bit_simps bit_signed_take_bit_iff min_def)
  finally show ?thesis .
qed

lemma rotr_split:
  assumes "k < 32" "0 < k"
  shows "word_rotr k (v :: u32) = drop_bit k v OR push_bit (32 - k) v"
proof (rule bit_word_eqI)
  fix n :: nat assume "n < LENGTH(32)"
  then have n: "n < 32" by simp
  have r: "bit (word_rotr k v) n = bit v ((n + k) mod 32)" using n by (simp add: bit_word_rotr_iff)
  show "bit (word_rotr k v) n = bit (drop_bit k v OR push_bit (32 - k) v) n"
  proof (cases "n + k < 32")
    case True
    then have "(n + k) mod 32 = n + k" "\<not> 32 - k \<le> n" by simp_all
    then show ?thesis by (simp add: r bit_or_iff bit_drop_bit_eq bit_push_bit_iff add.commute)
  next
    case False
    then have m: "(n + k) mod 32 = n - (32 - k)" "32 - k \<le> n" using n assms by (simp_all add: mod_if)
    have "\<not> bit v (k + n)" using False by (auto dest: bit_imp_le_length)
    then show ?thesis using m n by (simp add: r bit_or_iff bit_drop_bit_eq bit_push_bit_iff)
  qed
qed

lemma arm_expand_imm: "arm_expand_imm_c (fld32 w 0 12) = a32_imm w"
proof -
  let ?v = "fld32 w 0 8" and ?k = "2 * unat (fld32 w 8 4)"
  have k: "?k < 32"
  proof -
    have "unat (fld32 w 8 4) = take_bit 4 (unat (drop_bit 8 w))" by (simp only: fld32_def unsigned_take_bit_eq)
    also have "\<dots> < 2 ^ 4" by (rule take_bit_nat_less_exp)
    finally show ?thesis by simp
  qed
  have f: "bits (fld32 w 0 12) 0 7 = ?v" "bits (fld32 w 0 12) 8 11 = fld32 w 8 4"
    by (rule bit_word_eqI; auto simp: fld32_def bit_bits bit_simps)+
  have "word_rotr ?k ?v = drop_bit ?k ?v OR push_bit (32 - ?k) ?v" if "?k \<noteq> 0"
    using rotr_split [OF k] that by simp
  moreover have "word_rotr 0 ?v = ?v" by (rule bit_word_eqI) (simp add: bit_word_rotr_iff)
  ultimately show ?thesis using k unfolding arm_expand_imm_c_def a32_imm_def f Let_def arm_shift_c_def by auto
qed

lemma unat_15: "unat (x :: u32) = 15 \<longleftrightarrow> x = 15"
proof
  assume x: "unat x = 15"
  have "x = word_of_nat (unat x)" by simp
  then show "x = 15" unfolding x by simp
qed simp

lemma rf_15: "rf w 16 = 15 \<longleftrightarrow> fld32 w 16 4 = 15"
  by (simp add: rf_def unat_15)

text \<open>The block of an instruction that the decoder recognises.\<close>

lemma decode_lit:
  assumes "a32_decode w = Some (I_lit c byte rt off)"
  shows "arm_block cur w = arm_lit_block cur w \<and> c = fld32 w 28 4 \<and> byte = bit w 22 \<and> rt = rf w 12 \<and>
    off = (if bit w 23 then fld32 w 0 12 else - fld32 w 0 12)"
proof -
  have d: "fld32 w 28 4 \<noteq> 15" "w AND 0x0E000000 = 0x04000000" "bit w 24" "\<not> bit w 21" "bit w 20" "rf w 16 = 15"
    "c = fld32 w 28 4" "byte = bit w 22" "rt = rf w 12" "off = (if bit w 23 then fld32 w 0 12 else - fld32 w 0 12)"
    using assms by (auto simp: a32_decode_def Let_def split: if_splits)
  have "is_arm_literal w"
    using d mask_class(1) [OF d(2)] by (auto simp: is_arm_literal_def Let_def bits_flds bit1_01 rf_15)
  then show ?thesis using d by (simp add: arm_block_def)
qed

lemma decode_adr32:
  assumes "a32_decode w = Some (I_adr c rd off)"
  shows "\<not> is_arm_literal w \<and> arm_adr_target cur w = cur + off \<and> c = fld32 w 28 4 \<and> rd = rf w 12"
proof -
  have d: "fld32 w 28 4 \<noteq> 15" "w AND 0x0FFF0000 = 0x028F0000 \<and> off = a32_imm w \<or> w AND 0x0FFF0000 = 0x024F0000 \<and> off = - a32_imm w"
    "c = fld32 w 28 4" "rd = rf w 12"
    using assms by (auto simp: a32_decode_def Let_def split: if_splits)
  have f: "fld32 w 16 12 = 0x28F \<or> fld32 w 16 12 = 0x24F" using d(2) mask_class(3) [of w "0x028F0000"] mask_class(3) [of w "0x024F0000"] by auto
  have b: "bit w k \<longleftrightarrow> bit (fld32 w 16 12) (k - 16)" if "16 \<le> k" "k < 28" for k
    using bit_fld32 [of "k - 16" 12 w 16] that by simp
  have c: "fld32 w 25 3 = 1" using f fld_parts(2) [of w] by auto
  have "\<not> is_arm_literal w" using c by (simp add: is_arm_literal_def Let_def bits_flds)
  moreover have "arm_adr_target cur w = cur + off"
    using d(1,2)
  proof (elim disjE conjE)
    assume x: "w AND 0x0FFF0000 = 0x028F0000" "off = a32_imm w"
    then have f: "fld32 w 16 12 = 0x28F" using mask_class(3) [OF x(1)] by simp
    show ?thesis using d(1) x c b [of 25] b [of 20] fld_parts(3-5) [of w] arm_expand_imm [of w]
      by (simp add: arm_adr_target_def Let_def bits_flds bit1_01 f)
  next
    assume x: "w AND 0x0FFF0000 = 0x024F0000" "off = - a32_imm w"
    then have f: "fld32 w 16 12 = 0x24F" using mask_class(3) [OF x(1)] by simp
    show ?thesis using d(1) x c b [of 25] b [of 20] fld_parts(3-5) [of w] arm_expand_imm [of w]
      by (simp add: arm_adr_target_def Let_def bits_flds bit1_01 f)
  qed
  ultimately show ?thesis using d by simp
qed

lemma branch_class: "fld32 w 25 3 = 5 \<Longrightarrow> arm_block cur w = arm_branch_block cur w"
proof -
  assume f: "fld32 w 25 3 = 5"
  then have "bit w 25" using bit_fld32 [of 0 3 w 25] by simp
  then show ?thesis using f by (simp add: arm_block_def is_arm_literal_def arm_adr_target_def Let_def bits_flds bit1_01)
qed

lemma fld_less: "unat (fld32 w lo n) < 2 ^ n"
proof -
  have "unat (fld32 w lo n) = take_bit n (unat (drop_bit lo w))" by (simp only: fld32_def unsigned_take_bit_eq)
  also have "\<dots> < 2 ^ n" by (rule take_bit_nat_less_exp)
  finally show ?thesis .
qed

lemma cond_less: "fld32 w 28 4 \<noteq> 15 \<Longrightarrow> fld32 w 28 4 < 15"
  using fld_less [of w 28 4] unat_15 [of "fld32 w 28 4"] by (simp add: word_less_nat_alt)

lemma decode_b32:
  assumes "a32_decode w = Some (I_b c off) \<and> op = 0x0A000000 \<or> a32_decode w = Some (I_bl c off) \<and> op = 0x0B000000"
  shows "arm_block cur w = (words_of [op OR push_bit 28 c, 0xEA000001, 0xE51FF004, cur + off, 0xE1A08008], None) \<and> c < 15 \<and>
    take_bit 2 off = 0"
proof -
  have d: "fld32 w 28 4 \<noteq> 15" "w AND 0x0F000000 = op" "c = fld32 w 28 4" "off = push_bit 2 (sx 24 (fld32 w 0 24))"
    "op = 0x0A000000 \<or> op = 0x0B000000"
    using assms by (auto simp: a32_decode_def Let_def split: if_splits)
  have f: "fld32 w 24 4 = drop_bit 24 op" by (rule mask_class(2) [OF d(2)])
  then have "fld32 w 25 3 = 5" using fld_parts(1) [of w] d(5) by auto
  moreover have "bit w 24 \<longleftrightarrow> op = 0x0B000000" using bit_fld32 [of 0 4 w 24] f d(5) by auto
  moreover have "take_bit 2 off = 0" unfolding d(4) by (rule bit_word_eqI) (auto simp: bit_simps)
  ultimately show ?thesis using d cond_less [OF d(1)] branch_class [of w cur] branch_offset32 [of w]
    by (auto simp: arm_branch_block_def Let_def bits_flds bit1_01)
qed

lemma decode_blx:
  assumes "a32_decode w = Some (I_blx off)" "\<not> bit off 1"
  shows "arm_block cur w = (words_of [0xEB000000, 0xEA000001, 0xE51FF004, (cur + off) OR 1, 0xE1A08008], None) \<and> take_bit 2 off = 0"
proof -
  have d: "fld32 w 28 4 = 15" "w AND 0x0E000000 = 0x0A000000" "off = push_bit 2 (sx 24 (fld32 w 0 24)) OR (if bit w 24 then 2 else 0)"
    using assms by (auto simp: a32_decode_def Let_def split: if_splits)
  have "\<not> bit w 24"
  proof
    assume "bit w 24"
    then have "bit off 1" unfolding d(3) by (simp add: bit_or_iff)
    then show False using assms(2) by simp
  qed
  moreover have "fld32 w 25 3 = 5" using mask_class(1) [OF d(2)] by simp
  moreover have "take_bit 2 (push_bit 2 x) = (0 :: u32)" for x by (rule bit_word_eqI) (auto simp: bit_simps)
  ultimately show ?thesis using d branch_class [of w cur] branch_offset32 [of w]
    by (auto simp: arm_branch_block_def Let_def bits_flds bit1_01)
qed

text \<open>All other instructions that the decoder recognises are copied.\<close>

definition copied_word :: "u32 \<Rightarrow> bool" where
  "copied_word w \<longleftrightarrow> fld32 w 25 3 = 0 \<or> fld32 w 25 3 = 4 \<or> (fld32 w 25 3 = 1 \<or> fld32 w 25 3 = 2) \<and> fld32 w 16 4 \<noteq> 15"

lemma copy_class:
  assumes "copied_word w"
  shows "arm_block cur w = (words_of [w], None)"
proof -
  have "bit w 25 \<longleftrightarrow> bit (fld32 w 25 3) 0" using bit_fld32 [of 0 3 w 25] by simp
  then show ?thesis using assms unfolding copied_word_def
    by (elim disjE conjE) (simp_all add: arm_block_def is_arm_literal_def arm_adr_target_def Let_def bits_flds bit1_01)
qed

lemma mask_25:
  assumes "w AND m = x" "m AND 0x0E000000 = 0x0E000000"
  shows "fld32 w 25 3 = drop_bit 25 (x AND 0x0E000000)"
proof -
  have "w AND 0x0E000000 = (w AND m) AND 0x0E000000" using assms(2) by (simp add: and.assoc)
  then show ?thesis using mask_class(1) [of w] assms(1) by simp
qed

lemma decode_copy:
  assumes "a32_decode w = Some i" "\<not> pc_relative32 i" "a32_supported i"
  shows "arm_block cur w = (words_of [w], None)"
proof (rule copy_class, cases i)
  note dec = a32_decode_def Let_def
  note splits = if_splits
  show "copied_word w"
    if "i = I_mem c load byte pre wb rt rn off" for c load byte pre wb rt rn off
  proof -
    have "w AND 0x0E000000 = 0x04000000" "rn = rf w 16" using assms(1) that by (auto simp: dec split: splits)
    then show ?thesis using mask_25 [of w "0x0E000000" "0x04000000"] assms(3) that rf_15 by (simp add: copied_word_def)
  qed
  show "copied_word w"
    if "i = I_addi c rd rn imm" for c rd rn imm
  proof -
    have "w AND 0x0FF00000 = 0x02800000" "rn = rf w 16" using assms(1) that by (auto simp: dec split: splits)
    then show ?thesis using mask_25 [of w "0x0FF00000" "0x02800000"] assms(3) that rf_15 by (simp add: copied_word_def)
  qed
  show "copied_word w"
    if "i = I_subi c rd rn imm" for c rd rn imm
  proof -
    have "w AND 0x0FF00000 = 0x02400000" "rn = rf w 16" using assms(1) that by (auto simp: dec split: splits)
    then show ?thesis using mask_25 [of w "0x0FF00000" "0x02400000"] assms(3) that rf_15 by (simp add: copied_word_def)
  qed
  show "copied_word w"
    if "i = I_cmpi c rn imm" for c rn imm
  proof -
    have "w AND 0x0FF0F000 = 0x03500000" "rn = rf w 16" using assms(1) that by (auto simp: dec split: splits)
    then show ?thesis using mask_25 [of w "0x0FF0F000" "0x03500000"] assms(3) that rf_15 by (simp add: copied_word_def)
  qed
  show "copied_word w"
    if "i = I_mov c rd rm" for c rd rm
  proof -
    have "w AND 0x0FFF0FF0 = 0x01A00000" using assms(1) that by (auto simp: dec split: splits)
    then show ?thesis using mask_25 [of w "0x0FFF0FF0" "0x01A00000"] by (simp add: copied_word_def)
  qed
  show "copied_word w"
    if "i = I_push c l" for c l
  proof -
    have "w AND 0x0FFF0000 = 0x092D0000" using assms(1) that by (auto simp: dec split: splits)
    then show ?thesis using mask_25 [of w "0x0FFF0000" "0x092D0000"] by (simp add: copied_word_def)
  qed
  show "copied_word w"
    if "i = I_bx c rm" for c rm
  proof -
    have "w AND 0x0FFFFFF0 = 0x012FFF10" using assms(1) that by (auto simp: dec split: splits)
    then show ?thesis using mask_25 [of w "0x0FFFFFF0" "0x012FFF10"] by (simp add: copied_word_def)
  qed
  have "i \<noteq> I_nop" "i \<noteq> I_addr c rd rm" for c rd rm using assms(1) by (auto simp: dec split: splits)
  then show "i = I_nop \<Longrightarrow> copied_word w"
    "\<And>c rd rm. i = I_addr c rd rm \<Longrightarrow> copied_word w"
    by auto
qed (use assms(2) in auto)

subsection \<open>Running the blocks\<close>

lemma at_code_skip: "at_code s t A b p \<Longrightarrow> at_code (skip 4 (setR r v s)) t A b (p + 4)"
  by (simp add: at_code_def in_ram_def add.assoc)

lemma step_word32:
  assumes "at_code s False A b p" "LoadARMInst b p = Some w" "a32_decode w = Some i"
  shows "a32_step s = Some (a32_exec 4 i s)"
  using assms by (intro a32_step_at [of s A b p w]) (auto simp: at_code_def)

lemma sim_literal:
  assumes "at_code s False A b p" "4 dvd p" "arm_placed b p (lit_words [ldr_lit r, ldr_reg rt r] v)"
    and "rt < 16" "r = (if rt = 15 then 12 else rt)" "v = align4 (src + 8) + off"
  shows "simulates32 b A src 4 (I_lit 14 False rt off) (p + 8) s"
proof -
  have r: "r < 15" using assms(4,5) by auto
  have pl: "arm_placed b p (words_of (ldr_lit r # [ldr_reg rt r]), Some (0, le_bytes 4 v))"
    using assms(3) by (simp add: lit_words_def)
  let ?s1 = "skip 4 (setR r v s)"
  have s1: "a32_step s = Some ?s1" by (rule step_ldr_lit [OF assms(1,2) pl r])
  have "a32_decode (ldr_reg rt r) = Some (I_mem 14 True False True False rt r 0)"
    using decode_ldr_reg [OF r] assms(4,5) by auto
  from step_word32 [OF at_code_skip [OF assms(1)] _ this] arm_word [OF pl, of 1]
  have s2: "a32_step ?s1 = Some (a32_exec 4 (I_mem 14 True False True False rt r 0) ?s1)" by simp
  then show ?thesis using assms(1,5,6) r s1 s2 unfolding simulates32_def Let_def
    by (intro exI [of _ 2]) (auto simp: numeral_2_eq_2 Let_def same_result_def wR_def rR_def at_code_def pc_value_def bx_to_def add.assoc)
qed

lemma sim_adr32:
  assumes "at_code s False A b p" "4 dvd p" "arm_placed b p (lit_words [ldr_lit rd] v)" "rd < 15" "v = align4 (src + 8) + off"
  shows "simulates32 b A src 4 (I_adr 14 rd off) (p + 4) s"
proof -
  have "arm_placed b p (words_of (ldr_lit rd # []), Some (0, le_bytes 4 v))" using assms(3) by (simp add: lit_words_def)
  from step_ldr_lit [OF assms(1,2) this assms(4)] have "a32_step s = Some (skip 4 (setR rd v s))" .
  then show ?thesis using assms(1,4,5) unfolding simulates32_def Let_def
    by (intro exI [of _ 1]) (auto simp: same_result_def wR_def wA_def at_code_def pc_value_def add.assoc)
qed

abbreviation branch_code :: "code_buffer \<Rightarrow> nat \<Rightarrow> u32 \<Rightarrow> u32 \<Rightarrow> bool" where
  "branch_code b p w v \<equiv> arm_placed b p (words_of [w, 0xEA000001, 0xE51FF004, v, 0xE1A08008], None)"

lemma branch_words:
  assumes "branch_code b p w v"
  shows "LoadARMInst b p = Some w" "LoadARMInst b (p + 4) = Some 0xEA000001" "LoadARMInst b (p + 8) = Some 0xE51FF004"
    "LoadARMInst b (p + 12) = Some v" "LoadARMInst b (p + 16) = Some 0xE1A08008"
  using arm_word [OF assms, of 0] arm_word [OF assms, of 1] arm_word [OF assms, of 2] arm_word [OF assms, of 3]
    arm_word [OF assms, of 4] by simp_all

lemma setR_same [simp]: "setR r (rg s r) s = s"
  by (simp add: setR_def)

lemma run_over:
  assumes "branch_code b p w v" "at_code u False A b (p + 4)"
  shows "a32_run 2 u = Some (u\<lparr>ip := A + word_of_nat (p + 20)\<rparr>)"
proof -
  let ?u1 = "u\<lparr>ip := A + word_of_nat (p + 16)\<rparr>"
  have "a32_step u = Some ?u1"
    using step_word32 [OF assms(2) branch_words(2) [OF assms(1)] decode_fixed(1)] assms(2)
    by (simp add: at_code_def pc_value_def add.assoc)
  moreover have "at_code ?u1 False A b (p + 16)" using assms(2) by (simp add: at_code_def in_ram_def)
  then have "a32_step ?u1 = Some (u\<lparr>ip := A + word_of_nat (p + 20)\<rparr>)"
    using step_word32 [OF _ branch_words(5) [OF assms(1)] decode_fixed(3)] by (simp add: wA_def wR_def rR_def skip_def setR_def add.assoc)
  ultimately show ?thesis by (simp add: numeral_2_eq_2)
qed

lemma step_target:
  assumes "branch_code b p w v" "at_code u False A b (p + 8)" "4 dvd p"
  shows "a32_step u = Some (bx_to v u)"
proof -
  have u: "take_bit 2 A = 0" "ip u = A + word_of_nat (p + 8)" "\<not> tb u" "in_ram u A b" using assms(2) by (auto simp: at_code_def)
  have "take_bit 2 (A + word_of_nat (p + 16)) = 0" using u(1) take_bit_4_dvd [of "p + 16"] assms(3) by (intro aligned_add) auto
  moreover have "pc_value u = A + word_of_nat (p + 16)" using u by (simp add: pc_value_def add.assoc)
  ultimately have "align4 (pc_value u) + - 4 = A + word_of_nat (p + 12)" by (simp add: align4_id)
  moreover have "ld32 4 u (A + word_of_nat (p + 12)) = v"
    using in_ram_Load [OF u(4), of 4 "p + 12" v] branch_words(4) [OF assms(1)] by (simp add: LoadARMInst_def)
  moreover have "a32_exec 4 (I_lit 14 False 15 (- 4)) u = bx_to (ld32 4 u (align4 (pc_value u) + - 4)) u" by (simp add: wR_def)
  ultimately show ?thesis using step_word32 [OF assms(2) branch_words(3) [OF assms(1)] decode_fixed(2)] by (simp only:)
qed

lemma decode_branch_words:
  assumes "c < 15"
  shows "a32_decode (0x0A000000 OR push_bit 28 c) = Some (I_b c 0)" "a32_decode (0x0B000000 OR push_bit 28 c) = Some (I_bl c 0)"
proof -
  have "\<forall>c \<in> set [0..<15]. a32_decode (0x0A000000 OR push_bit 28 (word_of_nat c)) = Some (I_b (word_of_nat c) 0)"
    "\<forall>c \<in> set [0..<15]. a32_decode (0x0B000000 OR push_bit 28 (word_of_nat c)) = Some (I_bl (word_of_nat c) 0)"
    by code_simp+
  moreover have "unat c \<in> set [0..<15]" using assms by (simp add: word_less_nat_alt)
  ultimately show "a32_decode (0x0A000000 OR push_bit 28 c) = Some (I_b c 0)" "a32_decode (0x0B000000 OR push_bit 28 c) = Some (I_bl c 0)"
    by (metis of_nat_unat ucast_id)+
qed

lemma at_code_ip: "at_code s t A b p \<Longrightarrow> at_code (s\<lparr>ip := A + word_of_nat q\<rparr>) t A b q"
  by (simp add: at_code_def in_ram_def)

lemma at_code_setR: "at_code s t A b p \<Longrightarrow> at_code (setR r v s) t A b p"
  by (simp add: at_code_def in_ram_def)

lemma bx_to_even: "take_bit 2 v = 0 \<Longrightarrow> bx_to v s = s\<lparr>ip := v, tb := False\<rparr>"
  using bit_take_bit_iff [of 2 v 0] by (simp add: bx_to_def)

lemma bx_to_odd: "take_bit 2 v = 0 \<Longrightarrow> bx_to (v OR 1) s = s\<lparr>ip := v, tb := True\<rparr>"
proof -
  assume v: "take_bit 2 v = 0"
  have "\<not> bit v 0" using arg_cong [OF v, of "\<lambda>w. bit w 0"] by (simp add: bit_take_bit_iff)
  then have "(v OR 1) AND NOT 1 = v" by (intro bit_word_eqI) (auto simp: bit_simps bit_1_iff intro: ccontr)
  then show ?thesis by (simp add: bx_to_def bit_or_iff)
qed

lemma even_address: "take_bit 2 (v :: u32) = 0 \<Longrightarrow> v AND NOT 1 = v \<and> \<not> bit v 0"
proof -
  assume v: "take_bit 2 v = 0"
  have "\<not> bit v 0" using arg_cong [OF v, of "\<lambda>w. bit w 0"] by (simp add: bit_take_bit_iff)
  moreover from this have "v AND NOT 1 = v" by (intro bit_word_eqI) (auto simp: bit_simps bit_1_iff intro: ccontr)
  ultimately show ?thesis by simp
qed

lemma run_3: "a32_step s = Some t \<Longrightarrow> a32_run 2 t = r \<Longrightarrow> a32_run 3 s = r"
  by (simp add: numeral_3_eq_3 numeral_2_eq_2)

text \<open>A branch or call block: the first word jumps to its third word or falls through to the second.\<close>

lemma sim_branch_taken:
  assumes "branch_code b p w v" "at_code s False A b p" "4 dvd p"
    and "a32_step s = Some (s1\<lparr>ip := A + word_of_nat (p + 8)\<rparr>)" "same_result {} s s1"
  shows "a32_run 2 s = Some (bx_to v s1)"
proof -
  have "at_code (s1\<lparr>ip := A + word_of_nat (p + 8)\<rparr>) False A b (p + 8)"
    using assms(2,5) by (simp add: at_code_def in_ram_def same_result_def)
  from step_target [OF assms(1) this assms(3)] assms(4) show ?thesis by (simp add: numeral_2_eq_2 bx_to_def)
qed

lemma sim_b32:
  assumes "at_code s False A b p" "4 dvd p" "branch_code b p (0x0A000000 OR push_bit 28 c) (src + 8 + off)" "c < 15"
    and "take_bit 2 src = 0" "take_bit 2 off = 0"
  shows "simulates32 b A src 4 (I_b c off) (p + 20) s"
proof -
  have s: "\<not> tb s" "ip s = A + word_of_nat p" using assms(1) by (auto simp: at_code_def)
  have step: "a32_step s = Some (a32_exec 4 (I_b c 0) s)"
    by (rule step_word32 [OF assms(1) branch_words(1) [OF assms(3)] decode_branch_words(1) [OF assms(4)]])
  have v: "take_bit 2 (src + 8 + off) = 0" using assms(5,6) take_bit_4_dvd [of 8] by (intro aligned_add) auto
  show ?thesis
  proof (cases "cond32 (cc s) c")
    case True
    have "a32_run 2 s = Some (bx_to (src + 8 + off) s)"
      using True s step by (intro sim_branch_taken [OF assms(3,1,2)]) (simp_all add: pc_value_def same_result_def add.assoc)
    then show ?thesis using True s bx_to_even [OF v] unfolding simulates32_def Let_def
      by (intro exI [of _ 2]) (simp add: same_result_def pc_value_def)
  next
    case False
    then have 1: "a32_step s = Some (skip 4 s)" using step by simp
    moreover have "at_code (skip 4 s) False A b (p + 4)" using at_code_skip [OF assms(1), of 0 "rg s 0"] by simp
    then have "a32_run 2 (skip 4 s) = Some ((skip 4 s)\<lparr>ip := A + word_of_nat (p + 20)\<rparr>)" by (rule run_over [OF assms(3)])
    ultimately have "a32_run 3 s = Some ((skip 4 s)\<lparr>ip := A + word_of_nat (p + 20)\<rparr>)" by (rule run_3)
    then show ?thesis using False unfolding simulates32_def Let_def
      by (intro exI [of _ 3]) (auto simp: same_result_def)
  qed
qed

text \<open>The return address of a call block.\<close>

lemma returns_over:
  assumes "branch_code b p w v" "take_bit 2 A = 0" "length b \<le> 4096" "4 dvd p"
  shows "\<not> bit (A + word_of_nat (p + 4)) 0" "in_ram u A b \<Longrightarrow> \<not> tb u \<Longrightarrow> ip u = (A + word_of_nat (p + 4)) AND NOT 1 \<Longrightarrow>
     a32_run 2 u = Some (u\<lparr>ip := A + word_of_nat (p + 20)\<rparr>)"
proof -
  have "take_bit 2 (A + word_of_nat (p + 4)) = 0" using assms(2,4) take_bit_4_dvd [of "p + 4"] by (intro aligned_add) auto
  note e = even_address [OF this]
  show "\<not> bit (A + word_of_nat (p + 4)) 0" using e by simp
  show "a32_run 2 u = Some (u\<lparr>ip := A + word_of_nat (p + 20)\<rparr>)"
    if "in_ram u A b" "\<not> tb u" "ip u = (A + word_of_nat (p + 4)) AND NOT 1"
    using that e assms(2,3) by (intro run_over [OF assms(1)]) (simp add: at_code_def)
qed

lemma sim_call:
  assumes "at_code s False A b p" "4 dvd p" "branch_code b p (0x0B000000 OR push_bit 28 c) v" "c < 15"
    and "i = I_bl c off \<and> v = src + 8 + off \<or> c = 14 \<and> i = I_blx off \<and> v = (src + 8 + off) OR 1"
    and "take_bit 2 src = 0" "take_bit 2 off = 0"
  shows "simulates32 b A src 4 i (p + 20) s"
proof -
  have s: "\<not> tb s" "ip s = A + word_of_nat p" "take_bit 2 A = 0" "length b \<le> 4096" using assms(1) by (auto simp: at_code_def)
  have step: "a32_step s = Some (a32_exec 4 (I_bl c 0) s)"
    by (rule step_word32 [OF assms(1) branch_words(1) [OF assms(3)] decode_branch_words(2) [OF assms(4)]])
  have src: "take_bit 2 (src + 8) = 0" using assms(6) take_bit_4_dvd [of 8] by (intro aligned_add) auto
  then have t: "take_bit 2 (src + 8 + off) = 0" using assms(7) by (rule aligned_add)
  note ret = returns_over [OF assms(3) s(3,4) assms(2)]
  let ?s1 = "setR 14 (A + word_of_nat (p + 4)) s"
  show ?thesis
  proof (cases "cond32 (cc s) c")
    case True
    have "a32_step s = Some (?s1\<lparr>ip := A + word_of_nat (p + 8)\<rparr>)"
      using True s step by (simp add: pc_value_def link_address_def add.assoc)
    moreover have "at_code (?s1\<lparr>ip := A + word_of_nat (p + 8)\<rparr>) False A b (p + 8)" by (rule at_code_ip [OF at_code_setR [OF assms(1)]])
    then have "a32_step (?s1\<lparr>ip := A + word_of_nat (p + 8)\<rparr>) = Some (bx_to v ?s1)"
      using step_target [OF assms(3) _ assms(2)] by (simp add: bx_to_def)
    ultimately have run: "a32_run 2 s = Some (bx_to v ?s1)" by (simp add: numeral_2_eq_2)
    have "bx_to v ?s1 = ?s1\<lparr>ip := src + 8 + off, tb := (i \<noteq> I_bl c off)\<rparr>"
      using assms(5) bx_to_even [OF t, of ?s1] bx_to_odd [OF t, of ?s1] by auto
    then show ?thesis using True assms(5) s run ret even_address [OF t] unfolding simulates32_def Let_def
      by (intro exI [of _ 2] exI [of _ "bx_to v ?s1"])
        (auto simp: same_result_def pc_value_def align4_id [OF src] link_address_def)
  next
    case False
    then have c: "i = I_bl c off" using assms(5) by auto
    have 1: "a32_step s = Some (skip 4 s)" using False step by simp
    moreover have "at_code (skip 4 s) False A b (p + 4)" using at_code_skip [OF assms(1), of 0 "rg s 0"] by simp
    then have "a32_run 2 (skip 4 s) = Some ((skip 4 s)\<lparr>ip := A + word_of_nat (p + 20)\<rparr>)" by (rule run_over [OF assms(3)])
    ultimately have "a32_run 3 s = Some ((skip 4 s)\<lparr>ip := A + word_of_nat (p + 20)\<rparr>)" by (rule run_3)
    then show ?thesis using False unfolding simulates32_def Let_def c
      by (intro exI [of _ 3]) (auto simp: same_result_def)
  qed
qed

text \<open>The address that a literal load or an \<^verbatim>\<open>ADR\<close> at \<open>src\<close> refers to.\<close>

fun a32_literal :: "u32 \<Rightarrow> a32_instr \<Rightarrow> u32 option" where
  "a32_literal src (I_lit _ _ _ off) = Some (align4 (src + 8) + off)"
| "a32_literal src (I_adr _ _ off) = Some (align4 (src + 8) + off)"
| "a32_literal src _ = None"

lemma fix_lit_None [simp]: "fix_lit offs (ws, None) = (ws, None)"
  by (simp add: fix_lit_def)

lemma fix_lit_words: "fixup_value offs (le_bytes 4 v) = le_bytes 4 v \<Longrightarrow> fix_lit offs (lit_words ws v) = lit_words ws v"
  by (simp add: fix_lit_def lit_words_def)

lemma arm_sim_block:
  assumes "a32_decode w = Some i" "a32_supported i" "take_bit 2 src = 0" "at_code s False A b p" "4 dvd p"
    and "arm_placed b p (fix_lit offs (arm_block (src + 8) w))"
    and "\<forall>v. a32_literal src i = Some v \<longrightarrow> fixup_value offs (le_bytes 4 v) = le_bytes 4 v \<and> v \<noteq> -1"
  shows "simulates32 b A src 4 i (p + length (fst (arm_block (src + 8) w))) s"
proof -
  have al: "align4 (src + 8) = src + 8" using assms(3) take_bit_4_dvd [of 8] by (intro align4_id aligned_add) auto
  have rd: "rf w k < 16" for k using fld_less [of w k 4] by (simp add: rf_def)
  consider (lit) c byte rt off where "i = I_lit c byte rt off" | (adr) c rd off where "i = I_adr c rd off"
    | (b) c off where "i = I_b c off" | (bl) c off where "i = I_bl c off" | (blx) off where "i = I_blx off"
    | (copy) "\<not> pc_relative32 i"
    using assms(2) by (cases i) auto
  then show ?thesis
  proof cases
    case lit
    note d = decode_lit [OF assms(1) [unfolded lit], of "src + 8"]
    let ?r = "if rt = 15 then 12 else rt"
    have f: "bits w 12 15 = fld32 w 12 4" "bits w 0 11 = fld32 w 0 12" by (simp_all add: bits_flds)
    have blk: "arm_block (src + 8) w = lit_words [ldr_lit ?r, ldr_reg rt ?r] (src + 8 + off)"
      using d by (auto simp: arm_lit_block_def Let_def f bit1_01 rf_def)
    then have "arm_placed b p (lit_words [ldr_lit ?r, ldr_reg rt ?r] (src + 8 + off))"
      using assms(6,7) lit by (simp add: fix_lit_words al)
    from sim_literal [OF assms(4,5) this _ refl] d rd [of 12] al assms(2) lit blk show ?thesis by (simp add: lit_words_def)
  next
    case adr
    note d = decode_adr32 [OF assms(1) [unfolded adr], of "src + 8"]
    have blk: "arm_block (src + 8) w = lit_words [ldr_lit rd] (src + 8 + off)"
      using d assms(7) adr by (simp add: arm_block_def bits_flds rf_def al)
    then have "arm_placed b p (lit_words [ldr_lit rd] (src + 8 + off))"
      using assms(6,7) adr by (simp add: fix_lit_words al)
    from sim_adr32 [OF assms(4,5) this] d rd [of 12] al assms(2) adr blk show ?thesis by (simp add: lit_words_def)
  next
    case b
    note d = decode_b32 [of w c off "0x0A000000" "src + 8"]
    then show ?thesis using sim_b32 [OF assms(4,5) _ _ assms(3)] assms(1,6) b by simp
  next
    case bl
    note d = decode_b32 [of w c off "0x0B000000" "src + 8"]
    then show ?thesis using sim_call [OF assms(4,5) _ _ _ assms(3), of c _ i off] assms(1,6) bl by simp
  next
    case blx
    note d = decode_blx [of w off "src + 8"]
    then show ?thesis using sim_call [OF assms(4,5) _ _ _ assms(3), of 14 _ i off] assms(1,2,6) blx by simp
  next
    case copy
    have blk: "arm_block (src + 8) w = (words_of [w], None)" by (rule decode_copy [OF assms(1) copy assms(2)])
    then have "LoadARMInst b p = Some w" using arm_word [of b p "[w]" None 0] assms(6) by simp
    from step_word32 [OF assms(4) this assms(1)] have "a32_step s = Some (a32_exec 4 i s)" .
    from sim_copy32 [OF this _ copy assms(2), of A p b src] assms(4) blk show ?thesis by (simp add: at_code_def)
  qed
qed

subsection \<open>The whole relocation\<close>

lemma fixup_value_high:
  assumes "\<forall>(c, p) \<in> set offs. c < n" "n \<le> unat (v :: u32)" "n < 2 ^ 31"
  shows "fixup_value offs (le_bytes 4 v) = le_bytes 4 v"
proof -
  have "sint v \<noteq> int c" if "(c, p) \<in> set offs" for c p
  proof
    assume "sint v = int c"
    then have "word_of_int (sint v) = (word_of_nat c :: u32)" by simp
    then have v: "v = word_of_nat c" by simp
    have "c < n" using assms(1) that by auto
    moreover have "unat v = c" unfolding v using \<open>c < n\<close> assms(3) by (simp add: unat_of_nat take_bit_nat_eq_self)
    ultimately show False using assms(2) by simp
  qed
  then have "map_of (map (\<lambda>(o1, o2). (int o1, o2)) offs) (sint v) = None"
    by (force simp: map_of_eq_None_iff)
  then show ?thesis by (simp add: fixup_value_def)
qed

definition ctx32 :: "u8 list \<Rightarrow> nat \<Rightarrow> addr32 \<Rightarrow> relo_ctx32" where
  "ctx32 bytes n org = \<lparr>c_buffer = bytes, c_cursor = 0, c_size = n, c_src = org, c_changed = [], c_offsets = []\<rparr>"

text \<open>The instruction set never changes in A32 code.\<close>

lemma gen_arm_unchanged:
  "gen_arm_relocate_code ctx a = Some (ctx', a') \<Longrightarrow> c_changed ctx = [] \<Longrightarrow> c_changed ctx' = [] \<and> c_size ctx' \<le> c_cursor ctx'"
proof (induction ctx a rule: gen_arm_relocate_code.induct)
  case (1 ctx a)
  show ?case
    using "1.prems" by (subst (asm) gen_arm_relocate_code.simps)
      (auto simp: Let_def note_offset_def check_execute_state_changed_def split: if_splits option.splits dest!: "1.IH" [rotated -2])
qed

lemma relocate_remain_arm:
  assumes "relocate_remain ARMExecuteState (ctx32 bytes n org) a = Some (ctx', a')"
  shows "gen_arm_relocate_code (ctx32 bytes n org) a = Some (ctx', a') \<and> c_changed ctx' = []"
proof -
  obtain c1 a1 where g: "gen_arm_relocate_code (ctx32 bytes n org) a = Some (c1, a1)"
    using assms by (auto simp: relocate_remain.simps gen_relocate_code_def split: option.splits)
  have "c_changed (ctx32 bytes n org) = []" by (simp add: ctx32_def)
  from gen_arm_unchanged [OF g this] g assms show ?thesis
    by (auto simp: relocate_remain.simps [of _ "ctx32 bytes n org"] gen_relocate_code_def)
qed

lemma arm_branch_tail: "arm_LiteralLdrBranch32 a v = Some (put_block kLdrLiteral a (words_of [0xE51FF004, v], None))"
  by (simp add: arm_LiteralLdrBranch32_def arm_ldr_pc_back PC_def arm_EmitAddress_def Emit32_def EmitBuffer_def put_block_def)

lemma length_arm_block: "4 dvd length (fst (arm_block cur w))"
  by (simp add: arm_block_def arm_lit_block_def arm_branch_block_def lit_words_def Let_def)

lemma arm_relocated:
  assumes "GenRelocateCode32 ARMExecuteState bytes n org br = Some (ctx', m, a)"
  shows "m = c_cursor ctx' \<and> n \<le> m \<and> (0 < n \<longrightarrow> (0, 0) \<in> set (c_offsets ctx')) \<and> (\<exists>rest. 4 dvd rest \<and>
     (\<forall>(c, p) \<in> set (c_offsets ctx'). 4 dvd p \<and> c < n \<and> (\<exists>w. LoadARMInst bytes c = Some w \<and>
        (let b = arm_block (org + word_of_nat c + 8) w in
          arm_placed (asm_buffer a) p (fix_lit (c_offsets ctx') b) \<and>
          (if c + 4 < n then (c + 4, p + length (fst b)) \<in> set (c_offsets ctx') else p + length (fst b) = rest \<and> c + 4 = m)))) \<and>
     (br \<longrightarrow> arm_placed (asm_buffer a) rest (words_of [0xE51FF004, org + word_of_nat m], None)))"
proof -
  let ?ctx = "ctx32 bytes n org"
  obtain a1 a2 where r: "relocate_remain ARMExecuteState ?ctx (AssemblerBase 0) = Some (ctx', a1)" "m = c_cursor ctx'"
    "(if br then relocate_branch ARMExecuteState (org + word_of_nat m) a1 else Some a1) = Some a2"
    "RelocBind arm32_link_confused_instructions (RelocLabelFixup (c_offsets ctx') (data_labels a2) a2) = Some a"
    using assms by (auto simp: GenRelocateCode32_def ctx32_def Let_def bind_eq_Some_conv link_of_def)
  note g = relocate_remain_arm [OF r(1)]
  define tail where "tail = (if br then [(words_of [0xE51FF004, org + word_of_nat m], None)] else [] :: lit_block list)"
  have a2: "a2 = foldl (put_block kLdrLiteral) a1 tail"
    using r(3) by (auto simp: tail_def relocate_branch_def arm_branch_tail split: if_splits)
  have t: "\<forall>b \<in> set tail. snd b = None" by (simp add: tail_def)
  have c: "c_cursor ?ctx = 0" "c_offsets ?ctx = []" "c_size ?ctx = n" "c_buffer ?ctx = bytes" "c_src ?ctx = org"
    by (simp_all add: ctx32_def)
  note R = arm_relocator.relocated [OF conjunct1 [OF g] conjunct2 [OF g] c(1,2) a2 t r(4), unfolded c(3-5)]
  have d: "\<forall>c p k b. arm_item bytes org c p = Some (k, b) \<longrightarrow> 4 dvd length (fst b)"
    using length_arm_block by (auto simp: arm_item_def) (metis fst_conv)
  let ?rest = "length (asm_buffer a1)"
  have D: "(\<forall>(c, p) \<in> set (c_offsets ctx'). 4 dvd p) \<and> 4 dvd ?rest" using R d by blast
  have I: "4 dvd p \<and> c < n \<and> (\<exists>w. LoadARMInst bytes c = Some w \<and>
        (let b = arm_block (org + word_of_nat c + 8) w in
          arm_placed (asm_buffer a) p (fix_lit (c_offsets ctx') b) \<and>
          (if c + 4 < n then (c + 4, p + length (fst b)) \<in> set (c_offsets ctx') else p + length (fst b) = ?rest \<and> c + 4 = m)))"
    if cp: "(c, p) \<in> set (c_offsets ctx')" for c p
  proof -
    have "c < n \<and> (\<exists>k b. arm_item bytes org c p = Some (k, b) \<and> 0 < k \<and>
        arm_placed (asm_buffer a) p (fix_lit (c_offsets ctx') b) \<and>
        (if c + k < n then (c + k, p + length (fst b)) \<in> set (c_offsets ctx') else p + length (fst b) = ?rest \<and> c + k = c_cursor ctx'))"
      using R cp by blast
    moreover have "4 dvd p" using D cp by blast
    ultimately show ?thesis using r(2) by (auto simp: arm_item_def Let_def)
  qed
  have T: "arm_placed (asm_buffer a) ?rest (words_of [0xE51FF004, org + word_of_nat m], None)" if br
  proof -
    have "\<forall>j < length tail. arm_placed (asm_buffer a) (?rest + block_pos tail j) (tail ! j)" using R by blast
    then show ?thesis using that by (simp add: tail_def)
  qed
  show ?thesis
  proof (intro conjI exI [of _ ?rest] impI ballI)
    show "n \<le> m" "0 < n \<Longrightarrow> (0, 0) \<in> set (c_offsets ctx')" using R r(2) by blast+
  next
    fix x assume x: "x \<in> set (c_offsets ctx')"
    obtain c p where cp: "x = (c, p)" by (cases x)
    show "case x of (c, p) \<Rightarrow> 4 dvd p \<and> c < n \<and> (\<exists>w. LoadARMInst bytes c = Some w \<and>
        (let b = arm_block (org + word_of_nat c + 8) w in
          arm_placed (asm_buffer a) p (fix_lit (c_offsets ctx') b) \<and>
          (if c + 4 < n then (c + 4, p + length (fst b)) \<in> set (c_offsets ctx') else p + length (fst b) = ?rest \<and> c + 4 = m)))"
      using x unfolding cp prod.case by (rule I)
  qed (use r(2) D T in simp_all)
qed

lemma step_pc_literal:
  assumes "arm_placed b p (words_of [0xE51FF004, v], None)" "at_code u False A b p" "4 dvd p"
  shows "a32_step u = Some (bx_to v u)"
proof -
  have l: "LoadARMInst b p = Some 0xE51FF004" "LoadARMInst b (p + 4) = Some v"
    using arm_word [OF assms(1), of 0] arm_word [OF assms(1), of 1] by simp_all
  have u: "take_bit 2 A = 0" "ip u = A + word_of_nat p" "\<not> tb u" "in_ram u A b" using assms(2) by (auto simp: at_code_def)
  have "take_bit 2 (A + word_of_nat (p + 8)) = 0" using u(1) take_bit_4_dvd [of "p + 8"] assms(3) by (intro aligned_add) auto
  moreover have "pc_value u = A + word_of_nat (p + 8)" using u by (simp add: pc_value_def add.assoc)
  ultimately have "align4 (pc_value u) + - 4 = A + word_of_nat (p + 4)" by (simp add: align4_id)
  moreover have "ld32 4 u (A + word_of_nat (p + 4)) = v"
    using in_ram_Load [OF u(4), of 4 "p + 4" v] l(2) by (simp add: LoadARMInst_def)
  moreover have "a32_exec 4 (I_lit 14 False 15 (- 4)) u = bx_to (ld32 4 u (align4 (pc_value u) + - 4)) u" by (simp add: wR_def)
  ultimately show ?thesis using step_word32 [OF assms(2) l(1) decode_fixed(2)] by (simp only:)
qed

lemma arm32_code_simulates:
  assumes "GenRelocateCode32 ARMExecuteState bytes n org br = Some (ctx', m, a)" "(c, p) \<in> set (c_offsets ctx')"
    and "LoadARMInst bytes c = Some w" "a32_decode w = Some i" "a32_supported i" "take_bit 2 (org + word_of_nat c) = 0"
    and "\<forall>v. a32_literal (org + word_of_nat c) i = Some v \<longrightarrow> n \<le> unat v \<and> v \<noteq> - 1" "n < 2 ^ 31"
  shows "\<exists>next. (\<forall>s A. at_code s False A (asm_buffer a) p \<longrightarrow>
        simulates32 (asm_buffer a) A (org + word_of_nat c) 4 i next s) \<and>
     (if c + 4 < n then (c + 4, next) \<in> set (c_offsets ctx')
      else br \<longrightarrow> (\<forall>s A. at_code s False A (asm_buffer a) next \<longrightarrow> a32_step s = Some (s\<lparr>ip := org + word_of_nat c + 4\<rparr>)))"
proof -
  let ?src = "org + word_of_nat c" and ?b = "asm_buffer a"
  obtain rest where rest: "4 dvd rest" "br \<longrightarrow> arm_placed ?b rest (words_of [0xE51FF004, org + word_of_nat m], None)"
    and P: "\<forall>(c, p) \<in> set (c_offsets ctx'). 4 dvd p \<and> c < n \<and> (\<exists>w. LoadARMInst bytes c = Some w \<and>
        (let b = arm_block (org + word_of_nat c + 8) w in
          arm_placed ?b p (fix_lit (c_offsets ctx') b) \<and>
          (if c + 4 < n then (c + 4, p + length (fst b)) \<in> set (c_offsets ctx') else p + length (fst b) = rest \<and> c + 4 = m)))"
    using arm_relocated [OF assms(1)] by blast
  let ?blk = "arm_block (?src + 8) w"
  have cp: "4 dvd p" "arm_placed ?b p (fix_lit (c_offsets ctx') ?blk)"
    "if c + 4 < n then (c + 4, p + length (fst ?blk)) \<in> set (c_offsets ctx') else p + length (fst ?blk) = rest \<and> c + 4 = m"
    using bspec [OF P assms(2)] assms(3) by (auto simp: Let_def)
  have keys: "\<forall>(c, p) \<in> set (c_offsets ctx'). c < n" using P by fast
  have lit: "\<forall>v. a32_literal ?src i = Some v \<longrightarrow> fixup_value (c_offsets ctx') (le_bytes 4 v) = le_bytes 4 v \<and> v \<noteq> - 1"
    using assms(7) fixup_value_high [OF keys _ assms(8)] by blast
  have "simulates32 ?b A ?src 4 i (p + length (fst ?blk)) s" if "at_code s False A ?b p" for s A
    by (rule arm_sim_block [OF assms(4,5,6) that cp(1,2) lit])
  moreover have "a32_step s = Some (s\<lparr>ip := ?src + 4\<rparr>)"
    if last: "\<not> c + 4 < n" and br and s: "at_code s False A ?b (p + length (fst ?blk))" for s A
  proof -
    have r: "p + length (fst ?blk) = rest" "c + 4 = m" using last cp(3) by simp_all
    then have m: "org + word_of_nat m = ?src + 4" by auto
    have pl: "arm_placed ?b rest (words_of [0xE51FF004, ?src + 4], None)" using rest(2) that(2) m by simp
    have "take_bit 2 (?src + 4) = 0" using aligned_add [OF assms(6), of 4] take_bit_4_dvd [of 4] by simp
    moreover have "a32_step s = Some (bx_to (?src + 4) s)" by (rule step_pc_literal [OF pl _ rest(1)]) (use s r in simp)
    ultimately show ?thesis using s bx_to_even [of "?src + 4" s] by (simp add: at_code_def)
  qed
  ultimately show ?thesis using cp(3) by (intro exI [of _ "p + length (fst ?blk)"]) auto
qed

text \<open>
  C5: Relocated A32 code simulates the original. If the relocator succeeds, then for every instruction of the
  prologue that it supports, wherever the code is placed (at the word-aligned address \<open>A\<close>, at most 4 KiB), running the
  relocated code from the offset recorded in \<^verbatim>\<open>relocated_offset_map\<close> has the effect of the original instruction at
  its original address (r12 excepted): same registers, flags, memory and instruction set, same absolute target of a
  branch; a call returns into the relocated code, and from there, as after an instruction that does not branch,
  execution goes on at the code of the next instruction, or behind the last one at the first instruction that
  was not relocated.
\<close>
theorem arm32_relocate_simulates:
  assumes "GenRelocateCode32 ARMExecuteState bytes n org br = Some (ctx', m, a)" "(c, p) \<in> set (c_offsets ctx')"
    and "LoadARMInst bytes c = Some w" "a32_decode w = Some i" "a32_supported i" "take_bit 2 (org + word_of_nat c) = 0"
    and "\<forall>v. a32_literal (org + word_of_nat c) i = Some v \<longrightarrow> n \<le> unat v \<and> v \<noteq> - 1" "n < 2 ^ 31"
  shows "\<exists>next. (\<forall>s A. at_code s False A (asm_buffer a) p \<longrightarrow>
        simulates32 (asm_buffer a) A (org + word_of_nat c) 4 i next s) \<and>
     (if c + 4 < n then (c + 4, next) \<in> set (c_offsets ctx')
      else br \<longrightarrow> (\<forall>s A. at_code s False A (asm_buffer a) next \<longrightarrow> a32_step s = Some (s\<lparr>ip := org + word_of_nat c + 4\<rparr>)))"
  by (rule arm32_code_simulates [OF assms])

lemma gen_arm_total:
  "c_changed ctx = [] \<Longrightarrow> gen_arm_relocate_code ctx a \<noteq> None \<longleftrightarrow>
     (\<forall>k. c_cursor ctx + 4 * k < c_size ctx \<longrightarrow> LoadARMInst (c_buffer ctx) (c_cursor ctx + 4 * k) \<noteq> None)"
proof (induction ctx a rule: gen_arm_relocate_code.induct)
  case (1 ctx a)
  let ?ctx = "(note_offset ctx a)\<lparr>c_cursor := c_cursor ctx + ARM_INST_LEN\<rparr>"
  have nc: "c_changed ?ctx = []" "c_cursor ?ctx = c_cursor ctx + 4" "c_size ?ctx = c_size ctx" "c_buffer ?ctx = c_buffer ctx"
    "\<not> check_execute_state_changed ?ctx x" for x
    using "1.prems" by (simp_all add: note_offset_def check_execute_state_changed_def ARM_INST_LEN_def)
  show ?case
  proof (cases "c_cursor ctx < c_size ctx")
    case True
    show ?thesis
    proof (cases "LoadARMInst (c_buffer ctx) (c_cursor ctx)")
      case None
      then have "\<exists>k. c_cursor ctx + 4 * k < c_size ctx \<and> LoadARMInst (c_buffer ctx) (c_cursor ctx + 4 * k) = None"
        using True by (intro exI [of _ 0]) simp
      then show ?thesis using True None by (auto simp: gen_arm_relocate_code.simps [of ctx a])
    next
      case (Some w)
      let ?a = "put_block kLdrLiteral a (arm_block (relo_cur_src_vmaddr32 ARMExecuteState ctx) w)"
      have eq: "gen_arm_relocate_code ctx a = gen_arm_relocate_code ?ctx ?a"
        using True Some nc(5) by (simp add: gen_arm_relocate_code.simps [of ctx a] ARMRelocateSingleInsn_block Let_def)
      have "gen_arm_relocate_code ?ctx ?a \<noteq> None \<longleftrightarrow>
          (\<forall>k. c_cursor ?ctx + 4 * k < c_size ?ctx \<longrightarrow> LoadARMInst (c_buffer ?ctx) (c_cursor ?ctx + 4 * k) \<noteq> None)"
        using "1.IH" [OF True Some ARMRelocateSingleInsn_block refl refl nc(5) nc(1)] .
      also have "\<dots> \<longleftrightarrow> (\<forall>k. c_cursor ctx + 4 * Suc k < c_size ctx \<longrightarrow> LoadARMInst (c_buffer ctx) (c_cursor ctx + 4 * Suc k) \<noteq> None)"
        unfolding nc by (simp add: algebra_simps)
      also have "\<dots> \<longleftrightarrow> (\<forall>k. c_cursor ctx + 4 * k < c_size ctx \<longrightarrow> LoadARMInst (c_buffer ctx) (c_cursor ctx + 4 * k) \<noteq> None)"
      proof (intro iffI allI impI)
        fix k assume h: "\<forall>k. c_cursor ctx + 4 * Suc k < c_size ctx \<longrightarrow> LoadARMInst (c_buffer ctx) (c_cursor ctx + 4 * Suc k) \<noteq> None"
          and k: "c_cursor ctx + 4 * k < c_size ctx"
        show "LoadARMInst (c_buffer ctx) (c_cursor ctx + 4 * k) \<noteq> None" using h k Some by (cases k) auto
      qed blast
      finally show ?thesis unfolding eq .
    qed
  qed (simp add: gen_arm_relocate_code.simps [of ctx a])
qed

text \<open>
  C27: The A32 relocator terminates, and it succeeds exactly when every word of the prologue can be read: no
  instruction makes it abort, and linking the literals never fails. The map of offsets then starts at the entry.
\<close>
theorem arm32_relocate_total:
  "(GenRelocateCode32 ARMExecuteState bytes n org br \<noteq> None \<longleftrightarrow> (\<forall>k. 4 * k < n \<longrightarrow> 4 * k + 4 \<le> length bytes)) \<and>
   (\<forall>ctx' m a. GenRelocateCode32 ARMExecuteState bytes n org br = Some (ctx', m, a) \<longrightarrow>
      n \<le> m \<and> (0 < n \<longrightarrow> (0, 0) \<in> set (c_offsets ctx')))"
proof (intro conjI allI impI)
  let ?ctx = "ctx32 bytes n org"
  have g: "gen_arm_relocate_code ?ctx a \<noteq> None \<longleftrightarrow> (\<forall>k. 4 * k < n \<longrightarrow> 4 * k + 4 \<le> length bytes)" for a
    using gen_arm_total [of ?ctx a] by (auto simp: ctx32_def LoadARMInst_def Load_def)
  show "GenRelocateCode32 ARMExecuteState bytes n org br \<noteq> None \<longleftrightarrow> (\<forall>k. 4 * k < n \<longrightarrow> 4 * k + 4 \<le> length bytes)"
  proof (cases "gen_arm_relocate_code ?ctx (AssemblerBase 0)")
    case None
    then have "relocate_remain ARMExecuteState ?ctx (AssemblerBase 0) = None"
      by (simp add: relocate_remain.simps gen_relocate_code_def)
    then show ?thesis using g [of "AssemblerBase 0"] None by (simp add: GenRelocateCode32_def ctx32_def)
  next
    case (Some r)
    obtain ctx' a1 where r: "r = (ctx', a1)" by (cases r)
    have u: "c_changed ctx' = []" "c_size ctx' \<le> c_cursor ctx'"
      using gen_arm_unchanged [OF Some [unfolded r]] by (simp_all add: ctx32_def)
    define tail where "tail = (if br then [(words_of [0xE51FF004, org + word_of_nat (c_cursor ctx')], None)] else [] :: lit_block list)"
    have "RelocBind arm32_link_confused_instructions (RelocLabelFixup (c_offsets ctx')
        (data_labels (foldl (put_block kLdrLiteral) a1 tail)) (foldl (put_block kLdrLiteral) a1 tail)) \<noteq> None"
      by (rule arm_relocator.binds [OF Some [unfolded r] u(1) refl]) (simp add: tail_def)
    moreover have "relocate_remain ARMExecuteState ?ctx (AssemblerBase 0) = Some (ctx', a1)"
      using Some r u(2) by (simp add: relocate_remain.simps gen_relocate_code_def)
    ultimately have "GenRelocateCode32 ARMExecuteState bytes n org br \<noteq> None"
      by (auto simp: GenRelocateCode32_def ctx32_def [symmetric] Let_def link_of_def tail_def relocate_branch_def arm_branch_tail
          simp del: words_of_simps split: if_splits)
    then show ?thesis using g [of "AssemblerBase 0"] Some by simp
  qed
  fix ctx' m a
  assume "GenRelocateCode32 ARMExecuteState bytes n org br = Some (ctx', m, a)"
  from arm_relocated [OF this] show "n \<le> m" "0 < n \<Longrightarrow> (0, 0) \<in> set (c_offsets ctx')" by blast+
qed

text \<open>A concrete prologue at 0x1000: \<^verbatim>\<open>ldr r3, [pc, #8]; bl .+0x100; push {r4, lr}\<close>.\<close>

definition sample32 :: "u8 list" where
  "sample32 = words_of [0xE59F3008, 0xEB00003E, 0xE92D4010]"

lemma sample32_relocates:
  "case GenRelocateCode32 ARMExecuteState sample32 12 0x1000 True of None \<Rightarrow> False
   | Some (ctx', m, a) \<Rightarrow> (0, 0) \<in> set (c_offsets ctx') \<and> (4, 8) \<in> set (c_offsets ctx') \<and> length (asm_buffer a) = 44"
  by code_simp

theorem arm32_relocate_simulates_witness:
  "\<exists>ctx' m a next. GenRelocateCode32 ARMExecuteState sample32 12 0x1000 True = Some (ctx', m, a) \<and>
     (\<forall>s A. at_code s False A (asm_buffer a) 0 \<longrightarrow> simulates32 (asm_buffer a) A 0x1000 4 (I_lit 14 False 3 8) next s) \<and>
     (4, next) \<in> set (c_offsets ctx')"
proof -
  obtain ctx' m a where r: "GenRelocateCode32 ARMExecuteState sample32 12 0x1000 True = Some (ctx', m, a)" "(0, 0) \<in> set (c_offsets ctx')"
    using sample32_relocates by (auto split: option.splits)
  have c: "LoadARMInst sample32 0 = Some 0xE59F3008" "a32_decode 0xE59F3008 = Some (I_lit 14 False 3 8)"
    "take_bit 2 (0x1000 + word_of_nat 0 :: u32) = 0" "align4 (0x1000 + word_of_nat 0 + 8) + 8 = 0x1010" "unat (0x1010 :: u32) = 0x1010"
    by code_simp+
  have l: "\<forall>v. a32_literal (0x1000 + word_of_nat 0) (I_lit 14 False 3 8) = Some v \<longrightarrow> 12 \<le> unat v \<and> v \<noteq> - 1"
    using c(4,5) by simp
  from arm32_relocate_simulates [OF r c(1,2) _ c(3) l] r show ?thesis by auto
qed

theorem arm32_relocate_total_witness:
  "\<exists>ctx' m a. GenRelocateCode32 ARMExecuteState sample32 12 0x1000 True = Some (ctx', m, a) \<and> 12 \<le> m \<and> (0, 0) \<in> set (c_offsets ctx')"
proof -
  have "length sample32 = 12" by (simp add: sample32_def)
  then have "\<forall>k. 4 * k < 12 \<longrightarrow> 4 * k + 4 \<le> length sample32" by auto
  then show ?thesis using arm32_relocate_total [of sample32 12 "0x1000" True] by auto
qed

end
