(* ===== verification/Thumb_Blocks.thy ===== *)
theory Thumb_Blocks
  imports Arm32_Reloc_Sim
begin

text \<open>
  The blocks that the Thumb relocator emits, for prologues that stay in Thumb state: one or two no-operations that align
  the code, and a body of halfwords with at most one literal. The interpretation at the end gives the layout of the
  whole relocated code.
\<close>

subsection \<open>The blocks of Thumb instructions\<close>

type_synonym body = "u16 list \<times> (nat \<times> u32) option"

definition halves_of :: "u16 list \<Rightarrow> u8 list" where
  "halves_of hs = concat (map (le_bytes 2) hs)"

definition pads :: "nat \<Rightarrow> u16 list" where
  "pads p = (if (p + 2) mod 4 \<noteq> 0 then [0xbf00, 0xbf00] else [0xbf00])"

definition body_block :: "nat \<Rightarrow> body \<Rightarrow> lit_block" where
  "body_block p b = (halves_of (pads p @ fst b), map_option (\<lambda>(j, v). (2 * (length (pads p) + j), le_bytes 4 v)) (snd b))"

definition lit_pair :: "nat \<Rightarrow> u16 list" where
  "lit_pair rt = [0xf85f, push_bit 12 (word_of_nat rt)]"

definition ldr_pair :: "nat \<Rightarrow> u16 list" where
  "ldr_pair r = [0xf8d0 OR word_of_nat r, push_bit 12 (word_of_nat r)]"

definition addr_halves :: "u32 \<Rightarrow> u16 list" where
  "addr_halves v = [ucast v, ucast (drop_bit 16 v)]"

text \<open>The bodies: \<open>over h v\<close> is a short branch \<open>h\<close> over a branch to the end, and the load of the target.\<close>

definition over :: "u16 \<Rightarrow> u32 \<Rightarrow> body" where
  "over h v = ([h, 0xbf00, 0xf000, 0xb802] @ lit_pair 15, Some (4, v))"

definition t1_body :: "addr32 \<Rightarrow> u16 \<Rightarrow> body option" where
  "t1_body cur h =
     (if bits h 10 15 = 17 \<and> bits h 8 9 \<noteq> 3 \<and> bits h 3 6 = 15 then
        Some (lit_pair 12 @ [set_bits h 3 6 12], Some (0, cur))
      else if bits h 10 15 = 17 \<and> bits h 8 9 = 3 \<and> bits h 3 6 = 15 then None
      else if h AND 0xf800 = 0x4800 then
        Some (lit_pair (unat (bits h 8 10)) @ ldr_pair (unat (bits h 8 10)),
          Some (0, (cur + push_bit 2 (ucast (bits h 0 7))) AND NOT (4 - 1)))
      else if h AND 0xf800 = 0xa000 then
        Some (lit_pair (unat (bits h 8 10)), Some (0, cur + push_bit 2 (ucast (bits h 0 7))))
      else if h AND 0xf000 = 0xd000 then
        if bits h 8 11 \<ge> 14 then None
        else Some (over (set_bits 0xe000 8 11 (bits h 8 11) OR drop_bit 1 4) ((cur + SignExtend32 (push_bit 1 (ucast (bits h 0 7))) 9) OR 1))
      else if h AND 0xf500 = 0xb100 then
        Some (over (set_bit1 (set_bits h 3 7 (bits 4 1 5)) 9 (bit1 4 6))
          (cur + (push_bit 6 (ucast (bit1 h 9)) OR push_bit 1 (ucast (bits h 3 7))) + 1))
      else if h AND 0xf800 = 0xe000 then
        Some (lit_pair 15, Some (0, cur + SignExtend32 (push_bit 1 (ucast (bits h 0 10))) 12 + 1))
      else Some ([h], None))"

definition call_body :: "u32 \<Rightarrow> body" where
  "call_body v = ([0xf000, 0xf802, 0xf000, 0xb804, 0xf85f, 0xf000] @ addr_halves v, None)"

definition blx_imm :: "u16 \<Rightarrow> u16 \<Rightarrow> u32" where
  "blx_imm h1 h2 =
     (let S = ucast (bit1 h1 10); J1 = bit1 h2 13; J2 = bit1 h2 11; imm10h = ucast (bits h1 0 9); imm10l = ucast (bits h2 1 10);
          i1 = (if J1 XOR bit1 h1 10 = 0 then 1 else 0); i2 = (if J2 XOR bit1 h1 10 = 0 then 1 else 0)
      in SignExtend32 (push_bit 24 S OR push_bit 23 i1 OR push_bit 22 i2 OR push_bit 12 imm10h OR push_bit 2 imm10l) 24)"

definition t2_b_cond_body :: "addr32 \<Rightarrow> u16 \<Rightarrow> u16 \<Rightarrow> body" where
  "t2_b_cond_body cur h1 h2 =
     (let S = ucast (bit1 h1 10); J1 = ucast (bit1 h2 13); J2 = ucast (bit1 h2 11); imm6 = ucast (bits h1 0 5); imm11 = ucast (bits h2 0 10);
          imm = SignExtend32 (push_bit 20 S OR push_bit 19 J2 OR push_bit 18 J1 OR push_bit 12 imm6 OR push_bit 1 imm11) 21
      in ([set_bits 0xe000 8 11 (bits h1 6 9) OR drop_bit 1 4, 0xbf00, 0xf000, 0xb804, 0xf85f, 0xf000] @ addr_halves ((cur + imm) OR 1), None))"

definition t2_body :: "addr32 \<Rightarrow> u16 \<Rightarrow> u16 \<Rightarrow> body" where
  "t2_body cur h1 h2 =
     (let branch = (h1 AND 0xf800 = 0xf000 \<and> h2 AND 0x8000 = 0x8000); op1 = bits h1 6 9; op3 = bits h2 12 14 in
      if branch \<and> op1 AND 0xE \<noteq> 0xE \<and> op3 AND 5 = 0 then t2_b_cond_body cur h1 h2
      else if branch \<and> op3 AND 5 = 1 then ([0xf85f, 0xf000] @ addr_halves ((cur + thumb2_imm h1 h2) OR 1), None)
      else if branch \<and> op3 AND 5 = 5 then call_body ((cur + thumb2_imm h1 h2) OR 1)
      else if branch \<and> op3 AND 5 = 4 then call_body ((cur AND NOT (4 - 1)) + blx_imm h1 h2)
      else case thumb2_adr_target cur h1 h2 of
          Some (rd, v) \<Rightarrow> ([0xf8df, push_bit 12 (word_of_nat rd) OR 4, 0xf000, 0xb800] @ addr_halves v, None)
        | None \<Rightarrow>
            if h1 AND 0xff7f = 0xf85f then
              let rt = unat (bits h2 12 15); imm = ucast (bits h2 0 11); v = (if bit1 h1 7 = 1 then cur + imm else cur - imm) in
              ([0xf8df, push_bit 12 (word_of_nat rt) OR 8] @ (if rt = 15 then lit_pair 15 else ldr_pair rt) @ [0xf000, 0xb802] @ addr_halves v, None)
            else ([h1, h2], None))"

definition thumb_item :: "u8 list \<Rightarrow> addr32 \<Rightarrow> nat \<Rightarrow> nat \<Rightarrow> item option" where
  "thumb_item bytes src c p = Option.bind (LoadThumb2Inst bytes c) (\<lambda>insn.
     let h1 = ucast insn; h2 = ucast (drop_bit 16 insn); cur = src + word_of_nat c + 4 in
     if is_thumb2 insn then Some (4, body_block p (t2_body cur h1 h2))
     else map_option (\<lambda>b. (2, body_block p b)) (t1_body cur h1))"

lemma halves_of_simps [simp]: "halves_of [] = []" "halves_of (h # hs) = le_bytes 2 h @ halves_of hs"
  "halves_of (hs @ hs') = halves_of hs @ halves_of hs'"
  by (simp_all add: halves_of_def)

lemma length_halves_of [simp]: "length (halves_of hs) = 2 * length hs"
  by (induction hs) simp_all

lemma le_bytes_4: "le_bytes 4 (v :: u32) = halves_of (addr_halves v)"
proof -
  have l4: "le_bytes 4 v = [ucast v, ucast (drop_bit 8 v), ucast (drop_bit 16 v), ucast (drop_bit 24 v)]"
    and l2: "le_bytes 2 h = [ucast h, ucast (drop_bit 8 h)]" for h :: u16
    by (simp_all add: le_bytes_def upt_rec)
  have "ucast (ucast w :: u16) = (ucast w :: u8)" "ucast (drop_bit 8 (ucast w :: u16)) = (ucast (drop_bit 8 w) :: u8)" for w :: u32
    by (rule bit_word_eqI; auto simp: bit_simps)+
  then show ?thesis by (simp add: l4 l2 addr_halves_def)
qed

text \<open>The Thumb relocator appends such a block.\<close>

abbreviation put_thumb :: "assembler \<Rightarrow> lit_block \<Rightarrow> assembler" where
  "put_thumb \<equiv> put_block kThumb2LiteralLdr"

definition emit_halves :: "assembler \<Rightarrow> u16 list \<Rightarrow> assembler" where
  "emit_halves a hs = a\<lparr>asm_buffer := asm_buffer a @ halves_of hs\<rparr>"

lemma EmitInt16_halves: "EmitInt16 a h = emit_halves a [h]"
  by (simp add: EmitInt16_def emit_halves_def Emit16_def EmitBuffer_def)

lemma emit_halves_append [simp]: "emit_halves (emit_halves a hs) hs' = emit_halves a (hs @ hs')"
  by (simp add: emit_halves_def)

lemma emit_halves_put [simp]: "emit_halves (put_thumb a (halves_of hs, lit)) hs' = put_thumb a (halves_of (hs @ hs'), lit)"
  by (auto simp: emit_halves_def put_block_def split: option.split)

lemma emit_halves_none: "emit_halves a hs = put_thumb a (halves_of hs, None)"
  by (simp add: emit_halves_def put_block_def)

lemma thumb_EmitAddress_halves: "thumb_EmitAddress a v = emit_halves a (addr_halves v)"
  by (simp add: thumb_EmitAddress_def Emit32_def EmitBuffer_def le_bytes_4 emit_halves_def)

lemma t2_branch_halves:
  "t2_b a 0 = Some (emit_halves a [0xf000, 0xb800])" "t2_b a 4 = Some (emit_halves a [0xf000, 0xb802])"
  "t2_b a 8 = Some (emit_halves a [0xf000, 0xb804])" "t2_bl a 4 = Some (emit_halves a [0xf000, 0xf802])"
proof -
  have "Thumb2Branch 0 False = (0xf000, 0xb800)" "Thumb2Branch 4 False = (0xf000, 0xb802)" "Thumb2Branch 8 False = (0xf000, 0xb804)"
    "Thumb2Branch 4 True = (0xf000, 0xf802)" by code_simp+
  then show "t2_b a 0 = Some (emit_halves a [0xf000, 0xb800])" "t2_b a 4 = Some (emit_halves a [0xf000, 0xb802])"
    "t2_b a 8 = Some (emit_halves a [0xf000, 0xb804])" "t2_bl a 4 = Some (emit_halves a [0xf000, 0xf802])"
    by (simp_all add: t2_b_def t2_bl_def EmitThumb2Branch_def EmitInt16_halves)
qed

lemma t2_ldr_halves:
  "t2_ldr a rt (MemOperand32 15 0) = emit_halves a [0xf85f, push_bit 12 (word_of_nat rt)]"
  "t2_ldr a rt (MemOperand32 15 4) = emit_halves a [0xf8df, push_bit 12 (word_of_nat rt) OR 4]"
  "t2_ldr a rt (MemOperand32 15 8) = emit_halves a [0xf8df, push_bit 12 (word_of_nat rt) OR 8]"
  "r \<noteq> 15 \<Longrightarrow> t2_ldr a r (MemOperand32 r 0) = emit_halves a (ldr_pair r)"
proof -
  have u: "ucast (push_bit 12 (word_of_nat rt) OR w :: u32) = (push_bit 12 (word_of_nat rt) OR ucast w :: u16)" for w rt
    by (rule bit_word_eqI) (auto simp: bit_simps)
  have v: "ucast (0xf8d0 OR word_of_nat r :: u32) = (0xf8d0 OR word_of_nat r :: u16)" for r
  proof -
    have "ucast (word_of_nat r :: u32) = (word_of_nat r :: u16)" by (rule bit_word_eqI) (auto simp: bit_simps)
    then show ?thesis by (simp add: unsigned_or_eq)
  qed
  note d = t2_ldr_def EmitThumb2LoadStore_def EmitThumb2LoadLiteral_def MemOperand32_def PC_def EmitInt16_halves B7_def ldr_pair_def
  show "t2_ldr a rt (MemOperand32 15 0) = emit_halves a [0xf85f, push_bit 12 (word_of_nat rt)]"
    "t2_ldr a rt (MemOperand32 15 4) = emit_halves a [0xf8df, push_bit 12 (word_of_nat rt) OR 4]"
    "t2_ldr a rt (MemOperand32 15 8) = emit_halves a [0xf8df, push_bit 12 (word_of_nat rt) OR 8]"
    using u [of rt 0] u [of rt 4] u [of rt 8] by (simp_all add: d)
  show "r \<noteq> 15 \<Longrightarrow> t2_ldr a r (MemOperand32 r 0) = emit_halves a (ldr_pair r)"
    using u [of r 0] v [of r] by (simp add: d)
qed

lemma T2_Ldr_new:
  "T2_Ldr (emit_halves (fst (data_label32 a v)) hs) rt (snd (data_label32 a v)) =
     Some (put_thumb a (halves_of (hs @ lit_pair rt), Some (2 * length hs, le_bytes 4 v)))"
  by (simp add: data_label32_def new_label_def AppendRelocLabel_def T2_Ldr_def t2_ldr_halves PC_def put_block_def nth_append
      linked_label_def GetBufferSize_def withData_def setData_def RelocLabel_def link_to_def emit_halves_def lit_pair_def)

lemma T2_Ldr_new0:
  "T2_Ldr (fst (data_label32 a v)) rt (snd (data_label32 a v)) = Some (put_thumb a (halves_of (lit_pair rt), Some (0, le_bytes 4 v)))"
  using T2_Ldr_new [of a v "[]" rt] by (simp add: emit_halves_def)

definition put_body :: "assembler \<Rightarrow> body \<Rightarrow> assembler" where
  "put_body a b = put_thumb a (halves_of (fst b), map_option (\<lambda>(j, v). (2 * j, le_bytes 4 v)) (snd b))"

lemma put_body_simps:
  "put_body a (hs, None) = emit_halves a hs"
  "put_body a (hs, Some (j, v)) = put_thumb a (halves_of hs, Some (2 * j, le_bytes 4 v))"
  by (simp_all add: put_body_def emit_halves_none)

lemma field3: "unat (bits (h :: u16) lo (lo + 2)) < 8"
proof -
  have "bits h lo (lo + 2) = take_bit 3 (drop_bit lo h)" by (rule bit_word_eqI) (auto simp: bit_bits bit_simps)
  then have "unat (bits h lo (lo + 2)) = take_bit 3 (unat (drop_bit lo h))" by (simp only: unsigned_take_bit_eq)
  also have "\<dots> < 2 ^ 3" by (rule take_bit_nat_less_exp)
  finally show ?thesis by simp
qed

lemma thumb1_bodies:
  "thumb1_ldr_literal cur h a = Some (put_body a (lit_pair (unat (bits h 8 10)) @ ldr_pair (unat (bits h 8 10)),
     Some (0, (cur + push_bit 2 (ucast (bits h 0 7))) AND NOT (4 - 1))))"
  "thumb1_adr cur h a = Some (put_body a (lit_pair (unat (bits h 8 10)), Some (0, cur + push_bit 2 (ucast (bits h 0 7)))))"
  "bits h 8 11 < 14 \<Longrightarrow> thumb1_b_cond cur h a = Some (put_body a (over (set_bits 0xe000 8 11 (bits h 8 11) OR drop_bit 1 4)
     ((cur + SignExtend32 (push_bit 1 (ucast (bits h 0 7))) 9) OR 1)))"
  "thumb1_cbz cur h a = Some (put_body a (over (set_bit1 (set_bits h 3 7 (bits 4 1 5)) 9 (bit1 4 6))
     (cur + (push_bit 6 (ucast (bit1 h 9)) OR push_bit 1 (ucast (bits h 3 7))) + 1)))"
  "thumb1_b cur h a = Some (put_body a (lit_pair 15, Some (0, cur + SignExtend32 (push_bit 1 (ucast (bits h 0 10))) 12 + 1)))"
proof -
  have r: "unat (bits h 8 10) \<noteq> 15" using field3 [of h 8] by simp
  note d = Let_def split_beta put_body_simps over_def EmitInt16_halves t1_nop_def t2_branch_halves T2_Ldr_new T2_Ldr_new0 PC_def
  show "thumb1_ldr_literal cur h a = Some (put_body a (lit_pair (unat (bits h 8 10)) @ ldr_pair (unat (bits h 8 10)),
     Some (0, (cur + push_bit 2 (ucast (bits h 0 7))) AND NOT (4 - 1))))"
    unfolding thumb1_ldr_literal_def using r by (simp add: d t2_ldr_halves(4) del: halves_of_simps)
  show "thumb1_adr cur h a = Some (put_body a (lit_pair (unat (bits h 8 10)), Some (0, cur + push_bit 2 (ucast (bits h 0 7)))))"
    unfolding thumb1_adr_def by (simp add: d del: halves_of_simps)
  show "bits h 8 11 < 14 \<Longrightarrow> thumb1_b_cond cur h a = Some (put_body a (over (set_bits 0xe000 8 11 (bits h 8 11) OR drop_bit 1 4)
     ((cur + SignExtend32 (push_bit 1 (ucast (bits h 0 7))) 9) OR 1)))"
    unfolding thumb1_b_cond_def by (simp add: d not_le del: halves_of_simps)
  show "thumb1_cbz cur h a = Some (put_body a (over (set_bit1 (set_bits h 3 7 (bits 4 1 5)) 9 (bit1 4 6))
     (cur + (push_bit 6 (ucast (bit1 h 9)) OR push_bit 1 (ucast (bits h 3 7))) + 1)))"
    unfolding thumb1_cbz_def by (simp add: d del: halves_of_simps)
  show "thumb1_b cur h a = Some (put_body a (lit_pair 15, Some (0, cur + SignExtend32 (push_bit 1 (ucast (bits h 0 10))) 12 + 1)))"
    unfolding thumb1_b_def by (simp add: d del: halves_of_simps)
qed

lemma word_mod_4: "(word_of_nat p :: u32) mod 4 = 0 \<longleftrightarrow> p mod 4 = 0"
proof -
  have "(word_of_nat p :: u32) mod 4 = take_bit 2 (word_of_nat p)" by (simp add: take_bit_eq_mod)
  also have "\<dots> = word_of_nat (take_bit 2 p)" by (rule take_bit_of_nat)
  also have "take_bit 2 p = p mod 4" by (simp add: take_bit_eq_mod)
  finally have e: "(word_of_nat p :: u32) mod 4 = word_of_nat (p mod 4)" .
  have u: "unat (word_of_nat (p mod 4) :: u32) = p mod 4"
  proof -
    have "p mod 4 < 4" by simp
    then have "take_bit 32 (p mod 4) = p mod 4" by (intro take_bit_nat_eq_self) simp
    then show ?thesis by (simp only: unat_of_nat len_num0 len_bit0 len_bit1 len_num1) (simp add: take_bit_eq_mod)
  qed
  show ?thesis unfolding e
  proof
    assume "(word_of_nat (p mod 4) :: u32) = 0"
    then show "p mod 4 = 0" using u by simp
  qed simp
qed

lemma AlignThumbNop_pads: "realized_addr a = 0 \<Longrightarrow> AlignThumbNop (t1_nop a) = emit_halves a (pads (length (asm_buffer a)))"
proof -
  assume "realized_addr a = 0"
  moreover have "(2 + word_of_nat n :: u32) mod 4 = 0 \<longleftrightarrow> (n + 2) mod 4 = 0" for n
    using word_mod_4 [of "n + 2"] by (simp add: add.commute)
  ultimately show ?thesis
    by (auto simp: AlignThumbNop_def t1_nop_def EmitInt16_halves pads_def emit_halves_def GetBufferSize_def Thumb2_INST_LEN_def)
qed

lemma put_body_padded: "put_body (emit_halves a (pads n)) b = put_thumb a (body_block n b)"
  by (auto simp: put_body_def emit_halves_def body_block_def put_block_def algebra_simps split: option.split)

lemma thumb1_b_cond_None: "14 \<le> bits h 8 11 \<Longrightarrow> thumb1_b_cond cur h a = None"
  by (simp add: thumb1_b_cond_def)

lemma Thumb1_block:
  assumes "realized_addr a = 0" "Thumb1RelocateSingleInsn cur h (t1_nop a) = Some ([], a')"
  shows "\<exists>b. t1_body cur h = Some b \<and> a' = put_thumb a (body_block (length (asm_buffer a)) b)"
proof -
  let ?a = "emit_halves a (pads (length (asm_buffer a)))"
  have "\<exists>b. t1_body cur h = Some b \<and> a' = put_body ?a b"
  proof (cases "bits h 10 15 = 17 \<and> bits h 3 6 = 15")
    case True
    then have "bits h 8 9 \<noteq> 3" "a' = put_body ?a (lit_pair 12 @ [set_bits h 3 6 12], Some (0, cur))"
      using assms(2) by (auto simp: Thumb1RelocateSingleInsn_def AlignThumbNop_pads [OF assms(1)] thumb1_special_def Let_def split_beta
          T2_Ldr_new0 VOLATILE_REGISTER_def PC_def put_body_simps EmitInt16_halves bind_eq_Some_conv simp del: halves_of_simps split: if_splits)
    then show ?thesis using True by (simp add: t1_body_def)
  next
    case False
    then have ns: "(if bits h 10 15 = 17 then thumb1_special cur h x else None) = None" for x
      by (auto simp: thumb1_special_def Let_def)
    have "Thumb1RelocateSingleInsn cur h (t1_nop a) = map_option (\<lambda>b. ([], put_body ?a b)) (t1_body cur h)"
    proof (cases "14 \<le> bits h 8 11")
      case True
      then show ?thesis using False
        by (auto simp: Thumb1RelocateSingleInsn_def AlignThumbNop_pads [OF assms(1)] Let_def ns t1_body_def thumb1_bodies
          EmitInt16_halves put_body_simps(1) thumb1_b_cond_None simp del: halves_of_simps)
    next
      case F: False
      then show ?thesis using False
        by (auto simp: Thumb1RelocateSingleInsn_def AlignThumbNop_pads [OF assms(1)] Let_def ns t1_body_def thumb1_bodies not_le
          EmitInt16_halves put_body_simps(1) simp del: halves_of_simps)
    qed
    then show ?thesis using assms(2) by (cases "t1_body cur h") auto
  qed
  then show ?thesis by (simp add: put_body_padded)
qed

lemma Thumb2_block:
  assumes "realized_addr a = 0" "Thumb2RelocateSingleInsn cur h1 h2 (t1_nop a) = Some a'"
  shows "a' = put_thumb a (body_block (length (asm_buffer a)) (t2_body cur h1 h2))"
proof -
  let ?a = "emit_halves a (pads (length (asm_buffer a)))"
  note d = Let_def EmitInt16_halves t1_nop_def t2_branch_halves t2_ldr_address_def t2_ldr_halves PC_def thumb_EmitAddress_halves
    put_body_simps(1)
  have call: "t2_call x v = Some (put_body x (call_body v))" for x v
    unfolding t2_call_def call_body_def by (simp add: d del: halves_of_simps)
  have bc: "thumb2_b_cond cur h1 h2 x = Some (put_body x (t2_b_cond_body cur h1 h2))" for x
    unfolding thumb2_b_cond_def t2_b_cond_body_def by (simp add: d del: halves_of_simps)
  have b: "thumb2_b cur h1 h2 x = Some (put_body x ([0xf85f, 0xf000] @ addr_halves ((cur + thumb2_imm h1 h2) OR 1), None))" for x
    unfolding thumb2_b_def by (simp add: d del: halves_of_simps)
  have adr: "thumb2_adr rd v x = Some (put_body x ([0xf8df, push_bit 12 (word_of_nat rd) OR 4, 0xf000, 0xb800] @ addr_halves v, None))" for rd v x
    unfolding thumb2_adr_def by (simp add: d del: halves_of_simps)
  have pc: "t2_ldr x rt (MemOperand32 rt 0) = emit_halves x (if rt = 15 then lit_pair 15 else ldr_pair rt)" for x rt
    by (simp add: t2_ldr_halves lit_pair_def)
  have ldr: "thumb2_ldr_literal cur h1 h2 x = Some (put_body x (let rt = unat (bits h2 12 15); imm = ucast (bits h2 0 11);
      v = (if bit1 h1 7 = 1 then cur + imm else cur - imm) in
      ([0xf8df, push_bit 12 (word_of_nat rt) OR 8] @ (if rt = 15 then lit_pair 15 else ldr_pair rt) @ [0xf000, 0xb802] @ addr_halves v, None)))" for x
    unfolding thumb2_ldr_literal_def by (simp add: d pc [unfolded PC_def] del: halves_of_simps)
  have "a' = put_body ?a (t2_body cur h1 h2)"
    using assms(2)
    by (auto simp: Thumb2RelocateSingleInsn_def AlignThumbNop_pads [OF assms(1)] t2_body_def Let_def [of "_ \<and> _"] Let_def [of "bits _ _ _"]
        bc b adr ldr thumb2_bl_def thumb2_blx_def call blx_imm_def EmitInt16_halves put_body_simps(1) Let_def
        simp del: halves_of_simps split: if_splits option.splits prod.splits)
  then show ?thesis by (simp add: put_body_padded)
qed

subsection \<open>The loop over Thumb code\<close>

lemma gen_thumb_changed:
  "gen_thumb_relocate_code ctx a = Some (ctx', a') \<Longrightarrow> set (c_changed ctx) \<subseteq> set (c_changed ctx') \<and>
     (c_cursor ctx' < c_size ctx' \<longrightarrow> c_changed ctx' \<noteq> [])"
proof (induction ctx a rule: gen_thumb_relocate_code.induct)
  case (1 ctx a)
  show ?case
    using "1.prems" by (subst (asm) gen_thumb_relocate_code.simps)
      (auto simp: Let_def note_offset_def check_execute_state_changed_def split: if_splits option.splits prod.splits dest!: "1.IH" [rotated -1])
qed

lemma lit_ok_body: "snd b = Some (j, v) \<Longrightarrow> j + 2 \<le> length (fst b) \<Longrightarrow> lit_ok 4 4 (body_block p b)"
  "snd b = None \<Longrightarrow> lit_ok 4 4 (body_block p b)"
  by (simp_all add: lit_ok_def body_block_def)

lemma lit_ok_thumb: "t1_body cur h = Some b \<Longrightarrow> lit_ok 4 4 (body_block p b)" "lit_ok 4 4 (body_block p (t2_body cur h1 h2))"
  by (auto simp: t1_body_def t2_body_def t2_b_cond_body_def over_def lit_pair_def call_body_def Let_def lit_ok_def body_block_def
      split: if_splits option.splits)

interpretation thumb_relocator: relocator32 LoadThumbPair RewriteThumbPair EmitThumbPair 4 "\<lambda>pos r. thumb_fix pos r" thumb_patch
    kThumb2LiteralLdr gen_thumb_relocate_code thumb_item
proof unfold_locales
  show "LoadThumbPair buf (p + j) = LoadThumbPair (drop p buf) j" for buf p j
    using Load_drop [of 2 buf p j, where 'a = 16] Load_drop [of 2 buf p "j + 2", where 'a = 16] by (simp add: LoadThumbPair_def LoadThumb1Inst_def add.assoc)
  show "gen_thumb_relocate_code ctx a = Some (ctx, a)" if "\<not> c_cursor ctx < c_size ctx" for ctx a
    using that by (simp add: gen_thumb_relocate_code.simps)
  show "lit_ok 4 4 b" if "thumb_item bytes src c p = Some (n, b)" for bytes src c p n b
    using that lit_ok_thumb by (auto simp: thumb_item_def Let_def bind_eq_Some_conv split: if_splits)
  show "\<exists>n b. thumb_item (c_buffer ctx) (c_src ctx) (c_cursor ctx) (length (asm_buffer a)) = Some (n, b) \<and> 0 < n \<and>
         gen_thumb_relocate_code (ctx\<lparr>c_offsets := (c_cursor ctx, length (asm_buffer a)) # c_offsets ctx, c_cursor := c_cursor ctx + n\<rparr>)
           (put_thumb a b) = Some (ctx', a')"
    if g: "gen_thumb_relocate_code ctx a = Some (ctx', a')" "c_changed ctx' = []" "c_cursor ctx < c_size ctx" "realized_addr a = 0"
    for ctx a ctx' a'
  proof -
    let ?cur = "relo_cur_src_vmaddr32 ThumbExecuteState ctx" and ?p = "length (asm_buffer a)"
    obtain insn where l: "LoadThumb2Inst (c_buffer ctx) (c_cursor ctx) = Some insn"
      using g by (auto simp: gen_thumb_relocate_code.simps [of ctx a] split: option.splits)
    define h1 h2 where "h1 = (ucast insn :: u16)" and "h2 = (ucast (drop_bit 16 insn) :: u16)"
    let ?r = "if is_thumb2 insn then map_option (Pair []) (Thumb2RelocateSingleInsn ?cur h1 h2 (t1_nop a))
                       else Thumb1RelocateSingleInsn ?cur h1 (t1_nop a)"
    have "?r \<noteq> None"
      using g l unfolding h1_def h2_def by (auto simp: gen_thumb_relocate_code.simps [of ctx a] Let_def split: option.splits)
    then obtain ch a1 where r: "?r = Some (ch, a1)" by (cases ?r) auto
    define n :: nat where "n = (if is_thumb2 insn then 4 else 2)"
    let ?ctx = "ctx\<lparr>c_offsets := (c_cursor ctx, ?p) # c_offsets ctx, c_changed := ch @ c_changed ctx, c_cursor := c_cursor ctx + n\<rparr>"
    have eq: "gen_thumb_relocate_code ctx a =
       (if check_execute_state_changed ?ctx (relo_cur_src_vmaddr32 ThumbExecuteState ?ctx - word_of_nat Thumb_PC_OFFSET)
        then Some (?ctx, a1) else gen_thumb_relocate_code ?ctx a1)"
      using g(3) l r unfolding h1_def h2_def by (subst gen_thumb_relocate_code.simps)
        (simp add: Let_def note_offset_def n_def Thumb1_INST_LEN_def Thumb2_INST_LEN_def GetBufferSize_def)
    have "set (c_changed ?ctx) \<subseteq> set (c_changed ctx')"
      using eq g(1) gen_thumb_changed [of ?ctx a1 ctx' a'] by (auto split: if_splits)
    then have ch: "ch = []" "c_changed ctx = []" using g(2) by simp_all
    then have "\<not> check_execute_state_changed ?ctx x" for x by (simp add: check_execute_state_changed_def)
    then have "gen_thumb_relocate_code ?ctx a1 = Some (ctx', a')" using eq g(1) by simp
    moreover have "\<exists>b. thumb_item (c_buffer ctx) (c_src ctx) (c_cursor ctx) ?p = Some (n, b) \<and> a1 = put_thumb a b"
    proof (cases "is_thumb2 insn")
      case True
      then have "Thumb2RelocateSingleInsn ?cur h1 h2 (t1_nop a) = Some a1" using r by auto
      from Thumb2_block [OF g(4) this] True l show ?thesis
        by (simp add: thumb_item_def n_def Let_def h1_def h2_def relo_cur_src_vmaddr32_def Thumb_PC_OFFSET_def)
    next
      case False
      then have "Thumb1RelocateSingleInsn ?cur h1 (t1_nop a) = Some ([], a1)" using r ch by auto
      from Thumb1_block [OF g(4) this] obtain b where "t1_body ?cur h1 = Some b" "a1 = put_thumb a (body_block ?p b)" by blast
      then show ?thesis using False l
        by (intro exI [of _ "body_block ?p b"]) (simp add: thumb_item_def n_def Let_def h1_def relo_cur_src_vmaddr32_def Thumb_PC_OFFSET_def)
    qed
    moreover have "?ctx = ctx\<lparr>c_offsets := (c_cursor ctx, ?p) # c_offsets ctx, c_cursor := c_cursor ctx + n\<rparr>" using ch by simp
    moreover have "0 < n" by (simp add: n_def)
    ultimately show ?thesis by auto
  qed
qed

end
