(* ===== verification/Thumb_Decode.thy ===== *)
theory Thumb_Decode
  imports Thumb_Blocks
begin

text \<open>
  The body that the Thumb relocator emits for an instruction, by the reference decoder: for each class of 16-bit and
  32-bit instructions, the words of the body and the value of its literal.
\<close>

subsection \<open>Halfword masks\<close>

lemma and_bits: "lo \<le> hi \<Longrightarrow> hi < 16 \<Longrightarrow> (h :: u16) AND push_bit lo (mask (hi - lo + 1)) = push_bit lo (bits h lo hi)"
  "lo \<le> hi \<Longrightarrow> hi < 16 \<Longrightarrow> bits h lo hi = drop_bit lo (h AND push_bit lo (mask (hi - lo + 1)))"
  by (rule bit_word_eqI; auto simp: bit_bits bit_simps)+

lemma bits_mask_iff:
  assumes "lo \<le> hi" "hi < 16" "drop_bit lo (push_bit lo x) = (x :: u16)"
  shows "bits h lo hi = x \<longleftrightarrow> h AND push_bit lo (mask (hi - lo + 1)) = push_bit lo x"
  using and_bits [OF assms(1,2), of h] assms(3) by metis

lemma bits_masks:
  "bits (h :: u16) 10 15 = 17 \<longleftrightarrow> h AND 0xfc00 = 0x4400" "bits h 8 9 = 3 \<longleftrightarrow> h AND 0x0300 = 0x0300"
  "bits h 3 6 = 15 \<longleftrightarrow> h AND 0x0078 = 0x0078"
  using bits_mask_iff [of 10 15 17 h] bits_mask_iff [of 8 9 3 h] bits_mask_iff [of 3 6 15 h]
  by (simp_all add: mask_eq_exp_minus_1)

lemma ucast_mask: "(ucast (h :: u16) :: u32) AND ucast m = ucast x \<longleftrightarrow> h AND m = x"
proof
  assume e: "(ucast h :: u32) AND ucast m = ucast x"
  show "h AND m = x"
  proof (rule bit_word_eqI)
    fix k assume k: "k < LENGTH(16)"
    have "bit ((ucast h :: u32) AND ucast m) k = bit (ucast x :: u32) k" using e by simp
    then show "bit (h AND m) k = bit x k" using k by (simp add: bit_and_iff bit_unsigned_iff)
  qed
next
  assume "h AND m = x"
  then show "(ucast h :: u32) AND ucast m = ucast x" by (metis unsigned_and_eq)
qed

lemma and_mask_minus_1_16: "(h :: u16) AND 0xffff = h" "(ucast h :: u32) AND 0xffff = ucast h"
proof -
  have m: "(0xffff :: u16) = mask 16" "(0xffff :: u32) = mask 16" by (simp_all add: mask_eq_exp_minus_1)
  show "(h :: u16) AND 0xffff = h" unfolding m by (rule bit_word_eqI) (auto simp: bit_and_iff bit_mask_iff)
  show "(ucast h :: u32) AND 0xffff = ucast h" unfolding m
    by (rule bit_word_eqI) (auto simp: bit_and_iff bit_mask_iff bit_unsigned_iff dest: bit_imp_le_length)
qed

lemma ucast_masks:
  "(ucast (h :: u16) :: u32) AND 0xf000 = 0xd000 \<longleftrightarrow> h AND 0xf000 = 0xd000"
  "(ucast h :: u32) AND 0xf800 = 0xe000 \<longleftrightarrow> h AND 0xf800 = 0xe000"
  "(ucast h :: u32) AND 0xf500 = 0xb100 \<longleftrightarrow> h AND 0xf500 = 0xb100"
  "(ucast h :: u32) AND 0xf800 = 0x4800 \<longleftrightarrow> h AND 0xf800 = 0x4800"
  "(ucast h :: u32) AND 0xf800 = 0xa000 \<longleftrightarrow> h AND 0xf800 = 0xa000"
  "(ucast h :: u32) AND 0xff00 = 0x4600 \<longleftrightarrow> h AND 0xff00 = 0x4600"
  "(ucast h :: u32) AND 0xff00 = 0x4400 \<longleftrightarrow> h AND 0xff00 = 0x4400"
  "(ucast h :: u32) AND 0xfe00 = 0xb400 \<longleftrightarrow> h AND 0xfe00 = 0xb400"
  "(ucast h :: u32) AND 0xff80 = 0xb080 \<longleftrightarrow> h AND 0xff80 = 0xb080"
  "(ucast h :: u32) AND 0xff87 = 0x4700 \<longleftrightarrow> h AND 0xff87 = 0x4700"
  "(ucast h :: u32) = 0xbf00 \<longleftrightarrow> h = 0xbf00"
  using ucast_mask [of h "0xf000" "0xd000"] ucast_mask [of h "0xf800" "0xe000"] ucast_mask [of h "0xf500" "0xb100"]
    ucast_mask [of h "0xf800" "0x4800"] ucast_mask [of h "0xf800" "0xa000"] ucast_mask [of h "0xff00" "0x4600"]
    ucast_mask [of h "0xff00" "0x4400"] ucast_mask [of h "0xfe00" "0xb400"] ucast_mask [of h "0xff80" "0xb080"]
    ucast_mask [of h "0xff87" "0x4700"] ucast_mask [of h "0xffff" "0xbf00"]
  by (simp_all add: and_mask_minus_1_16)

lemma fld_ucast: "0 < n \<Longrightarrow> lo + n \<le> 16 \<Longrightarrow> fld32 (ucast (h :: u16)) lo n = ucast (bits h lo (lo + n - 1))"
  by (rule bit_word_eqI) (auto simp: fld32_def bit_simps bit_bits)

lemma unat_ucast16: "unat (ucast (h :: u16) :: u32) = unat h"
proof -
  have "unat h < 2 ^ 16" using unsigned_less [of h, where 'a = nat] by simp
  then have "take_bit 32 (unat h) = unat h" by (intro take_bit_nat_eq_self) simp
  then show ?thesis by (simp add: unsigned_ucast_eq)
qed

subsection \<open>The bodies of the instructions that the decoder recognises\<close>

lemma t1_body_masks:
  "t1_body cur h =
     (if h AND 0xfc00 = 0x4400 \<and> h AND 0x0300 \<noteq> 0x0300 \<and> h AND 0x0078 = 0x0078 then
        Some (lit_pair 12 @ [set_bits h 3 6 12], Some (0, cur))
      else if h AND 0xfc00 = 0x4400 \<and> h AND 0x0300 = 0x0300 \<and> h AND 0x0078 = 0x0078 then None
      else if h AND 0xf800 = 0x4800 then
        Some (lit_pair (unat (bits h 8 10)) @ ldr_pair (unat (bits h 8 10)),
          Some (0, (cur + push_bit 2 (ucast (bits h 0 7))) AND NOT (4 - 1)))
      else if h AND 0xf800 = 0xa000 then
        Some (lit_pair (unat (bits h 8 10)), Some (0, cur + push_bit 2 (ucast (bits h 0 7))))
      else if h AND 0xf000 = 0xd000 then
        if bits h 8 11 \<ge> 14 then None
        else Some (over (set_bits 0xe000 8 11 (bits h 8 11) OR drop_bit 1 4) ((cur + SignExtend32 (push_bit 1 (ucast (bits h 0 7))) 9) OR 1))
      else if h AND 0xf500 = 0xb100 then
        Some (over (set_bit1 (set_bits h 3 7 (bits 4 1 5)) 9 (bit1 4 6))
          (cur + (push_bit 6 (ucast (bit1 h 9)) OR push_bit 1 (ucast (bits h 3 7))) + 1))
      else if h AND 0xf800 = 0xe000 then
        Some (lit_pair 15, Some (0, cur + SignExtend32 (push_bit 1 (ucast (bits h 0 10))) 12 + 1))
      else Some ([h], None))"
  unfolding t1_body_def bits_masks ..

lemma SE_shift:
  "0 < n \<Longrightarrow> n + m < 17 \<Longrightarrow> SignExtend32 (push_bit m (ucast (bits (h :: u16) 0 (n - 1)))) (n + m) = push_bit m (sx n (fld32 (ucast h) 0 n))"
proof -
  assume n: "0 < n" "n + m < 17"
  let ?x = "push_bit m (ucast (bits h 0 (n - 1))) :: u32"
  have "take_bit (n + m) ?x = ?x" using n by (intro bit_word_eqI) (auto simp: bit_simps bit_bits)
  then have "SignExtend32 ?x (n + m) = sx (n + m) ?x" using n by (intro SignExtend32_sx) simp_all
  also have "\<dots> = push_bit m (sx n (fld32 (ucast h) 0 n))" using n
    by (intro bit_word_eqI) (auto simp: sx_def fld32_def bit_simps bit_bits bit_signed_take_bit_iff min_def)
  finally show ?thesis .
qed

lemma fld_bit: "fld32 w lo 1 = (if bit w lo then 1 else 0)"
  by (simp add: fld32_def bit_iff_odd_drop_bit mod2_eq_if)

lemma t16_lit:
  assumes "t16_decode h = Some (I_lit c byte rt off)"
  shows "t1_body cur h = Some (lit_pair rt @ ldr_pair rt, Some (0, (cur + off) AND NOT 3)) \<and> c = 14 \<and> \<not> byte \<and> rt < 8 \<and> take_bit 2 off = 0"
proof -
  have d: "h AND 0xf800 = 0x4800" "c = 14" "\<not> byte" "rt = unat (fld32 (ucast h) 8 3)" "off = push_bit 2 (fld32 (ucast h) 0 8)"
    using assms by (auto simp: t16_decode_def Let_def ucast_masks split: if_splits)
  have "rt = unat (bits h 8 10)" "off = push_bit 2 (ucast (bits h 0 7))" "rt < 8"
    using d(4,5) fld_ucast [of 3 8 h] fld_ucast [of 8 0 h] field3 [of h 8] by (simp_all add: unat_ucast16)
  moreover have "take_bit 2 off = 0" unfolding d(5) by (rule bit_word_eqI) (auto simp: bit_simps)
  ultimately show ?thesis using d(2,3) and_mask_neq [OF d(1)] by (simp add: t1_body_masks d(1))
qed

lemma t16_adr:
  assumes "t16_decode h = Some (I_adr c rd off)"
  shows "t1_body cur h = Some (lit_pair rd, Some (0, cur + off)) \<and> c = 14 \<and> rd < 8"
proof -
  have d: "h AND 0xf800 = 0xa000" "c = 14" "rd = unat (fld32 (ucast h) 8 3)" "off = push_bit 2 (fld32 (ucast h) 0 8)"
    using assms by (auto simp: t16_decode_def Let_def ucast_masks split: if_splits)
  have "rd = unat (bits h 8 10)" "off = push_bit 2 (ucast (bits h 0 7))" "rd < 8"
    using d(3,4) fld_ucast [of 3 8 h] fld_ucast [of 8 0 h] field3 [of h 8] by (simp_all add: unat_ucast16)
  then show ?thesis using d(2) and_mask_neq [OF d(1)] by (simp add: t1_body_masks d(1))
qed

lemma t16_b:
  assumes "t16_decode h = Some (I_b 14 off)"
  shows "t1_body cur h = Some (lit_pair 15, Some (0, cur + off + 1)) \<and> take_bit 1 off = 0"
proof -
  have d: "h AND 0xf800 = 0xe000" "off = push_bit 1 (sx 11 (fld32 (ucast h) 0 11))"
    using assms by (auto simp: t16_decode_def Let_def ucast_masks split: if_splits)
  have "off = SignExtend32 (push_bit 1 (ucast (bits h 0 10))) 12" using d(2) SE_shift [of 11 1 h] by simp
  moreover have "take_bit 1 off = 0" unfolding d(2) by (rule bit_word_eqI) (auto simp: bit_simps)
  ultimately show ?thesis using and_mask_neq [OF d(1)] by (simp add: t1_body_masks d(1))
qed

lemma cbz_over_bits:
  "bit (set_bit1 (set_bits (h :: u16) 3 7 (bits 4 1 5)) 9 (bit1 4 6)) k \<longleftrightarrow>
     k < 16 \<and> k \<noteq> 9 \<and> (if 3 \<le> k \<and> k \<le> 7 then k = 4 else bit h k)"
proof -
  have c: "bits (4 :: u16) 1 5 = push_bit 1 1" "bit1 (4 :: u16) 6 = 0" by (simp_all add: bits_def bit1_def submask_def)
  have one: "bit (push_bit 1 1 :: u16) j \<longleftrightarrow> j = 1" for j
    by (simp only: bit_push_bit_iff bit_1_iff) auto
  have clear: "bit (set_bit1 w 9 (0 :: u16)) k \<longleftrightarrow> k \<noteq> 9 \<and> bit w k" for w
  proof -
    have "set_bit1 w 9 0 = NOT (push_bit 9 1) AND w" by (simp add: set_bit1_def)
    moreover have "bit (NOT (push_bit 9 1 :: u16)) k \<longleftrightarrow> k < 16 \<and> k \<noteq> 9"
      by (simp only: bit_not_iff bit_push_bit_iff bit_1_iff) auto
    ultimately show ?thesis by (auto simp: bit_and_iff dest: bit_imp_le_length)
  qed
  show ?thesis unfolding c clear bit_set_bits [of 3 7, simplified] one by (auto simp: one)
qed

lemma wide_mask: "t32_wide h \<longleftrightarrow> h AND 0xe000 = 0xe000 \<and> h AND 0x1800 \<noteq> 0"
proof -
  have "drop_bit 13 h = bits h 13 15" by (rule bit_word_eqI) (auto simp: bit_bits bit_drop_bit_eq dest: bit_imp_le_length)
  moreover have "drop_bit 11 h AND 3 = bits h 11 12" by (simp add: bits_def submask_def)
  moreover note bits_mask_iff [of 13 15 7 h] bits_mask_iff [of 11 12 0 h]
  ultimately show ?thesis by (simp add: t32_wide_def mask_eq_exp_minus_1)
qed

lemma thumb2_wide: "is_thumb2 insn \<longleftrightarrow> t32_wide (ucast insn)"
  using bits_mask_iff [of 13 15 7 "ucast insn"] bits_mask_iff [of 11 12 0 "ucast insn"]
  by (simp add: is_thumb2_def wide_mask Let_def mask_eq_exp_minus_1)

text \<open>The short branch over the jump keeps the condition of a \<^verbatim>\<open>CBZ\<close>.\<close>

lemma cbz_over:
  fixes h h' :: u16
  assumes b: "\<And>k. bit h' k \<longleftrightarrow> k < 16 \<and> k \<noteq> 9 \<and> (if 3 \<le> k \<and> k \<le> 7 then k = 4 else bit h k)" and m: "h AND 0xf500 = 0xb100"
  shows "t16_decode h' = Some (I_cb (bit (ucast h :: u32) 11) (unat (fld32 (ucast h) 0 3)) 4)" "\<not> t32_wide h'"
proof -
  have f: "filter (bit (0xf500 :: u16)) [0..<16] = [8, 10, 12, 13, 14, 15]" by code_simp
  have m': "h' AND 0xf500 = 0xb100"
  proof -
    have e: "bit h' k = bit h k" if "bit (0xf500 :: u16) k" for k
    proof -
      have "k < 16" using bit_imp_le_length [OF that] by simp
      then have "k \<in> set (filter (bit (0xf500 :: u16)) [0..<16])" using that by simp
      then have "k \<in> {8, 10, 12, 13, 14, 15}" unfolding f by simp
      then show ?thesis by (elim insertE emptyE) (simp_all add: b)
    qed
    have "h' AND 0xf500 = h AND 0xf500"
      by (rule bit_word_eqI) (simp only: bit_and_iff, use e in blast)
    then show ?thesis using m by simp
  qed
  have "fld32 (ucast h') 9 1 = 0" using fld_bit [of "ucast h'" 9] by (simp add: bit_unsigned_iff b)
  moreover have "fld32 (ucast h') 3 5 = 2"
  proof (rule bit_word_eqI)
    fix n :: nat
    have "bit (push_bit 1 1 :: u32) n \<longleftrightarrow> n = 1" by (simp only: bit_push_bit_iff bit_1_iff) auto
    then have "bit (2 :: u32) n \<longleftrightarrow> n = 1" by simp
    moreover have "bit (fld32 (ucast h') 3 5) n \<longleftrightarrow> n = 1"
      by (auto simp: fld32_def bit_take_bit_iff bit_drop_bit_eq bit_unsigned_iff b)
    ultimately show "bit (fld32 (ucast h') 3 5) n = bit (2 :: u32) n" by simp
  qed
  moreover have "fld32 (ucast h') 0 3 = fld32 (ucast h) 0 3"
    by (rule bit_word_eqI) (auto simp: fld32_def bit_simps b)
  moreover have "bit (ucast h' :: u32) 11 = bit (ucast h :: u32) 11" by (simp add: bit_unsigned_iff b)
  moreover have "h' \<noteq> 0xbf00" using m' by auto
  ultimately show "t16_decode h' = Some (I_cb (bit (ucast h :: u32) 11) (unat (fld32 (ucast h) 0 3)) 4)"
    using and_mask_neq [OF m'] by (simp add: t16_decode_def Let_def ucast_masks m')
  have "h' AND 0xe000 \<noteq> 0xe000" using and_mask_neq [OF m', of "0xe000" "0xe000"] by simp
  then show "\<not> t32_wide h'" by (simp add: wide_mask)
qed

lemma t16_cb:
  assumes "t16_decode h = Some (I_cb nz r off)"
  shows "\<exists>h'. t1_body cur h = Some (over h' (cur + off + 1)) \<and> t16_decode h' = Some (I_cb nz r 4) \<and> \<not> t32_wide h' \<and> take_bit 1 off = 0"
proof -
  have d: "h AND 0xf500 = 0xb100" "nz = bit (ucast h :: u32) 11" "r = unat (fld32 (ucast h) 0 3)"
    "off = push_bit 6 (fld32 (ucast h) 9 1) OR push_bit 1 (fld32 (ucast h) 3 5)"
    using assms by (auto simp: t16_decode_def Let_def ucast_masks split: if_splits)
  define h' where "h' = set_bit1 (set_bits h 3 7 (bits 4 1 5)) 9 (bit1 4 6)"
  note o = cbz_over [OF cbz_over_bits [of h, folded h'_def] d(1)]
  have "fld32 (ucast h) 9 1 = ucast (bit1 h 9)" using fld_bit [of "ucast h" 9] by (simp add: bit1_01 bit_unsigned_iff)
  then have "off = push_bit 6 (ucast (bit1 h 9)) OR push_bit 1 (ucast (bits h 3 7))" using d(4) fld_ucast [of 5 3 h] by simp
  then have "t1_body cur h = Some (over h' (cur + off + 1))"
    using and_mask_neq [OF d(1)] by (simp add: t1_body_masks d(1) h'_def)
  moreover have "take_bit 1 off = 0" unfolding d(4) by (rule bit_word_eqI) (auto simp: bit_simps)
  ultimately show ?thesis using o d(2,3) by blast
qed

lemma unat16_15: "unat (x :: u16) = 15 \<longleftrightarrow> x = 15"
proof
  assume x: "unat x = 15"
  have "x = word_of_nat (unat x)" by simp
  then show "x = 15" unfolding x by simp
qed simp

lemma rm_15: "rf (ucast (h :: u16)) 3 = 15 \<longleftrightarrow> h AND 0x0078 = 0x0078"
  using fld_ucast [of 4 3 h] by (simp add: rf_def unat_ucast16 unat16_15 bits_masks)

lemma bit_twelve: "bit (12 :: 'a::len word) k \<longleftrightarrow> k < LENGTH('a) \<and> (k = 2 \<or> k = 3)"
proof -
  have "(12 :: 'a word) = push_bit 2 (mask 2)" by (simp add: mask_eq_exp_minus_1)
  then have "bit (12 :: 'a word) k = bit (push_bit 2 (mask 2) :: 'a word) k" by (simp only:)
  also have "\<dots> \<longleftrightarrow> k < LENGTH('a) \<and> (k = 2 \<or> k = 3)" by (simp only: bit_push_bit_iff bit_mask_iff) auto
  finally show ?thesis .
qed

lemma pc_operand_bits: "bit (set_bits (h :: u16) 3 6 12) k \<longleftrightarrow> k < 16 \<and> (if 3 \<le> k \<and> k \<le> 6 then k = 5 \<or> k = 6 else bit h k)"
  unfolding bit_set_bits [of 3 6, simplified] bit_twelve by auto

text \<open>The scratch register in place of the program counter.\<close>

lemma pc_operand:
  fixes h h' :: u16
  assumes b: "\<And>k. bit h' k \<longleftrightarrow> k < 16 \<and> (if 3 \<le> k \<and> k \<le> 6 then k = 5 \<or> k = 6 else bit h k)"
  shows "h' AND 0xff00 = h AND 0xff00" "rf (ucast h') 3 = 12"
    "fld32 (ucast h') 0 3 = fld32 (ucast h) 0 3" "fld32 (ucast h') 7 1 = fld32 (ucast h) 7 1"
proof -
  have f: "filter (bit (0xff00 :: u16)) [0..<16] = [8..<16]" by code_simp
  have e: "bit h' k = bit h k" if "bit (0xff00 :: u16) k" for k
  proof -
    have "k < 16" using bit_imp_le_length [OF that] by simp
    then have "k \<in> set (filter (bit (0xff00 :: u16)) [0..<16])" using that by simp
    then have "k \<in> {8..<16}" unfolding f by (simp only: set_upt)
    then have "8 \<le> k" by simp
    then show ?thesis using \<open>k < 16\<close> by (simp add: b)
  qed
  show "h' AND 0xff00 = h AND 0xff00" by (rule bit_word_eqI) (simp only: bit_and_iff, use e in blast)
  have "fld32 (ucast h') 3 4 = 12"
  proof (rule bit_word_eqI)
    fix n :: nat assume n: "n < LENGTH(32)"
    have "bit (12 :: u32) n \<longleftrightarrow> n = 2 \<or> n = 3" using n bit_twelve [where 'a = 32, of n] by simp
    moreover have "bit (fld32 (ucast h') 3 4) n \<longleftrightarrow> n = 2 \<or> n = 3"
      by (auto simp: fld32_def bit_take_bit_iff bit_drop_bit_eq bit_unsigned_iff b)
    ultimately show "bit (fld32 (ucast h') 3 4) n = bit (12 :: u32) n" by simp
  qed
  then show "rf (ucast h') 3 = 12" by (simp add: rf_def)
  show "fld32 (ucast h') 0 3 = fld32 (ucast h) 0 3"
    by (rule bit_word_eqI) (auto simp: fld32_def bit_simps b)
  show "fld32 (ucast h') 7 1 = fld32 (ucast h) 7 1"
    using fld_bit [of "ucast h'" 7] fld_bit [of "ucast h" 7] by (simp add: bit_unsigned_iff b)
qed

lemma t16_high:
  assumes "t16_decode h = Some (con c rd rm)" "con = I_mov \<and> op = 0x4600 \<or> con = I_addr \<and> op = 0x4400"
  shows "h AND 0xff00 = op" "c = 14" "rd = unat (fld32 (ucast h) 0 3 OR push_bit 3 (fld32 (ucast h) 7 1))" "rm = rf (ucast h) 3"
  using assms by (auto simp: t16_decode_def Let_def ucast_masks split: if_splits)

lemma t16_of_top:
  "h AND 0xff00 = 0x4600 \<Longrightarrow> t16_decode h = Some (I_mov 14 (unat (fld32 (ucast h) 0 3 OR push_bit 3 (fld32 (ucast h) 7 1))) (rf (ucast h) 3))"
  "h AND 0xff00 = 0x4400 \<Longrightarrow> t16_decode h = Some (I_addr 14 (unat (fld32 (ucast h) 0 3 OR push_bit 3 (fld32 (ucast h) 7 1))) (rf (ucast h) 3))"
proof -
  assume m: "h AND 0xff00 = 0x4600"
  then have "h \<noteq> 0xbf00" by auto
  then show "t16_decode h = Some (I_mov 14 (unat (fld32 (ucast h) 0 3 OR push_bit 3 (fld32 (ucast h) 7 1))) (rf (ucast h) 3))"
    using and_mask_neq [OF m] m by (simp add: t16_decode_def Let_def ucast_masks)
next
  assume m: "h AND 0xff00 = 0x4400"
  then have "h \<noteq> 0xbf00" by auto
  then show "t16_decode h = Some (I_addr 14 (unat (fld32 (ucast h) 0 3 OR push_bit 3 (fld32 (ucast h) 7 1))) (rf (ucast h) 3))"
    using and_mask_neq [OF m] m by (simp add: t16_decode_def Let_def ucast_masks)
qed

lemma t16_high_pc:
  fixes op :: u16
  assumes "t16_decode h = Some (con c rd 15)" "con = I_mov \<and> op = 0x4600 \<or> con = I_addr \<and> op = 0x4400"
  shows "\<exists>h'. t1_body cur h = Some (lit_pair 12 @ [h'], Some (0, cur)) \<and> t16_decode h' = Some (con 14 rd 12) \<and> \<not> t32_wide h' \<and> c = 14"
proof -
  note d = t16_high [OF assms]
  define h' where "h' = set_bits h 3 6 12"
  note b = pc_operand [OF pc_operand_bits [of h, folded h'_def]]
  have m': "h' AND 0xff00 = op" using b(1) d(1) by simp
  have "h AND 0xfc00 = 0x4400" "h AND 0x0300 \<noteq> 0x0300"
    using assms(2) and_submask [OF d(1), of "0xfc00"] and_submask [OF d(1), of "0x0300"] by auto
  moreover have "h AND 0x0078 = 0x0078" using d(4) rm_15 [of h] by simp
  ultimately have "t1_body cur h = Some (lit_pair 12 @ [h'], Some (0, cur))" by (simp add: t1_body_masks h'_def)
  moreover have "t16_decode h' = Some (con 14 rd 12)"
    using assms(2) m' t16_of_top [of h'] unfolding b d(3) by auto
  moreover have "\<not> t32_wide h'" using assms(2) and_mask_neq [OF m', of "0xe000" "0xe000"] by (auto simp: wide_mask)
  ultimately show ?thesis using d(2) by blast
qed

text \<open>The instructions of 16 bits that are copied.\<close>

lemma t16_copy:
  assumes "t16_decode h = Some i" "\<not> pc_relative32 i" "\<And>c rd. i \<noteq> I_mov c rd 15" "\<And>c rd. i \<noteq> I_addr c rd 15" "\<And>c. i \<noteq> I_bx c 15"
  shows "t1_body cur h = Some ([h], None)"
proof -
  have "h = 0xbf00 \<or> h AND 0xff00 = 0x4600 \<and> h AND 0x0078 \<noteq> 0x0078 \<or> h AND 0xff00 = 0x4400 \<and> h AND 0x0078 \<noteq> 0x0078 \<or>
      h AND 0xfe00 = 0xb400 \<or> h AND 0xff80 = 0xb080 \<or> h AND 0xff87 = 0x4700 \<and> h AND 0x0078 \<noteq> 0x0078"
    using assms(1,2) assms(3) [of 14] assms(4) [of 14] assms(5) [of 14]
    by (auto simp: t16_decode_def Let_def ucast_masks simp flip: rm_15 split: if_splits)
  then show ?thesis
  proof (elim disjE conjE)
    assume "h = 0xbf00" then show ?thesis by (simp add: t1_body_masks)
  next
    assume m: "h AND 0xff00 = 0x4600" "h AND 0x0078 \<noteq> 0x0078"
    show ?thesis using and_mask_neq [OF m(1)] m(2) by (simp add: t1_body_masks)
  next
    assume m: "h AND 0xff00 = 0x4400" "h AND 0x0078 \<noteq> 0x0078"
    show ?thesis using and_mask_neq [OF m(1)] m(2) by (simp add: t1_body_masks)
  next
    assume m: "h AND 0xfe00 = 0xb400"
    show ?thesis using and_mask_neq [OF m] by (simp add: t1_body_masks)
  next
    assume m: "h AND 0xff80 = 0xb080"
    show ?thesis using and_mask_neq [OF m] by (simp add: t1_body_masks)
  next
    assume m: "h AND 0xff87 = 0x4700" "h AND 0x0078 \<noteq> 0x0078"
    show ?thesis using and_mask_neq [OF m(1)] m(2) by (simp add: t1_body_masks)
  qed
qed

lemma op3_mask: "bits (h :: u16) 12 14 AND 5 = drop_bit 12 (h AND 0x5000)"
proof -
  have m: "(0x5000 :: u16) = push_bit 12 5" "bits h 12 14 = drop_bit 12 h AND 7" by (simp_all add: bits_def submask_def)
  have "drop_bit 12 (h AND 0x5000) = drop_bit 12 h AND drop_bit 12 0x5000" by (rule drop_bit_and)
  then show ?thesis by (simp add: m(2) and.assoc)
qed

lemma ucast_masks32:
  "(ucast (h :: u16) :: u32) AND 0xf800 = 0xf000 \<longleftrightarrow> h AND 0xf800 = 0xf000"
  "(ucast h :: u32) AND 0xd000 = 0x9000 \<longleftrightarrow> h AND 0xd000 = 0x9000"
  "(ucast h :: u32) AND 0xd000 = 0xd000 \<longleftrightarrow> h AND 0xd000 = 0xd000"
  "(ucast h :: u32) AND 0xd001 = 0xc000 \<longleftrightarrow> h AND 0xd001 = 0xc000"
  "(ucast h :: u32) AND 0xff7f = 0xf85f \<longleftrightarrow> h AND 0xff7f = 0xf85f"
  "(ucast h :: u32) AND 0xfff0 = 0xf8d0 \<longleftrightarrow> h AND 0xfff0 = 0xf8d0"
  using ucast_mask [of h "0xf800" "0xf000"] ucast_mask [of h "0xd000" "0x9000"] ucast_mask [of h "0xd000" "0xd000"]
    ucast_mask [of h "0xd001" "0xc000"] ucast_mask [of h "0xff7f" "0xf85f"] ucast_mask [of h "0xfff0" "0xf8d0"]
  by simp_all

text \<open>The offset field of the wide branches, before sign extension.\<close>

definition raw_off :: "u32 \<Rightarrow> u32 \<Rightarrow> u32" where
  "raw_off a b = push_bit 24 (fld32 a 10 1) OR push_bit 23 ((fld32 b 13 1 XOR fld32 a 10 1) XOR 1) OR
     push_bit 22 ((fld32 b 11 1 XOR fld32 a 10 1) XOR 1) OR push_bit 12 (fld32 a 0 10) OR push_bit 1 (fld32 b 0 11)"

lemma t32_off_raw: "t32_off a b = sx 25 (raw_off a b)"
  by (simp add: t32_off_def raw_off_def Let_def)

lemma not_xor: "(if (if p then 1 else (0 :: u16)) XOR (if q then 1 else 0) = 0 then 1 else 0) =
    (((if p then 1 else 0) XOR (if q then 1 else 0)) XOR 1 :: u32)"
  by (cases p; cases q) simp_all

lemma ucast_01: "(ucast (if p then 1 else 0 :: u16) :: u32) = (if p then 1 else 0)"
  by simp

lemma raw_bits: "bit (raw_off a b) k \<Longrightarrow> k < 25"
proof -
  have one: "bit (push_bit n v :: u32) k \<Longrightarrow> v = 0 \<or> v = 1 \<Longrightarrow> k = n" for n v
    by (elim disjE) (simp_all only: bit_push_bit_iff bit_1_iff bit_0_eq bot_apply, auto)
  have fld: "bit (push_bit n (fld32 w lo m)) k \<Longrightarrow> k < n + m" for n w lo m
    by (auto simp only: bit_push_bit_iff fld32_def bit_take_bit_iff)
  have v: "fld32 w lo 1 = 0 \<or> fld32 w lo 1 = 1" "fld32 w lo 1 XOR fld32 a 10 1 XOR 1 = 0 \<or> fld32 w lo 1 XOR fld32 a 10 1 XOR 1 = 1" for w lo
    unfolding fld_bit by simp_all
  assume "bit (raw_off a b) k"
  then have "bit (push_bit 24 (fld32 a 10 1)) k \<or> bit (push_bit 23 (fld32 b 13 1 XOR fld32 a 10 1 XOR 1)) k \<or>
     bit (push_bit 22 (fld32 b 11 1 XOR fld32 a 10 1 XOR 1)) k \<or> bit (push_bit 12 (fld32 a 0 10)) k \<or> bit (push_bit 1 (fld32 b 0 11)) k"
    by (simp only: raw_off_def bit_or_iff xor.assoc)
  then show "k < 25"
    by (elim disjE) (use one v in fastforce, use one v in fastforce, use one v in fastforce, (drule fld, simp)+)
qed

lemma thumb2_imm_off: "thumb2_imm h1 h2 = t32_off (ucast h1) (ucast h2)"
proof -
  have f: "ucast (bits h1 0 9) = fld32 (ucast h1) 0 10" "ucast (bits h2 0 10) = fld32 (ucast h2) 0 11"
    using fld_ucast [of 10 0 h1] fld_ucast [of 11 0 h2] by simp_all
  have b: "ucast (bit1 h1 10) = fld32 (ucast h1) 10 1" "fld32 (ucast h1) 10 1 = (if bit h1 10 then 1 else 0)"
    "fld32 (ucast h2) 13 1 = (if bit h2 13 then 1 else 0)" "fld32 (ucast h2) 11 1 = (if bit h2 11 then 1 else 0)"
    using fld_bit [of "ucast h1" 10] fld_bit [of "ucast h2" 13] fld_bit [of "ucast h2" 11] by (simp_all add: bit1_01 bit_unsigned_iff)
  have "thumb2_imm h1 h2 = SignExtend32 (raw_off (ucast h1) (ucast h2)) 25"
    unfolding thumb2_imm_def raw_off_def Let_def f bit1_01 not_xor ucast_01 b(2-4) ..
  also have "\<dots> = sx 25 (raw_off (ucast h1) (ucast h2))"
    using raw_bits by (intro SignExtend32_sx) (auto intro!: bit_word_eqI simp: bit_take_bit_iff)
  finally show ?thesis by (simp add: t32_off_raw)
qed

lemma blx_imm_off:
  assumes "\<not> bit h2 0" "bit (t32_off (ucast h1) (ucast h2)) 23 = bit (t32_off (ucast h1) (ucast h2)) 24"
  shows "blx_imm h1 h2 = t32_off (ucast h1) (ucast h2)"
proof -
  let ?x = "raw_off (ucast h1) (ucast h2)"
  have f: "ucast (bits h1 0 9) = fld32 (ucast h1) 0 10"
    using fld_ucast [of 10 0 h1] by simp
  have g: "push_bit 2 (ucast (bits h2 1 10)) = push_bit 1 (fld32 (ucast h2) 0 11)"
  proof (rule bit_word_eqI)
    fix k :: nat
    show "bit (push_bit 2 (ucast (bits h2 1 10)) :: u32) k = bit (push_bit 1 (fld32 (ucast h2) 0 11)) k"
    proof (cases "k < 2")
      case True
      then have "k = 0 \<or> k = 1" by auto
      moreover have "\<not> bit (fld32 (ucast h2) 0 11) 0" 
        using assms(1) by (simp only: fld32_def bit_take_bit_iff bit_drop_bit_eq bit_unsigned_iff o_def add_0_left) blast
      ultimately show ?thesis by (elim disjE) (simp_all only: bit_push_bit_iff diff_self_eq_0, simp_all)
    next
      case False
      then obtain j where k: "k = j + 2" by (metis add.commute le_Suc_ex not_less)
      have "bit (push_bit 2 (ucast (bits h2 1 10)) :: u32) k \<longleftrightarrow> k < 32 \<and> j < 10 \<and> bit h2 (j + 1)"
        by (simp only: bit_push_bit_iff bit_unsigned_iff bit_bits k) auto
      moreover have "bit (push_bit 1 (fld32 (ucast h2) 0 11)) k \<longleftrightarrow> k < 32 \<and> j < 10 \<and> bit h2 (j + 1)"
        by (simp only: bit_push_bit_iff fld32_def bit_take_bit_iff bit_drop_bit_eq k) (auto simp: bit_unsigned_iff)
      ultimately show ?thesis by simp
    qed
  qed
  have b: "ucast (bit1 h1 10) = fld32 (ucast h1) 10 1" "fld32 (ucast h1) 10 1 = (if bit h1 10 then 1 else 0)"
    "fld32 (ucast h2) 13 1 = (if bit h2 13 then 1 else 0)" "fld32 (ucast h2) 11 1 = (if bit h2 11 then 1 else 0)"
    using fld_bit [of "ucast h1" 10] fld_bit [of "ucast h2" 13] fld_bit [of "ucast h2" 11] by (simp_all add: bit1_01 bit_unsigned_iff)
  have eq: "blx_imm h1 h2 = SignExtend32 ?x 24"
    unfolding blx_imm_def raw_off_def Let_def f g bit1_01 not_xor ucast_01 b(2-4) ..
  have x: "bit ?x 23 = bit ?x 24" using assms(2) unfolding t32_off_raw by (simp add: sx_def bit_signed_take_bit_iff)
  have ones: "(0 - (1 :: u32)) = mask 32" by (simp add: mask_eq_exp_minus_1)
  have "SignExtend32 ?x 24 = sx 25 ?x"
  proof (rule bit_word_eqI)
    fix k assume "k < LENGTH(32)"
    then show "bit (SignExtend32 ?x 24) k = bit (sx 25 ?x) k"
      using x raw_bits [of "ucast h1" "ucast h2" k]
      by (cases "k = 24"; cases "bit ?x 24"; cases "k < 24")
        (auto simp: SignExtend32_def sx_def bit1_01 ones bit_or_iff bit_push_bit_iff bit_drop_bit_eq bit_mask_iff bit_signed_take_bit_iff min_def)
  qed
  then show ?thesis using eq by (simp add: t32_off_raw)
qed

lemma off_even: "take_bit 1 (t32_off a b) = 0"
  unfolding t32_off_raw
proof (rule bit_word_eqI)
  fix k :: nat assume "k < LENGTH(32)"
  have "\<not> bit (raw_off a b) 0"
    by (simp only: raw_off_def bit_or_iff bit_push_bit_iff) simp
  then have "\<not> bit (sx 25 (raw_off a b)) 0" by (simp only: sx_def bit_signed_take_bit_iff) (simp add: min_def)
  then show "bit (take_bit 1 (sx 25 (raw_off a b))) k = bit 0 k" by (cases k) (simp_all add: bit_take_bit_iff bit_0)
qed

lemma t2_body_branch:
  assumes "h1 AND 0xf800 = 0xf000" "h2 AND 0x8000 = 0x8000"
  shows "h2 AND 0x5000 = 0x1000 \<Longrightarrow> t2_body cur h1 h2 = ([0xf85f, 0xf000] @ addr_halves ((cur + thumb2_imm h1 h2) OR 1), None)"
    and "h2 AND 0x5000 = 0x5000 \<Longrightarrow> t2_body cur h1 h2 = call_body ((cur + thumb2_imm h1 h2) OR 1)"
    and "h2 AND 0x5000 = 0x4000 \<Longrightarrow> t2_body cur h1 h2 = call_body ((cur AND NOT (4 - 1)) + blx_imm h1 h2)"
  using assms by (simp_all add: t2_body_def Let_def op3_mask)

lemma mask_split: "(h :: u16) AND 0xd000 = x \<Longrightarrow> h AND 0x8000 = x AND 0x8000 \<and> h AND 0x5000 = x AND 0x5000"
  using and_submask [of h "0xd000" x "0x8000"] and_submask [of h "0xd000" x "0x5000"] by simp

lemma t32_branch:
  assumes "t32_decode h1 h2 = Some i"
  shows "i = I_b 14 off \<Longrightarrow> t2_body cur h1 h2 = ([0xf85f, 0xf000] @ addr_halves ((cur + off) OR 1), None) \<and> take_bit 1 off = 0"
    and "i = I_bl c off \<Longrightarrow> t2_body cur h1 h2 = call_body ((cur + off) OR 1) \<and> take_bit 1 off = 0 \<and> c = 14"
proof -
  assume "i = I_b 14 off"
  then have d: "h1 AND 0xf800 = 0xf000" "h2 AND 0xd000 = 0x9000" "off = t32_off (ucast h1) (ucast h2)"
    using assms by (auto simp: t32_decode_def Let_def ucast_masks32 split: if_splits)
  then show "t2_body cur h1 h2 = ([0xf85f, 0xf000] @ addr_halves ((cur + off) OR 1), None) \<and> take_bit 1 off = 0"
    using t2_body_branch(1) [OF d(1)] mask_split [OF d(2)] off_even by (simp add: thumb2_imm_off)
next
  assume "i = I_bl c off"
  then have d: "h1 AND 0xf800 = 0xf000" "h2 AND 0xd000 = 0xd000" "off = t32_off (ucast h1) (ucast h2)" "c = 14"
    using assms by (auto simp: t32_decode_def Let_def ucast_masks32 split: if_splits)
  then show "t2_body cur h1 h2 = call_body ((cur + off) OR 1) \<and> take_bit 1 off = 0 \<and> c = 14"
    using t2_body_branch(2) [OF d(1)] mask_split [OF d(2)] off_even by (simp add: thumb2_imm_off)
qed

lemma t32_blx:
  assumes "t32_decode h1 h2 = Some (I_blx off)" "bit off 23 = bit off 24"
  shows "t2_body cur h1 h2 = call_body (align4 cur + off) \<and> take_bit 2 off = 0"
proof -
  have d: "h1 AND 0xf800 = 0xf000" "h2 AND 0xd001 = 0xc000" "off = t32_off (ucast h1) (ucast h2)"
    using assms by (auto simp: t32_decode_def Let_def ucast_masks32 split: if_splits)
  have "h2 AND 0xd000 = 0xc000" using and_submask [OF d(2), of "0xd000"] by simp
  note m = mask_split [OF this]
  have z: "\<not> bit h2 0" using and_mask_bit [OF d(2), of 0] by simp
  have "blx_imm h1 h2 = off" using blx_imm_off [OF z] assms(2) unfolding d(3) by simp
  moreover have "take_bit 2 off = 0"
  proof (rule bit_word_eqI)
    fix k :: nat assume k: "k < LENGTH(32)"
    have "take_bit 1 off = 0" using off_even d(3) by simp
    from arg_cong [OF this, of "\<lambda>w. bit w 0"] have "\<not> bit off 0" by (simp only: bit_take_bit_iff) simp
    moreover have "\<not> bit off 1"
    proof -
      have "\<not> bit (fld32 (ucast h2) 0 11) 0" using z bit_fld32 [of 0 11 "ucast h2" 0] by (simp only: bit_unsigned_iff) simp
      then have "\<not> bit (raw_off (ucast h1) (ucast h2)) 1"
        by (simp only: raw_off_def bit_or_iff bit_push_bit_iff) simp
      then show ?thesis unfolding d(3) t32_off_raw by (simp only: sx_def bit_signed_take_bit_iff) (simp add: min_def)
    qed
    ultimately show "bit (take_bit 2 off) k = bit 0 k"
      by (cases "k = 0"; cases "k = 1") (auto simp: bit_take_bit_iff)
  qed
  ultimately show ?thesis using t2_body_branch(3) [OF d(1)] m by (simp add: align4_def)
qed

lemma adr_None: "h1 AND 0xfa10 \<noteq> 0xf200 \<Longrightarrow> thumb2_adr_target cur h1 h2 = None"
  by (simp add: thumb2_adr_target_def)

lemma t32_lit:
  assumes "t32_decode h1 h2 = Some (I_lit c byte rt off)"
  shows "t2_body cur h1 h2 = ([0xf8df, push_bit 12 (word_of_nat rt) OR 8] @ (if rt = 15 then lit_pair 15 else ldr_pair rt) @
      [0xf000, 0xb802] @ addr_halves (cur + off), None) \<and> c = 14 \<and> \<not> byte \<and> rt < 16"
proof -
  have d: "h1 AND 0xff7f = 0xf85f" "rt = rf (ucast h2) 12" "off = (if bit (ucast h1 :: u32) 7 then fld32 (ucast h2) 0 12 else - fld32 (ucast h2) 0 12)"
    "c = 14" "\<not> byte"
    using assms by (auto simp: t32_decode_def Let_def ucast_masks32 split: if_splits)
  have "rt = unat (bits h2 12 15)" using d(2) fld_ucast [of 4 12 h2] by (simp add: rf_def unat_ucast16)
  moreover have "ucast (bits h2 0 11) = fld32 (ucast h2) 0 12" using fld_ucast [of 12 0 h2] by simp
  moreover have "bit1 h1 7 = 1 \<longleftrightarrow> bit (ucast h1 :: u32) 7" by (simp add: bit1_01 bit_unsigned_iff)
  moreover have "rt < 16" using d(2) fld_less [of "ucast h2" 12 4] by (simp add: rf_def)
  ultimately show ?thesis using d and_mask_neq [OF d(1)] by (simp add: t2_body_def Let_def adr_None)
qed

lemma t32_mem:
  assumes "t32_decode h1 h2 = Some (I_mem c load byte pre wb rt rn off)"
  shows "t2_body cur h1 h2 = ([h1, h2], None)"
proof -
  have d: "h1 AND 0xff7f \<noteq> 0xf85f" "h1 AND 0xfff0 = 0xf8d0"
    using assms by (auto simp: t32_decode_def Let_def ucast_masks32 split: if_splits)
  show ?thesis using d(1) and_mask_neq [OF d(2)] by (simp add: t2_body_def Let_def adr_None)
qed

end
