(* ===== verification/Thumb_Run.thy ===== *)
theory Thumb_Run
  imports Thumb_Decode
begin

text \<open>
  Running the bodies that the Thumb relocator emits, under the reference semantics: the steps of placed Thumb code, and
  for each shape of body that it simulates its instruction.
\<close>

subsection \<open>Running Thumb code\<close>

abbreviation thumb_placed :: "code_buffer \<Rightarrow> nat \<Rightarrow> lit_block \<Rightarrow> bool" where
  "thumb_placed \<equiv> placed_block LoadThumbPair (\<lambda>pos r. thumb_fix pos r) 4 kThumb2LiteralLdr"

lemma Load_halves_of: "j < length hs \<Longrightarrow> LoadThumb1Inst (halves_of hs) (2 * j) = Some (hs ! j)"
proof -
  assume j: "j < length hs"
  then have "halves_of hs = halves_of (take j hs) @ le_bytes 2 (hs ! j) @ halves_of (drop (Suc j) hs)"
    using arg_cong [OF id_take_nth_drop [OF j], of halves_of] by (simp add: halves_of_def)
  then show ?thesis using Load_at_end [of 2 "halves_of (take j hs)" "hs ! j"] j by (simp add: LoadThumb1Inst_def min_def)
qed

lemma thumb_half:
  assumes "thumb_placed b p (halves_of hs, lit)" "j < length hs" "\<And>k v. lit = Some (k, v) \<Longrightarrow> 2 * j + 2 \<le> k \<or> k + 4 \<le> 2 * j"
  shows "LoadThumb1Inst b (p + 2 * j) = Some (hs ! j)"
proof -
  have pl: "p + 2 * length hs \<le> length b"
    "\<And>i. i < 2 * length hs \<Longrightarrow> \<forall>k v. lit = Some (k, v) \<longrightarrow> i < k \<or> k + 4 \<le> i \<Longrightarrow> b ! (p + i) = halves_of hs ! i"
    using assms(1) by (simp_all add: placed_block_def)
  have "drop p b ! i = halves_of hs ! i" if i: "2 * j \<le> i" "i < 2 * j + 2" for i
  proof -
    have "\<forall>k v. lit = Some (k, v) \<longrightarrow> i < k \<or> k + 4 \<le> i" using assms(3) i by fastforce
    moreover have "i < 2 * length hs" using i assms(2) by linarith
    ultimately show ?thesis using pl by simp
  qed
  then have "Load 2 (drop p b) (2 * j) = (Load 2 (halves_of hs) (2 * j) :: u16 option)"
    using pl(1) assms(2) by (intro Load_cong) simp_all
  then show ?thesis using Load_halves_of [OF assms(2)] by (simp add: LoadThumb1Inst_def Load_drop [of 2])
qed

lemma thumb_literal:
  assumes "thumb_placed b p (halves_of hs, Some (2 * j, le_bytes 4 v))" "Suc j < length hs"
  shows "\<exists>q. p + 2 * length hs \<le> q \<and> q + 4 \<le> length b \<and> LoadARMInst b q = Some v \<and>
    LoadThumbPair b (p + 2 * j) = Some (thumb_fix q \<lparr>link_type = kThumb2LiteralLdr, ref_pc_offset = p + 2 * j\<rparr> (hs ! j, hs ! Suc j))"
proof -
  obtain q where q: "p + 2 * length hs \<le> q" "q + 4 \<le> length b" "take 4 (drop q b) = le_bytes 4 v"
    "LoadThumbPair b (p + 2 * j) = map_option (thumb_fix q \<lparr>link_type = kThumb2LiteralLdr, ref_pc_offset = p + 2 * j\<rparr>)
       (LoadThumbPair (halves_of hs) (2 * j))"
    using assms(1) unfolding placed_block_def fst_conv snd_conv length_halves_of
    by (elim conjE) (drule spec, drule spec, drule mp, rule refl, elim exE conjE, rule that, simp_all)
  have "LoadThumbPair (halves_of hs) (2 * j) = Some (hs ! j, hs ! Suc j)"
    using Load_halves_of [of j hs] Load_halves_of [of "Suc j" hs] assms(2) by (simp add: LoadThumbPair_def)
  then show ?thesis using q by (intro exI [of _ q]) (simp add: LoadARMInst_def Load_def)
qed

text \<open>A body at the aligned offset \<open>q\<close>: its halfwords, and the reference with its literal.\<close>

definition body_at :: "code_buffer \<Rightarrow> nat \<Rightarrow> body \<Rightarrow> bool" where
  "body_at b q bd \<longleftrightarrow> 4 dvd q \<and>
     (\<forall>j < length (fst bd). (\<forall>k v. snd bd = Some (k, v) \<longrightarrow> j < k \<or> k + 2 \<le> j) \<longrightarrow> LoadThumb1Inst b (q + 2 * j) = Some (fst bd ! j)) \<and>
     (\<forall>k v. snd bd = Some (k, v) \<longrightarrow> (\<exists>l. q + 2 * length (fst bd) \<le> l \<and> l + 4 \<le> length b \<and> LoadARMInst b l = Some v \<and>
        LoadThumbPair b (q + 2 * k) = Some (thumb_fix l \<lparr>link_type = kThumb2LiteralLdr, ref_pc_offset = q + 2 * k\<rparr>
          (fst bd ! k, fst bd ! Suc k))))"

lemma pads_align: "2 dvd p \<Longrightarrow> 4 dvd p + 2 * length (pads p)"
  by (auto simp: pads_def elim!: dvdE) presburger+

lemma body_placed:
  assumes "thumb_placed b p (body_block p bd)" "2 dvd p" "\<And>k v. snd bd = Some (k, v) \<Longrightarrow> Suc k < length (fst bd)"
  shows "body_at b (p + 2 * length (pads p)) bd" "j < length (pads p) \<Longrightarrow> LoadThumb1Inst b (p + 2 * j) = Some 0xbf00"
proof -
  let ?n = "length (pads p)" and ?hs = "pads p @ fst bd"
  let ?lit = "map_option (\<lambda>(k, v). (2 * (?n + k), le_bytes 4 v)) (snd bd)"
  have pl: "thumb_placed b p (halves_of ?hs, ?lit)" using assms(1) by (simp only: body_block_def)
  have half: "LoadThumb1Inst b (p + 2 * j) = Some (?hs ! j)"
    if "j < length ?hs" "\<And>k v. snd bd = Some (k, v) \<Longrightarrow> j < ?n + k \<or> ?n + k + 2 \<le> j" for j
    by (rule thumb_half [OF pl that(1)]) (use that(2) in fastforce)
  show "LoadThumb1Inst b (p + 2 * j) = Some 0xbf00" if "j < ?n"
    using half [of j] that by (auto simp: nth_append) (auto simp: pads_def nth_Cons' split: if_splits)
  have "LoadThumb1Inst b (p + 2 * ?n + 2 * j) = Some (fst bd ! j)"
    if "j < length (fst bd)" "\<forall>k v. snd bd = Some (k, v) \<longrightarrow> j < k \<or> k + 2 \<le> j" for j
    using half [of "?n + j"] that by (fastforce simp: nth_append algebra_simps)
  moreover have "\<exists>l. p + 2 * ?n + 2 * length (fst bd) \<le> l \<and> l + 4 \<le> length b \<and> LoadARMInst b l = Some v \<and>
        LoadThumbPair b (p + 2 * ?n + 2 * k) = Some (thumb_fix l \<lparr>link_type = kThumb2LiteralLdr, ref_pc_offset = p + 2 * ?n + 2 * k\<rparr>
          (fst bd ! k, fst bd ! Suc k))" if kv: "snd bd = Some (k, v)" for k v
  proof -
    have "thumb_placed b p (halves_of ?hs, Some (2 * (?n + k), le_bytes 4 v))" using pl kv by simp
    from thumb_literal [OF this] assms(3) [OF kv] show ?thesis by (auto simp: nth_append algebra_simps)
  qed
  ultimately show "body_at b (p + 2 * ?n) bd" using pads_align [OF assms(2)] by (simp add: body_at_def)
qed

lemma thumb_step16:
  assumes "at_code s True A b p" "LoadThumb1Inst b p = Some h" "\<not> t32_wide h" "t16_decode h = Some i"
  shows "a32_step s = Some (a32_exec 2 i s)"
proof -
  have "ld32 2 s (ip s) = h" using assms(1,2) in_ram_Load [of s A b 2 p h] by (simp add: at_code_def LoadThumb1Inst_def)
  then show ?thesis using assms by (simp add: a32_step_def at_code_def)
qed

lemma thumb_step32:
  assumes "at_code s True A b p" "LoadThumb1Inst b p = Some h1" "LoadThumb1Inst b (p + 2) = Some h2" "t32_wide h1" "t32_decode h1 h2 = Some i"
  shows "a32_step s = Some (a32_exec 4 i s)"
proof -
  have s: "in_ram s A b" "tb s" "ip s = A + word_of_nat p" using assms(1) by (simp_all add: at_code_def)
  then have "ip s + 2 = A + word_of_nat (p + 2)" by simp
  moreover have "ld32 2 s (A + word_of_nat (p + 2)) = h2" "ld32 2 s (A + word_of_nat p) = h1"
    by (rule in_ram_Load [OF s(1)], rule assms(2,3) [unfolded LoadThumb1Inst_def])+
  ultimately have "ld32 2 s (ip s) = h1" "ld32 2 s (ip s + 2) = h2" using s(3) by (simp_all only:)
  then show ?thesis using assms(4,5) s(2) by (simp add: a32_step_def)
qed

lemma decode_nop: "t16_decode 0xbf00 = Some I_nop" "\<not> t32_wide 0xbf00"
  by code_simp+

lemma run_pads:
  assumes "at_code s True A b p" "\<And>j. j < n \<Longrightarrow> LoadThumb1Inst b (p + 2 * j) = Some 0xbf00"
  shows "a32_run n s = Some (s\<lparr>ip := A + word_of_nat (p + 2 * n)\<rparr>)"
  using assms(2)
proof (induction n)
  case 0
  then show ?case using assms(1) by (simp add: at_code_def)
next
  case (Suc n)
  let ?t = "s\<lparr>ip := A + word_of_nat (p + 2 * n)\<rparr>"
  have "a32_run (n + 1) s = Option.bind (a32_run n s) (a32_run 1)" by (rule a32_run_add)
  moreover have "a32_step ?t = Some (a32_exec 2 I_nop ?t)"
    by (rule thumb_step16 [OF at_code_ip [OF assms(1)] Suc.prems decode_nop(2,1)]) simp
  ultimately show ?case using Suc by (simp add: skip_def algebra_simps)
qed

text \<open>The aligning no-operations do not matter.\<close>

lemma simulates_after:
  assumes "a32_run n s = Some (s\<lparr>ip := c\<rparr>)" "simulates32 b A src len i next (s\<lparr>ip := c\<rparr>)"
  shows "simulates32 b A src len i next s"
proof -
  have l: "links32 i (s\<lparr>ip := c\<rparr>) = links32 i s" "jumps32 i (s\<lparr>ip := c\<rparr>) = jumps32 i s" by (cases i; simp)+
  obtain k t where "a32_run k (s\<lparr>ip := c\<rparr>) = Some t" and
    rest: "same_result (if links32 i s then {12, 14} else {12}) (a32_exec len i (s\<lparr>ip := src\<rparr>)) t \<and>
        ip t = (if jumps32 i s then ip (a32_exec len i (s\<lparr>ip := src\<rparr>)) else A + word_of_nat next) \<and>
        (links32 i s \<longrightarrow> (bit (rg t 14) 0 \<longleftrightarrow> tb s) \<and>
          (\<forall>u. in_ram u A b \<and> tb u = tb s \<and> ip u = rg t 14 AND NOT 1 \<longrightarrow> (\<exists>j. a32_run j u = Some (u\<lparr>ip := A + word_of_nat next\<rparr>))))"
    using assms(2) unfolding simulates32_def Let_def l by auto
  then have "a32_run (n + k) s = Some t" using assms(1) by (simp add: a32_run_add)
  then show ?thesis using rest unfolding simulates32_def Let_def by blast
qed

subsection \<open>Decoding what is emitted\<close>

lemma nat16:
  assumes "m < 65536"
  shows "ucast (word_of_nat m :: u16) = (word_of_nat m :: u32)" "unat (word_of_nat m :: u32) = m"
proof -
  have "take_bit 16 m = m" "take_bit 32 m = m" using assms by (intro take_bit_nat_eq_self; simp)+
  then show "ucast (word_of_nat m :: u16) = (word_of_nat m :: u32)" "unat (word_of_nat m :: u32) = m"
    by (simp_all add: unsigned_of_nat)
qed

lemma low_bits16: "m < 2 ^ n \<Longrightarrow> bit (word_of_nat m :: u16) k \<Longrightarrow> k < n"
proof -
  assume m: "m < 2 ^ n" "bit (word_of_nat m :: u16) k"
  then have "bit m k" by (simp add: bit_of_nat_iff)
  moreover have "take_bit n m = m" using m(1) by (rule take_bit_nat_eq_self)
  ultimately show "k < n" by (metis bit_take_bit_iff)
qed

lemma lit_half:
  fixes h :: u16
  assumes "rt < 16" "m < 4096" "h = set_bits (push_bit 12 (word_of_nat rt)) 0 11 (word_of_nat m)"
  shows "rf (ucast h) 12 = rt" "fld32 (ucast h) 0 12 = word_of_nat m"
proof -
  have m: "bit (word_of_nat m :: u16) k \<Longrightarrow> k < 12" and r: "bit (word_of_nat rt :: u16) k \<Longrightarrow> k < 4" for k
    using low_bits16 [of m 12 k] low_bits16 [of rt 4 k] assms(1,2) by simp_all
  have b: "bit h k \<longleftrightarrow> k < 16 \<and> (if k < 12 then bit (word_of_nat m :: u16) k else bit (word_of_nat rt :: u16) (k - 12))" for k
    using m [of k] unfolding assms(3) bit_set_bits [of 0 11, simplified] by (auto simp: bit_push_bit_iff)
  have "bits h 12 15 = word_of_nat rt" by (rule bit_word_eqI) (auto simp: bit_bits b dest: r)
  moreover have "bits h 0 11 = word_of_nat m" by (rule bit_word_eqI) (use m in \<open>auto simp: bit_bits b\<close>)
  ultimately show "rf (ucast h) 12 = rt" "fld32 (ucast h) 0 12 = word_of_nat m"
    using fld_ucast [of 4 12 h] fld_ucast [of 12 0 h] assms(1,2) by (simp_all add: rf_def nat16)
qed

lemma decode_literal_pair:
  "t32_wide 0xf8df" "t32_wide 0xf85f"
  "t32_decode 0xf8df h2 = Some (I_lit 14 False (rf (ucast h2) 12) (fld32 (ucast h2) 0 12))"
  "t32_decode 0xf85f h2 = Some (I_lit 14 False (rf (ucast h2) 12) (- fld32 (ucast h2) 0 12))"
  by (code_simp, code_simp, simp_all add: t32_decode_def Let_def)

lemma thumb_fix_lit:
  assumes "rt < 16" "\<bar>int l - int (p + 4)\<bar> < 4096"
    and "thumb_fix l \<lparr>link_type = kThumb2LiteralLdr, ref_pc_offset = p\<rparr> (0xf85f, push_bit 12 (word_of_nat rt)) = (h1, h2)"
  shows "t32_wide h1" "t32_decode h1 h2 = Some (I_lit 14 False rt (word_of_int (int l - int (p + 4))))"
proof -
  let ?d = "int l - int (p + 4)"
  define m where "m = nat \<bar>?d\<bar>"
  have m: "m < 4096" using assms(2) by (simp add: m_def nat_less_iff)
  have b: "set_bit1 (0xf85f :: u16) 7 1 = 0xf8df" "set_bit1 (0xf85f :: u16) 7 0 = 0xf85f" by code_simp+
  have h: "h1 = (if ?d > 0 then 0xf8df else 0xf85f)" "h2 = set_bits (push_bit 12 (word_of_nat rt)) 0 11 (word_of_nat m)"
    using assms(3) by (auto simp: thumb_fix_def Let_def Thumb_PC_OFFSET_def b m_def split: if_splits)
  note f = lit_half [OF assms(1) m h(2)]
  have "(if ?d > 0 then word_of_nat m else - word_of_nat m) = (word_of_int ?d :: u32)" by (simp add: m_def)
  then show "t32_wide h1" "t32_decode h1 h2 = Some (I_lit 14 False rt (word_of_int ?d))"
    using decode_literal_pair by (auto simp: h(1) f split: if_splits)
qed

lemma decode_thumb_fixed:
  "t32_wide 0xf000" "t32_decode 0xf000 0xb802 = Some (I_b 14 4)" "t32_decode 0xf000 0xb804 = Some (I_b 14 8)"
  "t32_decode 0xf000 0xf802 = Some (I_bl 14 4)" "t32_decode 0xf85f 0xf000 = Some (I_lit 14 False 15 0)"
  by code_simp+

lemma decode_ldr_pair:
  assumes "r < 15"
  shows "t32_wide (0xf8d0 OR word_of_nat r)"
    "t32_decode (0xf8d0 OR word_of_nat r) (push_bit 12 (word_of_nat r)) = Some (I_mem 14 True False True False r r 0)"
proof -
  have "\<forall>r \<in> set [0..<15]. t32_wide (0xf8d0 OR word_of_nat r) \<and>
      t32_decode (0xf8d0 OR word_of_nat r) (push_bit 12 (word_of_nat r)) = Some (I_mem 14 True False True False r r 0)" by code_simp
  then show "t32_wide (0xf8d0 OR word_of_nat r)"
    "t32_decode (0xf8d0 OR word_of_nat r) (push_bit 12 (word_of_nat r)) = Some (I_mem 14 True False True False r r 0)"
    using assms by simp_all
qed

lemma decode_ldr_8:
  assumes "r < 16"
  shows "t32_decode 0xf8df (push_bit 12 (word_of_nat r) OR 8) = Some (I_lit 14 False r 8)"
proof -
  have "\<forall>r \<in> set [0..<16]. t32_decode 0xf8df (push_bit 12 (word_of_nat r) OR 8) = Some (I_lit 14 False r 8)" by code_simp
  then show ?thesis using assms by simp
qed

subsection \<open>Steps of a body\<close>

lemma thumb_pc:
  assumes "at_code s True A b p" "4 dvd p"
  shows "align4 (pc_value s) = A + word_of_nat (p + 4)"
proof -
  have "take_bit 2 (A + word_of_nat (p + 4)) = 0"
    using assms take_bit_4_dvd [of "p + 4"] by (intro aligned_add) (auto simp: at_code_def)
  moreover have "pc_value s = A + word_of_nat (p + 4)" using assms(1) by (simp add: at_code_def pc_value_def add.assoc)
  ultimately show ?thesis by (simp only: align4_id)
qed

lemma step_thumb_literal:
  assumes "at_code s True A b (q + 2 * k)" "body_at b q bd" "snd bd = Some (k, v)" "even k" "rt < 16"
    and "Suc k < length (fst bd)" "fst bd ! k = 0xf85f" "fst bd ! Suc k = push_bit 12 (word_of_nat rt)"
  shows "a32_step s = Some (wR 4 rt v s)"
proof -
  obtain l where l: "q + 2 * length (fst bd) \<le> l" "l + 4 \<le> length b" "LoadARMInst b l = Some v"
    "LoadThumbPair b (q + 2 * k) = Some (thumb_fix l \<lparr>link_type = kThumb2LiteralLdr, ref_pc_offset = q + 2 * k\<rparr>
       (0xf85f, push_bit 12 (word_of_nat rt)))"
    using assms(2,3) unfolding body_at_def assms(7,8) [symmetric] by blast
  obtain h1 h2 where h: "thumb_fix l \<lparr>link_type = kThumb2LiteralLdr, ref_pc_offset = q + 2 * k\<rparr> (0xf85f, push_bit 12 (word_of_nat rt)) = (h1, h2)"
    by fastforce
  have ld: "LoadThumb1Inst b (q + 2 * k) = Some h1" "LoadThumb1Inst b (q + 2 * k + 2) = Some h2"
    using l(4) unfolding h by (auto simp: LoadThumbPair_def bind_eq_Some_conv)
  have s: "in_ram s A b" "length b \<le> 4096" using assms(1) by (simp_all add: at_code_def)
  have "q + 2 * k + 4 \<le> length b" using ld(2) by (auto simp: LoadThumb1Inst_def Load_def split: if_splits)
  then have "\<bar>int l - int (q + 2 * k + 4)\<bar> < 4096" using s(2) l(1,2) assms(6) by (auto simp: abs_if)
  note f = thumb_fix_lit [OF assms(5) this h]
  have q: "4 dvd q + 2 * k" using assms(2,4) by (auto simp: body_at_def elim!: evenE)
  have "align4 (pc_value s) + word_of_int (int l - int (q + 2 * k + 4)) = A + word_of_nat l"
    using thumb_pc [OF assms(1) q] by simp
  moreover have "ld32 4 s (A + word_of_nat l) = v" using in_ram_Load [OF s(1), of 4 l v] l(3) by (simp add: LoadARMInst_def)
  ultimately have "a32_exec 4 (I_lit 14 False rt (word_of_int (int l - int (q + 2 * k + 4)))) s = wR 4 rt v s"
    by (simp only: a32_exec.simps cond32_always Let_def if_True if_False)
  then show ?thesis using thumb_step32 [OF assms(1) ld f] by simp
qed

lemma Load_halves:
  assumes "LoadThumb1Inst b q = Some (ucast (v :: u32))" "LoadThumb1Inst b (q + 2) = Some (ucast (drop_bit 16 v))"
  shows "LoadARMInst b q = Some v"
proof -
  have q: "q + 4 \<le> length b" using assms(2) by (auto simp: LoadThumb1Inst_def Load_def split: if_splits)
  have two: "take 2 (drop p b) = le_bytes 2 (h :: u16)" if "LoadThumb1Inst b p = Some h" for p h
  proof -
    have "length (take 2 (drop p b)) = 2" "h = le_word (take 2 (drop p b))"
      using that by (auto simp: LoadThumb1Inst_def Load_def split: if_splits)
    then show ?thesis using le_bytes_le_word [of "take 2 (drop p b)", where 'a = 16] by simp
  qed
  have "take 4 (drop q b) = take 2 (drop q b) @ take 2 (drop (q + 2) b)"
    using take_add [of 2 2 "drop q b"] by (simp add: add.commute)
  also have "\<dots> = le_bytes 4 v" using two [OF assms(1)] two [OF assms(2)] by (simp add: le_bytes_4 addr_halves_def)
  finally show ?thesis using q by (simp add: LoadARMInst_def Load_def)
qed

text \<open>The halfwords of a body without a literal.\<close>

lemma body_half: "body_at b q bd \<Longrightarrow> snd bd = None \<Longrightarrow> j < length (fst bd) \<Longrightarrow> LoadThumb1Inst b (q + 2 * j) = Some (fst bd ! j)"
  by (simp add: body_at_def)

lemma body_address:
  assumes "body_at b q (hs @ addr_halves v, None)"
  shows "LoadARMInst b (q + 2 * length hs) = Some v"
  using body_half [OF assms, of "length hs"] body_half [OF assms, of "Suc (length hs)"]
  by (intro Load_halves) (simp_all add: addr_halves_def nth_append add.assoc)

text \<open>A load of an address that stands in the code.\<close>

lemma step_inline:
  assumes "at_code s True A b p" "4 dvd p" "LoadThumb1Inst b p = Some h1" "LoadThumb1Inst b (p + 2) = Some h2"
    and "t32_wide h1" "t32_decode h1 h2 = Some (I_lit 14 False rt (word_of_nat d))" "LoadARMInst b (p + 4 + d) = Some v"
  shows "a32_step s = Some (wR 4 rt v s)"
proof -
  have "align4 (pc_value s) + word_of_nat d = A + word_of_nat (p + 4 + d)" using thumb_pc [OF assms(1,2)] by simp
  moreover have "ld32 4 s (A + word_of_nat (p + 4 + d)) = v"
    using in_ram_Load [of s A b 4 "p + 4 + d" v] assms(1,7) by (simp add: LoadARMInst_def at_code_def)
  ultimately have "a32_exec 4 (I_lit 14 False rt (word_of_nat d)) s = wR 4 rt v s"
    by (simp only: a32_exec.simps cond32_always Let_def if_True if_False)
  then show ?thesis using thumb_step32 [OF assms(1,3-6)] by simp
qed

subsection \<open>The bodies simulate their instructions\<close>

lemma align4_add: "take_bit 2 off = 0 \<Longrightarrow> align4 (a + off) = align4 a + off"
proof -
  assume off: "take_bit 2 off = 0"
  have al: "align4 x = x - take_bit 2 x" for x
  proof -
    have "align4 x = push_bit 2 (drop_bit 2 x)"
    proof (rule bit_word_eqI)
      fix k assume "k < LENGTH(32)"
      have "align4 x = x AND NOT (mask 2)" by (simp add: align4_def mask_eq_exp_minus_1)
      then have e: "bit (align4 x) k \<longleftrightarrow> bit x k \<and> \<not> k < 2"
        by (auto simp: bit_and_iff bit_not_iff bit_mask_iff dest: bit_imp_le_length)
      show "bit (align4 x) k = bit (push_bit 2 (drop_bit 2 x)) k"
      proof (cases "2 \<le> k")
        case True
        then obtain j where "k = 2 + j" by (metis le_Suc_ex)
        then show ?thesis using e by (auto simp: bit_push_bit_iff bit_drop_bit_eq dest: bit_imp_le_length)
      qed (use e in \<open>simp add: bit_push_bit_iff\<close>)
    qed
    then show ?thesis using bits_ident [of 2 x] by (simp add: eq_diff_eq)
  qed
  have "take_bit 2 (a + off) = take_bit 2 a"
  proof -
    obtain m where m: "off = word_of_nat (4 * m)" using aligned_nat [OF off] by blast
    have "a + off = word_of_nat (unat a + 4 * m)" unfolding m by (simp only: of_nat_add of_nat_unat ucast_id)
    then have "take_bit 2 (a + off) = word_of_nat (take_bit 2 (unat a + 4 * m))" by (simp only: take_bit_of_nat)
    also have "take_bit 2 (unat a + 4 * m) = take_bit 2 (unat a)" by (simp add: take_bit_eq_mod)
    also have "word_of_nat (take_bit 2 (unat a)) = take_bit 2 a" by (simp only: take_bit_of_nat [symmetric] of_nat_unat ucast_id)
    finally show ?thesis .
  qed
  then show ?thesis by (simp add: al)
qed

lemma even_bit1: "take_bit 1 (x :: u32) = 0 \<Longrightarrow> even x"
  by (metis even_take_bit_eq one_neq_zero even_zero)

lemma or_1_even: "even (x :: u32) \<Longrightarrow> x + 1 = x OR 1"
  by (simp add: or_one_eq)

lemma or_1_clear: "even (x :: u32) \<Longrightarrow> (x OR 1) AND NOT 1 = x"
proof (rule bit_word_eqI)
  fix k assume x: "even x" and "k < LENGTH(32)"
  moreover have "\<not> bit x 0" using x by (simp add: bit_0)
  ultimately show "bit ((x OR 1) AND NOT 1) k = bit x k"
    by (cases "k = 0") (auto simp: bit_and_iff bit_or_iff bit_not_iff bit_1_iff simp del: bit_0)
qed

lemma bit_or_1: "bit (x OR 1 :: u32) 0"
  by (simp only: bit_or_iff bit_1_iff) simp

lemma bx_to_thumb: "even x \<Longrightarrow> bx_to (x OR 1) s = s\<lparr>ip := x, tb := True\<rparr>"
  using or_1_clear [of x] bit_or_1 [of x] by (simp add: bx_to_def)

lemma at_code_next: "at_code s t A b p \<Longrightarrow> at_code (skip (word_of_nat n) (setR r v s)) t A b (p + n)"
  by (simp add: at_code_def in_ram_def add.assoc)

lemma body_part:
  "body_at b q bd \<Longrightarrow> j < length (fst bd) \<Longrightarrow> (\<And>k v. snd bd = Some (k, v) \<Longrightarrow> j < k \<or> k + 2 \<le> j) \<Longrightarrow> LoadThumb1Inst b (q + 2 * j) = Some (fst bd ! j)"
  unfolding body_at_def by blast

lemma body_even: "body_at b q bd \<Longrightarrow> 4 dvd q"
  by (simp add: body_at_def)

lemma sim_thumb_literal:
  assumes "at_code s True A b q" "body_at b q (lit_pair rt @ ldr_pair rt, Some (0, v))" "rt < 15" "v = align4 (src + 4) + off"
  shows "simulates32 b A src len (I_lit 14 False rt off) (q + 8) s"
proof -
  let ?s1 = "skip 4 (setR rt v s)"
  have "a32_step s = Some (wR 4 rt v s)"
    by (rule step_thumb_literal [OF _ assms(2), of s A 0 v rt]) (use assms in \<open>simp_all add: lit_pair_def\<close>)
  then have step1: "a32_step s = Some ?s1" using assms(3) by (simp add: wR_def)
  have s1: "at_code ?s1 True A b (q + 4)" using at_code_next [OF assms(1), of 4 rt v] by simp
  have h: "LoadThumb1Inst b (q + 4) = Some (0xf8d0 OR word_of_nat rt)" "LoadThumb1Inst b (q + 4 + 2) = Some (push_bit 12 (word_of_nat rt))"
    using body_part [OF assms(2), of 2] body_part [OF assms(2), of 3] by (simp_all add: lit_pair_def ldr_pair_def ac_simps)
  have "a32_step ?s1 = Some (a32_exec 4 (I_mem 14 True False True False rt rt 0) ?s1)"
    by (rule thumb_step32 [OF s1 h decode_ldr_pair [OF assms(3)]])
  then have "a32_run 2 s = Some (a32_exec 4 (I_mem 14 True False True False rt rt 0) ?s1)"
    using step1 by (simp add: numeral_2_eq_2)
  then show ?thesis using assms unfolding simulates32_def Let_def
    by (intro exI [of _ 2]) (auto simp: same_result_def wR_def at_code_def pc_value_def rR_def add.assoc)
qed

lemma sim_thumb_adr:
  assumes "at_code s True A b q" "body_at b q (lit_pair rd, Some (0, v))" "rd < 15" "v = align4 (src + 4) + off"
  shows "simulates32 b A src len (I_adr 14 rd off) (q + 4) s"
proof -
  have "a32_step s = Some (wR 4 rd v s)"
    by (rule step_thumb_literal [OF _ assms(2), of s A 0 v rd]) (use assms in \<open>simp_all add: lit_pair_def\<close>)
  then have "a32_run 1 s = Some (skip 4 (setR rd v s))" using assms(3) by (simp add: wR_def)
  then show ?thesis using assms unfolding simulates32_def Let_def
    by (intro exI [of _ 1]) (auto simp: same_result_def wA_def wR_def at_code_def pc_value_def add.assoc)
qed

text \<open>The program counter as an operand: it is loaded into r12.\<close>

lemma sim_thumb_pc:
  assumes "at_code s True A b q" "body_at b q (lit_pair 12 @ [h'], Some (0, src + 4))"
    and "t16_decode h' = Some (con 14 rd 12)" "\<not> t32_wide h'" "con = I_mov \<or> con = I_addr \<and> rd \<noteq> 12 \<and> rd \<noteq> 15"
  shows "simulates32 b A src 2 (con 14 rd 15) (q + 6) s"
proof -
  let ?s1 = "skip 4 (setR 12 (src + 4) s)"
  have "a32_step s = Some (wR 4 12 (src + 4) s)"
    by (rule step_thumb_literal [OF _ assms(2), of s A 0 "src + 4" 12]) (use assms in \<open>simp_all add: lit_pair_def\<close>)
  then have step1: "a32_step s = Some ?s1" by (simp add: wR_def)
  have s1: "at_code ?s1 True A b (q + 4)" using at_code_next [OF assms(1), of 4 12 "src + 4"] by simp
  have h: "LoadThumb1Inst b (q + 4) = Some h'" using body_part [OF assms(2), of 2] by (simp add: lit_pair_def)
  have "a32_run 2 s = Some (a32_exec 2 (con 14 rd 12) ?s1)"
    using step1 thumb_step16 [OF s1 h assms(4,3)] by (simp add: numeral_2_eq_2)
  then show ?thesis using assms(1,5) unfolding simulates32_def Let_def
    by (intro exI [of _ 2]) (auto simp: same_result_def wA_def wR_def at_code_def pc_value_def rR_def add.assoc)
qed

text \<open>Jumps through a literal.\<close>

lemma sim_thumb_b:
  assumes "at_code s True A b q" "body_at b q bd" "even src" "even off"
    and "bd = (lit_pair 15, Some (0, src + 4 + off + 1)) \<or> bd = ([0xf85f, 0xf000] @ addr_halves ((src + 4 + off) OR 1), None)"
  shows "simulates32 b A src len (I_b 14 off) next s"
proof -
  let ?x = "src + 4 + off"
  have e: "even ?x" using assms(3,4) by simp
  have "a32_step s = Some (wR 4 15 (?x OR 1) s)"
    using assms(5)
  proof
    assume bd: "bd = (lit_pair 15, Some (0, ?x + 1))"
    show ?thesis
      by (rule step_thumb_literal [OF _ assms(2), of s A 0 "?x OR 1" 15]) (use assms(1) bd or_1_even [OF e] in \<open>simp_all add: lit_pair_def\<close>)
  next
    assume bd: "bd = ([0xf85f, 0xf000] @ addr_halves (?x OR 1), None)"
    note B = assms(2) [unfolded bd]
    have l: "LoadThumb1Inst b q = Some 0xf85f" "LoadThumb1Inst b (q + 2) = Some 0xf000" "LoadARMInst b (q + 4 + 0) = Some (?x OR 1)"
      using body_half [OF B, of 0] body_half [OF B, of 1] body_address [OF B] by simp_all
    have "t32_decode 0xf85f 0xf000 = Some (I_lit 14 False 15 (word_of_nat 0))" by (simp add: decode_thumb_fixed)
    then show ?thesis by (rule step_inline [OF assms(1) body_even [OF B] l(1,2) decode_literal_pair(2) _ l(3)])
  qed
  then have "a32_run 1 s = Some (s\<lparr>ip := ?x, tb := True\<rparr>)" using bx_to_thumb [OF e, of s] by (simp add: wR_def)
  then show ?thesis using assms(1) unfolding simulates32_def Let_def
    by (intro exI [of _ 1]) (auto simp: same_result_def at_code_def pc_value_def)
qed

lemma sim_thumb_cb:
  assumes "at_code s True A b q" "body_at b q (over h' (src + 4 + off + 1))" "even src" "even off"
    and "t16_decode h' = Some (I_cb nz r 4)" "\<not> t32_wide h'"
  shows "simulates32 b A src len (I_cb nz r off) (q + 12) s"
proof -
  let ?x = "src + 4 + off"
  have e: "even ?x" using assms(3,4) by simp
  note B = assms(2) [unfolded over_def]
  have h: "LoadThumb1Inst b q = Some h'" "LoadThumb1Inst b (q + 2) = Some 0xbf00" "LoadThumb1Inst b (q + 4) = Some 0xf000"
    "LoadThumb1Inst b (q + 4 + 2) = Some 0xb802"
    using body_part [OF B, of 0] body_part [OF B, of 1] body_part [OF B, of 2] body_part [OF B, of 3] by (simp_all add: ac_simps)
  have s: "tb s" "ip s = A + word_of_nat q" using assms(1) by (simp_all add: at_code_def)
  have step: "a32_step s = Some (a32_exec 2 (I_cb nz r 4) s)" by (rule thumb_step16 [OF assms(1) h(1) assms(6,5)])
  show ?thesis
  proof (cases "(rg s r = 0) \<noteq> nz")
    case True
    let ?s1 = "s\<lparr>ip := A + word_of_nat (q + 2 * 4)\<rparr>"
    have "a32_step s = Some ?s1" using step True s by (simp add: pc_value_def add.assoc)
    moreover have "a32_step ?s1 = Some (wR 4 15 (?x OR 1) ?s1)"
      by (rule step_thumb_literal [OF at_code_ip [OF assms(1)] B, of 4 "?x OR 1" 15]) (simp_all add: lit_pair_def or_1_even [OF e] nth_append)
    ultimately have "a32_run 2 s = Some (s\<lparr>ip := ?x, tb := True\<rparr>)" using bx_to_thumb [OF e, of ?s1] by (simp add: wR_def numeral_2_eq_2)
    then show ?thesis using True s unfolding simulates32_def Let_def
      by (intro exI [of _ 2]) (auto simp: same_result_def pc_value_def)
  next
    case False
    let ?s1 = "s\<lparr>ip := A + word_of_nat (q + 2)\<rparr>" and ?s2 = "s\<lparr>ip := A + word_of_nat (q + 4)\<rparr>"
    have "a32_step s = Some ?s1" using step False s by (simp add: skip_def add.assoc)
    moreover have "a32_step ?s1 = Some ?s2"
      using thumb_step16 [OF at_code_ip [OF assms(1)] h(2) decode_nop(2,1)] by (simp add: skip_def add.assoc)
    moreover have "a32_step ?s2 = Some (s\<lparr>ip := A + word_of_nat (q + 12)\<rparr>)"
      using thumb_step32 [OF at_code_ip [OF assms(1)] h(3,4) decode_thumb_fixed(1,2)] s by (simp add: pc_value_def add.assoc)
    ultimately have "a32_run 3 s = Some (s\<lparr>ip := A + word_of_nat (q + 12)\<rparr>)" by (simp add: numeral_3_eq_3)
    then show ?thesis using False s unfolding simulates32_def Let_def
      by (intro exI [of _ 3]) (auto simp: same_result_def)
  qed
qed

lemma sim_thumb_call:
  assumes "at_code s True A b q" "body_at b q (call_body v)" "even src" "even off"
    and "i = I_bl 14 off \<and> v = (src + 4 + off) OR 1 \<or> i = I_blx off \<and> take_bit 2 off = 0 \<and> v = align4 (src + 4) + off"
  shows "simulates32 b A src 4 i (q + 16) s"
proof -
  note B = assms(2) [unfolded call_body_def]
  have q: "4 dvd q" using body_even [OF B] .
  have s: "in_ram s A b" "tb s" "ip s = A + word_of_nat q" "take_bit 2 A = 0" "length b \<le> 4096"
    using assms(1) by (simp_all add: at_code_def)
  have h: "LoadThumb1Inst b q = Some 0xf000" "LoadThumb1Inst b (q + 2) = Some 0xf802" "LoadThumb1Inst b (q + 4) = Some 0xf000"
    "LoadThumb1Inst b (q + 4 + 2) = Some 0xb804" "LoadThumb1Inst b (q + 8) = Some 0xf85f" "LoadThumb1Inst b (q + 8 + 2) = Some 0xf000"
    using body_half [OF B, of 0] body_half [OF B, of 1] body_half [OF B, of 2] body_half [OF B, of 3] body_half [OF B, of 4]
      body_half [OF B, of 5] by (simp_all add: ac_simps nth_append)
  have l: "LoadARMInst b (q + 8 + 4 + 0) = Some v" using body_address [OF B] by (simp add: eval_nat_numeral)
  define lr where "lr = (A + word_of_nat (q + 4)) OR 1"
  have ev: "even (A + word_of_nat (q + 4))"
    using aligned_add [OF s(4), of "word_of_nat (q + 4)"] take_bit_4_dvd [of "q + 4"] q
    by (metis dvd_add_left_iff dvd_refl even_take_bit_eq even_zero zero_neq_numeral)
  have lr: "bit lr 0" "lr AND NOT 1 = A + word_of_nat (q + 4)" using bit_or_1 or_1_clear [OF ev] by (simp_all only: lr_def)
  let ?s1 = "(setR 14 lr s)\<lparr>ip := A + word_of_nat (q + 8)\<rparr>"
  have "a32_step s = Some (a32_exec 4 (I_bl 14 4) s)"
    by (rule thumb_step32 [OF assms(1) h(1,2) decode_thumb_fixed(1,4)])
  then have step1: "a32_step s = Some ?s1" using s by (simp add: link_address_def lr_def pc_value_def add.assoc)
  have s1: "at_code ?s1 True A b (q + 8)" by (rule at_code_ip, rule at_code_setR, rule assms(1))
  have "t32_decode 0xf85f 0xf000 = Some (I_lit 14 False 15 (word_of_nat 0))" by (simp add: decode_thumb_fixed)
  then have "a32_step ?s1 = Some (wR 4 15 v ?s1)" using q
    by (intro step_inline [OF s1 _ h(5,6) decode_literal_pair(2) _ l]) auto
  then have run: "a32_run 2 s = Some (bx_to v ?s1)" using step1 by (simp add: numeral_2_eq_2 wR_def)
  have v: "bx_to v ?s1 = ?s1\<lparr>ip := (case i of I_bl _ _ \<Rightarrow> src + 4 + off | _ \<Rightarrow> align4 (src + 4) + off), tb := (case i of I_bl _ _ \<Rightarrow> True | _ \<Rightarrow> False)\<rparr>"
    using assms(5)
  proof
    assume i: "i = I_bl 14 off \<and> v = (src + 4 + off) OR 1"
    have "even (src + 4 + off)" using assms(3,4) by simp
    then show ?thesis using i bx_to_thumb [of "src + 4 + off" ?s1] by simp
  next
    assume i: "i = I_blx off \<and> take_bit 2 off = 0 \<and> v = align4 (src + 4) + off"
    have "take_bit 2 (align4 (src + 4)) = 0"
      by (rule bit_word_eqI) (auto simp: align4_def bit_take_bit_iff bit_and_iff bit_not_iff less_2_cases_iff simp flip: mask_eq_exp_minus_1)
    then have "take_bit 2 v = 0" using i aligned_add by blast
    then show ?thesis using i bx_to_even [of v ?s1] by simp
  qed
  have ret: "\<exists>j. a32_run j u = Some (u\<lparr>ip := A + word_of_nat (q + 16)\<rparr>)"
    if u: "in_ram u A b" "tb u" "ip u = lr AND NOT 1" for u
  proof -
    have "at_code u True A b (q + 4)" using u lr(2) s(4,5) by (simp add: at_code_def)
    from thumb_step32 [OF this h(3,4) decode_thumb_fixed(1,3)]
    have "a32_run 1 u = Some (u\<lparr>ip := A + word_of_nat (q + 16)\<rparr>)" using u lr(2) by (simp add: pc_value_def add.assoc)
    then show ?thesis by blast
  qed
  show ?thesis using assms(5) run v s(2) lr(1) ret unfolding simulates32_def Let_def
    by (intro exI [of _ 2]) (auto simp: same_result_def pc_value_def)
qed

lemma sim_thumb_ldr_wide:
  assumes "at_code s True A b q" "rt < 15" "v = align4 (src + 4) + off"
    and "body_at b q ([0xf8df, push_bit 12 (word_of_nat rt) OR 8] @ ldr_pair rt @ [0xf000, 0xb802] @ addr_halves v, None)"
  shows "simulates32 b A src len (I_lit 14 False rt off) (q + 16) s"
proof -
  note B = assms(4)
  let ?s1 = "skip 4 (setR rt v s)"
  have h: "LoadThumb1Inst b q = Some 0xf8df" "LoadThumb1Inst b (q + 2) = Some (push_bit 12 (word_of_nat rt) OR 8)"
    "LoadThumb1Inst b (q + 4) = Some (0xf8d0 OR word_of_nat rt)" "LoadThumb1Inst b (q + 4 + 2) = Some (push_bit 12 (word_of_nat rt))"
    "LoadThumb1Inst b (q + 8) = Some 0xf000" "LoadThumb1Inst b (q + 8 + 2) = Some 0xb802"
    using body_half [OF B, of 0] body_half [OF B, of 1] body_half [OF B, of 2] body_half [OF B, of 3] body_half [OF B, of 4]
      body_half [OF B, of 5] by (simp_all add: ac_simps nth_append ldr_pair_def)
  have "body_at b q (([0xf8df, push_bit 12 (word_of_nat rt) OR 8] @ ldr_pair rt @ [0xf000, 0xb802]) @ addr_halves v, None)" using B by simp
  from body_address [OF this] have l: "LoadARMInst b (q + 4 + 8) = Some v" by (simp add: ldr_pair_def eval_nat_numeral)
  have "a32_step s = Some (wR 4 rt v s)"
    by (rule step_inline [OF assms(1) body_even [OF B] h(1,2) decode_literal_pair(1) _ l]) (use decode_ldr_8 [of rt] assms(2) in simp)
  then have step1: "a32_step s = Some ?s1" using assms(2) by (simp add: wR_def)
  have s1: "at_code ?s1 True A b (q + 4)" using at_code_next [OF assms(1), of 4 rt v] by simp
  let ?w = "ld32 4 s v :: u32"
  let ?s2 = "skip 4 (setR rt ?w ?s1)"
  have step2: "a32_step ?s1 = Some ?s2"
    using thumb_step32 [OF s1 h(3,4) decode_ldr_pair [OF assms(2)]] assms(2) by (simp add: wR_def rR_def)
  have s2: "at_code ?s2 True A b (q + 8)" using at_code_next [OF s1, of 4 rt ?w] by (simp add: ac_simps)
  have "a32_step ?s2 = Some (?s2\<lparr>ip := A + word_of_nat (q + 16)\<rparr>)"
    using thumb_step32 [OF s2 h(5,6) decode_thumb_fixed(1,2)] assms(1) by (simp add: pc_value_def at_code_def add.assoc)
  then have "a32_run 3 s = Some (?s2\<lparr>ip := A + word_of_nat (q + 16)\<rparr>)" using step1 step2 by (simp add: numeral_3_eq_3)
  then show ?thesis using assms(1-3) unfolding simulates32_def Let_def
    by (intro exI [of _ 3]) (auto simp: same_result_def wR_def at_code_def pc_value_def)
qed

end
