(* ===== verification/Thumb_Reloc_Sim.thy ===== *)
theory Thumb_Reloc_Sim
  imports Thumb_Run
begin

text \<open>
  Relocated Thumb code simulates the original: which instructions are handled, the theorem over the whole relocation, what
  goes wrong with conditional branches and \<^verbatim>\<open>ADR.W\<close>, and the trampolines of both instruction sets.
\<close>

subsection \<open>The instructions that the Thumb relocator handles correctly\<close>

definition thumb_decode :: "u32 \<Rightarrow> (nat \<times> a32_instr) option" where
  "thumb_decode insn =
     (let h1 = ucast insn; h2 = ucast (drop_bit 16 insn) in
      if t32_wide h1 then map_option (Pair 4) (t32_decode h1 h2) else map_option (Pair 2) (t16_decode h1))"

text \<open>
  For an instruction of length \<open>n\<close> at \<open>src\<close>. Conditional branches and ADR.W are not among them, nor are instructions
  that read or write r12 besides the program counter.
\<close>

fun thumb_supported :: "u32 \<Rightarrow> nat \<Rightarrow> a32_instr \<Rightarrow> bool" where
  "thumb_supported src n (I_b c off) = (c = 14)"
| "thumb_supported src n (I_bl c off) = True"
| "thumb_supported src n (I_blx off) = (bit off 23 = bit off 24)"
| "thumb_supported src n (I_cb nz r off) = True"
| "thumb_supported src n (I_lit c byte rt off) = (n = 2 \<or> rt \<noteq> 15 \<and> take_bit 2 src = 0)"
| "thumb_supported src n (I_adr c rd off) = (n = 2 \<and> take_bit 2 src = 0)"
| "thumb_supported src n (I_mov c rd rm) = True"
| "thumb_supported src n (I_addr c rd rm) = (rd \<noteq> 15 \<and> (rm = 15 \<longrightarrow> rd \<noteq> 12))"
| "thumb_supported src n (I_bx c rm) = (rm \<noteq> 15)"
| "thumb_supported src n i = a32_supported i"

text \<open>The literal of the block of a 16-bit instruction.\<close>

fun thumb_literal_value :: "u32 \<Rightarrow> a32_instr \<Rightarrow> u32 option" where
  "thumb_literal_value src (I_lit _ _ _ off) = Some (align4 (src + 4) + off)"
| "thumb_literal_value src (I_adr _ _ off) = Some (align4 (src + 4) + off)"
| "thumb_literal_value src (I_b _ off) = Some ((src + 4 + off) OR 1)"
| "thumb_literal_value src (I_cb _ _ off) = Some ((src + 4 + off) OR 1)"
| "thumb_literal_value src (I_mov _ _ rm) = (if rm = 15 then Some (src + 4) else None)"
| "thumb_literal_value src (I_addr _ _ rm) = (if rm = 15 then Some (src + 4) else None)"
| "thumb_literal_value src _ = None"

definition body_simulates :: "u32 \<Rightarrow> nat \<Rightarrow> a32_instr \<Rightarrow> body \<Rightarrow> bool" where
  "body_simulates src n i bd \<longleftrightarrow>
     (\<forall>k v. snd bd = Some (k, v) \<longrightarrow> Suc k < length (fst bd) \<and> n = 2 \<and> thumb_literal_value src i = Some v) \<and>
     (\<forall>s A b q. at_code s True A b q \<and> body_at b q bd \<longrightarrow> simulates32 b A src (word_of_nat n) i (q + 2 * length (fst bd)) s)"

lemma length_pairs [simp]: "length (lit_pair r) = 2" "length (ldr_pair r) = 2" "length (addr_halves v) = 2"
  by (simp_all add: lit_pair_def ldr_pair_def addr_halves_def)

lemma align4_src: "take_bit 2 src = 0 \<Longrightarrow> align4 (src + 4) = src + 4"
  using aligned_add [of src 4] take_bit_4_dvd [of 4] by (simp add: align4_id)

lemma body_copy:
  assumes "t16_decode h = Some i \<and> \<not> t32_wide h \<and> n = 2 \<and> hs = [h] \<or> t32_decode h h' = Some i \<and> t32_wide h \<and> n = 4 \<and> hs = [h, h']"
    and "\<not> pc_relative32 i" "a32_supported i"
  shows "body_simulates src n i (hs, None)"
  unfolding body_simulates_def fst_conv snd_conv
proof (intro conjI allI impI)
  fix s A b q assume s: "at_code s True A b q \<and> body_at b q (hs, None)"
  have ip: "ip s = A + word_of_nat q" using s by (simp add: at_code_def)
  show "simulates32 b A src (word_of_nat n) i (q + 2 * length hs) s"
    using assms(1)
  proof (elim disjE conjE)
    assume h: "t16_decode h = Some i" "\<not> t32_wide h" "n = 2" "hs = [h]"
    have "LoadThumb1Inst b q = Some h" using s body_half [of b q "(hs, None)" 0] h by simp
    then have "a32_step s = Some (a32_exec 2 i s)" using thumb_step16 [of s A b q h i] s h by simp
    from sim_copy32 [OF this ip assms(2,3)] show ?thesis using h by simp
  next
    assume h: "t32_decode h h' = Some i" "t32_wide h" "n = 4" "hs = [h, h']"
    have "LoadThumb1Inst b q = Some h" "LoadThumb1Inst b (q + 2) = Some h'"
      using s body_half [of b q "(hs, None)" 0] body_half [of b q "(hs, None)" 1] h by simp_all
    then have "a32_step s = Some (a32_exec 4 i s)" using thumb_step32 [of s A b q h h' i] s h by simp
    from sim_copy32 [OF this ip assms(2,3)] show ?thesis using h by simp
  qed
qed simp_all

lemma t16_supported:
  assumes "t16_decode h = Some i" "\<not> t32_wide h" "thumb_supported src 2 i" "even src"
  shows "\<exists>bd. t1_body (src + 4) h = Some bd \<and> body_simulates src 2 i bd"
proof (cases "pc_relative32 i \<or> (\<exists>c rd. i = I_mov c rd 15 \<or> i = I_addr c rd 15)")
  case False
  have "i \<noteq> I_bx c 15" for c using assms(3) by auto
  moreover have "\<not> pc_relative32 i" "i \<noteq> I_mov c rd 15" "i \<noteq> I_addr c rd 15" for c rd using False by blast+
  ultimately have "t1_body (src + 4) h = Some ([h], None)" using t16_copy [OF assms(1)] by blast
  moreover have "a32_supported i" using assms(3) False by (cases i) auto
  ultimately show ?thesis using body_copy [of h i 2 "[h]" h src] assms(1,2) False by auto
next
  case True
  then consider (lit) c byte rt off where "i = I_lit c byte rt off" | (adr) c rd off where "i = I_adr c rd off"
    | (b) off where "i = I_b 14 off" | (cb) nz r off where "i = I_cb nz r off" | (mov) c rd where "i = I_mov c rd 15"
    | (add) c rd where "i = I_addr c rd 15" | (no) "\<exists>c off. i = I_bl c off \<or> i = I_blx off"
    using assms(3) by (cases i) auto
  then show ?thesis
  proof cases
    case lit
    note d = t16_lit [OF assms(1) [unfolded lit], of "src + 4"]
    have "(src + 4 + off) AND NOT 3 = align4 (src + 4) + off" using align4_add [of off "src + 4"] d by (simp add: align4_def)
    then show ?thesis using d sim_thumb_literal [of _ _ _ _ rt _ src off 2] by (auto simp: body_simulates_def lit)
  next
    case adr
    note d = t16_adr [OF assms(1) [unfolded adr], of "src + 4"]
    have "src + 4 + off = align4 (src + 4) + off" using assms(3) by (simp add: adr align4_src)
    then show ?thesis using d sim_thumb_adr [of _ _ _ _ rd _ src off 2] by (auto simp: body_simulates_def adr)
  next
    case b
    note d = t16_b [OF assms(1) [unfolded b], of "src + 4"]
    then have e: "even off" "even (src + 4 + off)" using even_bit1 assms(4) by auto
    then show ?thesis using d sim_thumb_b [of _ _ _ _ "(lit_pair 15, Some (0, src + 4 + off + 1))" src off 2] assms(4) or_1_even [OF e(2)]
      by (auto simp: body_simulates_def b)
  next
    case cb
    obtain h' where d: "t1_body (src + 4) h = Some (over h' (src + 4 + off + 1))" "t16_decode h' = Some (I_cb nz r 4)" "\<not> t32_wide h'" "take_bit 1 off = 0"
      using t16_cb [OF assms(1) [unfolded cb], of "src + 4"] by blast
    have e: "even off" "even (src + 4 + off)" using even_bit1 [OF d(4)] assms(4) by auto
    then show ?thesis using d sim_thumb_cb [of _ _ _ _ h' src off nz r 2] assms(4) or_1_even [OF e(2)]
      by (auto simp: body_simulates_def cb over_def)
  next
    case mov
    obtain h' where d: "t1_body (src + 4) h = Some (lit_pair 12 @ [h'], Some (0, src + 4))" "t16_decode h' = Some (I_mov 14 rd 12)" "\<not> t32_wide h'" "c = 14"
      using t16_high_pc [of h I_mov c rd "0x4600" "src + 4"] assms(1) mov by auto
    then show ?thesis using sim_thumb_pc [of _ _ _ _ h' src I_mov rd] by (auto simp: body_simulates_def mov)
  next
    case add
    obtain h' where d: "t1_body (src + 4) h = Some (lit_pair 12 @ [h'], Some (0, src + 4))" "t16_decode h' = Some (I_addr 14 rd 12)" "\<not> t32_wide h'" "c = 14"
      using t16_high_pc [of h I_addr c rd "0x4400" "src + 4"] assms(1) add by auto
    then show ?thesis using sim_thumb_pc [of _ _ _ _ h' src I_addr rd] assms(3) by (auto simp: body_simulates_def add)
  next
    case no
    then show ?thesis using assms(1) by (auto simp: t16_decode_def Let_def split: if_splits)
  qed
qed

lemma t32_supported:
  assumes "t32_decode h1 h2 = Some i" "t32_wide h1" "thumb_supported src 4 i" "even src"
  shows "body_simulates src 4 i (t2_body (src + 4) h1 h2)"
proof -
  consider (lit) c byte rt off where "i = I_lit c byte rt off" | (b) off where "i = I_b 14 off" | (bl) c off where "i = I_bl c off"
    | (blx) off where "i = I_blx off" | (other) c load byte pre wb rt rn off where "i = I_mem c load byte pre wb rt rn off"
    using assms(1,3) by (auto simp: t32_decode_def Let_def split: if_splits)
  then show ?thesis
  proof cases
    case lit
    note d = t32_lit [OF assms(1) [unfolded lit], of "src + 4"]
    have rt: "rt < 15" "src + 4 + off = align4 (src + 4) + off" using d assms(3) by (auto simp: lit align4_src)
    then show ?thesis using d sim_thumb_ldr_wide [of _ _ _ _ rt _ src off 4] by (auto simp: body_simulates_def lit)
  next
    case b
    have d: "t2_body (src + 4) h1 h2 = ([0xf85f, 0xf000] @ addr_halves ((src + 4 + off) OR 1), None)" "even off"
      using t32_branch(1) [OF assms(1) b, of "src + 4"] even_bit1 by blast+
    then show ?thesis using sim_thumb_b [of _ _ _ _ "t2_body (src + 4) h1 h2" src off 4] assms(4) by (auto simp: body_simulates_def b)
  next
    case bl
    have d: "t2_body (src + 4) h1 h2 = call_body ((src + 4 + off) OR 1)" "even off" "c = 14"
      using t32_branch(2) [OF assms(1) bl, of "src + 4"] even_bit1 by blast+
    then show ?thesis using sim_thumb_call [of _ _ _ _ _ src off i] assms(4) by (auto simp: body_simulates_def bl call_body_def)
  next
    case blx
    have d: "t2_body (src + 4) h1 h2 = call_body (align4 (src + 4) + off)" "take_bit 2 off = 0"
      using t32_blx [OF assms(1) [unfolded blx], of "src + 4"] assms(3) by (auto simp: blx)
    have "even off" using d(2) by (metis even_take_bit_eq even_zero zero_neq_numeral)
    then show ?thesis using d sim_thumb_call [of _ _ _ _ _ src off i] assms(4) by (auto simp: body_simulates_def blx call_body_def)
  next
    case other
    then show ?thesis using t32_mem [OF assms(1) [unfolded other], of "src + 4"] assms body_copy [of h1 i 4 "[h1, h2]" h2 src] by simp
  qed
qed

subsection \<open>The whole relocation\<close>

lemma thumb_bind:
  assumes "\<forall>b \<in> set bs. lit_ok 4 4 b"
  shows "RelocBind thumb_link_confused_instructions (foldl put_thumb (AssemblerBase 0) bs) =
    RelocBind thumb_patch (foldl put_thumb (AssemblerBase 0) bs)"
proof -
  let ?a = "foldl put_thumb (AssemblerBase 0) bs"
  have base: "data_labels (AssemblerBase 0) = []" "label_heap (AssemblerBase 0) = []" by (simp_all add: AssemblerBase_def)
  have d: "data_labels ?a = [0..<length (label_heap ?a)]" using put_blocks_data [of "AssemblerBase 0"] base by simp
  have "thumb_link_confused_instructions (bind_to (label_heap ?a ! l) p) b = thumb_patch (bind_to (label_heap ?a ! l) p) b"
    if l: "l < length (label_heap ?a)" for l p b
  proof -
    have "label_heap ?a ! l \<in> set (block_labels kThumb2LiteralLdr (length (asm_buffer (AssemblerBase 0))) bs)"
      using nth_mem [OF l] base(2) by (simp add: put_blocks)
    then obtain p' v where "label_heap ?a ! l = linked_label kThumb2LiteralLdr p' v" using block_labels_in by fastforce
    then show ?thesis by (simp add: thumb_link_confused_instructions_def bind_to_def linked_label_simps)
  qed
  then show ?thesis unfolding RelocBind_def by (intro bind_loop_cong) (simp_all add: d)
qed

lemma relocate_remain_thumb:
  "relocate_remain ThumbExecuteState ctx a = Some (ctx', a') \<Longrightarrow> set (c_changed ctx) \<subseteq> set (c_changed ctx') \<and>
     (c_changed ctx' = [] \<longrightarrow> gen_thumb_relocate_code ctx a = Some (ctx', a'))"
proof (induction ThumbExecuteState ctx a rule: relocate_remain.induct)
  case (1 ctx a)
  obtain c1 a1 where g: "gen_thumb_relocate_code ctx a = Some (c1, a1)"
    using "1.prems" by (auto simp: relocate_remain.simps [of _ ctx a] gen_relocate_code_def split: option.splits)
  then have g': "gen_relocate_code ThumbExecuteState ctx a = Some (c1, a1)" by (simp add: gen_relocate_code_def)
  note ch = gen_thumb_changed [OF g]
  show ?case
  proof (cases "c_cursor c1 < c_size c1")
    case False
    then show ?thesis using "1.prems" g ch by (auto simp: relocate_remain.simps [of _ ctx a] g')
  next
    case True
    then have "set (c_changed c1) \<subseteq> set (c_changed ctx')"
      using "1.hyps" [OF g' refl True] "1.prems" by (auto simp: relocate_remain.simps [of _ ctx a] g')
    then show ?thesis using ch True by auto
  qed
qed

definition aligner :: "nat \<Rightarrow> u16 list" where
  "aligner p = (if p mod 4 \<noteq> 0 then [0xbf00] else [])"

definition thumb_tail :: "nat \<Rightarrow> u32 \<Rightarrow> lit_block" where
  "thumb_tail p v = (halves_of (aligner p @ [0xf85f, 0xf000] @ addr_halves v), None)"

lemma thumb_branch_tail:
  assumes "realized_addr a = 0"
  shows "relocate_branch ThumbExecuteState v a = Some (put_thumb a (thumb_tail (length (asm_buffer a)) (v + 1)))"
proof -
  have "AlignThumbNop a = emit_halves a (aligner (length (asm_buffer a)))"
    using word_mod_4 [of "length (asm_buffer a)"] assms
    by (auto simp: AlignThumbNop_def aligner_def Thumb2_INST_LEN_def GetBufferSize_def t1_nop_def EmitInt16_halves emit_halves_def)
  moreover have "t2_ldr x PC (MemOperand32 PC 0) = emit_halves x [0xf85f, 0xf000]" for x
    using t2_ldr_halves(1) [of x 15] by (simp add: PC_def)
  ultimately show ?thesis
    by (simp add: relocate_branch_def thumb_EmitAddress_halves THUMB_ADDRESS_FLAG_def thumb_tail_def del: halves_of_simps flip: emit_halves_none)
qed

lemma thumb_item_2_dvd: "thumb_item bytes src c p = Some (n, b) \<Longrightarrow> 2 dvd length (fst b)"
  by (auto simp: thumb_item_def body_block_def Let_def bind_eq_Some_conv split: if_splits)

lemma thumb_relocated:
  assumes "GenRelocateCode32 ThumbExecuteState bytes n org br = Some (ctx', m, a)" "c_changed ctx' = []"
  shows "\<exists>rest. 2 dvd rest \<and> m = c_cursor ctx' \<and> n \<le> m \<and>
     (0 < n \<longrightarrow> (0, 0) \<in> set (c_offsets ctx')) \<and>
     (\<forall>(c, p) \<in> set (c_offsets ctx'). 2 dvd p \<and> c < n \<and> (\<exists>k b. thumb_item bytes org c p = Some (k, b) \<and>
          thumb_placed (asm_buffer a) p (fix_lit (c_offsets ctx') b) \<and>
          (if c + k < n then (c + k, p + length (fst b)) \<in> set (c_offsets ctx') else p + length (fst b) = rest \<and> c + k = m))) \<and>
     (br \<longrightarrow> thumb_placed (asm_buffer a) rest (thumb_tail rest (org + word_of_nat m + 1)))"
proof -
  let ?ctx = "ctx32 bytes n org"
  obtain a1 a2 where r: "relocate_remain ThumbExecuteState ?ctx (AssemblerBase 0) = Some (ctx', a1)" "m = c_cursor ctx'"
    "(if br then relocate_branch ThumbExecuteState (org + word_of_nat m) a1 else Some a1) = Some a2"
    "RelocBind thumb_link_confused_instructions (RelocLabelFixup (c_offsets ctx') (data_labels a2) a2) = Some a"
    using assms by (auto simp: GenRelocateCode32_def ctx32_def Let_def bind_eq_Some_conv link_of_def)
  have g: "gen_thumb_relocate_code ?ctx (AssemblerBase 0) = Some (ctx', a1)" using relocate_remain_thumb [OF r(1)] assms(2) by blast
  define tail where "tail = (if br then [thumb_tail (length (asm_buffer a1)) (org + word_of_nat m + 1)] else [])"
  have "realized_addr a1 = 0" using thumb_relocator.loop_realized [OF g assms(2)] by (simp add: AssemblerBase_def)
  then have a2: "a2 = foldl put_thumb a1 tail"
    using r(3) thumb_branch_tail [of a1 "org + word_of_nat m"] by (simp add: tail_def split: if_splits)
  have t: "\<forall>b \<in> set tail. snd b = None" by (simp add: tail_def thumb_tail_def)
  have c: "c_cursor ?ctx = 0" "c_offsets ?ctx = []" "c_size ?ctx = n" "c_buffer ?ctx = bytes" "c_src ?ctx = org"
    by (simp_all add: ctx32_def)
  obtain bs where bs: "\<forall>b \<in> set bs. lit_ok 4 4 b"
    "RelocLabelFixup (c_offsets ctx') (data_labels a2) a2 = foldl put_thumb (AssemblerBase 0) bs"
    using thumb_relocator.fixed_blocks [OF g assms(2) a2 t] by blast
  have bind: "RelocBind thumb_patch (RelocLabelFixup (c_offsets ctx') (data_labels a2) a2) = Some a"
    using r(4) thumb_bind [OF bs(1)] unfolding bs(2) by simp
  note R = thumb_relocator.relocated [OF g assms(2) c(1,2) a2 t bind, unfolded c(3-5)]
  let ?rest = "length (asm_buffer a1)"
  have D: "(\<forall>(c, p) \<in> set (c_offsets ctx'). 2 dvd p) \<and> 2 dvd ?rest" using R thumb_item_2_dvd by blast
  have I: "2 dvd p \<and> c < n \<and> (\<exists>k b. thumb_item bytes org c p = Some (k, b) \<and>
          thumb_placed (asm_buffer a) p (fix_lit (c_offsets ctx') b) \<and>
          (if c + k < n then (c + k, p + length (fst b)) \<in> set (c_offsets ctx') else p + length (fst b) = ?rest \<and> c + k = m))"
    if cp: "(c, p) \<in> set (c_offsets ctx')" for c p
    using R D cp r(2) by blast
  have T: "thumb_placed (asm_buffer a) ?rest (thumb_tail ?rest (org + word_of_nat m + 1))" if br
  proof -
    have "\<forall>j < length tail. thumb_placed (asm_buffer a) (?rest + block_pos tail j) (tail ! j)" using R by blast
    then show ?thesis using that by (simp add: tail_def)
  qed
  have N: "n \<le> m" "0 < n \<longrightarrow> (0, 0) \<in> set (c_offsets ctx')" using R r(2) by blast+
  show ?thesis
    by (rule exI [of _ ?rest]) (intro conjI; (use I in fast)?; use D N T r(2) in blast)
qed

lemma fix_lit_body:
  assumes "\<And>k v. snd bd = Some (k, v) \<Longrightarrow> fixup_value offs (le_bytes 4 v) = le_bytes 4 v"
  shows "fix_lit offs (body_block p bd) = body_block p bd"
  using assms by (cases "snd bd") (auto simp: fix_lit_def body_block_def)

lemma block_simulates:
  assumes "body_simulates src n i bd" "thumb_placed b p (fix_lit offs (body_block p bd))" "2 dvd p" "at_code s True A b p"
    and "n = 2 \<longrightarrow> (\<forall>v. thumb_literal_value src i = Some v \<longrightarrow> fixup_value offs (le_bytes 4 v) = le_bytes 4 v)"
  shows "simulates32 b A src (word_of_nat n) i (p + length (fst (body_block p bd))) s"
proof -
  have lits: "\<And>k v. snd bd = Some (k, v) \<Longrightarrow> Suc k < length (fst bd) \<and> n = 2 \<and> thumb_literal_value src i = Some v"
    using assms(1) by (simp add: body_simulates_def)
  have "fix_lit offs (body_block p bd) = body_block p bd" by (rule fix_lit_body) (use lits assms(5) in blast)
  then have pl: "thumb_placed b p (body_block p bd)" using assms(2) by simp
  let ?q = "p + 2 * length (pads p)"
  have B: "body_at b ?q bd" and pads: "\<And>j. j < length (pads p) \<Longrightarrow> LoadThumb1Inst b (p + 2 * j) = Some 0xbf00"
    using body_placed [OF pl assms(3)] lits by blast+
  have run: "a32_run (length (pads p)) s = Some (s\<lparr>ip := A + word_of_nat ?q\<rparr>)" by (rule run_pads [OF assms(4) pads])
  have "simulates32 b A src (word_of_nat n) i (?q + 2 * length (fst bd)) (s\<lparr>ip := A + word_of_nat ?q\<rparr>)"
    using assms(1) B at_code_ip [OF assms(4)] unfolding body_simulates_def by blast
  from simulates_after [OF run this] show ?thesis by (simp add: body_block_def algebra_simps)
qed

lemma run_thumb_tail:
  assumes "thumb_placed b p (thumb_tail p v)" "2 dvd p" "at_code s True A b p"
  shows "\<exists>j. a32_run j s = Some (bx_to v s)"
proof -
  let ?n = "length (aligner p)" and ?hs = "aligner p @ [0xf85f, 0xf000] @ addr_halves v"
  have pl: "thumb_placed b p (halves_of ?hs, None)" using assms(1) by (simp only: thumb_tail_def)
  have half: "LoadThumb1Inst b (p + 2 * j) = Some (?hs ! j)" if "j < length ?hs" for j
    by (rule thumb_half [OF pl that]) simp
  have nops: "LoadThumb1Inst b (p + 2 * j) = Some 0xbf00" if "j < ?n" for j
    using half [of j] that by (auto simp: aligner_def split: if_splits)
  have run: "a32_run ?n s = Some (s\<lparr>ip := A + word_of_nat (p + 2 * ?n)\<rparr>)" by (rule run_pads [OF assms(3) nops])
  let ?q = "p + 2 * ?n" and ?s1 = "s\<lparr>ip := A + word_of_nat (p + 2 * ?n)\<rparr>"
  have q: "4 dvd ?q" using assms(2) by (auto simp: aligner_def elim!: dvdE) presburger+
  have at: "LoadThumb1Inst b (?q + 2 * j) = Some (([0xf85f, 0xf000] @ addr_halves v) ! j)" if "j < 4" for j
    using half [of "?n + j"] that by (simp add: nth_append algebra_simps)
  have l: "LoadThumb1Inst b ?q = Some 0xf85f" "LoadThumb1Inst b (?q + 2) = Some 0xf000" "LoadARMInst b (?q + 4 + 0) = Some v"
    using at [of 0] at [of 1] at [of 2] at [of 3] by (simp, simp, intro Load_halves) (simp_all add: addr_halves_def eval_nat_numeral)
  have "t32_decode 0xf85f 0xf000 = Some (I_lit 14 False 15 (word_of_nat 0))" by (simp add: decode_thumb_fixed)
  then have "a32_step ?s1 = Some (wR 4 15 v ?s1)"
    by (rule step_inline [OF at_code_ip [OF assms(3)] q l(1,2) decode_literal_pair(2) _ l(3)])
  moreover have "bx_to v ?s1 = bx_to v s" by (simp add: bx_to_def)
  moreover have "a32_run (?n + 1) s = Option.bind (a32_run ?n s) (a32_run 1)" by (rule a32_run_add)
  ultimately have "a32_run (?n + 1) s = Some (bx_to v s)" using run by (simp add: wR_def)
  then show ?thesis by blast
qed

lemma step_thumb_tail:
  assumes "thumb_placed b p (thumb_tail p (x + 1))" "2 dvd p" "at_code s True A b p" "even x"
  shows "\<exists>j. a32_run j s = Some (s\<lparr>ip := x\<rparr>)"
proof -
  have "bx_to (x + 1) s = s\<lparr>ip := x\<rparr>"
    using bx_to_thumb [OF assms(4), of s] assms(3) by (simp add: or_1_even [OF assms(4)] at_code_def)
  then show ?thesis using run_thumb_tail [OF assms(1-3)] by simp
qed

lemma thumb_item_simulates:
  assumes "thumb_item bytes org c p = Some (n, blk)" "LoadThumb2Inst bytes c = Some w" "thumb_decode w = Some (k, i)"
    and "thumb_supported (org + word_of_nat c) k i" "even (org + word_of_nat c)"
  shows "n = k \<and> (\<exists>bd. blk = body_block p bd \<and> body_simulates (org + word_of_nat c) k i bd)"
proof -
  let ?h1 = "ucast w :: u16" and ?h2 = "ucast (drop_bit 16 w) :: u16" and ?src = "org + word_of_nat c"
  show ?thesis
  proof (cases "t32_wide ?h1")
    case True
    then have d: "k = 4" "t32_decode ?h1 ?h2 = Some i" using assms(3) by (auto simp: thumb_decode_def Let_def)
    have "n = 4" "blk = body_block p (t2_body (?src + 4) ?h1 ?h2)" using assms(1,2) True by (auto simp: thumb_item_def Let_def thumb2_wide)
    then show ?thesis using t32_supported [OF d(2) True _ assms(5)] assms(4) d(1) by blast
  next
    case False
    then have d: "k = 2" "t16_decode ?h1 = Some i" using assms(3) by (auto simp: thumb_decode_def Let_def)
    obtain bd where bd: "t1_body (?src + 4) ?h1 = Some bd" "body_simulates ?src 2 i bd"
      using t16_supported [OF d(2) False _ assms(5)] assms(4) d(1) by blast
    then have "n = 2" "blk = body_block p bd" using assms(1,2) False by (auto simp: thumb_item_def Let_def thumb2_wide)
    then show ?thesis using bd(2) d(1) by blast
  qed
qed

lemma thumb_code_simulates:
  assumes "GenRelocateCode32 ThumbExecuteState bytes n org br = Some (ctx', m, a)" "c_changed ctx' = []"
    and "(c, p) \<in> set (c_offsets ctx')" "LoadThumb2Inst bytes c = Some w" "thumb_decode w = Some (k, i)"
    and "thumb_supported (org + word_of_nat c) k i" "even (org + word_of_nat c)"
    and "k = 2 \<longrightarrow> (\<forall>v. thumb_literal_value (org + word_of_nat c) i = Some v \<longrightarrow> n \<le> unat v)" "n < 2 ^ 31"
  shows "\<exists>next. (\<forall>s A. at_code s True A (asm_buffer a) p \<longrightarrow>
        simulates32 (asm_buffer a) A (org + word_of_nat c) (word_of_nat k) i next s) \<and>
     (if c + k < n then (c + k, next) \<in> set (c_offsets ctx')
      else br \<longrightarrow> (\<forall>s A. at_code s True A (asm_buffer a) next \<longrightarrow>
        (\<exists>j. a32_run j s = Some (s\<lparr>ip := org + word_of_nat c + word_of_nat k\<rparr>))))"
proof -
  let ?src = "org + word_of_nat c" and ?b = "asm_buffer a"
  obtain rest where rest: "2 dvd rest" "br \<longrightarrow> thumb_placed ?b rest (thumb_tail rest (org + word_of_nat m + 1))"
    and P: "\<forall>(c, p) \<in> set (c_offsets ctx'). 2 dvd p \<and> c < n \<and> (\<exists>k b. thumb_item bytes org c p = Some (k, b) \<and>
          thumb_placed ?b p (fix_lit (c_offsets ctx') b) \<and>
          (if c + k < n then (c + k, p + length (fst b)) \<in> set (c_offsets ctx') else p + length (fst b) = rest \<and> c + k = m))"
    using thumb_relocated [OF assms(1,2)] by blast
  obtain k' blk where blk: "thumb_item bytes org c p = Some (k', blk)" "2 dvd p" "thumb_placed ?b p (fix_lit (c_offsets ctx') blk)"
    "if c + k' < n then (c + k', p + length (fst blk)) \<in> set (c_offsets ctx') else p + length (fst blk) = rest \<and> c + k' = m"
    using bspec [OF P assms(3)] by auto
  obtain bd where bd: "k' = k" "blk = body_block p bd" "body_simulates ?src k i bd"
    using thumb_item_simulates [OF blk(1) assms(4-7)] by blast
  have keys: "\<forall>(c, p) \<in> set (c_offsets ctx'). c < n" using P by fast
  have lit: "k = 2 \<longrightarrow> (\<forall>v. thumb_literal_value ?src i = Some v \<longrightarrow> fixup_value (c_offsets ctx') (le_bytes 4 v) = le_bytes 4 v)"
    using assms(8) fixup_value_high [OF keys _ assms(9)] by blast
  have ev: "k = 2 \<or> k = 4" using blk(1) bd(1) by (auto simp: thumb_item_def Let_def bind_eq_Some_conv split: if_splits)
  have "simulates32 ?b A ?src (word_of_nat k) i (p + length (fst blk)) s" if "at_code s True A ?b p" for s A
    using block_simulates [OF bd(3) blk(3) [unfolded bd(2)] blk(2) that lit] unfolding bd(2) .
  moreover have "\<exists>j. a32_run j s = Some (s\<lparr>ip := ?src + word_of_nat k\<rparr>)"
    if last: "\<not> c + k < n" and br and s: "at_code s True A ?b (p + length (fst blk))" for s A
  proof -
    have r: "p + length (fst blk) = rest" "m = c + k" using last blk(4) bd(1) by simp_all
    have m: "org + word_of_nat m = ?src + word_of_nat k" unfolding r(2) by simp
    have "even (?src + word_of_nat k)" using assms(7) ev by auto
    moreover have "thumb_placed ?b rest (thumb_tail rest (?src + word_of_nat k + 1))" using rest(2) that(2) m by simp
    ultimately show ?thesis using step_thumb_tail [of ?b rest _ s A] rest(1) s r(1) by simp
  qed
  ultimately show ?thesis using blk(4) bd(1) by (intro exI [of _ "p + length (fst blk)"]) auto
qed

text \<open>
  C6: Relocated Thumb code simulates the original. If the relocator succeeds and no \<^verbatim>\<open>bx pc\<close> made it expect A32 code,
  then for every instruction of the prologue that it supports, wherever the code is placed (at the word-aligned address
  \<open>A\<close>, at most 4 KiB), running the relocated code in Thumb state from the offset recorded in
  \<^verbatim>\<open>relocated_offset_map\<close>, through the aligning no-operations, has the effect of the original instruction at its
  original address (r12 excepted): same registers, flags, memory and instruction set, same absolute target of a branch;
  a call returns into the relocated code, and from there, as after an instruction that does not branch, execution goes
  on at the code of the next instruction, or behind the last one at the first instruction that was not relocated.
\<close>
theorem thumb_relocate_simulates:
  assumes "GenRelocateCode32 ThumbExecuteState bytes n org br = Some (ctx', m, a)" "c_changed ctx' = []"
    and "(c, p) \<in> set (c_offsets ctx')" "LoadThumb2Inst bytes c = Some w" "thumb_decode w = Some (k, i)"
    and "thumb_supported (org + word_of_nat c) k i" "even (org + word_of_nat c)"
    and "k = 2 \<longrightarrow> (\<forall>v. thumb_literal_value (org + word_of_nat c) i = Some v \<longrightarrow> n \<le> unat v)" "n < 2 ^ 31"
  shows "\<exists>next. (\<forall>s A. at_code s True A (asm_buffer a) p \<longrightarrow>
        simulates32 (asm_buffer a) A (org + word_of_nat c) (word_of_nat k) i next s) \<and>
     (if c + k < n then (c + k, next) \<in> set (c_offsets ctx')
      else br \<longrightarrow> (\<forall>s A. at_code s True A (asm_buffer a) next \<longrightarrow>
        (\<exists>j. a32_run j s = Some (s\<lparr>ip := org + word_of_nat c + word_of_nat k\<rparr>))))"
  by (rule thumb_code_simulates [OF assms])

text \<open>A concrete prologue at 0x1000: \<^verbatim>\<open>ldr r3, [pc, #8]; push {r4, lr}; bl .+0x100\<close>.\<close>

definition sample_thumb :: "u8 list" where
  "sample_thumb = halves_of [0x4b02, 0xb510, 0xf000, 0xf87e]"

lemma sample_thumb_relocates:
  "case GenRelocateCode32 ThumbExecuteState sample_thumb 8 0x1000 True of None \<Rightarrow> False
   | Some (ctx', m, a) \<Rightarrow> c_changed ctx' = [] \<and> m = 8 \<and> set (c_offsets ctx') = {(0, 0), (2, 12), (4, 18)} \<and> length (asm_buffer a) = 48"
  by code_simp

theorem thumb_relocate_simulates_witness:
  "\<exists>ctx' m a next. GenRelocateCode32 ThumbExecuteState sample_thumb 8 0x1000 True = Some (ctx', m, a) \<and>
     (\<forall>s A. at_code s True A (asm_buffer a) 0 \<longrightarrow> simulates32 (asm_buffer a) A 0x1000 2 (I_lit 14 False 3 8) next s) \<and>
     (2, next) \<in> set (c_offsets ctx')"
proof -
  obtain ctx' m a where r: "GenRelocateCode32 ThumbExecuteState sample_thumb 8 0x1000 True = Some (ctx', m, a)" "c_changed ctx' = []"
    "(0, 0) \<in> set (c_offsets ctx')"
    using sample_thumb_relocates by (auto split: option.splits)
  have c: "LoadThumb2Inst sample_thumb 0 = Some 0xb5104b02" "thumb_decode 0xb5104b02 = Some (2, I_lit 14 False 3 8)"
    "thumb_supported (0x1000 + word_of_nat 0) 2 (I_lit 14 False 3 8)" "align4 (0x1000 + word_of_nat 0 + 4) + 8 = 0x100c"
    "unat (0x100c :: u32) = 0x100c"
    by code_simp+
  have e: "even (0x1000 + word_of_nat 0 :: u32)" by simp
  have l: "2 = 2 \<longrightarrow> (\<forall>v. thumb_literal_value (0x1000 + word_of_nat 0) (I_lit 14 False 3 8) = Some v \<longrightarrow> 8 \<le> unat v)"
    using c(4,5) by simp
  have n: "(8 :: nat) < 2 ^ 31" "(0 :: nat) + 2 < 8" by simp_all
  note T = thumb_relocate_simulates [OF r c(1-3) e l n(1), unfolded if_P [OF n(2)]]
  have z: "(0x1000 :: u32) + word_of_nat 0 = 0x1000" "(word_of_nat 2 :: u32) = 2" "(0 :: nat) + 2 = 2" by simp_all
  from T [unfolded z] r(1) show ?thesis by blast
qed

subsection \<open>Conditional branches\<close>

text \<open>
  C35: Conditional Thumb branches are not relocated correctly. For a \<^verbatim>\<open>B<cond>\<close> of 16 bits the relocated code starts, behind
  the alignment, with a halfword whose top bits are 0b1110, where a conditional branch has 0b1101. For a condition below 8 the
  processor decodes it as an unconditional branch, whatever the flags are, to a distance that depends on the condition:
  for EQ to the load of the target, so that the branch is always taken, for the others to code outside the block. For
  the other conditions it is the first half of a 32-bit instruction.
\<close>
theorem thumb_b_cond_unconditional:
  assumes "t16_decode h = Some (I_b c off)" "c \<noteq> 14"
  shows "\<exists>a' w. Thumb1RelocateSingleInsn cur h a = Some ([], a') \<and>
     LoadThumb1Inst (asm_buffer a') (length (asm_buffer (AlignThumbNop a))) = Some w \<and>
     (if c < 8 then \<not> t32_wide w \<and> t16_decode w = Some (I_b 14 (sx 12 (512 * c + 4))) else t32_wide w)"
proof -
  have d: "h AND 0xf000 = 0xd000" "c = fld32 (ucast h) 8 4" "fld32 (ucast h) 8 4 < 14"
    using assms by (auto simp: t16_decode_def Let_def ucast_masks split: if_splits)
  let ?c = "bits h 8 11" and ?a = "AlignThumbNop a"
  have c: "c = ucast ?c" using d(2) fld_ucast [of 4 8 h] by simp
  have c14: "?c < 14"
  proof -
    have "unat c < 14" using d(2,3) by (simp add: word_less_nat_alt)
    then show ?thesis using unat_ucast16 [of ?c] by (simp add: c word_less_nat_alt)
  qed
  let ?w = "set_bits 0xe000 8 11 ?c OR drop_bit 1 4 :: u16"
  have w: "if c < 8 then \<not> t32_wide ?w \<and> t16_decode ?w = Some (I_b 14 (sx 12 (512 * c + 4))) else t32_wide ?w"
  proof -
    have "\<forall>k \<in> set [0..<14]. if (word_of_nat k :: u32) < 8
        then \<not> t32_wide (set_bits 0xe000 8 11 (word_of_nat k) OR drop_bit 1 4) \<and>
          t16_decode (set_bits 0xe000 8 11 (word_of_nat k) OR drop_bit 1 4) = Some (I_b 14 (sx 12 (512 * word_of_nat k + 4)))
        else t32_wide (set_bits 0xe000 8 11 (word_of_nat k) OR drop_bit 1 4)"
      by code_simp
    moreover have "unat ?c \<in> set [0..<14]" using c14 by (simp add: word_less_nat_alt)
    moreover have "word_of_nat (unat ?c) = ?c" "word_of_nat (unat ?c) = c" by (simp, simp add: c unsigned_of_nat)
    ultimately show ?thesis by metis
  qed
  have ne: "h AND 0xf800 \<noteq> 0x4800" "h AND 0xf800 \<noteq> 0xa000" "bits h 10 15 \<noteq> 17"
    using and_mask_neq [OF d(1)] by (simp_all add: bits_masks)
  have "Thumb1RelocateSingleInsn cur h a = Some ([], put_body ?a (over ?w ((cur + SignExtend32 (push_bit 1 (ucast (bits h 0 7))) 9) OR 1)))"
    using ne d(1) c14 by (simp add: Thumb1RelocateSingleInsn_def Let_def thumb1_bodies)
  moreover have "LoadThumb1Inst (asm_buffer (put_body ?a (over ?w v))) (length (asm_buffer ?a)) = Some ?w" for v
  proof -
    have "asm_buffer (put_body ?a (over ?w v)) = asm_buffer ?a @ le_bytes 2 ?w @ halves_of ([0xbf00, 0xf000, 0xb802] @ lit_pair 15)"
      by (simp add: over_def put_body_simps put_block_def)
    then show ?thesis using Load_at_end [of 2 "asm_buffer ?a" ?w] by (simp add: LoadThumb1Inst_def del: halves_of_simps)
  qed
  ultimately show ?thesis using w by blast
qed

theorem thumb_b_cond_unconditional_witness:
  "\<exists>a' w. Thumb1RelocateSingleInsn 0x1004 0xd105 (AssemblerBase 0) = Some ([], a') \<and> LoadThumb1Inst (asm_buffer a') 0 = Some w \<and>
     t16_decode w = Some (I_b 14 516)"
proof -
  have h: "t16_decode 0xd105 = Some (I_b 1 10)" by code_simp
  have "length (asm_buffer (AlignThumbNop (AssemblerBase 0))) = 0" "sx 12 (512 * 1 + 4) = 516" by code_simp+
  then show ?thesis using thumb_b_cond_unconditional [OF h, of "0x1004" "AssemblerBase 0"] by auto
qed

text \<open>The code for \<^verbatim>\<open>ADR.W\<close> branches to the word that holds the address, which is then executed.\<close>

lemma thumb_adr_w_runs_its_literal:
  assumes "thumb2_adr_target (src + 4) h1 h2 = Some (rd, v)" "h1 AND 0xf800 \<noteq> 0xf000 \<or> h2 AND 0x8000 = 0" "rd < 15"
    and "at_code s True A b q" "body_at b q (t2_body (src + 4) h1 h2)"
  shows "\<exists>t. a32_run 2 s = Some t \<and> rg t rd = v \<and> ip t = A + word_of_nat (q + 8) \<and> LoadARMInst b (q + 8) = Some v"
proof -
  let ?bd = "([0xf8df, push_bit 12 (word_of_nat rd) OR 4, 0xf000, 0xb800] @ addr_halves v, None)"
  have "t2_body (src + 4) h1 h2 = ?bd" using assms(1,2) by (auto simp: t2_body_def Let_def)
  then have B: "body_at b q ?bd" using assms(5) by simp
  have h: "LoadThumb1Inst b q = Some 0xf8df" "LoadThumb1Inst b (q + 2) = Some (push_bit 12 (word_of_nat rd) OR 4)"
    "LoadThumb1Inst b (q + 4) = Some 0xf000" "LoadThumb1Inst b (q + 4 + 2) = Some 0xb800"
    using body_half [OF B, of 0] body_half [OF B, of 1] body_half [OF B, of 2] body_half [OF B, of 3] by (simp_all add: ac_simps)
  have l: "LoadARMInst b (q + 4 + 4) = Some v" using body_address [OF B] by (simp add: eval_nat_numeral)
  have "\<forall>r \<in> set [0..<15]. t32_decode 0xf8df (push_bit 12 (word_of_nat r) OR 4) = Some (I_lit 14 False r (word_of_nat 4))" by code_simp
  then have d: "t32_decode 0xf8df (push_bit 12 (word_of_nat rd) OR 4) = Some (I_lit 14 False rd (word_of_nat 4))" using assms(3) by simp
  have b0: "t32_decode 0xf000 0xb800 = Some (I_b 14 0)" by code_simp
  let ?s1 = "skip 4 (setR rd v s)"
  have "a32_step s = Some (wR 4 rd v s)" by (rule step_inline [OF assms(4) body_even [OF B] h(1,2) decode_literal_pair(1) d l])
  then have "a32_step s = Some ?s1" using assms(3) by (simp add: wR_def)
  moreover have "at_code ?s1 True A b (q + 4)" using at_code_next [OF assms(4), of 4 rd v] by simp
  then have "a32_step ?s1 = Some (?s1\<lparr>ip := A + word_of_nat (q + 8)\<rparr>)"
    using thumb_step32 [OF _ h(3,4) decode_thumb_fixed(1) b0] assms(4) by (simp add: pc_value_def at_code_def add.assoc)
  ultimately show ?thesis using l by (simp add: numeral_2_eq_2 add.commute)
qed

subsection \<open>Trampolines\<close>

lemma Copy_whole: "Copy b = b"
  by (simp add: Copy_def EmitBuffer_def GetBufferSize_def GetBuffer_def)

lemma even_clear: "even (x :: u32) \<Longrightarrow> x AND NOT 1 = x"
proof (rule bit_word_eqI)
  fix k assume x: "even x" and "k < LENGTH(32)"
  moreover have "\<not> bit x 0" using x by (simp add: bit_0)
  ultimately show "bit (x AND NOT 1) k = bit x k"
    by (cases "k = 0") (auto simp: bit_and_iff bit_not_iff bit_1_iff simp del: bit_0)
qed

lemma odd_clear: "odd (x :: u32) \<Longrightarrow> x AND NOT 1 = x - 1" "odd (x :: u32) \<Longrightarrow> even (x - 1)"
proof -
  assume "odd x"
  then show e: "even (x - 1)" by simp
  have "x = (x - 1) OR 1" using or_1_even [OF e] by simp
  then show "x AND NOT 1 = x - 1" using or_1_clear [OF e] by metis
qed

lemma even_not_4:
  assumes "even (x :: u32)" "x mod 4 \<noteq> 0"
  shows "take_bit 2 (x - 2) = 0"
proof -
  have x: "x = word_of_nat (unat x)" by simp
  have "even (unat x)"
  proof (rule ccontr)
    assume "odd (unat x)"
    then obtain m where "unat x = 2 * m + 1" by (elim oddE)
    then have "x = 2 * word_of_nat m + 1" using x by simp
    then show False using assms(1) by simp
  qed
  moreover have "unat x mod 4 \<noteq> 0" using word_mod_4 [of "unat x"] assms(2) by simp
  ultimately have "unat x mod 4 = 2" by presburger
  then obtain m where m: "unat x = 4 * m + 2" by (metis mult_div_mod_eq)
  have "x - 2 = word_of_nat (4 * m)" by (subst x, subst m) simp
  then show ?thesis using take_bit_4_dvd [of "4 * m"] by simp
qed

lemma trampoline32_runs:
  assumes "even func \<longrightarrow> take_bit 2 func = 0"
  shows "\<exists>buf. GenerateNormalTrampolineBuffer32 func target = Some buf \<and> length buf \<in> {8, 10} \<and>
     (\<forall>s. in_ram s (func AND NOT 1) buf \<and> tb s = odd func \<and> ip s = func AND NOT 1 \<longrightarrow> (\<exists>j. a32_run j s = Some (bx_to target s)))"
proof (cases "even func")
  case True
  have f: "func AND NOT 1 = func" by (rule even_clear [OF True])
  let ?b = "words_of [0xE51FF004, target]"
  have "func mod 2 = 0" using True by (simp add: mod2_eq_if)
  then have "GenerateNormalTrampolineBuffer32 func target = Some ?b"
    by (simp add: GenerateNormalTrampolineBuffer32_def generate_arm_trampoline_def arm_branch_tail put_block_def AssemblerBase_def Copy_whole del: words_of_simps)
  moreover have "a32_run 1 s = Some (bx_to target s)" if s: "in_ram s func ?b" "\<not> tb s" "ip s = func" for s
  proof -
    have "at_code s False func ?b 0" using s assms True by (simp add: at_code_def del: words_of_simps)
    moreover have "arm_placed ?b 0 (?b, None)" by (simp add: placed_block_def del: words_of_simps)
    ultimately show ?thesis using step_pc_literal [of ?b 0 target s func] by simp
  qed
  ultimately show ?thesis using True f by (intro exI [of _ ?b]) (auto simp del: words_of_simps a32_run.simps)
next
  case False
  let ?f = "func - 1"
  have f: "func AND NOT 1 = ?f" "even ?f" using odd_clear [of func] False by simp_all
  define al where "al = (if ?f mod 4 \<noteq> 0 then [0xbf00 :: u16] else [])"
  let ?hs = "al @ [0xf85f, 0xf000] @ addr_halves target" and ?A = "?f"
  have cc: "ucast (ucast x :: u64) = x" for x :: u32 by (rule bit_word_eqI) (auto simp: bit_simps)
  have "func mod 2 \<noteq> 0" using False by (simp add: mod2_eq_if)
  moreover have "AlignThumbNop (AssemblerBase (ucast ?f)) = emit_halves (AssemblerBase (ucast ?f)) al"
    by (auto simp: cc AlignThumbNop_def al_def AssemblerBase_def Thumb2_INST_LEN_def GetBufferSize_def t1_nop_def EmitInt16_halves emit_halves_def)
  moreover have "t2_ldr x PC (MemOperand32 PC 0) = emit_halves x [0xf85f, 0xf000]" for x
    using t2_ldr_halves(1) [of x 15] by (simp add: PC_def)
  ultimately have gen: "GenerateNormalTrampolineBuffer32 func target = Some (halves_of ?hs)"
    by (simp add: GenerateNormalTrampolineBuffer32_def generate_thumb_trampoline_def THUMB_ADDRESS_FLAG_def thumb_EmitAddress_halves
        Copy_whole del: halves_of_simps) (simp add: emit_halves_def AssemblerBase_def)
  have len: "length (halves_of ?hs) \<in> {8, 10}" "length (halves_of ?hs) \<le> 4094" by (simp_all add: al_def)
  have "\<exists>j. a32_run j s = Some (bx_to target s)" if s: "in_ram s ?f (halves_of ?hs)" "tb s" "ip s = ?f" for s
  proof -
    have tail: "fst (thumb_tail p target) = halves_of ?hs" if "p mod 4 \<noteq> 0 \<longleftrightarrow> ?f mod 4 \<noteq> 0" for p
      using that by (simp add: thumb_tail_def aligner_def al_def del: halves_of_simps)
    show ?thesis
    proof (cases "?f mod 4 = 0")
      case True
      have "take_bit 2 ?f = 0" using True by (simp add: take_bit_eq_mod)
      then have "at_code s True ?f (halves_of ?hs) 0" using s len by (simp add: at_code_def del: halves_of_simps length_halves_of)
      moreover have "thumb_placed (halves_of ?hs) 0 (thumb_tail 0 target)"
        using tail [of 0] True by (simp add: placed_block_def thumb_tail_def del: halves_of_simps length_halves_of)
      ultimately show ?thesis using run_thumb_tail by blast
    next
      case False
      let ?A = "?f - 2"
      define b where "b = [ram s ?A, ram s (?A + 1)] @ halves_of ?hs"
      have A: "take_bit 2 ?A = 0" by (rule even_not_4 [OF f(2) False])
      have "in_ram s ?A b" unfolding in_ram_def
      proof (intro allI impI)
        fix i assume i: "i < length b"
        consider "i = 0" | "i = 1" | j where "i = j + 2" by (metis One_nat_def add_2_eq_Suc' not0_implies_Suc)
        then show "ram s (?A + word_of_nat i) = b ! i"
        proof cases
          case 3
          have "ram s (?f + word_of_nat j) = halves_of ?hs ! j"
            using s(1) i 3 unfolding in_ram_def by (simp add: b_def del: halves_of_simps length_halves_of)
          then show ?thesis by (simp add: b_def 3 algebra_simps del: halves_of_simps)
        qed (simp_all add: b_def del: halves_of_simps)
      qed
      then have "at_code s True ?A b 2" using s len A by (simp add: at_code_def b_def del: halves_of_simps length_halves_of)
      moreover have "thumb_placed b 2 (thumb_tail 2 target)"
        using tail [of 2] False by (simp add: placed_block_def thumb_tail_def b_def del: halves_of_simps length_halves_of)
      ultimately show ?thesis using run_thumb_tail by fastforce
    qed
  qed
  then show ?thesis using False f gen len by (intro exI [of _ "halves_of ?hs"]) (auto simp del: halves_of_simps length_halves_of)
qed

text \<open>
  C19: The 32-bit trampoline works in both instruction sets. Written to the function, whose lowest address bit tells the
  instruction set (A32 code is word-aligned), code of at most ten bytes reaches the target, in the instruction set that the lowest bit of the
  target asks for, and changes no register, flag or memory.
\<close>
theorem trampoline32_jumps:
  assumes "even func \<longrightarrow> take_bit 2 func = 0"
  shows "\<exists>buf. GenerateNormalTrampolineBuffer32 func target = Some buf \<and> length buf \<le> 10 \<and>
     (\<forall>s. in_ram s (func AND NOT 1) buf \<and> tb s = odd func \<and> ip s = func AND NOT 1 \<longrightarrow> (\<exists>j. a32_run j s = Some (bx_to target s)))"
  using trampoline32_runs [OF assms, of target] by fastforce

theorem trampoline32_jumps_witness:
  "\<exists>buf. GenerateNormalTrampolineBuffer32 0x1003 0x2001 = Some buf \<and>
     (\<forall>s. in_ram s 0x1002 buf \<and> tb s \<and> ip s = 0x1002 \<longrightarrow> (\<exists>j. a32_run j s = Some (s\<lparr>ip := 0x2000, tb := True\<rparr>)))"
proof -
  have "(0x1003 :: u32) AND NOT 1 = 0x1002" "odd (0x1003 :: u32)" "even (0x2000 :: u32)" by simp_all
  then show ?thesis using trampoline32_jumps [of "0x1003" "0x2001"] bx_to_thumb [of "0x2000"] by auto
qed

end
