(* ===== verification/Arm32_Hook.thy ===== *)
theory Arm32_Hook
  imports Interceptor Thumb_Reloc_Sim
begin

text \<open>
  The public operations on 32-bit ARM, the architecture the application is built for: what the sections of
  \<^verbatim>\<open>TARGET_ARCH_ARM\<close> in \<^verbatim>\<open>InterceptEntry.cpp\<close>, \<^verbatim>\<open>InterceptRouting.cpp\<close>, \<^verbatim>\<open>FunctionInlineHookRouting\<close> and
  \<^verbatim>\<open>dobby.cpp\<close> add, over the relocator and the trampolines of this back end. The lowest bit of the address of a function
  tells its instruction set. The process is that of \<open>Process_Memory\<close>, with addresses below \<open>2 ^ 32\<close>.
\<close>

subsection \<open>Entries\<close>

definition is_thumb_addr :: "addr \<Rightarrow> bool" where
  "is_thumb_addr a \<longleftrightarrow> a mod 2 \<noteq> 0"

text \<open>The constructor sets \<^verbatim>\<open>thumb_mode\<close> for an odd address and leaves it uninitialised for an even one.\<close>

definition InterceptEntry_arm :: "InterceptEntry \<Rightarrow> InterceptEntryType \<Rightarrow> addr \<Rightarrow> InterceptEntry list \<Rightarrow> InterceptEntry" where
  "InterceptEntry_arm fresh ty address es =
     (let e = fresh\<lparr>entry_type := ty\<rparr>;
          (e, address) = (if is_thumb_addr address then (e\<lparr>thumb_mode := True\<rparr>, address - 1) else (e, address))
      in e\<lparr>patched_addr := address, entry_id := of_nat (count_entries es)\<rparr>)"

subsection \<open>Relocating a prologue in place\<close>

text \<open>
  The bytes that can be read from an address on, at most \<open>n\<close>. The Thumb loop reads four bytes at each instruction, so up to two
  behind the prologue.
\<close>

definition readable :: "addr \<Rightarrow> nat \<Rightarrow> process \<Rightarrow> u8 list" where
  "readable a n p = map (\<lambda>i. memory p (a + of_nat i)) (takeWhile (\<lambda>i. has_prot PROT_READ p (a + of_nat i)) [0..<n])"

text \<open>\<open>Fatal\<close> stands for an abort and for a read of an inaccessible byte.\<close>

definition GenRelocateCode_arm ::
    "kernel \<Rightarrow> addr \<Rightarrow> MemBlock \<Rightarrow> MemBlock \<Rightarrow> bool \<Rightarrow> machine \<Rightarrow> crash + (MemBlock \<times> MemBlock \<times> machine)" where
  "GenRelocateCode_arm k buffer origin relocated branch m =
     (let st = (if is_thumb_addr buffer then ThumbExecuteState else ARMExecuteState);
          buffer = (if is_thumb_addr buffer then buffer - 1 else buffer);
          n = unat (mr_size origin)
      in case GenRelocateCode32 st (readable buffer (n + 2) (proc m)) n (ucast (blk_addr origin)) branch of None \<Rightarrow> Inl Fatal
      | Some (_, new_origin_len, a) \<Rightarrow>
          let origin = MemBlock_reset origin (blk_addr origin) (of_nat new_origin_len) in
          bind_res (allocateExecMemory k (of_nat (GetBufferSize (asm_buffer a))) m) (\<lambda>(relocated_mem, m1).
          if relocated_mem = 0 then Inr (origin, relocated, m1)
          else bind_res (FinalizeFromTurboAssembler k (SetRealizedAddress a relocated_mem) m1) (\<lambda>(block, _, m2).
            let relocated = MemBlock_reset relocated (blk_addr block) (mr_size block);
                relocated = (if st = ThumbExecuteState
                  then MemBlock_reset relocated (blk_addr relocated + ucast THUMB_ADDRESS_FLAG) (mr_size relocated) else relocated)
            in Inr (origin, relocated, m2))))"

definition GenRelocateCodeAndBranch_arm ::
    "kernel \<Rightarrow> addr \<Rightarrow> MemBlock \<Rightarrow> MemBlock \<Rightarrow> machine \<Rightarrow> crash + (MemBlock \<times> MemBlock \<times> machine)" where
  "GenRelocateCodeAndBranch_arm k buffer origin relocated m = GenRelocateCode_arm k buffer origin relocated True m"

subsection \<open>Routing\<close>

text \<open>This back end has no near trampolines: the plugin reports failure and the buffer stays unset.\<close>

definition GenerateNearTrampolineBuffer_arm :: "addr \<Rightarrow> addr \<Rightarrow> code_buffer option" where
  "GenerateNearTrampolineBuffer_arm src dst = None"

definition GenerateTrampolineBuffer_arm :: "bool \<Rightarrow> addr \<Rightarrow> addr \<Rightarrow> InterceptRouting \<Rightarrow> InterceptRouting" where
  "GenerateTrampolineBuffer_arm near src dst r =
     (let r' = (if near then (case GenerateNearTrampolineBuffer_arm src dst of None \<Rightarrow> r | Some b \<Rightarrow> r\<lparr>trampoline_buffer := Some b\<rparr>)
                else r)
      in case trampoline_buffer r' of
           None \<Rightarrow> r'\<lparr>trampoline_buffer := GenerateNormalTrampolineBuffer32 (ucast src) (ucast dst)\<rparr>
         | Some _ \<Rightarrow> r')"

definition GenerateRelocatedCode_arm ::
    "kernel \<Rightarrow> InterceptEntry \<Rightarrow> InterceptRouting \<Rightarrow> machine \<Rightarrow> crash + (bool \<times> InterceptEntry \<times> InterceptRouting \<times> machine)" where
  "GenerateRelocatedCode_arm k e r m =
     (case trampoline_buffer r of None \<Rightarrow> Inl NullDeref
      | Some buf \<Rightarrow>
          let tramp_size = of_nat (GetBufferSize buf) :: u32;
              origin = MemBlock (patched_addr e) (ucast tramp_size);
              relocated = MemBlock 0 0;
              buffer = (if thumb_mode e then patched_addr e + 1 else patched_addr e) in
          bind_res (GenRelocateCodeAndBranch_arm k buffer origin relocated m) (\<lambda>(origin, relocated, m1).
            let r1 = r\<lparr>origin_block := Some origin, relocated_block := Some relocated\<rparr> in
            if mr_size relocated = 0 then Inr (False, e, r1, m1)
            else bind_res (read_mem (blk_addr origin) (unat (mr_size origin)) (proc m1)) (\<lambda>bytes.
              if 256 < length bytes then Inl Segv
              else Inr (True, e\<lparr>relocated_addr := blk_addr relocated,
                       origin_insns := bytes @ drop (length bytes) (origin_insns e),
                       origin_insn_size := ucast (mr_size origin)\<rparr>, r1, m1))))"

definition hook_BuildRouting_arm :: "bool \<Rightarrow> InterceptEntry \<Rightarrow> InterceptRouting \<Rightarrow> InterceptRouting" where
  "hook_BuildRouting_arm near e r =
     (let r1 = r\<lparr>trampoline_target := replace_func (kind_of r)\<rparr>;
          from = (if thumb_mode e then patched_addr e + 1 else patched_addr e); to = trampoline_target r1
      in GenerateTrampolineBuffer_arm near from to r1)"

definition hook_DispatchRouting_arm ::
    "kernel \<Rightarrow> bool \<Rightarrow> InterceptEntry \<Rightarrow> InterceptRouting \<Rightarrow> machine \<Rightarrow> crash + (InterceptEntry \<times> InterceptRouting \<times> machine)" where
  "hook_DispatchRouting_arm k near e r m =
     bind_res (GenerateRelocatedCode_arm k e (hook_BuildRouting_arm near e r) m) (\<lambda>(_, e', r', m'). Inr (e', r', m'))"

subsection \<open>Hooks and their removal\<close>

text \<open>The address is looked up as it was given, with its instruction-set bit; entries hold it without.\<close>

definition DobbyHook_arm :: "host \<Rightarrow> addr \<Rightarrow> addr \<Rightarrow> dobby \<Rightarrow> crash + (int \<times> addr option \<times> dobby)" where
  "DobbyHook_arm h address replace d =
     (if address = 0 then Inr (-1, None, d)
      else let (ok, m0) = set_page_executable address (dm d); d0 = d\<lparr>dm := m0\<rparr> in
      if \<not> ok then Inr (-1, None, d0)
      else case find_entry (entries d0) address of Some _ \<Rightarrow> Inr (-1, None, d0)
      | None \<Rightarrow>
          let e = InterceptEntry_arm (h_fresh h) kFunctionInlineHook address (entries d0);
              r = InterceptRouting (FunctionInlineHookRouting replace) in
          bind_res (hook_DispatchRouting_arm (h_kernel h) (near_branch_trampoline d0) e r m0) (\<lambda>(e1, r1, m1).
          bind_res (Commit e1 r1 m1) (\<lambda>m2.
            Inr (0, Some (relocated_addr e1),
              d0\<lparr>dm := m2, entries := add_entry (e1\<lparr>entry_routing := Some r1\<rparr>) (entries d0)\<rparr>))))"

definition DobbyDestroy_arm :: "addr \<Rightarrow> dobby \<Rightarrow> crash + (int \<times> dobby)" where
  "DobbyDestroy_arm address d =
     (let address = (if is_thumb_addr address then address - 1 else address) in
      case find_entry (entries d) address of
        Some e \<Rightarrow>
          bind_res (patch_machine address (take (unat (origin_insn_size e)) (origin_insns e)) (dm d)) (\<lambda>(_, m).
            Inr (0, d\<lparr>dm := m, entries := remove_entry address (entries d)\<rparr>))
      | None \<Rightarrow> Inr (-1, d))"

subsection \<open>Addresses of 32-bit code\<close>

definition code_addr :: "addr \<Rightarrow> addr" where
  "code_addr a = (if is_thumb_addr a then a - 1 else a)"

definition state_of :: "addr \<Rightarrow> execute_state" where
  "state_of a = (if is_thumb_addr a then ThumbExecuteState else ARMExecuteState)"

text \<open>The memory of the process as the processor sees it.\<close>

definition ram32 :: "dobby \<Rightarrow> u32 \<Rightarrow> u8" where
  "ram32 d x = memory (proc (dm d)) (ucast x)"

lemma unat_low: "unat (ucast (x :: addr) :: u32) = unat x mod 2 ^ 32"
  by (simp add: unsigned_ucast_eq take_bit_eq_mod)

lemma unat_high: "unat (ucast (x :: u32) :: addr) = unat x"
proof -
  have "unat x < 2 ^ 32" using unsigned_less [of x] by simp
  then show ?thesis by (simp add: unsigned_ucast_eq take_bit_eq_mod)
qed

lemma low_add:
  assumes "unat (x :: addr) + i < 2 ^ 32"
  shows "ucast (ucast x + word_of_nat i :: u32) = x + of_nat i" "ucast (x + of_nat i) = (ucast x + word_of_nat i :: u32)"
proof -
  have x: "unat (ucast x :: u32) = unat x" "unat (word_of_nat i :: u32) = i"
    using assms by (simp_all add: unat_low unat_of_nat)
  have u: "unat (ucast x + word_of_nat i :: u32) = unat x + i"
    using assms x by (simp add: unat_word_ariths)
  have w: "unat (x + of_nat i) = unat x + i" using assms by (simp add: unat_add_addr)
  show "ucast (ucast x + word_of_nat i :: u32) = x + of_nat i"
    unfolding word_unat_eq_iff unat_high u w ..
  show "ucast (x + of_nat i) = (ucast x + word_of_nat i :: u32)"
    unfolding word_unat_eq_iff unat_low u w using assms by simp
qed

lemma thumb_addr_odd: "is_thumb_addr a \<longleftrightarrow> odd a"
  by (simp add: is_thumb_addr_def even_iff_mod_2_eq_zero)

lemma odd_low: "odd (ucast (a :: addr) :: u32) \<longleftrightarrow> is_thumb_addr a"
  by (simp add: thumb_addr_odd flip: bit_0) (simp add: bit_simps)

lemma code_addr_mod:
  "code_addr a + a mod 2 = a" "a mod 2 = (if is_thumb_addr a then 1 else 0)" "\<not> is_thumb_addr (code_addr a)"
  "unat (code_addr a) \<le> unat a"
proof -
  show m: "a mod 2 = (if is_thumb_addr a then 1 else 0)" by (simp add: thumb_addr_odd mod2_eq_if)
  then show "code_addr a + a mod 2 = a" by (simp add: code_addr_def)
  show "\<not> is_thumb_addr (code_addr a)" by (simp add: thumb_addr_odd code_addr_def)
  have "a \<noteq> 0" if "is_thumb_addr a" using that by (auto simp: thumb_addr_odd)
  then show "unat (code_addr a) \<le> unat a" by (auto simp: code_addr_def unat_minus_one)
qed

lemma low_code_addr:
  assumes "unat a < 2 ^ 32"
  shows "(ucast a :: u32) AND NOT 1 = ucast (code_addr a)"
proof (cases "is_thumb_addr a")
  case True
  then have "a = code_addr a + of_nat 1" using code_addr_mod(1,2) [of a] by simp
  moreover have "a \<noteq> 0" using True by (auto simp: thumb_addr_odd)
  then have "unat (code_addr a) + 1 < 2 ^ 32" using assms True by (simp add: code_addr_def unat_minus_one)
  ultimately have "(ucast a :: u32) = ucast (code_addr a) + 1" using low_add(2) [of "code_addr a" 1] by simp
  then show ?thesis using odd_clear(1) [of "ucast a"] odd_low [of a] True by simp
next
  case False
  then show ?thesis using even_clear [of "ucast a"] odd_low [of a] by (simp add: code_addr_def)
qed

subsection \<open>The relocated prologue\<close>

lemma gen_arm_cursor: "gen_arm_relocate_code ctx a = Some (ctx', a') \<Longrightarrow> c_cursor ctx' \<le> max (c_cursor ctx) (c_size ctx + 3)"
proof (induction ctx a rule: gen_arm_relocate_code.induct)
  case (1 ctx a)
  show ?case
    using 1(2)
    by (subst (asm) gen_arm_relocate_code.simps)
      (auto simp: Let_def note_offset_def ARM_INST_LEN_def split: if_splits option.splits dest!: 1(1) [rotated -1])
qed

lemma gen_thumb_cursor: "gen_thumb_relocate_code ctx a = Some (ctx', a') \<Longrightarrow> c_cursor ctx' \<le> max (c_cursor ctx) (c_size ctx + 3)"
proof (induction ctx a rule: gen_thumb_relocate_code.induct)
  case (1 ctx a)
  show ?case
    using 1(2)
    by (subst (asm) gen_thumb_relocate_code.simps)
      (auto simp: Let_def note_offset_def Thumb1_INST_LEN_def Thumb2_INST_LEN_def split: if_splits option.splits
        dest!: 1(1) [rotated -1])
qed

lemma relocate_remain_cursor:
  "relocate_remain est ctx a = Some (ctx', a') \<Longrightarrow> c_cursor ctx \<le> c_size ctx + 3 \<Longrightarrow>
     c_size ctx \<le> c_cursor ctx' \<and> c_cursor ctx' \<le> c_size ctx + 3"
proof (induction est ctx a rule: relocate_remain.induct)
  case (1 est ctx a)
  obtain ctx1 a1 where g: "gen_relocate_code est ctx a = Some (ctx1, a1)"
    using "1.prems"(1) by (subst (asm) relocate_remain.simps) (auto split: option.splits)
  have "c_cursor ctx1 \<le> max (c_cursor ctx) (c_size ctx + 3)" "c_size ctx1 = c_size ctx"
    using g gen_arm_cursor [of ctx a ctx1 a1] gen_thumb_cursor [of ctx a ctx1 a1] gen_arm_progress [of ctx a ctx1 a1]
      gen_thumb_progress [of ctx a ctx1 a1] by (auto simp: gen_relocate_code_def split: if_splits)
  then show ?case
    using "1.prems" "1.IH" [OF g refl] g
    by (cases "c_cursor ctx1 < c_size ctx1") (auto simp: relocate_remain.simps [of est ctx a])
qed

lemma reloc32_length:
  "GenRelocateCode32 est bytes n org br = Some (ctx', n', a) \<Longrightarrow> n \<le> n' \<and> n' \<le> n + 3"
  by (auto simp: GenRelocateCode32_def Let_def bind_eq_Some_conv dest!: relocate_remain_cursor)

lemma readable_prologue:
  "\<forall>i < n. has_prot PROT_READ (proc m) (a + of_nat i) \<Longrightarrow> readable a n (proc m) = prologue m a n"
  by (simp add: readable_def prologue_def takeWhile_eq_all_conv [THEN iffD2])

lemma alloc_then_finalize:
  "allocateExecBlock k (of_nat (length (asm_buffer a))) m = Inr (b, m1) \<Longrightarrow> blk_addr b \<noteq> 0 \<Longrightarrow>
     FinalizeFromTurboAssembler k (SetRealizedAddress a (blk_addr b)) m1 = FinalizeFromTurboAssembler k (SetRealizedAddress a 0) m"
  by (simp add: FinalizeFromTurboAssembler_def GetRealizedAddress_def SetRealizedAddress_def GetBufferSize_def Let_def)

subsection \<open>The effect of a hook\<close>

text \<open>The trampoline of a hook and the relocated prologue.\<close>

definition hook_code_arm :: "addr \<Rightarrow> addr \<Rightarrow> machine \<Rightarrow> (u8 list \<times> relo_ctx32 \<times> nat \<times> assembler) option" where
  "hook_code_arm a f m = (case GenerateNormalTrampolineBuffer32 (ucast a) (ucast f) of None \<Rightarrow> None
     | Some b \<Rightarrow> map_option (Pair b)
         (GenRelocateCode32 (state_of a) (prologue m (code_addr a) (length b + 2)) (length b) (ucast (code_addr a)) True))"

text \<open>
  What a hook needs of the process; \<^verbatim>\<open>thumb_mode\<close> of the fresh entry of an A32 function happens to be false. The block
  of the relocated code is word-aligned memory below \<open>2 ^ 32\<close>.
\<close>

definition hook_ready_arm :: "host \<Rightarrow> addr \<Rightarrow> dobby \<Rightarrow> bool" where
  "hook_ready_arm h a d \<longleftrightarrow> machine_ok (dm d) \<and> kernel_mmap (k_mmap (h_kernel h)) \<and> a \<noteq> 0 \<and> unat a + 16 < 2 ^ 32 \<and>
     prologue_ok (code_addr a) (dm d) \<and> find_entry (entries d) a = None \<and>
     (\<not> is_thumb_addr a \<longrightarrow> a AND 3 = 0 \<and> \<not> thumb_mode (h_fresh h))"

definition code_room_arm :: "kernel \<Rightarrow> assembler \<Rightarrow> machine \<Rightarrow> MemBlock \<Rightarrow> bool" where
  "code_room_arm k a m blk \<longleftrightarrow>
     (let n = length (asm_buffer a) in 0 < n \<and> n \<le> 4096 \<and> n \<le> unat (page_size (proc m)) \<and>
        blk_addr blk \<noteq> 0 \<and> blk_addr blk AND 3 = 0 \<and> unat (blk_addr blk) + n < 2 ^ 32 \<and>
        (case allocateExecBlock k (of_nat n) m of Inr (b, m1) \<Rightarrow> b = blk \<and> granted m1 | Inl _ \<Rightarrow> False))"

lemma mask_3: "x AND 3 = take_bit 2 x" for x :: "'a::len word"
  using take_bit_eq_mask [of 2 x] by (simp add: mask_eq_decr_exp)

lemma low_aligned: "(a :: addr) AND 3 = 0 \<Longrightarrow> take_bit 2 (ucast a :: u32) = 0"
  unfolding mask_3 by (simp add: bit_eq_iff bit_simps)

lemma hook_code_arm_parts:
  assumes "hook_code_arm a f m = Some (b, ctx', n, asm)" "\<not> is_thumb_addr a \<longrightarrow> a AND 3 = 0"
  shows "GenerateNormalTrampolineBuffer32 (ucast a) (ucast f) = Some b" "length b \<in> {8, 10}"
    "length b \<le> n" "n \<le> 13"
    "GenRelocateCode32 (state_of a) (prologue m (code_addr a) (length b + 2)) (length b) (ucast (code_addr a)) True = Some (ctx', n, asm)"
proof -
  show b: "GenerateNormalTrampolineBuffer32 (ucast a) (ucast f) = Some b"
    and r: "GenRelocateCode32 (state_of a) (prologue m (code_addr a) (length b + 2)) (length b) (ucast (code_addr a)) True = Some (ctx', n, asm)"
    using assms(1) by (auto simp: hook_code_arm_def split: option.splits)
  show l: "length b \<in> {8, 10}"
    using trampoline32_runs [of "ucast a" "ucast f"] assms(2) odd_low [of a] low_aligned [of a] b by auto
  show "length b \<le> n" "n \<le> 13" using reloc32_length [OF r] l by auto
qed

lemma mod_low: "ucast (ucast x :: u32) = x" if "unat (x :: addr) < 2 ^ 32" for x
  using low_add(1) [of x 0] that by simp

lemma relocate_prologue_arm:
  assumes m: "machine_ok m" and K: "kernel_mmap (k_mmap k)" and P: "prologue_ok (code_addr a) m"
    and A: "\<not> is_thumb_addr a \<longrightarrow> a AND 3 = 0"
    and c: "hook_code_arm a f m = Some (b, ctx', n, asm)" and room: "code_room_arm k asm m blk"
    and e: "patched_addr e = code_addr a" "thumb_mode e = is_thumb_addr a" and t: "trampoline_buffer r = Some b"
  defines "L \<equiv> length (asm_buffer asm)"
  obtains e' r' m' where "GenerateRelocatedCode_arm k e r m = Inr (True, e', r', m')"
    "patched_addr e' = code_addr a" "relocated_addr e' = blk_addr blk + a mod 2"
    "take n (origin_insns e') = prologue m (code_addr a) n" "unat (origin_insn_size e') = n" "trampoline_buffer r' = Some b"
    "\<And>i. i < L \<Longrightarrow> memory (proc m') (blk_addr blk + of_nat i) = asm_buffer asm ! i"
    "\<And>i. i < 16 \<Longrightarrow> code_addr a + of_nat i \<notin> block_cells blk" "block_cells blk = cells (blk_addr blk) (of_nat L)"
    "page_size (proc m') = page_size (proc m)"
    "\<And>x. prot_at (proc m) x \<noteq> None \<Longrightarrow> x \<notin> block_cells blk \<Longrightarrow> memory (proc m') x = memory (proc m) x"
    "\<And>i. i < 16 \<Longrightarrow> has_prot PROT_READ (proc m') (code_addr a + of_nat i)"
proof -
  let ?c = "code_addr a"
  obtain m1 where R': "0 < L" "L \<le> 4096" "L \<le> unat (page_size (proc m))" "blk_addr blk \<noteq> 0"
      "allocateExecBlock k (of_nat L) m = Inr (blk, m1)" "granted m1"
    using room by (auto simp: code_room_arm_def L_def Let_def split: sum.splits)
  note hc = hook_code_arm_parts [OF c A]
  have rd: "has_prot PROT_READ (proc m) (?c + of_nat i)" if "i < 16" for i using P that by (simp add: prologue_ok_def)
  have l: "length b + 2 \<le> 16" "unat (of_nat (length b) :: u32) = length b" "ucast (of_nat (length b) :: u32) = (of_nat (length b) :: addr)"
      "unat (of_nat (length b) :: addr) = length b"
    using hc(2) by auto
  have "n < 2 ^ 32" using hc(4) by simp
  then have n: "unat (of_nat n :: u32) = n" "ucast (of_nat n :: addr) = (of_nat n :: u32)" "unat (of_nat n :: addr) = n" "\<not> 256 < n"
    using hc(4) by (simp_all add: unat_of_nat word_unat_eq_iff unat_low)
  let ?a0 = "SetRealizedAddress asm 0"
  have a0: "GetRealizedAddress ?a0 = 0" "asm_buffer ?a0 = asm_buffer asm" by (simp_all add: GetRealizedAddress_def SetRealizedAddress_def)
  obtain m' where m': "FinalizeFromTurboAssembler k ?a0 m = Inr (MemBlock (blk_addr blk) (of_nat L), SetRealizedAddress ?a0 (blk_addr blk), m')"
    "memory (proc m') = poke (blk_addr blk) (asm_buffer asm) (memory (proc m1))" "page_size (proc m') = page_size (proc m)"
    "unat (blk_addr blk) + L < 2 ^ 64" "block_cells blk = cells (blk_addr blk) (of_nat L)" "L < 2 ^ 31"
    "\<And>x. prot_at (proc m) x \<noteq> None \<Longrightarrow> prot_at (proc m') x \<in> {prot_at (proc m) x, Some (PROT_READ OR PROT_EXEC)}"
    "\<And>x. prot_at (proc m) x \<noteq> None \<Longrightarrow> x \<notin> block_cells blk \<Longrightarrow> memory (proc m') x = memory (proc m) x"
    using Finalize_frame [OF m K a0(1), unfolded a0(2), OF R'(5,6,3) [unfolded L_def]] unfolding L_def by metis
  have nb: "?c + of_nat i \<notin> block_cells blk" if "i < 16" for i
    using exec_block_where(2) [OF m K R'(5,6)] has_prot_read [OF rd [OF that]] P that by (simp add: prologue_ok_def)
  have rd': "has_prot PROT_READ (proc m') (?c + of_nat i)" if "i < 16" for i
    using m'(7) [OF has_prot_read [OF rd [OF that]]] rd [OF that] by (auto simp: has_prot_def prot_defs)
  have P': "prologue m' ?c n = prologue m ?c n"
    using m'(8) [OF has_prot_read [OF rd] nb] hc(4) by (intro prologue_cong) simp
  let ?e = "e\<lparr>relocated_addr := blk_addr blk + a mod 2, origin_insns := prologue m ?c n @ drop n (origin_insns e), origin_insn_size := of_nat n\<rparr>"
  let ?o = "MemBlock_reset (MemBlock ?c (of_nat (length b))) ?c (of_nat n)"
  define R where "R = MemBlock_reset (MemBlock 0 0) (blk_addr blk + a mod 2) (of_nat L)"
  have buf: "(if thumb_mode e then ?c + 1 else ?c) = a" using e(2) by (simp add: code_addr_def)
  have "readable ?c (length b + 2) (proc m) = prologue m ?c (length b + 2)" using rd l(1) by (intro readable_prologue) simp
  moreover have "allocateExecMemory k (of_nat (GetBufferSize (asm_buffer asm))) m = Inr (blk_addr blk, m1)"
    using R'(5) by (simp add: allocateExecMemory_def L_def GetBufferSize_def)
  moreover have "FinalizeFromTurboAssembler k (SetRealizedAddress asm (blk_addr blk)) m1 =
      Inr (MemBlock (blk_addr blk) (of_nat L), SetRealizedAddress ?a0 (blk_addr blk), m')"
    using alloc_then_finalize [OF R'(5) [unfolded L_def] R'(4)] m'(1) by simp
  moreover have "MemBlock_reset (MemBlock_reset (MemBlock 0 0) (blk_addr blk) (of_nat L)) (blk_addr blk + 1) (of_nat L) =
      MemBlock_reset (MemBlock 0 0) (blk_addr blk + 1) (of_nat L)" by (simp add: MemBlock_reset_def MemRange_reset_def)
  ultimately have r: "GenRelocateCodeAndBranch_arm k a (MemBlock ?c (of_nat (length b))) (MemBlock 0 0) m = Inr (?o, R, m')"
    unfolding GenRelocateCodeAndBranch_arm_def GenRelocateCode_arm_def code_addr_def [symmetric] state_of_def [symmetric] Let_def
    using hc(5) R'(4) by (simp add: l(4) MemBlock_reset_simps R_def code_addr_mod(2) THUMB_ADDRESS_FLAG_def) (simp add: state_of_def)
  have R: "blk_addr R = blk_addr blk + a mod 2" "mr_size R = of_nat L" by (simp_all add: R_def MemBlock_reset_simps)
  have "read_mem ?c n (proc m') = Inr (prologue m ?c n)" using read_mem_ok [of n m' ?c] rd' hc(4) P' by simp
  moreover have "length (prologue m ?c n) = n" by (simp add: prologue_def)
  moreover have "(of_nat L :: addr) \<noteq> 0" using R'(1) m'(6) by (simp add: word_unat_eq_iff unat_of_nat)
  ultimately have "GenerateRelocatedCode_arm k e r m = Inr (True, ?e, r\<lparr>origin_block := Some ?o, relocated_block := Some R\<rparr>, m')"
    unfolding GenerateRelocatedCode_arm_def t e(1) option.case Let_def GetBufferSize_def l(3) buf r
    using n R by (simp add: MemBlock_reset_simps)
  moreover have "memory (proc m') (blk_addr blk + of_nat i) = asm_buffer asm ! i" if "i < L" for i
    using that m'(2,6) by (simp add: poke_inside L_def)
  ultimately show thesis using that e t n(1) nb rd' m'(3,5,8) by (auto simp: prologue_def)
qed

lemma entry_arm:
  "patched_addr (InterceptEntry_arm fresh ty a es) = code_addr a" "entry_type (InterceptEntry_arm fresh ty a es) = ty"
  "thumb_mode (InterceptEntry_arm fresh ty a es) = (is_thumb_addr a \<or> thumb_mode fresh)"
  by (auto simp: InterceptEntry_arm_def code_addr_def Let_def)

lemma routing_arm:
  "patched_addr e = code_addr a \<Longrightarrow> thumb_mode e = is_thumb_addr a \<Longrightarrow>
     hook_BuildRouting_arm near e (InterceptRouting (FunctionInlineHookRouting f)) =
       (InterceptRouting (FunctionInlineHookRouting f))\<lparr>trampoline_target := f,
          trampoline_buffer := GenerateNormalTrampolineBuffer32 (ucast a) (ucast f)\<rparr>"
  by (auto simp: hook_BuildRouting_arm_def GenerateTrampolineBuffer_arm_def GenerateNearTrampolineBuffer_arm_def InterceptRouting_def
      code_addr_def Let_def)

lemma hook_effect_arm:
  assumes r: "hook_ready_arm h a d" and c: "hook_code_arm a f (dm d) = Some (b, ctx', n, asm)"
    and R: "code_room_arm (h_kernel h) asm (snd (set_page_executable a (dm d))) blk"
  defines "L \<equiv> length (asm_buffer asm)"
  obtains e d' M where "DobbyHook_arm h a f d = Inr (0, Some (blk_addr blk + a mod 2), d')"
    "entries d' = add_entry e (entries d)" "patched_addr e = code_addr a"
    "take n (origin_insns e) = prologue (dm d) (code_addr a) n" "unat (origin_insn_size e) = n"
    "memory (proc (dm d')) = poke (code_addr a) b M" "\<And>i. i < L \<Longrightarrow> M (blk_addr blk + of_nat i) = asm_buffer asm ! i"
    "\<And>i. i < 16 \<Longrightarrow> code_addr a + of_nat i \<notin> block_cells blk" "block_cells blk = cells (blk_addr blk) (of_nat L)"
    "\<And>x. prot_at (proc (dm d)) x \<noteq> None \<Longrightarrow> x \<notin> block_cells blk \<Longrightarrow> M x = memory (proc (dm d)) x"
    "\<And>i. i < 16 \<Longrightarrow> prot_at (proc (dm d')) (code_addr a + of_nat i) \<noteq> None" "page_size (proc (dm d')) = page_size (proc (dm d))"
proof -
  let ?m = "dm d" and ?k = "h_kernel h" and ?c = "code_addr a" and ?r0 = "InterceptRouting (FunctionInlineHookRouting f)"
  have ok: "machine_ok ?m" and K: "kernel_mmap (k_mmap ?k)" and a: "a \<noteq> 0" and P: "prologue_ok ?c ?m"
    and reg: "find_entry (entries d) a = None" and al: "\<not> is_thumb_addr a \<longrightarrow> a AND 3 = 0"
    and fl: "\<not> is_thumb_addr a \<longrightarrow> \<not> thumb_mode (h_fresh h)"
    using r by (auto simp: hook_ready_arm_def)
  have rd: "has_prot PROT_READ (proc ?m) (?c + of_nat i)" if "i < 16" for i using P that by (simp add: prologue_ok_def)
  obtain j where j: "j < 16" "a = ?c + of_nat j"
  proof (cases "is_thumb_addr a")
    case True
    then show thesis using that [of 1] by (simp add: code_addr_def)
  next
    case False
    then show thesis using that [of 0] by (simp add: code_addr_def)
  qed
  have "a \<notin> arena_span A" if "A \<in> set (all_arenas ?m)" for A using P that j unfolding prologue_ok_def by metis
  moreover have "prot_at (proc ?m) a \<noteq> None" using has_prot_read [OF rd [OF j(1)]] j(2) by simp
  ultimately obtain m0 where m0: "set_page_executable a ?m = (True, m0)" "machine_ok m0" "memory (proc m0) = memory (proc ?m)"
    "all_arenas m0 = all_arenas ?m" "page_size (proc m0) = page_size (proc ?m)"
    "\<And>x. prot_at (proc m0) x = (if ALIGN_FLOOR x (page_size (proc ?m)) = ALIGN_FLOOR a (page_size (proc ?m)) \<and> prot_at (proc ?m) x \<noteq> None
        then Some (PROT_READ OR PROT_EXEC) else prot_at (proc ?m) x)"
    using set_page_ok [OF ok, of a] by metis
  have "has_prot PROT_READ (proc m0) (?c + of_nat i)" if "i < 16" for i
    using rd [OF that] m0(6) [of "?c + of_nat i"] has_prot_rx by (auto simp: has_prot_def split: if_splits)
  then have P0: "prologue_ok ?c m0" using P m0(4,5) by (simp add: prologue_ok_def)
  have pr: "prologue m0 = prologue ?m" using m0(3) by (simp add: prologue_def fun_eq_iff)
  have c0: "hook_code_arm a f m0 = Some (b, ctx', n, asm)" using c unfolding hook_code_arm_def pr by simp
  have R0: "code_room_arm ?k asm m0 blk" using R m0(1) by simp
  note hc = hook_code_arm_parts [OF c al]
  define e0 where "e0 = InterceptEntry_arm (h_fresh h) kFunctionInlineHook a (entries d)"
  define r1 where "r1 = hook_BuildRouting_arm (near_branch_trampoline d) e0 ?r0"
  have e0: "patched_addr e0 = ?c" "thumb_mode e0 = is_thumb_addr a" using fl by (auto simp: e0_def entry_arm)
  have r1: "trampoline_buffer r1 = Some b" using routing_arm [OF e0] hc(1) by (simp add: r1_def)
  show thesis
  proof (rule relocate_prologue_arm [OF m0(2) K P0 al c0 R0 e0 r1, folded L_def])
    fix e1 r2 m2
    assume g: "GenerateRelocatedCode_arm ?k e0 r1 m0 = Inr (True, e1, r2, m2)" "patched_addr e1 = ?c"
      "relocated_addr e1 = blk_addr blk + a mod 2" "take n (origin_insns e1) = prologue m0 ?c n" "unat (origin_insn_size e1) = n"
      "trampoline_buffer r2 = Some b" "\<And>i. i < L \<Longrightarrow> memory (proc m2) (blk_addr blk + of_nat i) = asm_buffer asm ! i"
      "\<And>i. i < 16 \<Longrightarrow> ?c + of_nat i \<notin> block_cells blk" "block_cells blk = cells (blk_addr blk) (of_nat L)"
      "page_size (proc m2) = page_size (proc m0)"
      "\<And>x. prot_at (proc m0) x \<noteq> None \<Longrightarrow> x \<notin> block_cells blk \<Longrightarrow> memory (proc m2) x = memory (proc m0) x"
      "\<And>i. i < 16 \<Longrightarrow> has_prot PROT_READ (proc m2) (?c + of_nat i)"
    have b: "length b \<le> 16" using hc(2) by auto
    then have ps: "page_size_ok (page_size (proc m2))" "unat ?c + length b < 2 ^ 64" "length b \<le> unat (page_size (proc m2))"
        "\<And>i. i < length b \<Longrightarrow> prot_at (proc m2) (?c + of_nat i) \<noteq> None"
      using has_prot_read [OF g(12)] m0(2) g(10) P0 by (simp_all add: machine_ok_def prologue_ok_def)
    obtain p where p: "Commit e1 r2 m2 = Inr (m2\<lparr>proc := p\<rparr>)" "memory p = poke ?c b (memory (proc m2))"
        "page_size p = page_size (proc m2)" "\<forall>x. prot_at (proc m2) x \<noteq> None \<longrightarrow> prot_at p x \<noteq> None"
      by (rule Commit_patches [OF ps g(2,6)]) blast
    have "hook_DispatchRouting_arm ?k (near_branch_trampoline d) e0 ?r0 m0 = Inr (e1, r2, m2)"
      using g(1) by (simp add: hook_DispatchRouting_arm_def r1_def)
    then have hk: "DobbyHook_arm h a f d = Inr (0, Some (blk_addr blk + a mod 2),
        d\<lparr>dm := m2\<lparr>proc := p\<rparr>, entries := add_entry (e1\<lparr>entry_routing := Some r2\<rparr>) (entries d)\<rparr>)"
      using a m0(1) reg g(3) p(1) by (simp add: DobbyHook_arm_def e0_def)
    have "memory (proc m2) x = memory (proc ?m) x" if "prot_at (proc ?m) x \<noteq> None" "x \<notin> block_cells blk" for x
      using g(11) [of x] that m0(3,6) by auto
    then show thesis
      using g p m0(5) pr has_prot_read [OF g(12)]
      by (intro that [OF hk, of "e1\<lparr>entry_routing := Some r2\<rparr>" "memory (proc m2)"]) auto
  qed
qed

subsection \<open>Running the memory of the process\<close>

lemma ram32_low:
  assumes "unat c + length bs \<le> 2 ^ 32" "\<And>i. i < length bs \<Longrightarrow> memory (proc (dm d)) (c + of_nat i) = bs ! i" "ram s = ram32 d"
  shows "in_ram s (ucast c) bs"
  unfolding in_ram_def assms(3) ram32_def
proof (intro allI impI)
  fix i assume "i < length bs"
  then show "memory (proc (dm d)) (ucast (ucast c + word_of_nat i :: u32)) = bs ! i"
    using low_add(1) [of c i] assms(1,2) by simp
qed

subsection \<open>Instructions of both sets\<close>

definition insn32 :: "execute_state \<Rightarrow> u8 list \<Rightarrow> nat \<Rightarrow> (nat \<times> a32_instr) option" where
  "insn32 es bytes c =
     (if es = ThumbExecuteState then Option.bind (LoadThumb2Inst bytes c) thumb_decode
      else map_option (Pair 4) (Option.bind (LoadARMInst bytes c) a32_decode))"

definition supported32 :: "execute_state \<Rightarrow> nat \<Rightarrow> u32 \<Rightarrow> nat \<Rightarrow> a32_instr \<Rightarrow> bool" where
  "supported32 es n src k i =
     (if es = ThumbExecuteState
      then thumb_supported src k i \<and> (k = 2 \<longrightarrow> (\<forall>v. thumb_literal_value src i = Some v \<longrightarrow> n \<le> unat v))
      else a32_supported i \<and> (\<forall>v. a32_literal src i = Some v \<longrightarrow> n \<le> unat v \<and> v \<noteq> - 1))"

definition offsets_dvd :: "nat \<Rightarrow> relo_ctx32 \<Rightarrow> bool" where
  "offsets_dvd w ctx \<longleftrightarrow> w dvd c_cursor ctx \<and> (\<forall>(c, p) \<in> set (c_offsets ctx). w dvd c)"

lemma offsets_dvd_next:
  "offsets_dvd w ctx \<Longrightarrow> w dvd l \<Longrightarrow> offsets_dvd w ((note_offset ctx a)\<lparr>c_changed := ch, c_cursor := c_cursor ctx + l\<rparr>)"
  "offsets_dvd w ctx \<Longrightarrow> w dvd l \<Longrightarrow> offsets_dvd w ((note_offset ctx a)\<lparr>c_cursor := c_cursor ctx + l\<rparr>)"
  by (auto simp: offsets_dvd_def note_offset_def)

lemma gen_offsets: "offsets_dvd 4 ctx \<Longrightarrow> gen_arm_relocate_code ctx a = Some (ctx', a') \<Longrightarrow> offsets_dvd 4 ctx'"
proof (induction ctx a rule: gen_arm_relocate_code.induct)
  case (1 ctx a)
  show ?case
    using 1(3)
    by (subst (asm) gen_arm_relocate_code.simps, insert 1(2))
      (auto simp: Let_def ARM_INST_LEN_def offsets_dvd_next split: if_splits option.splits dest!: 1(1) [rotated -1] simp del: add_2_eq_Suc')
qed

lemma gen_thumb_offsets: "offsets_dvd 2 ctx \<Longrightarrow> gen_thumb_relocate_code ctx a = Some (ctx', a') \<Longrightarrow> offsets_dvd 2 ctx'"
proof (induction ctx a rule: gen_thumb_relocate_code.induct)
  case (1 ctx a)
  show ?case
    using 1(3)
    by (subst (asm) gen_thumb_relocate_code.simps, insert 1(2))
      (auto simp: Let_def Thumb1_INST_LEN_def Thumb2_INST_LEN_def offsets_dvd_next split: if_splits option.splits
        dest!: 1(1) [rotated -1] simp del: add_2_eq_Suc')
qed

text \<open>The offsets of A32 instructions are multiples of 4, of Thumb instructions multiples of 2.\<close>

lemma remain_offsets:
  "offsets_dvd (if es = ThumbExecuteState then 2 else 4) ctx \<Longrightarrow> relocate_remain es ctx a = Some (ctx', a') \<Longrightarrow>
     offsets_dvd (if es = ThumbExecuteState then 2 else 4) ctx'"
proof (induction es ctx a rule: relocate_remain.induct)
  case (1 es ctx a)
  obtain ctx1 a1 where g: "gen_relocate_code es ctx a = Some (ctx1, a1)"
    using "1.prems"(2) by (subst (asm) relocate_remain.simps) (auto split: option.splits)
  have "offsets_dvd (if es = ThumbExecuteState then 2 else 4) ctx1"
    using g gen_offsets [of ctx a ctx1 a1] gen_thumb_offsets [of ctx a ctx1 a1] "1.prems"(1)
    by (auto simp: gen_relocate_code_def split: if_splits)
  then show ?case
    using "1.prems"(2) "1.IH" [OF g refl] g
    by (cases "c_cursor ctx1 < c_size ctx1") (auto simp: relocate_remain.simps [of es ctx a])
qed

lemma reloc32_offsets:
  assumes "GenRelocateCode32 es bytes n org br = Some (ctx', m, a)" "(c, p) \<in> set (c_offsets ctx')"
  shows "(if es = ThumbExecuteState then 2 else 4) dvd c"
proof -
  obtain a1 where r: "relocate_remain es (ctx32 bytes n org) (AssemblerBase 0) = Some (ctx', a1)"
    using assms(1) by (auto simp: GenRelocateCode32_def ctx32_def Let_def bind_eq_Some_conv)
  have "offsets_dvd (if es = ThumbExecuteState then 2 else 4) (ctx32 bytes n org)" by (simp add: offsets_dvd_def ctx32_def)
  from remain_offsets [OF this r] show ?thesis using assms(2) by (auto simp: offsets_dvd_def)
qed

lemma even_word:
  assumes "even c"
  shows "even (word_of_nat c :: u32)"
proof -
  obtain j where "c = 2 * j" using assms by (elim evenE)
  then show ?thesis by simp
qed

lemma code32_simulates:
  assumes "GenRelocateCode32 es bytes n org True = Some (ctx', m, a)" "c_changed ctx' = []" "(c, p) \<in> set (c_offsets ctx')"
    and "insn32 es bytes c = Some (k, i)" "supported32 es n (org + word_of_nat c) k i"
    and "if es = ThumbExecuteState then even org else take_bit 2 org = 0" "n < 2 ^ 31"
  shows "\<exists>next. (\<forall>s A. at_code s (es = ThumbExecuteState) A (asm_buffer a) p \<longrightarrow>
        simulates32 (asm_buffer a) A (org + word_of_nat c) (word_of_nat k) i next s) \<and>
     (if c + k < n then (c + k, next) \<in> set (c_offsets ctx')
      else \<forall>s A. at_code s (es = ThumbExecuteState) A (asm_buffer a) next \<longrightarrow>
        (\<exists>j. a32_run j s = Some (s\<lparr>ip := org + word_of_nat c + word_of_nat k\<rparr>)))"
proof (cases "es = ThumbExecuteState")
  case True
  then obtain w where w: "LoadThumb2Inst bytes c = Some w" "thumb_decode w = Some (k, i)"
    using assms(4) by (auto simp: insn32_def bind_eq_Some_conv)
  have "even (org + word_of_nat c)" using assms(6) True even_word reloc32_offsets [OF assms(1,3)] by simp
  moreover have "thumb_supported (org + word_of_nat c) k i"
      "k = 2 \<longrightarrow> (\<forall>v. thumb_literal_value (org + word_of_nat c) i = Some v \<longrightarrow> n \<le> unat v)"
    using assms(5) True by (simp_all add: supported32_def)
  moreover have t: "(es = ThumbExecuteState) = True" using True by simp
  ultimately show ?thesis
    using thumb_code_simulates [OF assms(1) [unfolded True] assms(2,3) w _ _ _ assms(7)] by (simp only: t simp_thms)
next
  case False
  then have e: "es = ARMExecuteState" by (cases es) auto
  obtain w where w: "LoadARMInst bytes c = Some w" "a32_decode w = Some i" "k = 4"
    using assms(4) e by (auto simp: insn32_def bind_eq_Some_conv)
  have "take_bit 2 (org + word_of_nat c) = 0"
    using assms(6) e reloc32_offsets [OF assms(1,3)] take_bit_4_dvd [of c] by (intro aligned_add) auto
  moreover have "a32_supported i" "\<forall>v. a32_literal (org + word_of_nat c) i = Some v \<longrightarrow> n \<le> unat v \<and> v \<noteq> - 1"
    using assms(5) e by (simp_all add: supported32_def)
  moreover have t: "(es = ThumbExecuteState) = False" using e by simp
  ultimately obtain q where q: "\<forall>s A. at_code s False A (asm_buffer a) p \<longrightarrow> simulates32 (asm_buffer a) A (org + word_of_nat c) 4 i q s"
      "if c + 4 < n then (c + 4, q) \<in> set (c_offsets ctx')
       else \<forall>s A. at_code s False A (asm_buffer a) q \<longrightarrow> a32_step s = Some (s\<lparr>ip := org + word_of_nat c + 4\<rparr>)"
    using arm32_code_simulates [OF assms(1) [unfolded e] assms(3) w(1,2) _ _ _ assms(7)] unfolding simp_thms by metis
  have "a32_step s = Some u \<Longrightarrow> \<exists>j. a32_run j s = Some u" for s u by (rule exI [of _ 1]) (simp add: numeral_1_eq_Suc_0)
  with q show ?thesis unfolding t w(3) by (intro exI [of _ q]) (auto split: if_splits)
qed

text \<open>The states that calls can reach. The entries hold even addresses.\<close>

inductive reachable_arm :: "dobby \<Rightarrow> bool" where
  loaded_arm: "entries d = [] \<Longrightarrow> reachable_arm d"
| hook_arm: "reachable_arm d \<Longrightarrow> DobbyHook_arm h a f d = Inr (r, o', d') \<Longrightarrow> reachable_arm d'"
| destroy_arm: "reachable_arm d \<Longrightarrow> DobbyDestroy_arm a d = Inr (r, d') \<Longrightarrow> reachable_arm d'"

lemma relocated_entry_arm: "GenerateRelocatedCode_arm k e r m = Inr (b, e', r', m') \<Longrightarrow> patched_addr e' = patched_addr e"
  by (auto simp: GenerateRelocatedCode_arm_def Let_def bind_res_Inr_iff split: option.splits if_splits)

lemma DobbyHook_arm_registry:
  assumes "DobbyHook_arm h a f d = Inr (r, o', d')"
  shows "if a = 0 \<or> \<not> fst (set_page_executable a (dm d)) \<or> find_entry (entries d) a \<noteq> None then r = -1 \<and> o' = None \<and> entries d' = entries d
     else r = 0 \<and> (\<exists>e. patched_addr e = code_addr a \<and> entries d' = add_entry e (entries d))"
proof (cases "a = 0 \<or> \<not> fst (set_page_executable a (dm d)) \<or> find_entry (entries d) a \<noteq> None")
  case True
  then show ?thesis using assms
    by (cases "set_page_executable a (dm d)") (auto simp: DobbyHook_arm_def Let_def split: option.splits if_splits)
next
  case False
  obtain ok m0 where sp: "set_page_executable a (dm d) = (ok, m0)" by (cases "set_page_executable a (dm d)")
  with False assms obtain e1 r1 m1 m2 where
    "hook_DispatchRouting_arm (h_kernel h) (near_branch_trampoline d)
       (InterceptEntry_arm (h_fresh h) kFunctionInlineHook a (entries d)) (InterceptRouting (FunctionInlineHookRouting f)) m0 = Inr (e1, r1, m1)"
    "r = 0" "d' = d\<lparr>dm := m2, entries := add_entry (e1\<lparr>entry_routing := Some r1\<rparr>) (entries d)\<rparr>"
    by (auto simp: DobbyHook_arm_def bind_res_Inr_iff)
  moreover from this have "patched_addr e1 = code_addr a"
    by (auto simp: hook_DispatchRouting_arm_def bind_res_Inr_iff entry_arm dest: relocated_entry_arm)
  ultimately show ?thesis using False by (auto intro!: exI [of _ "e1\<lparr>entry_routing := Some r1\<rparr>"])
qed

lemma DobbyDestroy_arm_registry:
  "DobbyDestroy_arm a d = Inr (r, d') \<Longrightarrow>
     (if find_entry (entries d) (code_addr a) = None then r = -1 \<and> d' = d
      else r = 0 \<and> entries d' = remove_entry (code_addr a) (entries d))"
  by (auto simp: DobbyDestroy_arm_def code_addr_def bind_res_Inr_iff Let_def split: option.splits if_splits)

lemma reachable_arm_even: "reachable_arm d \<Longrightarrow> \<forall>e \<in> set (entries d). \<not> is_thumb_addr (patched_addr e)"
proof (induction rule: reachable_arm.induct)
  case (hook_arm d h a f r o' d')
  then show ?case
    using DobbyHook_arm_registry [OF hook_arm(2)] by (auto simp: add_entry_def code_addr_mod(3) split: if_splits)
next
  case (destroy_arm d a r d')
  then show ?case
    using DobbyDestroy_arm_registry [OF destroy_arm(2)] set_remove by (fastforce split: if_splits)
qed simp

lemma find_odd: "reachable_arm d \<Longrightarrow> is_thumb_addr a \<Longrightarrow> find_entry (entries d) a = None"
  using reachable_arm_even [of d] by (auto simp: find_entry_set)

lemma remove_twice:
  assumes "patched_addr e = a" "find_entry es a \<noteq> None"
  shows "find_entry (remove_entry a (add_entry e es)) a \<noteq> None"
proof -
  have "a \<in> patched_addr ` set es \<Longrightarrow> a \<in> patched_addr ` set (remove_entry a (es @ [e]))"
    using assms(1) by (induction es) auto
  then show ?thesis using assms(2) by (simp add: find_entry_set add_entry_def)
qed

lemma first_offset:
  assumes "GenRelocateCode32 es bytes n o32 br = Some (ctx', m, a)" "c_changed ctx' = []" "0 < n"
  shows "(0, 0) \<in> set (c_offsets ctx')"
proof (cases es)
  case ARMExecuteState
  then show ?thesis using arm_relocated [of bytes n o32 br ctx' m a] assms by blast
next
  case ThumbExecuteState
  then show ?thesis using thumb_relocated [of bytes n o32 br ctx' m a] assms by blast
qed

subsection \<open>Properties\<close>

text \<open>
  C7: A hook redirects its function, on the architecture the application is built for. The function lies below \<open>2 ^ 32\<close>, word-aligned
  when it is A32 code, is not hooked yet, and its first 16 bytes are readable and outside the library's own memory; the
  \<^verbatim>\<open>thumb_mode\<close> that the constructor leaves uninitialised is false for A32 code; the relocator produces code, at most a page and
  4 KiB of it, and the allocator provides a word-aligned block below \<open>2 ^ 32\<close> for it. Then \<^verbatim>\<open>DobbyHook\<close> returns 0, and from
  then on a call of the function, in the instruction set its address asks for, reaches the replacement in the instruction set that the
  replacement's address asks for, with all registers, flags and memory as the caller left them.
\<close>
theorem DobbyHook_arm_redirects:
  assumes "hook_ready_arm h a d" "hook_code_arm a f (dm d) = Some (b, ctx', n, asm)"
    and "code_room_arm (h_kernel h) asm (snd (set_page_executable a (dm d))) blk"
  shows "\<exists>d'. DobbyHook_arm h a f d = Inr (0, Some (blk_addr blk + a mod 2), d') \<and>
    (\<forall>s. ram s = ram32 d' \<and> tb s = is_thumb_addr a \<and> ip s = ucast (code_addr a) \<longrightarrow>
       (\<exists>j. a32_run j s = Some (bx_to (ucast f) s)))"
proof (rule hook_effect_arm [OF assms])
  fix e d' M
  assume h: "DobbyHook_arm h a f d = Inr (0, Some (blk_addr blk + a mod 2), d')" "memory (proc (dm d')) = poke (code_addr a) b M"
  have A: "\<not> is_thumb_addr a \<longrightarrow> a AND 3 = 0" and lo: "unat a + 16 < 2 ^ 32" using assms(1) by (simp_all add: hook_ready_arm_def)
  note hc = hook_code_arm_parts [OF assms(2) A] and ca = low_code_addr [of a] and le = code_addr_mod(4) [of a]
  obtain b' where b': "GenerateNormalTrampolineBuffer32 (ucast a) (ucast f) = Some b'"
    "\<forall>s. in_ram s (ucast a AND NOT 1) b' \<and> tb s = odd (ucast a :: u32) \<and> ip s = ucast a AND NOT 1 \<longrightarrow>
       (\<exists>j. a32_run j s = Some (bx_to (ucast f) s))"
    using trampoline32_runs [of "ucast a" "ucast f"] A low_aligned [of a] odd_low [of a] by auto
  have "b' = b" using b'(1) hc(1) by simp
  moreover have "in_ram s (ucast (code_addr a)) b" if "ram s = ram32 d'" for s
    using hc(2) lo le by (intro ram32_low [OF _ _ that]) (auto simp: h(2) poke_inside)
  ultimately show ?thesis using h(1) b'(2) ca lo by (auto simp: odd_low)
qed

text \<open>
  C8: The pointer a hook returns stands for the original function, on 32-bit ARM, under the conditions of the hook above and
  when the prologue has no \<^verbatim>\<open>bx pc\<close> that changes the instruction set (\<open>c_changed\<close>). The pointer has the instruction-set bit
  of the function; from the entry of the relocated code on, each instruction of the prologue that the relocator supports
  (\<open>supported32\<close>) has the effect of the original one at its original address, r12 excepted, and hands over to the next; after the
  last one, execution continues in the original function behind the instructions that were relocated.
\<close>
theorem DobbyHook_arm_origin_simulates:
  assumes "hook_ready_arm h a d" "hook_code_arm a f (dm d) = Some (b, ctx', n, asm)"
    and "code_room_arm (h_kernel h) asm (snd (set_page_executable a (dm d))) blk" "c_changed ctx' = []"
  defines "A \<equiv> ucast (blk_addr blk)" and "org \<equiv> ucast (code_addr a)" and "thumb \<equiv> is_thumb_addr a"
  shows "\<exists>d'. DobbyHook_arm h a f d = Inr (0, Some (blk_addr blk + a mod 2), d') \<and> (0, 0) \<in> set (c_offsets ctx') \<and>
    (\<forall>(c, p) \<in> set (c_offsets ctx'). \<forall>k i.
       insn32 (state_of a) (prologue (dm d) (code_addr a) (length b + 2)) c = Some (k, i) \<and>
       supported32 (state_of a) (length b) (org + word_of_nat c) k i \<longrightarrow>
       (\<exists>next. (\<forall>s. ram s = ram32 d' \<and> tb s = thumb \<and> ip s = A + word_of_nat p \<longrightarrow>
            simulates32 (asm_buffer asm) A (org + word_of_nat c) (word_of_nat k) i next s) \<and>
          (if c + k < length b then (c + k, next) \<in> set (c_offsets ctx')
           else \<forall>s. ram s = ram32 d' \<and> tb s = thumb \<and> ip s = A + word_of_nat next \<longrightarrow>
             (\<exists>j. a32_run j s = Some (s\<lparr>ip := org + word_of_nat c + word_of_nat k\<rparr>)))))"
proof (rule hook_effect_arm [OF assms(1-3)])
  fix e d' M
  assume h: "DobbyHook_arm h a f d = Inr (0, Some (blk_addr blk + a mod 2), d')" "memory (proc (dm d')) = poke (code_addr a) b M"
    "\<And>i. i < length (asm_buffer asm) \<Longrightarrow> M (blk_addr blk + of_nat i) = asm_buffer asm ! i"
    "\<And>i. i < 16 \<Longrightarrow> code_addr a + of_nat i \<notin> block_cells blk"
    "block_cells blk = cells (blk_addr blk) (of_nat (length (asm_buffer asm)))"
  have al: "\<not> is_thumb_addr a \<longrightarrow> a AND 3 = 0" and lo: "unat a + 16 < 2 ^ 32" using assms(1) by (simp_all add: hook_ready_arm_def)
  note hc = hook_code_arm_parts [OF assms(2) al]
  have R: "length (asm_buffer asm) \<le> 4096" "blk_addr blk AND 3 = 0" "unat (blk_addr blk) + length (asm_buffer asm) < 2 ^ 32"
    using assms(3) by (simp_all add: code_room_arm_def Let_def)
  have mem: "memory (proc (dm d')) (blk_addr blk + of_nat i) = asm_buffer asm ! i" if i: "i < length (asm_buffer asm)" for i
  proof -
    let ?x = "blk_addr blk + of_nat i"
    have "?x \<in> block_cells blk" using h(5) i R by (simp add: cells_def unat_add_addr unat_of_nat)
    then have "\<not> unat (?x - code_addr a) < length b" using h(4) [of "unat (?x - code_addr a)"] hc(2) by auto
    then show ?thesis using i h(2,3) by (simp add: poke_outside)
  qed
  have at: "at_code s thumb A (asm_buffer asm) p" if "ram s = ram32 d'" "tb s = thumb" "ip s = A + word_of_nat p" for s p
    using ram32_low [OF _ mem that(1)] R low_aligned [of "blk_addr blk"] that by (simp add: at_code_def A_def)
  have st: "(state_of a = ThumbExecuteState) = thumb" by (simp add: state_of_def thumb_def)
  have "\<not> thumb \<Longrightarrow> code_addr a = a" by (simp add: thumb_def code_addr_def)
  then have "if state_of a = ThumbExecuteState then even (ucast (code_addr a) :: u32)
      else take_bit 2 (ucast (code_addr a) :: u32) = 0"
    using al low_aligned [of a] odd_low [of "code_addr a"] code_addr_mod(3) [of a] by (auto simp: st thumb_def)
  note sim = code32_simulates [OF hc(5) assms(4) _ _ _ this, folded org_def, unfolded st]
  have b: "0 < length b" "length b < 2 ^ 31" using hc(2) by auto
  have "\<exists>next. (\<forall>s. ram s = ram32 d' \<and> tb s = thumb \<and> ip s = A + word_of_nat p \<longrightarrow>
            simulates32 (asm_buffer asm) A (org + word_of_nat c) (word_of_nat k) i next s) \<and>
          (if c + k < length b then (c + k, next) \<in> set (c_offsets ctx')
           else \<forall>s. ram s = ram32 d' \<and> tb s = thumb \<and> ip s = A + word_of_nat next \<longrightarrow>
             (\<exists>j. a32_run j s = Some (s\<lparr>ip := org + word_of_nat c + word_of_nat k\<rparr>)))"
    if i: "(c, p) \<in> set (c_offsets ctx')" "insn32 (state_of a) (prologue (dm d) (code_addr a) (length b + 2)) c = Some (k, i)"
      "supported32 (state_of a) (length b) (org + word_of_nat c) k i" for c p k i
  proof -
    obtain q where "\<forall>s A. at_code s thumb A (asm_buffer asm) p \<longrightarrow> simulates32 (asm_buffer asm) A (org + word_of_nat c) (word_of_nat k) i q s"
      "if c + k < length b then (c + k, q) \<in> set (c_offsets ctx') else \<forall>s A. at_code s thumb A (asm_buffer asm) q \<longrightarrow>
         (\<exists>j. a32_run j s = Some (s\<lparr>ip := org + word_of_nat c + word_of_nat k\<rparr>))"
      using sim [OF i b(2)] by blast
    then show ?thesis using at by (intro exI [of _ q], cases "c + k < length b") (simp_all only: if_True if_False, blast+)
  qed
  then show ?thesis using h(1) first_offset [OF hc(5) assms(4) b(1)] by blast
qed

text \<open>
  C11: Destroying a 32-bit hook undoes it, under the conditions of the hook above and when the even address of the function is not
  registered either: the registry is the one before the hook, the 16 bytes at the function are the original ones again, and so is
  every byte that was mapped before and lies outside the block of the relocated code.
\<close>
theorem DobbyHook_arm_Destroy_restores:
  assumes "hook_ready_arm h a d" "hook_code_arm a f (dm d) = Some (b, ctx', n, asm)"
    and "code_room_arm (h_kernel h) asm (snd (set_page_executable a (dm d))) blk" "find_entry (entries d) (code_addr a) = None"
  shows "\<exists>d' d''. DobbyHook_arm h a f d = Inr (0, Some (blk_addr blk + a mod 2), d') \<and> DobbyDestroy_arm a d' = Inr (0, d'') \<and>
    entries d'' = entries d \<and>
    (\<forall>i < 16. memory (proc (dm d'')) (code_addr a + of_nat i) = memory (proc (dm d)) (code_addr a + of_nat i)) \<and>
    (\<forall>x. prot_at (proc (dm d)) x \<noteq> None \<and> x \<notin> block_cells blk \<longrightarrow> memory (proc (dm d'')) x = memory (proc (dm d)) x)"
proof (rule hook_effect_arm [OF assms(1-3)])
  let ?c = "code_addr a"
  fix e d' M
  assume h: "DobbyHook_arm h a f d = Inr (0, Some (blk_addr blk + a mod 2), d')" "entries d' = add_entry e (entries d)" "patched_addr e = ?c"
    "take n (origin_insns e) = prologue (dm d) ?c n" "unat (origin_insn_size e) = n" "memory (proc (dm d')) = poke ?c b M"
    "\<And>i. i < 16 \<Longrightarrow> ?c + of_nat i \<notin> block_cells blk"
    "\<And>x. prot_at (proc (dm d)) x \<noteq> None \<Longrightarrow> x \<notin> block_cells blk \<Longrightarrow> M x = memory (proc (dm d)) x"
    "\<And>i. i < 16 \<Longrightarrow> prot_at (proc (dm d')) (?c + of_nat i) \<noteq> None" "page_size (proc (dm d')) = page_size (proc (dm d))"
  have r: "page_size_ok (page_size (proc (dm d)))" "prologue_ok ?c (dm d)" "\<not> is_thumb_addr a \<longrightarrow> a AND 3 = 0"
    using assms(1) by (simp_all add: hook_ready_arm_def machine_ok_def)
  note hc = hook_code_arm_parts [OF assms(2) r(3)]
  let ?o = "prologue (dm d) ?c n"
  have lo: "length ?o = n" "n \<le> 16" using hc(4) by (simp_all add: prologue_def)
  have "\<forall>i < length ?o. prot_at (proc (dm d')) (?c + of_nat i) \<noteq> None \<and>
      (patch_page_of (page_size (proc (dm d'))) ?c (length ?o) (?c + of_nat i) \<or> has_prot PROT_WRITE (proc (dm d')) (?c + of_nat i))"
    using two_pages_cover [of "page_size (proc (dm d'))" ?c n] h(9,10) r(1,2) lo by (simp add: prologue_ok_def)
  from DobbyCodePatch_eq [OF _ this] obtain p where p: "DobbyCodePatch ?c ?o (proc (dm d')) = Inr (0, p)"
      "memory p = poke ?c ?o (memory (proc (dm d')))" using r(1) h(10) by auto
  let ?d = "d'\<lparr>dm := (dm d')\<lparr>proc := p\<rparr>, entries := entries d\<rparr>"
  have "find_entry (entries d') ?c = Some e" using h(2,3) assms(4) by (simp add: find_add)
  then have "DobbyDestroy_arm a d' = Inr (0, ?d)"
    using h(2-5) p(1) remove_add [of "entries d" e] assms(4)
    by (simp add: DobbyDestroy_arm_def patch_machine_def Let_def flip: code_addr_def)
  moreover have M: "memory p x = memory (proc (dm d)) x" if "prot_at (proc (dm d)) x \<noteq> None" "x \<notin> block_cells blk" for x
    using h(6,8) that lo hc(2,3) by (cases "unat (x - ?c) < n") (auto simp: p(2) poke_def prologue_def)
  moreover have "memory p (?c + of_nat i) = memory (proc (dm d)) (?c + of_nat i)" if "i < 16" for i
    using M [OF _ h(7) [OF that]] r(2) that has_prot_read by (auto simp: prologue_ok_def)
  ultimately show ?thesis using h(1) by auto
qed

text \<open>
  A Thumb function can be hooked twice. The registry is searched for the odd address, but entries hold even ones, so
  that a second \<^verbatim>\<open>DobbyHook\<close> of a hooked Thumb function returns 0 and registers the address again; one
  \<^verbatim>\<open>DobbyDestroy\<close> then leaves it registered. For an A32 function the second call is refused with -1.
\<close>
lemma thumb_function_hooked_twice:
  assumes "reachable_arm d" "DobbyHook_arm h a f d = Inr (0, o1, d1)" "DobbyHook_arm h' a g d1 = Inr (r, o2, d2)"
    and "fst (set_page_executable a (dm d1))"
  shows "if is_thumb_addr a
    then r = 0 \<and> \<not> distinct (map patched_addr (entries d2)) \<and>
      (\<forall>r' d3. DobbyDestroy_arm a d2 = Inr (r', d3) \<longrightarrow> r' = 0 \<and> find_entry (entries d3) (code_addr a) \<noteq> None)
    else r = -1 \<and> entries d2 = entries d1"
proof -
  obtain e1 where a: "a \<noteq> 0" and e1: "patched_addr e1 = code_addr a" "entries d1 = add_entry e1 (entries d)"
    using DobbyHook_arm_registry [OF assms(2)] by (auto split: if_splits)
  have r1: "reachable_arm d1" by (rule hook_arm [OF assms(1,2)])
  have f1: "find_entry (entries d1) (code_addr a) \<noteq> None" using e1 by (auto simp: find_add)
  show ?thesis
  proof (cases "is_thumb_addr a")
    case True
    then obtain e2 where e2: "r = 0" "patched_addr e2 = code_addr a" "entries d2 = add_entry e2 (entries d1)"
      using DobbyHook_arm_registry [OF assms(3)] a assms(4) find_odd [OF r1 True] by auto
    have "\<not> distinct (map patched_addr (entries d2))" using e1 e2 by (simp add: add_entry_def)
    moreover have "find_entry (entries d2) (code_addr a) \<noteq> None" using f1 e2(3) by (auto simp: find_add)
    then have "r' = 0 \<and> find_entry (entries d3) (code_addr a) \<noteq> None" if "DobbyDestroy_arm a d2 = Inr (r', d3)" for r' d3
      using DobbyDestroy_arm_registry [OF that] remove_twice [OF e2(2) f1] e2(3) by (simp split: if_splits)
    ultimately show ?thesis using True e2(1) by auto
  next
    case False
    then have "find_entry (entries d1) a \<noteq> None" using f1 by (simp add: code_addr_def)
    then show ?thesis using False DobbyHook_arm_registry [OF assms(3)] by (auto split: if_splits)
  qed
qed

text \<open>A process with the Thumb function \<open>sample_thumb\<close> at 0x1000.\<close>

definition arm_state :: dobby where
  "arm_state = \<lparr>dm = \<lparr>allocator = MemoryAllocator, proc = \<lparr>page_size = 256, page_prot = (\<lambda>b. if b = 0x1000 then Some 5 else None),
     memory = poke 0x1000 sample_thumb (\<lambda>_. 0)\<rparr>\<rparr>, entries = [], near_branch_trampoline = False, bridge_ptr = 0\<rparr>"

lemma arm_code_addr: "is_thumb_addr 0x1001" "code_addr 0x1001 = 0x1000" "state_of 0x1001 = ThumbExecuteState"
    "(0x1001 :: addr) mod 2 = 1"
  by code_simp+

lemma arm_state_ready: "hook_ready_arm hook_host 0x1001 arm_state"
proof -
  have "machine_ok (dm arm_state)" unfolding arm_state_def by (simp add: machine_ok_empty page_size_ok_256)
  moreover have "list_all (\<lambda>i. has_prot PROT_READ (proc (dm arm_state)) (0x1000 + of_nat i)) [0..<16]" by code_simp
  ultimately show ?thesis
    by (simp add: hook_ready_arm_def prologue_ok_def all_less_code hook_host_def hook_mmap_ok arm_state_def all_arenas_def arm_code_addr
        MemoryAllocator_def del: upt_rec_numeral)
qed

lemma arm_state_code:
  obtains b ctx' n asm blk where "hook_code_arm 0x1001 0x5000 (dm arm_state) = Some (b, ctx', n, asm)" "length b = 8" "blk_addr blk = 0x2000"
    "c_changed ctx' = []" "code_room_arm (h_kernel hook_host) asm (snd (set_page_executable 0x1001 (dm arm_state))) blk"
proof -
  let ?m = "snd (set_page_executable 0x1001 (dm arm_state))"
  have "case hook_code_arm 0x1001 0x5000 (dm arm_state) of Some (b, ctx', n, asm) \<Rightarrow>
      length b = 8 \<and> c_changed ctx' = [] \<and> length (asm_buffer asm) \<le> 256 \<and> 0 < length (asm_buffer asm) \<and>
      (case allocateExecBlock (h_kernel hook_host) (of_nat (length (asm_buffer asm))) ?m of
         Inr (blk, m1) \<Rightarrow> blk_addr blk = 0x2000 \<and> granted m1 | Inl _ \<Rightarrow> False) | None \<Rightarrow> False"
    by code_simp
  then obtain b ctx' n asm where c: "hook_code_arm 0x1001 0x5000 (dm arm_state) = Some (b, ctx', n, asm)" "length b = 8" "c_changed ctx' = []"
      "length (asm_buffer asm) \<le> 256" "0 < length (asm_buffer asm)"
      "case allocateExecBlock (h_kernel hook_host) (of_nat (length (asm_buffer asm))) ?m of
         Inr (blk, m1) \<Rightarrow> blk_addr blk = 0x2000 \<and> granted m1 | Inl _ \<Rightarrow> False"
    by (force split: option.splits prod.splits)
  then obtain blk m1 where "allocateExecBlock (h_kernel hook_host) (of_nat (length (asm_buffer asm))) ?m = Inr (blk, m1)"
      "blk_addr blk = 0x2000" "granted m1"
    by (force split: sum.splits prod.splits)
  moreover have "page_size (proc ?m) = 256" by code_simp
  ultimately show thesis using c by (intro that [OF c(1,2)]) (auto simp: code_room_arm_def Let_def)
qed

theorem DobbyHook_arm_redirects_witness:
  "\<exists>d'. DobbyHook_arm hook_host 0x1001 0x5000 arm_state = Inr (0, Some 0x2001, d') \<and>
    (\<forall>s. ram s = ram32 d' \<and> tb s \<and> ip s = 0x1000 \<longrightarrow> (\<exists>j. a32_run j s = Some (s\<lparr>ip := 0x5000, tb := False\<rparr>)))"
proof (rule arm_state_code)
  fix b ctx' n asm blk
  assume h: "hook_code_arm 0x1001 0x5000 (dm arm_state) = Some (b, ctx', n, asm)" "blk_addr blk = 0x2000"
    "code_room_arm (h_kernel hook_host) asm (snd (set_page_executable 0x1001 (dm arm_state))) blk"
  have "take_bit 2 (0x5000 :: u32) = 0" by simp
  then show ?thesis
    using DobbyHook_arm_redirects [OF arm_state_ready h(1,3), unfolded arm_code_addr h(2)] bx_to_even [of "0x5000"]
    by (simp add: arm_code_addr)
qed

theorem DobbyHook_arm_origin_simulates_witness:
  "\<exists>b ctx' n asm d' next. hook_code_arm 0x1001 0x5000 (dm arm_state) = Some (b, ctx', n, asm) \<and>
    DobbyHook_arm hook_host 0x1001 0x5000 arm_state = Inr (0, Some 0x2001, d') \<and> (2, next) \<in> set (c_offsets ctx') \<and>
    (\<forall>s. ram s = ram32 d' \<and> tb s \<and> ip s = 0x2000 \<longrightarrow> simulates32 (asm_buffer asm) 0x2000 0x1000 2 (I_lit 14 False 3 8) next s)"
proof (rule arm_state_code)
  fix b ctx' n asm blk
  assume h: "hook_code_arm 0x1001 0x5000 (dm arm_state) = Some (b, ctx', n, asm)" "length b = 8" "blk_addr blk = 0x2000" "c_changed ctx' = []"
    "code_room_arm (h_kernel hook_host) asm (snd (set_page_executable 0x1001 (dm arm_state))) blk"
  have c: "insn32 ThumbExecuteState (prologue (dm arm_state) 0x1000 10) 0 = Some (2, I_lit 14 False 3 8)"
    "thumb_supported 0x1000 2 (I_lit 14 False 3 8)" "align4 (0x1000 + 4) + 8 = 0x100c" "unat (0x100c :: u32) = 0x100c"
    by code_simp+
  have z: "(8 :: nat) + 2 = 10" "(ucast (0x2000 :: addr) :: u32) = 0x2000" "(ucast (0x1000 :: addr) :: u32) = 0x1000" by simp_all
  have s: "supported32 ThumbExecuteState 8 (0x1000 + word_of_nat 0) 2 (I_lit 14 False 3 8)"
    using c(2,3,4) by (simp add: supported32_def)
  have i: "insn32 ThumbExecuteState (prologue (dm arm_state) 0x1000 10) 0 = Some (2, I_lit 14 False 3 8) \<and>
      supported32 ThumbExecuteState 8 (0x1000 + word_of_nat 0) 2 (I_lit 14 False 3 8)" using c(1) s by blast
  note w = DobbyHook_arm_origin_simulates [OF arm_state_ready h(1,5,4), unfolded arm_code_addr h(2,3) z]
  from w show ?thesis
    apply (elim exE conjE)
    apply (drule (1) bspec)
    apply (unfold prod.case)
    apply (drule spec [of _ 2], drule spec [of _ "I_lit 14 False 3 8"])
    apply (drule mp, rule i)
    apply (elim exE conjE)
    apply (simp add: arm_code_addr(1) del: add_2_eq_Suc add_2_eq_Suc')
    apply (use h(1) in blast)
    done
qed

theorem DobbyHook_arm_Destroy_restores_witness:
  "\<exists>d' d''. DobbyHook_arm hook_host 0x1001 0x5000 arm_state = Inr (0, Some 0x2001, d') \<and> DobbyDestroy_arm 0x1001 d' = Inr (0, d'') \<and>
    entries d'' = [] \<and> memory (proc (dm d'')) 0x1003 = 0xb5"
proof (rule arm_state_code)
  fix b ctx' n asm blk
  assume h: "hook_code_arm 0x1001 0x5000 (dm arm_state) = Some (b, ctx', n, asm)" "blk_addr blk = 0x2000"
    "code_room_arm (h_kernel hook_host) asm (snd (set_page_executable 0x1001 (dm arm_state))) blk"
  have "find_entry (entries arm_state) (code_addr 0x1001) = None" by (simp add: arm_state_def)
  then obtain d' d'' where d: "DobbyHook_arm hook_host 0x1001 0x5000 arm_state = Inr (0, Some 0x2001, d')" "DobbyDestroy_arm 0x1001 d' = Inr (0, d'')"
    "entries d'' = entries arm_state"
    "\<forall>i < 16. memory (proc (dm d'')) (0x1000 + of_nat i) = memory (proc (dm arm_state)) (0x1000 + of_nat i)"
    using DobbyHook_arm_Destroy_restores [OF arm_state_ready h(1,3)] unfolding arm_code_addr h(2) by auto
  have "memory (proc (dm arm_state)) 0x1003 = 0xb5" by code_simp
  then show ?thesis using d(1-3) d(4) [rule_format, of 3] by (intro exI [of _ d'] exI [of _ d'']) (simp add: arm_state_def)
qed

end
