(* ===== verification/X86_Tables.thy ===== *)
theory X86_Tables
  imports Dobby_Prelude
begin

text \<open>
  The opcode tables of \<^verbatim>\<open>InstructionRelocation/x86/x86_insn_decode\<close>: the specification of an
  instruction (name, up to three operand codes, flags), the macros that build one, the one-byte
  and two-byte opcode maps, the groups selected by the reg field of ModR/M, and the SSE groups.
  The entries stand in the order of the C initialisers; a table is cut into pieces of sixty-four
  opcodes (or a few groups) that are concatenated in the end. The lemmas give the shape of the
  tables: the bounds the decoder's array accesses need, and which operand codes occur.
\<close>

subsection \<open>Specifications and the macros that build them\<close>

record x86_insn_operand_spec =
  code :: char
  otype :: char

record x86_insn_spec =
  name :: string
  operands :: "x86_insn_operand_spec list"
  flags :: u16

definition operand_data :: "string \<Rightarrow> x86_insn_operand_spec" where
  "operand_data s = \<lparr>code = s ! 0, otype = s ! 1\<rparr>"

definition op3_flag :: "string \<Rightarrow> u16 \<Rightarrow> string \<Rightarrow> string \<Rightarrow> string \<Rightarrow> x86_insn_spec" where
  "op3_flag x f o0 o1 o2 =
     \<lparr>name = x, operands = [operand_data o0, operand_data o1, operand_data o2], flags = f\<rparr>"

definition op2_flag :: "string \<Rightarrow> u16 \<Rightarrow> string \<Rightarrow> string \<Rightarrow> x86_insn_spec" where
  "op2_flag x f o0 o1 = op3_flag x f o0 o1 ''__''"

definition op1_flag :: "string \<Rightarrow> u16 \<Rightarrow> string \<Rightarrow> x86_insn_spec" where
  "op1_flag x f o0 = op2_flag x f o0 ''__''"

definition op0_flag :: "string \<Rightarrow> u16 \<Rightarrow> x86_insn_spec" where
  "op0_flag x f = op1_flag x f ''__''"

definition op3 :: "string \<Rightarrow> string \<Rightarrow> string \<Rightarrow> string \<Rightarrow> x86_insn_spec" where
  "op3 x o0 o1 o2 = op3_flag x 0 o0 o1 o2"

definition op2 :: "string \<Rightarrow> string \<Rightarrow> string \<Rightarrow> x86_insn_spec" where
  "op2 x o0 o1 = op2_flag x 0 o0 o1"

definition op1 :: "string \<Rightarrow> string \<Rightarrow> x86_insn_spec" where
  "op1 x o0 = op1_flag x 0 o0"

definition op0 :: "string \<Rightarrow> x86_insn_spec" where
  "op0 x = op0_flag x 0"

text \<open>An array element no initialiser names is zero.\<close>

definition zero_spec :: x86_insn_spec where
  "zero_spec = \<lparr>name = [], operands = replicate 3 \<lparr>code = CHR 0x00, otype = CHR 0x00\<rparr>, flags = 0\<rparr>"

definition foreach_x86_operand_combine :: "string \<Rightarrow> x86_insn_spec list" where
  "foreach_x86_operand_combine x = [op2 x ''Eb'' ''Gb'', op2 x ''Ev'' ''Gv'', op2 x ''Gb'' ''Eb'',
     op2 x ''Gv'' ''Ev'', op2 x ''AL'' ''Ib'', op2 x ''AX'' ''Iz'']"

definition foreach_x86_gp_reg :: "string list" where
  "foreach_x86_gp_reg = [''AX'', ''CX'', ''DX'', ''BX'', ''SP'', ''BP'', ''SI'', ''DI'']"

definition foreach_x86_condition :: "string list" where
  "foreach_x86_condition = [''o'', ''no'', ''b'', ''nb'', ''z'', ''nz'', ''be'', ''nbe'', ''s'',
     ''ns'', ''p'', ''np'', ''l'', ''nl'', ''le'', ''nle'']"

subsection \<open>Groups and flags\<close>

definition X86_INSN_SPEC_DEFAULT_64_BIT :: u16 where
  "X86_INSN_SPEC_DEFAULT_64_BIT = push_bit 0 1"

definition X86_INSN_GROUP_START :: nat where "X86_INSN_GROUP_START = 0"

definition X86_INSN_SSE_GROUP_START :: nat where "X86_INSN_SSE_GROUP_START = 19"

definition X86_INSN_GROUP_END :: nat where "X86_INSN_GROUP_END = 35"

definition X86_INSN_GROUP_END_MASK :: u16 where "X86_INSN_GROUP_END_MASK = push_bit 6 1 - 1"

definition X86_INSN_FLAG_SET_GROUP :: "nat \<Rightarrow> u16" where
  "X86_INSN_FLAG_SET_GROUP n = push_bit 5 (of_nat n)"

definition X86_INSN_FLAG_GET_GROUP :: "u16 \<Rightarrow> nat" where
  "X86_INSN_FLAG_GET_GROUP f = unat (drop_bit 5 f AND X86_INSN_GROUP_END_MASK)"

text \<open>The enumerators of the groups; each is one more than the one before.\<close>

definition X86_INSN_MODRM_REG_GROUP_1 :: nat where "X86_INSN_MODRM_REG_GROUP_1 = X86_INSN_GROUP_START + 1"
definition X86_INSN_MODRM_REG_GROUP_1a :: nat where "X86_INSN_MODRM_REG_GROUP_1a = X86_INSN_MODRM_REG_GROUP_1 + 1"
definition X86_INSN_MODRM_REG_GROUP_2 :: nat where "X86_INSN_MODRM_REG_GROUP_2 = X86_INSN_MODRM_REG_GROUP_1a + 1"
definition X86_INSN_MODRM_REG_GROUP_3 :: nat where "X86_INSN_MODRM_REG_GROUP_3 = X86_INSN_MODRM_REG_GROUP_2 + 1"
definition X86_INSN_MODRM_REG_GROUP_4 :: nat where "X86_INSN_MODRM_REG_GROUP_4 = X86_INSN_MODRM_REG_GROUP_3 + 1"
definition X86_INSN_MODRM_REG_GROUP_5 :: nat where "X86_INSN_MODRM_REG_GROUP_5 = X86_INSN_MODRM_REG_GROUP_4 + 1"
definition X86_INSN_MODRM_REG_GROUP_6 :: nat where "X86_INSN_MODRM_REG_GROUP_6 = X86_INSN_MODRM_REG_GROUP_5 + 1"
definition X86_INSN_MODRM_REG_GROUP_7 :: nat where "X86_INSN_MODRM_REG_GROUP_7 = X86_INSN_MODRM_REG_GROUP_6 + 1"
definition X86_INSN_MODRM_REG_GROUP_8 :: nat where "X86_INSN_MODRM_REG_GROUP_8 = X86_INSN_MODRM_REG_GROUP_7 + 1"
definition X86_INSN_MODRM_REG_GROUP_9 :: nat where "X86_INSN_MODRM_REG_GROUP_9 = X86_INSN_MODRM_REG_GROUP_8 + 1"
definition X86_INSN_MODRM_REG_GROUP_10 :: nat where "X86_INSN_MODRM_REG_GROUP_10 = X86_INSN_MODRM_REG_GROUP_9 + 1"
definition X86_INSN_MODRM_REG_GROUP_11 :: nat where "X86_INSN_MODRM_REG_GROUP_11 = X86_INSN_MODRM_REG_GROUP_10 + 1"
definition X86_INSN_MODRM_REG_GROUP_12 :: nat where "X86_INSN_MODRM_REG_GROUP_12 = X86_INSN_MODRM_REG_GROUP_11 + 1"
definition X86_INSN_MODRM_REG_GROUP_13 :: nat where "X86_INSN_MODRM_REG_GROUP_13 = X86_INSN_MODRM_REG_GROUP_12 + 1"
definition X86_INSN_MODRM_REG_GROUP_14 :: nat where "X86_INSN_MODRM_REG_GROUP_14 = X86_INSN_MODRM_REG_GROUP_13 + 1"
definition X86_INSN_MODRM_REG_GROUP_15 :: nat where "X86_INSN_MODRM_REG_GROUP_15 = X86_INSN_MODRM_REG_GROUP_14 + 1"
definition X86_INSN_MODRM_REG_GROUP_16 :: nat where "X86_INSN_MODRM_REG_GROUP_16 = X86_INSN_MODRM_REG_GROUP_15 + 1"
definition X86_INSN_MODRM_REG_GROUP_p :: nat where "X86_INSN_MODRM_REG_GROUP_p = X86_INSN_MODRM_REG_GROUP_16 + 1"
definition X86_INSN_SSE_GROUP_10 :: nat where "X86_INSN_SSE_GROUP_10 = X86_INSN_SSE_GROUP_START + 1"
definition X86_INSN_SSE_GROUP_28 :: nat where "X86_INSN_SSE_GROUP_28 = X86_INSN_SSE_GROUP_10 + 1"
definition X86_INSN_SSE_GROUP_50 :: nat where "X86_INSN_SSE_GROUP_50 = X86_INSN_SSE_GROUP_28 + 1"
definition X86_INSN_SSE_GROUP_58 :: nat where "X86_INSN_SSE_GROUP_58 = X86_INSN_SSE_GROUP_50 + 1"
definition X86_INSN_SSE_GROUP_60 :: nat where "X86_INSN_SSE_GROUP_60 = X86_INSN_SSE_GROUP_58 + 1"
definition X86_INSN_SSE_GROUP_68 :: nat where "X86_INSN_SSE_GROUP_68 = X86_INSN_SSE_GROUP_60 + 1"
definition X86_INSN_SSE_GROUP_70 :: nat where "X86_INSN_SSE_GROUP_70 = X86_INSN_SSE_GROUP_68 + 1"
definition X86_INSN_SSE_GROUP_78 :: nat where "X86_INSN_SSE_GROUP_78 = X86_INSN_SSE_GROUP_70 + 1"
definition X86_INSN_SSE_GROUP_c0 :: nat where "X86_INSN_SSE_GROUP_c0 = X86_INSN_SSE_GROUP_78 + 1"
definition X86_INSN_SSE_GROUP_d0 :: nat where "X86_INSN_SSE_GROUP_d0 = X86_INSN_SSE_GROUP_c0 + 1"
definition X86_INSN_SSE_GROUP_d8 :: nat where "X86_INSN_SSE_GROUP_d8 = X86_INSN_SSE_GROUP_d0 + 1"
definition X86_INSN_SSE_GROUP_e0 :: nat where "X86_INSN_SSE_GROUP_e0 = X86_INSN_SSE_GROUP_d8 + 1"
definition X86_INSN_SSE_GROUP_e8 :: nat where "X86_INSN_SSE_GROUP_e8 = X86_INSN_SSE_GROUP_e0 + 1"
definition X86_INSN_SSE_GROUP_f0 :: nat where "X86_INSN_SSE_GROUP_f0 = X86_INSN_SSE_GROUP_e8 + 1"
definition X86_INSN_SSE_GROUP_f8 :: nat where "X86_INSN_SSE_GROUP_f8 = X86_INSN_SSE_GROUP_f0 + 1"

definition X86_INSN_FLAG_MODRM_REG_GROUP_1 :: u16 where "X86_INSN_FLAG_MODRM_REG_GROUP_1 = X86_INSN_FLAG_SET_GROUP X86_INSN_MODRM_REG_GROUP_1"
definition X86_INSN_FLAG_MODRM_REG_GROUP_1a :: u16 where "X86_INSN_FLAG_MODRM_REG_GROUP_1a = X86_INSN_FLAG_SET_GROUP X86_INSN_MODRM_REG_GROUP_1a"
definition X86_INSN_FLAG_MODRM_REG_GROUP_2 :: u16 where "X86_INSN_FLAG_MODRM_REG_GROUP_2 = X86_INSN_FLAG_SET_GROUP X86_INSN_MODRM_REG_GROUP_2"
definition X86_INSN_FLAG_MODRM_REG_GROUP_3 :: u16 where "X86_INSN_FLAG_MODRM_REG_GROUP_3 = X86_INSN_FLAG_SET_GROUP X86_INSN_MODRM_REG_GROUP_3"
definition X86_INSN_FLAG_MODRM_REG_GROUP_4 :: u16 where "X86_INSN_FLAG_MODRM_REG_GROUP_4 = X86_INSN_FLAG_SET_GROUP X86_INSN_MODRM_REG_GROUP_4"
definition X86_INSN_FLAG_MODRM_REG_GROUP_5 :: u16 where "X86_INSN_FLAG_MODRM_REG_GROUP_5 = X86_INSN_FLAG_SET_GROUP X86_INSN_MODRM_REG_GROUP_5"
definition X86_INSN_FLAG_MODRM_REG_GROUP_6 :: u16 where "X86_INSN_FLAG_MODRM_REG_GROUP_6 = X86_INSN_FLAG_SET_GROUP X86_INSN_MODRM_REG_GROUP_6"
definition X86_INSN_FLAG_MODRM_REG_GROUP_7 :: u16 where "X86_INSN_FLAG_MODRM_REG_GROUP_7 = X86_INSN_FLAG_SET_GROUP X86_INSN_MODRM_REG_GROUP_7"
definition X86_INSN_FLAG_MODRM_REG_GROUP_8 :: u16 where "X86_INSN_FLAG_MODRM_REG_GROUP_8 = X86_INSN_FLAG_SET_GROUP X86_INSN_MODRM_REG_GROUP_8"
definition X86_INSN_FLAG_MODRM_REG_GROUP_9 :: u16 where "X86_INSN_FLAG_MODRM_REG_GROUP_9 = X86_INSN_FLAG_SET_GROUP X86_INSN_MODRM_REG_GROUP_9"
definition X86_INSN_FLAG_MODRM_REG_GROUP_10 :: u16 where "X86_INSN_FLAG_MODRM_REG_GROUP_10 = X86_INSN_FLAG_SET_GROUP X86_INSN_MODRM_REG_GROUP_10"
definition X86_INSN_FLAG_MODRM_REG_GROUP_11 :: u16 where "X86_INSN_FLAG_MODRM_REG_GROUP_11 = X86_INSN_FLAG_SET_GROUP X86_INSN_MODRM_REG_GROUP_11"
definition X86_INSN_FLAG_MODRM_REG_GROUP_12 :: u16 where "X86_INSN_FLAG_MODRM_REG_GROUP_12 = X86_INSN_FLAG_SET_GROUP X86_INSN_MODRM_REG_GROUP_12"
definition X86_INSN_FLAG_MODRM_REG_GROUP_13 :: u16 where "X86_INSN_FLAG_MODRM_REG_GROUP_13 = X86_INSN_FLAG_SET_GROUP X86_INSN_MODRM_REG_GROUP_13"
definition X86_INSN_FLAG_MODRM_REG_GROUP_14 :: u16 where "X86_INSN_FLAG_MODRM_REG_GROUP_14 = X86_INSN_FLAG_SET_GROUP X86_INSN_MODRM_REG_GROUP_14"
definition X86_INSN_FLAG_MODRM_REG_GROUP_15 :: u16 where "X86_INSN_FLAG_MODRM_REG_GROUP_15 = X86_INSN_FLAG_SET_GROUP X86_INSN_MODRM_REG_GROUP_15"
definition X86_INSN_FLAG_MODRM_REG_GROUP_16 :: u16 where "X86_INSN_FLAG_MODRM_REG_GROUP_16 = X86_INSN_FLAG_SET_GROUP X86_INSN_MODRM_REG_GROUP_16"
definition X86_INSN_FLAG_MODRM_REG_GROUP_p :: u16 where "X86_INSN_FLAG_MODRM_REG_GROUP_p = X86_INSN_FLAG_SET_GROUP X86_INSN_MODRM_REG_GROUP_p"
definition X86_INSN_FLAG_SSE_GROUP_10 :: u16 where "X86_INSN_FLAG_SSE_GROUP_10 = X86_INSN_FLAG_SET_GROUP X86_INSN_SSE_GROUP_10"
definition X86_INSN_FLAG_SSE_GROUP_28 :: u16 where "X86_INSN_FLAG_SSE_GROUP_28 = X86_INSN_FLAG_SET_GROUP X86_INSN_SSE_GROUP_28"
definition X86_INSN_FLAG_SSE_GROUP_50 :: u16 where "X86_INSN_FLAG_SSE_GROUP_50 = X86_INSN_FLAG_SET_GROUP X86_INSN_SSE_GROUP_50"
definition X86_INSN_FLAG_SSE_GROUP_58 :: u16 where "X86_INSN_FLAG_SSE_GROUP_58 = X86_INSN_FLAG_SET_GROUP X86_INSN_SSE_GROUP_58"
definition X86_INSN_FLAG_SSE_GROUP_60 :: u16 where "X86_INSN_FLAG_SSE_GROUP_60 = X86_INSN_FLAG_SET_GROUP X86_INSN_SSE_GROUP_60"
definition X86_INSN_FLAG_SSE_GROUP_68 :: u16 where "X86_INSN_FLAG_SSE_GROUP_68 = X86_INSN_FLAG_SET_GROUP X86_INSN_SSE_GROUP_68"
definition X86_INSN_FLAG_SSE_GROUP_70 :: u16 where "X86_INSN_FLAG_SSE_GROUP_70 = X86_INSN_FLAG_SET_GROUP X86_INSN_SSE_GROUP_70"
definition X86_INSN_FLAG_SSE_GROUP_78 :: u16 where "X86_INSN_FLAG_SSE_GROUP_78 = X86_INSN_FLAG_SET_GROUP X86_INSN_SSE_GROUP_78"
definition X86_INSN_FLAG_SSE_GROUP_c0 :: u16 where "X86_INSN_FLAG_SSE_GROUP_c0 = X86_INSN_FLAG_SET_GROUP X86_INSN_SSE_GROUP_c0"
definition X86_INSN_FLAG_SSE_GROUP_d0 :: u16 where "X86_INSN_FLAG_SSE_GROUP_d0 = X86_INSN_FLAG_SET_GROUP X86_INSN_SSE_GROUP_d0"
definition X86_INSN_FLAG_SSE_GROUP_d8 :: u16 where "X86_INSN_FLAG_SSE_GROUP_d8 = X86_INSN_FLAG_SET_GROUP X86_INSN_SSE_GROUP_d8"
definition X86_INSN_FLAG_SSE_GROUP_e0 :: u16 where "X86_INSN_FLAG_SSE_GROUP_e0 = X86_INSN_FLAG_SET_GROUP X86_INSN_SSE_GROUP_e0"
definition X86_INSN_FLAG_SSE_GROUP_e8 :: u16 where "X86_INSN_FLAG_SSE_GROUP_e8 = X86_INSN_FLAG_SET_GROUP X86_INSN_SSE_GROUP_e8"
definition X86_INSN_FLAG_SSE_GROUP_f0 :: u16 where "X86_INSN_FLAG_SSE_GROUP_f0 = X86_INSN_FLAG_SET_GROUP X86_INSN_SSE_GROUP_f0"
definition X86_INSN_FLAG_SSE_GROUP_f8 :: u16 where "X86_INSN_FLAG_SSE_GROUP_f8 = X86_INSN_FLAG_SET_GROUP X86_INSN_SSE_GROUP_f8"

lemmas x86_group_defs = X86_INSN_GROUP_START_def X86_INSN_SSE_GROUP_START_def X86_INSN_GROUP_END_def
  X86_INSN_MODRM_REG_GROUP_1_def
  X86_INSN_MODRM_REG_GROUP_1a_def
  X86_INSN_MODRM_REG_GROUP_2_def
  X86_INSN_MODRM_REG_GROUP_3_def
  X86_INSN_MODRM_REG_GROUP_4_def
  X86_INSN_MODRM_REG_GROUP_5_def
  X86_INSN_MODRM_REG_GROUP_6_def
  X86_INSN_MODRM_REG_GROUP_7_def
  X86_INSN_MODRM_REG_GROUP_8_def
  X86_INSN_MODRM_REG_GROUP_9_def
  X86_INSN_MODRM_REG_GROUP_10_def
  X86_INSN_MODRM_REG_GROUP_11_def
  X86_INSN_MODRM_REG_GROUP_12_def
  X86_INSN_MODRM_REG_GROUP_13_def
  X86_INSN_MODRM_REG_GROUP_14_def
  X86_INSN_MODRM_REG_GROUP_15_def
  X86_INSN_MODRM_REG_GROUP_16_def
  X86_INSN_MODRM_REG_GROUP_p_def
  X86_INSN_SSE_GROUP_10_def
  X86_INSN_SSE_GROUP_28_def
  X86_INSN_SSE_GROUP_50_def
  X86_INSN_SSE_GROUP_58_def
  X86_INSN_SSE_GROUP_60_def
  X86_INSN_SSE_GROUP_68_def
  X86_INSN_SSE_GROUP_70_def
  X86_INSN_SSE_GROUP_78_def
  X86_INSN_SSE_GROUP_c0_def
  X86_INSN_SSE_GROUP_d0_def
  X86_INSN_SSE_GROUP_d8_def
  X86_INSN_SSE_GROUP_e0_def
  X86_INSN_SSE_GROUP_e8_def
  X86_INSN_SSE_GROUP_f0_def
  X86_INSN_SSE_GROUP_f8_def
  X86_INSN_FLAG_MODRM_REG_GROUP_1_def
  X86_INSN_FLAG_MODRM_REG_GROUP_1a_def
  X86_INSN_FLAG_MODRM_REG_GROUP_2_def
  X86_INSN_FLAG_MODRM_REG_GROUP_3_def
  X86_INSN_FLAG_MODRM_REG_GROUP_4_def
  X86_INSN_FLAG_MODRM_REG_GROUP_5_def
  X86_INSN_FLAG_MODRM_REG_GROUP_6_def
  X86_INSN_FLAG_MODRM_REG_GROUP_7_def
  X86_INSN_FLAG_MODRM_REG_GROUP_8_def
  X86_INSN_FLAG_MODRM_REG_GROUP_9_def
  X86_INSN_FLAG_MODRM_REG_GROUP_10_def
  X86_INSN_FLAG_MODRM_REG_GROUP_11_def
  X86_INSN_FLAG_MODRM_REG_GROUP_12_def
  X86_INSN_FLAG_MODRM_REG_GROUP_13_def
  X86_INSN_FLAG_MODRM_REG_GROUP_14_def
  X86_INSN_FLAG_MODRM_REG_GROUP_15_def
  X86_INSN_FLAG_MODRM_REG_GROUP_16_def
  X86_INSN_FLAG_MODRM_REG_GROUP_p_def
  X86_INSN_FLAG_SSE_GROUP_10_def
  X86_INSN_FLAG_SSE_GROUP_28_def
  X86_INSN_FLAG_SSE_GROUP_50_def
  X86_INSN_FLAG_SSE_GROUP_58_def
  X86_INSN_FLAG_SSE_GROUP_60_def
  X86_INSN_FLAG_SSE_GROUP_68_def
  X86_INSN_FLAG_SSE_GROUP_70_def
  X86_INSN_FLAG_SSE_GROUP_78_def
  X86_INSN_FLAG_SSE_GROUP_c0_def
  X86_INSN_FLAG_SSE_GROUP_d0_def
  X86_INSN_FLAG_SSE_GROUP_d8_def
  X86_INSN_FLAG_SSE_GROUP_e0_def
  X86_INSN_FLAG_SSE_GROUP_e8_def
  X86_INSN_FLAG_SSE_GROUP_f0_def
  X86_INSN_FLAG_SSE_GROUP_f8_def

subsection \<open>The one-byte opcode map\<close>

definition x86_opcode_map_one_byte_00 :: "x86_insn_spec list" where
  "x86_opcode_map_one_byte_00 =
     foreach_x86_operand_combine ''add'' @
     [op0 ''push_es'',
     op0_flag ''pop_es'' X86_INSN_SPEC_DEFAULT_64_BIT] @
     foreach_x86_operand_combine ''or'' @
     [op0_flag ''push_cs'' X86_INSN_SPEC_DEFAULT_64_BIT,
     op0 ''escape_two_byte''] @
     foreach_x86_operand_combine ''adc'' @
     [op0 ''push_ss'',
     op0 ''pop_ss''] @
     foreach_x86_operand_combine ''sbb'' @
     [op0 ''push_ds'',
     op0 ''pop_ds''] @
     foreach_x86_operand_combine ''and'' @
     [op0 ''segment_es'',
     op0 ''daa''] @
     foreach_x86_operand_combine ''sub'' @
     [op0 ''segment_cs'',
     op0 ''das''] @
     foreach_x86_operand_combine ''xor'' @
     [op0 ''segment_ss'',
     op0 ''aaa''] @
     foreach_x86_operand_combine ''cmp'' @
     [op0 ''segment_ds'',
     op0 ''aas'']"

definition x86_opcode_map_one_byte_40 :: "x86_insn_spec list" where
  "x86_opcode_map_one_byte_40 =
     map (\<lambda>r. op1 ''inc'' r) foreach_x86_gp_reg @
     map (\<lambda>r. op1 ''dec'' r) foreach_x86_gp_reg @
     map (\<lambda>r. op1_flag ''push'' X86_INSN_SPEC_DEFAULT_64_BIT r) foreach_x86_gp_reg @
     map (\<lambda>r. op1_flag ''pop'' X86_INSN_SPEC_DEFAULT_64_BIT r) foreach_x86_gp_reg @
     [op0 ''pusha'',
     op0 ''popa'',
     op2 ''bound'' ''Gv'' ''Ma'',
     op2 ''movsxd'' ''Gv'' ''Ed'',
     op0 ''segment_fs'',
     op0 ''segment_gs'',
     op0 ''operand_type'',
     op0 ''address_size'',
     op1_flag ''push'' X86_INSN_SPEC_DEFAULT_64_BIT ''Iz'',
     op3 ''imul'' ''Gv'' ''Ev'' ''Iz'',
     op1_flag ''push'' X86_INSN_SPEC_DEFAULT_64_BIT ''Ib'',
     op3 ''imul'' ''Gv'' ''Ev'' ''Ib'',
     op1 ''insb'' ''DX'',
     op1 ''insw'' ''DX'',
     op1 ''outsb'' ''DX'',
     op1 ''outsw'' ''DX''] @
     map (\<lambda>x. op1 (''j'' @ x) ''Jb'') foreach_x86_condition"

definition x86_opcode_map_one_byte_80 :: "x86_insn_spec list" where
  "x86_opcode_map_one_byte_80 =
     [op2_flag ''modrm_group_1'' X86_INSN_FLAG_MODRM_REG_GROUP_1 ''Eb'' ''Ib'',
     op2_flag ''modrm_group_1'' X86_INSN_FLAG_MODRM_REG_GROUP_1 ''Ev'' ''Iz'',
     op2_flag ''modrm_group_1'' X86_INSN_FLAG_MODRM_REG_GROUP_1 ''Eb'' ''Ib'',
     op2_flag ''modrm_group_1'' X86_INSN_FLAG_MODRM_REG_GROUP_1 ''Ev'' ''Ib'',
     op2 ''test'' ''Eb'' ''Gb'',
     op2 ''test'' ''Ev'' ''Gv'',
     op2 ''xchg'' ''Eb'' ''Gb'',
     op2 ''xchg'' ''Ev'' ''Gv'',
     op2 ''mov'' ''Eb'' ''Gb'',
     op2 ''mov'' ''Ev'' ''Gv'',
     op2 ''mov'' ''Gb'' ''Eb'',
     op2 ''mov'' ''Gv'' ''Ev'',
     op2 ''mov'' ''Ev'' ''Sw'',
     op2 ''lea'' ''Gv'' ''Ev'',
     op2 ''mov'' ''Sw'' ''Ew'',
     op1_flag ''modrm_group_1a'' X86_INSN_FLAG_MODRM_REG_GROUP_1a ''Ev'',
     op0 ''nop'',
     op1 ''xchg'' ''CX'',
     op1 ''xchg'' ''DX'',
     op1 ''xchg'' ''BX'',
     op1 ''xchg'' ''SP'',
     op1 ''xchg'' ''BP'',
     op1 ''xchg'' ''SI'',
     op1 ''xchg'' ''DI'',
     op0 ''cbw'',
     op0 ''cwd'',
     op1 ''call'' ''Ap'',
     op0 ''wait'',
     op0 ''pushf'',
     op0 ''popf'',
     op0 ''sahf'',
     op0 ''lahf'',
     op2 ''mov'' ''AL'' ''Ob'',
     op2 ''mov'' ''AX'' ''Ov'',
     op2 ''mov'' ''Ob'' ''AL'',
     op2 ''mov'' ''Ov'' ''AX'',
     op0 ''movsb'',
     op0 ''movsw'',
     op0 ''cmpsb'',
     op0 ''cmpsw'',
     op2 ''test'' ''AL'' ''Ib'',
     op2 ''test'' ''AX'' ''Iz'',
     op1 ''stosb'' ''AL'',
     op1 ''stosw'' ''AX'',
     op1 ''lodsb'' ''AL'',
     op1 ''lodsw'' ''AX'',
     op1 ''scasb'' ''AL'',
     op1 ''scasw'' ''AX'',
     op2 ''mov'' ''AL'' ''Ib'',
     op2 ''mov'' ''CL'' ''Ib'',
     op2 ''mov'' ''DL'' ''Ib'',
     op2 ''mov'' ''BL'' ''Ib'',
     op2 ''mov'' ''AH'' ''Ib'',
     op2 ''mov'' ''CH'' ''Ib'',
     op2 ''mov'' ''DH'' ''Ib'',
     op2 ''mov'' ''BH'' ''Ib''] @
     map (\<lambda>r. op2 ''mov'' r ''Iv'') foreach_x86_gp_reg"

definition x86_opcode_map_one_byte_c0 :: "x86_insn_spec list" where
  "x86_opcode_map_one_byte_c0 =
     [op2_flag ''modrm_group_2'' X86_INSN_FLAG_MODRM_REG_GROUP_2 ''Eb'' ''Ib'',
     op2_flag ''modrm_group_2'' X86_INSN_FLAG_MODRM_REG_GROUP_2 ''Ev'' ''Ib'',
     op1 ''ret'' ''Iw'',
     op0 ''ret'',
     op2 ''les'' ''Gz'' ''Mp'',
     op2 ''lds'' ''Gz'' ''Mp'',
     op2_flag ''modrm_group_11'' X86_INSN_FLAG_MODRM_REG_GROUP_11 ''Eb'' ''Ib'',
     op2_flag ''modrm_group_11'' X86_INSN_FLAG_MODRM_REG_GROUP_11 ''Ev'' ''Iz'',
     op2 ''enter'' ''Iw'' ''Ib'',
     op0 ''leave'',
     op1 ''ret'' ''Iw'',
     op0 ''ret'',
     op0 ''int3'',
     op1 ''int'' ''Ib'',
     op0 ''into'',
     op0 ''iret'',
     op2_flag ''modrm_group_2'' X86_INSN_FLAG_MODRM_REG_GROUP_2 ''Eb'' ''1b'',
     op2_flag ''modrm_group_2'' X86_INSN_FLAG_MODRM_REG_GROUP_2 ''Ev'' ''1b'',
     op2_flag ''modrm_group_2'' X86_INSN_FLAG_MODRM_REG_GROUP_2 ''Eb'' ''CL'',
     op2_flag ''modrm_group_2'' X86_INSN_FLAG_MODRM_REG_GROUP_2 ''Ev'' ''CL'',
     op0 ''aam'',
     op0 ''aad'',
     op0 ''salc'',
     op0 ''xlat'',
     op0 ''bad'',
     op0 ''bad'',
     op0 ''bad'',
     op0 ''bad'',
     op0 ''bad'',
     op0 ''bad'',
     op0 ''bad'',
     op0 ''bad'',
     op1 ''loopnz'' ''Jb'',
     op1 ''loopz'' ''Jb'',
     op1 ''loop'' ''Jb'',
     op1 ''jcxz'' ''Jb'',
     op2 ''in'' ''AL'' ''Ib'',
     op2 ''in'' ''AX'' ''Ib'',
     op2 ''out'' ''Ib'' ''AL'',
     op2 ''out'' ''Ib'' ''AX'',
     op1_flag ''call'' X86_INSN_SPEC_DEFAULT_64_BIT ''Jz'',
     op1_flag ''jmp'' X86_INSN_SPEC_DEFAULT_64_BIT ''Jz'',
     op1 ''jmp'' ''Ap'',
     op1 ''jmp'' ''Jb'',
     op2 ''in'' ''AL'' ''DX'',
     op2 ''in'' ''AX'' ''DX'',
     op2 ''out'' ''DX'' ''AL'',
     op2 ''out'' ''DX'' ''AX'',
     op0 ''lock'',
     op0 ''int1'',
     op0 ''repne'',
     op0 ''rep'',
     op0 ''hlt'',
     op0 ''cmc'',
     op0_flag ''modrm_group_3'' X86_INSN_FLAG_MODRM_REG_GROUP_3,
     op0_flag ''modrm_group_3'' X86_INSN_FLAG_MODRM_REG_GROUP_3,
     op0 ''clc'',
     op0 ''stc'',
     op0 ''cli'',
     op0 ''sti'',
     op0 ''cld'',
     op0 ''std'',
     op1_flag ''modrm_group_4'' X86_INSN_FLAG_MODRM_REG_GROUP_4 ''Eb'',
     op0_flag ''modrm_group_5'' X86_INSN_FLAG_MODRM_REG_GROUP_5]"

definition x86_opcode_map_one_byte :: "x86_insn_spec list" where
  "x86_opcode_map_one_byte = x86_opcode_map_one_byte_00 @ x86_opcode_map_one_byte_40 @ x86_opcode_map_one_byte_80 @ x86_opcode_map_one_byte_c0"

subsection \<open>The two-byte opcode map\<close>

definition x86_opcode_map_two_byte_00 :: "x86_insn_spec list" where
  "x86_opcode_map_two_byte_00 =
     [op0_flag ''modrm_group_6'' X86_INSN_FLAG_MODRM_REG_GROUP_6,
     op0_flag ''modrm_group_7'' X86_INSN_FLAG_MODRM_REG_GROUP_7,
     op2 ''lar'' ''Gv'' ''Ew'',
     op2 ''lsl'' ''Gv'' ''Ew'',
     op0 ''bad'',
     op0 ''syscall'',
     op0 ''clts'',
     op0 ''sysret'',
     op0 ''invd'',
     op0 ''wbinvd'',
     op0 ''bad'',
     op0 ''ud2'',
     op0 ''bad'',
     op0_flag ''modrm_group_p'' X86_INSN_FLAG_MODRM_REG_GROUP_p,
     op0 ''femms'',
     op0 ''escape_3dnow'',
     op2_flag ''movups'' X86_INSN_FLAG_SSE_GROUP_10 ''Gx'' ''Ex'',
     op2_flag ''movups'' X86_INSN_FLAG_SSE_GROUP_10 ''Ex'' ''Gx'',
     op2_flag ''movlps'' X86_INSN_FLAG_SSE_GROUP_10 ''Ex'' ''Gx'',
     op2_flag ''movlps'' X86_INSN_FLAG_SSE_GROUP_10 ''Gx'' ''Ex'',
     op2_flag ''unpcklps'' X86_INSN_FLAG_SSE_GROUP_10 ''Gx'' ''Ex'',
     op2_flag ''unpckhps'' X86_INSN_FLAG_SSE_GROUP_10 ''Gx'' ''Ex'',
     op2_flag ''movhps'' X86_INSN_FLAG_SSE_GROUP_10 ''Ex'' ''Gx'',
     op2_flag ''movhps'' X86_INSN_FLAG_SSE_GROUP_10 ''Gx'' ''Ex'',
     op0_flag ''modrm_group_16'' X86_INSN_FLAG_MODRM_REG_GROUP_16,
     op0 ''nop'',
     op0 ''nop'',
     op0 ''nop'',
     op0 ''nop'',
     op0 ''nop'',
     op0 ''nop'',
     op0 ''nop'',
     op2 ''mov'' ''Rv'' ''Cv'',
     op2 ''mov'' ''Rv'' ''Dv'',
     op2 ''mov'' ''Cv'' ''Rv'',
     op2 ''mov'' ''Dv'' ''Rv'',
     op0 ''bad'',
     op0 ''bad'',
     op0 ''bad'',
     op0 ''bad'',
     op2_flag ''movaps'' X86_INSN_FLAG_SSE_GROUP_28 ''Gx'' ''Ex'',
     op2_flag ''movaps'' X86_INSN_FLAG_SSE_GROUP_28 ''Ex'' ''Gx'',
     op2_flag ''cvtpi2ps'' X86_INSN_FLAG_SSE_GROUP_28 ''Gx'' ''Ex'',
     op2_flag ''movntps'' X86_INSN_FLAG_SSE_GROUP_28 ''Mx'' ''Gx'',
     op2_flag ''cvttps2pi'' X86_INSN_FLAG_SSE_GROUP_28 ''Gx'' ''Ex'',
     op2_flag ''cvtps2pi'' X86_INSN_FLAG_SSE_GROUP_28 ''Gx'' ''Ex'',
     op2_flag ''ucomiss'' X86_INSN_FLAG_SSE_GROUP_28 ''Gx'' ''Ex'',
     op2_flag ''comiss'' X86_INSN_FLAG_SSE_GROUP_28 ''Gx'' ''Ex'',
     op0 ''wrmsr'',
     op0 ''rdtsc'',
     op0 ''rdmsr'',
     op0 ''rdpmc'',
     op0 ''sysenter'',
     op0 ''sysexit'',
     op0 ''bad'',
     op0 ''bad'',
     op0 ''bad'',
     op0 ''bad'',
     op0 ''bad'',
     op0 ''bad'',
     op0 ''bad'',
     op0 ''bad'',
     op0 ''bad'',
     op0 ''bad'']"

definition x86_opcode_map_two_byte_40 :: "x86_insn_spec list" where
  "x86_opcode_map_two_byte_40 =
     map (\<lambda>x. op2 (''cmov'' @ x) ''Gv'' ''Ev'') foreach_x86_condition @
     [op2_flag ''movmskps'' X86_INSN_FLAG_SSE_GROUP_50 ''Gd'' ''Rx'',
     op2_flag ''sqrtps'' X86_INSN_FLAG_SSE_GROUP_50 ''Gx'' ''Ex'',
     op2_flag ''rsqrtps'' X86_INSN_FLAG_SSE_GROUP_50 ''Gx'' ''Ex'',
     op2_flag ''rcpps'' X86_INSN_FLAG_SSE_GROUP_50 ''Gx'' ''Ex'',
     op2_flag ''andps'' X86_INSN_FLAG_SSE_GROUP_50 ''Gx'' ''Ex'',
     op2_flag ''andnps'' X86_INSN_FLAG_SSE_GROUP_50 ''Gx'' ''Ex'',
     op2_flag ''orps'' X86_INSN_FLAG_SSE_GROUP_50 ''Gx'' ''Ex'',
     op2_flag ''xorps'' X86_INSN_FLAG_SSE_GROUP_50 ''Gx'' ''Ex'',
     op2_flag ''addps'' X86_INSN_FLAG_SSE_GROUP_58 ''Gx'' ''Ex'',
     op2_flag ''mulps'' X86_INSN_FLAG_SSE_GROUP_58 ''Gx'' ''Ex'',
     op2_flag ''cvtps2pd'' X86_INSN_FLAG_SSE_GROUP_58 ''Gx'' ''Ex'',
     op2_flag ''cvtdq2ps'' X86_INSN_FLAG_SSE_GROUP_58 ''Gx'' ''Ex'',
     op2_flag ''subps'' X86_INSN_FLAG_SSE_GROUP_58 ''Gx'' ''Ex'',
     op2_flag ''minps'' X86_INSN_FLAG_SSE_GROUP_58 ''Gx'' ''Ex'',
     op2_flag ''divps'' X86_INSN_FLAG_SSE_GROUP_58 ''Gx'' ''Ex'',
     op2_flag ''maxps'' X86_INSN_FLAG_SSE_GROUP_58 ''Gx'' ''Ex'',
     op2_flag ''punpcklbw'' X86_INSN_FLAG_SSE_GROUP_60 ''Gm'' ''Em'',
     op2_flag ''punpcklwd'' X86_INSN_FLAG_SSE_GROUP_60 ''Gm'' ''Em'',
     op2_flag ''punpckldq'' X86_INSN_FLAG_SSE_GROUP_60 ''Gm'' ''Em'',
     op2_flag ''packsswb'' X86_INSN_FLAG_SSE_GROUP_60 ''Gm'' ''Em'',
     op2_flag ''pcmpgtb'' X86_INSN_FLAG_SSE_GROUP_60 ''Gm'' ''Em'',
     op2_flag ''pcmpgtw'' X86_INSN_FLAG_SSE_GROUP_60 ''Gm'' ''Em'',
     op2_flag ''pcmpgtd'' X86_INSN_FLAG_SSE_GROUP_60 ''Gm'' ''Em'',
     op2_flag ''packuswb'' X86_INSN_FLAG_SSE_GROUP_60 ''Gm'' ''Em'',
     op2_flag ''punpckhbw'' X86_INSN_FLAG_SSE_GROUP_68 ''Gm'' ''Em'',
     op2_flag ''punpckhwd'' X86_INSN_FLAG_SSE_GROUP_68 ''Gm'' ''Em'',
     op2_flag ''punpckhdq'' X86_INSN_FLAG_SSE_GROUP_68 ''Gm'' ''Em'',
     op2_flag ''packssdw'' X86_INSN_FLAG_SSE_GROUP_68 ''Gm'' ''Em'',
     op0_flag ''bad'' X86_INSN_FLAG_SSE_GROUP_68,
     op0_flag ''bad'' X86_INSN_FLAG_SSE_GROUP_68,
     op2_flag ''movd'' X86_INSN_FLAG_SSE_GROUP_68 ''Gm'' ''Em'',
     op2_flag ''movq'' X86_INSN_FLAG_SSE_GROUP_68 ''Gm'' ''Em'',
     op3_flag ''pshufw'' X86_INSN_FLAG_SSE_GROUP_70 ''Gm'' ''Em'' ''Ib'',
     op0_flag ''modrm_group_12'' X86_INSN_FLAG_MODRM_REG_GROUP_12,
     op0_flag ''modrm_group_13'' X86_INSN_FLAG_MODRM_REG_GROUP_13,
     op0_flag ''modrm_group_14'' X86_INSN_FLAG_MODRM_REG_GROUP_14,
     op2_flag ''pcmpeqb'' X86_INSN_FLAG_SSE_GROUP_70 ''Gm'' ''Em'',
     op2_flag ''pcmpeqw'' X86_INSN_FLAG_SSE_GROUP_70 ''Gm'' ''Em'',
     op2_flag ''pcmpeqd'' X86_INSN_FLAG_SSE_GROUP_70 ''Gm'' ''Em'',
     op0_flag ''emms'' X86_INSN_FLAG_SSE_GROUP_70,
     op0_flag ''bad'' X86_INSN_FLAG_SSE_GROUP_78,
     op0_flag ''bad'' X86_INSN_FLAG_SSE_GROUP_78,
     op0_flag ''bad'' X86_INSN_FLAG_SSE_GROUP_78,
     op0_flag ''bad'' X86_INSN_FLAG_SSE_GROUP_78,
     op0_flag ''bad'' X86_INSN_FLAG_SSE_GROUP_78,
     op0_flag ''bad'' X86_INSN_FLAG_SSE_GROUP_78,
     op2_flag ''movd'' X86_INSN_FLAG_SSE_GROUP_78 ''Em'' ''Gm'',
     op2_flag ''movq'' X86_INSN_FLAG_SSE_GROUP_78 ''Em'' ''Gm'']"

definition x86_opcode_map_two_byte_80 :: "x86_insn_spec list" where
  "x86_opcode_map_two_byte_80 =
     map (\<lambda>x. op1 (''jmp'' @ x) ''Jz'') foreach_x86_condition @
     map (\<lambda>x. op1 (''set'' @ x) ''Eb'') foreach_x86_condition @
     [op0 ''push_fs'',
     op0 ''pop_fs'',
     op0 ''cpuid'',
     op2 ''bt'' ''Ev'' ''Gv'',
     op3 ''shld'' ''Ev'' ''Gv'' ''Ib'',
     op3 ''shld'' ''Ev'' ''Gv'' ''CL'',
     op0 ''bad'',
     op0 ''bad'',
     op0 ''push_gs'',
     op0 ''pop_gs'',
     op0 ''rsm'',
     op2 ''bts'' ''Ev'' ''Gv'',
     op3 ''shrd'' ''Ev'' ''Gv'' ''Ib'',
     op3 ''shrd'' ''Ev'' ''Gv'' ''CL'',
     op0_flag ''modrm_group_15'' X86_INSN_FLAG_MODRM_REG_GROUP_15,
     op2 ''imul'' ''Gv'' ''Ev'',
     op2 ''cmpxchg'' ''Eb'' ''Gb'',
     op2 ''cmpxchg'' ''Ev'' ''Gv'',
     op2 ''lss'' ''Gz'' ''Mp'',
     op2 ''btr'' ''Ev'' ''Gv'',
     op2 ''lfs'' ''Gz'' ''Mp'',
     op2 ''lgs'' ''Gz'' ''Mp'',
     op2 ''movzbl'' ''Gv'' ''Eb'',
     op2 ''movzwl'' ''Gv'' ''Ew'',
     op0 ''bad'',
     op0_flag ''modrm_group_10'' X86_INSN_FLAG_MODRM_REG_GROUP_10,
     op2_flag ''modrm_group_8'' X86_INSN_FLAG_MODRM_REG_GROUP_8 ''Ev'' ''Ib'',
     op2 ''btc'' ''Ev'' ''Gv'',
     op2 ''bsf'' ''Gv'' ''Ev'',
     op2 ''bsr'' ''Gv'' ''Ev'',
     op2 ''movsx'' ''Gv'' ''Eb'',
     op2 ''movsx'' ''Gv'' ''Ew'']"

definition x86_opcode_map_two_byte_c0 :: "x86_insn_spec list" where
  "x86_opcode_map_two_byte_c0 =
     [op2 ''xadd'' ''Eb'' ''Gb'',
     op2 ''xadd'' ''Ev'' ''Gv'',
     op3_flag ''cmpps'' X86_INSN_FLAG_SSE_GROUP_c0 ''Gx'' ''Ex'' ''Ib'',
     op2 ''movnti'' ''Mv'' ''Gv'',
     op3_flag ''pinsrw'' X86_INSN_FLAG_SSE_GROUP_c0 ''Gm'' ''Ew'' ''Ib'',
     op3_flag ''pextrw'' X86_INSN_FLAG_SSE_GROUP_c0 ''Gd'' ''Rm'' ''Ib'',
     op3_flag ''shufps'' X86_INSN_FLAG_SSE_GROUP_c0 ''Gx'' ''Ex'' ''Ib'',
     op1_flag ''modrm_group_9'' X86_INSN_FLAG_MODRM_REG_GROUP_9 ''Mx''] @
     map (\<lambda>r. op1 ''bswap'' r) foreach_x86_gp_reg @
     [op0_flag ''bad'' X86_INSN_FLAG_SSE_GROUP_d0,
     op2_flag ''psrlw'' X86_INSN_FLAG_SSE_GROUP_d0 ''Gm'' ''Em'',
     op2_flag ''psrld'' X86_INSN_FLAG_SSE_GROUP_d0 ''Gm'' ''Em'',
     op2_flag ''psrlq'' X86_INSN_FLAG_SSE_GROUP_d0 ''Gm'' ''Em'',
     op2_flag ''paddq'' X86_INSN_FLAG_SSE_GROUP_d0 ''Gm'' ''Em'',
     op2_flag ''pmullw'' X86_INSN_FLAG_SSE_GROUP_d0 ''Gm'' ''Em'',
     op0_flag ''bad'' X86_INSN_FLAG_SSE_GROUP_d0,
     op2_flag ''pmovmskb'' X86_INSN_FLAG_SSE_GROUP_d0 ''Gd'' ''Rm'',
     op2_flag ''psubusb'' X86_INSN_FLAG_SSE_GROUP_d8 ''Gm'' ''Em'',
     op2_flag ''psubusw'' X86_INSN_FLAG_SSE_GROUP_d8 ''Gm'' ''Em'',
     op2_flag ''pminub'' X86_INSN_FLAG_SSE_GROUP_d8 ''Gm'' ''Em'',
     op2_flag ''pand'' X86_INSN_FLAG_SSE_GROUP_d8 ''Gm'' ''Em'',
     op2_flag ''paddusb'' X86_INSN_FLAG_SSE_GROUP_d8 ''Gm'' ''Em'',
     op2_flag ''paddusw'' X86_INSN_FLAG_SSE_GROUP_d8 ''Gm'' ''Em'',
     op2_flag ''pmaxub'' X86_INSN_FLAG_SSE_GROUP_d8 ''Gm'' ''Em'',
     op2_flag ''pandn'' X86_INSN_FLAG_SSE_GROUP_d8 ''Gm'' ''Em'',
     op2_flag ''pavgb'' X86_INSN_FLAG_SSE_GROUP_e0 ''Gm'' ''Em'',
     op2_flag ''psraw'' X86_INSN_FLAG_SSE_GROUP_e0 ''Gm'' ''Em'',
     op2_flag ''psrad'' X86_INSN_FLAG_SSE_GROUP_e0 ''Gm'' ''Em'',
     op2_flag ''pavgw'' X86_INSN_FLAG_SSE_GROUP_e0 ''Gm'' ''Em'',
     op2_flag ''pmulhuw'' X86_INSN_FLAG_SSE_GROUP_e0 ''Gm'' ''Em'',
     op2_flag ''pmulhw'' X86_INSN_FLAG_SSE_GROUP_e0 ''Gm'' ''Em'',
     op2_flag ''bad'' X86_INSN_FLAG_SSE_GROUP_e0 ''Gm'' ''Em'',
     op2_flag ''movntq'' X86_INSN_FLAG_SSE_GROUP_e0 ''Mm'' ''Gm'',
     op2_flag ''psubsb'' X86_INSN_FLAG_SSE_GROUP_e8 ''Gm'' ''Em'',
     op2_flag ''psubsw'' X86_INSN_FLAG_SSE_GROUP_e8 ''Gm'' ''Em'',
     op2_flag ''pminsw'' X86_INSN_FLAG_SSE_GROUP_e8 ''Gm'' ''Em'',
     op2_flag ''por'' X86_INSN_FLAG_SSE_GROUP_e8 ''Gm'' ''Em'',
     op2_flag ''paddsb'' X86_INSN_FLAG_SSE_GROUP_e8 ''Gm'' ''Em'',
     op2_flag ''paddsw'' X86_INSN_FLAG_SSE_GROUP_e8 ''Gm'' ''Em'',
     op2_flag ''pmaxsw'' X86_INSN_FLAG_SSE_GROUP_e8 ''Gm'' ''Em'',
     op2_flag ''pxor'' X86_INSN_FLAG_SSE_GROUP_e8 ''Gm'' ''Em'',
     op0_flag ''bad'' X86_INSN_FLAG_SSE_GROUP_f0,
     op2_flag ''psllw'' X86_INSN_FLAG_SSE_GROUP_f0 ''Gm'' ''Em'',
     op2_flag ''pslld'' X86_INSN_FLAG_SSE_GROUP_f0 ''Gm'' ''Em'',
     op2_flag ''psllq'' X86_INSN_FLAG_SSE_GROUP_f0 ''Gm'' ''Em'',
     op2_flag ''pmuludq'' X86_INSN_FLAG_SSE_GROUP_f0 ''Gm'' ''Em'',
     op2_flag ''pmaddwd'' X86_INSN_FLAG_SSE_GROUP_f0 ''Gm'' ''Em'',
     op2_flag ''psadbw'' X86_INSN_FLAG_SSE_GROUP_f0 ''Gm'' ''Em'',
     op2_flag ''maskmovq'' X86_INSN_FLAG_SSE_GROUP_f0 ''Gm'' ''Em'',
     op2_flag ''psubb'' X86_INSN_FLAG_SSE_GROUP_f8 ''Gm'' ''Em'',
     op2_flag ''psubw'' X86_INSN_FLAG_SSE_GROUP_f8 ''Gm'' ''Em'',
     op2_flag ''psubd'' X86_INSN_FLAG_SSE_GROUP_f8 ''Gm'' ''Em'',
     op2_flag ''psubq'' X86_INSN_FLAG_SSE_GROUP_f8 ''Gm'' ''Em'',
     op2_flag ''paddb'' X86_INSN_FLAG_SSE_GROUP_f8 ''Gm'' ''Em'',
     op2_flag ''paddw'' X86_INSN_FLAG_SSE_GROUP_f8 ''Gm'' ''Em'',
     op2_flag ''paddd'' X86_INSN_FLAG_SSE_GROUP_f8 ''Gm'' ''Em'',
     op0_flag ''bad'' X86_INSN_FLAG_SSE_GROUP_f8]"

definition x86_opcode_map_two_byte :: "x86_insn_spec list" where
  "x86_opcode_map_two_byte = x86_opcode_map_two_byte_00 @ x86_opcode_map_two_byte_40 @ x86_opcode_map_two_byte_80 @ x86_opcode_map_two_byte_c0"

subsection \<open>Groups selected by the reg field of ModR/M\<close>

text \<open>A designated initialiser \<^verbatim>\<open>[G].insns = {...}\<close> is a pair of the index and its eight entries.\<close>

definition x86_insn_modrm_reg_groups_1 :: "(nat \<times> x86_insn_spec list) list" where
  "x86_insn_modrm_reg_groups_1 =
    [(X86_INSN_MODRM_REG_GROUP_1,
       [op0 ''add'',
        op0 ''or'',
        op0 ''adc'',
        op0 ''sbb'',
        op0 ''and'',
        op0 ''sub'',
        op0 ''xor'',
        op0 ''cmp'']),
     (X86_INSN_MODRM_REG_GROUP_1a,
       [op0_flag ''pop'' X86_INSN_SPEC_DEFAULT_64_BIT,
        op0 ''bad'',
        op0 ''bad'',
        op0 ''bad'',
        op0 ''bad'',
        op0 ''bad'',
        op0 ''bad'',
        op0 ''bad'']),
     (X86_INSN_MODRM_REG_GROUP_2,
       [op0 ''rol'',
        op0 ''ror'',
        op0 ''rcl'',
        op0 ''rcr'',
        op0 ''shl'',
        op0 ''shr'',
        op0 ''sal'',
        op0 ''sar'']),
     (X86_INSN_MODRM_REG_GROUP_3,
       [op0 ''test'',
        op0 ''test'',
        op0 ''not'',
        op0 ''neg'',
        op0 ''mul'',
        op0 ''imul'',
        op0 ''div'',
        op0 ''idiv'']),
     (X86_INSN_MODRM_REG_GROUP_4,
       [op0 ''inc'',
        op0 ''dec'',
        op0 ''bad'',
        op0 ''bad'',
        op0 ''bad'',
        op0 ''bad'',
        op0 ''bad'',
        op0 ''bad'']),
     (X86_INSN_MODRM_REG_GROUP_5,
       [op1 ''inc'' ''Ev'',
        op1 ''dec'' ''Ev'',
        op1_flag ''call'' X86_INSN_SPEC_DEFAULT_64_BIT ''Ev'',
        op1 ''call'' ''Mp'',
        op1_flag ''jmp'' X86_INSN_SPEC_DEFAULT_64_BIT ''Ev'',
        op1 ''jmp'' ''Mp'',
        op1_flag ''push'' X86_INSN_SPEC_DEFAULT_64_BIT ''Ev'',
        op0 ''bad'']),
     (X86_INSN_MODRM_REG_GROUP_6,
       [op1 ''sldt'' ''Ev'',
        op1 ''str'' ''Ev'',
        op1 ''lldt'' ''Ev'',
        op1 ''ltr'' ''Ev'',
        op1 ''verr'' ''Ev'',
        op1 ''verw'' ''Ev'',
        op0 ''bad'',
        op0 ''bad'']),
     (X86_INSN_MODRM_REG_GROUP_7,
       [op1 ''sgdt'' ''Mv'',
        op1 ''sidt'' ''Mv'',
        op1 ''lgdt'' ''Mv'',
        op1 ''lidt'' ''Mv'',
        op1 ''smsw'' ''Ev'',
        op0 ''bad'',
        op1 ''lmsw'' ''Ew'',
        op1 ''invlpg'' ''Mv'']),
     (X86_INSN_MODRM_REG_GROUP_8,
       [op0 ''bad'',
        op0 ''bad'',
        op0 ''bad'',
        op0 ''bad'',
        op2 ''bt'' ''Ev'' ''Ib'',
        op2 ''bts'' ''Ev'' ''Ib'',
        op2 ''btr'' ''Ev'' ''Ib'',
        op2 ''btc'' ''Ev'' ''Ib''])]"

definition x86_insn_modrm_reg_groups_9 :: "(nat \<times> x86_insn_spec list) list" where
  "x86_insn_modrm_reg_groups_9 =
    [(X86_INSN_MODRM_REG_GROUP_9,
       [op0 ''bad'',
        op1 ''cmpxchg'' ''Mx'',
        op0 ''bad'',
        op0 ''bad'',
        op0 ''bad'',
        op0 ''bad'',
        op0 ''bad'',
        op0 ''bad'']),
     (X86_INSN_MODRM_REG_GROUP_10,
       [op0 ''bad'',
        op0 ''bad'',
        op0 ''bad'',
        op0 ''bad'',
        op0 ''bad'',
        op0 ''bad'',
        op0 ''bad'',
        op0 ''bad'']),
     (X86_INSN_MODRM_REG_GROUP_11,
       [op0 ''mov'',
        op0 ''bad'',
        op0 ''bad'',
        op0 ''bad'',
        op0 ''bad'',
        op0 ''bad'',
        op0 ''bad'',
        op0 ''bad'']),
     (X86_INSN_MODRM_REG_GROUP_12,
       [op0 ''bad'',
        op0 ''bad'',
        op2 ''psrlw'' ''Rm'' ''Ib'',
        op0 ''bad'',
        op2 ''psraw'' ''Rm'' ''Ib'',
        op0 ''bad'',
        op2 ''psllw'' ''Rm'' ''Ib'',
        op0 ''bad'']),
     (X86_INSN_MODRM_REG_GROUP_13,
       [op0 ''bad'',
        op0 ''bad'',
        op2 ''psrld'' ''Rm'' ''Ib'',
        op0 ''bad'',
        op2 ''psrad'' ''Rm'' ''Ib'',
        op0 ''bad'',
        op2 ''pslld'' ''Rm'' ''Ib'',
        op0 ''bad'']),
     (X86_INSN_MODRM_REG_GROUP_14,
       [op0 ''bad'',
        op0 ''bad'',
        op2 ''psrlq'' ''Rm'' ''Ib'',
        op0_flag ''bad'' 0,
        op0 ''bad'',
        op0 ''bad'',
        op2 ''psllq'' ''Rm'' ''Ib'',
        op0_flag ''bad'' 0]),
     (X86_INSN_MODRM_REG_GROUP_15,
       [op1 ''fxsave'' ''Mv'',
        op1 ''fxrstor'' ''Mv'',
        op1 ''ldmxcsr'' ''Mv'',
        op1 ''stmxcsr'' ''Mv'',
        op0 ''bad'',
        op1 ''lfence'' ''Mv'',
        op1 ''mfence'' ''Mv'',
        op1 ''sfence'' ''Mv'']),
     (X86_INSN_MODRM_REG_GROUP_16,
       [op1 ''prefetch_nta'' ''Mv'',
        op1 ''prefetch_t0'' ''Mv'',
        op1 ''prefetch_t1'' ''Mv'',
        op1 ''prefetch_t2'' ''Mv'',
        op1 ''prefetch_nop'' ''Mv'',
        op1 ''prefetch_nop'' ''Mv'',
        op1 ''prefetch_nop'' ''Mv'',
        op1 ''prefetch_nop'' ''Mv'']),
     (X86_INSN_MODRM_REG_GROUP_p,
       [op1 ''prefetch_exclusive'' ''Mv'',
        op1 ''prefetch_modified'' ''Mv'',
        op1 ''prefetch_nop'' ''Mv'',
        op1 ''prefetch_modified'' ''Mv'',
        op1 ''prefetch_nop'' ''Mv'',
        op1 ''prefetch_nop'' ''Mv'',
        op1 ''prefetch_nop'' ''Mv'',
        op1 ''prefetch_nop'' ''Mv''])]"

definition x86_insn_modrm_reg_groups :: "(nat \<times> x86_insn_spec list) list" where
  "x86_insn_modrm_reg_groups = x86_insn_modrm_reg_groups_1 @ x86_insn_modrm_reg_groups_9"

text \<open>Reading \<^verbatim>\<open>groups[ndx].insns[i]\<close>: an index no initialiser names holds zeros.\<close>

definition group_insn :: "(nat \<times> x86_insn_spec list) list \<Rightarrow> nat \<Rightarrow> nat \<Rightarrow> x86_insn_spec" where
  "group_insn gs ndx i = (case map_of gs ndx of None \<Rightarrow> zero_spec | Some insns \<Rightarrow> insns ! i)"

subsection \<open>SSE groups\<close>

definition x86_insn_sse_groups_repz_10 :: "(nat \<times> x86_insn_spec list) list" where
  "x86_insn_sse_groups_repz_10 =
    [(X86_INSN_SSE_GROUP_10,
       [op2 ''movss'' ''Gx'' ''Ex'',
        op2 ''movss'' ''Ex'' ''Gx'',
        op2 ''movsldup'' ''Gx'' ''Ex'',
        op0 ''bad'',
        op0 ''bad'',
        op0 ''bad'',
        op2 ''movshdup'' ''Gx'' ''Ex'',
        op0 ''bad'']),
     (X86_INSN_SSE_GROUP_28,
       [op0 ''bad'',
        op0 ''bad'',
        op2 ''cvtsi2ss'' ''Gx'' ''Ev'',
        op0 ''bad'',
        op2 ''cvttss2si'' ''Gv'' ''Ex'',
        op2 ''cvtss2si'' ''Gv'' ''Ex'',
        op0 ''bad'',
        op0 ''bad'']),
     (X86_INSN_SSE_GROUP_50,
       [op0 ''bad'',
        op2 ''sqrtss'' ''Gx'' ''Ex'',
        op2 ''rsqrtps'' ''Gx'' ''Ex'',
        op2 ''rcpss'' ''Gx'' ''Ex'',
        op0 ''bad'',
        op0 ''bad'',
        op0 ''bad'',
        op0 ''bad'']),
     (X86_INSN_SSE_GROUP_58,
       [op2 ''addss'' ''Gx'' ''Ex'',
        op2 ''mulss'' ''Gx'' ''Ex'',
        op2 ''cvtss2sd'' ''Gx'' ''Ex'',
        op2 ''cvttps2dq'' ''Gx'' ''Ex'',
        op2 ''subss'' ''Gx'' ''Ex'',
        op2 ''minss'' ''Gx'' ''Ex'',
        op2 ''divss'' ''Gx'' ''Ex'',
        op2 ''maxss'' ''Gx'' ''Ex'']),
     (X86_INSN_SSE_GROUP_60,
       [op0 ''bad'',
        op0 ''bad'',
        op0 ''bad'',
        op0 ''bad'',
        op0 ''bad'',
        op0 ''bad'',
        op0 ''bad'',
        op0 ''bad'']),
     (X86_INSN_SSE_GROUP_68,
       [op0 ''bad'',
        op0 ''bad'',
        op0 ''bad'',
        op0 ''bad'',
        op0 ''bad'',
        op0 ''bad'',
        op0 ''bad'',
        op2 ''movdqu'' ''Gx'' ''Ex'']),
     (X86_INSN_SSE_GROUP_70,
       [op3 ''pshufhw'' ''Gx'' ''Ex'' ''Ib'',
        op0 ''bad'',
        op0 ''bad'',
        op0 ''bad'',
        op0 ''bad'',
        op0 ''bad'',
        op0 ''bad'',
        op0 ''bad'']),
     (X86_INSN_SSE_GROUP_78,
       [op0 ''bad'',
        op0 ''bad'',
        op0 ''bad'',
        op0 ''bad'',
        op0 ''bad'',
        op0 ''bad'',
        op2 ''movq'' ''Gx'' ''Ex'',
        op2 ''movdqu'' ''Ex'' ''Gx''])]"

definition x86_insn_sse_groups_repz_c0 :: "(nat \<times> x86_insn_spec list) list" where
  "x86_insn_sse_groups_repz_c0 =
    [(X86_INSN_SSE_GROUP_c0,
       [op0 ''bad'',
        op0 ''bad'',
        op3 ''cmpss'' ''Gx'' ''Ex'' ''Ib'',
        op0 ''bad'',
        op0 ''bad'',
        op0 ''bad'',
        op0 ''bad'',
        op0 ''bad'']),
     (X86_INSN_SSE_GROUP_d0,
       [op0 ''bad'',
        op0 ''bad'',
        op0 ''bad'',
        op0 ''bad'',
        op0 ''bad'',
        op0 ''bad'',
        op2 ''movq2dq'' ''Gx'' ''Em'',
        op0 ''bad'']),
     (X86_INSN_SSE_GROUP_d8,
       [op0 ''bad'',
        op0 ''bad'',
        op0 ''bad'',
        op0 ''bad'',
        op0 ''bad'',
        op0 ''bad'',
        op0 ''bad'',
        op0 ''bad'']),
     (X86_INSN_SSE_GROUP_e0,
       [op0 ''bad'',
        op0 ''bad'',
        op0 ''bad'',
        op0 ''bad'',
        op0 ''bad'',
        op0 ''bad'',
        op2 ''cvtdq2pd'' ''Gx'' ''Ex'',
        op0 ''bad'']),
     (X86_INSN_SSE_GROUP_e8,
       [op0 ''bad'',
        op0 ''bad'',
        op0 ''bad'',
        op0 ''bad'',
        op0 ''bad'',
        op0 ''bad'',
        op0 ''bad'',
        op0 ''bad'']),
     (X86_INSN_SSE_GROUP_f0,
       [op0 ''bad'',
        op0 ''bad'',
        op0 ''bad'',
        op0 ''bad'',
        op0 ''bad'',
        op0 ''bad'',
        op0 ''bad'',
        op0 ''bad'']),
     (X86_INSN_SSE_GROUP_f8,
       [op0 ''bad'',
        op0 ''bad'',
        op0 ''bad'',
        op0 ''bad'',
        op0 ''bad'',
        op0 ''bad'',
        op0 ''bad'',
        op0 ''bad''])]"

definition x86_insn_sse_groups_repz :: "(nat \<times> x86_insn_spec list) list" where
  "x86_insn_sse_groups_repz = x86_insn_sse_groups_repz_10 @ x86_insn_sse_groups_repz_c0"

definition x86_insn_sse_groups_operand_size_10 :: "(nat \<times> x86_insn_spec list) list" where
  "x86_insn_sse_groups_operand_size_10 =
    [(X86_INSN_SSE_GROUP_10,
       [op2 ''movupd'' ''Gx'' ''Ex'',
        op2 ''movupd'' ''Ex'' ''Gx'',
        op2 ''movlpd'' ''Gx'' ''Ex'',
        op2 ''movlpd'' ''Ex'' ''Gx'',
        op2 ''unpcklpd'' ''Gx'' ''Ex'',
        op2 ''unpckhpd'' ''Gx'' ''Ex'',
        op2 ''movhpd'' ''Gx'' ''Mx'',
        op2 ''movhpd'' ''Mx'' ''Gx'']),
     (X86_INSN_SSE_GROUP_28,
       [op2 ''movapd'' ''Gx'' ''Ex'',
        op2 ''movapd'' ''Ex'' ''Gx'',
        op2 ''cvtpi2pd'' ''Gx'' ''Ex'',
        op2 ''movntpd'' ''Mx'' ''Gx'',
        op2 ''cvttpd2pi'' ''Gx'' ''Mx'',
        op2 ''cvtpd2pi'' ''Gx'' ''Mx'',
        op2 ''ucomisd'' ''Gx'' ''Ex'',
        op2 ''comisd'' ''Gx'' ''Ex'']),
     (X86_INSN_SSE_GROUP_50,
       [op2 ''movmskpd'' ''Gd'' ''Rx'',
        op2 ''sqrtpd'' ''Gx'' ''Ex'',
        op0 ''bad'',
        op0 ''bad'',
        op2 ''andpd'' ''Gx'' ''Ex'',
        op2 ''andnpd'' ''Gx'' ''Ex'',
        op2 ''orpd'' ''Gx'' ''Ex'',
        op2 ''xorpd'' ''Gx'' ''Ex'']),
     (X86_INSN_SSE_GROUP_58,
       [op2 ''addpd'' ''Gx'' ''Ex'',
        op2 ''mulpd'' ''Gx'' ''Ex'',
        op2 ''cvtpd2ps'' ''Gx'' ''Ex'',
        op2 ''cvtps2dq'' ''Gx'' ''Ex'',
        op2 ''subpd'' ''Gx'' ''Ex'',
        op2 ''minpd'' ''Gx'' ''Ex'',
        op2 ''divpd'' ''Gx'' ''Ex'',
        op2 ''maxpd'' ''Gx'' ''Ex'']),
     (X86_INSN_SSE_GROUP_60,
       [op2 ''punpcklbw'' ''Gx'' ''Ex'',
        op2 ''punpcklwd'' ''Gx'' ''Ex'',
        op2 ''punpckldq'' ''Gx'' ''Ex'',
        op2 ''packsswb'' ''Gx'' ''Ex'',
        op2 ''pcmpgtb'' ''Gx'' ''Ex'',
        op2 ''pcmpgtw'' ''Gx'' ''Ex'',
        op2 ''pcmpgtd'' ''Gx'' ''Ex'',
        op2 ''packuswb'' ''Gx'' ''Ex'']),
     (X86_INSN_SSE_GROUP_68,
       [op2 ''punpckhbw'' ''Gx'' ''Ex'',
        op2 ''punpckhwd'' ''Gx'' ''Ex'',
        op2 ''punpckhdq'' ''Gx'' ''Ex'',
        op2 ''packssdw'' ''Gx'' ''Ex'',
        op2 ''punpcklqdq'' ''Gx'' ''Ex'',
        op2 ''punpckhqdq'' ''Gx'' ''Ex'',
        op2 ''movd'' ''Gx'' ''Ev'',
        op2 ''movdqa'' ''Gx'' ''Ex'']),
     (X86_INSN_SSE_GROUP_70,
       [op3 ''pshufd'' ''Gx'' ''Ex'' ''Ib'',
        op0_flag ''modrm_group_12'' X86_INSN_FLAG_MODRM_REG_GROUP_12,
        op0_flag ''modrm_group_13'' X86_INSN_FLAG_MODRM_REG_GROUP_13,
        op0_flag ''modrm_group_14'' X86_INSN_FLAG_MODRM_REG_GROUP_14,
        op2 ''pcmpeqb'' ''Gx'' ''Ex'',
        op2 ''pcmpeqw'' ''Gx'' ''Ex'',
        op2 ''pcmpeqd'' ''Gx'' ''Ex'',
        op0 ''bad'']),
     (X86_INSN_SSE_GROUP_78,
       [op0 ''bad'',
        op0 ''bad'',
        op0 ''bad'',
        op0 ''bad'',
        op2 ''haddpd'' ''Gx'' ''Ex'',
        op2 ''hsubpd'' ''Gx'' ''Ex'',
        op2 ''movd'' ''Ev'' ''Gx'',
        op2 ''movdqa'' ''Ex'' ''Gx''])]"

definition x86_insn_sse_groups_operand_size_c0 :: "(nat \<times> x86_insn_spec list) list" where
  "x86_insn_sse_groups_operand_size_c0 =
    [(X86_INSN_SSE_GROUP_c0,
       [op0 ''bad'',
        op0 ''bad'',
        op3 ''cmppd'' ''Gx'' ''Ex'' ''Ib'',
        op0 ''bad'',
        op3 ''pinsrw'' ''Gx'' ''Ew'' ''Ib'',
        op3 ''pextrw'' ''Gd'' ''Gx'' ''Ib'',
        op3 ''shufpd'' ''Gx'' ''Ex'' ''Ib'',
        op0 ''bad'']),
     (X86_INSN_SSE_GROUP_d0,
       [op2 ''addsubpd'' ''Gx'' ''Ex'',
        op2 ''psrlw'' ''Gx'' ''Ex'',
        op2 ''psrld'' ''Gx'' ''Ex'',
        op2 ''psrlq'' ''Gx'' ''Ex'',
        op2 ''paddq'' ''Gx'' ''Ex'',
        op2 ''pmullw'' ''Gx'' ''Ex'',
        op2 ''movq'' ''Ex'' ''Gx'',
        op2 ''pmovmskb'' ''Gd'' ''Rx'']),
     (X86_INSN_SSE_GROUP_d8,
       [op2 ''psubusb'' ''Gx'' ''Ex'',
        op2 ''psubusw'' ''Gx'' ''Ex'',
        op2 ''pminub'' ''Gx'' ''Ex'',
        op2 ''pand'' ''Gx'' ''Ex'',
        op2 ''paddusb'' ''Gx'' ''Ex'',
        op2 ''paddusw'' ''Gx'' ''Ex'',
        op2 ''pmaxub'' ''Gx'' ''Ex'',
        op2 ''pandn'' ''Gx'' ''Ex'']),
     (X86_INSN_SSE_GROUP_e0,
       [op2 ''pavgb'' ''Gx'' ''Ex'',
        op2 ''psraw'' ''Gx'' ''Ex'',
        op2 ''psrad'' ''Gx'' ''Ex'',
        op2 ''pavgw'' ''Gx'' ''Ex'',
        op2 ''pmulhuw'' ''Gx'' ''Ex'',
        op2 ''pmulhw'' ''Gx'' ''Ex'',
        op2 ''cvttpd2dq'' ''Gx'' ''Ex'',
        op2 ''movntdq'' ''Mx'' ''Gx'']),
     (X86_INSN_SSE_GROUP_e8,
       [op2 ''psubsb'' ''Gx'' ''Ex'',
        op2 ''psubsw'' ''Gx'' ''Ex'',
        op2 ''pminsw'' ''Gx'' ''Ex'',
        op2 ''por'' ''Gx'' ''Ex'',
        op2 ''paddsb'' ''Gx'' ''Ex'',
        op2 ''paddsw'' ''Gx'' ''Ex'',
        op2 ''pmaxsw'' ''Gx'' ''Ex'',
        op2 ''pxor'' ''Gx'' ''Ex'']),
     (X86_INSN_SSE_GROUP_f0,
       [op0 ''bad'',
        op2 ''psllw'' ''Gx'' ''Ex'',
        op2 ''pslld'' ''Gx'' ''Ex'',
        op2 ''psllq'' ''Gx'' ''Ex'',
        op2 ''pmuludq'' ''Gx'' ''Ex'',
        op2 ''pmaddwd'' ''Gx'' ''Ex'',
        op2 ''psadbw'' ''Gx'' ''Ex'',
        op2 ''maskmovdqu'' ''Gx'' ''Ex'']),
     (X86_INSN_SSE_GROUP_f8,
       [op2 ''psubb'' ''Gx'' ''Ex'',
        op2 ''psubw'' ''Gx'' ''Ex'',
        op2 ''psubd'' ''Gx'' ''Ex'',
        op2 ''psubq'' ''Gx'' ''Ex'',
        op2 ''paddb'' ''Gx'' ''Ex'',
        op2 ''paddw'' ''Gx'' ''Ex'',
        op2 ''paddd'' ''Gx'' ''Ex'',
        op0 ''bad''])]"

definition x86_insn_sse_groups_operand_size :: "(nat \<times> x86_insn_spec list) list" where
  "x86_insn_sse_groups_operand_size = x86_insn_sse_groups_operand_size_10 @ x86_insn_sse_groups_operand_size_c0"

definition x86_insn_sse_groups_repnz_10 :: "(nat \<times> x86_insn_spec list) list" where
  "x86_insn_sse_groups_repnz_10 =
    [(X86_INSN_SSE_GROUP_10,
       [op2 ''movsd'' ''Gx'' ''Ex'',
        op2 ''movsd'' ''Ex'' ''Gx'',
        op2 ''movddup'' ''Gx'' ''Ex'',
        op0 ''bad'',
        op0 ''bad'',
        op0 ''bad'',
        op0 ''bad'',
        op0 ''bad'']),
     (X86_INSN_SSE_GROUP_28,
       [op0 ''bad'',
        op0 ''bad'',
        op2 ''cvtsi2sd'' ''Gx'' ''Ev'',
        op0 ''bad'',
        op2 ''cvttsd2si'' ''Gv'' ''Ex'',
        op2 ''cvtsd2si'' ''Gv'' ''Ex'',
        op0 ''bad'',
        op0 ''bad'']),
     (X86_INSN_SSE_GROUP_50,
       [op0 ''bad'',
        op2 ''sqrtsd'' ''Gx'' ''Ex'',
        op0 ''bad'',
        op0 ''bad'',
        op0 ''bad'',
        op0 ''bad'',
        op0 ''bad'',
        op0 ''bad'']),
     (X86_INSN_SSE_GROUP_58,
       [op2 ''addsd'' ''Gx'' ''Ex'',
        op2 ''mulsd'' ''Gx'' ''Ex'',
        op2 ''cvtsd2ss'' ''Gx'' ''Ex'',
        op0 ''bad'',
        op2 ''subsd'' ''Gx'' ''Ex'',
        op2 ''minsd'' ''Gx'' ''Ex'',
        op2 ''divsd'' ''Gx'' ''Ex'',
        op2 ''maxsd'' ''Gx'' ''Ex'']),
     (X86_INSN_SSE_GROUP_60,
       [op0 ''bad'',
        op0 ''bad'',
        op0 ''bad'',
        op0 ''bad'',
        op0 ''bad'',
        op0 ''bad'',
        op0 ''bad'',
        op0 ''bad'']),
     (X86_INSN_SSE_GROUP_68,
       [op0 ''bad'',
        op0 ''bad'',
        op0 ''bad'',
        op0 ''bad'',
        op0 ''bad'',
        op0 ''bad'',
        op0 ''bad'',
        op0 ''bad'']),
     (X86_INSN_SSE_GROUP_70,
       [op3 ''pshuflw'' ''Gx'' ''Ex'' ''Ib'',
        op0 ''bad'',
        op0 ''bad'',
        op0 ''bad'',
        op0 ''bad'',
        op0 ''bad'',
        op0 ''bad'',
        op0 ''bad'']),
     (X86_INSN_SSE_GROUP_78,
       [op0 ''bad'',
        op0 ''bad'',
        op0 ''bad'',
        op0 ''bad'',
        op2 ''haddps'' ''Gx'' ''Ex'',
        op2 ''hsubps'' ''Gx'' ''Ex'',
        op0 ''bad'',
        op0 ''bad''])]"

definition x86_insn_sse_groups_repnz_c0 :: "(nat \<times> x86_insn_spec list) list" where
  "x86_insn_sse_groups_repnz_c0 =
    [(X86_INSN_SSE_GROUP_c0,
       [op0 ''bad'',
        op0 ''bad'',
        op3 ''cmpsd'' ''Gx'' ''Ex'' ''Ib'',
        op0 ''bad'',
        op0 ''bad'',
        op0 ''bad'',
        op0 ''bad'',
        op0 ''bad'']),
     (X86_INSN_SSE_GROUP_d0,
       [op2 ''addsubps'' ''Gx'' ''Ex'',
        op0 ''bad'',
        op0 ''bad'',
        op0 ''bad'',
        op0 ''bad'',
        op0 ''bad'',
        op2 ''movdq2q'' ''Gm'' ''Ex'',
        op0 ''bad'']),
     (X86_INSN_SSE_GROUP_d8,
       [op0 ''bad'',
        op0 ''bad'',
        op0 ''bad'',
        op0 ''bad'',
        op0 ''bad'',
        op0 ''bad'',
        op0 ''bad'',
        op0 ''bad'']),
     (X86_INSN_SSE_GROUP_e0,
       [op0 ''bad'',
        op0 ''bad'',
        op0 ''bad'',
        op0 ''bad'',
        op0 ''bad'',
        op0 ''bad'',
        op2 ''cvtpd2dq'' ''Gx'' ''Ex'',
        op0 ''bad'']),
     (X86_INSN_SSE_GROUP_e8,
       [op0 ''bad'',
        op0 ''bad'',
        op0 ''bad'',
        op0 ''bad'',
        op0 ''bad'',
        op0 ''bad'',
        op0 ''bad'',
        op0 ''bad'']),
     (X86_INSN_SSE_GROUP_f0,
       [op2 ''lddqu'' ''Gx'' ''Mx'',
        op0 ''bad'',
        op0 ''bad'',
        op0 ''bad'',
        op0 ''bad'',
        op0 ''bad'',
        op0 ''bad'',
        op0 ''bad'']),
     (X86_INSN_SSE_GROUP_f8,
       [op0 ''bad'',
        op0 ''bad'',
        op0 ''bad'',
        op0 ''bad'',
        op0 ''bad'',
        op0 ''bad'',
        op0 ''bad'',
        op0 ''bad''])]"

definition x86_insn_sse_groups_repnz :: "(nat \<times> x86_insn_spec list) list" where
  "x86_insn_sse_groups_repnz = x86_insn_sse_groups_repnz_10 @ x86_insn_sse_groups_repnz_c0"

lemmas op_defs = op0_def op1_def op2_def op3_def op0_flag_def op1_flag_def op2_flag_def op3_flag_def
  operand_data_def

lemmas map_one_byte_defs = x86_opcode_map_one_byte_def x86_opcode_map_one_byte_00_def x86_opcode_map_one_byte_40_def x86_opcode_map_one_byte_80_def x86_opcode_map_one_byte_c0_def
  foreach_x86_operand_combine_def foreach_x86_gp_reg_def foreach_x86_condition_def

lemmas map_two_byte_defs = x86_opcode_map_two_byte_def x86_opcode_map_two_byte_00_def x86_opcode_map_two_byte_40_def x86_opcode_map_two_byte_80_def x86_opcode_map_two_byte_c0_def
  foreach_x86_gp_reg_def foreach_x86_condition_def

subsection \<open>Shape of the tables\<close>

lemma length_map_one_byte: "length x86_opcode_map_one_byte = 256"
  by code_simp

lemma length_map_two_byte: "length x86_opcode_map_two_byte = 256"
  by code_simp

end
