(* ===== verification/X86_Decode.thy ===== *)
theory X86_Decode
  imports X86_Tables
begin

text \<open>
  The instruction reader (\<^verbatim>\<open>x86_insn_reader.c\<close>) and the decoder (\<^verbatim>\<open>x86_insn_decode.c\<close>)
  of \<^verbatim>\<open>InstructionRelocation/x86/x86_insn_decode\<close>. The reader's pointers are offsets from its
  \<^verbatim>\<open>prefix\<close> pointer, which is the start of its own 20-byte buffer for every caller. A read
  outside the buffer, an aborting macro and a use of an uninitialised variable are the values of
  \<open>x86_error\<close>. Structs are records, \<^verbatim>\<open>int64_t\<close> values are 64-bit words.
\<close>

datatype x86_error = OutOfBounds | Unimplemented | Unreachable | UninitializedBits

subsection \<open>Data\<close>

record x86_insn_operand =
  reg :: u8
  mem_base :: u8
  mem_index :: u8
  mem_scale :: u8
  mem_disp :: u32

record x86_insn =
  dflags :: u32
  insn_length :: u32
  displacement_offset :: u8
  immediate_offset :: u8
  ops :: "x86_insn_operand list"
  prefix :: u32
  rex :: u8
  primary_opcode :: u8
  modrm :: u8
  sib :: u8
  immediate :: u64
  insn_spec :: x86_insn_spec

definition X86_INSN_DECODE_FLAG_HAS_BASE :: u32 where "X86_INSN_DECODE_FLAG_HAS_BASE = push_bit 0 1"
definition X86_INSN_DECODE_FLAG_HAS_INDEX :: u32 where "X86_INSN_DECODE_FLAG_HAS_INDEX = push_bit 1 1"
definition X86_INSN_DECODE_FLAG_IS_ADDRESS :: u32 where "X86_INSN_DECODE_FLAG_IS_ADDRESS = push_bit 2 1"
definition X86_INSN_DECODE_FLAG_IP_RELATIVE :: u32 where "X86_INSN_DECODE_FLAG_IP_RELATIVE = push_bit 3 1"
definition X86_INSN_DECODE_FLAG_OPERAND_SIZE_64 :: u32 where "X86_INSN_DECODE_FLAG_OPERAND_SIZE_64 = push_bit 4 1"

definition INSN_PREFIX_LOCK :: u32 where "INSN_PREFIX_LOCK = 0x01"
definition INSN_PREFIX_REPNE :: u32 where "INSN_PREFIX_REPNE = 0x02"
definition INSN_PREFIX_REPE :: u32 where "INSN_PREFIX_REPE = 0x04"
definition INSN_PREFIX_ES :: u32 where "INSN_PREFIX_ES = 0x0008"
definition INSN_PREFIX_CS :: u32 where "INSN_PREFIX_CS = 0x0010"
definition INSN_PREFIX_SS :: u32 where "INSN_PREFIX_SS = 0x0020"
definition INSN_PREFIX_DS :: u32 where "INSN_PREFIX_DS = 0x0040"
definition INSN_PREFIX_FS :: u32 where "INSN_PREFIX_FS = 0x0080"
definition INSN_PREFIX_GS :: u32 where "INSN_PREFIX_GS = 0x0100"
definition INSN_PREFIX_OPERAND_SIZE :: u32 where "INSN_PREFIX_OPERAND_SIZE = 0x0200"
definition INSN_PREFIX_ADDRESS_SIZE :: u32 where "INSN_PREFIX_ADDRESS_SIZE = 0x0400"

text \<open>\<^verbatim>\<open>x86_insn_gp_register_t\<close> (encoding order) and \<^verbatim>\<open>x86_ia32e_register_t\<close>, the enumerators the code uses.\<close>

definition X86_INSN_GP_REG_BX :: u8 where "X86_INSN_GP_REG_BX = 3"
definition X86_INSN_GP_REG_SP :: u8 where "X86_INSN_GP_REG_SP = 4"
definition X86_INSN_GP_REG_BP :: u8 where "X86_INSN_GP_REG_BP = 5"
definition X86_INSN_GP_REG_SI :: u8 where "X86_INSN_GP_REG_SI = 6"

datatype x86_ia32e_register = RNone | RAX | RBX | RCX | RDX | RDI | RSI | RBP | RSP
  | R8 | R9 | R10 | R11 | R12 | R13 | R14 | R15 | RIP

fun ia32e_code :: "x86_ia32e_register \<Rightarrow> u8" where
  "ia32e_code RNone = 0" | "ia32e_code RAX = 1" | "ia32e_code RBX = 2" | "ia32e_code RCX = 3"
| "ia32e_code RDX = 4" | "ia32e_code RDI = 5" | "ia32e_code RSI = 6" | "ia32e_code RBP = 7"
| "ia32e_code RSP = 8" | "ia32e_code R8 = 9" | "ia32e_code R9 = 10" | "ia32e_code R10 = 11"
| "ia32e_code R11 = 12" | "ia32e_code R12 = 13" | "ia32e_code R13 = 14" | "ia32e_code R14 = 15"
| "ia32e_code R15 = 16" | "ia32e_code RIP = 17"

text \<open>The macros and bit-field unions over a REX, ModR/M or SIB byte.\<close>

definition REX_W :: "u8 \<Rightarrow> u8" where "REX_W byte = drop_bit 3 (byte AND 0b00001000)"
definition REX_R :: "u8 \<Rightarrow> u8" where "REX_R byte = drop_bit 2 (byte AND 0b00000100)"
definition REX_X :: "u8 \<Rightarrow> u8" where "REX_X byte = drop_bit 1 (byte AND 0b00000010)"
definition REX_B :: "u8 \<Rightarrow> u8" where "REX_B byte = drop_bit 0 (byte AND 0b00000001)"

definition modrm_rm :: "u8 \<Rightarrow> u8" where "modrm_rm b = take_bit 3 b"
definition modrm_reg :: "u8 \<Rightarrow> u8" where "modrm_reg b = take_bit 3 (drop_bit 3 b)"
definition modrm_mode :: "u8 \<Rightarrow> u8" where "modrm_mode b = take_bit 2 (drop_bit 6 b)"
definition sib_base :: "u8 \<Rightarrow> u8" where "sib_base b = take_bit 3 b"
definition sib_index :: "u8 \<Rightarrow> u8" where "sib_index b = take_bit 3 (drop_bit 3 b)"
definition sib_log2_scale :: "u8 \<Rightarrow> u8" where "sib_log2_scale b = take_bit 2 (drop_bit 6 b)"

subsection \<open>The reader\<close>

record x86_insn_reader =
  opcode_ptr :: nat
  modrm_ptr :: nat
  buffer :: "u8 list"
  buffer_cursor :: nat

definition init_reader :: "u8 list \<Rightarrow> x86_insn_reader" where
  "init_reader begin_bytes =
     (if length begin_bytes < 20
      then \<lparr>opcode_ptr = 0, modrm_ptr = 0,
            buffer = begin_bytes @ replicate (20 - length begin_bytes) 0xcc, buffer_cursor = 0\<rparr>
      else \<lparr>opcode_ptr = 0, modrm_ptr = 0, buffer = begin_bytes, buffer_cursor = 0\<rparr>)"

definition reader_offset :: "x86_insn_reader \<Rightarrow> u32" where
  "reader_offset rd = of_nat (buffer_cursor rd)"

definition peek_byte :: "x86_insn_reader \<Rightarrow> x86_error + u8" where
  "peek_byte rd = (if buffer_cursor rd < length (buffer rd) then Inr (buffer rd ! buffer_cursor rd)
     else Inl OutOfBounds)"

definition read_byte :: "x86_insn_reader \<Rightarrow> x86_error + (u8 \<times> x86_insn_reader)" where
  "read_byte rd = (let p = buffer_cursor rd in
     if p < length (buffer rd) then Inr (buffer rd ! p, rd\<lparr>buffer_cursor := p + 1\<rparr>)
     else Inl OutOfBounds)"

definition read_word :: "x86_insn_reader \<Rightarrow> x86_error + (u16 \<times> x86_insn_reader)" where
  "read_word rd = (let p = buffer_cursor rd; b = buffer rd in
     if p + 1 < length b
     then Inr (ucast (b ! p) OR push_bit 8 (ucast (b ! (p + 1))), rd\<lparr>buffer_cursor := p + 2\<rparr>)
     else Inl OutOfBounds)"

definition read_dword :: "x86_insn_reader \<Rightarrow> x86_error + (u32 \<times> x86_insn_reader)" where
  "read_dword rd = (let p = buffer_cursor rd; b = buffer rd in
     if p + 3 < length b
     then Inr (ucast (b ! p) OR push_bit 8 (ucast (b ! (p + 1))) OR push_bit 16 (ucast (b ! (p + 2)))
         OR push_bit 24 (ucast (b ! (p + 3))), rd\<lparr>buffer_cursor := p + 4\<rparr>)
     else Inl OutOfBounds)"

text \<open>\<^verbatim>\<open>read_qword\<close> loads eight bytes but moves the cursor by four.\<close>

definition read_qword :: "x86_insn_reader \<Rightarrow> x86_error + (u64 \<times> x86_insn_reader)" where
  "read_qword rd = (let p = buffer_cursor rd; b = buffer rd in
     if p + 7 < length b
     then Inr (le_word (take 8 (drop p b)), rd\<lparr>buffer_cursor := p + 4\<rparr>)
     else Inl OutOfBounds)"

definition read_imm :: "x86_insn_reader \<Rightarrow> nat \<Rightarrow> x86_error + (u32 \<times> x86_insn_reader)" where
  "read_imm rd sz =
     (if sz = 8 then bind_res (read_byte rd) (\<lambda>(v, rd'). Inr (ucast v, rd'))
      else if sz = 16 then bind_res (read_word rd) (\<lambda>(v, rd'). Inr (ucast v, rd'))
      else if sz = 32 then read_dword rd else Inr (0, rd))"

definition read_modrm :: "x86_insn_reader \<Rightarrow> x86_error + (u8 \<times> x86_insn_reader)" where
  "read_modrm rd =
     (let rd' = (if buffer_cursor rd = modrm_ptr rd then rd\<lparr>buffer_cursor := buffer_cursor rd + 1\<rparr> else rd)
      in if modrm_ptr rd' < length (buffer rd') then Inr (buffer rd' ! modrm_ptr rd', rd')
         else Inl OutOfBounds)"

definition continue_modrm :: "x86_insn_reader \<Rightarrow> x86_insn_reader" where
  "continue_modrm rd = rd\<lparr>modrm_ptr := buffer_cursor rd\<rparr>"

definition continue_opcode :: "x86_insn_reader \<Rightarrow> x86_insn_reader" where
  "continue_opcode rd = rd\<lparr>modrm_ptr := buffer_cursor rd, opcode_ptr := buffer_cursor rd\<rparr>"

lemma read_byte_Inr:
  "read_byte rd = Inr (c, rd') \<longleftrightarrow> buffer_cursor rd < length (buffer rd) \<and>
     c = buffer rd ! buffer_cursor rd \<and> rd' = rd\<lparr>buffer_cursor := buffer_cursor rd + 1\<rparr>"
  by (auto simp: read_byte_def Let_def)

subsection \<open>Prefixes\<close>

definition legacy_prefix :: "u8 \<Rightarrow> u32" where
  "legacy_prefix c =
     (if c = 0xF0 then INSN_PREFIX_LOCK
      else if c = 0xF2 then INSN_PREFIX_REPNE
      else if c = 0xF3 then INSN_PREFIX_REPE
      else if c = 0x2E then INSN_PREFIX_CS
      else if c = 0x36 then INSN_PREFIX_SS
      else if c = 0x3E then INSN_PREFIX_DS
      else if c = 0x26 then INSN_PREFIX_ES
      else if c = 0x64 then INSN_PREFIX_FS
      else if c = 0x65 then INSN_PREFIX_GS
      else if c = 0x66 then INSN_PREFIX_OPERAND_SIZE
      else if c = 0x67 then INSN_PREFIX_ADDRESS_SIZE
      else 0)"

text \<open>The \<^verbatim>\<open>for (;;)\<close> loop; the last argument is the accumulated \<^verbatim>\<open>insn_prefix\<close>.\<close>

function prefix_loop :: "x86_insn_reader \<Rightarrow> x86_insn \<Rightarrow> nat \<Rightarrow> u32 \<Rightarrow>
    x86_error + (u32 \<times> x86_insn_reader \<times> x86_insn)" where
  "prefix_loop rd insn mode insn_prefix =
     bind_res (peek_byte rd) (\<lambda>c.
       if mode = 64 \<and> c \<ge> 0x40 \<and> c \<le> 0x4f then
         bind_res (read_byte rd) (\<lambda>(rx, rd').
           let insn' = (if REX_W rx \<noteq> 0
                 then insn\<lparr>dflags := dflags insn OR X86_INSN_DECODE_FLAG_OPERAND_SIZE_64\<rparr> else insn)
           in Inr (insn_prefix, rd', insn'\<lparr>rex := rx\<rparr>))
       else
         let t = legacy_prefix c in
         if t = 0 then Inr (insn_prefix, rd, insn)
         else bind_res (read_byte rd) (\<lambda>(_, rd'). prefix_loop rd' insn mode (insn_prefix OR t)))"
  by pat_completeness auto
termination
  by (relation "measure (\<lambda>(rd, _). length (buffer rd) - buffer_cursor rd)")
    (auto simp: read_byte_Inr)

declare prefix_loop.simps [simp del]

definition x86_insn_decode_prefix :: "x86_insn_reader \<Rightarrow> x86_insn \<Rightarrow> nat \<Rightarrow>
    x86_error + (u32 \<times> x86_insn_reader \<times> x86_insn)" where
  "x86_insn_decode_prefix rd insn mode = prefix_loop rd insn mode 0"

subsection \<open>Operand specifications\<close>

definition x86_insn_has_modrm_byte :: "x86_insn_spec \<Rightarrow> bool" where
  "x86_insn_has_modrm_byte spec =
     list_ex (\<lambda>o'. code o' \<in> {CHR ''G'', CHR ''E'', CHR ''M'', CHR ''R''}) (operands spec)"

text \<open>
  The loop bound of \<^verbatim>\<open>x86_insn_immediate_type\<close> is \<^verbatim>\<open>sizeof(operands)\<close> (six bytes), not the
  number of operands: past the third operand it reads outside the array.
\<close>

fun immediate_type_from :: "x86_insn_operand_spec list \<Rightarrow> x86_error + char" where
  "immediate_type_from [] = Inl OutOfBounds"
| "immediate_type_from (o' # os) =
     (if code o' \<in> {CHR ''J'', CHR ''I'', CHR ''O''} then Inr (otype o') else immediate_type_from os)"

definition x86_insn_immediate_type :: "x86_insn_spec \<Rightarrow> x86_error + char" where
  "x86_insn_immediate_type spec = immediate_type_from (operands spec)"

definition x86_insn_has_immediate :: "x86_insn_spec \<Rightarrow> bool" where
  "x86_insn_has_immediate spec =
     list_ex (\<lambda>o'. code o' \<in> {CHR ''J'', CHR ''I'', CHR ''O''}) (operands spec)"

definition x86_insn_decode_number :: "x86_insn_reader \<Rightarrow> u8 \<Rightarrow> x86_error + (u64 \<times> x86_insn_reader)" where
  "x86_insn_decode_number rd number_bits =
     (if number_bits = 64 then read_qword rd
      else if number_bits = 32 then bind_res (read_dword rd) (\<lambda>(v, rd'). Inr (ucast v, rd'))
      else if number_bits = 16 then bind_res (read_word rd) (\<lambda>(v, rd'). Inr (ucast v, rd'))
      else if number_bits = 8 then bind_res (read_byte rd) (\<lambda>(v, rd'). Inr (ucast v, rd'))
      else Inl Unreachable)"

subsection \<open>ModR/M, SIB and displacement\<close>

definition upd_mem :: "(x86_insn_operand \<Rightarrow> x86_insn_operand) \<Rightarrow> x86_insn \<Rightarrow> x86_insn" where
  "upd_mem f insn = insn\<lparr>ops := (ops insn)[1 := f (ops insn ! 1)]\<rparr>"

definition or_flags :: "u32 \<Rightarrow> x86_insn \<Rightarrow> x86_insn" where
  "or_flags f insn = insn\<lparr>dflags := dflags insn OR f\<rparr>"

text \<open>The SIB byte and what it changes (\<^verbatim>\<open>has_sib\<close>); \<open>ab\<close> is the effective address size.\<close>

definition decode_sib :: "x86_insn_reader \<Rightarrow> x86_insn \<Rightarrow> u8 \<Rightarrow> u8 \<Rightarrow> u8 \<Rightarrow>
    x86_error + (x86_insn_reader \<times> x86_insn \<times> u8)" where
  "decode_sib rd insn ab md disp_bits =
     bind_res (read_byte rd) (\<lambda>(s, rd').
       let insn1 = insn\<lparr>sib := s\<rparr>;
           base = sib_base s OR push_bit 3 (REX_B (rex insn1));
           index = sib_index s OR push_bit 3 (REX_X (rex insn1));
           scale = push_bit (unat (sib_log2_scale s)) 1;
           insn2 = or_flags X86_INSN_DECODE_FLAG_HAS_BASE insn1;
           insn3 = (if sib_index s \<noteq> X86_INSN_GP_REG_SP
                    then or_flags X86_INSN_DECODE_FLAG_HAS_INDEX insn2 else insn2);
           insn4 = upd_mem (\<lambda>m. m\<lparr>mem_base := base, mem_index := index, mem_scale := scale\<rparr>) insn3;
           insn5 = (if sib_index s = X86_INSN_GP_REG_SP
                    then upd_mem (\<lambda>m. m\<lparr>mem_index := ia32e_code RNone, mem_scale := 0\<rparr>) insn4 else insn4);
           no_base = upd_mem (\<lambda>m. m\<lparr>mem_base := ia32e_code RNone\<rparr>);
           bp_like = (ab = 64 \<and> (base = ia32e_code RBP \<or> base = ia32e_code R13)) \<or>
                     (ab = 32 \<and> base = ia32e_code RBP);
           insn6 = (if bp_like \<and> md = 0 then no_base insn5 else insn5);
           disp_bits' = (if bp_like then (if md = 1 then 8 else 32) else disp_bits);
           insn7 = (if ab = 64 \<and> sib_index s \<noteq> X86_INSN_GP_REG_SP
                    then or_flags X86_INSN_DECODE_FLAG_HAS_INDEX insn6 else insn6)
       in Inr (rd', insn7, disp_bits'))"

text \<open>Addressing forms with a 32-bit or 64-bit effective address.\<close>

definition decode_addr_32_64 :: "x86_insn_reader \<Rightarrow> x86_insn \<Rightarrow> u8 \<Rightarrow> u8 \<Rightarrow> u8 \<Rightarrow>
    x86_error + (x86_insn_reader \<times> x86_insn \<times> u8)" where
  "decode_addr_32_64 rd insn ab md rm =
     (let insn1 = or_flags X86_INSN_DECODE_FLAG_HAS_BASE (upd_mem (\<lambda>m. m\<lparr>mem_base := rm\<rparr>) insn);
          ip_rel = (md = 0 \<and> rm AND 7 = 5);
          insn2 = (if ip_rel
                   then upd_mem (\<lambda>m. m\<lparr>mem_base := ia32e_code RIP\<rparr>)
                          (insn1\<lparr>dflags := X86_INSN_DECODE_FLAG_IP_RELATIVE\<rparr>)
                   else insn1);
          disp_bits = (if ip_rel then 32 else if md = 0 then 0 else if md = 1 then 8
                       else if md = 2 then 32 else 0)
      in if rm AND 7 = 4 then decode_sib rd insn2 ab md disp_bits else Inr (rd, insn2, disp_bits))"

text \<open>Addressing forms with a 16-bit effective address; \<^verbatim>\<open>disp_bits\<close> starts as \<^verbatim>\<open>(uint8_t)-1\<close>.\<close>

definition decode_addr_16 :: "x86_insn \<Rightarrow> u8 \<Rightarrow> x86_insn \<times> u8" where
  "decode_addr_16 insn mbyte =
     (let md = modrm_mode mbyte; rm = modrm_rm mbyte;
          base_index = X86_INSN_DECODE_FLAG_HAS_BASE OR X86_INSN_DECODE_FLAG_HAS_INDEX;
          set_bi = (\<lambda>b. or_flags base_index
             (upd_mem (\<lambda>m. m\<lparr>mem_base := b, mem_index := X86_INSN_GP_REG_SI + (rm AND 1)\<rparr>) insn));
          set_b = (\<lambda>b. or_flags X86_INSN_DECODE_FLAG_HAS_BASE (upd_mem (\<lambda>m. m\<lparr>mem_base := b\<rparr>) insn))
      in if md = 0 \<and> rm = 6 then (insn, 16)
         else if md \<le> 2 then
           (if rm = 0 \<or> rm = 1 then set_bi X86_INSN_GP_REG_BX
            else if rm = 2 \<or> rm = 3 then set_bi X86_INSN_GP_REG_BP
            else if rm = 4 \<or> rm = 5 then set_b (X86_INSN_GP_REG_SI + (rm AND 1))
            else if rm = 6 then set_b X86_INSN_GP_REG_BP
            else set_b X86_INSN_GP_REG_BX,
            if md \<noteq> 0 then (if md = 1 then 8 else 16) else 255)
         else (insn, 255))"

definition decode_displacement :: "x86_insn_reader \<Rightarrow> x86_insn \<Rightarrow> u8 \<Rightarrow>
    x86_error + (x86_insn_reader \<times> x86_insn)" where
  "decode_displacement rd insn disp_bits =
     (if disp_bits \<noteq> 0 then
        let insn1 = insn\<lparr>displacement_offset := ucast (reader_offset rd)\<rparr> in
        bind_res (x86_insn_decode_number rd disp_bits) (\<lambda>(disp, rd').
          Inr (rd', upd_mem (\<lambda>m. m\<lparr>mem_disp := ucast disp\<rparr>) insn1))
      else Inr (rd, insn))"

definition effective_address_bits :: "nat \<Rightarrow> u32 \<Rightarrow> x86_error + u8" where
  "effective_address_bits mode pfx =
     (if mode = 64 then Inr (if pfx AND INSN_PREFIX_ADDRESS_SIZE \<noteq> 0 then 32 else 64)
      else if mode = 32 then Inr (if pfx AND INSN_PREFIX_ADDRESS_SIZE \<noteq> 0 then 16 else 32)
      else Inl UninitializedBits)"

definition x86_insn_decode_modrm_sib :: "x86_insn_reader \<Rightarrow> x86_insn \<Rightarrow> nat \<Rightarrow>
    x86_error + (x86_insn_reader \<times> x86_insn)" where
  "x86_insn_decode_modrm_sib rd insn mode =
     bind_res (read_byte rd) (\<lambda>(mbyte, rd').
       let insn1 = insn\<lparr>modrm := mbyte\<rparr>;
           md = modrm_mode mbyte;
           rm = push_bit 3 (REX_B (rex insn1)) OR modrm_rm mbyte;
           rg = push_bit 3 (REX_R (rex insn1)) OR modrm_reg mbyte;
           insn2 = insn1\<lparr>ops := (ops insn1)[0 := (ops insn1 ! 0)\<lparr>reg := rg\<rparr>]\<rparr>
       in if md = 3 then Inr (rd', upd_mem (\<lambda>m. m\<lparr>reg := rm\<rparr>) insn2)
          else
            let insn3 = or_flags X86_INSN_DECODE_FLAG_IS_ADDRESS insn2 in
            bind_res (effective_address_bits mode (prefix insn3)) (\<lambda>ab.
              bind_res (if ab = 32 \<or> ab = 64 then decode_addr_32_64 rd' insn3 ab md rm
                        else let (i, d) = decode_addr_16 insn3 mbyte in Inr (rd', i, d))
                (\<lambda>(rd'', insn4, disp_bits). decode_displacement rd'' insn4 disp_bits)))"

subsection \<open>Opcode and immediate\<close>

definition x86_insn_decode_opcode :: "x86_insn_reader \<Rightarrow> x86_insn \<Rightarrow>
    x86_error + (x86_insn_reader \<times> x86_insn)" where
  "x86_insn_decode_opcode rd insn =
     bind_res (read_byte rd) (\<lambda>(op1', rd1).
     bind_res (if op1' = 0x0f
               then bind_res (read_byte rd1) (\<lambda>(op2', rd2).
                      Inr (op2', x86_opcode_map_two_byte ! unat op2', rd2))
               else Inr (op1', x86_opcode_map_one_byte ! unat op1', rd1))
       (\<lambda>(opcode, spec, rd2).
          let group_ndx = X86_INSN_FLAG_GET_GROUP (flags spec) in
          if group_ndx > X86_INSN_SSE_GROUP_START then Inl Unimplemented
          else
            bind_res (if group_ndx > X86_INSN_GROUP_START \<and> group_ndx < X86_INSN_SSE_GROUP_START
                      then bind_res (peek_byte rd2) (\<lambda>m.
                        let g = group_insn x86_insn_modrm_reg_groups group_ndx (unat (modrm_reg m))
                        in Inr (spec\<lparr>name := name g, flags := flags g\<rparr>))
                      else Inr spec)
              (\<lambda>spec'. Inr (rd2, insn\<lparr>primary_opcode := opcode, insn_spec := spec'\<rparr>))))"

definition x86_insn_imm_bits :: "x86_insn_spec \<Rightarrow> u8 \<Rightarrow> x86_error + u8" where
  "x86_insn_imm_bits spec operand_bits =
     bind_res (x86_insn_immediate_type spec) (\<lambda>t. Inr
       (if t = CHR ''b'' then 8 else if t = CHR ''w'' then 16 else if t = CHR ''d'' then 32
        else if t = CHR ''q'' then 64
        else if t = CHR ''z'' then (if operand_bits = 64 then 32 else operand_bits)
        else if t = CHR ''v'' then operand_bits else 0))"

definition effective_operand_bits :: "x86_insn \<Rightarrow> nat \<Rightarrow> u8" where
  "effective_operand_bits insn mode =
     (let b0 = (if prefix insn AND INSN_PREFIX_OPERAND_SIZE \<noteq> 0 then 16 else 32);
          b1 = (if dflags insn AND X86_INSN_DECODE_FLAG_OPERAND_SIZE_64 \<noteq> 0 then 64 else b0)
      in if mode = 64 \<and> flags (insn_spec insn) AND X86_INSN_SPEC_DEFAULT_64_BIT \<noteq> 0 then 64 else b1)"

definition x86_insn_decode_immediate :: "x86_insn_reader \<Rightarrow> x86_insn \<Rightarrow> nat \<Rightarrow>
    x86_error + (x86_insn_reader \<times> x86_insn)" where
  "x86_insn_decode_immediate rd insn mode =
     bind_res (x86_insn_imm_bits (insn_spec insn) (effective_operand_bits insn mode)) (\<lambda>imm_bits.
       if imm_bits = 0 then Inr (rd, insn)
       else
         let insn1 = insn\<lparr>immediate_offset := ucast (reader_offset rd)\<rparr> in
         bind_res (x86_insn_decode_number rd imm_bits) (\<lambda>(imm, rd').
           Inr (rd', insn1\<lparr>immediate := imm\<rparr>)))"

subsection \<open>The decoder\<close>

text \<open>The stages after the prefixes: opcode, ModR/M and SIB, immediate, length.\<close>

definition decode_after_prefix :: "x86_insn_reader \<Rightarrow> x86_insn \<Rightarrow> nat \<Rightarrow> x86_error + x86_insn" where
  "decode_after_prefix rd1 insn1 mode =
     bind_res (x86_insn_decode_opcode rd1 insn1) (\<lambda>(rd2, insn2).
     bind_res (if x86_insn_has_modrm_byte (insn_spec insn2)
               then x86_insn_decode_modrm_sib rd2 insn2 mode else Inr (rd2, insn2)) (\<lambda>(rd3, insn3).
     bind_res (if x86_insn_has_immediate (insn_spec insn3)
               then x86_insn_decode_immediate rd3 insn3 mode else Inr (rd3, insn3)) (\<lambda>(rd4, insn4).
       Inr (insn4\<lparr>insn_length := of_nat (buffer_cursor rd4)\<rparr>))))"

text \<open>The argument \<open>bytes\<close> is the memory at \<^verbatim>\<open>buffer\<close>; the first fifteen bytes are copied.\<close>

definition x86_insn_decode :: "x86_insn \<Rightarrow> u8 list \<Rightarrow> nat \<Rightarrow> x86_error + x86_insn" where
  "x86_insn_decode insn bytes mode =
     (if length bytes < 15 then Inl OutOfBounds
      else bind_res (x86_insn_decode_prefix (init_reader (take 15 bytes)) insn mode)
             (\<lambda>(pfx, rd1, insn1). decode_after_prefix rd1 (insn1\<lparr>prefix := pfx\<rparr>) mode))"

text \<open>The zeroed instruction the callers pass.\<close>

definition insn_zero :: x86_insn where
  "insn_zero = \<lparr>dflags = 0, insn_length = 0, displacement_offset = 0, immediate_offset = 0,
     ops = replicate 3 \<lparr>reg = 0, mem_base = 0, mem_index = 0, mem_scale = 0, mem_disp = 0\<rparr>,
     prefix = 0, rex = 0, primary_opcode = 0, modrm = 0, sib = 0, immediate = 0, insn_spec = zero_spec\<rparr>"

subsection \<open>The reader stays inside its buffer\<close>

definition advances :: "x86_insn_reader \<Rightarrow> x86_insn_reader \<Rightarrow> nat \<Rightarrow> bool" where
  "advances rd rd' k \<longleftrightarrow> buffer rd' = buffer rd \<and> buffer_cursor rd \<le> buffer_cursor rd' \<and>
     buffer_cursor rd' \<le> buffer_cursor rd + k \<and> buffer_cursor rd' \<le> length (buffer rd)"

lemma advances_trans:
  "advances rd rd' k \<Longrightarrow> advances rd' rd'' l \<Longrightarrow> advances rd rd'' (k + l)"
  by (auto simp: advances_def)

lemma advances_mono: "advances rd rd' k \<Longrightarrow> k \<le> l \<Longrightarrow> advances rd rd' l"
  by (auto simp: advances_def)

lemma advances_refl: "buffer_cursor rd \<le> length (buffer rd) \<Longrightarrow> advances rd rd k"
  by (simp add: advances_def)

lemma read_byte_Inl: "read_byte rd = Inl e \<longleftrightarrow> length (buffer rd) \<le> buffer_cursor rd \<and> e = OutOfBounds"
  by (auto simp: read_byte_def Let_def)

lemma number_advances:
  "x86_insn_decode_number rd n = Inr (v, rd') \<Longrightarrow>
     advances rd rd' 4 \<and> buffer_cursor rd < buffer_cursor rd'"
  by (auto simp: x86_insn_decode_number_def advances_def read_byte_def read_word_def read_dword_def
      read_qword_def Let_def res_simps split: if_splits)

lemma number_error:
  "x86_insn_decode_number rd n = Inl e \<Longrightarrow> n \<in> {8, 16, 32, 64} \<Longrightarrow>
     e = OutOfBounds \<and> length (buffer rd) < buffer_cursor rd + 8"
  by (auto simp: x86_insn_decode_number_def read_byte_def read_word_def read_dword_def
      read_qword_def Let_def res_simps split: if_splits)

lemma number_error_32:
  "x86_insn_decode_number rd n = Inl e \<Longrightarrow> n \<in> {8, 16, 32} \<Longrightarrow>
     e = OutOfBounds \<and> length (buffer rd) < buffer_cursor rd + 4"
  by (auto simp: x86_insn_decode_number_def read_byte_def read_word_def read_dword_def
      Let_def res_simps split: if_splits)

lemma upd_mem_spec [simp]: "insn_spec (upd_mem f i) = insn_spec i" "dflags (upd_mem f i) = dflags i"
    "prefix (upd_mem f i) = prefix i" "rex (upd_mem f i) = rex i"
    "primary_opcode (upd_mem f i) = primary_opcode i" "immediate (upd_mem f i) = immediate i"
    "immediate_offset (upd_mem f i) = immediate_offset i" "length (ops (upd_mem f i)) = length (ops i)"
    "displacement_offset (upd_mem f i) = displacement_offset i"
  by (simp_all add: upd_mem_def)

lemma or_flags_spec [simp]: "insn_spec (or_flags f i) = insn_spec i" "ops (or_flags f i) = ops i"
    "prefix (or_flags f i) = prefix i" "rex (or_flags f i) = rex i" "dflags (or_flags f i) = (dflags i OR f)"
    "primary_opcode (or_flags f i) = primary_opcode i" "immediate (or_flags f i) = immediate i"
    "immediate_offset (or_flags f i) = immediate_offset i"
    "displacement_offset (or_flags f i) = displacement_offset i"
  by (simp_all add: or_flags_def)

lemma decode_sib_Inr:
  assumes "decode_sib rd insn ab md d = Inr (rd', insn', d')"
  shows "advances rd rd' 1 \<and> buffer_cursor rd' = buffer_cursor rd + 1 \<and>
     insn_spec insn' = insn_spec insn \<and> (d' = d \<or> d' \<in> {8, 32})"
  using assms by (auto simp: decode_sib_def Let_def res_simps read_byte_Inr advances_def
      split: if_splits)

lemma decode_addr_32_64_Inr:
  assumes "decode_addr_32_64 rd insn ab md rm = Inr (rd', insn', d)"
    and "buffer_cursor rd \<le> length (buffer rd)"
  shows "advances rd rd' 1 \<and> insn_spec insn' = insn_spec insn \<and> d \<in> {0, 8, 32}"
  using assms by (auto simp: decode_addr_32_64_def Let_def advances_refl
      dest!: decode_sib_Inr split: if_splits)

lemma decode_addr_32_64_Inl:
  "decode_addr_32_64 rd insn ab md rm = Inl e \<Longrightarrow>
     e = OutOfBounds \<and> length (buffer rd) \<le> buffer_cursor rd"
  by (auto simp: decode_addr_32_64_def decode_sib_def Let_def res_simps read_byte_Inl split: if_splits)

lemma decode_displacement_Inr:
  assumes "decode_displacement rd insn d = Inr (rd', insn')" "buffer_cursor rd \<le> length (buffer rd)"
  shows "advances rd rd' 4 \<and> insn_spec insn' = insn_spec insn"
  using assms by (auto simp: decode_displacement_def Let_def res_simps advances_refl
      dest!: number_advances split: if_splits)

lemma decode_displacement_Inl:
  assumes "decode_displacement rd insn d = Inl e" "d \<in> {0, 8, 16, 32}"
  shows "e = OutOfBounds \<and> length (buffer rd) < buffer_cursor rd + 4"
proof -
  have "d \<in> {8, 16, 32}" "x86_insn_decode_number rd d = Inl e"
    using assms by (auto simp: decode_displacement_def Let_def res_simps split: if_splits)
  then show ?thesis using number_error_32 by blast
qed

lemma effective_address_bits_64:
  "effective_address_bits 64 p = Inr ab \<Longrightarrow> ab = 32 \<or> ab = 64"
  by (auto simp: effective_address_bits_def split: if_splits)

lemma modrm_sib_Inr:
  assumes "x86_insn_decode_modrm_sib rd insn 64 = Inr (rd', insn')"
  shows "advances rd rd' 6 \<and> buffer_cursor rd < buffer_cursor rd' \<and> insn_spec insn' = insn_spec insn"
proof -
  from assms obtain mb rd1 where rb: "read_byte rd = Inr (mb, rd1)"
    by (auto simp: x86_insn_decode_modrm_sib_def res_simps)
  then have r1: "advances rd rd1 1" "buffer_cursor rd1 = buffer_cursor rd + 1"
    "buffer_cursor rd1 \<le> length (buffer rd1)"
    by (auto simp: read_byte_Inr advances_def)
  show ?thesis
  proof (cases "modrm_mode mb = 3")
    case True
    with assms rb r1 show ?thesis
      by (auto simp: x86_insn_decode_modrm_sib_def Let_def intro: advances_mono)
  next
    case False
    with assms rb obtain ab insn3 rd2 insn4 d where
      a: "effective_address_bits 64 (prefix insn) = Inr ab"
         "decode_addr_32_64 rd1 insn3 ab (modrm_mode mb)
            (push_bit 3 (REX_B (rex insn)) OR modrm_rm mb) = Inr (rd2, insn4, d)"
         "decode_displacement rd2 insn4 d = Inr (rd', insn')" "insn_spec insn3 = insn_spec insn"
      by (fastforce simp: x86_insn_decode_modrm_sib_def Let_def res_simps
          dest: effective_address_bits_64)
    from decode_addr_32_64_Inr [OF a(2) r1(3)]
    have r2: "advances rd1 rd2 1" "insn_spec insn4 = insn_spec insn" using a(4) by auto
    then have "buffer_cursor rd2 \<le> length (buffer rd2)" by (auto simp: advances_def)
    from decode_displacement_Inr [OF a(3) this]
    have "advances rd2 rd' 4" "insn_spec insn' = insn_spec insn" using r2 by auto
    then show ?thesis using r1 r2 by (auto simp: advances_def)
  qed
qed

lemma modrm_sib_Inl:
  assumes "x86_insn_decode_modrm_sib rd insn 64 = Inl e"
  shows "e = OutOfBounds \<and> length (buffer rd) < buffer_cursor rd + 6"
proof (cases "read_byte rd")
  case (Inl e')
  with assms show ?thesis by (auto simp: x86_insn_decode_modrm_sib_def read_byte_Inl)
next
  case (Inr p)
  obtain mb rd1 where p: "p = (mb, rd1)" by (cases p)
  then have r1: "buffer rd1 = buffer rd" "buffer_cursor rd1 = buffer_cursor rd + 1"
    "buffer_cursor rd1 \<le> length (buffer rd1)"
    using Inr by (auto simp: read_byte_Inr)
  have "modrm_mode mb \<noteq> 3" using assms Inr p by (auto simp: x86_insn_decode_modrm_sib_def Let_def)
  moreover obtain ab where ab: "effective_address_bits 64 (prefix insn) = Inr ab" "ab = 32 \<or> ab = 64"
    by (auto simp: effective_address_bits_def)
  ultimately obtain insn3 where
    "bind_res (decode_addr_32_64 rd1 insn3 ab (modrm_mode mb)
        (push_bit 3 (REX_B (rex insn)) OR modrm_rm mb))
       (\<lambda>(rd'', insn4, d). decode_displacement rd'' insn4 d) = Inl e"
    using assms Inr p by (fastforce simp: x86_insn_decode_modrm_sib_def Let_def)
  then consider "decode_addr_32_64 rd1 insn3 ab (modrm_mode mb)
        (push_bit 3 (REX_B (rex insn)) OR modrm_rm mb) = Inl e"
    | rd2 insn4 d where "decode_addr_32_64 rd1 insn3 ab (modrm_mode mb)
        (push_bit 3 (REX_B (rex insn)) OR modrm_rm mb) = Inr (rd2, insn4, d)"
        "decode_displacement rd2 insn4 d = Inl e"
    by (fastforce simp: res_simps)
  then show ?thesis
  proof cases
    case 1
    then show ?thesis using r1 by (auto dest!: decode_addr_32_64_Inl)
  next
    case 2
    from decode_addr_32_64_Inr [OF 2(1) r1(3)] decode_displacement_Inl [OF 2(2)] show ?thesis
      using r1 by (auto simp: advances_def)
  qed
qed

subsection \<open>The prefix loop\<close>

definition is_legacy_prefix :: "u8 \<Rightarrow> bool" where
  "is_legacy_prefix c \<longleftrightarrow> legacy_prefix c \<noteq> 0"

definition is_rex :: "nat \<Rightarrow> u8 \<Rightarrow> bool" where
  "is_rex mode c \<longleftrightarrow> mode = 64 \<and> c \<ge> 0x40 \<and> c \<le> 0x4f"

definition rex_insn :: "u8 \<Rightarrow> x86_insn \<Rightarrow> x86_insn" where
  "rex_insn c insn = (if REX_W c \<noteq> 0
     then insn\<lparr>dflags := dflags insn OR X86_INSN_DECODE_FLAG_OPERAND_SIZE_64, rex := c\<rparr>
     else insn\<lparr>rex := c\<rparr>)"

lemma rex_not_legacy: "is_rex mode c \<Longrightarrow> \<not> is_legacy_prefix c"
  by (auto simp: is_rex_def is_legacy_prefix_def legacy_prefix_def word_le_nat_alt)

lemma insn_dflags_rex: "insn\<lparr>dflags := f\<rparr>\<lparr>rex := c\<rparr> = insn\<lparr>dflags := f, rex := c\<rparr>"
  by simp

lemma prefix_loop_step:
  assumes "buffer_cursor rd < length (buffer rd)"
  defines "c \<equiv> buffer rd ! buffer_cursor rd"
  defines "rd' \<equiv> rd\<lparr>buffer_cursor := buffer_cursor rd + 1\<rparr>"
  shows "prefix_loop rd insn mode acc =
    (if is_rex mode c then Inr (acc, rd', rex_insn c insn)
     else if is_legacy_prefix c then prefix_loop rd' insn mode (acc OR legacy_prefix c)
     else Inr (acc, rd, insn))"
  using assms(1) unfolding c_def rd'_def
  by (subst prefix_loop.simps)
    (auto simp: peek_byte_def read_byte_def Let_def is_rex_def is_legacy_prefix_def rex_insn_def)

lemma prefix_loop_spec:
  assumes "k = length (takeWhile is_legacy_prefix (drop (buffer_cursor rd) (buffer rd)))"
    and "buffer_cursor rd + k < length (buffer rd)"
    and "c = buffer rd ! (buffer_cursor rd + k)"
  shows "prefix_loop rd insn mode acc =
    Inr (fold (\<lambda>b a. a OR legacy_prefix b) (take k (drop (buffer_cursor rd) (buffer rd))) acc,
         if is_rex mode c then (rd\<lparr>buffer_cursor := buffer_cursor rd + k + 1\<rparr>, rex_insn c insn)
         else (rd\<lparr>buffer_cursor := buffer_cursor rd + k\<rparr>, insn))"
  using assms
proof (induction k arbitrary: rd acc)
  case 0
  let ?b = "buffer rd ! buffer_cursor rd"
  have "drop (buffer_cursor rd) (buffer rd) = ?b # drop (Suc (buffer_cursor rd)) (buffer rd)"
    using 0 by (simp add: Cons_nth_drop_Suc)
  with 0 have "\<not> is_legacy_prefix ?b" by (auto split: if_splits)
  with 0 show ?case by (auto simp: prefix_loop_step)
next
  case (Suc k)
  let ?b = "buffer rd ! buffer_cursor rd"
  let ?rd = "rd\<lparr>buffer_cursor := buffer_cursor rd + 1\<rparr>"
  have dr: "drop (buffer_cursor rd) (buffer rd) = ?b # drop (Suc (buffer_cursor rd)) (buffer rd)"
    using Suc.prems by (simp add: Cons_nth_drop_Suc)
  with Suc.prems(1) have lp: "is_legacy_prefix ?b"
    and k: "k = length (takeWhile is_legacy_prefix (drop (Suc (buffer_cursor rd)) (buffer rd)))"
    by (auto split: if_splits)
  then have "\<not> is_rex mode ?b" by (auto dest: rex_not_legacy)
  then have "prefix_loop rd insn mode acc = prefix_loop ?rd insn mode (acc OR legacy_prefix ?b)"
    using lp Suc.prems by (simp add: prefix_loop_step)
  also have "\<dots> = Inr (fold (\<lambda>b a. a OR legacy_prefix b)
         (take k (drop (buffer_cursor ?rd) (buffer ?rd))) (acc OR legacy_prefix ?b),
         if is_rex mode c then (?rd\<lparr>buffer_cursor := buffer_cursor ?rd + k + 1\<rparr>, rex_insn c insn)
         else (?rd\<lparr>buffer_cursor := buffer_cursor ?rd + k\<rparr>, insn))"
    using Suc.prems(2,3) by (intro Suc.IH) (simp_all add: k)
  finally show ?case using dr by simp
qed

lemma prefix_run_padded:
  "takeWhile is_legacy_prefix (bs @ replicate n 0xcc) = takeWhile is_legacy_prefix bs"
proof -
  have "takeWhile is_legacy_prefix (replicate n 0xcc) = []"
    by (cases n) (simp_all add: is_legacy_prefix_def legacy_prefix_def)
  then show ?thesis by (induction bs) simp_all
qed

text \<open>The prefix stage of the decoder, on the bytes it is given.\<close>

definition prefix_run :: "u8 list \<Rightarrow> u8 list" where
  "prefix_run bytes = takeWhile is_legacy_prefix (take 15 bytes)"

lemma length_prefix_run: "length (prefix_run bytes) \<le> 15"
proof -
  have "length (prefix_run bytes) \<le> length (take 15 bytes)"
    unfolding prefix_run_def by (rule length_takeWhile_le)
  then show ?thesis by simp
qed

lemma init_reader_15:
  "15 \<le> length bytes \<Longrightarrow> init_reader (take 15 bytes) =
     \<lparr>opcode_ptr = 0, modrm_ptr = 0, buffer = take 15 bytes @ replicate 5 0xcc, buffer_cursor = 0\<rparr>"
  by (simp add: init_reader_def min_def)

lemma decode_prefix_spec:
  assumes "15 \<le> length bytes"
  defines "k \<equiv> length (prefix_run bytes)"
  defines "rd \<equiv> init_reader (take 15 bytes)"
  defines "c \<equiv> (take 15 bytes @ replicate 5 0xcc) ! k"
  shows "x86_insn_decode_prefix rd insn mode =
    Inr (fold (\<lambda>b a. a OR legacy_prefix b) (prefix_run bytes) 0,
         if is_rex mode c then (rd\<lparr>buffer_cursor := k + 1\<rparr>, rex_insn c insn)
         else (rd\<lparr>buffer_cursor := k\<rparr>, insn))"
proof -
  have k: "k = length (takeWhile is_legacy_prefix (drop (buffer_cursor rd) (buffer rd)))"
    by (simp add: k_def rd_def init_reader_15 [OF assms(1)] prefix_run_padded prefix_run_def)
  have "k \<le> 15" unfolding k_def by (rule length_prefix_run)
  then have "buffer_cursor rd + k < length (buffer rd)"
    using assms(1) by (simp add: rd_def init_reader_15 min_def)
  moreover have "take k (drop (buffer_cursor rd) (buffer rd)) = prefix_run bytes"
    using takeWhile_eq_take [of is_legacy_prefix "take 15 bytes @ replicate 5 0xcc"]
    by (simp only: k) (simp add: rd_def init_reader_15 [OF assms(1)] prefix_run_def prefix_run_padded)
  ultimately show ?thesis
    unfolding x86_insn_decode_prefix_def
    by (subst prefix_loop_spec [OF k, where c = c])
      (simp_all add: c_def rd_def init_reader_15 [OF assms(1)])
qed

subsection \<open>Opcodes and immediates\<close>

definition spec_ok :: "x86_insn_spec \<Rightarrow> bool" where
  "spec_ok s \<longleftrightarrow> (x86_insn_has_immediate s \<longrightarrow> x86_insn_immediate_type s \<in>
     {Inr CHR ''b'', Inr CHR ''w'', Inr CHR ''z'', Inr CHR ''v''})"

lemma map_one_byte_ok: "list_all spec_ok x86_opcode_map_one_byte"
  by code_simp

lemma map_two_byte_ok: "list_all spec_ok x86_opcode_map_two_byte"
  by code_simp

lemma spec_ok_cong: "operands s = operands t \<Longrightarrow> spec_ok s = spec_ok t"
  by (simp add: spec_ok_def x86_insn_has_immediate_def x86_insn_immediate_type_def)

lemma nth_maps_ok: "spec_ok (x86_opcode_map_one_byte ! unat (b :: u8))"
    "spec_ok (x86_opcode_map_two_byte ! unat b)"
proof -
  have "unat b < 256" by (rule unat_u8)
  then show "spec_ok (x86_opcode_map_one_byte ! unat b)" "spec_ok (x86_opcode_map_two_byte ! unat b)"
    using map_one_byte_ok map_two_byte_ok
    by (simp_all add: list_all_length length_map_one_byte length_map_two_byte)
qed

lemma opcode_Inr:
  assumes "x86_insn_decode_opcode rd insn = Inr (rd', insn')"
  shows "advances rd rd' 2 \<and> buffer_cursor rd < buffer_cursor rd' \<and> spec_ok (insn_spec insn')"
proof -
  from assms obtain b1 rd1 where b1: "read_byte rd = Inr (b1, rd1)"
    by (auto simp: x86_insn_decode_opcode_def res_simps)
  then have r1: "buffer rd1 = buffer rd" "buffer_cursor rd1 = buffer_cursor rd + 1"
    "buffer_cursor rd < length (buffer rd)"
    by (auto simp: read_byte_Inr)
  have ok: "spec_ok (s\<lparr>name := n, flags := f\<rparr>) = spec_ok s" for s n f
    by (rule spec_ok_cong) simp
  show ?thesis
  proof (cases "b1 = 0x0f")
    case True
    with assms b1 obtain b2 where "read_byte rd1 = Inr (b2, rd')"
      "spec_ok (insn_spec insn') = spec_ok (x86_opcode_map_two_byte ! unat b2)"
      by (auto simp: x86_insn_decode_opcode_def res_simps Let_def ok split: if_splits)
    then show ?thesis using r1 nth_maps_ok by (auto simp: read_byte_Inr advances_def)
  next
    case False
    with assms b1 have "rd' = rd1"
      "spec_ok (insn_spec insn') = spec_ok (x86_opcode_map_one_byte ! unat b1)"
      by (auto simp: x86_insn_decode_opcode_def res_simps Let_def ok split: if_splits)
    then show ?thesis using r1 nth_maps_ok by (auto simp: advances_def)
  qed
qed

lemma opcode_Inl:
  assumes "x86_insn_decode_opcode rd insn = Inl e"
  shows "e = Unimplemented \<or> (e = OutOfBounds \<and> length (buffer rd) < buffer_cursor rd + 3)"
  using assms
  by (auto simp: x86_insn_decode_opcode_def res_simps Let_def read_byte_Inl read_byte_Inr
      peek_byte_def split: if_splits)

lemma effective_operand_bits_cases: "effective_operand_bits insn mode \<in> {16, 32, 64}"
  by (auto simp: effective_operand_bits_def Let_def)

lemma imm_bits_cases:
  assumes "spec_ok s" "x86_insn_has_immediate s" "ob \<in> {16, 32, 64}"
  shows "\<exists>n \<in> {8, 16, 32, 64}. x86_insn_imm_bits s ob = Inr n"
  using assms by (auto simp: spec_ok_def x86_insn_imm_bits_def)

lemma immediate_Inr:
  assumes "x86_insn_decode_immediate rd insn mode = Inr (rd', insn')"
    and "spec_ok (insn_spec insn)" "x86_insn_has_immediate (insn_spec insn)"
  shows "advances rd rd' 4"
proof -
  obtain n where "n \<in> {8, 16, 32, 64}"
    "x86_insn_imm_bits (insn_spec insn) (effective_operand_bits insn mode) = Inr n"
    using imm_bits_cases [OF assms(2,3) effective_operand_bits_cases] by blast
  with assms(1) show ?thesis
    by (auto simp: x86_insn_decode_immediate_def Let_def res_simps dest!: number_advances)
qed

lemma immediate_Inl:
  assumes "x86_insn_decode_immediate rd insn mode = Inl e"
    and "spec_ok (insn_spec insn)" "x86_insn_has_immediate (insn_spec insn)"
  shows "e = OutOfBounds \<and> length (buffer rd) < buffer_cursor rd + 8"
proof -
  obtain n where n: "n \<in> {8, 16, 32, 64}"
    "x86_insn_imm_bits (insn_spec insn) (effective_operand_bits insn mode) = Inr n"
    using imm_bits_cases [OF assms(2,3) effective_operand_bits_cases] by blast
  with assms(1) have "x86_insn_decode_number rd n = Inl e"
    by (auto simp: x86_insn_decode_immediate_def Let_def res_simps split: if_splits)
  then show ?thesis using n(1) number_error by blast
qed

subsection \<open>Properties of the decoder\<close>

lemma decode_stages:
  assumes "15 \<le> length bytes"
  obtains rd1 insn1 where "buffer rd1 = take 15 bytes @ replicate 5 0xcc"
    "buffer_cursor rd1 \<le> length (prefix_run bytes) + 1"
    "x86_insn_decode insn bytes mode = decode_after_prefix rd1 insn1 mode"
proof -
  let ?rd = "init_reader (take 15 bytes)"
  obtain pfx rd1 insn1 where d: "x86_insn_decode_prefix ?rd insn mode = Inr (pfx, rd1, insn1)"
    "buffer rd1 = take 15 bytes @ replicate 5 0xcc" "buffer_cursor rd1 \<le> length (prefix_run bytes) + 1"
    using decode_prefix_spec [OF assms, of insn mode] by (auto simp: init_reader_15 [OF assms] split: if_splits)
  show ?thesis
    by (rule that [of rd1 "insn1\<lparr>prefix := pfx\<rparr>"]) (use d assms in \<open>simp_all add: x86_insn_decode_def\<close>)
qed

text \<open>The three stages of a run that succeeds, or that fails after the opcode.\<close>

lemma stages_Inr:
  assumes "decode_after_prefix rd1 insn1 64 = Inr i"
  obtains rd2 rd3 rd4 insn4 where "advances rd1 rd2 2" "buffer_cursor rd1 < buffer_cursor rd2"
    "advances rd2 rd3 6" "advances rd3 rd4 4" "i = insn4\<lparr>insn_length := of_nat (buffer_cursor rd4)\<rparr>"
proof -
  from assms obtain rd2 insn2 rd3 insn3 rd4 insn4 where
    s2: "x86_insn_decode_opcode rd1 insn1 = Inr (rd2, insn2)" and
    s3: "(if x86_insn_has_modrm_byte (insn_spec insn2)
          then x86_insn_decode_modrm_sib rd2 insn2 64 else Inr (rd2, insn2)) = Inr (rd3, insn3)" and
    s4: "(if x86_insn_has_immediate (insn_spec insn3)
          then x86_insn_decode_immediate rd3 insn3 64 else Inr (rd3, insn3)) = Inr (rd4, insn4)" and
    i: "i = insn4\<lparr>insn_length := of_nat (buffer_cursor rd4)\<rparr>"
    by (auto simp: decode_after_prefix_def res_simps)
  note o = opcode_Inr [OF s2]
  have m3: "advances rd2 rd3 6 \<and> insn_spec insn3 = insn_spec insn2"
    using s3 modrm_sib_Inr [of rd2 insn2 rd3 insn3] o by (auto simp: advances_def split: if_splits)
  moreover have "advances rd3 rd4 4"
    using s4 immediate_Inr [of rd3 insn3 64 rd4 insn4] o m3 by (auto simp: advances_def split: if_splits)
  ultimately show ?thesis using o i by (intro that) auto
qed

lemma stages_Inl:
  assumes dec: "decode_after_prefix rd1 insn1 64 = Inl e"
  shows "e = Unimplemented \<or> (e = OutOfBounds \<and> length (buffer rd1) < buffer_cursor rd1 + 16)"
proof (cases "x86_insn_decode_opcode rd1 insn1")
  case (Inl e')
  with dec opcode_Inl [OF Inl] show ?thesis by (auto simp: decode_after_prefix_def)
next
  case (Inr p2)
  then obtain rd2 insn2 where p2: "x86_insn_decode_opcode rd1 insn1 = Inr (rd2, insn2)" by (cases p2) auto
  note o = opcode_Inr [OF p2]
  define m where "m = (if x86_insn_has_modrm_byte (insn_spec insn2)
               then x86_insn_decode_modrm_sib rd2 insn2 64 else Inr (rd2, insn2))"
  show ?thesis
  proof (cases m)
    case (Inl e')
    then have "x86_insn_decode_modrm_sib rd2 insn2 64 = Inl e'" by (auto simp: m_def split: if_splits)
    from modrm_sib_Inl [OF this] show ?thesis
      using dec p2 Inl o by (auto simp: decode_after_prefix_def m_def advances_def)
  next
    case (Inr p3)
    then obtain rd3 insn3 where p3: "m = Inr (rd3, insn3)" by (cases p3) auto
    have m3: "advances rd2 rd3 6 \<and> insn_spec insn3 = insn_spec insn2"
      using p3 modrm_sib_Inr [of rd2 insn2 rd3 insn3] o by (auto simp: m_def advances_def split: if_splits)
    have "x86_insn_has_immediate (insn_spec insn3)" "x86_insn_decode_immediate rd3 insn3 64 = Inl e"
      using dec p2 p3 by (auto simp: decode_after_prefix_def m_def res_simps split: if_splits)
    from immediate_Inl [OF this(2) _ this(1)] show ?thesis
      using o m3 by (auto simp: advances_def)
  qed
qed

subsection \<open>Reading numbers back\<close>

lemma word16_le: "(ucast b0 OR push_bit 8 (ucast b1) :: u16) = le_word [b0, b1]"
  by simp

lemma word32_le:
  "(ucast b0 OR push_bit 8 (ucast b1) OR push_bit 16 (ucast b2) OR push_bit 24 (ucast b3) :: u32) =
   le_word [b0, b1, b2, b3]"
  by (simp add: push_bit_or push_bit_push_bit or.assoc)

lemma take4_nth: "p + 3 < length b \<Longrightarrow> [b ! p, b ! (p + 1), b ! (p + 2), b ! (p + 3)] = take 4 (drop p b)"
  by (rule nth_equalityI) (auto simp: nth_Cons' numeral_eq_Suc less_Suc_eq)

lemma read_dword_le:
  assumes "take 4 (drop (buffer_cursor rd) (buffer rd)) = le_bytes 4 (w :: u32)"
  shows "read_dword rd = Inr (w, rd\<lparr>buffer_cursor := buffer_cursor rd + 4\<rparr>)"
proof -
  have "length (take 4 (drop (buffer_cursor rd) (buffer rd))) = 4" using assms by simp
  then have "buffer_cursor rd + 3 < length (buffer rd)" by simp
  then show ?thesis using assms
    by (simp only: read_dword_def Let_def word32_le take4_nth if_True)
      (simp add: le_word_le_bytes)
qed

lemma read_qword_le:
  assumes "take 8 (drop (buffer_cursor rd) (buffer rd)) = le_bytes 8 (w :: u64)"
  shows "read_qword rd = Inr (w, rd\<lparr>buffer_cursor := buffer_cursor rd + 4\<rparr>)"
proof -
  have "length (take 8 (drop (buffer_cursor rd) (buffer rd))) = 8" using assms by simp
  then have "buffer_cursor rd + 7 < length (buffer rd)" by simp
  then show ?thesis using assms by (simp add: read_qword_def Let_def le_word_le_bytes)
qed

subsection \<open>Instructions without ModR/M byte\<close>

lemma decode_no_modrm:
  assumes "15 \<le> length bytes" "bytes = c # rest" "\<not> is_legacy_prefix c" "\<not> is_rex 64 c" "c \<noteq> 0x0f"
    and "spec = x86_opcode_map_one_byte ! unat c" "X86_INSN_FLAG_GET_GROUP (flags spec) = 0"
    and "\<not> x86_insn_has_modrm_byte spec"
  defines "rd \<equiv> \<lparr>opcode_ptr = 0, modrm_ptr = 0, buffer = take 15 bytes @ replicate 5 0xcc, buffer_cursor = 1\<rparr>"
  defines "i \<equiv> insn_zero\<lparr>primary_opcode := c, insn_spec := spec\<rparr>"
  shows "x86_insn_decode insn_zero bytes 64 =
     bind_res (if x86_insn_has_immediate spec then x86_insn_decode_immediate rd i 64 else Inr (rd, i))
       (\<lambda>(rd4, insn4). Inr (insn4\<lparr>insn_length := of_nat (buffer_cursor rd4)\<rparr>))"
proof -
  have run: "prefix_run bytes = []" using assms(2,3) by (simp add: prefix_run_def take_Cons')
  have c: "(take 15 bytes @ replicate 5 0xcc) ! 0 = c" using assms(2) by (simp add: take_Cons')
  let ?rd = "\<lparr>opcode_ptr = 0, modrm_ptr = 0, buffer = take 15 bytes @ replicate 5 0xcc, buffer_cursor = 0\<rparr>"
  have "x86_insn_decode_prefix (init_reader (take 15 bytes)) insn_zero 64 = Inr (0, ?rd, insn_zero)"
    using decode_prefix_spec [OF assms(1), of insn_zero 64] assms(4)
    by (simp only: run c list.size(3) if_False fold_simps init_reader_15 [OF assms(1)]
        x86_insn_reader.update_convs)
  then have "x86_insn_decode insn_zero bytes 64 = decode_after_prefix ?rd (insn_zero\<lparr>prefix := 0\<rparr>) 64"
    using assms(1) by (simp add: x86_insn_decode_def)
  moreover have "insn_zero\<lparr>prefix := 0\<rparr> = insn_zero" by (simp add: insn_zero_def)
  moreover have "read_byte ?rd = Inr (c, rd)" using c assms(1) by (simp add: read_byte_def Let_def rd_def)
  ultimately show ?thesis using assms(5-8)
    by (simp add: decode_after_prefix_def x86_insn_decode_opcode_def Let_def
        X86_INSN_SSE_GROUP_START_def X86_INSN_GROUP_START_def i_def)
qed

lemma spec_rel32:
  "x86_opcode_map_one_byte ! 0xE8 = op1_flag ''call'' X86_INSN_SPEC_DEFAULT_64_BIT ''Jz''"
  "x86_opcode_map_one_byte ! 0xE9 = op1_flag ''jmp'' X86_INSN_SPEC_DEFAULT_64_BIT ''Jz''"
  "x86_opcode_map_one_byte ! 0xEB = op1 ''jmp'' ''Jb''"
  by code_simp+

lemma decode_rel32:
  assumes "c = 0xE8 \<or> c = 0xE9" "10 \<le> length rest"
  shows "\<exists>i. x86_insn_decode insn_zero (c # le_bytes 4 (off :: u32) @ rest) 64 = Inr i \<and>
    primary_opcode i = c \<and> insn_length i = 5 \<and> immediate i = ucast off \<and> immediate_offset i = 1 \<and>
    dflags i = 0"
proof -
  let ?bytes = "c # le_bytes 4 off @ rest"
  let ?spec = "x86_opcode_map_one_byte ! unat c"
  let ?rd = "\<lparr>opcode_ptr = 0, modrm_ptr = 0, buffer = take 15 ?bytes @ replicate 5 0xcc, buffer_cursor = 1\<rparr>"
  have sp: "X86_INSN_FLAG_GET_GROUP (flags ?spec) = 0" "\<not> x86_insn_has_modrm_byte ?spec"
    "x86_insn_has_immediate ?spec" "x86_insn_immediate_type ?spec = Inr CHR ''z''"
    "flags ?spec AND X86_INSN_SPEC_DEFAULT_64_BIT \<noteq> 0"
    using assms(1) by (auto simp: spec_rel32) code_simp+
  have dw: "read_dword ?rd = Inr (off, ?rd\<lparr>buffer_cursor := 5\<rparr>)"
    by (subst read_dword_le [where w = off]) (simp_all add: take_Cons')
  have "\<not> is_legacy_prefix c" "\<not> is_rex 64 c" "c \<noteq> 0x0f"
    using assms(1) by (auto simp: is_legacy_prefix_def legacy_prefix_def is_rex_def)
  with assms(2) sp dw show ?thesis
    by (subst decode_no_modrm [where c = c and rest = "le_bytes 4 off @ rest" and spec = ?spec])
      (simp_all add: x86_insn_decode_immediate_def x86_insn_imm_bits_def effective_operand_bits_def
        Let_def x86_insn_decode_number_def reader_offset_def insn_zero_def)
qed

definition rel8_spec_ok :: "x86_insn_spec \<Rightarrow> bool" where
  "rel8_spec_ok s \<longleftrightarrow> X86_INSN_FLAG_GET_GROUP (flags s) = 0 \<and> \<not> x86_insn_has_modrm_byte s \<and>
     x86_insn_has_immediate s \<and> x86_insn_immediate_type s = Inr CHR ''b''"

definition rel8_opcodes :: "nat list" where
  "rel8_opcodes = 0xE0 # 0xE1 # 0xE2 # 0xE3 # 0xEB # [0x70..<0x80]"

lemma rel8_specs: "list_all (\<lambda>n. rel8_spec_ok (x86_opcode_map_one_byte ! n)) rel8_opcodes"
  by code_simp

lemma rel8_opcodes_plain:
  "list_all (\<lambda>n. \<not> is_legacy_prefix (word_of_nat n) \<and> \<not> is_rex 64 (word_of_nat n) \<and>
     (word_of_nat n :: u8) \<noteq> 0x0f) rel8_opcodes"
  by code_simp

lemma decode_rel8:
  assumes "unat c \<in> set rel8_opcodes" "13 \<le> length rest"
  shows "\<exists>i. x86_insn_decode insn_zero (c # off # rest) 64 = Inr i \<and>
    primary_opcode i = c \<and> insn_length i = 2 \<and> immediate i = ucast off \<and> immediate_offset i = 1 \<and>
    dflags i = 0"
proof -
  let ?spec = "x86_opcode_map_one_byte ! unat c"
  have "rel8_spec_ok ?spec" using rel8_specs assms(1) by (auto simp: list_all_iff)
  moreover have "\<not> is_legacy_prefix c" "\<not> is_rex 64 c" "c \<noteq> 0x0f"
    using rel8_opcodes_plain assms(1) by (auto simp: list_all_iff)
  ultimately show ?thesis using assms(2)
    by (subst decode_no_modrm [where c = c and rest = "off # rest" and spec = ?spec])
      (simp_all add: x86_insn_decode_immediate_def x86_insn_imm_bits_def rel8_spec_ok_def
        Let_def x86_insn_decode_number_def reader_offset_def insn_zero_def read_byte_def take_Cons')
qed

subsection \<open>Safety of the decoder\<close>

lemma decode_safe_64:
  assumes "15 \<le> length bytes" "length (prefix_run bytes) \<le> 3"
  shows "(\<exists>i. x86_insn_decode insn bytes 64 = Inr i) \<or> x86_insn_decode insn bytes 64 = Inl Unimplemented"
proof -
  obtain rd1 insn1 where s: "buffer rd1 = take 15 bytes @ replicate 5 0xcc"
    "buffer_cursor rd1 \<le> length (prefix_run bytes) + 1"
    "x86_insn_decode insn bytes 64 = decode_after_prefix rd1 insn1 64"
    by (rule decode_stages [OF assms(1), of insn 64])
  have "length (buffer rd1) = 20" "buffer_cursor rd1 \<le> 4" using s assms by simp_all
  then show ?thesis using s(3) stages_Inl [of rd1 insn1]
    by (cases "decode_after_prefix rd1 insn1 64") auto
qed

lemma decode_length_64:
  assumes "x86_insn_decode insn bytes 64 = Inr i"
  shows "0 < unat (insn_length i) \<and> unat (insn_length i) \<le> 20"
proof -
  have len: "15 \<le> length bytes" using assms by (auto simp: x86_insn_decode_def split: if_splits)
  obtain rd1 insn1 where s: "buffer rd1 = take 15 bytes @ replicate 5 0xcc"
    "x86_insn_decode insn bytes 64 = decode_after_prefix rd1 insn1 64"
    by (rule decode_stages [OF len, of insn 64])
  have "length (buffer rd1) = 20" using s len by simp
  moreover obtain rd2 rd3 rd4 insn4 where "advances rd1 rd2 2" "buffer_cursor rd1 < buffer_cursor rd2"
    "advances rd2 rd3 6" "advances rd3 rd4 4" "i = insn4\<lparr>insn_length := of_nat (buffer_cursor rd4)\<rparr>"
    using stages_Inr s(2) assms by metis
  ultimately show ?thesis by (auto simp: advances_def unat_of_nat)
qed


lemma decode_length_prefix_64:
  assumes "x86_insn_decode insn bytes 64 = Inr i"
  shows "unat (insn_length i) \<le> length (prefix_run bytes) + 13"
proof -
  have len: "15 \<le> length bytes" using assms by (auto simp: x86_insn_decode_def split: if_splits)
  obtain rd1 insn1 where s: "buffer rd1 = take 15 bytes @ replicate 5 0xcc"
    "buffer_cursor rd1 \<le> length (prefix_run bytes) + 1"
    "x86_insn_decode insn bytes 64 = decode_after_prefix rd1 insn1 64"
    by (rule decode_stages [OF len, of insn 64])
  moreover obtain rd2 rd3 rd4 insn4 where "advances rd1 rd2 2"
    "advances rd2 rd3 6" "advances rd3 rd4 4" "i = insn4\<lparr>insn_length := of_nat (buffer_cursor rd4)\<rparr>"
    using stages_Inr s(3) assms by metis
  moreover have "length (buffer rd1) = 20" using s len by simp
  ultimately show ?thesis by (auto simp: advances_def unat_of_nat)
qed

subsection \<open>Properties\<close>

text \<open>
  C31: In 64-bit mode, on any memory of at least fifteen bytes that starts with at most three legacy
  prefixes, the decoder never reads outside its 20-byte buffer: it either returns an instruction,
  whose length is positive and at most the number of prefixes plus thirteen, or stops in the
  \<^verbatim>\<open>UNIMPLEMENTED\<close> of the SSE groups.
\<close>
theorem x86_decode_total_64:
  assumes "15 \<le> length bytes" "length (prefix_run bytes) \<le> 3"
  shows "(\<exists>i. x86_insn_decode insn bytes 64 = Inr i \<and> 0 < unat (insn_length i) \<and>
            unat (insn_length i) \<le> length (prefix_run bytes) + 13)
    \<or> x86_insn_decode insn bytes 64 = Inl Unimplemented"
  using decode_safe_64 [OF assms] decode_length_64 decode_length_prefix_64 by blast

theorem x86_decode_total_64_witness:
  "\<exists>i. x86_insn_decode insn_zero (0x66 # 0x8b # replicate 13 0) 64 = Inr i \<and> 0 < unat (insn_length i) \<and>
     unat (insn_length i) \<le> 14"
proof -
  have b: "15 \<le> length (0x66 # 0x8b # replicate 13 0 :: u8 list)"
    "length (prefix_run (0x66 # 0x8b # replicate 13 0)) = 1"
    "x86_insn_decode insn_zero (0x66 # 0x8b # replicate 13 0) 64 \<noteq> Inl Unimplemented"
    by code_simp+
  then show ?thesis using x86_decode_total_64 [OF b(1), of insn_zero] by simp
qed

text \<open>
  C32: The prefix stage consumes exactly the maximal run of legacy prefixes and, in 64-bit mode, one
  REX byte after it; it ORs the flags of all the prefixes it saw and records the REX byte.
\<close>
theorem x86_decode_prefix_run:
  assumes "15 \<le> length bytes" "length (prefix_run bytes) < 15"
  shows "x86_insn_decode_prefix (init_reader (take 15 bytes)) insn mode =
    (let k = length (prefix_run bytes); c = bytes ! k; rd = init_reader (take 15 bytes)
     in Inr (fold (\<lambda>b a. a OR legacy_prefix b) (prefix_run bytes) 0,
          if is_rex mode c then (rd\<lparr>buffer_cursor := k + 1\<rparr>, rex_insn c insn)
          else (rd\<lparr>buffer_cursor := k\<rparr>, insn)))"
  using decode_prefix_spec [OF assms(1), of insn mode] assms by (simp add: Let_def nth_append)

theorem x86_decode_prefix_run_witness:
  "x86_insn_decode_prefix (init_reader (take 15 (0xF0 # 0x66 # 0x48 # replicate 12 0))) insn_zero 64 =
     Inr (0x201, (init_reader (take 15 (0xF0 # 0x66 # 0x48 # replicate 12 0)))\<lparr>buffer_cursor := 3\<rparr>,
        insn_zero\<lparr>dflags := 0x10, rex := 0x48\<rparr>)"
proof -
  let ?b = "0xF0 # 0x66 # 0x48 # replicate 12 0 :: u8 list"
  have b: "15 \<le> length ?b" "prefix_run ?b = [0xF0, 0x66]" "is_rex 64 0x48"
    "fold (\<lambda>b a. a OR legacy_prefix b) [0xF0, 0x66] 0 = 0x201"
    "rex_insn 0x48 insn_zero = insn_zero\<lparr>dflags := 0x10, rex := 0x48\<rparr>"
    by code_simp+
  show ?thesis using x86_decode_prefix_run [of ?b insn_zero 64] b
    by (simp add: Let_def del: fold_simps)
qed

text \<open>
  The size of the displacement that the addressing form \<^verbatim>\<open>mod\<close>, \<^verbatim>\<open>r/m\<close> with SIB byte \<open>s\<close> has in the
  Intel manual (64-bit addresses): a SIB base field of 101 with mod 0 means no base and disp32.
\<close>

definition sdm_disp_bits :: "u8 \<Rightarrow> u8 \<Rightarrow> u8 \<Rightarrow> u8" where
  "sdm_disp_bits md rm s =
     (if md = 1 then 8 else if md = 2 then 32
      else if rm AND 7 = 5 \<or> (rm AND 7 = 4 \<and> sib_base s = 5) then 32 else 0)"

text \<open>
  C33: For 64-bit addressing forms the displacement size agrees with the Intel manual except, exactly,
  when mod is 0 with a SIB byte whose base field is 101 (disp32 missed) or whose REX-extended base is
  7 or 14 (disp32 invented): the code compares the encoded base with the enumerators RBP = 7 and
  R13 = 14 of \<^verbatim>\<open>x86_ia32e_register_t\<close>, which are not register encodings.
\<close>
theorem x86_disp_bits_sdm:
  assumes "decode_addr_32_64 rd insn 64 md rm = Inr (rd', insn', d)"
    and "md = 0 \<or> md = 1 \<or> md = 2"
  defines "s \<equiv> buffer rd ! buffer_cursor rd"
  defines "b \<equiv> sib_base s OR push_bit 3 (REX_B (rex insn))"
  shows "d \<noteq> sdm_disp_bits md rm s \<longleftrightarrow>
    md = 0 \<and> rm AND 7 = 4 \<and> (sib_base s = 5 \<or> b = 7 \<or> b = 14)"
proof (cases "rm AND 7 = 4")
  case False
  then show ?thesis using assms(1,2)
    by (auto simp: decode_addr_32_64_def sdm_disp_bits_def Let_def split: if_splits)
next
  case True
  have f: "sib_base s = 5 \<Longrightarrow> b \<noteq> 7 \<and> b \<noteq> 14"
  proof -
    assume "sib_base s = 5"
    moreover have "REX_B (rex insn) = 0 \<or> REX_B (rex insn) = 1"
      by (cases "even (rex insn)") (simp_all add: REX_B_def and_one_eq mod_2_eq_odd)
    ultimately show ?thesis by (auto simp: b_def)
  qed
  then show ?thesis using assms(1,2) True
    by (auto simp: decode_addr_32_64_def decode_sib_def read_byte_Inr res_simps sdm_disp_bits_def Let_def
        s_def b_def rex_insn_def upd_mem_def or_flags_def split: if_splits)
qed

theorem x86_disp_bits_sdm_witness:
  "\<exists>rd' insn' d. decode_addr_32_64 ((init_reader [0x25])) insn_zero 64 0 4 = Inr (rd', insn', d) \<and>
     d \<noteq> sdm_disp_bits 0 4 0x25"
proof -
  let ?rd = "init_reader [0x25]"
  obtain rd' insn' d where r: "decode_addr_32_64 ?rd insn_zero 64 0 4 = Inr (rd', insn', d)"
    by (simp add: decode_addr_32_64_def decode_sib_def init_reader_def read_byte_def Let_def)
  have "sib_base 0x25 = 5" "buffer ?rd ! buffer_cursor ?rd = 0x25" by code_simp+
  then show ?thesis using x86_disp_bits_sdm [OF r] r by auto
qed

end
