(* ===== verification/X86_Reloc.thy ===== *)
theory X86_Reloc
  imports X86_Decode Mem_Alloc
begin

text \<open>
  The x86 instruction relocators: \<^verbatim>\<open>InstructionRelocationX86Shared.cc\<close> with the two
  \<^verbatim>\<open>GenRelocateCodeFixed\<close> of the x64 and the IA-32 builds, and the jump code generators. The
  argument \<open>bytes\<close> is the memory from the buffer cursor on. A run can end with an error of the decoder, a crash
  of the process, or an unimplemented instruction. \<open>ndebug\<close> says whether \<^verbatim>\<open>assert\<close> is compiled out.
  The machine (allocators and process memory) is threaded through the x64 relocator, whose RIP-relative case
  places code in near memory.
\<close>

datatype relo_error = RDecode x86_error | RCrash crash | RUnimplemented | RAssert

definition lift_decode :: "x86_error + 'a \<Rightarrow> relo_error + 'a" where
  "lift_decode r = (case r of Inl e \<Rightarrow> Inl (RDecode e) | Inr x \<Rightarrow> Inr x)"

definition lift_crash :: "crash + 'a \<Rightarrow> relo_error + 'a" where
  "lift_crash r = (case r of Inl e \<Rightarrow> Inl (RCrash e) | Inr x \<Rightarrow> Inr x)"

lemma lift_simps [simp]:
  "lift_decode (Inr x) = Inr x" "lift_decode (Inl e) = Inl (RDecode e)"
  "lift_crash (Inr x) = Inr x" "lift_crash (Inl c) = Inl (RCrash c)"
  "lift_decode r = Inr x \<longleftrightarrow> r = Inr x" "lift_crash r' = Inr y \<longleftrightarrow> r' = Inr y"
  by (auto simp: lift_decode_def lift_crash_def split: sum.splits)

subsection \<open>Emitting jumps\<close>

definition codegen_x64_jmp_absolute_addr :: "code_buffer \<Rightarrow> addr \<Rightarrow> code_buffer" where
  "codegen_x64_jmp_absolute_addr b target = Emit64 (Emit32 (Emit8 (Emit8 b 0xFF) 0x25) 0x00) target"

definition emit_rel32_label :: "code_buffer \<Rightarrow> u32 \<Rightarrow> u32 \<Rightarrow> u32 \<Rightarrow> code_buffer" where
  "emit_rel32_label b last_offset curr_relo_ip orig_dst_ip =
     (let curr_offset = of_nat (GetBufferSize b);
          relo_insn_len = curr_offset + 4 - last_offset;
          relo_ip = curr_relo_ip + relo_insn_len;
          new_offset = orig_dst_ip - relo_ip in
      Emit32 b new_offset)"

definition CurrentIP :: "assembler \<Rightarrow> addr" where
  "CurrentIP a = of_nat (pc_offset a) + realized_addr a"

definition JmpNearIndirect :: "assembler \<Rightarrow> addr \<Rightarrow> assembler" where
  "JmpNearIndirect a forward_stub_addr =
     (let currIP = CurrentIP a + 6;
          offset = ucast (forward_stub_addr - currIP) in
      a\<lparr>asm_buffer := Emit32 (Emit8 (Emit8 (asm_buffer a) 0xFF) 0x25) offset\<rparr>)"

definition JmpNear :: "assembler \<Rightarrow> u32 \<Rightarrow> assembler" where
  "JmpNear a address =
     (let currIP = ucast (CurrentIP a) + 5;
          offset = address - currIP in
      a\<lparr>asm_buffer := Emit32 (Emit8 (asm_buffer a) 0xe9) offset\<rparr>)"

subsection \<open>One instruction, x64\<close>

definition rip_relative :: "nat \<Rightarrow> x86_insn \<Rightarrow> bool" where
  "rip_relative mode insn \<longleftrightarrow> mode = 64 \<and> dflags insn AND X86_INSN_DECODE_FLAG_IP_RELATIVE \<noteq> 0 \<and>
     mem_base (ops insn ! 1) = ia32e_code RIP"

text \<open>The sequence placed in near memory for an instruction with a RIP-relative operand.\<close>

definition rip_insn_sequence :: "u8 list \<Rightarrow> x86_insn \<Rightarrow> u32 \<Rightarrow> addr \<Rightarrow> code_buffer" where
  "rip_insn_sequence bytes insn new_disp relo_next_ip =
     (let b1 = EmitBuffer [] (take (unat (displacement_offset insn)) bytes);
          b2 = Emit32 b1 new_disp;
          b3 = (if immediate_offset insn \<noteq> 0
                then EmitBuffer b2 (take (unat (insn_length insn) - unat (immediate_offset insn))
                       (drop (unat (immediate_offset insn)) bytes))
                else b2) in
      codegen_x64_jmp_absolute_addr b3 relo_next_ip)"

text \<open>
  The allocator and the patch tool are arguments, since the two builds use instances of different address width
  (\<^verbatim>\<open>addr_t\<close> is the word type \<open>'a\<close>).
\<close>

definition relo_rip_insn :: "(u32 \<Rightarrow> 'a word \<Rightarrow> 'a word \<Rightarrow> 'm \<Rightarrow> 'a word \<times> 'm) \<Rightarrow> ('a word \<Rightarrow> u8 list \<Rightarrow> 'm \<Rightarrow> crash + 'm) \<Rightarrow>
    'a::len word \<Rightarrow> 'a word \<Rightarrow> u8 list \<Rightarrow> x86_insn \<Rightarrow> code_buffer \<Rightarrow> 'm \<Rightarrow> relo_error + (code_buffer \<times> 'm)" where
  "relo_rip_insn near_exec patch curr_orig_ip curr_relo_ip bytes insn b m =
     (let orig_disp = mem_disp (ops insn ! 1);
          orig_dst_ip = curr_orig_ip + scast orig_disp;
          jmp_near_range = 2 * 1024 * 1024 * 1024;
          (rip_insn_seq_addr, m1) = near_exec (insn_length insn + 6 + 8) orig_dst_ip jmp_near_range m;
          b1 = Emit64 (Emit32 (Emit8 (Emit8 b 0xFF) 0x25) 0) (ucast rip_insn_seq_addr);
          x86_insn_encoded_len = of_nat (GetBufferSize b1 - GetBufferSize b);
          rip_insn_req_ip = rip_insn_seq_addr + ucast (insn_length insn);
          new_disp = ucast (orig_dst_ip - rip_insn_req_ip);
          relo_next_ip = curr_relo_ip + x86_insn_encoded_len;
          seq = rip_insn_sequence bytes insn new_disp (ucast relo_next_ip) in
      bind_res (lift_crash (patch rip_insn_seq_addr seq m1)) (\<lambda>m2. Inr (b1, m2)))"

definition patch_code :: "addr \<Rightarrow> u8 list \<Rightarrow> machine \<Rightarrow> crash + machine" where
  "patch_code a bs m = bind_res (patch_machine a bs m) (\<lambda>(_, m'). Inr m')"

definition relo_jcc_rel8 :: "u8 \<Rightarrow> addr \<Rightarrow> code_buffer \<Rightarrow> code_buffer" where
  "relo_jcc_rel8 opcode orig_dst_ip b =
     (let label_jcc_cond_true_stage2 = 2;
          b1 = Emit8 (Emit8 b opcode) label_jcc_cond_true_stage2;
          label_cond_false = 6 + 8;
          b2 = Emit8 (Emit8 b1 0xEB) label_cond_false in
      codegen_x64_jmp_absolute_addr b2 orig_dst_ip)"

definition relo_rel32 :: "u8 \<Rightarrow> addr \<Rightarrow> code_buffer \<Rightarrow> code_buffer" where
  "relo_rel32 opcode orig_dst_ip b =
     (let b1 = Emit8 b 0xFF in
      if opcode = 0xE8
      then Emit64 (Emit8 (Emit8 (Emit32 (Emit8 b1 0x15) 2) 0xEB) 0x08) orig_dst_ip
      else Emit64 (Emit32 (Emit8 b1 0x25) 0) orig_dst_ip)"

definition GenRelocateSingleX86Insn :: "kernel \<Rightarrow> bool \<Rightarrow> addr \<Rightarrow> addr \<Rightarrow> u8 list \<Rightarrow> nat \<Rightarrow> code_buffer \<Rightarrow> machine \<Rightarrow>
    relo_error + (x86_insn \<times> code_buffer \<times> machine)" where
  "GenRelocateSingleX86Insn k ndebug orig_ip curr_relo_ip bytes mode b m =
     bind_res (lift_decode (x86_insn_decode insn_zero bytes mode)) (\<lambda>insn.
       let curr_orig_ip = orig_ip + ucast (insn_length insn);
           op = primary_opcode insn in
       if length bytes < unat (insn_length insn) then Inl (RDecode OutOfBounds)
       else if op \<ge> 0x70 \<and> op \<le> 0x7F then
         let offset = ucast (immediate insn) :: 8 word;
             orig_dst_ip = curr_orig_ip + scast offset in
         Inr (insn, relo_jcc_rel8 op orig_dst_ip b, m)
       else if rip_relative mode insn then
         bind_res (relo_rip_insn (allocateNearExecMemory k) patch_code curr_orig_ip curr_relo_ip bytes insn b m) (\<lambda>(b', m'). Inr (insn, b', m'))
       else if op = 0xEB then
         let offset = ucast (immediate insn) :: 8 word;
             orig_dst_ip = curr_orig_ip + scast offset in
         Inr (insn, codegen_x64_jmp_absolute_addr b orig_dst_ip, m)
       else if op = 0xE8 \<or> op = 0xE9 then
         let offset = ucast (immediate insn) :: u32;
             orig_dst_ip = curr_orig_ip + scast offset in
         if \<not> ndebug \<and> immediate_offset insn \<noteq> 1 then Inl RAssert
         else Inr (insn, relo_rel32 op orig_dst_ip b, m)
       else if op \<ge> 0xE0 \<and> op \<le> 0xE2 then Inl RUnimplemented
       else if op = 0xE3 then Inl RUnimplemented
       else Inr (insn, EmitBuffer b (take (unat (insn_length insn)) bytes), m))"

subsection \<open>The whole region, x64\<close>

text \<open>The state of the loop: cursor into the buffer, address of the instruction, assembler buffer, machine.\<close>

record relo_state =
  rl_cursor :: nat
  rl_orig_ip :: addr
  rl_relo_ip :: addr
  rl_code :: code_buffer
  rl_machine :: machine

definition relo_step :: "kernel \<Rightarrow> bool \<Rightarrow> u8 list \<Rightarrow> addr \<Rightarrow> relo_state \<Rightarrow> relo_error + relo_state" where
  "relo_step k ndebug bytes relo_addr s =
     bind_res (GenRelocateSingleX86Insn k ndebug (rl_orig_ip s) (rl_relo_ip s) (drop (rl_cursor s) bytes) 64
                 (rl_code s) (rl_machine s)) (\<lambda>(insn, b, m).
       Inr \<lparr>rl_cursor = rl_cursor s + unat (insn_length insn),
            rl_orig_ip = rl_orig_ip s + ucast (insn_length insn),
            rl_relo_ip = relo_addr + of_nat (GetBufferSize b), rl_code = b, rl_machine = m\<rparr>)"

lemma GenRelocateSingle_decoded:
  assumes "GenRelocateSingleX86Insn k nd o_ip r_ip bytes mode b m = Inr (insn, b', m')"
  shows "x86_insn_decode insn_zero bytes mode = Inr insn" "unat (insn_length insn) \<le> length bytes"
proof -
  obtain i where i: "x86_insn_decode insn_zero bytes mode = Inr i"
    using assms by (auto simp: GenRelocateSingleX86Insn_def bind_res_Inr_iff)
  then show "x86_insn_decode insn_zero bytes mode = Inr insn" "unat (insn_length insn) \<le> length bytes"
    using assms by (auto simp: GenRelocateSingleX86Insn_def bind_res_Inr_iff Let_def not_less
        split: if_splits)
qed

lemma relo_step_advances:
  assumes "relo_step k nd bytes A s = Inr s'"
  shows "rl_cursor s < rl_cursor s'" "rl_cursor s' \<le> length bytes"
proof -
  obtain insn b m where g: "GenRelocateSingleX86Insn k nd (rl_orig_ip s) (rl_relo_ip s) (drop (rl_cursor s) bytes) 64
      (rl_code s) (rl_machine s) = Inr (insn, b, m)" "rl_cursor s' = rl_cursor s + unat (insn_length insn)"
    using assms by (auto simp: relo_step_def bind_res_Inr_iff)
  note d = GenRelocateSingle_decoded [OF g(1)]
  show "rl_cursor s < rl_cursor s'" using decode_length_64 [OF d(1)] g(2) by simp
  then show "rl_cursor s' \<le> length bytes" using d(2) g(2) by simp
qed

function x64_relo_loop :: "kernel \<Rightarrow> bool \<Rightarrow> u8 list \<Rightarrow> addr \<Rightarrow> nat \<Rightarrow> relo_state \<Rightarrow> relo_error + relo_state" where
  "x64_relo_loop k ndebug bytes relo_addr predefined s =
     (if rl_cursor s < predefined
      then bind_res (relo_step k ndebug bytes relo_addr s) (x64_relo_loop k ndebug bytes relo_addr predefined)
      else Inr s)"
  by auto
termination
  by (relation "measure (\<lambda>(k, nd, bytes, A, n, s). n - rl_cursor s)") (auto dest: relo_step_advances)

definition relo_init :: "MemBlock \<Rightarrow> MemBlock \<Rightarrow> machine \<Rightarrow> relo_state" where
  "relo_init origin relocated m =
     \<lparr>rl_cursor = 0, rl_orig_ip = blk_addr origin, rl_relo_ip = blk_addr relocated, rl_code = [], rl_machine = m\<rparr>"

text \<open>
  Returns the status, the origin and relocated blocks as reset, and the machine. The three sizes that the code keeps in an
  \<^verbatim>\<open>int\<close> are cut to 32 bits and extended with their sign where they meet 64-bit values.
\<close>

definition as_int :: "addr \<Rightarrow> addr" where
  "as_int x = scast (ucast x :: u32)"

definition GenRelocateCodeFixed :: "kernel \<Rightarrow> bool \<Rightarrow> u8 list \<Rightarrow> MemBlock \<Rightarrow> MemBlock \<Rightarrow> bool \<Rightarrow> machine \<Rightarrow>
    relo_error + (int \<times> MemBlock \<times> MemBlock \<times> machine)" where
  "GenRelocateCodeFixed k ndebug bytes origin relocated branch m =
     (let predefined_relocate_size = as_int (mr_size origin) in
     bind_res (x64_relo_loop k ndebug bytes (blk_addr relocated) (nat (sint predefined_relocate_size)) (relo_init origin relocated m)) (\<lambda>s.
       let a = (SetRealizedAddress (AssemblerBase 0) (blk_addr relocated))\<lparr>asm_buffer := rl_code s\<rparr>;
           stub_addr = rl_relo_ip s + 6;
           a1 = (if branch
                 then let a' = JmpNearIndirect a stub_addr in a'\<lparr>asm_buffer := Emit64 (asm_buffer a') (rl_orig_ip s)\<rparr>
                 else a);
           new_origin_len = as_int (rl_orig_ip s - blk_addr origin);
           origin' = MemBlock_reset origin (blk_addr origin) new_origin_len;
           relo_len = as_int (of_nat (GetBufferSize (asm_buffer a1))) in
       if relo_len > mr_size relocated then Inr (-1, origin', relocated, rl_machine s)
       else bind_res (lift_crash (FinalizeFromTurboAssembler k a1 (rl_machine s))) (\<lambda>(code, a2, m').
              Inr (0, origin', MemBlock_reset relocated (blk_addr code) (mr_size code), m'))))"

text \<open>
  The retry loop of \<^verbatim>\<open>GenRelocateCodeX86Shared\<close>; \<open>None\<close> when the given number of attempts does not suffice.
  \<open>e\<close> is \<^verbatim>\<open>expected_relocated_mem_size\<close>.
\<close>

fun x86_try_again :: "nat \<Rightarrow> kernel \<Rightarrow> bool \<Rightarrow> u8 list \<Rightarrow> u32 \<Rightarrow> MemBlock \<Rightarrow> MemBlock \<Rightarrow> bool \<Rightarrow> machine \<Rightarrow>
    (relo_error + (MemBlock \<times> MemBlock \<times> machine)) option" where
  "x86_try_again 0 k ndebug bytes e origin relocated branch m = None"
| "x86_try_again (Suc fuel) k ndebug bytes e origin relocated branch m =
     (case (if blk_addr relocated = 0
            then bind_res (lift_crash (allocateExecMemory k e m)) (\<lambda>(relocated_mem, m1).
                   if relocated_mem = 0 then Inr (None, m1)
                   else Inr (Some (MemBlock_reset relocated relocated_mem (ucast e)), m1))
            else Inr (Some relocated, m)) of
        Inl c \<Rightarrow> Some (Inl c)
      | Inr (None, m1) \<Rightarrow> Some (Inr (origin, relocated, m1))
      | Inr (Some relocated1, m1) \<Rightarrow>
          (case GenRelocateCodeFixed k ndebug bytes origin relocated1 branch m1 of
             Inl c \<Rightarrow> Some (Inl c)
           | Inr (ret, origin2, relocated2, m2) \<Rightarrow>
               if ret \<noteq> 0
               then x86_try_again fuel k ndebug bytes (e + 16) origin2 (MemBlock_reset relocated2 0 0) branch m2
               else Some (Inr (origin2, relocated2, m2))))"

definition GenRelocateCodeX86Shared :: "nat \<Rightarrow> kernel \<Rightarrow> bool \<Rightarrow> u8 list \<Rightarrow> MemBlock \<Rightarrow> MemBlock \<Rightarrow> bool \<Rightarrow> machine \<Rightarrow>
    (relo_error + (MemBlock \<times> MemBlock \<times> machine)) option" where
  "GenRelocateCodeX86Shared fuel k ndebug bytes origin relocated branch m =
     x86_try_again fuel k ndebug bytes 32 origin relocated branch m"

subsection \<open>The IA-32 build\<close>

text \<open>
  Addresses have 32 bits; the instances of the near allocator and of the patch tool for that width are the arguments
  \<open>near_exec\<close> and \<open>patch\<close>, over a machine type \<open>'m\<close>. The relocator decodes in 64-bit mode here too.
\<close>

definition GenRelocateSingleX86Insn_ia32 ::
    "(u32 \<Rightarrow> u32 \<Rightarrow> u32 \<Rightarrow> 'm \<Rightarrow> u32 \<times> 'm) \<Rightarrow> (u32 \<Rightarrow> u8 list \<Rightarrow> 'm \<Rightarrow> crash + 'm) \<Rightarrow>
     bool \<Rightarrow> u32 \<Rightarrow> u32 \<Rightarrow> u8 list \<Rightarrow> nat \<Rightarrow> code_buffer \<Rightarrow> 'm \<Rightarrow> relo_error + (x86_insn \<times> code_buffer \<times> 'm)" where
  "GenRelocateSingleX86Insn_ia32 near_exec patch ndebug orig_ip curr_relo_ip bytes mode b m =
     bind_res (lift_decode (x86_insn_decode insn_zero bytes mode)) (\<lambda>insn.
       let curr_orig_ip = orig_ip + insn_length insn;
           op = primary_opcode insn;
           encode_start = of_nat (GetBufferSize b) in
       if length bytes < unat (insn_length insn) then Inl (RDecode OutOfBounds)
       else if op \<ge> 0x70 \<and> op \<le> 0x7F then
         let offset = ucast (immediate insn) :: 8 word;
             orig_dst_ip = curr_orig_ip + scast offset;
             opcode = 0x80 OR (op AND 0x0f) in
         Inr (insn, emit_rel32_label (Emit8 (Emit8 b 0x0F) opcode) encode_start curr_relo_ip orig_dst_ip, m)
       else if rip_relative mode insn then
         bind_res (relo_rip_insn near_exec patch curr_orig_ip curr_relo_ip bytes insn b m) (\<lambda>(b', m'). Inr (insn, b', m'))
       else if op = 0xEB then
         let offset = ucast (immediate insn) :: 8 word;
             orig_dst_ip = curr_orig_ip + scast offset in
         Inr (insn, emit_rel32_label (Emit8 b 0xE9) encode_start curr_relo_ip orig_dst_ip, m)
       else if op = 0xE8 \<or> op = 0xE9 then
         let offset = ucast (immediate insn) :: u32;
             orig_dst_ip = curr_orig_ip + offset in
         if \<not> ndebug \<and> immediate_offset insn \<noteq> 1 then Inl RAssert
         else Inr (insn, emit_rel32_label (EmitBuffer b (take (unat (immediate_offset insn)) bytes)) encode_start
                           curr_relo_ip orig_dst_ip, m)
       else if op \<ge> 0xE0 \<and> op \<le> 0xE2 then Inl RUnimplemented
       else if op = 0xE3 then Inl RUnimplemented
       else Inr (insn, EmitBuffer b (take (unat (insn_length insn)) bytes), m))"

end
