(* ===== verification/X86_Reloc_Sim.thy ===== *)
theory X86_Reloc_Sim
  imports X86_Reloc
begin

text \<open>
  What relocated x64 code does. A reference semantics of the branch instructions the relocator rewrites and emits
  (conditional and unconditional relative jumps, relative calls, jumps and calls through a RIP-relative
  literal), read from the instruction set manual and independent of the decoder of the sources, and the
  proof that the code emitted for a branch has its effect at the original address.
\<close>

subsection \<open>Reference semantics of x64 branches\<close>

datatype x64_insn = XJcc u8 addr | XJmp addr | XCall addr | XJmpMem addr | XCallMem addr

text \<open>The instruction at address \<open>a\<close> with the given bytes, with absolute addresses, and its length.\<close>

definition x64_decode :: "addr \<Rightarrow> u8 list \<Rightarrow> (x64_insn \<times> nat) option" where
  "x64_decode a bs =
     (let rel8 = scast (bs ! 1) :: addr;
          rel32 = scast (le_word (take 4 (drop 1 bs)) :: u32) :: addr;
          disp32 = scast (le_word (take 4 (drop 2 bs)) :: u32) :: addr in
      if length bs < 6 then None
      else if bs ! 0 \<ge> 0x70 \<and> bs ! 0 \<le> 0x7F then Some (XJcc (bs ! 0 AND 0xF) (a + 2 + rel8), 2)
      else if bs ! 0 = 0xEB then Some (XJmp (a + 2 + rel8), 2)
      else if bs ! 0 = 0xE9 then Some (XJmp (a + 5 + rel32), 5)
      else if bs ! 0 = 0xE8 then Some (XCall (a + 5 + rel32), 5)
      else if bs ! 0 = 0x0F \<and> bs ! 1 \<ge> 0x80 \<and> bs ! 1 \<le> 0x8F then Some (XJcc (bs ! 1 AND 0xF) (a + 6 + disp32), 6)
      else if bs ! 0 = 0xFF \<and> bs ! 1 = 0x25 then Some (XJmpMem (a + 6 + disp32), 6)
      else if bs ! 0 = 0xFF \<and> bs ! 1 = 0x15 then Some (XCallMem (a + 6 + disp32), 6)
      else None)"

text \<open>The state: instruction and stack pointer, the conditions (as the flags decide them), memory.\<close>

record x64_state =
  rip :: addr
  rsp :: addr
  cond :: "u8 \<Rightarrow> bool"
  xmem :: "addr \<Rightarrow> u8"

definition xload :: "nat \<Rightarrow> x64_state \<Rightarrow> addr \<Rightarrow> u8 list" where
  "xload n s a = map (\<lambda>i. xmem s (a + of_nat i)) [0..<n]"

definition xpush :: "u64 \<Rightarrow> x64_state \<Rightarrow> x64_state" where
  "xpush v s = s\<lparr>rsp := rsp s - 8, xmem := poke (rsp s - 8) (le_bytes 8 v) (xmem s)\<rparr>"

definition x64_exec :: "x64_insn \<Rightarrow> nat \<Rightarrow> x64_state \<Rightarrow> x64_state" where
  "x64_exec i len s =
     (let next = rip s + of_nat len in
      case i of
        XJcc cc t \<Rightarrow> s\<lparr>rip := if cond s cc then t else next\<rparr>
      | XJmp t \<Rightarrow> s\<lparr>rip := t\<rparr>
      | XCall t \<Rightarrow> (xpush next s)\<lparr>rip := t\<rparr>
      | XJmpMem p \<Rightarrow> s\<lparr>rip := le_word (xload 8 s p)\<rparr>
      | XCallMem p \<Rightarrow> (xpush next s)\<lparr>rip := le_word (xload 8 s p)\<rparr>)"

definition x64_step :: "x64_state \<Rightarrow> x64_state option" where
  "x64_step s = map_option (\<lambda>(i, len). x64_exec i len s) (x64_decode (rip s) (xload 6 s (rip s)))"

primrec x64_run :: "nat \<Rightarrow> x64_state \<Rightarrow> x64_state option" where
  "x64_run 0 s = Some s"
| "x64_run (Suc n) s = (case x64_step s of None \<Rightarrow> None | Some s' \<Rightarrow> x64_run n s')"

definition x64_loaded :: "x64_state \<Rightarrow> addr \<Rightarrow> u8 list \<Rightarrow> bool" where
  "x64_loaded s a bs \<longleftrightarrow> (\<forall>i < length bs. xmem s (a + of_nat i) = bs ! i)"

lemma x64_loaded_append:
  "x64_loaded s a (bs @ cs) \<Longrightarrow> x64_loaded s a bs \<and> x64_loaded s (a + of_nat (length bs)) cs"
  unfolding x64_loaded_def
proof (intro conjI allI impI)
  fix i assume h: "\<forall>i<length (bs @ cs). xmem s (a + word_of_nat i) = (bs @ cs) ! i"
  { assume "i < length bs" then show "xmem s (a + word_of_nat i) = bs ! i" using h by (simp add: nth_append) }
  { assume "i < length cs"
    then have "xmem s (a + word_of_nat (length bs + i)) = cs ! i"
      using h [rule_format, of "length bs + i"] by (simp add: nth_append)
    then show "xmem s (a + word_of_nat (length bs) + word_of_nat i) = cs ! i" by (simp add: add.assoc) }
qed

lemma xload_loaded:
  assumes "x64_loaded s a bs" "off + n \<le> length bs"
  shows "xload n s (a + of_nat off) = take n (drop off bs)"
  using assms by (intro nth_equalityI) (auto simp: xload_def x64_loaded_def add.assoc simp flip: of_nat_add)

lemma x64_step_at:
  assumes "x64_loaded s B cs" "rip s = B + of_nat off" "off + 6 \<le> length cs"
    and "x64_decode (B + of_nat off) (take 6 (drop off cs)) = Some (i, len)"
  shows "x64_step s = Some (x64_exec i len s)"
  using xload_loaded [OF assms(1,3)] assms(2,4) by (simp add: x64_step_def)

subsection \<open>The emitted sequences\<close>

definition jmp_abs_code :: "addr \<Rightarrow> u8 list" where
  "jmp_abs_code t = [0xFF, 0x25, 0, 0, 0, 0] @ le_bytes 8 t"

definition jcc_code :: "u8 \<Rightarrow> addr \<Rightarrow> u8 list" where
  "jcc_code op t = [op, 2, 0xEB, 14] @ jmp_abs_code t"

definition call_abs_code :: "addr \<Rightarrow> u8 list" where
  "call_abs_code t = [0xFF, 0x15, 2, 0, 0, 0, 0xEB, 8] @ le_bytes 8 t"

lemma le_bytes_small [simp]:
  "le_bytes 4 (0 :: u32) = [0, 0, 0, 0]" "le_bytes 4 (2 :: u32) = [2, 0, 0, 0]" "le_bytes (Suc 0) (b :: u8) = [b]"
  by (simp_all add: le_bytes_def upt_rec)

lemma emitted_codes:
  "codegen_x64_jmp_absolute_addr b t = b @ jmp_abs_code t"
  "relo_jcc_rel8 op t b = b @ jcc_code op t"
  "relo_rel32 0xE8 t b = b @ call_abs_code t"
  "relo_rel32 0xE9 t b = b @ jmp_abs_code t"
  by (simp_all add: codegen_x64_jmp_absolute_addr_def relo_jcc_rel8_def relo_rel32_def emit_defs jmp_abs_code_def
      jcc_code_def call_abs_code_def)

lemma length_codes [simp]: "length (jmp_abs_code t) = 14" "length (jcc_code op t) = 18" "length (call_abs_code t) = 16"
  by (simp_all add: jmp_abs_code_def jcc_code_def call_abs_code_def)

lemma jmp_abs_runs:
  assumes "x64_loaded s B (jmp_abs_code t)" "rip s = B"
  shows "x64_run 1 s = Some (s\<lparr>rip := t\<rparr>)"
proof -
  have d: "x64_decode B [0xFF, 0x25, 0, 0, 0, 0] = Some (XJmpMem (B + 6), 6)"
    by (simp add: x64_decode_def Let_def)
  have "xload 8 s (B + 6) = le_bytes 8 t"
    using xload_loaded [OF assms(1), of 6 8] by (simp add: jmp_abs_code_def)
  then show ?thesis
    using x64_step_at [OF assms(1), of 0 "XJmpMem (B + 6)" 6] assms(2) d
    by (simp add: x64_exec_def jmp_abs_code_def le_word_le_bytes)
qed

lemma rel8_plus: "(B :: addr) + 2 + scast (14 :: 8 word) = B + 16" "(B :: addr) + 2 + scast (2 :: 8 word) = B + 4"
  "(B :: addr) + 2 + scast (8 :: 8 word) = B + 10"
  by simp_all

lemma jcc_runs:
  assumes l: "x64_loaded s B (jcc_code op t)" and r: "rip s = B" and op: "0x70 \<le> op" "op \<le> 0x7F"
  shows "x64_run 2 s = Some (s\<lparr>rip := if cond s (op AND 0xF) then t else B + 18\<rparr>)"
proof -
  have d: "x64_decode B (take 6 (drop 0 (jcc_code op t))) = Some (XJcc (op AND 0xF) (B + 4), 2)"
    using op by (simp add: x64_decode_def Let_def jcc_code_def jmp_abs_code_def)
  then have 1: "x64_step s = Some (s\<lparr>rip := if cond s (op AND 0xF) then B + 4 else B + 2\<rparr>)"
    using x64_step_at [OF l, of 0] r by (simp add: x64_exec_def)
  show ?thesis
  proof (cases "cond s (op AND 0xF)")
    case True
    have "x64_loaded (s\<lparr>rip := B + 4\<rparr>) (B + 4) (jmp_abs_code t)"
      using x64_loaded_append [of "s\<lparr>rip := B + 4\<rparr>" B "[op, 2, 0xEB, 14]" "jmp_abs_code t"] l
      by (simp add: jcc_code_def x64_loaded_def)
    from jmp_abs_runs [OF this] show ?thesis using 1 True by (simp add: numeral_2_eq_2)
  next
    case False
    let ?s = "s\<lparr>rip := B + 2\<rparr>"
    have "x64_decode (B + 2) (take 6 (drop 2 (jcc_code op t))) = Some (XJmp (B + 18), 2)"
      by (simp add: x64_decode_def Let_def jcc_code_def jmp_abs_code_def)
    moreover have "x64_loaded ?s B (jcc_code op t)" using l by (simp add: x64_loaded_def)
    ultimately have "x64_step ?s = Some (?s\<lparr>rip := B + 18\<rparr>)"
      using x64_step_at [of ?s B "jcc_code op t" 2] by (simp add: x64_exec_def)
    then show ?thesis using 1 False by (simp add: numeral_2_eq_2)
  qed
qed

lemma call_abs_runs:
  assumes "x64_loaded s B (call_abs_code t)" "rip s = B"
  shows "x64_run 1 s = Some ((xpush (B + 6) s)\<lparr>rip := t\<rparr>)"
proof -
  have d: "x64_decode B (take 6 (drop 0 (call_abs_code t))) = Some (XCallMem (B + 8), 6)"
    by (simp add: x64_decode_def Let_def call_abs_code_def)
  have "xload 8 s (B + 8) = le_bytes 8 t"
    using xload_loaded [OF assms(1), of 8 8] by (simp add: call_abs_code_def)
  then show ?thesis
    using x64_step_at [OF assms(1), of 0 "XCallMem (B + 8)" 6] assms(2) d
    by (simp add: x64_exec_def le_word_le_bytes)
qed

lemma call_abs_returns:
  assumes "x64_loaded s B (call_abs_code t)" "rip s = B + 6"
  shows "x64_run 1 s = Some (s\<lparr>rip := B + 16\<rparr>)"
proof -
  have "x64_decode (B + 6) (take 6 (drop 6 (call_abs_code t))) = Some (XJmp (B + 16), 2)"
    by (simp add: x64_decode_def Let_def call_abs_code_def)
  then show ?thesis using x64_step_at [OF assms(1), of 6] assms(2) by (simp add: x64_exec_def call_abs_code_def)
qed

subsection \<open>One branch\<close>

text \<open>
  What the code \<open>cs\<close> emitted for a branch must do, wherever it is placed: a jump goes to the original target, a
  conditional jump that is not taken falls through to the end of the code, a call pushes an address from
  which execution continues at the end of the code.
\<close>

definition branch_effect :: "x64_insn \<Rightarrow> u8 list \<Rightarrow> bool" where
  "branch_effect i cs \<longleftrightarrow> (\<forall>s B. x64_loaded s B cs \<and> rip s = B \<longrightarrow>
     (case i of
        XJcc cc t \<Rightarrow> x64_run 2 s = Some (s\<lparr>rip := if cond s cc then t else B + of_nat (length cs)\<rparr>)
      | XJmp t \<Rightarrow> x64_run 1 s = Some (s\<lparr>rip := t\<rparr>)
      | XCall t \<Rightarrow> (\<exists>r. x64_run 1 s = Some ((xpush r s)\<lparr>rip := t\<rparr>) \<and>
          (\<forall>s'. x64_loaded s' B cs \<and> rip s' = r \<longrightarrow> x64_run 1 s' = Some (s'\<lparr>rip := B + of_nat (length cs)\<rparr>)))
      | _ \<Rightarrow> False))"

lemma branch_effects:
  "0x70 \<le> op \<Longrightarrow> op \<le> 0x7F \<Longrightarrow> branch_effect (XJcc (op AND 0xF) t) (jcc_code op t)"
  "branch_effect (XJmp t) (jmp_abs_code t)"
  "branch_effect (XCall t) (call_abs_code t)"
  using jcc_runs jmp_abs_runs call_abs_runs call_abs_returns by (auto simp: branch_effect_def)

lemma bytes_2: "2 \<le> length bytes \<Longrightarrow> bytes = bytes ! 0 # bytes ! 1 # drop 2 bytes"
  by (cases bytes; cases "tl bytes") auto

lemma bytes_5: "5 \<le> length bytes \<Longrightarrow> bytes = bytes ! 0 # le_bytes 4 (le_word (take 4 (drop 1 bytes)) :: u32) @ drop 5 bytes"
proof -
  assume l: "5 \<le> length bytes"
  then have "length (take 4 (drop 1 bytes)) = 4" by simp
  then have "le_bytes 4 (le_word (take 4 (drop 1 bytes)) :: u32) = take 4 (drop 1 bytes)"
    using le_bytes_le_word [of "take 4 (drop 1 bytes)", where 'a = 32] by simp
  moreover have "drop 1 bytes = take 4 (drop 1 bytes) @ drop 5 bytes"
    using append_take_drop_id [of 4 "drop 1 bytes"] by (simp add: drop_drop)
  ultimately show ?thesis using l by (cases bytes) auto
qed

lemma ucast_back: "ucast (ucast (x :: 8 word) :: u64) = x" "ucast (ucast (y :: u32) :: u64) = y"
  by (rule bit_word_eqI; simp add: bit_simps)+

lemma relocate_rel8:
  assumes len: "15 \<le> length bytes" and op: "unat (bytes ! 0) \<in> set rel8_opcodes"
  shows "\<exists>i. x86_insn_decode insn_zero bytes 64 = Inr i \<and> primary_opcode i = bytes ! 0 \<and> insn_length i = 2 \<and>
    ucast (immediate i) = bytes ! 1 \<and> dflags i = 0"
proof -
  have b: "bytes = bytes ! 0 # bytes ! 1 # drop 2 bytes" using len by (intro bytes_2) simp
  have "13 \<le> length (drop 2 bytes)" using len by simp
  from decode_rel8 [OF op this, of "bytes ! 1"] obtain i where
    i: "x86_insn_decode insn_zero (bytes ! 0 # bytes ! 1 # drop 2 bytes) 64 = Inr i" "primary_opcode i = bytes ! 0"
      "insn_length i = 2" "immediate i = ucast (bytes ! 1)" "dflags i = 0"
    by blast
  have "ucast (immediate i) = bytes ! 1" by (simp only: i(4) ucast_back)
  then show ?thesis using i b by auto
qed

lemma relocate_rel32:
  assumes len: "15 \<le> length bytes" and op: "bytes ! 0 = 0xE8 \<or> bytes ! 0 = 0xE9"
  shows "\<exists>i. x86_insn_decode insn_zero bytes 64 = Inr i \<and> primary_opcode i = bytes ! 0 \<and> insn_length i = 5 \<and>
    ucast (immediate i) = (le_word (take 4 (drop 1 bytes)) :: u32) \<and> immediate_offset i = 1 \<and> dflags i = 0"
proof -
  have b: "bytes = bytes ! 0 # le_bytes 4 (le_word (take 4 (drop 1 bytes)) :: u32) @ drop 5 bytes" using len by (intro bytes_5) simp
  have "10 \<le> length (drop 5 bytes)" using len by simp
  from decode_rel32 [OF op this, of "le_word (take 4 (drop 1 bytes))"] show ?thesis
    using b by (auto simp: ucast_back)
qed

lemma rel8_range: "0x70 \<le> c \<Longrightarrow> c \<le> 0x7F \<Longrightarrow> unat (c :: u8) \<in> set rel8_opcodes"
  unfolding rel8_opcodes_def set_simps set_upt word_le_nat_alt by simp

lemma relocate_branch:
  assumes g: "GenRelocateSingleX86Insn k nd o_ip r_ip bytes 64 b m = Inr (insn, b', m')"
    and d: "x64_decode o_ip (take 6 bytes) = Some (i, len)" "bytes ! 0 \<noteq> 0x0F" "bytes ! 0 \<noteq> 0xFF"
  shows "unat (insn_length insn) = len \<and> m' = m \<and> (\<exists>cs. b' = b @ cs \<and> branch_effect i cs)"
proof -
  have len: "15 \<le> length bytes"
    using GenRelocateSingle_decoded(1) [OF g] by (auto simp: x86_insn_decode_def split: if_splits)
  then have nth: "take 6 bytes ! 0 = bytes ! 0" "take 6 bytes ! 1 = bytes ! 1"
     "take 4 (drop 1 (take 6 bytes)) = take 4 (drop 1 bytes)"
    by (simp_all add: drop_take)
  let ?op = "bytes ! 0"
  consider (jcc) "0x70 \<le> ?op" "?op \<le> 0x7F" "i = XJcc (?op AND 0xF) (o_ip + 2 + scast (bytes ! 1))" "len = 2"
    | (jmp8) "?op = 0xEB" "i = XJmp (o_ip + 2 + scast (bytes ! 1))" "len = 2"
    | (jmp32) "?op = 0xE9" "i = XJmp (o_ip + 5 + scast (le_word (take 4 (drop 1 bytes)) :: u32))" "len = 5"
    | (call) "?op = 0xE8" "i = XCall (o_ip + 5 + scast (le_word (take 4 (drop 1 bytes)) :: u32))" "len = 5"
    using d nth by (auto simp: x64_decode_def Let_def split: if_splits)
  then show ?thesis
  proof cases
    case jcc
    obtain j where j: "x86_insn_decode insn_zero bytes 64 = Inr j" "primary_opcode j = ?op" "insn_length j = 2"
        "ucast (immediate j) = bytes ! 1" "dflags j = 0"
      using relocate_rel8 [OF len rel8_range [OF jcc(1,2)]] by blast
    then show ?thesis using g jcc len branch_effects(1) [OF jcc(1,2)]
      by (auto simp: GenRelocateSingleX86Insn_def Let_def emitted_codes)
  next
    case jmp8
    have "unat ?op \<in> set rel8_opcodes" using jmp8(1) by (simp add: rel8_opcodes_def)
    then obtain j where j: "x86_insn_decode insn_zero bytes 64 = Inr j" "primary_opcode j = ?op" "insn_length j = 2"
        "ucast (immediate j) = bytes ! 1" "dflags j = 0"
      using relocate_rel8 [OF len] by blast
    then show ?thesis using g jmp8 len branch_effects(2)
      by (auto simp: GenRelocateSingleX86Insn_def Let_def emitted_codes rip_relative_def)
  next
    case jmp32
    then obtain j where j: "x86_insn_decode insn_zero bytes 64 = Inr j" "primary_opcode j = ?op" "insn_length j = 5"
        "ucast (immediate j) = (le_word (take 4 (drop 1 bytes)) :: u32)" "immediate_offset j = 1" "dflags j = 0"
      using relocate_rel32 [OF len] by blast
    then show ?thesis using g jmp32 len branch_effects(2)
      by (auto simp: GenRelocateSingleX86Insn_def Let_def emitted_codes rip_relative_def)
  next
    case call
    then obtain j where j: "x86_insn_decode insn_zero bytes 64 = Inr j" "primary_opcode j = ?op" "insn_length j = 5"
        "ucast (immediate j) = (le_word (take 4 (drop 1 bytes)) :: u32)" "immediate_offset j = 1" "dflags j = 0"
      using relocate_rel32 [OF len] by blast
    then show ?thesis using g call len branch_effects(3)
      by (auto simp: GenRelocateSingleX86Insn_def Let_def emitted_codes rip_relative_def)
  qed
qed

subsection \<open>The loop\<close>

lemma GenRelocateSingle_appends:
  assumes "GenRelocateSingleX86Insn k nd o_ip r_ip bytes 64 b m = Inr (insn, b', m')"
  shows "\<exists>cs. b' = b @ cs \<and> length cs \<le> 20"
proof -
  have d: "x86_insn_decode insn_zero bytes 64 = Inr insn" "unat (insn_length insn) \<le> 20"
    using GenRelocateSingle_decoded(1) [OF assms] decode_length_64 by blast+
  have r: "\<exists>cs. b1 = b @ cs \<and> length cs = 14"
    if "relo_rip_insn ne pa o1 r1 by1 i1 b m = Inr (b1, m1)" for ne pa by1 i1 b1 m1 and o1 r1 :: addr
    using that by (auto simp: relo_rip_insn_def Let_def bind_res_Inr_iff emit_defs split: prod.splits)
  show ?thesis
    using assms d r
    by (fastforce simp: GenRelocateSingleX86Insn_def Let_def bind_res_Inr_iff relo_jcc_rel8_def relo_rel32_def
        codegen_x64_jmp_absolute_addr_def emit_defs split: if_splits)
qed

lemma relo_step_parts:
  assumes "relo_step k nd bytes A s = Inr s'"
  obtains insn b m cs where "GenRelocateSingleX86Insn k nd (rl_orig_ip s) (rl_relo_ip s) (drop (rl_cursor s) bytes) 64
      (rl_code s) (rl_machine s) = Inr (insn, b, m)"
    "b = rl_code s @ cs" "length cs \<le> 20"
    "s' = \<lparr>rl_cursor = rl_cursor s + unat (insn_length insn), rl_orig_ip = rl_orig_ip s + ucast (insn_length insn),
        rl_relo_ip = A + of_nat (length b), rl_code = b, rl_machine = m\<rparr>"
proof -
  obtain insn b m where g: "GenRelocateSingleX86Insn k nd (rl_orig_ip s) (rl_relo_ip s) (drop (rl_cursor s) bytes) 64
      (rl_code s) (rl_machine s) = Inr (insn, b, m)"
    and s': "s' = \<lparr>rl_cursor = rl_cursor s + unat (insn_length insn), rl_orig_ip = rl_orig_ip s + ucast (insn_length insn),
        rl_relo_ip = A + of_nat (length b), rl_code = b, rl_machine = m\<rparr>"
    using assms by (auto simp: relo_step_def bind_res_Inr_iff GetBufferSize_def)
  then show ?thesis using GenRelocateSingle_appends [OF g] that by blast
qed

text \<open>The instruction address follows the cursor, the relocated address follows the code.\<close>

definition relo_inv :: "addr \<Rightarrow> addr \<Rightarrow> relo_state \<Rightarrow> bool" where
  "relo_inv o_ip A s \<longleftrightarrow> rl_orig_ip s = o_ip + of_nat (rl_cursor s) \<and> rl_relo_ip s = A + of_nat (length (rl_code s)) \<and>
     length (rl_code s) \<le> 20 * rl_cursor s"

lemma relo_step_inv:
  assumes "relo_step k nd bytes A s = Inr s'" "relo_inv o_ip A s"
  shows "relo_inv o_ip A s'"
proof -
  obtain insn b m cs where "GenRelocateSingleX86Insn k nd (rl_orig_ip s) (rl_relo_ip s) (drop (rl_cursor s) bytes) 64
      (rl_code s) (rl_machine s) = Inr (insn, b, m)"
    and p: "b = rl_code s @ cs" "length cs \<le> 20"
    "s' = \<lparr>rl_cursor = rl_cursor s + unat (insn_length insn), rl_orig_ip = rl_orig_ip s + ucast (insn_length insn),
        rl_relo_ip = A + of_nat (length b), rl_code = b, rl_machine = m\<rparr>"
    by (rule relo_step_parts [OF assms(1)])
  have "0 < unat (insn_length insn)" using relo_step_advances(1) [OF assms(1)] p(3) by simp
  moreover have "(ucast (insn_length insn) :: addr) = of_nat (unat (insn_length insn))"
    by (simp add: word_unat_eq_iff)
  ultimately show ?thesis using assms(2) p by (auto simp: relo_inv_def)
qed

lemma x64_loop_spec:
  "x64_relo_loop k nd bytes A n s = Inr s' \<Longrightarrow> relo_inv o_ip A s \<Longrightarrow> rl_cursor s \<le> length bytes \<Longrightarrow>
     relo_inv o_ip A s' \<and> n \<le> rl_cursor s' \<and> rl_cursor s' \<le> length bytes \<and>
     (\<exists>cs. rl_code s' = rl_code s @ cs)"
proof (induction k nd bytes A n s rule: x64_relo_loop.induct)
  case (1 k nd bytes A n s)
  show ?case
  proof (cases "rl_cursor s < n")
    case True
    then obtain s1 where s1: "relo_step k nd bytes A s = Inr s1" "x64_relo_loop k nd bytes A n s1 = Inr s'"
      using 1(2) by (auto simp: bind_res_Inr_iff)
    obtain cs where "rl_code s1 = rl_code s @ cs" using relo_step_parts [OF s1(1)] by fastforce
    then show ?thesis
      using 1(1) [OF True _ s1(2)] s1(1) relo_step_inv [OF s1(1) 1(3)] relo_step_advances [OF s1(1)]
      by fastforce
  next
    case False
    then show ?thesis using 1(2-) by simp
  qed
qed

declare x64_relo_loop.simps [simp del]

lemma x64_loop_split:
  "x64_relo_loop k nd bytes A c s = Inr s1 \<Longrightarrow> rl_cursor s1 = c \<Longrightarrow> c \<le> n \<Longrightarrow> rl_cursor s \<le> c \<Longrightarrow>
     x64_relo_loop k nd bytes A n s = x64_relo_loop k nd bytes A n s1"
proof (induction k nd bytes A c s rule: x64_relo_loop.induct)
  case (1 k nd bytes A c s)
  show ?case
  proof (cases "rl_cursor s < c")
    case True
    then obtain s2 where s2: "relo_step k nd bytes A s = Inr s2" "x64_relo_loop k nd bytes A c s2 = Inr s1"
      using 1(2) by (subst (asm) x64_relo_loop.simps) (auto simp: bind_res_Inr_iff)
    have "rl_cursor s2 \<le> c"
    proof (rule ccontr)
      assume "\<not> rl_cursor s2 \<le> c"
      then have "x64_relo_loop k nd bytes A c s2 = Inr s2" by (subst x64_relo_loop.simps) simp
      then show False using s2(2) 1(3) \<open>\<not> rl_cursor s2 \<le> c\<close> by simp
    qed
    then have "x64_relo_loop k nd bytes A n s2 = x64_relo_loop k nd bytes A n s1"
      using 1(1) [OF True s2(1) s2(2) 1(3,4)] by simp
    moreover have "x64_relo_loop k nd bytes A n s = x64_relo_loop k nd bytes A n s2"
      using True 1(4) s2(1) by (subst x64_relo_loop.simps) simp
    ultimately show ?thesis by simp
  next
    case False
    then show ?thesis using 1(2) by (subst (asm) x64_relo_loop.simps) simp
  qed
qed

lemma relo_init_inv: "relo_inv (blk_addr origin) (blk_addr relocated) (relo_init origin relocated m)"
  "rl_cursor (relo_init origin relocated m) = 0" "rl_code (relo_init origin relocated m) = []"
  by (simp_all add: relo_inv_def relo_init_def)

lemma relo_step_loop:
  assumes "x64_relo_loop k nd bytes A n s = Inr s'" "rl_cursor s < n"
  obtains s1 where "relo_step k nd bytes A s = Inr s1" "x64_relo_loop k nd bytes A n s1 = Inr s'"
    "x64_relo_loop k nd bytes A (rl_cursor s1) s = Inr s1"
proof -
  obtain s1 where s1: "relo_step k nd bytes A s = Inr s1" "x64_relo_loop k nd bytes A n s1 = Inr s'"
    using assms by (subst (asm) x64_relo_loop.simps) (auto simp: bind_res_Inr_iff)
  have "x64_relo_loop k nd bytes A (rl_cursor s1) s1 = Inr s1" by (subst x64_relo_loop.simps) simp
  then have "x64_relo_loop k nd bytes A (rl_cursor s1) s = Inr s1"
    using s1(1) relo_step_advances(1) [OF s1(1)] by (subst x64_relo_loop.simps) simp
  then show ?thesis using s1 that by blast
qed

lemma x64_loop_trans:
  assumes "x64_relo_loop k nd bytes A c s = Inr s1" "rl_cursor s1 = c" "rl_cursor s \<le> c"
    and "x64_relo_loop k nd bytes A d s1 = Inr s2" "c \<le> d"
  shows "x64_relo_loop k nd bytes A d s = Inr s2"
  using x64_loop_split [OF assms(1,2) assms(5,3)] assms(4) by simp

text \<open>The code of the whole region, with the jump back to the rest of the original function.\<close>

definition relocated_code :: "bool \<Rightarrow> relo_state \<Rightarrow> u8 list" where
  "relocated_code branch s = rl_code s @ (if branch then jmp_abs_code (rl_orig_ip s) else [])"

lemma JmpNearIndirect_next:
  assumes "relo_inv o_ip A s"
  defines "a \<equiv> (SetRealizedAddress (AssemblerBase 0) A)\<lparr>asm_buffer := rl_code s\<rparr>"
  shows "Emit64 (asm_buffer (JmpNearIndirect a (rl_relo_ip s + 6))) v = rl_code s @ jmp_abs_code v"
  using assms(1)
  by (simp add: JmpNearIndirect_def a_def CurrentIP_def pc_offset_def GetBufferSize_def SetRealizedAddress_def AssemblerBase_def
      relo_inv_def emit_defs jmp_abs_code_def)

lemma relocated_code_length:
  assumes "x64_relo_loop k nd bytes (blk_addr relocated) n (relo_init origin relocated m) = Inr s"
  shows "length (relocated_code br s) \<le> 20 * length bytes + 14"
  using x64_loop_spec [OF assms relo_init_inv(1)] relo_init_inv(2)
  by (auto simp: relocated_code_def relo_inv_def)

lemma as_int_small:
  assumes "unat x < 2 ^ 31"
  shows "as_int x = x" "nat (sint x) = unat x"
proof -
  have t: "take_bit 31 x = x" using assms by (simp add: word_unat_eq_iff unsigned_take_bit_eq take_bit_nat_eq_self)
  have "as_int (take_bit 31 x) = take_bit 31 x" unfolding as_int_def by (rule bit_word_eqI) (auto simp: bit_simps)
  then show "as_int x = x" unfolding t .
  have i: "int (unat x) = uint x" by simp
  have "int (unat x) < int (2 ^ 31)" using assms by (simp only: of_nat_less_iff)
  then have u: "uint x < 2 ^ 31" using i by simp
  have "sint (word_of_int (uint x) :: addr) = signed_take_bit 63 (uint x)" by (simp only: sint_sbintrunc') simp
  also have "\<dots> = uint x" by (rule signed_take_bit_int_eq_self) (use u order_trans [OF _ uint_ge_0, of "- (2 ^ 63)" x] in simp_all)
  finally have "sint x = uint x" by simp
  then show "nat (sint x) = unat x" using i by (metis nat_int)
qed

definition region_size :: "MemBlock \<Rightarrow> nat" where
  "region_size origin = nat (sint (as_int (mr_size origin)))"

lemma GenRelocateCodeFixed_cases:
  assumes "GenRelocateCodeFixed k nd bytes origin relocated br m = Inr (ret, o', r', m')" "length bytes < 2 ^ 26"
  obtains s where "x64_relo_loop k nd bytes (blk_addr relocated) (region_size origin) (relo_init origin relocated m) = Inr s"
    "blk_addr o' = blk_addr origin" "mr_size o' = rl_orig_ip s - blk_addr origin"
    "ret = (if length (relocated_code br s) > unat (mr_size relocated) then -1 else 0)"
    "ret \<noteq> 0 \<Longrightarrow> r' = relocated \<and> m' = rl_machine s"
    "ret = 0 \<Longrightarrow> blk_addr relocated \<noteq> 0 \<Longrightarrow> blk_addr r' = blk_addr relocated \<and> mr_size r' = of_nat (length (relocated_code br s)) \<and>
       memory (proc m') = poke (blk_addr relocated) (relocated_code br s) (memory (proc (rl_machine s)))"
proof -
  obtain s where s: "x64_relo_loop k nd bytes (blk_addr relocated) (region_size origin) (relo_init origin relocated m) = Inr s"
    using assms(1) by (auto simp: GenRelocateCodeFixed_def bind_res_Inr_iff region_size_def Let_def)
  have inv: "relo_inv (blk_addr origin) (blk_addr relocated) s" and cur: "rl_cursor s \<le> length bytes"
    using x64_loop_spec [OF s relo_init_inv(1)] relo_init_inv(2) by simp_all
  define a where "a = (SetRealizedAddress (AssemblerBase 0) (blk_addr relocated))\<lparr>asm_buffer := rl_code s\<rparr>"
  define a1 where "a1 = (if br then let a' = JmpNearIndirect a (rl_relo_ip s + 6) in
      a'\<lparr>asm_buffer := Emit64 (asm_buffer a') (rl_orig_ip s)\<rparr> else a)"
  have buf: "asm_buffer a1 = relocated_code br s"
    using JmpNearIndirect_next [OF inv] by (simp add: a1_def a_def relocated_code_def Let_def)
  have ra: "realized_addr a1 = blk_addr relocated"
    by (simp add: a1_def a_def JmpNearIndirect_def Let_def SetRealizedAddress_def)
  have "length (relocated_code br s) < 2 ^ 31" using relocated_code_length [OF s, of br] assms(2) by simp
  then have ul: "unat (of_nat (length (relocated_code br s)) :: addr) = length (relocated_code br s)" by (simp add: unat_of_nat)
  then have len: "as_int (of_nat (length (relocated_code br s))) > mr_size relocated \<longleftrightarrow> length (relocated_code br s) > unat (mr_size relocated)"
    using \<open>length (relocated_code br s) < 2 ^ 31\<close> by (simp add: as_int_small word_less_nat_alt)
  have "rl_orig_ip s - blk_addr origin = of_nat (rl_cursor s)" using inv by (simp add: relo_inv_def)
  moreover have "unat (of_nat (rl_cursor s) :: addr) < 2 ^ 31" using cur assms(2) by (simp add: unat_of_nat)
  ultimately have org: "as_int (rl_orig_ip s - blk_addr origin) = rl_orig_ip s - blk_addr origin" by (simp add: as_int_small)
  have "(if as_int (of_nat (length (asm_buffer a1))) > mr_size relocated
      then Inr (-1, MemBlock_reset origin (blk_addr origin) (rl_orig_ip s - blk_addr origin), relocated, rl_machine s)
      else bind_res (lift_crash (FinalizeFromTurboAssembler k a1 (rl_machine s))) (\<lambda>(code, a2, m').
              Inr (0, MemBlock_reset origin (blk_addr origin) (rl_orig_ip s - blk_addr origin),
                  MemBlock_reset relocated (blk_addr code) (mr_size code), m'))) = Inr (ret, o', r', m')"
    using assms(1)
    by (simp only: GenRelocateCodeFixed_def s [unfolded region_size_def] bind_res_simps Let_def GetBufferSize_def org a1_def a_def)
  then have eq: "(if length (relocated_code br s) > unat (mr_size relocated)
      then Inr (-1, MemBlock_reset origin (blk_addr origin) (rl_orig_ip s - blk_addr origin), relocated, rl_machine s)
      else bind_res (lift_crash (FinalizeFromTurboAssembler k a1 (rl_machine s))) (\<lambda>(code, a2, m').
              Inr (0, MemBlock_reset origin (blk_addr origin) (rl_orig_ip s - blk_addr origin),
                  MemBlock_reset relocated (blk_addr code) (mr_size code), m'))) = Inr (ret, o', r', m')"
    by (simp only: buf len)
  show ?thesis
  proof (rule that [OF s])
    show "blk_addr o' = blk_addr origin" "mr_size o' = rl_orig_ip s - blk_addr origin"
      "ret = (if length (relocated_code br s) > unat (mr_size relocated) then -1 else 0)"
      "ret \<noteq> 0 \<Longrightarrow> r' = relocated \<and> m' = rl_machine s"
      using eq by (auto simp: MemBlock_reset_def MemRange_reset_def bind_res_Inr_iff split: if_splits)
    assume "ret = 0" "blk_addr relocated \<noteq> 0"
    then show "blk_addr r' = blk_addr relocated \<and> mr_size r' = of_nat (length (relocated_code br s)) \<and>
       memory (proc m') = poke (blk_addr relocated) (relocated_code br s) (memory (proc (rl_machine s)))"
      using eq by (auto simp: FinalizeFromTurboAssembler_def GetRealizedAddress_def ra buf Let_def bind_res_Inr_iff GetBuffer_def
          GetBufferSize_def patch_machine_def MemBlock_reset_def MemRange_reset_def split: if_splits dest: DobbyCodePatch_memory)
  qed
qed

subsection \<open>Properties\<close>

text \<open>
  C9: Relocated x64 code simulates the short and near branches with a one-byte opcode: \<^verbatim>\<open>jcc rel8\<close> (70-7F), \<^verbatim>\<open>jmp rel8\<close> (EB),
  \<^verbatim>\<open>jmp rel32\<close> (E9) and \<^verbatim>\<open>call rel32\<close> (E8). Let the relocator process the first \<open>n\<close> bytes and let \<open>c\<close> be the start
  of an instruction it reached (the relocator, run up to \<open>c\<close>, stops there in state \<open>s1\<close>). If one of these branches starts
  at \<open>c\<close>, the code has a part \<open>cs\<close> for it, right after the code of the instructions before and followed by the code of the next
  instruction, with the effect of the original branch at its original address, wherever the code is placed. The two-byte
  \<^verbatim>\<open>jcc rel32\<close> (0F 80-8F) is excluded: the code copies it verbatim, so that it goes to a wrong address (lemma
  \<open>x64_jcc_rel32_not_relocated\<close>).
\<close>
theorem x64_relocate_simulates:
  assumes "x64_relo_loop k nd bytes (blk_addr relocated) n (relo_init origin relocated m) = Inr s"
    and "x64_relo_loop k nd bytes (blk_addr relocated) c (relo_init origin relocated m) = Inr s1" "rl_cursor s1 = c" "c < n"
    and "x64_decode (blk_addr origin + of_nat c) (take 6 (drop c bytes)) = Some (i, len)"
    and "bytes ! c \<noteq> 0x0F" "bytes ! c \<noteq> 0xFF"
  shows "\<exists>cs rest s2. rl_code s = rl_code s1 @ cs @ rest \<and> branch_effect i cs \<and>
    x64_relo_loop k nd bytes (blk_addr relocated) (c + len) (relo_init origin relocated m) = Inr s2 \<and>
    rl_cursor s2 = c + len \<and> rl_code s2 = rl_code s1 @ cs"
proof -
  let ?A = "blk_addr relocated" and ?i = "relo_init origin relocated m"
  have le0: "rl_cursor ?i \<le> c" by (simp add: relo_init_inv)
  have inv: "relo_inv (blk_addr origin) ?A s1" "c \<le> length bytes"
    using x64_loop_spec [OF assms(2) relo_init_inv(1)] relo_init_inv(2) assms(3) by simp_all
  have "x64_relo_loop k nd bytes ?A n s1 = Inr s"
    using x64_loop_split [OF assms(2,3) _ le0, of n] assms(1,4) by simp
  then obtain s2 where s2: "relo_step k nd bytes ?A s1 = Inr s2" "x64_relo_loop k nd bytes ?A n s2 = Inr s"
      "x64_relo_loop k nd bytes ?A (rl_cursor s2) s1 = Inr s2"
    using relo_step_loop assms(3,4) by blast
  obtain insn b m2 cs' where g: "GenRelocateSingleX86Insn k nd (rl_orig_ip s1) (rl_relo_ip s1) (drop (rl_cursor s1) bytes) 64
      (rl_code s1) (rl_machine s1) = Inr (insn, b, m2)" and "b = rl_code s1 @ cs'" "length cs' \<le> 20"
    and s2': "s2 = \<lparr>rl_cursor = rl_cursor s1 + unat (insn_length insn), rl_orig_ip = rl_orig_ip s1 + ucast (insn_length insn),
        rl_relo_ip = ?A + of_nat (length b), rl_code = b, rl_machine = m2\<rparr>"
    by (rule relo_step_parts [OF s2(1)])
  have c: "c < length bytes" using relo_step_advances [OF s2(1)] assms(3) by simp
  then have "drop c bytes ! 0 = bytes ! c" by simp
  then obtain cs where cs: "unat (insn_length insn) = len" "b = rl_code s1 @ cs" "branch_effect i cs"
    using relocate_branch [OF g, of i len] assms(3,5-7) inv by (auto simp: relo_inv_def)
  have "x64_relo_loop k nd bytes ?A (c + len) ?i = Inr s2"
    using x64_loop_trans [OF assms(2,3) le0 _, of "c + len" s2] s2(3) s2' cs(1) assms(3) by simp
  moreover obtain rest where "rl_code s = rl_code s2 @ rest"
    using x64_loop_spec [OF s2(2) relo_step_inv [OF s2(1) inv(1)]] relo_step_advances [OF s2(1)] by blast
  ultimately show ?thesis using cs s2' assms(3) by auto
qed

definition demo_bytes :: "u8 list" where
  "demo_bytes = [0x55, 0x74, 0x05, 0xE8, 0x10, 0, 0, 0] @ replicate 24 0x90"

definition demo_origin :: MemBlock where
  "demo_origin = MemBlock 0x7000 8"

theorem x64_relocate_simulates_witness:
  "\<exists>cs rest. branch_effect (XJcc 4 0x7008) cs \<and>
     (\<exists>s. x64_relo_loop demo_kernel False demo_bytes 0x400 8 (relo_init demo_origin (MemBlock 0x400 64) demo_machine) = Inr s \<and>
       rl_code s = 0x55 # cs @ rest)"
proof -
  let ?i = "relo_init demo_origin (MemBlock 0x400 64) demo_machine"
  let ?r = "\<lambda>n. x64_relo_loop demo_kernel False demo_bytes 0x400 n ?i"
  have "(case ?r 8 of Inl _ \<Rightarrow> False | Inr s \<Rightarrow> True)" by code_simp
  then obtain s where s: "?r 8 = Inr s" by (auto split: sum.splits)
  have "(case ?r 1 of Inl _ \<Rightarrow> False | Inr s \<Rightarrow> rl_cursor s = 1 \<and> rl_code s = [0x55])" by code_simp
  then obtain s1 where s1: "?r 1 = Inr s1" "rl_cursor s1 = 1" "rl_code s1 = [0x55]" by (auto split: sum.splits)
  have d: "x64_decode (blk_addr demo_origin + of_nat 1) (take 6 (drop 1 demo_bytes)) = Some (XJcc 4 0x7008, 2)"
    "demo_bytes ! 1 \<noteq> 0x0F" "demo_bytes ! 1 \<noteq> 0xFF"
    by code_simp+
  have "\<exists>cs rest. rl_code s = rl_code s1 @ cs @ rest \<and> branch_effect (XJcc 4 0x7008) cs"
    using x64_relocate_simulates [of demo_kernel False demo_bytes "MemBlock 0x400 64" 8 demo_origin demo_machine s 1 s1, OF _ _ s1(2) _ d]
      s s1(1) by auto
  then show ?thesis using s s1(3) by auto
qed

text \<open>
  C29: After the relocated instructions the code jumps to the first original instruction that was not relocated: the
  relocator stores, at the given address, the code of the region followed by an absolute jump to the original
  address plus the (adjusted) size of the region. Region and code are below 2 GiB, where the \<^verbatim>\<open>int\<close> sizes are exact.
\<close>
theorem x64_relocate_continues:
  assumes "GenRelocateCodeFixed k nd bytes origin relocated True m = Inr (0, o', r', m')" "blk_addr relocated \<noteq> 0"
    and "length bytes < 2 ^ 26" "unat (mr_size origin) < 2 ^ 31"
  shows "\<exists>s. x64_relo_loop k nd bytes (blk_addr relocated) (unat (mr_size origin)) (relo_init origin relocated m) = Inr s \<and>
    unat (mr_size origin) \<le> rl_cursor s \<and> mr_size o' = of_nat (rl_cursor s) \<and> blk_addr r' = blk_addr relocated \<and>
    (\<forall>i < length (rl_code s). memory (proc m') (blk_addr relocated + of_nat i) = rl_code s ! i) \<and>
    (\<forall>x. xmem x = memory (proc m') \<and> rip x = blk_addr relocated + of_nat (length (rl_code s)) \<longrightarrow>
       x64_run 1 x = Some (x\<lparr>rip := blk_addr o' + mr_size o'\<rparr>))"
proof -
  obtain s where s: "x64_relo_loop k nd bytes (blk_addr relocated) (unat (mr_size origin)) (relo_init origin relocated m) = Inr s"
    and o': "blk_addr o' = blk_addr origin" "mr_size o' = rl_orig_ip s - blk_addr origin"
    and ret: "0 = (if length (relocated_code True s) > unat (mr_size relocated) then -1 else 0 :: int)"
    and r': "blk_addr r' = blk_addr relocated" "memory (proc m') = poke (blk_addr relocated) (relocated_code True s) (memory (proc (rl_machine s)))"
    using GenRelocateCodeFixed_cases [OF assms(1,3)] assms(2) as_int_small [OF assms(4)] unfolding region_size_def by metis
  have inv: "relo_inv (blk_addr origin) (blk_addr relocated) s" "unat (mr_size origin) \<le> rl_cursor s"
    using x64_loop_spec [OF s relo_init_inv(1)] relo_init_inv(2) by simp_all
  have "length (relocated_code True s) \<le> unat (mr_size relocated)" using ret by (auto split: if_splits)
  then have l: "length (relocated_code True s) \<le> 2 ^ 64" using unat_addr [of "mr_size relocated"] by simp
  have mem: "\<forall>i < length (relocated_code True s). memory (proc m') (blk_addr relocated + of_nat i) = relocated_code True s ! i"
    using l by (simp add: r'(2) poke_inside)
  have "x64_run 1 x = Some (x\<lparr>rip := rl_orig_ip s\<rparr>)"
    if "xmem x = memory (proc m')" "rip x = blk_addr relocated + of_nat (length (rl_code s))" for x
  proof -
    have "x64_loaded x (blk_addr relocated) (rl_code s @ jmp_abs_code (rl_orig_ip s))"
      using mem that(1) by (simp add: x64_loaded_def relocated_code_def)
    then show ?thesis using jmp_abs_runs x64_loaded_append that(2) by blast
  qed
  then show ?thesis
    using s inv o' r'(1) mem by (intro exI [of _ s]) (auto simp: relo_inv_def relocated_code_def nth_append)
qed

theorem x64_relocate_continues_witness:
  "\<exists>o' r' m'. GenRelocateCodeFixed demo_kernel False demo_bytes (MemBlock 0x7000 1) (MemBlock 0x100 16) True demo_machine =
       Inr (0, o', r', m') \<and> mr_size o' = 1 \<and> memory (proc m') 0x100 = 0x55 \<and>
     x64_run 1 \<lparr>rip = 0x101, rsp = 0, cond = (\<lambda>_. False), xmem = memory (proc m')\<rparr> =
       Some \<lparr>rip = 0x7001, rsp = 0, cond = (\<lambda>_. False), xmem = memory (proc m')\<rparr>"
proof -
  let ?o = "MemBlock 0x7000 1" and ?t = "MemBlock 0x100 16"
  let ?r = "GenRelocateCodeFixed demo_kernel False demo_bytes ?o ?t True demo_machine"
  have c: "(case ?r of Inl _ \<Rightarrow> False | Inr (ret, o', r', m') \<Rightarrow> ret = 0 \<and> blk_addr o' = 0x7000 \<and> mr_size o' = 1)"
    "(case x64_relo_loop demo_kernel False demo_bytes 0x100 1 (relo_init ?o ?t demo_machine) of Inl _ \<Rightarrow> False
      | Inr s \<Rightarrow> rl_code s = [0x55])"
    by code_simp+
  then obtain o' r' m' where r: "?r = Inr (0, o', r', m')" "blk_addr o' = 0x7000" "mr_size o' = 1"
    by (auto split: sum.splits)
  have d: "length demo_bytes < 2 ^ 26" "unat (mr_size ?o) < 2 ^ 31"
    by (simp_all add: demo_bytes_def MemBlock_def MemRange_def MemRange.extend_def)
  then obtain s where s: "x64_relo_loop demo_kernel False demo_bytes 0x100 1 (relo_init ?o ?t demo_machine) = Inr s"
      "\<forall>i < length (rl_code s). memory (proc m') (0x100 + of_nat i) = rl_code s ! i"
      "\<forall>x. xmem x = memory (proc m') \<and> rip x = 0x100 + of_nat (length (rl_code s)) \<longrightarrow> x64_run 1 x = Some (x\<lparr>rip := 0x7000 + 1\<rparr>)"
    using x64_relocate_continues [OF r(1) _ d, unfolded r(2,3)] by (auto simp del: x64_run.simps)
  have code: "rl_code s = [0x55]" using c(2) s(1) by simp
  have "memory (proc m') 0x100 = 0x55" using s(2) [rule_format, of 0] by (simp add: code)
  moreover have "x64_run 1 \<lparr>rip = 0x101, rsp = 0, cond = (\<lambda>_. False), xmem = memory (proc m')\<rparr> =
       Some \<lparr>rip = 0x7001, rsp = 0, cond = (\<lambda>_. False), xmem = memory (proc m')\<rparr>"
    using s(3) [rule_format, of "\<lparr>rip = 0x101, rsp = 0, cond = (\<lambda>_. False), xmem = memory (proc m')\<rparr>"] by (simp add: code)
  ultimately show ?thesis using r by blast
qed

lemma try_again_fuel:
  assumes "length bytes < 2 ^ 26"
  shows "blk_addr relocated = 0 \<Longrightarrow> 0 < fuel \<Longrightarrow> 20 * length bytes + 14 \<le> unat e + 16 * (fuel - 1) \<Longrightarrow>
     unat e + 16 * fuel < 2 ^ 32 \<Longrightarrow> x86_try_again fuel k nd bytes e origin relocated br m \<noteq> None"
proof (induction fuel arbitrary: e origin relocated m)
  case (Suc fuel)
  have ue: "unat (e + 16) = unat e + 16" if "0 < fuel"
    using Suc.prems(4) that by (simp add: unat_word_ariths)
  have step: "x86_try_again fuel k nd bytes (e + 16) o2 (MemBlock_reset r2 0 0) br m2 \<noteq> None"
    if fx: "GenRelocateCodeFixed k nd bytes origin (MemBlock_reset relocated a (ucast e)) br m1 = Inr (ret, o2, r2, m2)" "ret \<noteq> 0"
    for a m1 ret o2 r2 m2
  proof -
    obtain s where s: "x64_relo_loop k nd bytes (blk_addr (MemBlock_reset relocated a (ucast e))) (region_size origin)
        (relo_init origin (MemBlock_reset relocated a (ucast e)) m1) = Inr s"
      "ret = (if length (relocated_code br s) > unat (mr_size (MemBlock_reset relocated a (ucast e))) then -1 else 0)"
      using GenRelocateCodeFixed_cases [OF fx(1) assms] by metis
    have "unat e < length (relocated_code br s)"
      using s(2) fx(2) by (auto simp: MemBlock_reset_def MemRange_reset_def split: if_splits)
    then have "unat e < 20 * length bytes + 14" using relocated_code_length [OF s(1), of br] by simp
    then have "0 < fuel" using Suc.prems(3) by (cases fuel) auto
    moreover have "blk_addr (MemBlock_reset r2 0 0) = 0" by (simp add: MemBlock_reset_def)
    ultimately show ?thesis using Suc.IH Suc.prems(3,4) ue by (cases fuel) auto
  qed
  then show ?case
    using Suc.prems(1) by (auto simp: bind_res_Inr_iff split: sum.splits option.splits if_splits)
qed simp

text \<open>
  C30: The retry loop of the x86 relocator ends: the code has at most twenty bytes per input byte and fourteen for the jump
  back, the block grows by sixteen bytes per attempt, so with one attempt per sixteen bytes of that bound (and two more) it
  returns a result, an error or a crash, whatever the kernel and the allocators do.
\<close>
theorem x86_relocate_terminates:
  assumes "length bytes < 2 ^ 26" "20 * length bytes + 14 \<le> 16 * fuel" "fuel < 2 ^ 27"
  shows "GenRelocateCodeX86Shared (Suc (Suc fuel)) k nd bytes origin relocated br m \<noteq> None"
proof (cases "blk_addr relocated = 0")
  case True
  then show ?thesis
    using try_again_fuel [OF assms(1), of relocated "Suc (Suc fuel)" 32] assms(2,3) by (simp add: GenRelocateCodeX86Shared_def)
next
  case False
  have "x86_try_again (Suc fuel) k nd bytes 48 o2 (MemBlock_reset r2 0 0) br m2 \<noteq> None" for o2 r2 m2
    using try_again_fuel [OF assms(1), of "MemBlock_reset r2 0 0" "Suc fuel" 48] assms(2,3) by (simp add: MemBlock_reset_def)
  then show ?thesis
    using False by (auto simp: GenRelocateCodeX86Shared_def simp del: x86_try_again.simps(2)
        simp add: x86_try_again.simps(2) [of "Suc fuel"] split: sum.splits)
qed

theorem x86_relocate_terminates_witness:
  "GenRelocateCodeX86Shared 50 demo_kernel False demo_bytes demo_origin (MemBlock 0 0) True demo_machine \<noteq> None"
proof -
  have e: "(50 :: nat) = Suc (Suc 48)" by simp
  show ?thesis unfolding e by (rule x86_relocate_terminates) (simp_all add: demo_bytes_def)
qed

subsection \<open>Two-byte opcodes\<close>

text \<open>
  The relocator only looks at the last opcode byte. For an instruction without prefixes whose first byte is
  \<^verbatim>\<open>0F\<close> and that has no ModR/M byte or opcode group, decoding goes on with the immediate.
\<close>

lemma decode_two_byte:
  assumes "15 \<le> length bytes" "bytes = 0x0F # c # rest"
    and "spec = x86_opcode_map_two_byte ! unat c" "X86_INSN_FLAG_GET_GROUP (flags spec) = 0"
    and "\<not> x86_insn_has_modrm_byte spec"
  defines "rd \<equiv> \<lparr>opcode_ptr = 0, modrm_ptr = 0, buffer = take 15 bytes @ replicate 5 0xcc, buffer_cursor = 2\<rparr>"
  defines "i \<equiv> insn_zero\<lparr>primary_opcode := c, insn_spec := spec\<rparr>"
  shows "x86_insn_decode insn_zero bytes 64 =
     bind_res (if x86_insn_has_immediate spec then x86_insn_decode_immediate rd i 64 else Inr (rd, i))
       (\<lambda>(rd4, insn4). Inr (insn4\<lparr>insn_length := of_nat (buffer_cursor rd4)\<rparr>))"
proof -
  have "\<not> is_legacy_prefix 0x0F" "\<not> is_rex 64 0x0F" by code_simp+
  then have run: "prefix_run bytes = []" using assms(2) by (simp add: prefix_run_def take_Cons')
  have c: "(take 15 bytes @ replicate 5 0xcc) ! 0 = 0x0F" "(take 15 bytes @ replicate 5 0xcc) ! 1 = c"
    using assms(2) by (simp_all add: take_Cons')
  let ?rd = "\<lparr>opcode_ptr = 0, modrm_ptr = 0, buffer = take 15 bytes @ replicate 5 0xcc, buffer_cursor = 0\<rparr>"
  have "x86_insn_decode_prefix (init_reader (take 15 bytes)) insn_zero 64 = Inr (0, ?rd, insn_zero)"
    using decode_prefix_spec [OF assms(1), of insn_zero 64] \<open>\<not> is_rex 64 0x0F\<close>
    by (simp only: run c list.size(3) if_False fold_simps init_reader_15 [OF assms(1)]
        x86_insn_reader.update_convs)
  then have "x86_insn_decode insn_zero bytes 64 = decode_after_prefix ?rd (insn_zero\<lparr>prefix := 0\<rparr>) 64"
    using assms(1) by (simp add: x86_insn_decode_def)
  moreover have "insn_zero\<lparr>prefix := 0\<rparr> = insn_zero" by (simp add: insn_zero_def)
  moreover have "read_byte ?rd = Inr (0x0F, ?rd\<lparr>buffer_cursor := 1\<rparr>)" "read_byte (?rd\<lparr>buffer_cursor := 1\<rparr>) = Inr (c, rd)"
    using c assms(1) by (simp_all add: read_byte_def Let_def rd_def)
  ultimately show ?thesis using assms(3-5)
    by (simp add: decode_after_prefix_def x86_insn_decode_opcode_def Let_def
        X86_INSN_SSE_GROUP_START_def X86_INSN_GROUP_START_def i_def)
qed

definition jcc32_spec_ok :: "x86_insn_spec \<Rightarrow> bool" where
  "jcc32_spec_ok s \<longleftrightarrow> X86_INSN_FLAG_GET_GROUP (flags s) = 0 \<and> \<not> x86_insn_has_modrm_byte s \<and>
     x86_insn_has_immediate s \<and> x86_insn_immediate_type s = Inr CHR ''z''"

lemma jcc32_specs: "list_all (\<lambda>n. jcc32_spec_ok (x86_opcode_map_two_byte ! n)) [0x80..<0x90]"
  by code_simp

lemma decode_jcc32:
  assumes "0x80 \<le> c" "c \<le> 0x8F" "9 \<le> length rest"
  shows "\<exists>i. x86_insn_decode insn_zero (0x0F # c # le_bytes 4 (off :: u32) @ rest) 64 = Inr i \<and>
    primary_opcode i = c \<and> insn_length i = 6 \<and> dflags i = 0"
proof -
  let ?bytes = "0x0F # c # le_bytes 4 off @ rest" and ?spec = "x86_opcode_map_two_byte ! unat c"
  let ?rd = "\<lparr>opcode_ptr = 0, modrm_ptr = 0, buffer = take 15 ?bytes @ replicate 5 0xcc, buffer_cursor = 2\<rparr>"
  have "unat c \<in> set [0x80..<0x90]" using assms(1,2) unfolding set_upt word_le_nat_alt by simp
  then have sp: "jcc32_spec_ok ?spec" using jcc32_specs by (auto simp: list_all_iff)
  have dw: "read_dword ?rd = Inr (off, ?rd\<lparr>buffer_cursor := 6\<rparr>)"
    by (subst read_dword_le [where w = off]) (simp_all add: take_Cons')
  with assms(3) sp show ?thesis
    by (subst decode_two_byte [where c = c and rest = "le_bytes 4 off @ rest" and spec = ?spec])
      (auto simp: x86_insn_decode_immediate_def x86_insn_imm_bits_def effective_operand_bits_def jcc32_spec_ok_def
        Let_def x86_insn_decode_number_def reader_offset_def insn_zero_def)
qed

text \<open>
  A conditional jump with a 32-bit displacement (\<^verbatim>\<open>0F 80\<close> to \<^verbatim>\<open>0F 8F\<close>) is copied verbatim: placed at \<open>B\<close> it
  branches relative to \<open>B\<close>, to the original target only if \<open>B\<close> is the original address.
\<close>
theorem x64_jcc_rel32_not_relocated:
  fixes off :: u32
  assumes "0x80 \<le> c" "c \<le> 0x8F" "9 \<le> length rest"
  defines "bytes \<equiv> 0x0F # c # le_bytes 4 off @ rest"
  shows "\<exists>insn. GenRelocateSingleX86Insn k nd o_ip r_ip bytes 64 b m = Inr (insn, b @ take 6 bytes, m) \<and>
    x64_decode o_ip (take 6 bytes) = Some (XJcc (c AND 0xF) (o_ip + 6 + scast off), 6) \<and>
    x64_decode B (take 6 bytes) = Some (XJcc (c AND 0xF) (B + 6 + scast off), 6) \<and>
    (B + 6 + scast off = o_ip + 6 + scast off \<longleftrightarrow> B = o_ip)"
proof -
  obtain i where i: "x86_insn_decode insn_zero bytes 64 = Inr i" "primary_opcode i = c" "insn_length i = 6" "dflags i = 0"
    using decode_jcc32 [OF assms(1-3)] unfolding bytes_def by blast
  have op: "\<not> c \<le> 0x7F" "c \<noteq> 0xEB" "c \<noteq> 0xE8" "c \<noteq> 0xE9" "\<not> 0xE0 \<le> c" "c \<noteq> 0xE3"
    using assms(1,2) by (auto simp: word_le_nat_alt)
  have "GenRelocateSingleX86Insn k nd o_ip r_ip bytes 64 b m = Inr (i, b @ take 6 bytes, m)"
    using i op by (simp add: GenRelocateSingleX86Insn_def rip_relative_def EmitBuffer_def bytes_def)
  moreover have "x64_decode a (take 6 bytes) = Some (XJcc (c AND 0xF) (a + 6 + scast off), 6)" for a
    using assms(1,2) by (simp add: x64_decode_def Let_def bytes_def le_word_le_bytes take_Cons')
  ultimately show ?thesis by simp
qed

theorem x64_jcc_rel32_not_relocated_witness:
  "\<exists>insn. GenRelocateSingleX86Insn demo_kernel False 0x7000 0x400 (0x0F # 0x84 # le_bytes 4 (0x10 :: u32) @ replicate 9 0x90) 64 [] demo_machine =
     Inr (insn, [0x0F, 0x84, 0x10, 0, 0, 0], demo_machine)"
proof -
  have l: "le_bytes 4 (0x10 :: u32) = [0x10, 0, 0, 0]" by code_simp
  have "(0x80 :: u8) \<le> 0x84" "(0x84 :: u8) \<le> 0x8F" "9 \<le> length (replicate 9 (0x90 :: u8))" by simp_all
  from x64_jcc_rel32_not_relocated [OF this, where off = "0x10" and B = "0x400" and k = demo_kernel and nd = False
      and o_ip = "0x7000" and r_ip = "0x400" and b = "[]" and m = demo_machine]
  obtain insn where "GenRelocateSingleX86Insn demo_kernel False 0x7000 0x400 (0x0F # 0x84 # le_bytes 4 (0x10 :: u32) @ replicate 9 0x90) 64 []
      demo_machine = Inr (insn, [] @ take 6 (0x0F # 0x84 # le_bytes 4 (0x10 :: u32) @ replicate 9 0x90), demo_machine)"
    by blast
  moreover have "[] @ take 6 (0x0F # 0x84 # le_bytes 4 (0x10 :: u32) @ replicate 9 0x90) = [0x0F, 0x84, 0x10, 0, 0, 0 :: u8]"
    by (simp add: l)
  ultimately show ?thesis by auto
qed

text \<open>
  An instruction of the two-byte map that is selected by a mandatory prefix (the SSE groups of the table: \<^verbatim>\<open>MOVD\<close>,
  \<^verbatim>\<open>MOVQ\<close>, \<^verbatim>\<open>PXOR\<close> and the like) is not relocated but ends the process in the decoder.
\<close>
theorem x64_sse_aborts:
  assumes "X86_INSN_FLAG_GET_GROUP (flags (x86_opcode_map_two_byte ! unat c)) > X86_INSN_SSE_GROUP_START" "13 \<le> length rest"
  shows "GenRelocateSingleX86Insn k nd o_ip r_ip (0x0F # c # rest) 64 b m = Inl (RDecode Unimplemented)"
proof -
  let ?bytes = "0x0F # c # rest"
  have len: "15 \<le> length ?bytes" using assms(2) by simp
  have n: "\<not> is_legacy_prefix 0x0F" "\<not> is_rex 64 0x0F" by code_simp+
  then have run: "prefix_run ?bytes = []" by (simp add: prefix_run_def take_Cons')
  have c: "(take 15 ?bytes @ replicate 5 0xcc) ! 0 = 0x0F" "(take 15 ?bytes @ replicate 5 0xcc) ! 1 = c" by (simp_all add: take_Cons')
  let ?rd = "\<lparr>opcode_ptr = 0, modrm_ptr = 0, buffer = take 15 ?bytes @ replicate 5 0xcc, buffer_cursor = 0\<rparr>"
  have "x86_insn_decode_prefix (init_reader (take 15 ?bytes)) insn_zero 64 = Inr (0, ?rd, insn_zero)"
    using decode_prefix_spec [OF len, of insn_zero 64] n(2)
    by (simp only: run c list.size(3) if_False fold_simps init_reader_15 [OF len] x86_insn_reader.update_convs)
  moreover have "read_byte ?rd = Inr (0x0F, ?rd\<lparr>buffer_cursor := 1\<rparr>)"
    "read_byte (?rd\<lparr>buffer_cursor := 1\<rparr>) = Inr (c, ?rd\<lparr>buffer_cursor := 2\<rparr>)"
    using c len by (simp_all add: read_byte_def Let_def)
  ultimately show ?thesis using assms
    by (simp add: GenRelocateSingleX86Insn_def x86_insn_decode_def decode_after_prefix_def x86_insn_decode_opcode_def Let_def)
qed

theorem x64_sse_aborts_witness:
  "GenRelocateSingleX86Insn demo_kernel False 0x7000 0x400 (0x0F # 0x7E # replicate 13 0x90) 64 [] demo_machine = Inl (RDecode Unimplemented)"
proof (rule x64_sse_aborts)
  show "X86_INSN_FLAG_GET_GROUP (flags (x86_opcode_map_two_byte ! unat (0x7E :: u8))) > X86_INSN_SSE_GROUP_START" by code_simp
qed simp

subsection \<open>The IA-32 build\<close>

lemma ucast_add_low: "(ucast (x + y :: addr) :: u32) = ucast x + ucast y"
  by (simp add: word_uint_eq_iff unsigned_ucast_eq uint_word_ariths take_bit_eq_mod mod_mod_cancel mod_simps)

lemma ucast_scast_low: "(ucast (scast (d :: 8 word) :: addr) :: u32) = scast d" "(ucast (scast (e :: u32) :: addr) :: u32) = e"
  by (rule bit_word_eqI; simp add: bit_simps; fail)+

text \<open>The target of the relative branch with a 32-bit displacement that starts at \<open>a\<close> and has \<open>n\<close> bytes.\<close>

definition rel32_target :: "u32 \<Rightarrow> u8 list \<Rightarrow> u32" where
  "rel32_target a cs = a + of_nat (length cs) + le_word (drop (length cs - 4) cs)"

lemma emit_rel32_label_target:
  assumes "of_nat (length b) = (last_offset :: u32)"
  shows "\<exists>d :: u32. emit_rel32_label (b @ cs) last_offset r_ip t = b @ cs @ le_bytes 4 d \<and>
    rel32_target r_ip (cs @ le_bytes 4 d) = t"
proof -
  have "emit_rel32_label (b @ cs) last_offset r_ip t = (b @ cs) @ le_bytes 4 (t - (r_ip + (of_nat (length cs) + 4)))"
    by (simp add: emit_rel32_label_def Let_def GetBufferSize_def Emit32_def EmitBuffer_def assms [symmetric])
  then show ?thesis by (auto simp: rel32_target_def le_word_le_bytes)
qed

text \<open>
  The IA-32 relocator turns a short jump, a near jump, a call and a short conditional jump into the form with a 32-bit displacement
  (same opcode class and condition) that, at the relocated address, has the original target. Conditional jumps with a 32-bit
  displacement (\<open>0F 80\<close> to \<open>0F 8F\<close>) are excluded: they are copied with their displacement. \<^verbatim>\<open>loop\<close> and
  \<^verbatim>\<open>jecxz\<close> are not in the subset of \<open>x64_decode\<close>.
\<close>
lemma ia32_relocate_branches:
  fixes k_ip r_ip :: u32
  assumes len: "15 \<le> length bytes"
    and i: "x64_decode (ucast o_ip) (take 6 bytes) = Some (i, n)" "bytes ! 0 \<noteq> 0x0F" "bytes ! 0 \<noteq> 0xFF"
  shows "\<exists>insn cs. GenRelocateSingleX86Insn_ia32 near_exec patch nd o_ip r_ip bytes 64 b m = Inr (insn, b @ cs, m) \<and>
    unat (insn_length insn) = n \<and>
    (case i of
       XJcc cc t \<Rightarrow> take 2 cs = [0x0F, 0x80 OR cc] \<and> rel32_target r_ip cs = ucast t
     | XJmp t \<Rightarrow> take 1 cs = [0xE9] \<and> rel32_target r_ip cs = ucast t
     | XCall t \<Rightarrow> take 1 cs = [0xE8] \<and> rel32_target r_ip cs = ucast t
     | _ \<Rightarrow> False)"
proof -
  have nth: "take 6 bytes ! 0 = bytes ! 0" "take 6 bytes ! 1 = bytes ! 1"
     "take 4 (drop 1 (take 6 bytes)) = take 4 (drop 1 bytes)"
    using len by (simp_all add: drop_take)
  let ?op = "bytes ! 0" let ?d32 = "le_word (take 4 (drop 1 bytes)) :: u32"
  note emit = emit_rel32_label_target [of b "of_nat (length b)" _ r_ip, OF refl]
  have u: "(ucast (ucast o_ip + 2 + scast d :: addr) :: u32) = o_ip + 2 + scast d"
    "(ucast (ucast o_ip + 5 + scast e :: addr) :: u32) = o_ip + 5 + e" for d :: "8 word" and e :: u32
    by (simp_all add: ucast_add_low ucast_scast_low ucast_back)
  consider (jcc) "0x70 \<le> ?op" "?op \<le> 0x7F" "i = XJcc (?op AND 0xF) (ucast o_ip + 2 + scast (bytes ! 1))" "n = 2"
    | (jmp8) "?op = 0xEB" "i = XJmp (ucast o_ip + 2 + scast (bytes ! 1))" "n = 2"
    | (jmp32) "?op = 0xE9" "i = XJmp (ucast o_ip + 5 + scast ?d32)" "n = 5"
    | (call) "?op = 0xE8" "i = XCall (ucast o_ip + 5 + scast ?d32)" "n = 5"
    using i nth by (auto simp: x64_decode_def Let_def split: if_splits)
  then show ?thesis
  proof cases
    case jcc
    obtain j where j: "x86_insn_decode insn_zero bytes 64 = Inr j" "primary_opcode j = ?op" "insn_length j = 2"
        "ucast (immediate j) = bytes ! 1" "dflags j = 0"
      using relocate_rel8 [OF len rel8_range [OF jcc(1,2)]] by blast
    obtain d :: u32 where "emit_rel32_label (b @ [0x0F, 0x80 OR (?op AND 0xF)]) (of_nat (length b)) r_ip (o_ip + 2 + scast (bytes ! 1)) =
        b @ [0x0F, 0x80 OR (?op AND 0xF)] @ le_bytes 4 d"
      "rel32_target r_ip ([0x0F, 0x80 OR (?op AND 0xF)] @ le_bytes 4 d) = o_ip + 2 + scast (bytes ! 1)"
      using emit by blast
    then show ?thesis using jcc len j u
      by (simp add: GenRelocateSingleX86Insn_ia32_def Let_def GetBufferSize_def emit_defs)
  next
    case jmp8
    have "unat ?op \<in> set rel8_opcodes" using jmp8(1) by (simp add: rel8_opcodes_def)
    then obtain j where j: "x86_insn_decode insn_zero bytes 64 = Inr j" "primary_opcode j = ?op" "insn_length j = 2"
        "ucast (immediate j) = bytes ! 1" "dflags j = 0"
      using relocate_rel8 [OF len] by blast
    obtain d :: u32 where "emit_rel32_label (b @ [0xE9]) (of_nat (length b)) r_ip (o_ip + 2 + scast (bytes ! 1)) = b @ [0xE9] @ le_bytes 4 d"
      "rel32_target r_ip ([0xE9] @ le_bytes 4 d) = o_ip + 2 + scast (bytes ! 1)"
      using emit by blast
    then show ?thesis using jmp8 len j u
      by (simp add: GenRelocateSingleX86Insn_ia32_def Let_def GetBufferSize_def emit_defs rip_relative_def)
  next
    case jmp32
    then obtain j where j: "x86_insn_decode insn_zero bytes 64 = Inr j" "primary_opcode j = ?op" "insn_length j = 5"
        "ucast (immediate j) = ?d32" "immediate_offset j = 1" "dflags j = 0"
      using relocate_rel32 [OF len] by blast
    have t1: "take 1 bytes = [0xE9]" using jmp32(1) len by (cases bytes) auto
    obtain d :: u32 where "emit_rel32_label (b @ [0xE9]) (of_nat (length b)) r_ip (o_ip + 5 + ?d32) = b @ [0xE9] @ le_bytes 4 d"
      "rel32_target r_ip ([0xE9] @ le_bytes 4 d) = o_ip + 5 + ?d32"
      using emit by blast
    then show ?thesis using jmp32 len j u t1
      by (simp add: GenRelocateSingleX86Insn_ia32_def Let_def GetBufferSize_def emit_defs rip_relative_def)
  next
    case call
    then obtain j where j: "x86_insn_decode insn_zero bytes 64 = Inr j" "primary_opcode j = ?op" "insn_length j = 5"
        "ucast (immediate j) = ?d32" "immediate_offset j = 1" "dflags j = 0"
      using relocate_rel32 [OF len] by blast
    have t1: "take 1 bytes = [0xE8]" using call(1) len by (cases bytes) auto
    obtain d :: u32 where "emit_rel32_label (b @ [0xE8]) (of_nat (length b)) r_ip (o_ip + 5 + ?d32) = b @ [0xE8] @ le_bytes 4 d"
      "rel32_target r_ip ([0xE8] @ le_bytes 4 d) = o_ip + 5 + ?d32"
      using emit by blast
    then show ?thesis using call len j u t1
      by (simp add: GenRelocateSingleX86Insn_ia32_def Let_def GetBufferSize_def emit_defs rip_relative_def)
  qed
qed

lemma ia32_relocate_branches_example:
  "\<exists>insn cs. GenRelocateSingleX86Insn_ia32 (\<lambda>_ _ _ m. (0, m)) (\<lambda>_ _ m. Inr m) False 0x7000 0x400 (0xEB # 0x10 # replicate 13 0x90) 64 [] () =
     Inr (insn, cs, ()) \<and> take 1 cs = [0xE9] \<and> rel32_target 0x400 cs = 0x7012"
proof -
  have d: "x64_decode (ucast (0x7000 :: u32)) (take 6 (0xEB # 0x10 # replicate 13 0x90)) = Some (XJmp 0x7012, 2)" by code_simp
  show ?thesis
    using ia32_relocate_branches [OF _ d, where near_exec = "\<lambda>_ _ _ m. (0, m)" and patch = "\<lambda>_ _ m. Inr m" and nd = False
        and r_ip = "0x400" and b = "[]" and m = "()"]
    by auto
qed

text \<open>The IA-32 instruction \<^verbatim>\<open>mov eax, [0x08049000]\<close>.\<close>

definition mov_eax_abs :: "u8 list" where
  "mov_eax_abs = [0x8B, 0x05, 0x00, 0x90, 0x04, 0x08] @ replicate 9 0x90"

text \<open>
  The IA-32 build decodes in 64-bit mode: an absolute memory operand is taken for a RIP-relative one, and the instruction
  is replaced by the bytes \<^verbatim>\<open>FF 25 00 00 00 00\<close>, on IA-32 a jump through the word at address 0.
\<close>
theorem ia32_absolute_operand_as_rip:
  assumes "\<And>a c m1. \<exists>m2. patch a c m1 = Inr m2"
  shows "\<exists>insn cs m'. GenRelocateSingleX86Insn_ia32 near_exec patch nd o_ip r_ip mov_eax_abs 64 b m =
     Inr (insn, b @ [0xFF, 0x25, 0, 0, 0, 0] @ cs, m')"
proof -
  have "(case x86_insn_decode insn_zero mov_eax_abs 64 of Inl _ \<Rightarrow> False | Inr i \<Rightarrow>
      rip_relative 64 i \<and> primary_opcode i = 0x8B \<and> insn_length i = 6)"
    by code_simp
  then obtain i where i: "x86_insn_decode insn_zero mov_eax_abs 64 = Inr i" "rip_relative 64 i" "primary_opcode i = 0x8B" "insn_length i = 6"
    by (auto split: sum.splits)
  obtain q m1 where q: "near_exec (insn_length i + 6 + 8) (o_ip + 6 + scast (mem_disp (ops i ! 1))) (2 * 1024 * 1024 * 1024) m = (q, m1)"
    by (metis surj_pair)
  have "length mov_eax_abs = 15" by (simp add: mov_eax_abs_def)
  then show ?thesis
    using i q assms
    by (auto simp: GenRelocateSingleX86Insn_ia32_def Let_def relo_rip_insn_def emit_defs bind_res_def lift_crash_def
        split: prod.splits sum.splits) (metis sum.distinct(1))
qed

theorem ia32_absolute_operand_as_rip_witness:
  "\<exists>insn cs m'. GenRelocateSingleX86Insn_ia32 (\<lambda>_ _ _ m. (0x2000, m)) (\<lambda>_ _ m. Inr m) False 0x7000 0x400 mov_eax_abs 64 [] () =
     Inr (insn, [] @ [0xFF, 0x25, 0, 0, 0, 0] @ cs, m')"
  by (rule ia32_absolute_operand_as_rip) simp

end
