(* ===== verification/Thread_Pool.thy ===== *)
theory Thread_Pool
  imports Main
begin

text \<open>
  The thread pool of the application (\<^verbatim>\<open>ThreadPool.h\<close>) as a transition system. A critical section of
  \<^verbatim>\<open>queue_mutex\<close> is one step; \<^verbatim>\<open>condition.wait\<close> with its predicate is the loop between \<open>Checking\<close> and
  \<open>Waiting\<close>; a notification outside the lock is a step of its own, and a waiting thread may also wake up spuriously.
  A packaged task is the index of its object; its future holds what the function returned or threw, which is the
  parameter \<open>run\<close>.
\<close>

subsection \<open>State (class ThreadPool)\<close>

datatype worker = Checking | Waiting | Running nat | Exited

datatype dtor_pc = Alive | Stopped | Notified | Joined

record ('f, 'r) pool =
  workers :: "worker list"
  tasks :: "nat list"
  stop :: bool
  task_objs :: "'f list"
  futures :: "nat \<Rightarrow> 'r option"
  notifying :: nat
  dtor :: dtor_pc

definition ThreadPool :: "nat \<Rightarrow> ('f, 'r) pool" where
  "ThreadPool threads = \<lparr>workers = replicate threads Checking, tasks = [], stop = False, task_objs = [],
     futures = Map.empty, notifying = 0, dtor = Alive\<rparr>"

subsection \<open>The loop of a worker\<close>

definition wait_predicate :: "('f, 'r) pool \<Rightarrow> bool" where
  "wait_predicate p \<longleftrightarrow> stop p \<or> tasks p \<noteq> []"

definition set_worker :: "nat \<Rightarrow> worker \<Rightarrow> ('f, 'r) pool \<Rightarrow> ('f, 'r) pool" where
  "set_worker i w p = p\<lparr>workers := (workers p)[i := w]\<rparr>"

definition worker_step :: "('f \<Rightarrow> 'r) \<Rightarrow> nat \<Rightarrow> ('f, 'r) pool \<Rightarrow> ('f, 'r) pool option" where
  "worker_step run i p =
     (if i < length (workers p) then
        (case workers p ! i of
           Checking \<Rightarrow>
             if \<not> wait_predicate p then Some (set_worker i Waiting p)
             else if stop p \<and> tasks p = [] then Some (set_worker i Exited p)
             else Some ((set_worker i (Running (hd (tasks p))) p)\<lparr>tasks := tl (tasks p)\<rparr>)
         | Running t \<Rightarrow> Some ((set_worker i Checking p)\<lparr>futures := (futures p)(t \<mapsto> run (task_objs p ! t))\<rparr>)
         | _ \<Rightarrow> None)
      else None)"

definition wake :: "nat \<Rightarrow> ('f, 'r) pool \<Rightarrow> ('f, 'r) pool option" where
  "wake i p = (if i < length (workers p) \<and> workers p ! i = Waiting then Some (set_worker i Checking p) else None)"

subsection \<open>The client's operations\<close>

datatype pool_error = enqueue_on_stopped_ThreadPool

text \<open>The result is the future; \<^verbatim>\<open>notify_one\<close> is still to come.\<close>

definition enqueue :: "'f \<Rightarrow> ('f, 'r) pool \<Rightarrow> pool_error + (nat \<times> ('f, 'r) pool)" where
  "enqueue f p =
     (let task = length (task_objs p) in
      if stop p then Inl enqueue_on_stopped_ThreadPool
      else Inr (task, p\<lparr>task_objs := task_objs p @ [f], tasks := tasks p @ [task], notifying := Suc (notifying p)\<rparr>))"

definition notified :: "('f, 'r) pool \<Rightarrow> ('f, 'r) pool" where
  "notified p = p\<lparr>notifying := notifying p - 1\<rparr>"

definition destructor_stop :: "('f, 'r) pool \<Rightarrow> ('f, 'r) pool" where
  "destructor_stop p = p\<lparr>stop := True, dtor := Stopped\<rparr>"

definition destructor_notify_all :: "('f, 'r) pool \<Rightarrow> ('f, 'r) pool" where
  "destructor_notify_all p = p\<lparr>workers := map (\<lambda>w. if w = Waiting then Checking else w) (workers p), dtor := Notified\<rparr>"

inductive pool_step :: "('f \<Rightarrow> 'r) \<Rightarrow> ('f, 'r) pool \<Rightarrow> ('f, 'r) pool \<Rightarrow> bool" for run where
  work: "worker_step run i p = Some q \<Longrightarrow> pool_step run p q"
| spurious: "wake i p = Some q \<Longrightarrow> pool_step run p q"
| enqueued: "enqueue f p = Inr (t, q) \<Longrightarrow> pool_step run p q"
| notify_one: "0 < notifying p \<Longrightarrow> wake i p = Some q \<Longrightarrow> pool_step run p (notified q)"
| notify_none: "0 < notifying p \<Longrightarrow> Waiting \<notin> set (workers p) \<Longrightarrow> pool_step run p (notified p)"
| set_stop: "dtor p = Alive \<Longrightarrow> pool_step run p (destructor_stop p)"
| notify_all: "dtor p = Stopped \<Longrightarrow> pool_step run p (destructor_notify_all p)"
| join: "dtor p = Notified \<Longrightarrow> \<forall>w \<in> set (workers p). w = Exited \<Longrightarrow> pool_step run p (p\<lparr>dtor := Joined\<rparr>)"

inductive pool_reachable :: "('f \<Rightarrow> 'r) \<Rightarrow> nat \<Rightarrow> ('f, 'r) pool \<Rightarrow> bool" for run n where
  start: "pool_reachable run n (ThreadPool n)"
| more: "pool_reachable run n p \<Longrightarrow> pool_step run p q \<Longrightarrow> pool_reachable run n q"

subsection \<open>The invariant\<close>

lemma set_worker_simps [simp]:
  "workers (set_worker i w p) = (workers p)[i := w]" "tasks (set_worker i w p) = tasks p" "stop (set_worker i w p) = stop p"
  "task_objs (set_worker i w p) = task_objs p" "futures (set_worker i w p) = futures p" "notifying (set_worker i w p) = notifying p"
  "dtor (set_worker i w p) = dtor p"
  by (simp_all add: set_worker_def)

definition running :: "('f, 'r) pool \<Rightarrow> nat \<Rightarrow> bool" where
  "running p t \<longleftrightarrow> (\<exists>i < length (workers p). workers p ! i = Running t)"

definition awake :: "('f, 'r) pool \<Rightarrow> bool" where
  "awake p \<longleftrightarrow> Checking \<in> set (workers p) \<or> (\<exists>t. running p t)"

text \<open>The tasks were started in the order in which they were queued: the queue holds the indices from \<open>started\<close> on.\<close>

definition started :: "('f, 'r) pool \<Rightarrow> nat" where
  "started p = length (task_objs p) - length (tasks p)"

definition fifo :: "('f, 'r) pool \<Rightarrow> bool" where
  "fifo p \<longleftrightarrow> length (tasks p) \<le> length (task_objs p) \<and> tasks p = [started p..<length (task_objs p)]"

definition once :: "('f, 'r) pool \<Rightarrow> bool" where
  "once p \<longleftrightarrow> (\<forall>t. t < started p \<longleftrightarrow> futures p t \<noteq> None \<or> running p t) \<and> (\<forall>t r. futures p t = Some r \<longrightarrow> \<not> running p t) \<and>
     (\<forall>i j t. i < length (workers p) \<and> j < length (workers p) \<and> workers p ! i = Running t \<and> workers p ! j = Running t \<longrightarrow> i = j)"

definition kept :: "('f \<Rightarrow> 'r) \<Rightarrow> ('f, 'r) pool \<Rightarrow> bool" where
  "kept run p \<longleftrightarrow> (\<forall>t r. futures p t = Some r \<longrightarrow> r = run (task_objs p ! t))"

definition shut :: "('f, 'r) pool \<Rightarrow> bool" where
  "shut p \<longleftrightarrow> (stop p \<longleftrightarrow> dtor p \<noteq> Alive) \<and> (Exited \<in> set (workers p) \<longrightarrow> stop p \<and> tasks p = []) \<and>
     (dtor p = Notified \<or> dtor p = Joined \<longrightarrow> Waiting \<notin> set (workers p)) \<and>
     (dtor p = Joined \<longrightarrow> (\<forall>w \<in> set (workers p). w = Exited))"

definition heard :: "('f, 'r) pool \<Rightarrow> bool" where
  "heard p \<longleftrightarrow> (tasks p \<noteq> [] \<and> workers p \<noteq> [] \<longrightarrow> 0 < notifying p \<or> awake p)"

definition pool_inv :: "('f \<Rightarrow> 'r) \<Rightarrow> nat \<Rightarrow> ('f, 'r) pool \<Rightarrow> bool" where
  "pool_inv run n p \<longleftrightarrow> length (workers p) = n \<and> fifo p \<and> once p \<and> kept run p \<and> shut p \<and> heard p"

lemma worker_cases:
  assumes "worker_step run i p = Some q"
  obtains "i < length (workers p)" "workers p ! i = Checking" "tasks p = []" "\<not> stop p" "q = set_worker i Waiting p"
  | "i < length (workers p)" "workers p ! i = Checking" "tasks p = []" "stop p" "q = set_worker i Exited p"
  | t ts where "i < length (workers p)" "workers p ! i = Checking" "tasks p = t # ts" "q = (set_worker i (Running t) p)\<lparr>tasks := ts\<rparr>"
  | t where "i < length (workers p)" "workers p ! i = Running t"
      "q = (set_worker i Checking p)\<lparr>futures := (futures p)(t \<mapsto> run (task_objs p ! t))\<rparr>"
  using assms by (cases "tasks p") (auto simp: worker_step_def wait_predicate_def split: if_splits worker.splits)

lemma wakeD: "wake i p = Some q \<Longrightarrow> i < length (workers p) \<and> workers p ! i = Waiting \<and> q = set_worker i Checking p"
  by (auto simp: wake_def split: if_splits)

lemma mem_update: "i < length ws \<Longrightarrow> v \<in> set (ws[i := w]) \<longleftrightarrow> v = w \<or> (\<exists>j < length ws. j \<noteq> i \<and> ws ! j = v)"
  by (auto simp: in_set_conv_nth nth_list_update)

lemma running_set_worker:
  "i < length (workers p) \<Longrightarrow> running (set_worker i w p) t \<longleftrightarrow> w = Running t \<or> (\<exists>j < length (workers p). j \<noteq> i \<and> workers p ! j = Running t)"
  by (auto simp: running_def nth_list_update)

lemma running_set_idle:
  "i < length (workers p) \<Longrightarrow> \<forall>u. workers p ! i \<noteq> Running u \<Longrightarrow> running (set_worker i w p) t \<longleftrightarrow> w = Running t \<or> running p t"
  using running_set_worker [of i p w t] unfolding running_def [of p] by metis

lemma running_fields [simp]: "running (p\<lparr>tasks := ts\<rparr>) t = running p t" "running (p\<lparr>futures := fs\<rparr>) t = running p t"
  by (simp_all add: running_def)

lemma notified_simps [simp]:
  "workers (notified p) = workers p" "tasks (notified p) = tasks p" "stop (notified p) = stop p"
  "task_objs (notified p) = task_objs p" "futures (notified p) = futures p" "dtor (notified p) = dtor p"
  "running (notified p) = running p" "started (notified p) = started p" "awake (notified p) = awake p"
  by (simp_all add: notified_def running_def started_def awake_def fun_eq_iff)

lemma notified_inv: "pool_inv run n p \<Longrightarrow> awake p \<or> tasks p = [] \<or> workers p = [] \<Longrightarrow> pool_inv run n (notified p)"
  unfolding pool_inv_def fifo_def once_def kept_def shut_def heard_def notified_simps by blast

lemma fifo_hd: "fifo p \<Longrightarrow> tasks p = t # ts \<Longrightarrow> t = started p \<and> started p < length (task_objs p) \<and>
    ts = [Suc (started p)..<length (task_objs p)] \<and> length ts = length (task_objs p) - Suc (started p)"
  by (cases "started p < length (task_objs p)") (auto simp: fifo_def upt_conv_Cons)

lemma running_mem: "running p t \<longleftrightarrow> Running t \<in> set (workers p)"
  by (auto simp: running_def in_set_conv_nth)

lemma awakeI: "w \<in> set (workers p) \<Longrightarrow> w \<noteq> Waiting \<Longrightarrow> w \<noteq> Exited \<Longrightarrow> awake p"
  by (cases w) (auto simp: awake_def running_mem)

lemma wake_inv: "pool_inv run n p \<Longrightarrow> wake i p = Some q \<Longrightarrow> pool_inv run n q"
proof -
  assume p: "pool_inv run n p" and "wake i p = Some q"
  then have w: "i < length (workers p)" "workers p ! i = Waiting" and q: "q = set_worker i Checking p" by (auto dest: wakeD)
  have r: "running q t = running p t" for t unfolding q using running_set_idle [OF w(1)] w(2) by simp
  have "once q" using p w unfolding pool_inv_def once_def r by (auto simp: q started_def nth_list_update)
  moreover have "Waiting \<in> set (workers p)" using w by (metis nth_mem)
  then have "shut q" using p unfolding pool_inv_def shut_def by (auto simp: q dest!: set_update_subset_insert [THEN subsetD])
  moreover have "heard q" using w by (auto simp: heard_def awake_def q mem_update)
  ultimately show ?thesis using p by (simp add: pool_inv_def q fifo_def started_def kept_def)
qed

lemma one_runner_update:
  assumes "\<forall>a b t. a < length ws \<and> b < length ws \<and> ws ! a = Running t \<and> ws ! b = Running t \<longrightarrow> a = b" "\<forall>u. w \<noteq> Running u"
  shows "\<forall>a b t. a < length ws \<and> b < length ws \<and> ws[i := w] ! a = Running t \<and> ws[i := w] ! b = Running t \<longrightarrow> a = b"
proof (intro allI impI)
  fix a b t
  assume h: "a < length ws \<and> b < length ws \<and> ws[i := w] ! a = Running t \<and> ws[i := w] ! b = Running t"
  then have "a \<noteq> i" "b \<noteq> i" using assms(2) by auto
  then show "a = b" using h assms(1) by simp
qed

lemma idle_inv:
  assumes p: "pool_inv run n p" and i: "i < length (workers p)" "workers p ! i = Checking" and w: "w = Waiting \<or> w = Exited"
    and ok: "tasks p = []" "w = Waiting \<longleftrightarrow> \<not> stop p"
  shows "pool_inv run n (set_worker i w p)"
proof -
  let ?q = "set_worker i w p"
  have r: "running ?q t = running p t" for t using running_set_idle [OF i(1)] i(2) w by auto
  have "\<forall>a b t. a < length (workers p) \<and> b < length (workers p) \<and> workers p ! a = Running t \<and> workers p ! b = Running t \<longrightarrow> a = b"
    using p by (auto simp: pool_inv_def once_def)
  from one_runner_update [OF this, of w i] w
  have "\<forall>a b t. a < length (workers p) \<and> b < length (workers p) \<and> (workers p)[i := w] ! a = Running t \<and> (workers p)[i := w] ! b = Running t \<longrightarrow> a = b"
    by auto
  then have "once ?q" using p unfolding pool_inv_def once_def r by (simp add: started_def)
  moreover have "Checking \<in> set (workers p)" using i by (metis nth_mem)
  then have "shut ?q" using p ok w unfolding pool_inv_def shut_def by (auto dest!: set_update_subset_insert [THEN subsetD])
  ultimately show ?thesis using p ok(1) by (simp add: pool_inv_def fifo_def started_def kept_def heard_def)
qed

lemma take_inv:
  assumes p: "pool_inv run n p" and i: "i < length (workers p)" "workers p ! i = Checking" and tk: "tasks p = t # ts"
    and q: "q = (set_worker i (Running t) p)\<lparr>tasks := ts\<rparr>"
  shows "pool_inv run n q"
proof -
  have f: "t = started p" "started p < length (task_objs p)" "ts = [Suc (started p)..<length (task_objs p)]"
      "length ts = length (task_objs p) - Suc (started p)"
    using p fifo_hd [OF _ tk] by (auto simp: pool_inv_def)
  then have st: "started q = Suc t" by (simp add: started_def q)
  have r: "running q u \<longleftrightarrow> u = t \<or> running p u" for u
    unfolding q using running_set_idle [OF i(1), of "Running t" u] i(2) by auto
  have "\<not> running p t" "futures p t = None" using p f(1) unfolding pool_inv_def once_def by (metis less_irrefl)+
  moreover have nj: "workers p ! j \<noteq> Running t" if "j < length (workers p)" for j
    using calculation(1) that by (auto simp: running_def)
  have o: "\<forall>u. u < started p \<longleftrightarrow> futures p u \<noteq> None \<or> running p u" "\<forall>u r. futures p u = Some r \<longrightarrow> \<not> running p u"
    "\<forall>i j u. i < length (workers p) \<and> j < length (workers p) \<and> workers p ! i = Running u \<and> workers p ! j = Running u \<longrightarrow> i = j"
    using p by (auto simp: pool_inv_def once_def)
  have "\<forall>u. u < Suc t \<longleftrightarrow> futures p u \<noteq> None \<or> u = t \<or> running p u" using o(1) f(1) less_Suc_eq by metis
  moreover have "\<forall>u r. futures p u = Some r \<longrightarrow> \<not> (u = t \<or> running p u)" using o(2) calculation(2) by auto
  moreover have "a = c" if "a < length (workers p)" "c < length (workers p)"
      "(workers p)[i := Running t] ! a = Running u" "(workers p)[i := Running t] ! c = Running u" for a c u
  proof (cases "a = i \<or> c = i")
    case True
    then show ?thesis using that nj i(1) by (auto simp: nth_list_update split: if_splits)
  qed (use that o(3) in \<open>auto simp: nth_list_update\<close>)
  ultimately have "once q" unfolding once_def r st by (simp add: q)
  moreover have "Checking \<in> set (workers p)" using i by (metis nth_mem)
  then have "shut q" using p tk unfolding pool_inv_def shut_def by (auto simp: q dest!: set_update_subset_insert [THEN subsetD])
  moreover have "fifo q" using f by (simp add: fifo_def st) (simp add: q)
  moreover have "heard q" using r by (auto simp: heard_def awake_def)
  ultimately show ?thesis using p by (simp add: pool_inv_def q kept_def)
qed

lemma running_finish:
  assumes i: "i < length (workers p)" "workers p ! i = Running t"
    and j: "\<And>j. j < length (workers p) \<Longrightarrow> workers p ! j = Running t \<Longrightarrow> j = i"
  shows "running (set_worker i Checking p) u \<longleftrightarrow> u \<noteq> t \<and> running p u"
proof (cases "u = t")
  case True
  then show ?thesis using j by (auto simp: running_set_worker [OF i(1)])
next
  case False
  then have "j \<noteq> i" if "workers p ! j = Running u" for j using that i(2) by auto
  then show ?thesis using False by (auto simp: running_set_worker [OF i(1)]) (auto simp: running_def)
qed

lemma finish_inv:
  assumes p: "pool_inv run n p" and i: "i < length (workers p)" "workers p ! i = Running t"
    and q: "q = (set_worker i Checking p)\<lparr>futures := (futures p)(t \<mapsto> run (task_objs p ! t))\<rparr>"
  shows "pool_inv run n q"
proof -
  have t: "running p t" using i by (auto simp: running_def)
  have o: "\<forall>u. u < started p \<longleftrightarrow> futures p u \<noteq> None \<or> running p u" "\<forall>u r. futures p u = Some r \<longrightarrow> \<not> running p u"
    "\<forall>a b u. a < length (workers p) \<and> b < length (workers p) \<and> workers p ! a = Running u \<and> workers p ! b = Running u \<longrightarrow> a = b"
    using p by (auto simp: pool_inv_def once_def)
  have "j = i" if "j < length (workers p)" "workers p ! j = Running t" for j using o(3) i that by blast
  then have r: "running q u \<longleftrightarrow> u \<noteq> t \<and> running p u" for u
    using running_finish [OF i] by (simp add: q)
  have st: "started q = started p" by (simp add: started_def q)
  have fq: "futures q u = (if u = t then Some (run (task_objs p ! t)) else futures p u)" for u by (simp add: q)
  have "u < started p \<longleftrightarrow> futures q u \<noteq> None \<or> u \<noteq> t \<and> running p u" for u
    using o(1) t by (cases "u = t") (simp_all add: fq)
  moreover have "futures q u = Some x \<longrightarrow> \<not> (u \<noteq> t \<and> running p u)" for u x
    using o(2) by (cases "u = t") (simp_all add: fq)
  moreover have "workers q = (workers p)[i := Checking]" by (simp add: q)
  ultimately have "once q" using one_runner_update [OF o(3), of Checking i] unfolding once_def r st by simp
  moreover have "Running t \<in> set (workers p)" using i by (metis nth_mem)
  then have "shut q" using p unfolding pool_inv_def shut_def by (auto simp: q dest!: set_update_subset_insert [THEN subsetD])
  moreover have "heard q" using i(1) by (auto simp: heard_def awake_def q mem_update)
  ultimately show ?thesis using p by (simp add: pool_inv_def q kept_def fifo_def started_def)
qed

lemma worker_inv: "pool_inv run n p \<Longrightarrow> worker_step run i p = Some q \<Longrightarrow> pool_inv run n q"
  by (erule worker_cases) (auto intro: idle_inv take_inv finish_inv)

lemma step_inv: "pool_step run p q \<Longrightarrow> pool_inv run n p \<Longrightarrow> pool_inv run n q"
proof (induction rule: pool_step.induct)
  case (enqueued f p t q)
  have e: "\<not> stop p" "t = length (task_objs p)"
    "q = p\<lparr>task_objs := task_objs p @ [f], tasks := tasks p @ [t], notifying := Suc (notifying p)\<rparr>"
    using enqueued.hyps by (auto simp: enqueue_def Let_def split: if_splits)
  have f: "fifo p" "length (tasks p) \<le> length (task_objs p)" using enqueued.prems by (auto simp: pool_inv_def fifo_def)
  then have st: "started q = started p" by (simp add: started_def e(3))
  have "u < length (task_objs p)" if "futures p u = Some r" for u r
    using enqueued.prems that unfolding pool_inv_def once_def started_def by (metis diff_le_self less_le_trans option.distinct(1))
  then have "kept run q" using enqueued.prems by (auto simp: pool_inv_def kept_def e(3) nth_append)
  moreover have "started p \<le> length (task_objs p)" by (simp add: started_def)
  then have "fifo q" using f unfolding fifo_def st by (simp add: e(2,3))
  moreover have "running q u = running p u" for u by (simp add: running_def e(3))
  then have "once q" using enqueued.prems unfolding pool_inv_def once_def st by (simp add: e(3))
  moreover have "shut q" using enqueued.prems e(1) by (auto simp: pool_inv_def shut_def e(3))
  ultimately show ?case using enqueued.prems by (simp add: pool_inv_def e(3) heard_def)
next
  case (notify_one p i q)
  have w: "i < length (workers p)" and q: "q = set_worker i Checking p" using wakeD [OF notify_one.hyps(2)] by auto
  have "pool_inv run n q" using wake_inv notify_one by blast
  moreover have "awake q" using w by (simp add: awake_def q mem_update)
  ultimately show ?case by (intro notified_inv) simp_all
next
  case (notify_none p)
  have "awake p" if "tasks p \<noteq> []" "workers p \<noteq> []"
  proof -
    have "workers p ! 0 \<in> set (workers p)" using that(2) by simp
    moreover from this have "workers p ! 0 \<noteq> Waiting" "workers p ! 0 \<noteq> Exited"
      using notify_none that(1) by (auto simp: pool_inv_def shut_def)
    ultimately show ?thesis by (rule awakeI)
  qed
  then show ?case using notify_none.prems by (intro notified_inv) blast+
next
  case (notify_all p)
  let ?q = "destructor_notify_all p"
  have r: "running ?q t = running p t" for t by (auto simp: running_def destructor_notify_all_def split: if_splits)
  have "once ?q" using notify_all.prems unfolding pool_inv_def once_def r by (auto simp: destructor_notify_all_def started_def split: if_splits)
  moreover have "shut ?q" using notify_all by (auto simp: pool_inv_def shut_def destructor_notify_all_def)
  moreover have "heard ?q" using notify_all.prems r by (auto simp: pool_inv_def heard_def awake_def destructor_notify_all_def image_iff)
  ultimately show ?case using notify_all.prems by (simp add: pool_inv_def destructor_notify_all_def fifo_def started_def kept_def)
next
  case (set_stop p)
  then show ?case
    by (auto simp: pool_inv_def destructor_stop_def fifo_def once_def kept_def shut_def heard_def started_def running_def awake_def)
next
  case (join p)
  then show ?case
    by (auto simp: pool_inv_def fifo_def once_def kept_def shut_def heard_def started_def running_def awake_def)
qed (use wake_inv worker_inv in blast)+

lemma start_inv: "pool_inv run n (ThreadPool n)"
  by (auto simp: pool_inv_def ThreadPool_def fifo_def once_def kept_def shut_def heard_def started_def running_def)

lemma reachable_inv: "pool_reachable run n p \<Longrightarrow> pool_inv run n p"
  by (induction rule: pool_reachable.induct) (auto intro: start_inv step_inv)

subsection \<open>Shutting down\<close>

text \<open>Once \<^verbatim>\<open>stop\<close> is set, every step decreases a measure.\<close>

fun worker_rank :: "worker \<Rightarrow> nat" where
  "worker_rank Exited = 0" | "worker_rank Checking = 1" | "worker_rank Waiting = 2" | "worker_rank (Running t) = 2"

fun dtor_rank :: "dtor_pc \<Rightarrow> nat" where
  "dtor_rank Alive = 3" | "dtor_rank Stopped = 2" | "dtor_rank Notified = 1" | "dtor_rank Joined = 0"

definition pool_rank :: "('f, 'r) pool \<Rightarrow> nat" where
  "pool_rank p = 2 * length (tasks p) + sum_list (map worker_rank (workers p)) + notifying p + dtor_rank (dtor p)"

lemma rank_update: "i < length ws \<Longrightarrow> sum_list (map worker_rank (ws[i := w])) + worker_rank (ws ! i) = sum_list (map worker_rank ws) + worker_rank w"
proof (induction ws arbitrary: i)
  case (Cons v ws)
  then show ?case by (cases i) auto
qed simp

lemma rank_notify: "sum_list (map worker_rank (map (\<lambda>w. if w = Waiting then Checking else w) ws)) \<le> sum_list (map worker_rank ws)"
  by (induction ws) auto

lemma rank_wake: "wake i p = Some q \<Longrightarrow> pool_rank q < pool_rank p"
  using rank_update [of i "workers p" Checking] by (auto simp: pool_rank_def dest!: wakeD)

lemma stopped_step: "pool_step run p q \<Longrightarrow> stop p \<Longrightarrow> pool_inv run n p \<Longrightarrow> stop q \<and> pool_rank q < pool_rank p"
proof (induction rule: pool_step.induct)
  case (work i p q)
  from work.hyps show ?case
  proof (cases rule: worker_cases)
    case 1
    then show ?thesis using work.prems by simp
  next
    case 2
    then show ?thesis using work.prems rank_update [OF 2(1), of Exited] by (simp add: pool_rank_def)
  next
    case (3 t ts)
    then show ?thesis using work.prems rank_update [OF 3(1), of "Running t"] by (simp add: pool_rank_def)
  next
    case (4 t)
    then show ?thesis using work.prems rank_update [OF 4(1), of Checking] by (simp add: pool_rank_def)
  qed
next
  case (spurious i p q)
  then show ?case using rank_wake by (auto dest: wakeD)
next
  case (enqueued f p t q)
  then show ?case by (simp add: enqueue_def Let_def)
next
  case (notify_one p i q)
  then have "pool_rank (notified q) \<le> pool_rank q" "stop q" by (auto simp: pool_rank_def notified_def dest: wakeD)
  then show ?case using rank_wake [OF notify_one.hyps(2)] by simp
next
  case (notify_none p)
  then show ?case by (simp add: pool_rank_def notified_def)
next
  case (set_stop p)
  then show ?case by (simp add: pool_inv_def shut_def)
next
  case (notify_all p)
  then show ?case using rank_notify [of "workers p"] by (simp add: pool_rank_def destructor_notify_all_def)
qed (simp add: pool_rank_def)

lemma worker_moves: "i < length (workers p) \<Longrightarrow> workers p ! i = Checking \<or> (\<exists>t. workers p ! i = Running t) \<Longrightarrow> \<exists>q. worker_step run i p = Some q"
  by (auto simp: worker_step_def)

lemma stuck_idle:
  assumes "\<forall>i. worker_step run i p = None" "w \<in> set (workers p)"
  shows "w = Waiting \<or> w = Exited"
proof (rule ccontr)
  assume h: "\<not> (w = Waiting \<or> w = Exited)"
  obtain i where i: "i < length (workers p)" "workers p ! i = w" using assms(2) by (auto simp: in_set_conv_nth)
  then have "workers p ! i = Checking \<or> (\<exists>t. workers p ! i = Running t)" using h by (cases w) auto
  from worker_moves [OF i(1) this, of run] show False using assms(1) by auto
qed

lemma idle_all_done:
  assumes "pool_inv run n p" "\<forall>i. worker_step run i p = None" "notifying p = 0" "0 < n"
  shows "tasks p = [] \<and> (\<forall>t < length (task_objs p). futures p t = Some (run (task_objs p ! t)))"
proof -
  have w: "w = Waiting \<or> w = Exited" if "w \<in> set (workers p)" for w using stuck_idle [OF assms(2) that] .
  then have nr: "\<not> running p t" for t by (auto simp: running_mem)
  have na: "\<not> awake p" using w [of Checking] nr by (auto simp: awake_def)
  have "workers p \<noteq> []" using assms(1,4) by (auto simp: pool_inv_def)
  then have "tasks p = []" using assms(1,3) na by (auto simp: pool_inv_def heard_def)
  moreover from this have "started p = length (task_objs p)" by (simp add: started_def)
  ultimately show ?thesis using assms(1) nr unfolding pool_inv_def once_def kept_def by (metis option.exhaust)
qed

lemma stopped_terminal:
  assumes "pool_inv run n p" "stop p" "\<forall>q. \<not> pool_step run p q"
  shows "dtor p = Joined \<and> (\<forall>w \<in> set (workers p). w = Exited) \<and> (\<forall>i. worker_step run i p = None) \<and> notifying p = 0"
proof -
  have ws: "\<forall>i. worker_step run i p = None" using assms(3) work by (metis option.exhaust)
  have d: "dtor p \<noteq> Alive" "dtor p \<noteq> Stopped" using assms notify_all [of p run] by (auto simp: pool_inv_def shut_def)
  then have "dtor p = Notified \<or> dtor p = Joined" by (cases "dtor p") auto
  then have nw: "Waiting \<notin> set (workers p)" using assms(1) by (auto simp: pool_inv_def shut_def)
  then have ex: "\<forall>w \<in> set (workers p). w = Exited" using stuck_idle [OF ws] by metis
  then have "dtor p = Joined" using \<open>dtor p = Notified \<or> dtor p = Joined\<close> join assms(3) by blast
  moreover have "notifying p = 0" using notify_none [OF _ nw] assms(3) by blast
  ultimately show ?thesis using ex ws by blast
qed

lemma stopped_run:
  "pool_inv run n p \<Longrightarrow> stop p \<Longrightarrow> \<exists>q. (pool_step run)\<^sup>*\<^sup>* p q \<and> pool_inv run n q \<and> stop q \<and> (\<forall>q'. \<not> pool_step run q q')"
proof (induction "pool_rank p" arbitrary: p rule: less_induct)
  case less
  show ?case
  proof (cases "\<exists>q. pool_step run p q")
    case True
    then obtain q where q: "pool_step run p q" by blast
    then have "pool_rank q < pool_rank p" "stop q" "pool_inv run n q" using stopped_step step_inv less.prems by blast+
    then obtain r where "(pool_step run)\<^sup>*\<^sup>* q r \<and> pool_inv run n r \<and> stop r \<and> (\<forall>q'. \<not> pool_step run r q')" using less.hyps by blast
    then show ?thesis using q by (meson converse_rtranclp_into_rtranclp)
  qed (use less.prems in blast)
qed

subsection \<open>Properties\<close>

text \<open>
  C12: No task is lost, run twice or overtaken. In every state that workers, clients, the destructor and spurious
  wake-ups can reach, the queue holds exactly the tasks from the first one not yet started, in the order of the calls of
  \<^verbatim>\<open>enqueue\<close>; every earlier task is either finished or running, not both, and in one worker only; and a future that is
  ready holds the result of its own function.
\<close>
theorem pool_runs_each_task_once:
  assumes "pool_reachable run n p"
  shows "tasks p = [started p..<length (task_objs p)] \<and>
    (\<forall>t. t < started p \<longleftrightarrow> futures p t \<noteq> None \<or> running p t) \<and> (\<forall>t. \<not> (futures p t \<noteq> None \<and> running p t)) \<and>
    (\<forall>i j t. i < length (workers p) \<and> j < length (workers p) \<and> workers p ! i = Running t \<and> workers p ! j = Running t \<longrightarrow> i = j) \<and>
    (\<forall>t r. futures p t = Some r \<longrightarrow> r = run (task_objs p ! t))"
  using reachable_inv [OF assms] unfolding pool_inv_def fifo_def once_def kept_def by auto

text \<open>
  C24: No wake-up is lost. In every reachable state of a pool with at least one thread in which no notification is
  outstanding and no worker can take a step, the queue is empty and every future is ready: workers never sleep on queued
  tasks.
\<close>
theorem pool_no_lost_wakeup:
  assumes "pool_reachable run n p" "0 < n" "notifying p = 0" "\<forall>i. worker_step run i p = None"
  shows "tasks p = [] \<and> (\<forall>t < length (task_objs p). futures p t = Some (run (task_objs p ! t)))"
  using idle_all_done [OF reachable_inv [OF assms(1)] assms(4,3,2)] .

text \<open>
  C13: The destructor of a pool with at least one worker drains it and returns. From any reachable state in which the destructor has set
  \<^verbatim>\<open>stop\<close>, every step of any thread decreases a measure, so every schedule is finite; and a state without a further step,
  which is reached, is one where all threads have exited, the destructor has joined them, and every task that was ever
  accepted has been run and its future is ready.
\<close>
theorem pool_destructor_terminates:
  assumes "pool_reachable run n p" "stop p" "0 < n"
  shows "(\<forall>q. pool_step run p q \<longrightarrow> stop q \<and> pool_rank q < pool_rank p) \<and>
    (\<exists>q. (pool_step run)\<^sup>*\<^sup>* p q \<and> (\<forall>q'. \<not> pool_step run q q')) \<and>
    ((\<forall>q. \<not> pool_step run p q) \<longrightarrow> dtor p = Joined \<and> (\<forall>w \<in> set (workers p). w = Exited) \<and>
       tasks p = [] \<and> (\<forall>t < length (task_objs p). futures p t = Some (run (task_objs p ! t))))"
proof -
  note inv = reachable_inv [OF assms(1)]
  have "tasks p = [] \<and> (\<forall>t < length (task_objs p). futures p t = Some (run (task_objs p ! t)))" if "\<forall>q. \<not> pool_step run p q"
    using idle_all_done [OF inv, OF _ _ assms(3)] stopped_terminal [OF inv assms(2) that] by metis
  then show ?thesis
    using stopped_step [OF _ assms(2) inv] stopped_run [OF inv assms(2)] stopped_terminal [OF inv assms(2)] by blast
qed

text \<open>
  C36: \<^verbatim>\<open>enqueue\<close> is refused exactly when the pool is stopped, and then nothing changes; otherwise it returns the
  future of a new task that is not ready yet, and queues that task last.
\<close>
theorem pool_enqueue_result:
  assumes "pool_reachable run n p"
  shows "(case enqueue f p of
     Inl e \<Rightarrow> e = enqueue_on_stopped_ThreadPool \<and> stop p
   | Inr (t, q) \<Rightarrow> \<not> stop p \<and> futures q t = None \<and> \<not> running q t \<and> t \<notin> set (tasks p) \<and> tasks q = tasks p @ [t] \<and>
       task_objs q ! t = f \<and> workers q = workers p \<and> futures q = futures p \<and> (\<forall>u < length (task_objs p). task_objs q ! u = task_objs p ! u))"
proof -
  have inv: "once p" "fifo p" using reachable_inv [OF assms] by (simp_all add: pool_inv_def)
  let ?t = "length (task_objs p)"
  have "\<not> ?t < started p" by (simp add: started_def)
  then have "futures p ?t = None" "\<not> running p ?t" using inv(1) unfolding once_def by metis+
  moreover have "?t \<notin> set (tasks p)" using inv(2) by (metis atLeastLessThan_iff fifo_def less_irrefl set_upt)
  ultimately show ?thesis by (auto simp: enqueue_def Let_def running_def nth_append)
qed

text \<open>A pool of one thread, two tasks, and the destructor called while both are queued.\<close>

definition demo_pool :: "(nat, nat) pool" where
  "demo_pool = destructor_stop (case enqueue 5 (ThreadPool 1) of Inr (_, p) \<Rightarrow> (case enqueue 7 p of Inr (_, q) \<Rightarrow> q))"

lemma demo_pool_reachable: "pool_reachable Suc 1 demo_pool" "stop demo_pool"
proof -
  let ?p0 = "ThreadPool 1 :: (nat, nat) pool"
  obtain p1 where p1: "enqueue 5 ?p0 = Inr (0, p1)" by (simp add: enqueue_def ThreadPool_def)
  then obtain p2 where p2: "enqueue 7 p1 = Inr (1, p2)" by (auto simp: enqueue_def ThreadPool_def)
  have "pool_reachable Suc 1 p2"
    using more [OF more [OF start enqueued [OF p1]] enqueued [OF p2]] .
  moreover have "dtor p2 = Alive" using p1 p2 by (auto simp: enqueue_def ThreadPool_def Let_def split: if_splits)
  ultimately have "pool_reachable Suc 1 (destructor_stop p2)" by (rule more [OF _ set_stop])
  moreover have "demo_pool = destructor_stop p2" using p1 p2 by (simp add: demo_pool_def)
  ultimately show "pool_reachable Suc 1 demo_pool" by simp
  show "stop demo_pool" by (simp add: demo_pool_def destructor_stop_def)
qed

theorem pool_runs_each_task_once_witness: "tasks demo_pool = [0..<2] \<and> futures demo_pool 0 = None"
proof -
  have "started demo_pool = 0" "length (task_objs demo_pool) = 2" by code_simp+
  then show ?thesis using pool_runs_each_task_once [OF demo_pool_reachable(1)] by (metis less_nat_zero_code)
qed

theorem pool_no_lost_wakeup_witness:
  "\<exists>p :: (nat, nat) pool. workers p = [Waiting] \<and> tasks p = [] \<and> pool_reachable Suc 1 p"
proof -
  let ?p = "ThreadPool 1 :: (nat, nat) pool"
  have w: "worker_step Suc 0 ?p = Some (set_worker 0 Waiting ?p)" by (simp add: worker_step_def wait_predicate_def ThreadPool_def)
  have r: "pool_reachable Suc 1 (set_worker 0 Waiting ?p)" using more [OF start work [OF w]] .
  have "\<forall>i. worker_step Suc i (set_worker 0 Waiting ?p) = None" by (simp add: worker_step_def ThreadPool_def)
  moreover have "notifying (set_worker 0 Waiting ?p) = 0" "workers (set_worker 0 Waiting ?p) = [Waiting]" by (simp_all add: ThreadPool_def)
  ultimately show ?thesis using pool_no_lost_wakeup [OF r] r by (intro exI [of _ "set_worker 0 Waiting ?p"]) simp
qed

theorem pool_destructor_terminates_witness:
  "\<exists>q. (pool_step Suc)\<^sup>*\<^sup>* demo_pool q \<and> (\<forall>q'. \<not> pool_step Suc q q')"
  using pool_destructor_terminates [OF demo_pool_reachable] by simp

theorem pool_enqueue_result_witness: "case enqueue 9 demo_pool of Inl e \<Rightarrow> e = enqueue_on_stopped_ThreadPool \<and> stop demo_pool | Inr _ \<Rightarrow> False"
  using pool_enqueue_result [OF demo_pool_reachable(1), of 9] demo_pool_reachable(2) by (auto split: sum.splits)

end
