(* ===== verification/Jni_Env.thy ===== *)
theory Jni_Env
  imports Main
begin

text \<open>
  The replica of the JNI function table and of its C++ wrapper (\<^verbatim>\<open>hook_jni.h\<close>). \<open>hook_JNINativeInterface\<close> lists the
  slots of the structure in their order, so that the index of a slot is its offset in words; \<open>hook_JNIEnv\<close> lists the
  member functions, each with the slot it calls and the arguments it passes. Types are kept as they are written.
\<close>

subsection \<open>The function table (struct hook\_JNINativeInterface)\<close>

text \<open>A slot has a name, a result type and the types of the parameters after the environment pointer.\<close>

datatype slot = Slot (slot_name: string) (slot_ret: string) (slot_params: "string list")

abbreviation reserved :: "string \<Rightarrow> slot" where
  "reserved n \<equiv> Slot n ''void*'' []"

definition slots_basic :: "slot list" where
  "slots_basic =
    [reserved ''reserved0'', reserved ''reserved1'', reserved ''reserved2'', reserved ''reserved3'',
     Slot ''GetVersion'' ''jint'' [],
     Slot ''DefineClass'' ''jclass'' [''const char*'', ''jobject'', ''const jbyte*'', ''jsize''],
     Slot ''FindClass'' ''jclass'' [''const char*''], Slot ''FromReflectedMethod'' ''jmethodID'' [''jobject''],
     Slot ''FromReflectedField'' ''jfieldID'' [''jobject''],
     Slot ''ToReflectedMethod'' ''jobject'' [''jclass'', ''jmethodID'', ''jboolean''],
     Slot ''GetSuperclass'' ''jclass'' [''jclass''],
     Slot ''IsAssignableFrom'' ''jboolean'' [''jclass'', ''jclass''],
     Slot ''ToReflectedField'' ''jobject'' [''jclass'', ''jfieldID'', ''jboolean''],
     Slot ''Throw'' ''jint'' [''jthrowable''], Slot ''ThrowNew'' ''jint'' [''jclass'', ''const char*''],
     Slot ''ExceptionOccurred'' ''jthrowable'' [], Slot ''ExceptionDescribe'' ''void'' [],
     Slot ''ExceptionClear'' ''void'' [], Slot ''FatalError'' ''void'' [''const char*''],
     Slot ''PushLocalFrame'' ''jint'' [''jint''], Slot ''PopLocalFrame'' ''jobject'' [''jobject''],
     Slot ''NewGlobalRef'' ''jobject'' [''jobject''], Slot ''DeleteGlobalRef'' ''void'' [''jobject''],
     Slot ''DeleteLocalRef'' ''void'' [''jobject''], Slot ''IsSameObject'' ''jboolean'' [''jobject'', ''jobject''],
     Slot ''NewLocalRef'' ''jobject'' [''jobject''], Slot ''EnsureLocalCapacity'' ''jint'' [''jint''],
     Slot ''AllocObject'' ''jobject'' [''jclass''],
     Slot ''NewObject'' ''jobject'' [''jclass'', ''jmethodID'', ''...''],
     Slot ''NewObjectV'' ''jobject'' [''jclass'', ''jmethodID'', ''va_list''],
     Slot ''NewObjectA'' ''jobject'' [''jclass'', ''jmethodID'', ''const jvalue*''],
     Slot ''GetObjectClass'' ''jclass'' [''jobject''], Slot ''IsInstanceOf'' ''jboolean'' [''jobject'', ''jclass''],
     Slot ''GetMethodID'' ''jmethodID'' [''jclass'', ''const char*'', ''const char*'']]"

definition slots_call :: "slot list" where
  "slots_call =
    [Slot ''CallObjectMethod'' ''jobject'' [''jobject'', ''jmethodID'', ''...''],
     Slot ''CallObjectMethodV'' ''jobject'' [''jobject'', ''jmethodID'', ''va_list''],
     Slot ''CallObjectMethodA'' ''jobject'' [''jobject'', ''jmethodID'', ''const jvalue*''],
     Slot ''CallBooleanMethod'' ''jboolean'' [''jobject'', ''jmethodID'', ''...''],
     Slot ''CallBooleanMethodV'' ''jboolean'' [''jobject'', ''jmethodID'', ''va_list''],
     Slot ''CallBooleanMethodA'' ''jboolean'' [''jobject'', ''jmethodID'', ''const jvalue*''],
     Slot ''CallByteMethod'' ''jbyte'' [''jobject'', ''jmethodID'', ''...''],
     Slot ''CallByteMethodV'' ''jbyte'' [''jobject'', ''jmethodID'', ''va_list''],
     Slot ''CallByteMethodA'' ''jbyte'' [''jobject'', ''jmethodID'', ''const jvalue*''],
     Slot ''CallCharMethod'' ''jchar'' [''jobject'', ''jmethodID'', ''...''],
     Slot ''CallCharMethodV'' ''jchar'' [''jobject'', ''jmethodID'', ''va_list''],
     Slot ''CallCharMethodA'' ''jchar'' [''jobject'', ''jmethodID'', ''const jvalue*''],
     Slot ''CallShortMethod'' ''jshort'' [''jobject'', ''jmethodID'', ''...''],
     Slot ''CallShortMethodV'' ''jshort'' [''jobject'', ''jmethodID'', ''va_list''],
     Slot ''CallShortMethodA'' ''jshort'' [''jobject'', ''jmethodID'', ''const jvalue*''],
     Slot ''CallIntMethod'' ''jint'' [''jobject'', ''jmethodID'', ''...''],
     Slot ''CallIntMethodV'' ''jint'' [''jobject'', ''jmethodID'', ''va_list''],
     Slot ''CallIntMethodA'' ''jint'' [''jobject'', ''jmethodID'', ''const jvalue*''],
     Slot ''CallLongMethod'' ''jlong'' [''jobject'', ''jmethodID'', ''...''],
     Slot ''CallLongMethodV'' ''jlong'' [''jobject'', ''jmethodID'', ''va_list''],
     Slot ''CallLongMethodA'' ''jlong'' [''jobject'', ''jmethodID'', ''const jvalue*''],
     Slot ''CallFloatMethod'' ''jfloat'' [''jobject'', ''jmethodID'', ''...''],
     Slot ''CallFloatMethodV'' ''jfloat'' [''jobject'', ''jmethodID'', ''va_list''],
     Slot ''CallFloatMethodA'' ''jfloat'' [''jobject'', ''jmethodID'', ''const jvalue*''],
     Slot ''CallDoubleMethod'' ''jdouble'' [''jobject'', ''jmethodID'', ''...''],
     Slot ''CallDoubleMethodV'' ''jdouble'' [''jobject'', ''jmethodID'', ''va_list''],
     Slot ''CallDoubleMethodA'' ''jdouble'' [''jobject'', ''jmethodID'', ''const jvalue*''],
     Slot ''CallVoidMethod'' ''void'' [''jobject'', ''jmethodID'', ''...''],
     Slot ''CallVoidMethodV'' ''void'' [''jobject'', ''jmethodID'', ''va_list''],
     Slot ''CallVoidMethodA'' ''void'' [''jobject'', ''jmethodID'', ''const jvalue*'']]"

definition slots_nonvirtual :: "slot list" where
  "slots_nonvirtual =
    [Slot ''CallNonvirtualObjectMethod'' ''jobject'' [''jobject'', ''jclass'', ''jmethodID'', ''...''],
     Slot ''CallNonvirtualObjectMethodV'' ''jobject'' [''jobject'', ''jclass'', ''jmethodID'', ''va_list''],
     Slot ''CallNonvirtualObjectMethodA'' ''jobject'' [''jobject'', ''jclass'', ''jmethodID'', ''const jvalue*''],
     Slot ''CallNonvirtualBooleanMethod'' ''jboolean'' [''jobject'', ''jclass'', ''jmethodID'', ''...''],
     Slot ''CallNonvirtualBooleanMethodV'' ''jboolean'' [''jobject'', ''jclass'', ''jmethodID'', ''va_list''],
     Slot ''CallNonvirtualBooleanMethodA'' ''jboolean'' [''jobject'', ''jclass'', ''jmethodID'', ''const jvalue*''],
     Slot ''CallNonvirtualByteMethod'' ''jbyte'' [''jobject'', ''jclass'', ''jmethodID'', ''...''],
     Slot ''CallNonvirtualByteMethodV'' ''jbyte'' [''jobject'', ''jclass'', ''jmethodID'', ''va_list''],
     Slot ''CallNonvirtualByteMethodA'' ''jbyte'' [''jobject'', ''jclass'', ''jmethodID'', ''const jvalue*''],
     Slot ''CallNonvirtualCharMethod'' ''jchar'' [''jobject'', ''jclass'', ''jmethodID'', ''...''],
     Slot ''CallNonvirtualCharMethodV'' ''jchar'' [''jobject'', ''jclass'', ''jmethodID'', ''va_list''],
     Slot ''CallNonvirtualCharMethodA'' ''jchar'' [''jobject'', ''jclass'', ''jmethodID'', ''const jvalue*''],
     Slot ''CallNonvirtualShortMethod'' ''jshort'' [''jobject'', ''jclass'', ''jmethodID'', ''...''],
     Slot ''CallNonvirtualShortMethodV'' ''jshort'' [''jobject'', ''jclass'', ''jmethodID'', ''va_list''],
     Slot ''CallNonvirtualShortMethodA'' ''jshort'' [''jobject'', ''jclass'', ''jmethodID'', ''const jvalue*''],
     Slot ''CallNonvirtualIntMethod'' ''jint'' [''jobject'', ''jclass'', ''jmethodID'', ''...''],
     Slot ''CallNonvirtualIntMethodV'' ''jint'' [''jobject'', ''jclass'', ''jmethodID'', ''va_list''],
     Slot ''CallNonvirtualIntMethodA'' ''jint'' [''jobject'', ''jclass'', ''jmethodID'', ''const jvalue*''],
     Slot ''CallNonvirtualLongMethod'' ''jlong'' [''jobject'', ''jclass'', ''jmethodID'', ''...''],
     Slot ''CallNonvirtualLongMethodV'' ''jlong'' [''jobject'', ''jclass'', ''jmethodID'', ''va_list''],
     Slot ''CallNonvirtualLongMethodA'' ''jlong'' [''jobject'', ''jclass'', ''jmethodID'', ''const jvalue*''],
     Slot ''CallNonvirtualFloatMethod'' ''jfloat'' [''jobject'', ''jclass'', ''jmethodID'', ''...''],
     Slot ''CallNonvirtualFloatMethodV'' ''jfloat'' [''jobject'', ''jclass'', ''jmethodID'', ''va_list''],
     Slot ''CallNonvirtualFloatMethodA'' ''jfloat'' [''jobject'', ''jclass'', ''jmethodID'', ''const jvalue*''],
     Slot ''CallNonvirtualDoubleMethod'' ''jdouble'' [''jobject'', ''jclass'', ''jmethodID'', ''...''],
     Slot ''CallNonvirtualDoubleMethodV'' ''jdouble'' [''jobject'', ''jclass'', ''jmethodID'', ''va_list''],
     Slot ''CallNonvirtualDoubleMethodA'' ''jdouble'' [''jobject'', ''jclass'', ''jmethodID'', ''const jvalue*''],
     Slot ''CallNonvirtualVoidMethod'' ''void'' [''jobject'', ''jclass'', ''jmethodID'', ''...''],
     Slot ''CallNonvirtualVoidMethodV'' ''void'' [''jobject'', ''jclass'', ''jmethodID'', ''va_list''],
     Slot ''CallNonvirtualVoidMethodA'' ''void'' [''jobject'', ''jclass'', ''jmethodID'', ''const jvalue*'']]"

definition slots_field :: "slot list" where
  "slots_field =
    [Slot ''GetFieldID'' ''jfieldID'' [''jclass'', ''const char*'', ''const char*''],
     Slot ''GetObjectField'' ''jobject'' [''jobject'', ''jfieldID''],
     Slot ''GetBooleanField'' ''jboolean'' [''jobject'', ''jfieldID''],
     Slot ''GetByteField'' ''jbyte'' [''jobject'', ''jfieldID''],
     Slot ''GetCharField'' ''jchar'' [''jobject'', ''jfieldID''],
     Slot ''GetShortField'' ''jshort'' [''jobject'', ''jfieldID''],
     Slot ''GetIntField'' ''jint'' [''jobject'', ''jfieldID''],
     Slot ''GetLongField'' ''jlong'' [''jobject'', ''jfieldID''],
     Slot ''GetFloatField'' ''jfloat'' [''jobject'', ''jfieldID''],
     Slot ''GetDoubleField'' ''jdouble'' [''jobject'', ''jfieldID''],
     Slot ''SetObjectField'' ''void'' [''jobject'', ''jfieldID'', ''jobject''],
     Slot ''SetBooleanField'' ''void'' [''jobject'', ''jfieldID'', ''jboolean''],
     Slot ''SetByteField'' ''void'' [''jobject'', ''jfieldID'', ''jbyte''],
     Slot ''SetCharField'' ''void'' [''jobject'', ''jfieldID'', ''jchar''],
     Slot ''SetShortField'' ''void'' [''jobject'', ''jfieldID'', ''jshort''],
     Slot ''SetIntField'' ''void'' [''jobject'', ''jfieldID'', ''jint''],
     Slot ''SetLongField'' ''void'' [''jobject'', ''jfieldID'', ''jlong''],
     Slot ''SetFloatField'' ''void'' [''jobject'', ''jfieldID'', ''jfloat''],
     Slot ''SetDoubleField'' ''void'' [''jobject'', ''jfieldID'', ''jdouble'']]"

definition slots_static :: "slot list" where
  "slots_static =
    [Slot ''GetStaticMethodID'' ''jmethodID'' [''jclass'', ''const char*'', ''const char*''],
     Slot ''CallStaticObjectMethod'' ''jobject'' [''jclass'', ''jmethodID'', ''...''],
     Slot ''CallStaticObjectMethodV'' ''jobject'' [''jclass'', ''jmethodID'', ''va_list''],
     Slot ''CallStaticObjectMethodA'' ''jobject'' [''jclass'', ''jmethodID'', ''const jvalue*''],
     Slot ''CallStaticBooleanMethod'' ''jboolean'' [''jclass'', ''jmethodID'', ''...''],
     Slot ''CallStaticBooleanMethodV'' ''jboolean'' [''jclass'', ''jmethodID'', ''va_list''],
     Slot ''CallStaticBooleanMethodA'' ''jboolean'' [''jclass'', ''jmethodID'', ''const jvalue*''],
     Slot ''CallStaticByteMethod'' ''jbyte'' [''jclass'', ''jmethodID'', ''...''],
     Slot ''CallStaticByteMethodV'' ''jbyte'' [''jclass'', ''jmethodID'', ''va_list''],
     Slot ''CallStaticByteMethodA'' ''jbyte'' [''jclass'', ''jmethodID'', ''const jvalue*''],
     Slot ''CallStaticCharMethod'' ''jchar'' [''jclass'', ''jmethodID'', ''...''],
     Slot ''CallStaticCharMethodV'' ''jchar'' [''jclass'', ''jmethodID'', ''va_list''],
     Slot ''CallStaticCharMethodA'' ''jchar'' [''jclass'', ''jmethodID'', ''const jvalue*''],
     Slot ''CallStaticShortMethod'' ''jshort'' [''jclass'', ''jmethodID'', ''...''],
     Slot ''CallStaticShortMethodV'' ''jshort'' [''jclass'', ''jmethodID'', ''va_list''],
     Slot ''CallStaticShortMethodA'' ''jshort'' [''jclass'', ''jmethodID'', ''const jvalue*''],
     Slot ''CallStaticIntMethod'' ''jint'' [''jclass'', ''jmethodID'', ''...''],
     Slot ''CallStaticIntMethodV'' ''jint'' [''jclass'', ''jmethodID'', ''va_list''],
     Slot ''CallStaticIntMethodA'' ''jint'' [''jclass'', ''jmethodID'', ''const jvalue*''],
     Slot ''CallStaticLongMethod'' ''jlong'' [''jclass'', ''jmethodID'', ''...''],
     Slot ''CallStaticLongMethodV'' ''jlong'' [''jclass'', ''jmethodID'', ''va_list''],
     Slot ''CallStaticLongMethodA'' ''jlong'' [''jclass'', ''jmethodID'', ''const jvalue*''],
     Slot ''CallStaticFloatMethod'' ''jfloat'' [''jclass'', ''jmethodID'', ''...''],
     Slot ''CallStaticFloatMethodV'' ''jfloat'' [''jclass'', ''jmethodID'', ''va_list''],
     Slot ''CallStaticFloatMethodA'' ''jfloat'' [''jclass'', ''jmethodID'', ''const jvalue*''],
     Slot ''CallStaticDoubleMethod'' ''jdouble'' [''jclass'', ''jmethodID'', ''...''],
     Slot ''CallStaticDoubleMethodV'' ''jdouble'' [''jclass'', ''jmethodID'', ''va_list''],
     Slot ''CallStaticDoubleMethodA'' ''jdouble'' [''jclass'', ''jmethodID'', ''const jvalue*''],
     Slot ''CallStaticVoidMethod'' ''void'' [''jclass'', ''jmethodID'', ''...''],
     Slot ''CallStaticVoidMethodV'' ''void'' [''jclass'', ''jmethodID'', ''va_list''],
     Slot ''CallStaticVoidMethodA'' ''void'' [''jclass'', ''jmethodID'', ''const jvalue*'']]"

definition slots_static_field :: "slot list" where
  "slots_static_field =
    [Slot ''GetStaticFieldID'' ''jfieldID'' [''jclass'', ''const char*'', ''const char*''],
     Slot ''GetStaticObjectField'' ''jobject'' [''jclass'', ''jfieldID''],
     Slot ''GetStaticBooleanField'' ''jboolean'' [''jclass'', ''jfieldID''],
     Slot ''GetStaticByteField'' ''jbyte'' [''jclass'', ''jfieldID''],
     Slot ''GetStaticCharField'' ''jchar'' [''jclass'', ''jfieldID''],
     Slot ''GetStaticShortField'' ''jshort'' [''jclass'', ''jfieldID''],
     Slot ''GetStaticIntField'' ''jint'' [''jclass'', ''jfieldID''],
     Slot ''GetStaticLongField'' ''jlong'' [''jclass'', ''jfieldID''],
     Slot ''GetStaticFloatField'' ''jfloat'' [''jclass'', ''jfieldID''],
     Slot ''GetStaticDoubleField'' ''jdouble'' [''jclass'', ''jfieldID''],
     Slot ''SetStaticObjectField'' ''void'' [''jclass'', ''jfieldID'', ''jobject''],
     Slot ''SetStaticBooleanField'' ''void'' [''jclass'', ''jfieldID'', ''jboolean''],
     Slot ''SetStaticByteField'' ''void'' [''jclass'', ''jfieldID'', ''jbyte''],
     Slot ''SetStaticCharField'' ''void'' [''jclass'', ''jfieldID'', ''jchar''],
     Slot ''SetStaticShortField'' ''void'' [''jclass'', ''jfieldID'', ''jshort''],
     Slot ''SetStaticIntField'' ''void'' [''jclass'', ''jfieldID'', ''jint''],
     Slot ''SetStaticLongField'' ''void'' [''jclass'', ''jfieldID'', ''jlong''],
     Slot ''SetStaticFloatField'' ''void'' [''jclass'', ''jfieldID'', ''jfloat''],
     Slot ''SetStaticDoubleField'' ''void'' [''jclass'', ''jfieldID'', ''jdouble'']]"

definition slots_string :: "slot list" where
  "slots_string =
    [Slot ''NewString'' ''jstring'' [''const jchar*'', ''jsize''], Slot ''GetStringLength'' ''jsize'' [''jstring''],
     Slot ''GetStringChars'' ''const jchar*'' [''jstring'', ''jboolean*''],
     Slot ''ReleaseStringChars'' ''void'' [''jstring'', ''const jchar*''],
     Slot ''NewStringUTF'' ''jstring'' [''const char*''], Slot ''GetStringUTFLength'' ''jsize'' [''jstring''],
     Slot ''GetStringUTFChars'' ''const char*'' [''jstring'', ''jboolean*''],
     Slot ''ReleaseStringUTFChars'' ''void'' [''jstring'', ''const char*'']]"

definition slots_array :: "slot list" where
  "slots_array =
    [Slot ''GetArrayLength'' ''jsize'' [''jarray''],
     Slot ''NewObjectArray'' ''jobjectArray'' [''jsize'', ''jclass'', ''jobject''],
     Slot ''GetObjectArrayElement'' ''jobject'' [''jobjectArray'', ''jsize''],
     Slot ''SetObjectArrayElement'' ''void'' [''jobjectArray'', ''jsize'', ''jobject''],
     Slot ''NewBooleanArray'' ''jbooleanArray'' [''jsize''], Slot ''NewByteArray'' ''jbyteArray'' [''jsize''],
     Slot ''NewCharArray'' ''jcharArray'' [''jsize''], Slot ''NewShortArray'' ''jshortArray'' [''jsize''],
     Slot ''NewIntArray'' ''jintArray'' [''jsize''], Slot ''NewLongArray'' ''jlongArray'' [''jsize''],
     Slot ''NewFloatArray'' ''jfloatArray'' [''jsize''], Slot ''NewDoubleArray'' ''jdoubleArray'' [''jsize''],
     Slot ''GetBooleanArrayElements'' ''jboolean*'' [''jbooleanArray'', ''jboolean*''],
     Slot ''GetByteArrayElements'' ''jbyte*'' [''jbyteArray'', ''jboolean*''],
     Slot ''GetCharArrayElements'' ''jchar*'' [''jcharArray'', ''jboolean*''],
     Slot ''GetShortArrayElements'' ''jshort*'' [''jshortArray'', ''jboolean*''],
     Slot ''GetIntArrayElements'' ''jint*'' [''jintArray'', ''jboolean*''],
     Slot ''GetLongArrayElements'' ''jlong*'' [''jlongArray'', ''jboolean*''],
     Slot ''GetFloatArrayElements'' ''jfloat*'' [''jfloatArray'', ''jboolean*''],
     Slot ''GetDoubleArrayElements'' ''jdouble*'' [''jdoubleArray'', ''jboolean*''],
     Slot ''ReleaseBooleanArrayElements'' ''void'' [''jbooleanArray'', ''jboolean*'', ''jint''],
     Slot ''ReleaseByteArrayElements'' ''void'' [''jbyteArray'', ''jbyte*'', ''jint''],
     Slot ''ReleaseCharArrayElements'' ''void'' [''jcharArray'', ''jchar*'', ''jint''],
     Slot ''ReleaseShortArrayElements'' ''void'' [''jshortArray'', ''jshort*'', ''jint''],
     Slot ''ReleaseIntArrayElements'' ''void'' [''jintArray'', ''jint*'', ''jint''],
     Slot ''ReleaseLongArrayElements'' ''void'' [''jlongArray'', ''jlong*'', ''jint''],
     Slot ''ReleaseFloatArrayElements'' ''void'' [''jfloatArray'', ''jfloat*'', ''jint''],
     Slot ''ReleaseDoubleArrayElements'' ''void'' [''jdoubleArray'', ''jdouble*'', ''jint''],
     Slot ''GetBooleanArrayRegion'' ''void'' [''jbooleanArray'', ''jsize'', ''jsize'', ''jboolean*''],
     Slot ''GetByteArrayRegion'' ''void'' [''jbyteArray'', ''jsize'', ''jsize'', ''jbyte*''],
     Slot ''GetCharArrayRegion'' ''void'' [''jcharArray'', ''jsize'', ''jsize'', ''jchar*''],
     Slot ''GetShortArrayRegion'' ''void'' [''jshortArray'', ''jsize'', ''jsize'', ''jshort*''],
     Slot ''GetIntArrayRegion'' ''void'' [''jintArray'', ''jsize'', ''jsize'', ''jint*''],
     Slot ''GetLongArrayRegion'' ''void'' [''jlongArray'', ''jsize'', ''jsize'', ''jlong*''],
     Slot ''GetFloatArrayRegion'' ''void'' [''jfloatArray'', ''jsize'', ''jsize'', ''jfloat*''],
     Slot ''GetDoubleArrayRegion'' ''void'' [''jdoubleArray'', ''jsize'', ''jsize'', ''jdouble*''],
     Slot ''SetBooleanArrayRegion'' ''void'' [''jbooleanArray'', ''jsize'', ''jsize'', ''const jboolean*''],
     Slot ''SetByteArrayRegion'' ''void'' [''jbyteArray'', ''jsize'', ''jsize'', ''const jbyte*''],
     Slot ''SetCharArrayRegion'' ''void'' [''jcharArray'', ''jsize'', ''jsize'', ''const jchar*''],
     Slot ''SetShortArrayRegion'' ''void'' [''jshortArray'', ''jsize'', ''jsize'', ''const jshort*''],
     Slot ''SetIntArrayRegion'' ''void'' [''jintArray'', ''jsize'', ''jsize'', ''const jint*''],
     Slot ''SetLongArrayRegion'' ''void'' [''jlongArray'', ''jsize'', ''jsize'', ''const jlong*''],
     Slot ''SetFloatArrayRegion'' ''void'' [''jfloatArray'', ''jsize'', ''jsize'', ''const jfloat*''],
     Slot ''SetDoubleArrayRegion'' ''void'' [''jdoubleArray'', ''jsize'', ''jsize'', ''const jdouble*'']]"

definition slots_other :: "slot list" where
  "slots_other =
    [Slot ''RegisterNatives'' ''jint'' [''jclass'', ''const JNINativeMethod*'', ''jint''],
     Slot ''UnregisterNatives'' ''jint'' [''jclass''], Slot ''MonitorEnter'' ''jint'' [''jobject''],
     Slot ''MonitorExit'' ''jint'' [''jobject''], Slot ''GetJavaVM'' ''jint'' [''JavaVM**''],
     Slot ''GetStringRegion'' ''void'' [''jstring'', ''jsize'', ''jsize'', ''jchar*''],
     Slot ''GetStringUTFRegion'' ''void'' [''jstring'', ''jsize'', ''jsize'', ''char*''],
     Slot ''GetPrimitiveArrayCritical'' ''void*'' [''jarray'', ''jboolean*''],
     Slot ''ReleasePrimitiveArrayCritical'' ''void'' [''jarray'', ''void*'', ''jint''],
     Slot ''GetStringCritical'' ''const jchar*'' [''jstring'', ''jboolean*''],
     Slot ''ReleaseStringCritical'' ''void'' [''jstring'', ''const jchar*''],
     Slot ''NewWeakGlobalRef'' ''jweak'' [''jobject''], Slot ''DeleteWeakGlobalRef'' ''void'' [''jweak''],
     Slot ''ExceptionCheck'' ''jboolean'' [], Slot ''NewDirectByteBuffer'' ''jobject'' [''void*'', ''jlong''],
     Slot ''GetDirectBufferAddress'' ''void*'' [''jobject''],
     Slot ''GetDirectBufferCapacity'' ''jlong'' [''jobject''],
     Slot ''GetObjectRefType'' ''jobjectRefType'' [''jobject'']]"

definition hook_JNINativeInterface :: "slot list" where
  "hook_JNINativeInterface = slots_basic @ slots_call @ slots_nonvirtual @ slots_field @ slots_static @
     slots_static_field @ slots_string @ slots_array @ slots_other"

subsection \<open>The wrapper (struct hook\_JNIEnv)\<close>

text \<open>A member function: name, result type, parameters with their names, the slot it calls and the arguments it passes.\<close>

datatype member = Method (method_name: string) (method_ret: string) (method_params: "(string \<times> string) list")
  (method_slot: string) (method_args: "string list")

text \<open>The macros that define three member functions for each result type.\<close>

definition CALL_TYPE :: "string \<Rightarrow> string \<Rightarrow> member list" where
  "CALL_TYPE jtype jname =
    [Method (''Call'' @ jname @ ''Method'') jtype
       [(''jobject'', ''obj''), (''jmethodID'', ''methodID''), (''...'', ''...'')]
       (''Call'' @ jname @ ''MethodV'') [''this'', ''obj'', ''methodID'', ''args''],
     Method (''Call'' @ jname @ ''MethodV'') jtype
       [(''jobject'', ''obj''), (''jmethodID'', ''methodID''), (''va_list'', ''args'')]
       (''Call'' @ jname @ ''MethodV'') [''this'', ''obj'', ''methodID'', ''args''],
     Method (''Call'' @ jname @ ''MethodA'') jtype
       [(''jobject'', ''obj''), (''jmethodID'', ''methodID''), (''const jvalue*'', ''args'')]
       (''Call'' @ jname @ ''MethodA'') [''this'', ''obj'', ''methodID'', ''args'']]"

definition CALL_NONVIRT_TYPE :: "string \<Rightarrow> string \<Rightarrow> member list" where
  "CALL_NONVIRT_TYPE jtype jname =
    [Method (''CallNonvirtual'' @ jname @ ''Method'') jtype
       [(''jobject'', ''obj''), (''jclass'', ''clazz''), (''jmethodID'', ''methodID''), (''...'', ''...'')]
       (''CallNonvirtual'' @ jname @ ''MethodV'') [''this'', ''obj'', ''clazz'', ''methodID'', ''args''],
     Method (''CallNonvirtual'' @ jname @ ''MethodV'') jtype
       [(''jobject'', ''obj''), (''jclass'', ''clazz''), (''jmethodID'', ''methodID''), (''va_list'', ''args'')]
       (''CallNonvirtual'' @ jname @ ''MethodV'') [''this'', ''obj'', ''clazz'', ''methodID'', ''args''],
     Method (''CallNonvirtual'' @ jname @ ''MethodA'') jtype
       [(''jobject'', ''obj''), (''jclass'', ''clazz''), (''jmethodID'', ''methodID''), (''const jvalue*'', ''args'')]
       (''CallNonvirtual'' @ jname @ ''MethodA'') [''this'', ''obj'', ''clazz'', ''methodID'', ''args'']]"

definition CALL_STATIC_TYPE :: "string \<Rightarrow> string \<Rightarrow> member list" where
  "CALL_STATIC_TYPE jtype jname =
    [Method (''CallStatic'' @ jname @ ''Method'') jtype
       [(''jclass'', ''clazz''), (''jmethodID'', ''methodID''), (''...'', ''...'')]
       (''CallStatic'' @ jname @ ''MethodV'') [''this'', ''clazz'', ''methodID'', ''args''],
     Method (''CallStatic'' @ jname @ ''MethodV'') jtype
       [(''jclass'', ''clazz''), (''jmethodID'', ''methodID''), (''va_list'', ''args'')]
       (''CallStatic'' @ jname @ ''MethodV'') [''this'', ''clazz'', ''methodID'', ''args''],
     Method (''CallStatic'' @ jname @ ''MethodA'') jtype
       [(''jclass'', ''clazz''), (''jmethodID'', ''methodID''), (''const jvalue*'', ''args'')]
       (''CallStatic'' @ jname @ ''MethodA'') [''this'', ''clazz'', ''methodID'', ''args'']]"

definition env_call :: "member list" where
  "env_call =
     CALL_TYPE ''jobject'' ''Object'' @ CALL_TYPE ''jboolean'' ''Boolean'' @ CALL_TYPE ''jbyte'' ''Byte'' @
     CALL_TYPE ''jchar'' ''Char'' @ CALL_TYPE ''jshort'' ''Short'' @ CALL_TYPE ''jint'' ''Int'' @
     CALL_TYPE ''jlong'' ''Long'' @ CALL_TYPE ''jfloat'' ''Float'' @ CALL_TYPE ''jdouble'' ''Double''"

definition env_nonvirtual :: "member list" where
  "env_nonvirtual =
     CALL_NONVIRT_TYPE ''jobject'' ''Object'' @ CALL_NONVIRT_TYPE ''jboolean'' ''Boolean'' @ CALL_NONVIRT_TYPE ''jbyte'' ''Byte'' @
     CALL_NONVIRT_TYPE ''jchar'' ''Char'' @ CALL_NONVIRT_TYPE ''jshort'' ''Short'' @ CALL_NONVIRT_TYPE ''jint'' ''Int'' @
     CALL_NONVIRT_TYPE ''jlong'' ''Long'' @ CALL_NONVIRT_TYPE ''jfloat'' ''Float'' @ CALL_NONVIRT_TYPE ''jdouble'' ''Double''"

definition env_static_call :: "member list" where
  "env_static_call =
     CALL_STATIC_TYPE ''jobject'' ''Object'' @ CALL_STATIC_TYPE ''jboolean'' ''Boolean'' @ CALL_STATIC_TYPE ''jbyte'' ''Byte'' @
     CALL_STATIC_TYPE ''jchar'' ''Char'' @ CALL_STATIC_TYPE ''jshort'' ''Short'' @ CALL_STATIC_TYPE ''jint'' ''Int'' @
     CALL_STATIC_TYPE ''jlong'' ''Long'' @ CALL_STATIC_TYPE ''jfloat'' ''Float'' @ CALL_STATIC_TYPE ''jdouble'' ''Double''"

definition env_basic :: "member list" where
  "env_basic =
    [Method ''GetVersion'' ''jint'' [] ''GetVersion'' [''this''],
     Method ''DefineClass'' ''jclass''
       [(''const char*'', ''name''), (''jobject'', ''loader''), (''const jbyte*'', ''buf''), (''jsize'', ''bufLen'')]
       ''DefineClass'' [''this'', ''name'', ''loader'', ''buf'', ''bufLen''],
     Method ''FindClass'' ''jclass'' [(''const char*'', ''name'')] ''FindClass'' [''this'', ''name''],
     Method ''FromReflectedMethod'' ''jmethodID'' [(''jobject'', ''method'')]
       ''FromReflectedMethod'' [''this'', ''method''],
     Method ''FromReflectedField'' ''jfieldID'' [(''jobject'', ''field'')]
       ''FromReflectedField'' [''this'', ''field''],
     Method ''ToReflectedMethod'' ''jobject''
       [(''jclass'', ''cls''), (''jmethodID'', ''methodID''), (''jboolean'', ''isStatic'')]
       ''ToReflectedMethod'' [''this'', ''cls'', ''methodID'', ''isStatic''],
     Method ''GetSuperclass'' ''jclass'' [(''jclass'', ''clazz'')] ''GetSuperclass'' [''this'', ''clazz''],
     Method ''IsAssignableFrom'' ''jboolean'' [(''jclass'', ''clazz1''), (''jclass'', ''clazz2'')]
       ''IsAssignableFrom'' [''this'', ''clazz1'', ''clazz2''],
     Method ''ToReflectedField'' ''jobject''
       [(''jclass'', ''cls''), (''jfieldID'', ''fieldID''), (''jboolean'', ''isStatic'')]
       ''ToReflectedField'' [''this'', ''cls'', ''fieldID'', ''isStatic''],
     Method ''Throw'' ''jint'' [(''jthrowable'', ''obj'')] ''Throw'' [''this'', ''obj''],
     Method ''ThrowNew'' ''jint'' [(''jclass'', ''clazz''), (''const char*'', ''message'')]
       ''ThrowNew'' [''this'', ''clazz'', ''message''],
     Method ''ExceptionOccurred'' ''jthrowable'' [] ''ExceptionOccurred'' [''this''],
     Method ''ExceptionDescribe'' ''void'' [] ''ExceptionDescribe'' [''this''],
     Method ''ExceptionClear'' ''void'' [] ''ExceptionClear'' [''this''],
     Method ''FatalError'' ''void'' [(''const char*'', ''msg'')] ''FatalError'' [''this'', ''msg''],
     Method ''PushLocalFrame'' ''jint'' [(''jint'', ''capacity'')] ''PushLocalFrame'' [''this'', ''capacity''],
     Method ''PopLocalFrame'' ''jobject'' [(''jobject'', ''result'')] ''PopLocalFrame'' [''this'', ''result''],
     Method ''NewGlobalRef'' ''jobject'' [(''jobject'', ''obj'')] ''NewGlobalRef'' [''this'', ''obj''],
     Method ''DeleteGlobalRef'' ''void'' [(''jobject'', ''globalRef'')]
       ''DeleteGlobalRef'' [''this'', ''globalRef''],
     Method ''DeleteLocalRef'' ''void'' [(''jobject'', ''localRef'')] ''DeleteLocalRef'' [''this'', ''localRef''],
     Method ''IsSameObject'' ''jboolean'' [(''jobject'', ''ref1''), (''jobject'', ''ref2'')]
       ''IsSameObject'' [''this'', ''ref1'', ''ref2''],
     Method ''NewLocalRef'' ''jobject'' [(''jobject'', ''ref'')] ''NewLocalRef'' [''this'', ''ref''],
     Method ''EnsureLocalCapacity'' ''jint'' [(''jint'', ''capacity'')]
       ''EnsureLocalCapacity'' [''this'', ''capacity''],
     Method ''AllocObject'' ''jobject'' [(''jclass'', ''clazz'')] ''AllocObject'' [''this'', ''clazz''],
     Method ''NewObject'' ''jobject'' [(''jclass'', ''clazz''), (''jmethodID'', ''methodID''), (''...'', ''...'')]
       ''NewObjectV'' [''this'', ''clazz'', ''methodID'', ''args''],
     Method ''NewObjectV'' ''jobject''
       [(''jclass'', ''clazz''), (''jmethodID'', ''methodID''), (''va_list'', ''args'')]
       ''NewObjectV'' [''this'', ''clazz'', ''methodID'', ''args''],
     Method ''NewObjectA'' ''jobject''
       [(''jclass'', ''clazz''), (''jmethodID'', ''methodID''), (''const jvalue*'', ''args'')]
       ''NewObjectA'' [''this'', ''clazz'', ''methodID'', ''args''],
     Method ''GetObjectClass'' ''jclass'' [(''jobject'', ''obj'')] ''GetObjectClass'' [''this'', ''obj''],
     Method ''IsInstanceOf'' ''jboolean'' [(''jobject'', ''obj''), (''jclass'', ''clazz'')]
       ''IsInstanceOf'' [''this'', ''obj'', ''clazz''],
     Method ''GetMethodID'' ''jmethodID''
       [(''jclass'', ''clazz''), (''const char*'', ''name''), (''const char*'', ''sig'')]
       ''GetMethodID'' [''this'', ''clazz'', ''name'', ''sig'']]"

definition env_void :: "member list" where
  "env_void =
    [Method ''CallVoidMethod'' ''void'' [(''jobject'', ''obj''), (''jmethodID'', ''methodID''), (''...'', ''...'')]
       ''CallVoidMethodV'' [''this'', ''obj'', ''methodID'', ''args''],
     Method ''CallVoidMethodV'' ''void''
       [(''jobject'', ''obj''), (''jmethodID'', ''methodID''), (''va_list'', ''args'')]
       ''CallVoidMethodV'' [''this'', ''obj'', ''methodID'', ''args''],
     Method ''CallVoidMethodA'' ''void''
       [(''jobject'', ''obj''), (''jmethodID'', ''methodID''), (''const jvalue*'', ''args'')]
       ''CallVoidMethodA'' [''this'', ''obj'', ''methodID'', ''args'']]"

definition env_nonvirtual_void :: "member list" where
  "env_nonvirtual_void =
    [Method ''CallNonvirtualVoidMethod'' ''void''
       [(''jobject'', ''obj''), (''jclass'', ''clazz''), (''jmethodID'', ''methodID''), (''...'', ''...'')]
       ''CallNonvirtualVoidMethodV'' [''this'', ''obj'', ''clazz'', ''methodID'', ''args''],
     Method ''CallNonvirtualVoidMethodV'' ''void''
       [(''jobject'', ''obj''), (''jclass'', ''clazz''), (''jmethodID'', ''methodID''), (''va_list'', ''args'')]
       ''CallNonvirtualVoidMethodV'' [''this'', ''obj'', ''clazz'', ''methodID'', ''args''],
     Method ''CallNonvirtualVoidMethodA'' ''void''
       [(''jobject'', ''obj''), (''jclass'', ''clazz''), (''jmethodID'', ''methodID''), (''const jvalue*'', ''args'')]
       ''CallNonvirtualVoidMethodA'' [''this'', ''obj'', ''clazz'', ''methodID'', ''args'']]"

definition env_field :: "member list" where
  "env_field =
    [Method ''GetFieldID'' ''jfieldID''
       [(''jclass'', ''clazz''), (''const char*'', ''name''), (''const char*'', ''sig'')]
       ''GetFieldID'' [''this'', ''clazz'', ''name'', ''sig''],
     Method ''GetObjectField'' ''jobject'' [(''jobject'', ''obj''), (''jfieldID'', ''fieldID'')]
       ''GetObjectField'' [''this'', ''obj'', ''fieldID''],
     Method ''GetBooleanField'' ''jboolean'' [(''jobject'', ''obj''), (''jfieldID'', ''fieldID'')]
       ''GetBooleanField'' [''this'', ''obj'', ''fieldID''],
     Method ''GetByteField'' ''jbyte'' [(''jobject'', ''obj''), (''jfieldID'', ''fieldID'')]
       ''GetByteField'' [''this'', ''obj'', ''fieldID''],
     Method ''GetCharField'' ''jchar'' [(''jobject'', ''obj''), (''jfieldID'', ''fieldID'')]
       ''GetCharField'' [''this'', ''obj'', ''fieldID''],
     Method ''GetShortField'' ''jshort'' [(''jobject'', ''obj''), (''jfieldID'', ''fieldID'')]
       ''GetShortField'' [''this'', ''obj'', ''fieldID''],
     Method ''GetIntField'' ''jint'' [(''jobject'', ''obj''), (''jfieldID'', ''fieldID'')]
       ''GetIntField'' [''this'', ''obj'', ''fieldID''],
     Method ''GetLongField'' ''jlong'' [(''jobject'', ''obj''), (''jfieldID'', ''fieldID'')]
       ''GetLongField'' [''this'', ''obj'', ''fieldID''],
     Method ''GetFloatField'' ''jfloat'' [(''jobject'', ''obj''), (''jfieldID'', ''fieldID'')]
       ''GetFloatField'' [''this'', ''obj'', ''fieldID''],
     Method ''GetDoubleField'' ''jdouble'' [(''jobject'', ''obj''), (''jfieldID'', ''fieldID'')]
       ''GetDoubleField'' [''this'', ''obj'', ''fieldID''],
     Method ''SetObjectField'' ''void''
       [(''jobject'', ''obj''), (''jfieldID'', ''fieldID''), (''jobject'', ''value'')]
       ''SetObjectField'' [''this'', ''obj'', ''fieldID'', ''value''],
     Method ''SetBooleanField'' ''void''
       [(''jobject'', ''obj''), (''jfieldID'', ''fieldID''), (''jboolean'', ''value'')]
       ''SetBooleanField'' [''this'', ''obj'', ''fieldID'', ''value''],
     Method ''SetByteField'' ''void'' [(''jobject'', ''obj''), (''jfieldID'', ''fieldID''), (''jbyte'', ''value'')]
       ''SetByteField'' [''this'', ''obj'', ''fieldID'', ''value''],
     Method ''SetCharField'' ''void'' [(''jobject'', ''obj''), (''jfieldID'', ''fieldID''), (''jchar'', ''value'')]
       ''SetCharField'' [''this'', ''obj'', ''fieldID'', ''value''],
     Method ''SetShortField'' ''void'' [(''jobject'', ''obj''), (''jfieldID'', ''fieldID''), (''jshort'', ''value'')]
       ''SetShortField'' [''this'', ''obj'', ''fieldID'', ''value''],
     Method ''SetIntField'' ''void'' [(''jobject'', ''obj''), (''jfieldID'', ''fieldID''), (''jint'', ''value'')]
       ''SetIntField'' [''this'', ''obj'', ''fieldID'', ''value''],
     Method ''SetLongField'' ''void'' [(''jobject'', ''obj''), (''jfieldID'', ''fieldID''), (''jlong'', ''value'')]
       ''SetLongField'' [''this'', ''obj'', ''fieldID'', ''value''],
     Method ''SetFloatField'' ''void'' [(''jobject'', ''obj''), (''jfieldID'', ''fieldID''), (''jfloat'', ''value'')]
       ''SetFloatField'' [''this'', ''obj'', ''fieldID'', ''value''],
     Method ''SetDoubleField'' ''void''
       [(''jobject'', ''obj''), (''jfieldID'', ''fieldID''), (''jdouble'', ''value'')]
       ''SetDoubleField'' [''this'', ''obj'', ''fieldID'', ''value'']]"

definition env_static_id :: "member list" where
  "env_static_id =
    [Method ''GetStaticMethodID'' ''jmethodID''
       [(''jclass'', ''clazz''), (''const char*'', ''name''), (''const char*'', ''sig'')]
       ''GetStaticMethodID'' [''this'', ''clazz'', ''name'', ''sig'']]"

definition env_static_void :: "member list" where
  "env_static_void =
    [Method ''CallStaticVoidMethod'' ''void''
       [(''jclass'', ''clazz''), (''jmethodID'', ''methodID''), (''...'', ''...'')]
       ''CallStaticVoidMethodV'' [''this'', ''clazz'', ''methodID'', ''args''],
     Method ''CallStaticVoidMethodV'' ''void''
       [(''jclass'', ''clazz''), (''jmethodID'', ''methodID''), (''va_list'', ''args'')]
       ''CallStaticVoidMethodV'' [''this'', ''clazz'', ''methodID'', ''args''],
     Method ''CallStaticVoidMethodA'' ''void''
       [(''jclass'', ''clazz''), (''jmethodID'', ''methodID''), (''const jvalue*'', ''args'')]
       ''CallStaticVoidMethodA'' [''this'', ''clazz'', ''methodID'', ''args'']]"

definition env_static_field :: "member list" where
  "env_static_field =
    [Method ''GetStaticFieldID'' ''jfieldID''
       [(''jclass'', ''clazz''), (''const char*'', ''name''), (''const char*'', ''sig'')]
       ''GetStaticFieldID'' [''this'', ''clazz'', ''name'', ''sig''],
     Method ''GetStaticObjectField'' ''jobject'' [(''jclass'', ''clazz''), (''jfieldID'', ''fieldID'')]
       ''GetStaticObjectField'' [''this'', ''clazz'', ''fieldID''],
     Method ''GetStaticBooleanField'' ''jboolean'' [(''jclass'', ''clazz''), (''jfieldID'', ''fieldID'')]
       ''GetStaticBooleanField'' [''this'', ''clazz'', ''fieldID''],
     Method ''GetStaticByteField'' ''jbyte'' [(''jclass'', ''clazz''), (''jfieldID'', ''fieldID'')]
       ''GetStaticByteField'' [''this'', ''clazz'', ''fieldID''],
     Method ''GetStaticCharField'' ''jchar'' [(''jclass'', ''clazz''), (''jfieldID'', ''fieldID'')]
       ''GetStaticCharField'' [''this'', ''clazz'', ''fieldID''],
     Method ''GetStaticShortField'' ''jshort'' [(''jclass'', ''clazz''), (''jfieldID'', ''fieldID'')]
       ''GetStaticShortField'' [''this'', ''clazz'', ''fieldID''],
     Method ''GetStaticIntField'' ''jint'' [(''jclass'', ''clazz''), (''jfieldID'', ''fieldID'')]
       ''GetStaticIntField'' [''this'', ''clazz'', ''fieldID''],
     Method ''GetStaticLongField'' ''jlong'' [(''jclass'', ''clazz''), (''jfieldID'', ''fieldID'')]
       ''GetStaticLongField'' [''this'', ''clazz'', ''fieldID''],
     Method ''GetStaticFloatField'' ''jfloat'' [(''jclass'', ''clazz''), (''jfieldID'', ''fieldID'')]
       ''GetStaticFloatField'' [''this'', ''clazz'', ''fieldID''],
     Method ''GetStaticDoubleField'' ''jdouble'' [(''jclass'', ''clazz''), (''jfieldID'', ''fieldID'')]
       ''GetStaticDoubleField'' [''this'', ''clazz'', ''fieldID''],
     Method ''SetStaticObjectField'' ''void''
       [(''jclass'', ''clazz''), (''jfieldID'', ''fieldID''), (''jobject'', ''value'')]
       ''SetStaticObjectField'' [''this'', ''clazz'', ''fieldID'', ''value''],
     Method ''SetStaticBooleanField'' ''void''
       [(''jclass'', ''clazz''), (''jfieldID'', ''fieldID''), (''jboolean'', ''value'')]
       ''SetStaticBooleanField'' [''this'', ''clazz'', ''fieldID'', ''value''],
     Method ''SetStaticByteField'' ''void''
       [(''jclass'', ''clazz''), (''jfieldID'', ''fieldID''), (''jbyte'', ''value'')]
       ''SetStaticByteField'' [''this'', ''clazz'', ''fieldID'', ''value''],
     Method ''SetStaticCharField'' ''void''
       [(''jclass'', ''clazz''), (''jfieldID'', ''fieldID''), (''jchar'', ''value'')]
       ''SetStaticCharField'' [''this'', ''clazz'', ''fieldID'', ''value''],
     Method ''SetStaticShortField'' ''void''
       [(''jclass'', ''clazz''), (''jfieldID'', ''fieldID''), (''jshort'', ''value'')]
       ''SetStaticShortField'' [''this'', ''clazz'', ''fieldID'', ''value''],
     Method ''SetStaticIntField'' ''void''
       [(''jclass'', ''clazz''), (''jfieldID'', ''fieldID''), (''jint'', ''value'')]
       ''SetStaticIntField'' [''this'', ''clazz'', ''fieldID'', ''value''],
     Method ''SetStaticLongField'' ''void''
       [(''jclass'', ''clazz''), (''jfieldID'', ''fieldID''), (''jlong'', ''value'')]
       ''SetStaticLongField'' [''this'', ''clazz'', ''fieldID'', ''value''],
     Method ''SetStaticFloatField'' ''void''
       [(''jclass'', ''clazz''), (''jfieldID'', ''fieldID''), (''jfloat'', ''value'')]
       ''SetStaticFloatField'' [''this'', ''clazz'', ''fieldID'', ''value''],
     Method ''SetStaticDoubleField'' ''void''
       [(''jclass'', ''clazz''), (''jfieldID'', ''fieldID''), (''jdouble'', ''value'')]
       ''SetStaticDoubleField'' [''this'', ''clazz'', ''fieldID'', ''value'']]"

definition env_string :: "member list" where
  "env_string =
    [Method ''NewString'' ''jstring'' [(''const jchar*'', ''unicodeChars''), (''jsize'', ''len'')]
       ''NewString'' [''this'', ''unicodeChars'', ''len''],
     Method ''GetStringLength'' ''jsize'' [(''jstring'', ''string'')] ''GetStringLength'' [''this'', ''string''],
     Method ''GetStringChars'' ''const jchar*'' [(''jstring'', ''string''), (''jboolean*'', ''isCopy'')]
       ''GetStringChars'' [''this'', ''string'', ''isCopy''],
     Method ''ReleaseStringChars'' ''void'' [(''jstring'', ''string''), (''const jchar*'', ''chars'')]
       ''ReleaseStringChars'' [''this'', ''string'', ''chars''],
     Method ''NewStringUTF'' ''jstring'' [(''const char*'', ''bytes'')] ''NewStringUTF'' [''this'', ''bytes''],
     Method ''GetStringUTFLength'' ''jsize'' [(''jstring'', ''string'')]
       ''GetStringUTFLength'' [''this'', ''string''],
     Method ''GetStringUTFChars'' ''const char*'' [(''jstring'', ''string''), (''jboolean*'', ''isCopy'')]
       ''GetStringUTFChars'' [''this'', ''string'', ''isCopy''],
     Method ''ReleaseStringUTFChars'' ''void'' [(''jstring'', ''string''), (''const char*'', ''utf'')]
       ''ReleaseStringUTFChars'' [''this'', ''string'', ''utf'']]"

definition env_array :: "member list" where
  "env_array =
    [Method ''GetArrayLength'' ''jsize'' [(''jarray'', ''array'')] ''GetArrayLength'' [''this'', ''array''],
     Method ''NewObjectArray'' ''jobjectArray''
       [(''jsize'', ''length''), (''jclass'', ''elementClass''), (''jobject'', ''initialElement'')]
       ''NewObjectArray'' [''this'', ''length'', ''elementClass'', ''initialElement''],
     Method ''GetObjectArrayElement'' ''jobject'' [(''jobjectArray'', ''array''), (''jsize'', ''index'')]
       ''GetObjectArrayElement'' [''this'', ''array'', ''index''],
     Method ''SetObjectArrayElement'' ''void''
       [(''jobjectArray'', ''array''), (''jsize'', ''index''), (''jobject'', ''value'')]
       ''SetObjectArrayElement'' [''this'', ''array'', ''index'', ''value''],
     Method ''NewBooleanArray'' ''jbooleanArray'' [(''jsize'', ''length'')]
       ''NewBooleanArray'' [''this'', ''length''],
     Method ''NewByteArray'' ''jbyteArray'' [(''jsize'', ''length'')] ''NewByteArray'' [''this'', ''length''],
     Method ''NewCharArray'' ''jcharArray'' [(''jsize'', ''length'')] ''NewCharArray'' [''this'', ''length''],
     Method ''NewShortArray'' ''jshortArray'' [(''jsize'', ''length'')] ''NewShortArray'' [''this'', ''length''],
     Method ''NewIntArray'' ''jintArray'' [(''jsize'', ''length'')] ''NewIntArray'' [''this'', ''length''],
     Method ''NewLongArray'' ''jlongArray'' [(''jsize'', ''length'')] ''NewLongArray'' [''this'', ''length''],
     Method ''NewFloatArray'' ''jfloatArray'' [(''jsize'', ''length'')] ''NewFloatArray'' [''this'', ''length''],
     Method ''NewDoubleArray'' ''jdoubleArray'' [(''jsize'', ''length'')] ''NewDoubleArray'' [''this'', ''length''],
     Method ''GetBooleanArrayElements'' ''jboolean*'' [(''jbooleanArray'', ''array''), (''jboolean*'', ''isCopy'')]
       ''GetBooleanArrayElements'' [''this'', ''array'', ''isCopy''],
     Method ''GetByteArrayElements'' ''jbyte*'' [(''jbyteArray'', ''array''), (''jboolean*'', ''isCopy'')]
       ''GetByteArrayElements'' [''this'', ''array'', ''isCopy''],
     Method ''GetCharArrayElements'' ''jchar*'' [(''jcharArray'', ''array''), (''jboolean*'', ''isCopy'')]
       ''GetCharArrayElements'' [''this'', ''array'', ''isCopy''],
     Method ''GetShortArrayElements'' ''jshort*'' [(''jshortArray'', ''array''), (''jboolean*'', ''isCopy'')]
       ''GetShortArrayElements'' [''this'', ''array'', ''isCopy''],
     Method ''GetIntArrayElements'' ''jint*'' [(''jintArray'', ''array''), (''jboolean*'', ''isCopy'')]
       ''GetIntArrayElements'' [''this'', ''array'', ''isCopy''],
     Method ''GetLongArrayElements'' ''jlong*'' [(''jlongArray'', ''array''), (''jboolean*'', ''isCopy'')]
       ''GetLongArrayElements'' [''this'', ''array'', ''isCopy''],
     Method ''GetFloatArrayElements'' ''jfloat*'' [(''jfloatArray'', ''array''), (''jboolean*'', ''isCopy'')]
       ''GetFloatArrayElements'' [''this'', ''array'', ''isCopy''],
     Method ''GetDoubleArrayElements'' ''jdouble*'' [(''jdoubleArray'', ''array''), (''jboolean*'', ''isCopy'')]
       ''GetDoubleArrayElements'' [''this'', ''array'', ''isCopy''],
     Method ''ReleaseBooleanArrayElements'' ''void''
       [(''jbooleanArray'', ''array''), (''jboolean*'', ''elems''), (''jint'', ''mode'')]
       ''ReleaseBooleanArrayElements'' [''this'', ''array'', ''elems'', ''mode''],
     Method ''ReleaseByteArrayElements'' ''void''
       [(''jbyteArray'', ''array''), (''jbyte*'', ''elems''), (''jint'', ''mode'')]
       ''ReleaseByteArrayElements'' [''this'', ''array'', ''elems'', ''mode''],
     Method ''ReleaseCharArrayElements'' ''void''
       [(''jcharArray'', ''array''), (''jchar*'', ''elems''), (''jint'', ''mode'')]
       ''ReleaseCharArrayElements'' [''this'', ''array'', ''elems'', ''mode''],
     Method ''ReleaseShortArrayElements'' ''void''
       [(''jshortArray'', ''array''), (''jshort*'', ''elems''), (''jint'', ''mode'')]
       ''ReleaseShortArrayElements'' [''this'', ''array'', ''elems'', ''mode''],
     Method ''ReleaseIntArrayElements'' ''void''
       [(''jintArray'', ''array''), (''jint*'', ''elems''), (''jint'', ''mode'')]
       ''ReleaseIntArrayElements'' [''this'', ''array'', ''elems'', ''mode''],
     Method ''ReleaseLongArrayElements'' ''void''
       [(''jlongArray'', ''array''), (''jlong*'', ''elems''), (''jint'', ''mode'')]
       ''ReleaseLongArrayElements'' [''this'', ''array'', ''elems'', ''mode''],
     Method ''ReleaseFloatArrayElements'' ''void''
       [(''jfloatArray'', ''array''), (''jfloat*'', ''elems''), (''jint'', ''mode'')]
       ''ReleaseFloatArrayElements'' [''this'', ''array'', ''elems'', ''mode''],
     Method ''ReleaseDoubleArrayElements'' ''void''
       [(''jdoubleArray'', ''array''), (''jdouble*'', ''elems''), (''jint'', ''mode'')]
       ''ReleaseDoubleArrayElements'' [''this'', ''array'', ''elems'', ''mode''],
     Method ''GetBooleanArrayRegion'' ''void''
       [(''jbooleanArray'', ''array''), (''jsize'', ''start''), (''jsize'', ''len''), (''jboolean*'', ''buf'')]
       ''GetBooleanArrayRegion'' [''this'', ''array'', ''start'', ''len'', ''buf''],
     Method ''GetByteArrayRegion'' ''void''
       [(''jbyteArray'', ''array''), (''jsize'', ''start''), (''jsize'', ''len''), (''jbyte*'', ''buf'')]
       ''GetByteArrayRegion'' [''this'', ''array'', ''start'', ''len'', ''buf''],
     Method ''GetCharArrayRegion'' ''void''
       [(''jcharArray'', ''array''), (''jsize'', ''start''), (''jsize'', ''len''), (''jchar*'', ''buf'')]
       ''GetCharArrayRegion'' [''this'', ''array'', ''start'', ''len'', ''buf''],
     Method ''GetShortArrayRegion'' ''void''
       [(''jshortArray'', ''array''), (''jsize'', ''start''), (''jsize'', ''len''), (''jshort*'', ''buf'')]
       ''GetShortArrayRegion'' [''this'', ''array'', ''start'', ''len'', ''buf''],
     Method ''GetIntArrayRegion'' ''void''
       [(''jintArray'', ''array''), (''jsize'', ''start''), (''jsize'', ''len''), (''jint*'', ''buf'')]
       ''GetIntArrayRegion'' [''this'', ''array'', ''start'', ''len'', ''buf''],
     Method ''GetLongArrayRegion'' ''void''
       [(''jlongArray'', ''array''), (''jsize'', ''start''), (''jsize'', ''len''), (''jlong*'', ''buf'')]
       ''GetLongArrayRegion'' [''this'', ''array'', ''start'', ''len'', ''buf''],
     Method ''GetFloatArrayRegion'' ''void''
       [(''jfloatArray'', ''array''), (''jsize'', ''start''), (''jsize'', ''len''), (''jfloat*'', ''buf'')]
       ''GetFloatArrayRegion'' [''this'', ''array'', ''start'', ''len'', ''buf''],
     Method ''GetDoubleArrayRegion'' ''void''
       [(''jdoubleArray'', ''array''), (''jsize'', ''start''), (''jsize'', ''len''), (''jdouble*'', ''buf'')]
       ''GetDoubleArrayRegion'' [''this'', ''array'', ''start'', ''len'', ''buf''],
     Method ''SetBooleanArrayRegion'' ''void''
       [(''jbooleanArray'', ''array''), (''jsize'', ''start''), (''jsize'', ''len''), (''const jboolean*'', ''buf'')]
       ''SetBooleanArrayRegion'' [''this'', ''array'', ''start'', ''len'', ''buf''],
     Method ''SetByteArrayRegion'' ''void''
       [(''jbyteArray'', ''array''), (''jsize'', ''start''), (''jsize'', ''len''), (''const jbyte*'', ''buf'')]
       ''SetByteArrayRegion'' [''this'', ''array'', ''start'', ''len'', ''buf''],
     Method ''SetCharArrayRegion'' ''void''
       [(''jcharArray'', ''array''), (''jsize'', ''start''), (''jsize'', ''len''), (''const jchar*'', ''buf'')]
       ''SetCharArrayRegion'' [''this'', ''array'', ''start'', ''len'', ''buf''],
     Method ''SetShortArrayRegion'' ''void''
       [(''jshortArray'', ''array''), (''jsize'', ''start''), (''jsize'', ''len''), (''const jshort*'', ''buf'')]
       ''SetShortArrayRegion'' [''this'', ''array'', ''start'', ''len'', ''buf''],
     Method ''SetIntArrayRegion'' ''void''
       [(''jintArray'', ''array''), (''jsize'', ''start''), (''jsize'', ''len''), (''const jint*'', ''buf'')]
       ''SetIntArrayRegion'' [''this'', ''array'', ''start'', ''len'', ''buf''],
     Method ''SetLongArrayRegion'' ''void''
       [(''jlongArray'', ''array''), (''jsize'', ''start''), (''jsize'', ''len''), (''const jlong*'', ''buf'')]
       ''SetLongArrayRegion'' [''this'', ''array'', ''start'', ''len'', ''buf''],
     Method ''SetFloatArrayRegion'' ''void''
       [(''jfloatArray'', ''array''), (''jsize'', ''start''), (''jsize'', ''len''), (''const jfloat*'', ''buf'')]
       ''SetFloatArrayRegion'' [''this'', ''array'', ''start'', ''len'', ''buf''],
     Method ''SetDoubleArrayRegion'' ''void''
       [(''jdoubleArray'', ''array''), (''jsize'', ''start''), (''jsize'', ''len''), (''const jdouble*'', ''buf'')]
       ''SetDoubleArrayRegion'' [''this'', ''array'', ''start'', ''len'', ''buf'']]"

definition env_other :: "member list" where
  "env_other =
    [Method ''RegisterNatives'' ''jint''
       [(''jclass'', ''clazz''), (''const JNINativeMethod*'', ''methods''), (''jint'', ''nMethods'')]
       ''RegisterNatives'' [''this'', ''clazz'', ''methods'', ''nMethods''],
     Method ''UnregisterNatives'' ''jint'' [(''jclass'', ''clazz'')] ''UnregisterNatives'' [''this'', ''clazz''],
     Method ''MonitorEnter'' ''jint'' [(''jobject'', ''obj'')] ''MonitorEnter'' [''this'', ''obj''],
     Method ''MonitorExit'' ''jint'' [(''jobject'', ''obj'')] ''MonitorExit'' [''this'', ''obj''],
     Method ''GetJavaVM'' ''jint'' [(''JavaVM**'', ''vm'')] ''GetJavaVM'' [''this'', ''vm''],
     Method ''GetStringRegion'' ''void''
       [(''jstring'', ''str''), (''jsize'', ''start''), (''jsize'', ''len''), (''jchar*'', ''buf'')]
       ''GetStringRegion'' [''this'', ''str'', ''start'', ''len'', ''buf''],
     Method ''GetStringUTFRegion'' ''void''
       [(''jstring'', ''str''), (''jsize'', ''start''), (''jsize'', ''len''), (''char*'', ''buf'')]
       ''GetStringUTFRegion'' [''this'', ''str'', ''start'', ''len'', ''buf''],
     Method ''GetPrimitiveArrayCritical'' ''void*'' [(''jarray'', ''array''), (''jboolean*'', ''isCopy'')]
       ''GetPrimitiveArrayCritical'' [''this'', ''array'', ''isCopy''],
     Method ''ReleasePrimitiveArrayCritical'' ''void''
       [(''jarray'', ''array''), (''void*'', ''carray''), (''jint'', ''mode'')]
       ''ReleasePrimitiveArrayCritical'' [''this'', ''array'', ''carray'', ''mode''],
     Method ''GetStringCritical'' ''const jchar*'' [(''jstring'', ''string''), (''jboolean*'', ''isCopy'')]
       ''GetStringCritical'' [''this'', ''string'', ''isCopy''],
     Method ''ReleaseStringCritical'' ''void'' [(''jstring'', ''string''), (''const jchar*'', ''carray'')]
       ''ReleaseStringCritical'' [''this'', ''string'', ''carray''],
     Method ''NewWeakGlobalRef'' ''jweak'' [(''jobject'', ''obj'')] ''NewWeakGlobalRef'' [''this'', ''obj''],
     Method ''DeleteWeakGlobalRef'' ''void'' [(''jweak'', ''obj'')] ''DeleteWeakGlobalRef'' [''this'', ''obj''],
     Method ''ExceptionCheck'' ''jboolean'' [] ''ExceptionCheck'' [''this''],
     Method ''NewDirectByteBuffer'' ''jobject'' [(''void*'', ''address''), (''jlong'', ''capacity'')]
       ''NewDirectByteBuffer'' [''this'', ''address'', ''capacity''],
     Method ''GetDirectBufferAddress'' ''void*'' [(''jobject'', ''buf'')]
       ''GetDirectBufferAddress'' [''this'', ''buf''],
     Method ''GetDirectBufferCapacity'' ''jlong'' [(''jobject'', ''buf'')]
       ''GetDirectBufferCapacity'' [''this'', ''buf''],
     Method ''GetObjectRefType'' ''jobjectRefType'' [(''jobject'', ''obj'')]
       ''GetObjectRefType'' [''this'', ''obj'']]"

definition hook_JNIEnv :: "member list" where
  "hook_JNIEnv = env_basic @
     env_call @ env_void @ env_nonvirtual @ env_nonvirtual_void @ env_field @
     env_static_id @ env_static_call @ env_static_void @ env_static_field @ env_string @ env_array @ env_other"

subsection \<open>The Java VM (struct hook\_JavaVM)\<close>

definition hook_JavaVM :: "member list" where
  "hook_JavaVM =
    [Method ''DestroyJavaVM'' ''jint'' [] ''DestroyJavaVM'' [''this''],
     Method ''AttachCurrentThread'' ''jint'' [(''JNIEnv**'', ''p_env''), (''void*'', ''thr_args'')]
       ''AttachCurrentThread'' [''this'', ''p_env'', ''thr_args''],
     Method ''DetachCurrentThread'' ''jint'' [] ''DetachCurrentThread'' [''this''],
     Method ''GetEnv'' ''jint'' [(''void**'', ''env''), (''jint'', ''version'')] ''GetEnv'' [''this'', ''env'', ''version''],
     Method ''AttachCurrentThreadAsDaemon'' ''jint'' [(''JNIEnv**'', ''p_env''), (''void*'', ''thr_args'')]
       ''AttachCurrentThreadAsDaemon'' [''this'', ''p_env'', ''thr_args'']]"

subsection \<open>Forwarding\<close>

text \<open>A member function with a variable argument list calls the sibling of its slot that takes a \<^verbatim>\<open>va_list\<close>.\<close>

definition variadic :: "member \<Rightarrow> bool" where
  "variadic m \<longleftrightarrow> map fst (method_params m) \<noteq> [] \<and> last (map fst (method_params m)) = ''...''"

text \<open>\<open>own\<close> is the slot of the same name and \<open>sib\<close> the one after it.\<close>

definition forwards :: "slot \<Rightarrow> slot \<Rightarrow> member \<Rightarrow> bool" where
  "forwards own sib m \<longleftrightarrow>
     slot_name own = method_name m \<and> slot_ret own = method_ret m \<and> slot_params own = map fst (method_params m) \<and>
     (if variadic m
      then method_slot m = method_name m @ ''V'' \<and> slot_name sib = method_slot m \<and> slot_ret sib = method_ret m \<and>
        slot_params sib = butlast (map fst (method_params m)) @ [''va_list''] \<and>
        method_args m = ''this'' # butlast (map snd (method_params m)) @ [''args'']
      else method_slot m = method_name m \<and> method_args m = ''this'' # map snd (method_params m))"

fun all_forward :: "slot list \<Rightarrow> member list \<Rightarrow> bool" where
  "all_forward [] ms \<longleftrightarrow> ms = []"
| "all_forward (own # ss) ms \<longleftrightarrow> (case ms of [] \<Rightarrow> False | m # ms \<Rightarrow> forwards own (case ss of [] \<Rightarrow> own | sib # _ \<Rightarrow> sib) m \<and> all_forward ss ms)"

lemma all_forward_nth:
  "all_forward ss ms \<Longrightarrow> length ms = length ss \<and>
    (\<forall>i < length ms. forwards (ss ! i) (if Suc i < length ss then ss ! Suc i else ss ! i) (ms ! i))"
proof (induction ss arbitrary: ms)
  case (Cons own ss)
  then obtain m ms' where ms: "ms = m # ms'" by (cases ms) auto
  then have IH: "length ms' = length ss" "\<forall>i < length ms'. forwards (ss ! i) (if Suc i < length ss then ss ! Suc i else ss ! i) (ms' ! i)"
    and now: "forwards own (case ss of [] \<Rightarrow> own | sib # _ \<Rightarrow> sib) m"
    using Cons by auto
  show ?case
  proof (intro conjI allI impI)
    fix i assume "i < length ms"
    then show "forwards ((own # ss) ! i) (if Suc i < length (own # ss) then (own # ss) ! Suc i else (own # ss) ! i) (ms ! i)"
    proof (cases i)
      case 0
      then show ?thesis using now by (cases ss) (simp_all add: ms)
    next
      case (Suc k)
      then have "k < length ms'" using \<open>i < length ms\<close> by (simp add: ms)
      then show ?thesis using IH(2) [rule_format, of k] by (cases "Suc k < length ss") (simp_all add: ms Suc)
    qed
  qed (simp add: ms IH(1))
qed simp

lemma forwards_eq [simp]:
  "forwards (Slot n r ps) (Slot n' r' ps') (Method m q qs s as) \<longleftrightarrow>
     n = m \<and> r = q \<and> ps = map fst qs \<and>
     (if qs \<noteq> [] \<and> fst (last qs) = ''...''
      then s = m @ ''V'' \<and> n' = s \<and> r' = q \<and> ps' = map fst (butlast qs) @ [''va_list''] \<and> as = ''this'' # map snd (butlast qs) @ [''args'']
      else s = m \<and> as = ''this'' # map snd qs)"
  by (auto simp: forwards_def variadic_def last_map map_butlast)

lemma forwards_sib: "\<not> variadic m \<Longrightarrow> forwards own sib m = forwards own sib' m"
  by (simp add: forwards_def)

lemma all_forward_append:
  "all_forward ss ms \<Longrightarrow> \<not> variadic (last ms) \<Longrightarrow> all_forward ss' ms' \<Longrightarrow> all_forward (ss @ ss') (ms @ ms')"
proof (induction ss ms rule: all_forward.induct)
  case (2 own ss ms)
  then obtain m ms0 where ms: "ms = m # ms0" by (cases ms) auto
  show ?case
  proof (cases ss)
    case Nil
    then have "ms0 = []" using 2 by (simp add: ms)
    then show ?thesis using 2 Nil forwards_sib [of m own] by (auto simp: ms split: list.split)
  next
    case (Cons a ss0)
    then have "ms0 \<noteq> []" using 2 by (cases ms0) (simp_all add: ms)
    then show ?thesis using 2 Cons by (simp add: ms)
  qed
qed simp

lemma variadic_Method [simp]: "variadic (Method m q qs s as) \<longleftrightarrow> qs \<noteq> [] \<and> fst (last qs) = ''...''"
  by (auto simp: variadic_def last_map)

lemma forward_basic: "all_forward (drop 4 slots_basic) env_basic" "\<not> variadic (last env_basic)"
  unfolding slots_basic_def env_basic_def by simp_all

lemma forward_call: "all_forward slots_call (env_call @ env_void)" "\<not> variadic (last (env_call @ env_void))"
  unfolding slots_call_def env_call_def CALL_TYPE_def env_void_def by simp_all

lemma forward_nonvirtual: "all_forward slots_nonvirtual (env_nonvirtual @ env_nonvirtual_void)"
  "\<not> variadic (last (env_nonvirtual @ env_nonvirtual_void))"
  unfolding slots_nonvirtual_def env_nonvirtual_def CALL_NONVIRT_TYPE_def env_nonvirtual_void_def by simp_all

lemma forward_field: "all_forward slots_field env_field" "\<not> variadic (last env_field)"
  unfolding slots_field_def env_field_def by simp_all

lemma forward_static: "all_forward slots_static (env_static_id @ env_static_call @ env_static_void)"
  "\<not> variadic (last (env_static_id @ env_static_call @ env_static_void))"
  unfolding slots_static_def env_static_id_def env_static_call_def CALL_STATIC_TYPE_def env_static_void_def by simp_all

lemma forward_static_field: "all_forward slots_static_field env_static_field" "\<not> variadic (last env_static_field)"
  unfolding slots_static_field_def env_static_field_def by simp_all

lemma forward_string: "all_forward slots_string env_string" "\<not> variadic (last env_string)"
  unfolding slots_string_def env_string_def by simp_all

lemma forward_array: "all_forward slots_array env_array" "\<not> variadic (last env_array)"
  unfolding slots_array_def env_array_def by simp_all

lemma forward_other: "all_forward slots_other env_other"
  unfolding slots_other_def env_other_def by simp

lemma slots_basic_length: "length slots_basic = 34"
  by (simp add: slots_basic_def)

lemma table_forwards: "all_forward (drop 4 hook_JNINativeInterface) hook_JNIEnv"
proof -
  have "all_forward (drop 4 slots_basic @ slots_call @ slots_nonvirtual @ slots_field @ slots_static @
      slots_static_field @ slots_string @ slots_array @ slots_other)
    (env_basic @ (env_call @ env_void) @ (env_nonvirtual @ env_nonvirtual_void) @ env_field @
      (env_static_id @ env_static_call @ env_static_void) @ env_static_field @ env_string @ env_array @ env_other)"
    by (intro all_forward_append forward_basic forward_call forward_nonvirtual forward_field forward_static
      forward_static_field forward_string forward_array forward_other)
  then show ?thesis by (simp add: hook_JNINativeInterface_def hook_JNIEnv_def slots_basic_length)
qed

lemma last_not_variadic: "\<not> variadic (last hook_JNIEnv)"
  by (simp add: hook_JNIEnv_def env_other_def)

text \<open>
  C40: The wrapper is type-correct and passes everything through. The table has 233 slots. Apart from the four
  reserved words, the slots and the 229 member functions have the same names in the same order; each member function has
  the parameter and result types of its slot and passes the environment and its own parameters in order to that slot, or,
  if it takes a variable argument list, to the next slot, which is its sibling with a \<^verbatim>\<open>va_list\<close> in place of it.
\<close>
theorem jni_env_forwards:
  "length hook_JNINativeInterface = 233 \<and> length hook_JNIEnv = 229 \<and>
   (\<forall>i < 229. forwards (hook_JNINativeInterface ! (i + 4)) (hook_JNINativeInterface ! (i + 5)) (hook_JNIEnv ! i))"
proof -
  have len: "length hook_JNINativeInterface = 233"
    by (simp add: hook_JNINativeInterface_def slots_basic_def slots_call_def slots_nonvirtual_def slots_field_def slots_static_def
      slots_static_field_def slots_string_def slots_array_def slots_other_def)
  note fwd = all_forward_nth [OF table_forwards, unfolded length_drop len]
  have n: "length hook_JNIEnv = 229" using fwd by simp
  moreover have "forwards (hook_JNINativeInterface ! (i + 4)) (hook_JNINativeInterface ! (i + 5)) (hook_JNIEnv ! i)" if "i < 229" for i
  proof (cases "i < 228")
    case True
    then have "forwards (drop 4 hook_JNINativeInterface ! i) (drop 4 hook_JNINativeInterface ! Suc i) (hook_JNIEnv ! i)"
      using conjunct2 [OF fwd, rule_format, of i] n by simp
    then show ?thesis by (simp add: len add.commute True)
  next
    case False
    then have i: "i = 228" using that by simp
    have "hook_JNIEnv \<noteq> []" using n by auto
    then have "\<not> variadic (hook_JNIEnv ! i)" using last_not_variadic last_conv_nth [of hook_JNIEnv] n i by simp
    moreover have "forwards (drop 4 hook_JNINativeInterface ! i) (drop 4 hook_JNINativeInterface ! i) (hook_JNIEnv ! i)"
      using conjunct2 [OF fwd, rule_format, of i] n i by simp
    ultimately show ?thesis
      using forwards_sib [of "hook_JNIEnv ! i" _ "hook_JNINativeInterface ! (i + 4)" "hook_JNINativeInterface ! (i + 5)"]
      by (simp add: len add.commute that)
  qed
  ultimately show ?thesis using len by simp
qed

theorem jni_env_forwards_witness:
  "hook_JNIEnv ! 24 = Method ''NewObject'' ''jobject'' [(''jclass'', ''clazz''), (''jmethodID'', ''methodID''), (''...'', ''...'')]
     ''NewObjectV'' [''this'', ''clazz'', ''methodID'', ''args''] \<and>
   slot_name (hook_JNINativeInterface ! 29) = ''NewObjectV''"
proof -
  have m: "hook_JNIEnv ! 24 = Method ''NewObject'' ''jobject'' [(''jclass'', ''clazz''), (''jmethodID'', ''methodID''), (''...'', ''...'')]
     ''NewObjectV'' [''this'', ''clazz'', ''methodID'', ''args'']"
    by (simp add: hook_JNIEnv_def env_basic_def)
  show ?thesis using jni_env_forwards [THEN conjunct2, THEN conjunct2, rule_format, of 24] by (simp add: m forwards_def variadic_def)
qed

end
