(* ===== verification/Jni_Hook.thy ===== *)
theory Jni_Hook
  imports Jni_Env Dobby_Prelude
begin

text \<open>
  The fake JNI environment of the application (\<^verbatim>\<open>native-lib.cpp\<close>): the functions that stand in for those of the
  virtual machine, the function table that \<^verbatim>\<open>initial\<close> builds, and \<^verbatim>\<open>loadELF\<close>. A loaded library runs against it; its calls
  are calls of slots of the table. Handles are addresses of \<^verbatim>\<open>std::string\<close> objects, which are never freed; the address that
  \<^verbatim>\<open>new\<close> returns is an argument of the call, and so is the value that a function without a result leaves in the result
  register. The log is part of the state, each entry with its format and its arguments.
\<close>

subsection \<open>std::map and the log\<close>

text \<open>A map from pointers to strings is a list sorted by address; \<^verbatim>\<open>operator[]\<close> inserts the empty string.\<close>

type_synonym string_map = "(u64 \<times> string) list"

fun map_index :: "u64 \<Rightarrow> string_map \<Rightarrow> string_map" where
  "map_index k [] = [(k, [])]"
| "map_index k ((a, v) # m) =
     (if k = a then (a, v) # m else if k < a then (k, []) # (a, v) # m else (a, v) # map_index k m)"

definition map_read :: "u64 \<Rightarrow> string_map \<Rightarrow> string" where
  "map_read k m = the (map_of (map_index k m) k)"

definition map_put :: "u64 \<Rightarrow> string \<Rightarrow> string_map \<Rightarrow> string_map" where
  "map_put k v m = map (\<lambda>(a, w). (a, if a = k then v else w)) (map_index k m)"

definition find_value :: "string \<Rightarrow> string_map \<Rightarrow> u64 option" where
  "find_value v m = map_option fst (find (\<lambda>(k, w). w = v) m)"

datatype log_arg = LStr string | LPtr u64 | LInt int

record jni =
  gClassNameMap :: string_map
  gMethodIDMap :: string_map
  HasException :: bool
  strings :: "u64 list"
  log :: "(string \<times> log_arg list) list"

definition jni_start :: jni where
  "jni_start = \<lparr>gClassNameMap = [], gMethodIDMap = [], HasException = False, strings = [], log = []\<rparr>"

definition ALOGD :: "string \<Rightarrow> log_arg list \<Rightarrow> jni \<Rightarrow> jni" where
  "ALOGD fmt args s = s\<lparr>log := log s @ [(fmt, args)]\<rparr>"

text \<open>\<^verbatim>\<open>FUNC_LOG\<close> and the calls that only print the name of the function.\<close>

definition FUNC_LOG :: "string \<Rightarrow> jni \<Rightarrow> jni" where
  "FUNC_LOG f = ALOGD ''%s'' [LStr f]"

text \<open>The lookups \<^verbatim>\<open>gClassNameMap[p]\<close> and \<^verbatim>\<open>gMethodIDMap[p]\<close> in an expression.\<close>

definition class_name :: "u64 \<Rightarrow> jni \<Rightarrow> string \<times> jni" where
  "class_name p s = (map_read p (gClassNameMap s), s\<lparr>gClassNameMap := map_index p (gClassNameMap s)\<rparr>)"

definition name_sig :: "u64 \<Rightarrow> jni \<Rightarrow> string \<times> jni" where
  "name_sig p s = (map_read p (gMethodIDMap s), s\<lparr>gMethodIDMap := map_index p (gMethodIDMap s)\<rparr>)"

datatype jni_fault = Fault u64 | OutOfBounds | BadCall

subsection \<open>Classes and methods\<close>

definition hook_FindClass :: "u64 \<Rightarrow> string \<Rightarrow> jni \<Rightarrow> u64 \<times> jni" where
  "hook_FindClass new className s =
     (case find_value className (gClassNameMap s) of
        Some p \<Rightarrow> (p, s)
      | None \<Rightarrow> (new, s\<lparr>strings := new # strings s, gClassNameMap := map_put new className (gClassNameMap s)\<rparr>))"

fun log_natives :: "string \<Rightarrow> (string \<times> string \<times> u64) list \<Rightarrow> nat \<Rightarrow> jni \<Rightarrow> jni_fault + jni" where
  "log_natives cls ms 0 s = Inr s"
| "log_natives cls [] (Suc n) s = Inl OutOfBounds"
| "log_natives cls ((name, sig, fn) # ms) (Suc n) s =
     log_natives cls ms n (ALOGD ''hook_RegisterNatives %s.%s %s %p'' [LStr cls, LStr name, LStr sig, LPtr fn] s)"

definition hook_RegisterNatives :: "u64 \<Rightarrow> (string \<times> string \<times> u64) list \<Rightarrow> int \<Rightarrow> jni \<Rightarrow> jni_fault + (u64 \<times> jni)" where
  "hook_RegisterNatives cls ms n s =
     (let (clsName, s) = class_name cls s in
      case log_natives clsName ms (nat n) s of Inl e \<Rightarrow> Inl e | Inr s \<Rightarrow> Inr (1, s))"

text \<open>\<^verbatim>\<open>oEnv\<close> is a global pointer that is zero and that no function assigns.\<close>

definition oEnv :: u64 where
  "oEnv = 0"

definition hook_GetObjectClass :: "u64 \<Rightarrow> jni \<Rightarrow> jni_fault + (u64 \<times> jni)" where
  "hook_GetObjectClass obj s =
     (let (c, s) = class_name obj s in
      if c \<noteq> [] then let (c, s) = class_name obj s in Inr (obj, ALOGD ''hook_GetObjectClass %s'' [LStr c] s)
      else Inl (Fault oEnv))"

definition hook_GetMethodID :: "u64 \<Rightarrow> u64 \<Rightarrow> string \<Rightarrow> string \<Rightarrow> jni \<Rightarrow> u64 \<times> jni" where
  "hook_GetMethodID new cls name sig s =
     (let (clsName, s) = class_name cls s; nameSig = name @ sig in
      case find_value nameSig (gMethodIDMap s) of
        Some p \<Rightarrow> (p, s)
      | None \<Rightarrow> (new, ALOGD ''%s %s.%s'' [LStr ''hook_GetMethodID'', LStr clsName, LStr nameSig]
          (s\<lparr>strings := new # strings s, gMethodIDMap := map_put new nameSig (gMethodIDMap s)\<rparr>)))"

definition hook_GetStaticMethodID :: "u64 \<Rightarrow> u64 \<Rightarrow> string \<Rightarrow> string \<Rightarrow> jni \<Rightarrow> u64 \<times> jni" where
  "hook_GetStaticMethodID new cls name sig s =
     (let (clsName, s) = class_name cls s; nameSig = ''static '' @ name @ sig in
      case find_value nameSig (gMethodIDMap s) of
        Some p \<Rightarrow> (p, s)
      | None \<Rightarrow> (new, ALOGD ''%s %s.%s'' [LStr ''hook_GetStaticMethodID'', LStr clsName, LStr nameSig]
          (s\<lparr>strings := new # strings s, gMethodIDMap := map_put new nameSig (gMethodIDMap s)\<rparr>)))"

text \<open>The functions that log the class and the method and return the object: \<^verbatim>\<open>hook_CallStaticObjectMethod\<close> and its
  siblings have this body; the variable arguments are not used.\<close>

definition log_call :: "string \<Rightarrow> u64 \<Rightarrow> u64 \<Rightarrow> jni \<Rightarrow> u64 \<times> jni" where
  "log_call f cls mid s =
     (let (clsName, s) = class_name cls s; (nameSig, s) = name_sig mid s in
      (cls, ALOGD ''%s %s %s'' [LStr f, LStr clsName, LStr nameSig] s))"

definition hook_CallStaticObjectMethod :: "u64 \<Rightarrow> u64 \<Rightarrow> jni \<Rightarrow> u64 \<times> jni" where
  "hook_CallStaticObjectMethod = log_call ''hook_CallStaticObjectMethod''"

definition hook_CallStaticObjectMethodA :: "u64 \<Rightarrow> u64 \<Rightarrow> jni \<Rightarrow> u64 \<times> jni" where
  "hook_CallStaticObjectMethodA = log_call ''hook_CallStaticObjectMethodA''"

definition hook_CallStaticObjectMethodV :: "u64 \<Rightarrow> u64 \<Rightarrow> jni \<Rightarrow> u64 \<times> jni" where
  "hook_CallStaticObjectMethodV = log_call ''hook_CallStaticObjectMethodV''"

definition hook_CallObjectMethod :: "u64 \<Rightarrow> u64 \<Rightarrow> jni \<Rightarrow> u64 \<times> jni" where
  "hook_CallObjectMethod = log_call ''hook_CallObjectMethod''"

definition hook_CallObjectMethodA :: "u64 \<Rightarrow> u64 \<Rightarrow> jni \<Rightarrow> u64 \<times> jni" where
  "hook_CallObjectMethodA jobj mid s =
     (let s = FUNC_LOG ''hook_CallObjectMethodA'' s; (nameSig, s) = name_sig mid s in
      (jobj, ALOGD ''%s %s'' [LStr ''hook_CallObjectMethodA'', LStr nameSig] s))"

definition hook_CallStaticLongMethodV :: "u64 \<Rightarrow> u64 \<Rightarrow> jni \<Rightarrow> u64 \<times> jni" where
  "hook_CallStaticLongMethodV = log_call ''hook_CallStaticLongMethodV''"

definition hook_CallObjectMethodV :: "u64 \<Rightarrow> u64 \<Rightarrow> jni \<Rightarrow> u64 \<times> jni" where
  "hook_CallObjectMethodV = log_call ''hook_CallObjectMethodV''"

definition hook_NewObject :: "u64 \<Rightarrow> u64 \<Rightarrow> jni \<Rightarrow> u64 \<times> jni" where
  "hook_NewObject = log_call ''hook_NewObject''"

definition hook_NewObjectV :: "u64 \<Rightarrow> u64 \<Rightarrow> jni \<Rightarrow> u64 \<times> jni" where
  "hook_NewObjectV = log_call ''hook_NewObjectV''"

definition hook_NewObjectA :: "u64 \<Rightarrow> u64 \<Rightarrow> jni \<Rightarrow> u64 \<times> jni" where
  "hook_NewObjectA = log_call ''hook_NewObjectA''"

subsection \<open>References, exceptions, frames and strings\<close>

definition hook_NewGlobalRef :: "u64 \<Rightarrow> jni \<Rightarrow> u64 \<times> jni" where
  "hook_NewGlobalRef jobj s =
     (let (clsName, s) = class_name jobj s in (jobj, ALOGD ''%s %s'' [LStr ''hook_NewGlobalRef'', LStr clsName] s))"

definition hook_DeleteGlobalRef :: "u64 \<Rightarrow> jni \<Rightarrow> jni" where
  "hook_DeleteGlobalRef jobj s =
     (let (clsName, s) = class_name jobj s in ALOGD ''%s %s'' [LStr ''hook_DeleteGlobalRef'', LStr clsName] s)"

definition hook_ExceptionClear :: "jni \<Rightarrow> jni" where
  "hook_ExceptionClear s = (FUNC_LOG ''hook_ExceptionClear'' s)\<lparr>HasException := False\<rparr>"

definition hook_ExceptionDescribe :: "jni \<Rightarrow> jni" where
  "hook_ExceptionDescribe s = FUNC_LOG ''hook_ExceptionDescribe'' s"

definition hook_ExceptionOccurred :: "jni \<Rightarrow> u64 \<times> jni" where
  "hook_ExceptionOccurred s = (of_bool (HasException s), FUNC_LOG ''hook_ExceptionOccurred'' s)"

definition hook_ExceptionCheck :: "jni \<Rightarrow> u64 \<times> jni" where
  "hook_ExceptionCheck s = (0, FUNC_LOG ''hook_ExceptionCheck'' s)"

definition hook_FatalError :: "string \<Rightarrow> jni \<Rightarrow> jni" where
  "hook_FatalError str s = ALOGD ''%s %s'' [LStr ''hook_FatalError'', LStr str] s"

definition tryError :: "jni \<Rightarrow> jni" where
  "tryError s = FUNC_LOG ''tryError'' s"

definition hook_PopLocalFrame :: "u64 \<Rightarrow> jni \<Rightarrow> u64 \<times> jni" where
  "hook_PopLocalFrame obj s = (0, FUNC_LOG ''hook_PopLocalFrame'' s)"

definition hook_PushLocalFrame :: "int \<Rightarrow> jni \<Rightarrow> u64 \<times> jni" where
  "hook_PushLocalFrame num s = (0, FUNC_LOG ''hook_PushLocalFrame'' s)"

definition hook_GetStringUTFChars :: "u64 \<Rightarrow> jni \<Rightarrow> string \<times> jni" where
  "hook_GetStringUTFChars pjstr s =
     (let s = FUNC_LOG ''hook_GetStringUTFChars'' s; nlstr = ''null''; retVal = ''parse urself'' in
      if pjstr = 0 then (nlstr, ALOGD ''%s'' [LStr ''null''] s) else (retVal, ALOGD ''%s'' [LStr retVal] s))"

definition hook_ReleaseStringUTFChars :: "u64 \<Rightarrow> string \<Rightarrow> jni \<Rightarrow> jni" where
  "hook_ReleaseStringUTFChars pjstr cchr s = ALOGD ''%s'' [LStr cchr] (FUNC_LOG ''hook_ReleaseStringUTFChars'' s)"

definition hook_Throw :: "u64 \<Rightarrow> jni \<Rightarrow> u64 \<times> jni" where
  "hook_Throw obj s = (0, (FUNC_LOG ''hook_Throw'' s)\<lparr>HasException := True\<rparr>)"

definition hook_FromReflectedMethod :: "u64 \<Rightarrow> jni \<Rightarrow> u64 \<times> jni" where
  "hook_FromReflectedMethod obj s = (1, FUNC_LOG ''hook_FromReflectedMethod'' s)"

definition hook_FromReflectedField :: "u64 \<Rightarrow> jni \<Rightarrow> u64 \<times> jni" where
  "hook_FromReflectedField obj s = (1, FUNC_LOG ''hook_FromReflectedField'' s)"

definition hook_ToReflectedMethod :: "u64 \<Rightarrow> u64 \<Rightarrow> bool \<Rightarrow> jni \<Rightarrow> u64 \<times> jni" where
  "hook_ToReflectedMethod cls mid st s = (1, FUNC_LOG ''hook_ToReflectedMethod'' s)"

subsection \<open>Calls through function pointers\<close>

datatype hook =
    P_FindClass | P_RegisterNatives | P_FromReflectedMethod | P_FromReflectedField | P_ToReflectedMethod |
    P_GetObjectClass | P_GetMethodID | P_GetStaticMethodID | P_CallStaticObjectMethod |
    P_CallStaticObjectMethodA | P_CallStaticObjectMethodV | P_CallObjectMethod | P_CallObjectMethodV |
    P_CallObjectMethodA | P_CallStaticLongMethodV | P_NewObject | P_NewObjectV | P_NewObjectA |
    P_DeleteGlobalRef | P_NewGlobalRef | P_ExceptionClear | P_ExceptionDescribe | P_FatalError | P_tryError |
    P_PushLocalFrame | P_ExceptionCheck | P_ExceptionOccurred | P_GetStringUTFChars | P_ReleaseStringUTFChars |
    P_Throw

text \<open>An argument of a call: a reference, a C string, an integer, a flag, the methods to register, or a \<^verbatim>\<open>va_list\<close>, a
  \<^verbatim>\<open>jvalue\<close> array or variable arguments, which no function reads.\<close>

datatype jarg = Ref u64 | Str string | Num int | Flag bool | Natives "(string \<times> string \<times> u64) list" | Rest

datatype jret = Void | Word u64 | Chars string

definition word_result :: "u64 \<times> jni \<Rightarrow> jni_fault + (jret \<times> jni)" where
  "word_result r = Inr (Word (fst r), snd r)"

definition no_result :: "jni \<Rightarrow> jni_fault + (jret \<times> jni)" where
  "no_result s = Inr (Void, s)"

definition may_fault :: "jni_fault + (u64 \<times> jni) \<Rightarrow> jni_fault + (jret \<times> jni)" where
  "may_fault r = (case r of Inl e \<Rightarrow> Inl e | Inr r \<Rightarrow> word_result r)"

text \<open>Calls of the three kinds of argument lists; a call that does not fit the declared parameters does not compile.\<close>

definition call_ref :: "(u64 \<Rightarrow> jni_fault + (jret \<times> jni)) \<Rightarrow> jarg list \<Rightarrow> jni_fault + (jret \<times> jni)" where
  "call_ref f args = (case args of [Ref r] \<Rightarrow> f r | _ \<Rightarrow> Inl BadCall)"

definition call_obj :: "(u64 \<Rightarrow> u64 \<Rightarrow> jni \<Rightarrow> u64 \<times> jni) \<Rightarrow> jarg list \<Rightarrow> jni \<Rightarrow> jni_fault + (jret \<times> jni)" where
  "call_obj f args s = (case args of [Ref obj, Ref mid, Rest] \<Rightarrow> word_result (f obj mid s) | _ \<Rightarrow> Inl BadCall)"

definition call_none :: "(jni_fault + (jret \<times> jni)) \<Rightarrow> jarg list \<Rightarrow> jni_fault + (jret \<times> jni)" where
  "call_none r args = (case args of [] \<Rightarrow> r | _ \<Rightarrow> Inl BadCall)"

text \<open>\<open>new\<close> is the address of a new string object and \<open>x0\<close> what the result register holds after a function without a result
  (\<^verbatim>\<open>tryError\<close> is called through a pointer to a function with a result).\<close>

definition call_hook :: "hook \<Rightarrow> u64 \<Rightarrow> u64 \<Rightarrow> jarg list \<Rightarrow> jni \<Rightarrow> jni_fault + (jret \<times> jni)" where
  "call_hook h new x0 args s = (case h of
       P_FindClass \<Rightarrow> (case args of [Str c] \<Rightarrow> word_result (hook_FindClass new c s) | _ \<Rightarrow> Inl BadCall)
     | P_RegisterNatives \<Rightarrow>
         (case args of [Ref cls, Natives ms, Num n] \<Rightarrow> may_fault (hook_RegisterNatives cls ms n s) | _ \<Rightarrow> Inl BadCall)
     | P_FromReflectedMethod \<Rightarrow> call_ref (\<lambda>r. word_result (hook_FromReflectedMethod r s)) args
     | P_FromReflectedField \<Rightarrow> call_ref (\<lambda>r. word_result (hook_FromReflectedField r s)) args
     | P_ToReflectedMethod \<Rightarrow>
         (case args of [Ref cls, Ref mid, Flag b] \<Rightarrow> word_result (hook_ToReflectedMethod cls mid b s) | _ \<Rightarrow> Inl BadCall)
     | P_GetObjectClass \<Rightarrow> call_ref (\<lambda>r. may_fault (hook_GetObjectClass r s)) args
     | P_GetMethodID \<Rightarrow>
         (case args of [Ref cls, Str n, Str g] \<Rightarrow> word_result (hook_GetMethodID new cls n g s) | _ \<Rightarrow> Inl BadCall)
     | P_GetStaticMethodID \<Rightarrow>
         (case args of [Ref cls, Str n, Str g] \<Rightarrow> word_result (hook_GetStaticMethodID new cls n g s) | _ \<Rightarrow> Inl BadCall)
     | P_CallStaticObjectMethod \<Rightarrow> call_obj hook_CallStaticObjectMethod args s
     | P_CallStaticObjectMethodA \<Rightarrow> call_obj hook_CallStaticObjectMethodA args s
     | P_CallStaticObjectMethodV \<Rightarrow> call_obj hook_CallStaticObjectMethodV args s
     | P_CallObjectMethod \<Rightarrow> call_obj hook_CallObjectMethod args s
     | P_CallObjectMethodV \<Rightarrow> call_obj hook_CallObjectMethodV args s
     | P_CallObjectMethodA \<Rightarrow> call_obj hook_CallObjectMethodA args s
     | P_CallStaticLongMethodV \<Rightarrow> call_obj hook_CallStaticLongMethodV args s
     | P_NewObject \<Rightarrow> call_obj hook_NewObject args s
     | P_NewObjectV \<Rightarrow> call_obj hook_NewObjectV args s
     | P_NewObjectA \<Rightarrow> call_obj hook_NewObjectA args s
     | P_DeleteGlobalRef \<Rightarrow> call_ref (\<lambda>r. no_result (hook_DeleteGlobalRef r s)) args
     | P_NewGlobalRef \<Rightarrow> call_ref (\<lambda>r. word_result (hook_NewGlobalRef r s)) args
     | P_ExceptionClear \<Rightarrow> call_none (no_result (hook_ExceptionClear s)) args
     | P_ExceptionDescribe \<Rightarrow> call_none (no_result (hook_ExceptionDescribe s)) args
     | P_FatalError \<Rightarrow> (case args of [Str m] \<Rightarrow> no_result (hook_FatalError m s) | _ \<Rightarrow> Inl BadCall)
     | P_tryError \<Rightarrow> call_ref (\<lambda>r. word_result (x0, tryError s)) args
     | P_PushLocalFrame \<Rightarrow> (case args of [Num n] \<Rightarrow> word_result (hook_PushLocalFrame n s) | _ \<Rightarrow> Inl BadCall)
     | P_ExceptionCheck \<Rightarrow> call_none (word_result (hook_ExceptionCheck s)) args
     | P_ExceptionOccurred \<Rightarrow> call_none (word_result (hook_ExceptionOccurred s)) args
     | P_GetStringUTFChars \<Rightarrow>
         (case args of [Ref r, Rest] \<Rightarrow> Inr (map_prod Chars id (hook_GetStringUTFChars r s)) | _ \<Rightarrow> Inl BadCall)
     | P_ReleaseStringUTFChars \<Rightarrow>
         (case args of [Ref r, Str c] \<Rightarrow> no_result (hook_ReleaseStringUTFChars r c s) | _ \<Rightarrow> Inl BadCall)
     | P_Throw \<Rightarrow> call_ref (\<lambda>r. word_result (hook_Throw r s)) args)"

subsection \<open>The table that initial builds\<close>

datatype fptr = Addr u64 | Func hook

text \<open>The assignments in their order, each with the index of its slot; \<open>assignments_named\<close> checks the names.\<close>

definition env_assignments :: "(nat \<times> string \<times> hook) list" where
  "env_assignments =
    [(6, ''FindClass'', P_FindClass), (215, ''RegisterNatives'', P_RegisterNatives),
     (7, ''FromReflectedMethod'', P_FromReflectedMethod), (8, ''FromReflectedField'', P_FromReflectedField),
     (9, ''ToReflectedMethod'', P_ToReflectedMethod), (31, ''GetObjectClass'', P_GetObjectClass),
     (33, ''GetMethodID'', P_GetMethodID), (113, ''GetStaticMethodID'', P_GetStaticMethodID),
     (114, ''CallStaticObjectMethod'', P_CallStaticObjectMethod),
     (116, ''CallStaticObjectMethodA'', P_CallStaticObjectMethodA),
     (115, ''CallStaticObjectMethodV'', P_CallStaticObjectMethodV),
     (34, ''CallObjectMethod'', P_CallObjectMethod), (35, ''CallObjectMethodV'', P_CallObjectMethodV),
     (36, ''CallObjectMethodA'', P_CallObjectMethodA), (49, ''CallIntMethod'', P_CallObjectMethod),
     (50, ''CallIntMethodV'', P_CallObjectMethodV), (51, ''CallIntMethodA'', P_CallObjectMethodA),
     (46, ''CallShortMethod'', P_CallObjectMethod), (47, ''CallShortMethodV'', P_CallObjectMethodV),
     (48, ''CallShortMethodA'', P_CallObjectMethodA), (133, ''CallStaticLongMethodV'', P_CallStaticLongMethodV),
     (28, ''NewObject'', P_NewObject), (29, ''NewObjectV'', P_NewObjectV), (30, ''NewObjectA'', P_NewObjectA),
     (23, ''DeleteLocalRef'', P_DeleteGlobalRef), (22, ''DeleteGlobalRef'', P_DeleteGlobalRef),
     (21, ''NewGlobalRef'', P_NewGlobalRef), (17, ''ExceptionClear'', P_ExceptionClear),
     (16, ''ExceptionDescribe'', P_ExceptionDescribe), (18, ''FatalError'', P_FatalError),
     (20, ''PopLocalFrame'', P_tryError), (19, ''PushLocalFrame'', P_PushLocalFrame),
     (228, ''ExceptionCheck'', P_ExceptionCheck), (15, ''ExceptionOccurred'', P_ExceptionOccurred),
     (169, ''GetStringUTFChars'', P_GetStringUTFChars), (170, ''ReleaseStringUTFChars'', P_ReleaseStringUTFChars),
     (13, ''Throw'', P_Throw)]"

text \<open>Every slot first gets its index plus five.\<close>

definition initial_stubs :: "fptr list" where
  "initial_stubs = map (\<lambda>i. Addr (of_nat i + 5)) [0..<length hook_JNINativeInterface]"

definition fake_functions :: "fptr list" where
  "fake_functions = foldl (\<lambda>t (i, n, h). t[i := Func h]) initial_stubs env_assignments"

text \<open>The caller reads as many bits of the result register as its type has.\<close>

definition narrow :: "string \<Rightarrow> jret \<Rightarrow> jret" where
  "narrow t r = (case r of
      Word w \<Rightarrow>
        if t = ''jint'' \<or> t = ''jsize'' then Word (take_bit 32 w)
        else if t = ''jshort'' \<or> t = ''jchar'' then Word (take_bit 16 w)
        else if t = ''jboolean'' \<or> t = ''jbyte'' then Word (take_bit 8 w)
        else Word w
    | _ \<Rightarrow> r)"

text \<open>
  Where a call through a pointer to unmapped memory stops. The application is built for 32-bit ARM, where the lowest bit of the
  target is the instruction set to switch to and not part of the address.
\<close>

definition fault_address :: "u64 \<Rightarrow> u64" where
  "fault_address a = a AND NOT 1"

definition slot_call :: "nat \<Rightarrow> u64 \<Rightarrow> u64 \<Rightarrow> jarg list \<Rightarrow> jni \<Rightarrow> jni_fault + (jret \<times> jni)" where
  "slot_call i new x0 args s = (case fake_functions ! i of
      Addr a \<Rightarrow> Inl (Fault (fault_address a))
    | Func h \<Rightarrow> (case call_hook h new x0 args s of
        Inl e \<Rightarrow> Inl e | Inr (r, s) \<Rightarrow> Inr (narrow (slot_ret (hook_JNINativeInterface ! i)) r, s)))"

subsection \<open>The fake virtual machine\<close>

text \<open>Each function returns its result and what it stores through its pointer to an environment, if anything.\<close>

definition hook_GetEnv :: "u64 \<Rightarrow> jni \<Rightarrow> (u64 \<times> u64 option) \<times> jni" where
  "hook_GetEnv fake_env s = ((0, Some fake_env), FUNC_LOG ''hook_GetEnv'' s)"

definition hook_DestoryJavaVM :: "jni \<Rightarrow> (u64 \<times> u64 option) \<times> jni" where
  "hook_DestoryJavaVM s = ((0, None), FUNC_LOG ''hook_DestoryJavaVM'' s)"

definition hook_AttachCurrentThread :: "jni \<Rightarrow> (u64 \<times> u64 option) \<times> jni" where
  "hook_AttachCurrentThread s = ((0, None), FUNC_LOG ''hook_AttachCurrentThread'' s)"

definition hook_DetachCurrentThread :: "jni \<Rightarrow> (u64 \<times> u64 option) \<times> jni" where
  "hook_DetachCurrentThread s = ((0, None), FUNC_LOG ''hook_DetachCurrentThread'' s)"

definition hook_AttachCurrentThreadAsDaemon :: "jni \<Rightarrow> (u64 \<times> u64 option) \<times> jni" where
  "hook_AttachCurrentThreadAsDaemon s = ((0, None), FUNC_LOG ''hook_AttachCurrentThreadAsDaemon'' s)"

definition fake_jvm :: "u64 \<Rightarrow> (string \<times> (jni \<Rightarrow> (u64 \<times> u64 option) \<times> jni)) list" where
  "fake_jvm fake_env =
    [(''GetEnv'', hook_GetEnv fake_env), (''DestroyJavaVM'', hook_DestoryJavaVM),
     (''DetachCurrentThread'', hook_DetachCurrentThread), (''AttachCurrentThread'', hook_AttachCurrentThread),
     (''AttachCurrentThreadAsDaemon'', hook_AttachCurrentThreadAsDaemon)]"

subsection \<open>loadELF\<close>

text \<open>The dynamic linker and the \<^verbatim>\<open>JNI_OnLoad\<close> of the library are parameters; the call gets \<^verbatim>\<open>&fake_jvm\<close>.\<close>

record linker =
  dlopen :: "string \<Rightarrow> u64"
  dlerror :: string
  dlsym :: "u64 \<Rightarrow> string \<Rightarrow> u64"
  call_OnLoad :: "u64 \<Rightarrow> jni \<Rightarrow> jni_fault + (int \<times> jni)"

definition loadELF :: "linker \<Rightarrow> string \<Rightarrow> jni \<Rightarrow> jni_fault + jni" where
  "loadELF ld path s =
     (let handle = dlopen ld path;
          s = (if handle = 0 then ALOGD ''dlopen error %s'' [LStr (dlerror ld)] s else ALOGD ''dlopen successful'' [] s);
          func = dlsym ld handle ''JNI_OnLoad'';
          s = (if func = 0 then ALOGD ''JNI_Onload not found'' [] s else s) in
      case (if func = 0 then Inl (Fault 0) else call_OnLoad ld func s) of
        Inl e \<Rightarrow> Inl e
      | Inr (ret, s) \<Rightarrow> Inr (ALOGD ''JNI_OnLoad %d '' [LInt ret] s))"

definition JNI_OnLoad :: int where
  "JNI_OnLoad = 0x00010006"

subsection \<open>Maps by address\<close>

definition ordered :: "string_map \<Rightarrow> bool" where
  "ordered m \<longleftrightarrow> sorted_wrt (<) (map fst m)"

lemma ordered_simps [simp]: "ordered []" "ordered ((a, v) # m) \<longleftrightarrow> (\<forall>b \<in> fst ` set m. a < b) \<and> ordered m"
  by (auto simp: ordered_def)

lemma map_index_dom: "fst ` set (map_index k m) = insert k (fst ` set m)"
  by (induction k m rule: map_index.induct) auto

lemma map_index_ordered: "ordered m \<Longrightarrow> ordered (map_index k m)"
proof (induction k m rule: map_index.induct)
  case (2 k a v m)
  consider "k = a" | "k < a" | "a < k" by (meson linorder_cases)
  then show ?case
  proof cases
    case 2
    then show ?thesis using \<open>ordered ((a, v) # m)\<close> by (auto intro: order.strict_trans)
  qed (use 2 in \<open>auto simp: map_index_dom\<close>)
qed simp

lemma map_of_index: "ordered m \<Longrightarrow> map_of (map_index k m) x = (if x = k \<and> map_of m k = None then Some [] else map_of m x)"
proof (induction k m rule: map_index.induct)
  case (2 k a v m)
  have "map_of m k = None" if "k < a" using 2(2) that by (force simp: map_of_eq_None_iff)
  then show ?case using 2 by auto
qed simp

lemma map_read_eq: "ordered m \<Longrightarrow> map_read k m = (case map_of m k of None \<Rightarrow> [] | Some v \<Rightarrow> v)"
  by (simp add: map_read_def map_of_index split: option.split)

lemma map_put_ordered: "ordered m \<Longrightarrow> ordered (map_put k v m)"
  using map_index_ordered [of m k] by (simp add: ordered_def map_put_def comp_def case_prod_beta)

lemma map_of_map_if: "map_of (map (\<lambda>(a, w). (a, if a = k then v else w)) m) x = (if x = k then map_option (\<lambda>_. v) (map_of m x) else map_of m x)"
  by (induction m) auto

lemma map_of_put: "ordered m \<Longrightarrow> map_of (map_put k v m) x = (if x = k then Some v else map_of m x)"
  by (auto simp: map_put_def map_of_map_if map_of_index)

lemma find_value_Some: "ordered m \<Longrightarrow> find_value v m = Some k \<Longrightarrow> map_of m k = Some v"
proof (induction m)
  case (Cons p m)
  obtain a w where p: "p = (a, w)" by force
  show ?case
  proof (cases "w = v")
    case False
    then have k: "map_of m k = Some v" using Cons by (simp add: p find_value_def)
    then have "k \<in> fst ` set m" by (force dest: map_of_SomeD)
    then have "k \<noteq> a" using Cons.prems(1) by (auto simp: p)
    then show ?thesis using k by (simp add: p)
  qed (use Cons in \<open>simp add: p find_value_def\<close>)
qed (simp add: find_value_def)

lemma find_value_None: "find_value v m = None \<Longrightarrow> map_of m k \<noteq> Some v"
  by (auto simp: find_value_def find_None_iff dest: map_of_SomeD)

subsection \<open>Tables of handles\<close>

text \<open>A table is sorted, its non-empty strings belong to allocated objects and are pairwise different.\<close>

definition handles_ok :: "u64 list \<Rightarrow> string_map \<Rightarrow> bool" where
  "handles_ok al m \<longleftrightarrow> ordered m \<and> 0 \<notin> set al \<and> (\<forall>k v. map_of m k = Some v \<and> v \<noteq> [] \<longrightarrow> k \<in> set al) \<and>
     (\<forall>k l v. map_of m k = Some v \<and> map_of m l = Some v \<and> v \<noteq> [] \<longrightarrow> k = l)"

definition persists :: "string_map \<Rightarrow> string_map \<Rightarrow> bool" where
  "persists m m' \<longleftrightarrow> (\<forall>k v. map_of m k = Some v \<and> v \<noteq> [] \<longrightarrow> map_of m' k = Some v)"

text \<open>What an operation may do to a table and the allocated objects.\<close>

definition evolves :: "u64 list \<Rightarrow> string_map \<Rightarrow> u64 list \<Rightarrow> string_map \<Rightarrow> bool" where
  "evolves al m al' m' \<longleftrightarrow> (handles_ok al m \<longrightarrow> handles_ok al' m' \<and> persists m m')"

lemma evolves_refl: "evolves al m al m"
  by (simp add: evolves_def persists_def)

lemma evolves_new: "new \<noteq> 0 \<Longrightarrow> evolves al m (new # al) m"
  by (auto simp: evolves_def persists_def handles_ok_def)

lemma evolves_trans: "evolves al m al' m' \<Longrightarrow> evolves al' m' al'' m'' \<Longrightarrow> evolves al m al'' m''"
  by (auto simp: evolves_def persists_def)

lemma evolves_index: "evolves al m al (map_index k m)"
  unfolding evolves_def handles_ok_def persists_def by (auto simp: map_index_ordered map_of_index split: if_splits)

lemma evolves_put: "find_value v m = None \<Longrightarrow> new \<notin> set al \<Longrightarrow> new \<noteq> 0 \<Longrightarrow> evolves al m (new # al) (map_put new v m)"
  unfolding evolves_def handles_ok_def persists_def
  by (auto simp: map_put_ordered map_of_put dest: find_value_None split: if_splits)

text \<open>A table of handles that all steps of a system evolve: what is found once is found again, and nothing else is.\<close>

locale handle_table =
  fixes stepr :: "'s \<Rightarrow> 's \<Rightarrow> bool" and table :: "'s \<Rightarrow> string_map" and alloc :: "'s \<Rightarrow> u64 list"
  assumes step_evolves: "stepr s s' \<Longrightarrow> evolves (alloc s) (table s) (alloc s') (table s')"
begin

lemma steps_evolve: "stepr\<^sup>*\<^sup>* s s' \<Longrightarrow> evolves (alloc s) (table s) (alloc s') (table s')"
  by (induction rule: rtranclp_induct) (auto intro: evolves_refl evolves_trans step_evolves)

lemma handle_kept:
  "stepr\<^sup>*\<^sup>* s s' \<Longrightarrow> handles_ok (alloc s) (table s) \<Longrightarrow> map_of (table s) h = Some v \<Longrightarrow> v \<noteq> [] \<Longrightarrow>
     handles_ok (alloc s') (table s') \<and> map_of (table s') h = Some v"
  using steps_evolve unfolding evolves_def persists_def by blast

lemma found_again:
  assumes "stepr\<^sup>*\<^sup>* s s'" "handles_ok (alloc s) (table s)" "map_of (table s) h = Some v" "v \<noteq> []" "w \<noteq> []" "new \<notin> set (alloc s')"
  shows "(case find_value w (table s') of Some k \<Rightarrow> k | None \<Rightarrow> new) = h \<longleftrightarrow> w = v"
proof -
  have ok: "handles_ok (alloc s') (table s')" "map_of (table s') h = Some v" using handle_kept assms by blast+
  then have o: "ordered (table s')" "h \<in> set (alloc s')" using assms(4) unfolding handles_ok_def by blast+
  show ?thesis
  proof (cases "find_value w (table s')")
    case None
    then show ?thesis using find_value_None [OF None, of h] ok o assms(6) by auto
  next
    case (Some k)
    then have "map_of (table s') k = Some w" using find_value_Some o by blast
    then show ?thesis using Some ok assms(5) unfolding handles_ok_def by auto
  qed
qed

end


subsection \<open>Every call evolves both tables\<close>

text \<open>\<open>new\<close> returns an address that is not in use and not null.\<close>

inductive jni_step :: "jni \<Rightarrow> jni \<Rightarrow> bool" where
  env_call: "i < length hook_JNINativeInterface \<Longrightarrow> new \<notin> set (strings s) \<Longrightarrow> new \<noteq> 0 \<Longrightarrow>
    slot_call i new x0 args s = Inr (r, s') \<Longrightarrow> jni_step s s'"
| jvm_call: "(n, f) \<in> set (fake_jvm e) \<Longrightarrow> f s = (r, s') \<Longrightarrow> jni_step s s'"

definition fine :: "jni \<Rightarrow> jni \<Rightarrow> bool" where
  "fine s s' \<longleftrightarrow> evolves (strings s) (gClassNameMap s) (strings s') (gClassNameMap s') \<and>
     evolves (strings s) (gMethodIDMap s) (strings s') (gMethodIDMap s')"

lemma fine_trans: "fine s s' \<Longrightarrow> fine s' s'' \<Longrightarrow> fine s s''"
  unfolding fine_def by (blast intro: evolves_trans)

lemma ALOGD_fields [simp]: "gClassNameMap (ALOGD f a s) = gClassNameMap s" "gMethodIDMap (ALOGD f a s) = gMethodIDMap s"
  "strings (ALOGD f a s) = strings s" "HasException (ALOGD f a s) = HasException s"
  by (simp_all add: ALOGD_def)

lemma fine_refl [simp]: "fine s s" "fine s (ALOGD f a s)" "fine s (FUNC_LOG g s)" "fine s (s\<lparr>HasException := b\<rparr>)"
  "fine s ((FUNC_LOG g s)\<lparr>HasException := b\<rparr>)"
  by (simp_all add: fine_def FUNC_LOG_def evolves_refl)

lemma fine_ALOGD: "fine s s' \<Longrightarrow> fine s (ALOGD f a s')"
  by (simp add: fine_def)

lemma fine_class_name: "class_name p s = (c, s') \<Longrightarrow> fine s s'"
  by (auto simp: class_name_def fine_def evolves_index evolves_refl)

lemma fine_name_sig: "name_sig p s = (c, s') \<Longrightarrow> fine s s'"
  by (auto simp: name_sig_def fine_def evolves_index evolves_refl)

lemma fine_FindClass: "new \<notin> set (strings s) \<Longrightarrow> new \<noteq> 0 \<Longrightarrow> fine s (snd (hook_FindClass new c s))"
  by (auto simp: hook_FindClass_def fine_def evolves_put evolves_new evolves_refl split: option.split)

text \<open>A new entry of the method table after the lookup of the class.\<close>

lemma fine_new_method:
  assumes "class_name cls s = (c, s1)" "find_value v (gMethodIDMap s1) = None" "new \<notin> set (strings s)" "new \<noteq> 0"
  shows "fine s (s1\<lparr>strings := new # strings s1, gMethodIDMap := map_put new v (gMethodIDMap s1)\<rparr>)"
proof -
  have "strings s1 = strings s" using assms(1) by (auto simp: class_name_def)
  then have "fine s1 (s1\<lparr>strings := new # strings s1, gMethodIDMap := map_put new v (gMethodIDMap s1)\<rparr>)"
    using assms by (simp add: fine_def evolves_put evolves_new)
  then show ?thesis using fine_class_name [OF assms(1)] fine_trans by blast
qed

lemma fine_GetMethodID: "new \<notin> set (strings s) \<Longrightarrow> new \<noteq> 0 \<Longrightarrow> fine s (snd (hook_GetMethodID new cls n g s))"
  by (auto simp: hook_GetMethodID_def Let_def fine_class_name split: prod.split option.split intro!: fine_ALOGD fine_new_method)

lemma fine_GetStaticMethodID: "new \<notin> set (strings s) \<Longrightarrow> new \<noteq> 0 \<Longrightarrow> fine s (snd (hook_GetStaticMethodID new cls n g s))"
  by (auto simp: hook_GetStaticMethodID_def Let_def fine_class_name split: prod.split option.split intro!: fine_ALOGD fine_new_method)

lemma fine_log_call: "fine s (snd (log_call f cls mid s))"
  by (auto simp: log_call_def split: prod.split dest: fine_class_name fine_name_sig intro: fine_ALOGD fine_trans)

lemma fine_natives: "log_natives c ms n s = Inr s' \<Longrightarrow> fine s s'"
  by (induction c ms n s rule: log_natives.induct) (auto intro: fine_trans [OF fine_refl(2)])

lemma fine_RegisterNatives: "hook_RegisterNatives cls ms n s = Inr (r, s') \<Longrightarrow> fine s s'"
  by (auto simp: hook_RegisterNatives_def split: prod.splits sum.splits dest: fine_class_name fine_natives intro: fine_trans)

lemma fine_GetObjectClass: "hook_GetObjectClass obj s = Inr (r, s') \<Longrightarrow> fine s s'"
  by (auto simp: hook_GetObjectClass_def Let_def split: prod.splits if_splits dest!: fine_class_name intro: fine_trans fine_ALOGD)

lemma fine_refs: "fine s (snd (hook_NewGlobalRef obj s))" "fine s (hook_DeleteGlobalRef obj s)" "fine s (snd (hook_CallObjectMethodA obj mid s))"
  "fine s (snd (hook_GetStringUTFChars str s))" "fine s (hook_ReleaseStringUTFChars str utf s)"
  by (auto simp: hook_NewGlobalRef_def hook_DeleteGlobalRef_def hook_CallObjectMethodA_def hook_GetStringUTFChars_def
      hook_ReleaseStringUTFChars_def Let_def split: prod.split dest: fine_class_name fine_name_sig
      intro: fine_ALOGD fine_trans [OF fine_refl(3)])

lemmas log_call_defs = hook_CallStaticObjectMethod_def hook_CallStaticObjectMethodA_def hook_CallStaticObjectMethodV_def
  hook_CallObjectMethod_def hook_CallStaticLongMethodV_def hook_CallObjectMethodV_def hook_NewObject_def hook_NewObjectV_def
  hook_NewObjectA_def

lemmas log_only_defs = hook_ExceptionClear_def hook_ExceptionDescribe_def hook_ExceptionOccurred_def hook_ExceptionCheck_def
  hook_FatalError_def tryError_def hook_PushLocalFrame_def hook_Throw_def hook_FromReflectedMethod_def
  hook_FromReflectedField_def hook_ToReflectedMethod_def

lemma resultD: "word_result x = Inr (r, s') \<Longrightarrow> s' = snd x" "no_result s = Inr (r, s') \<Longrightarrow> s' = s"
  "may_fault y = Inr (r, s') \<Longrightarrow> \<exists>w. y = Inr (w, s')"
  by (auto simp: word_result_def no_result_def may_fault_def split: sum.splits)

lemma map_prod_idD: "map_prod f id x = (r, s') \<Longrightarrow> s' = snd x"
  by (cases x) auto

lemma argsD: "call_ref f args = Inr x \<Longrightarrow> \<exists>r. f r = Inr x"
  "call_none y args = Inr x \<Longrightarrow> y = Inr x"
  "call_obj g args s = Inr x \<Longrightarrow> \<exists>a b. word_result (g a b s) = Inr x"
  by (auto simp: call_ref_def call_none_def call_obj_def split: list.splits jarg.splits)

lemma call_hook_fine:
  assumes "call_hook h new x0 args s = Inr (r, s')" "new \<notin> set (strings s)" "new \<noteq> 0"
  shows "fine s s'"
  using assms
  by (cases h) (auto simp: call_hook_def log_call_defs log_only_defs fine_log_call fine_refs fine_FindClass fine_GetMethodID
      fine_GetStaticMethodID split: list.splits jarg.splits dest!: argsD resultD map_prod_idD dest: fine_RegisterNatives fine_GetObjectClass)

lemma jni_step_fine: "jni_step s s' \<Longrightarrow> fine s s'"
proof (induction rule: jni_step.induct)
  case (env_call i new s x0 args r s')
  then show ?case by (auto simp: slot_call_def split: fptr.splits sum.splits dest: call_hook_fine)
next
  case (jvm_call n f e s r s')
  then show ?case
    by (auto simp: fake_jvm_def hook_GetEnv_def hook_DestoryJavaVM_def hook_AttachCurrentThread_def hook_DetachCurrentThread_def
        hook_AttachCurrentThreadAsDaemon_def)
qed

interpretation classes: handle_table jni_step gClassNameMap strings
  by unfold_locales (use jni_step_fine in \<open>simp add: fine_def\<close>)

interpretation methods: handle_table jni_step gMethodIDMap strings
  by unfold_locales (use jni_step_fine in \<open>simp add: fine_def\<close>)


lemma reachable_ok:
  assumes "jni_step\<^sup>*\<^sup>* jni_start s"
  shows "handles_ok (strings s) (gClassNameMap s)" "handles_ok (strings s) (gMethodIDMap s)"
proof -
  have "handles_ok (strings jni_start) (gClassNameMap jni_start)" "handles_ok (strings jni_start) (gMethodIDMap jni_start)"
    by (simp_all add: jni_start_def handles_ok_def)
  then show "handles_ok (strings s) (gClassNameMap s)" "handles_ok (strings s) (gMethodIDMap s)"
    using classes.steps_evolve [OF assms] methods.steps_evolve [OF assms] by (simp_all add: evolves_def)
qed

lemma FindClass_result:
  assumes "handles_ok (strings s) (gClassNameMap s)" "new \<notin> set (strings s)" "new \<noteq> 0" "hook_FindClass new name s = (h, s1)"
  shows "handles_ok (strings s1) (gClassNameMap s1)" "map_of (gClassNameMap s1) h = Some name"
proof -
  show "handles_ok (strings s1) (gClassNameMap s1)"
    using fine_FindClass [of new s name] assms by (simp add: fine_def evolves_def)
  have "ordered (gClassNameMap s)" using assms(1) by (simp add: handles_ok_def)
  then show "map_of (gClassNameMap s1) h = Some name"
    using assms(4) by (auto simp: hook_FindClass_def map_of_put find_value_Some split: option.splits)
qed

lemma FindClass_handle: "fst (hook_FindClass new name s) = (case find_value name (gClassNameMap s) of Some k \<Rightarrow> k | None \<Rightarrow> new)"
  by (simp add: hook_FindClass_def split: option.split)

lemma GetObjectClass_known:
  assumes "ordered (gClassNameMap s)" "map_of (gClassNameMap s) h = Some v" "v \<noteq> []"
  shows "\<exists>s'. hook_GetObjectClass h s = Inr (h, s')"
proof -
  have "ordered (map_index h (gClassNameMap s))" by (rule map_index_ordered [OF assms(1)])
  then show ?thesis using assms by (simp add: hook_GetObjectClass_def class_name_def Let_def map_read_eq)
qed

text \<open>
  C22: Class handles are interned. In any state that calls of the environment and the virtual machine lead to,
  the function \<^verbatim>\<open>FindClass\<close> returns for a non-empty name a handle that is not null and is registered under that name; after any
  further calls it is still registered, \<^verbatim>\<open>GetObjectClass\<close> maps it to itself, and \<^verbatim>\<open>FindClass\<close> returns this handle for
  exactly this name.
\<close>
theorem fake_class_handles:
  assumes "jni_step\<^sup>*\<^sup>* jni_start s" "new \<notin> set (strings s)" "new \<noteq> 0" "name \<noteq> []" "hook_FindClass new name s = (h, s1)"
    and "jni_step\<^sup>*\<^sup>* s1 s2" "new2 \<notin> set (strings s2)" "name2 \<noteq> []"
  shows "h \<noteq> 0 \<and> map_of (gClassNameMap s2) h = Some name \<and> (\<exists>s3. hook_GetObjectClass h s2 = Inr (h, s3)) \<and>
    (fst (hook_FindClass new2 name2 s2) = h \<longleftrightarrow> name2 = name)"
proof -
  note found = FindClass_result [OF reachable_ok(1) [OF assms(1)] assms(2,3,5)]
  note kept = classes.handle_kept [OF assms(6) found assms(4)]
  have "ordered (gClassNameMap s2)" "h \<in> set (strings s2)" "0 \<notin> set (strings s2)"
    using kept assms(4) unfolding handles_ok_def by blast+
  then show ?thesis
    using kept GetObjectClass_known assms(4) classes.found_again [OF assms(6) found assms(4,8,7)] FindClass_handle by metis
qed

text \<open>The string under which a method is registered, and the two functions that register it.\<close>

definition method_key :: "bool \<Rightarrow> string \<Rightarrow> string \<Rightarrow> string" where
  "method_key static name sig = (if static then ''static '' @ name @ sig else name @ sig)"

definition get_method_id :: "bool \<Rightarrow> u64 \<Rightarrow> u64 \<Rightarrow> string \<Rightarrow> string \<Rightarrow> jni \<Rightarrow> u64 \<times> jni" where
  "get_method_id static = (if static then hook_GetStaticMethodID else hook_GetMethodID)"

lemma get_method_id_eq:
  "get_method_id static new cls n g s =
     (let s0 = s\<lparr>gClassNameMap := map_index cls (gClassNameMap s)\<rparr> in
      case find_value (method_key static n g) (gMethodIDMap s) of
        Some p \<Rightarrow> (p, s0)
      | None \<Rightarrow> (new, ALOGD ''%s %s.%s'' [LStr (if static then ''hook_GetStaticMethodID'' else ''hook_GetMethodID''),
            LStr (map_read cls (gClassNameMap s)), LStr (method_key static n g)]
          (s0\<lparr>strings := new # strings s, gMethodIDMap := map_put new (method_key static n g) (gMethodIDMap s)\<rparr>)))"
  by (simp add: get_method_id_def hook_GetMethodID_def hook_GetStaticMethodID_def class_name_def method_key_def Let_def
      split: option.split)

lemma get_method_id_result:
  assumes "handles_ok (strings s) (gMethodIDMap s)" "new \<notin> set (strings s)" "new \<noteq> 0" "get_method_id static new cls n g s = (h, s1)"
  shows "handles_ok (strings s1) (gMethodIDMap s1)" "map_of (gMethodIDMap s1) h = Some (method_key static n g)"
proof -
  show "handles_ok (strings s1) (gMethodIDMap s1)"
    using fine_GetMethodID [of new s cls n g] fine_GetStaticMethodID [of new s cls n g] assms
    by (simp add: fine_def evolves_def get_method_id_def split: if_splits)
  have "ordered (gMethodIDMap s)" using assms(1) by (simp add: handles_ok_def)
  then show "map_of (gMethodIDMap s1) h = Some (method_key static n g)"
    using assms(4) by (auto simp: get_method_id_eq Let_def map_of_put find_value_Some split: option.splits)
qed

text \<open>
  C23: Method identifiers are interned by name and signature only. In any reachable state \<^verbatim>\<open>GetMethodID\<close> and
  \<^verbatim>\<open>GetStaticMethodID\<close> return a handle that is not null and is registered under the name followed by the signature, after
  \<^verbatim>\<open>static\<close> and a blank for a static method; after any further calls, with whatever class, a method has this handle exactly
  when its name and signature together give the same string. The class plays no part.
\<close>
theorem fake_method_handles:
  assumes "jni_step\<^sup>*\<^sup>* jni_start s" "new \<notin> set (strings s)" "new \<noteq> 0" "method_key static n g \<noteq> []"
    and "get_method_id static new cls n g s = (h, s1)" "jni_step\<^sup>*\<^sup>* s1 s2" "new2 \<notin> set (strings s2)" "method_key static2 n2 g2 \<noteq> []"
  shows "h \<noteq> 0 \<and> map_of (gMethodIDMap s2) h = Some (method_key static n g) \<and>
    (fst (get_method_id static2 new2 cls2 n2 g2 s2) = h \<longleftrightarrow> method_key static2 n2 g2 = method_key static n g)"
proof -
  note found = get_method_id_result [OF reachable_ok(2) [OF assms(1)] assms(2,3,5)]
  note kept = methods.handle_kept [OF assms(6) found assms(4)]
  have "h \<in> set (strings s2)" "0 \<notin> set (strings s2)"
    using kept assms(4) unfolding handles_ok_def by blast+
  moreover have "fst (get_method_id static2 new2 cls2 n2 g2 s2) =
      (case find_value (method_key static2 n2 g2) (gMethodIDMap s2) of Some k \<Rightarrow> k | None \<Rightarrow> new2)"
    by (simp add: get_method_id_eq Let_def split: option.split)
  ultimately show ?thesis
    using kept methods.found_again [OF assms(6) found assms(4,8,7)] by metis
qed

subsection \<open>The table of initial\<close>
















theorem fake_class_handles_witness:
  "let s1 = snd (hook_FindClass 16 ''A'' jni_start) in
   fst (hook_FindClass 32 ''A'' s1) = 16 \<and> fst (hook_FindClass 32 ''B'' s1) \<noteq> 16 \<and> (\<exists>s3. hook_GetObjectClass 16 s1 = Inr (16, s3))"
proof -
  obtain s1 where s1: "hook_FindClass 16 ''A'' jni_start = (16, s1)" "strings s1 = [16]"
    by (simp add: hook_FindClass_def jni_start_def find_value_def)
  have "16 \<notin> set (strings jni_start)" by (simp add: jni_start_def)
  note handles = fake_class_handles [OF rtranclp.rtrancl_refl this _ _ s1(1) rtranclp.rtrancl_refl, of 32]
  show ?thesis using handles [of "''A''"] handles [of "''B''"] s1 by simp
qed

theorem fake_method_handles_witness:
  "let s1 = snd (hook_GetMethodID 16 0 ''run'' ''()V'' jni_start) in
   fst (hook_GetMethodID 32 64 ''run'' ''()V'' s1) = 16 \<and> fst (hook_GetStaticMethodID 32 64 ''run'' ''()V'' s1) \<noteq> 16"
proof -
  obtain s1 where s1: "get_method_id False 16 0 ''run'' ''()V'' jni_start = (16, s1)" "strings s1 = [16]"
    by (simp add: get_method_id_eq jni_start_def find_value_def method_key_def Let_def)
  have "16 \<notin> set (strings jni_start)" by (simp add: jni_start_def)
  note handles = fake_method_handles [OF rtranclp.rtrancl_refl this _ _ s1(1) rtranclp.rtrancl_refl, of 32]
  show ?thesis using handles [of False "''run''" "''()V''" 64] handles [of True "''run''" "''()V''" 64] s1
    by (simp add: method_key_def get_method_id_def)
qed

subsection \<open>Exceptions and loadELF\<close>

text \<open>\<^verbatim>\<open>ExceptionCheck\<close> denies an exception that \<^verbatim>\<open>ExceptionOccurred\<close> reports.\<close>

lemma exception_after_throw:
  "fst (hook_ExceptionCheck (snd (hook_Throw obj s))) = 0" "fst (hook_ExceptionOccurred (snd (hook_Throw obj s))) = 1"
  by (simp_all add: hook_ExceptionCheck_def hook_ExceptionOccurred_def hook_Throw_def)

text \<open>A library without \<^verbatim>\<open>JNI_OnLoad\<close> is reported in the log, and then the null pointer is called.\<close>

lemma loadELF_without_OnLoad: "dlsym ld (dlopen ld path) ''JNI_OnLoad'' = 0 \<Longrightarrow> loadELF ld path s = Inl (Fault 0)"
  by (simp add: loadELF_def Let_def)

end
