(* ===== verification/Spec2Isabelle.thy ===== *)
theory Spec2Isabelle
  imports Interceptor Arm32_Hook X86_Reloc_Sim Thread_Pool Jni_Hook
begin

text \<open>
  A model of the native code of the application in \<^verbatim>\<open>src/app/src/main/cpp\<close>: the inline-hooking library
  \<^verbatim>\<open>Dobby\<close> that it builds in its own tree, the fake JNI environment in which it runs the \<^verbatim>\<open>JNI_OnLoad\<close> of other
  libraries, and its thread pool, with the theorems that make them correct.

  \<^bold>\<open>What the program does.\<close> \<^verbatim>\<open>DobbyHook(address, replacement, &origin)\<close> overwrites the first instructions
  of the function at \<^verbatim>\<open>address\<close> with a \<^emph>\<open>trampoline\<close>, a short code sequence that jumps to the replacement.
  The instructions that are lost are first rewritten by the \<^emph>\<open>relocator\<close> so that they work at another address, and
  placed in executable memory by the \<^emph>\<open>allocator\<close>, followed by a jump back behind the trampoline; \<^verbatim>\<open>origin\<close> points to
  this copy. \<^verbatim>\<open>DobbyInstrument\<close> jumps to a \<^emph>\<open>closure trampoline\<close> instead, which saves the registers, calls a
  handler and goes on with the relocated code. \<^verbatim>\<open>DobbyDestroy\<close> writes the original bytes back. A registry holds one
  entry per patched address.

  \<^bold>\<open>Theories.\<close> Paths are below \<^verbatim>\<open>Dobby/source\<close>; those of the last two items are below \<^verbatim>\<open>cpp\<close>.

  \<^item> \<^verbatim>\<open>Dobby_Prelude\<close>: integer types, results with errors (\<open>bind_res\<close>), little-endian bytes, the bit-field and
    alignment macros of \<^verbatim>\<open>dobby/utility_macro.h\<close>.
  \<^item> \<^verbatim>\<open>Arm64_Kit\<close>, \<^verbatim>\<open>Arm64_Constants\<close>, \<^verbatim>\<open>Arm64_Asm\<close>: the decoders and encoders of A64 branch fields
    (\<^verbatim>\<open>InstructionRelocation/arm64/inst_decode_encode_kit.h\<close>), the encoding constants, and the registers, assembler and
    code generator (\<^verbatim>\<open>core/arch/arm64\<close>, \<^verbatim>\<open>core/assembler/assembler-arm64.h\<close>, \<^verbatim>\<open>core/codegen\<close>).
  \<^item> \<^verbatim>\<open>Code_Buffer\<close>: \<^verbatim>\<open>MemoryAllocator/CodeBuffer\<close>, labels, and the assembler state with its literal pool. Buffers are
    byte lists; label objects live in a list and pointers to them are indices.
  \<^item> \<^verbatim>\<open>Arm64_Sem\<close>: a reference semantics of the A64 instructions involved, independent of the code. It is what
    \<^emph>\<open>running\<close> emitted code means: \<open>a64_run n s\<close> makes \<open>n\<close> steps.
  \<^item> \<^verbatim>\<open>Arm64_Reloc\<close>, \<^verbatim>\<open>Arm64_Reloc_Sim\<close>: the relocator of \<^verbatim>\<open>InstructionRelocationARM64.cc\<close> and its simulation proof.
  \<^item> \<^verbatim>\<open>Arm64_Encode\<close>: the words the assembler emits decode to the instruction asked for.
  \<^item> \<^verbatim>\<open>X86_Tables\<close>, \<^verbatim>\<open>X86_Decode\<close>: the opcode tables, reader and decoder of
    \<^verbatim>\<open>InstructionRelocation/x86/x86_insn_decode\<close>.
  \<^item> \<^verbatim>\<open>X86_Reloc\<close>, \<^verbatim>\<open>X86_Reloc_Sim\<close>: the x64 and IA-32 relocators over that decoder, and what relocated branches do.
  \<^item> \<^verbatim>\<open>Literal_Pool\<close>: code made of blocks with references to literals that are bound at the end, for any
    instruction set.
  \<^item> \<^verbatim>\<open>Arm32_Asm\<close>, \<^verbatim>\<open>Arm32_Reloc\<close>: the 32-bit ARM back end, which is the one that \<^verbatim>\<open>build.gradle\<close> selects
    (\<^verbatim>\<open>abiFilters 'armeabi-v7a'\<close>): registers, the A32 and Thumb assemblers and code generators (\<^verbatim>\<open>core/assembler/assembler-arm\<close>,
    \<^verbatim>\<open>core/codegen/codegen-arm\<close>), the relocator \<^verbatim>\<open>InstructionRelocationARM.cc\<close> and \<^verbatim>\<open>trampoline_arm.cc\<close>.
  \<^item> \<^verbatim>\<open>Arm32_Sem\<close>: a reference semantics of A32 and Thumb code, \<open>a32_run n s\<close>.
  \<^item> \<^verbatim>\<open>Arm32_Blocks\<close>, \<^verbatim>\<open>Arm32_Reloc_Sim\<close>: what the relocator emits as blocks, the relocation loop of both instruction
    sets, and the simulation proof for A32; \<^verbatim>\<open>Thumb_Blocks\<close>, \<^verbatim>\<open>Thumb_Decode\<close>, \<^verbatim>\<open>Thumb_Run\<close>, \<^verbatim>\<open>Thumb_Reloc_Sim\<close>:
    the same for Thumb code, with the errors of its conditional branches, and the trampolines.
  \<^item> \<^verbatim>\<open>Process_Memory\<close>: \<^verbatim>\<open>mmap\<close>, \<^verbatim>\<open>mprotect\<close>, \<^verbatim>\<open>munmap\<close> on a page table, \<^verbatim>\<open>platform-posix.cc\<close>,
    \<^verbatim>\<open>code-patch-tool-posix.cc\<close> and the memory map of \<^verbatim>\<open>ProcessRuntimeUtility.cc\<close>.
  \<^item> \<^verbatim>\<open>Mem_Alloc\<close>: \<^verbatim>\<open>MemoryAllocator.cc\<close>, \<^verbatim>\<open>NearMemoryAllocator.cc\<close>, \<^verbatim>\<open>AssemblyCodeBuilder.cc\<close>.
  \<^item> \<^verbatim>\<open>Arm64_Trampoline\<close>: \<^verbatim>\<open>trampoline_arm64.cc\<close> and \<^verbatim>\<open>near_trampoline_arm64.cc\<close>.
  \<^item> \<^verbatim>\<open>Arm64_Closure\<close>: \<^verbatim>\<open>ClosureTrampolineARM64.cc\<close> and \<^verbatim>\<open>closure_bridge_arm64.cc\<close>.
  \<^item> \<^verbatim>\<open>Interceptor\<close>: \<^verbatim>\<open>Interceptor.cpp\<close>, \<^verbatim>\<open>dobby.cpp\<close>, the routing objects and the public operations.
  \<^item> \<^verbatim>\<open>Arm32_Hook\<close>: the \<^verbatim>\<open>TARGET_ARCH_ARM\<close> branches of the entry, the routing of inline hooks, \<^verbatim>\<open>DobbyHook\<close> and
    \<^verbatim>\<open>DobbyDestroy\<close>, over the 32-bit relocator and trampolines, with the end-to-end theorems for A32 and Thumb functions.
  \<^item> \<^verbatim>\<open>Thread_Pool\<close>: \<^verbatim>\<open>ThreadPool.h\<close> as a transition system of workers, clients and the destructor, with its invariant,
    the absence of lost wake-ups and the termination of the destructor.
  \<^item> \<^verbatim>\<open>Jni_Env\<close>, \<^verbatim>\<open>Jni_Hook\<close>: the JNI function table and wrapper of \<^verbatim>\<open>hook_jni.h\<close>, and \<^verbatim>\<open>native-lib.cpp\<close>: the stand-in
    functions, the table that \<^verbatim>\<open>initial\<close> builds, and \<^verbatim>\<open>loadELF\<close>. A library under analysis is any sequence of calls of the
    table; handles of classes and methods are interned over all such sequences.

  \<^bold>\<open>How the parts meet.\<close> The state of the library is the record \<open>dobby\<close>: the list of entries, the plugin switch, the
  closure bridge, and a \<open>machine\<close>, which is the two allocators and the process (page table and byte memory). The
  relocator and the assembler are pure functions on buffers; \<open>FinalizeFromTurboAssembler\<close> places their result.
  \<open>DobbyHook\<close> composes them as the code does. The end-to-end theorems run the final memory of the process:
  \<open>DobbyHook_redirects\<close> (a call reaches the replacement), \<open>DobbyHook_origin_simulates\<close> (the returned pointer stands for
  the original function), \<open>DobbyHook_Destroy_restores\<close>, \<open>DobbyHook_errors\<close>, and \<open>interceptor_refines_map\<close> (the list of
  entries implements a map, over all reachable states); \<open>DobbyHook_arm_redirects\<close>, \<open>DobbyHook_arm_origin_simulates\<close> and
  \<open>DobbyHook_arm_Destroy_restores\<close> say the same of 32-bit ARM, where \<open>thumb_function_hooked_twice\<close> shows that the registry
  accepts a Thumb function twice.

  \<^bold>\<open>Interfaces.\<close> Each locale states a contract and is interpreted on the model's definitions: the linker of literal
  pools and its extension to blocks of code, the relocation loop of the two 32-bit instruction sets, the readers of the decoder, the region allocator (arenas and whole allocators), the registry of hooks, and the tables
  of handles (classes and methods).

  \<^bold>\<open>Bounds and fuel.\<close> The loops of the relocators and the decoder are total functions with a measure; no fuel is used
  except in \<open>a64_run\<close> and \<open>a32_run\<close>, where each theorem gives the number of steps or its existence. Literal loads reach 1 MiB, hence the
  bound \<open>2 ^ 20\<close> on relocated A64 code; those of 32-bit code reach 4096 bytes from a word-aligned address, hence the
  bound in \<open>at_code\<close>; a code patch makes at most two pages writable, hence \<open>length \<le> page_size\<close>. Page
  sizes are powers of two from \<open>2 ^ 3\<close> to \<open>2 ^ 30\<close>. \<open>kernel_mmap\<close> is what the kernel promises of a mapping (aligned, in
  the address space, free pages unless the address is fixed), \<open>kernel_maps\<close> what it promises of \<^verbatim>\<open>/proc/self/maps\<close> (the
  unused regions between its lines are not mapped).

  \<^bold>\<open>Not modelled.\<close> \<^verbatim>\<open>DobbyInstrument\<close> with the closure trampoline and bridge of 32-bit ARM; the x64 and IA-32 assemblers and closure bridges; the symbol resolvers and other plugins under \<^verbatim>\<open>builtin-plugin\<close>, which parse ELF and
  Mach-O images of the running system; the Darwin, Windows and kernel-mode back ends; logging, the vendored TINYSTL, the
  deprecated decoder table, the unused function wrapper (it does not compile against the current \<open>InterceptEntry\<close>), the
  unused sample hook of \<^verbatim>\<open>open\<close> in \<^verbatim>\<open>native-lib.cpp\<close>, and the Java side. Instruction caches and concurrent
  execution of a function while it is patched are outside the model.
\<close>

end
